(* ===== verification/Prelude.thy ===== *)
theory Prelude
  imports Main "HOL-Library.Word" "HOL-Library.Monad_Syntax"
begin

text \<open>
  Shared vocabulary of the development: Go's machine types, Go slices as lists with
  checked access, and the lemmas on them that the component theories use.

  A Go runtime panic (index or slice bounds out of range, explicit \<open>panic\<close>) is the value
  \<open>None\<close>; a computation that does not panic is \<open>Some\<close>. Reads and writes through
  \<open>get_at\<close>, \<open>be16_at\<close>, \<open>put_be16\<close> and so on check their bounds as the Go runtime does.
\<close>

unbundle bit_operations_syntax

named_theorems go_simps \<open>unfolding rules for the checked slice operations\<close>
named_theorems size_keep \<open>an operation keeps the length of a byte slice\<close>

section \<open>Go types\<close>

type_synonym i64 = "64 word"
type_synonym u64 = "64 word"
type_synonym byte = "8 word"
type_synonym bytes = "byte list"

text \<open>Go integer division truncates towards zero; \<open>math.MinInt64 / -1\<close> wraps.\<close>

definition i64_quot :: "i64 \<Rightarrow> i64 \<Rightarrow> i64" where
  "i64_quot a b = word_of_int (sgn (sint a) * sgn (sint b) * (\<bar>sint a\<bar> div \<bar>sint b\<bar>))"

definition i64_rem :: "i64 \<Rightarrow> i64 \<Rightarrow> i64" where
  "i64_rem a b = word_of_int (sgn (sint a) * (\<bar>sint a\<bar> mod \<bar>sint b\<bar>))"

definition i64_pos :: "i64 \<Rightarrow> bool" where
  "i64_pos a \<longleftrightarrow> 0 < sint a"

definition i64_of_int :: "int \<Rightarrow> i64" where
  "i64_of_int n = word_of_int n"

section \<open>Slices with checked access\<close>

definition get_at :: "'a list \<Rightarrow> nat \<Rightarrow> 'a option" where
  "get_at xs i = (if i < length xs then Some (xs ! i) else None)"

definition put_at :: "'a list \<Rightarrow> nat \<Rightarrow> 'a \<Rightarrow> 'a list option" where
  "put_at xs i x = (if i < length xs then Some (xs[i := x]) else None)"

text \<open>\<open>binary.BigEndian.Uint16(b[i:])\<close> and \<open>binary.BigEndian.Uint32(b[i:])\<close>.\<close>

definition be16_at :: "bytes \<Rightarrow> nat \<Rightarrow> nat option" where
  "be16_at bs i =
     (if i + 2 \<le> length bs then Some (unat (bs ! i) * 256 + unat (bs ! (i + 1))) else None)"

definition be32_at :: "bytes \<Rightarrow> nat \<Rightarrow> nat option" where
  "be32_at bs i =
     (if i + 4 \<le> length bs
      then Some (unat (bs ! i) * 16777216 + unat (bs ! (i + 1)) * 65536
                 + unat (bs ! (i + 2)) * 256 + unat (bs ! (i + 3)))
      else None)"

text \<open>\<open>binary.BigEndian.PutUint16(b[i:], uint16(n))\<close>: the conversion keeps the low 16 bits.\<close>

definition put_be16 :: "bytes \<Rightarrow> nat \<Rightarrow> nat \<Rightarrow> bytes option" where
  "put_be16 bs i n =
     (if i + 2 \<le> length bs
      then Some (bs[i := word_of_nat (n div 256), i + 1 := word_of_nat n]) else None)"

definition put_be32 :: "bytes \<Rightarrow> nat \<Rightarrow> nat \<Rightarrow> bytes option" where
  "put_be32 bs i n =
     (if i + 4 \<le> length bs
      then Some (bs[i := word_of_nat (n div 16777216), i + 1 := word_of_nat (n div 65536),
                    i + 2 := word_of_nat (n div 256), i + 3 := word_of_nat n])
      else None)"

text \<open>\<open>for p := from; p <= to; p++ { b[p] = x }\<close>, written over the half-open range.\<close>

fun fill_count :: "'a list \<Rightarrow> nat \<Rightarrow> nat \<Rightarrow> 'a \<Rightarrow> 'a list option" where
  "fill_count xs p 0 x = Some xs"
| "fill_count xs p (Suc n) x = (put_at xs p x \<bind> (\<lambda>ys. fill_count ys (Suc p) n x))"

definition fill_range :: "'a list \<Rightarrow> nat \<Rightarrow> nat \<Rightarrow> 'a \<Rightarrow> 'a list option" where
  "fill_range xs from stop x = fill_count xs from (stop - from) x"

section \<open>Lemmas on checked access\<close>

lemma get_at_Some [simp]: "get_at xs i = Some x \<longleftrightarrow> i < length xs \<and> xs ! i = x"
  by (auto simp: get_at_def)

lemma get_at_in [simp]: "i < length xs \<Longrightarrow> get_at xs i = Some (xs ! i)"
  by (simp add: get_at_def)

lemma get_at_out [simp]: "length xs \<le> i \<Longrightarrow> get_at xs i = None"
  by (simp add: get_at_def)

lemma put_at_length [size_keep]: "put_at xs i x = Some ys \<Longrightarrow> length ys = length xs"
  by (auto simp: put_at_def split: if_splits)

lemma put_be16_length [size_keep]: "put_be16 bs i n = Some bs' \<Longrightarrow> length bs' = length bs"
  by (auto simp: put_be16_def split: if_splits)

lemma put_be32_length [size_keep]: "put_be32 bs i n = Some bs' \<Longrightarrow> length bs' = length bs"
  by (auto simp: put_be32_def split: if_splits)

lemma fill_count_length [size_keep]: "fill_count xs p n x = Some ys \<Longrightarrow> length ys = length xs"
  by (induction xs p n x rule: fill_count.induct)
     (auto simp: Option.bind_eq_Some_conv dest: put_at_length)

lemma fill_range_length [size_keep]: "fill_range xs a b x = Some ys \<Longrightarrow> length ys = length xs"
  by (auto simp: fill_range_def dest: fill_count_length)

lemma fill_count_nth:
  "fill_count xs p n x = Some ys \<Longrightarrow> i < length xs \<Longrightarrow>
   ys ! i = (if p \<le> i \<and> i < p + n then x else xs ! i)"
proof (induction xs p n x arbitrary: ys rule: fill_count.induct)
  case (1 xs p x)
  then show ?case by auto
next
  case (2 xs p n x)
  then obtain zs where zs: "put_at xs p x = Some zs" and ys: "fill_count zs (Suc p) n x = Some ys"
    by (auto simp: Option.bind_eq_Some_conv)
  have len: "length zs = length xs" and p: "p < length xs" and zs': "zs = xs[p := x]"
    using zs by (auto simp: put_at_def split: if_splits)
  have "ys ! i = (if Suc p \<le> i \<and> i < Suc p + n then x else zs ! i)"
    using "2.IH"[OF zs ys] "2.prems" len by simp
  then show ?case using zs' "2.prems" by (auto simp: nth_list_update)
qed

lemma fill_range_nth:
  "fill_range xs a b x = Some ys \<Longrightarrow> i < length xs \<Longrightarrow>
   ys ! i = (if a \<le> i \<and> i < b then x else xs ! i)"
  using fill_count_nth[of xs a "b - a" x ys i] by (auto simp: fill_range_def)

lemma fill_count_Some: "p + n \<le> length xs \<Longrightarrow> \<exists>ys. fill_count xs p n x = Some ys"
  by (induction xs p n x rule: fill_count.induct) (auto simp: put_at_def)

lemma fill_range_Some: "b \<le> length xs \<Longrightarrow> \<exists>ys. fill_range xs a b x = Some ys"
  using fill_count_Some[of a "b - a" xs x]
  by (cases "a \<le> b") (auto simp: fill_range_def)

section \<open>Big-endian round trips\<close>

lemma unat_byte: "unat (word_of_nat n :: byte) = n mod 256"
  by (simp add: unat_of_nat)

lemma be16_put_same:
  "put_be16 bs i n = Some bs' \<Longrightarrow> be16_at bs' i = Some (n mod 65536)"
proof -
  assume h: "put_be16 bs i n = Some bs'"
  have "(n div 256) mod 256 * 256 + n mod 256 = n mod 65536"
    using mod_mult2_eq[of n 256 256] by simp
  then show ?thesis
    using h by (auto simp: put_be16_def be16_at_def unat_byte split: if_splits)
qed

lemma be16_put_other:
  "put_be16 bs i n = Some bs' \<Longrightarrow> j + 2 \<le> i \<or> i + 2 \<le> j \<Longrightarrow> be16_at bs' j = be16_at bs j"
  by (auto simp: put_be16_def be16_at_def nth_list_update split: if_splits)

lemma be32_put_same:
  "put_be32 bs i n = Some bs' \<Longrightarrow> be32_at bs' i = Some (n mod 4294967296)"
proof -
  assume h: "put_be32 bs i n = Some bs'"
  have a: "n mod 4294967296 = n mod 65536 + 65536 * (n div 65536 mod 65536)"
    using mod_mult2_eq[of n 65536 65536] by simp
  have b: "n mod 65536 = n mod 256 + 256 * (n div 256 mod 256)"
    using mod_mult2_eq[of n 256 256] by simp
  have c: "n div 65536 mod 65536 = n div 65536 mod 256 + 256 * (n div 16777216 mod 256)"
    using mod_mult2_eq[of "n div 65536" 256 256] by (simp add: div_mult2_eq[symmetric])
  have "(n div 16777216) mod 256 * 16777216 + (n div 65536) mod 256 * 65536
        + (n div 256) mod 256 * 256 + n mod 256 = n mod 4294967296"
    using a b c by simp
  then show ?thesis
    using h by (auto simp: put_be32_def be32_at_def unat_byte nth_list_update split: if_splits)
qed

lemma be16_at_bound: "be16_at bs i = Some n \<Longrightarrow> n < 65536"
proof -
  assume h: "be16_at bs i = Some n"
  have "unat (bs ! i) < 256" "unat (bs ! (i + 1)) < 256"
    using unsigned_less[of "bs ! i"] unsigned_less[of "bs ! (i + 1)"] by simp_all
  then show ?thesis using h by (auto simp: be16_at_def split: if_splits)
qed

lemma be16_at_cong:
  "length bs' = length bs \<Longrightarrow> (\<And>k. k < length bs \<Longrightarrow> i \<le> k \<Longrightarrow> k < i + 2 \<Longrightarrow> bs' ! k = bs ! k)
   \<Longrightarrow> be16_at bs' i = be16_at bs i"
  by (auto simp: be16_at_def)

lemma be32_at_cong:
  "length bs' = length bs \<Longrightarrow> (\<And>k. k < length bs \<Longrightarrow> i \<le> k \<Longrightarrow> k < i + 4 \<Longrightarrow> bs' ! k = bs ! k)
   \<Longrightarrow> be32_at bs' i = be32_at bs i"
  by (auto simp: be32_at_def)

end
