(* ===== verification/Opcodes.thy ===== *)
theory Opcodes
  imports Prelude
begin

text \<open>
  The instruction set (\<open>axonvm/opcode.go\<close>): \<open>OpCode\<close> and \<open>ExtOpCode\<close> are bytes, numbered by
  \<open>iota\<close> in declaration order, and their \<open>String\<close> methods. Every opcode constant is one
  definition; \<open>op_defs\<close> collects them for the simplifier.
\<close>

named_theorems op_defs \<open>opcode numbers\<close>

type_synonym OpCode = byte
type_synonym ExtOpCode = byte

section \<open>Primary opcodes\<close>

definition OpHalt :: OpCode where [op_defs]: "OpHalt = 0"
definition OpConstant :: OpCode where [op_defs]: "OpConstant = 1"
definition OpPop :: OpCode where [op_defs]: "OpPop = 2"
definition OpGetGlobal :: OpCode where [op_defs]: "OpGetGlobal = 3"
definition OpSetGlobal :: OpCode where [op_defs]: "OpSetGlobal = 4"
definition OpGetLocal :: OpCode where [op_defs]: "OpGetLocal = 5"
definition OpSetLocal :: OpCode where [op_defs]: "OpSetLocal = 6"
definition OpGetClassMember :: OpCode where [op_defs]: "OpGetClassMember = 7"
definition OpSetClassMember :: OpCode where [op_defs]: "OpSetClassMember = 8"
definition OpEraseGlobal :: OpCode where [op_defs]: "OpEraseGlobal = 9"
definition OpEraseLocal :: OpCode where [op_defs]: "OpEraseLocal = 10"
definition OpEraseClassMember :: OpCode where [op_defs]: "OpEraseClassMember = 11"
definition OpSet :: OpCode where [op_defs]: "OpSet = 12"
definition OpAdd :: OpCode where [op_defs]: "OpAdd = 13"
definition OpSub :: OpCode where [op_defs]: "OpSub = 14"
definition OpMul :: OpCode where [op_defs]: "OpMul = 15"
definition OpDiv :: OpCode where [op_defs]: "OpDiv = 16"
definition OpMod :: OpCode where [op_defs]: "OpMod = 17"
definition OpPow :: OpCode where [op_defs]: "OpPow = 18"
definition OpIAdd :: OpCode where [op_defs]: "OpIAdd = 19"
definition OpISub :: OpCode where [op_defs]: "OpISub = 20"
definition OpIMul :: OpCode where [op_defs]: "OpIMul = 21"
definition OpIDiv :: OpCode where [op_defs]: "OpIDiv = 22"
definition OpIRightShift :: OpCode where [op_defs]: "OpIRightShift = 23"
definition OpMathSin :: OpCode where [op_defs]: "OpMathSin = 24"
definition OpMathCos :: OpCode where [op_defs]: "OpMathCos = 25"
definition OpMathTan :: OpCode where [op_defs]: "OpMathTan = 26"
definition OpMathAtn :: OpCode where [op_defs]: "OpMathAtn = 27"
definition OpMathSqr :: OpCode where [op_defs]: "OpMathSqr = 28"
definition OpMathAbs :: OpCode where [op_defs]: "OpMathAbs = 29"
definition OpMathExp :: OpCode where [op_defs]: "OpMathExp = 30"
definition OpMathLog :: OpCode where [op_defs]: "OpMathLog = 31"
definition OpMathRound :: OpCode where [op_defs]: "OpMathRound = 32"
definition OpMathInt :: OpCode where [op_defs]: "OpMathInt = 33"
definition OpConcat :: OpCode where [op_defs]: "OpConcat = 34"
definition OpEq :: OpCode where [op_defs]: "OpEq = 35"
definition OpIsRef :: OpCode where [op_defs]: "OpIsRef = 36"
definition OpIsNotRef :: OpCode where [op_defs]: "OpIsNotRef = 37"
definition OpNeq :: OpCode where [op_defs]: "OpNeq = 38"
definition OpLt :: OpCode where [op_defs]: "OpLt = 39"
definition OpGt :: OpCode where [op_defs]: "OpGt = 40"
definition OpLte :: OpCode where [op_defs]: "OpLte = 41"
definition OpGte :: OpCode where [op_defs]: "OpGte = 42"
definition OpAnd :: OpCode where [op_defs]: "OpAnd = 43"
definition OpOr :: OpCode where [op_defs]: "OpOr = 44"
definition OpXor :: OpCode where [op_defs]: "OpXor = 45"
definition OpNot :: OpCode where [op_defs]: "OpNot = 46"
definition OpNeg :: OpCode where [op_defs]: "OpNeg = 47"
definition OpEqv :: OpCode where [op_defs]: "OpEqv = 48"
definition OpImp :: OpCode where [op_defs]: "OpImp = 49"
definition OpJump :: OpCode where [op_defs]: "OpJump = 50"
definition OpJumpIfFalse :: OpCode where [op_defs]: "OpJumpIfFalse = 51"
definition OpJumpIfTrue :: OpCode where [op_defs]: "OpJumpIfTrue = 52"
definition OpWrite :: OpCode where [op_defs]: "OpWrite = 53"
definition OpWriteStatic :: OpCode where [op_defs]: "OpWriteStatic = 54"
definition OpWriteN :: OpCode where [op_defs]: "OpWriteN = 55"
definition OpSetOption :: OpCode where [op_defs]: "OpSetOption = 56"
definition OpSetDirective :: OpCode where [op_defs]: "OpSetDirective = 57"
definition OpRegisterClass :: OpCode where [op_defs]: "OpRegisterClass = 58"
definition OpRegisterClassMethod :: OpCode where [op_defs]: "OpRegisterClassMethod = 59"
definition OpRegisterClassField :: OpCode where [op_defs]: "OpRegisterClassField = 60"
definition OpRegisterClassPropertyGet :: OpCode where [op_defs]: "OpRegisterClassPropertyGet = 61"
definition OpInitClassArrayField :: OpCode where [op_defs]: "OpInitClassArrayField = 62"
definition OpRegisterClassPropertyLet :: OpCode where [op_defs]: "OpRegisterClassPropertyLet = 63"
definition OpRegisterClassPropertySet :: OpCode where [op_defs]: "OpRegisterClassPropertySet = 64"
definition OpOnErrorResumeNext :: OpCode where [op_defs]: "OpOnErrorResumeNext = 65"
definition OpOnErrorGoto0 :: OpCode where [op_defs]: "OpOnErrorGoto0 = 66"
definition OpLine :: OpCode where [op_defs]: "OpLine = 67"
definition OpLabel :: OpCode where [op_defs]: "OpLabel = 68"
definition OpGotoLabel :: OpCode where [op_defs]: "OpGotoLabel = 69"
definition OpMemberGet :: OpCode where [op_defs]: "OpMemberGet = 70"
definition OpMemberSet :: OpCode where [op_defs]: "OpMemberSet = 71"
definition OpMemberSetSet :: OpCode where [op_defs]: "OpMemberSetSet = 72"
definition OpMe :: OpCode where [op_defs]: "OpMe = 73"
definition OpCallMember :: OpCode where [op_defs]: "OpCallMember = 74"
definition OpCallBuiltin :: OpCode where [op_defs]: "OpCallBuiltin = 75"
definition OpCall :: OpCode where [op_defs]: "OpCall = 76"
definition OpNewClass :: OpCode where [op_defs]: "OpNewClass = 77"
definition OpArraySet :: OpCode where [op_defs]: "OpArraySet = 78"
definition OpRet :: OpCode where [op_defs]: "OpRet = 79"
definition OpSwap :: OpCode where [op_defs]: "OpSwap = 80"
definition OpArgGlobalRef :: OpCode where [op_defs]: "OpArgGlobalRef = 81"
definition OpArgLocalRef :: OpCode where [op_defs]: "OpArgLocalRef = 82"
definition OpArgClassMemberRef :: OpCode where [op_defs]: "OpArgClassMemberRef = 83"
definition OpWithEnter :: OpCode where [op_defs]: "OpWithEnter = 84"
definition OpWithLeave :: OpCode where [op_defs]: "OpWithLeave = 85"
definition OpWithLoad :: OpCode where [op_defs]: "OpWithLoad = 86"
definition OpLetGlobal :: OpCode where [op_defs]: "OpLetGlobal = 87"
definition OpLetLocal :: OpCode where [op_defs]: "OpLetLocal = 88"
definition OpLetClassMember :: OpCode where [op_defs]: "OpLetClassMember = 89"
definition OpCoerceToValue :: OpCode where [op_defs]: "OpCoerceToValue = 90"
definition OpJSDeclareName :: OpCode where [op_defs]: "OpJSDeclareName = 91"
definition OpJSGetName :: OpCode where [op_defs]: "OpJSGetName = 92"
definition OpJSSetName :: OpCode where [op_defs]: "OpJSSetName = 93"
definition OpJSImport :: OpCode where [op_defs]: "OpJSImport = 94"
definition OpJSExport :: OpCode where [op_defs]: "OpJSExport = 95"
definition OpJSGetLocal :: OpCode where [op_defs]: "OpJSGetLocal = 96"
definition OpJSSetLocal :: OpCode where [op_defs]: "OpJSSetLocal = 97"
definition OpJSIncLocal :: OpCode where [op_defs]: "OpJSIncLocal = 98"
definition OpJSDecLocal :: OpCode where [op_defs]: "OpJSDecLocal = 99"
definition OpJSMemberGet :: OpCode where [op_defs]: "OpJSMemberGet = 100"
definition OpJSMemberSet :: OpCode where [op_defs]: "OpJSMemberSet = 101"
definition OpJSCall :: OpCode where [op_defs]: "OpJSCall = 102"
definition OpJSCallMember :: OpCode where [op_defs]: "OpJSCallMember = 103"
definition OpJSTailCall :: OpCode where [op_defs]: "OpJSTailCall = 104"
definition OpJSTailCallMember :: OpCode where [op_defs]: "OpJSTailCallMember = 105"
definition OpJSCallComputedMember :: OpCode where [op_defs]: "OpJSCallComputedMember = 106"
definition OpJSTailCallComputedMember :: OpCode where [op_defs]: "OpJSTailCallComputedMember = 107"
definition OpJSCreateClosure :: OpCode where [op_defs]: "OpJSCreateClosure = 108"
definition OpJSAdd :: OpCode where [op_defs]: "OpJSAdd = 109"
definition OpJSStrictEq :: OpCode where [op_defs]: "OpJSStrictEq = 110"
definition OpJSStrictNeq :: OpCode where [op_defs]: "OpJSStrictNeq = 111"
definition OpJSTryEnter :: OpCode where [op_defs]: "OpJSTryEnter = 112"
definition OpJSTryLeave :: OpCode where [op_defs]: "OpJSTryLeave = 113"
definition OpJSThrow :: OpCode where [op_defs]: "OpJSThrow = 114"
definition OpJSNewObject :: OpCode where [op_defs]: "OpJSNewObject = 115"
definition OpJSNewArray :: OpCode where [op_defs]: "OpJSNewArray = 116"
definition OpJSTypeof :: OpCode where [op_defs]: "OpJSTypeof = 117"
definition OpJSInstanceOf :: OpCode where [op_defs]: "OpJSInstanceOf = 118"
definition OpJSIn :: OpCode where [op_defs]: "OpJSIn = 119"
definition OpJSDelete :: OpCode where [op_defs]: "OpJSDelete = 120"
definition OpJSReturn :: OpCode where [op_defs]: "OpJSReturn = 121"
definition OpJSLoadUndefined :: OpCode where [op_defs]: "OpJSLoadUndefined = 122"
definition OpJSLoadThis :: OpCode where [op_defs]: "OpJSLoadThis = 123"
definition OpJSSetThis :: OpCode where [op_defs]: "OpJSSetThis = 124"
definition OpJSDup :: OpCode where [op_defs]: "OpJSDup = 125"
definition OpJSRequireObject :: OpCode where [op_defs]: "OpJSRequireObject = 126"
definition OpJSGetIterator :: OpCode where [op_defs]: "OpJSGetIterator = 127"
definition OpJSIteratorNext :: OpCode where [op_defs]: "OpJSIteratorNext = 128"
definition OpJSCollectRest :: OpCode where [op_defs]: "OpJSCollectRest = 129"
definition OpJSObjectRest :: OpCode where [op_defs]: "OpJSObjectRest = 130"
definition OpJSPop :: OpCode where [op_defs]: "OpJSPop = 131"
definition OpJSRot :: OpCode where [op_defs]: "OpJSRot = 132"
definition OpJSJump :: OpCode where [op_defs]: "OpJSJump = 133"
definition OpJSJumpIfFalse :: OpCode where [op_defs]: "OpJSJumpIfFalse = 134"
definition OpJSJumpIfTrue :: OpCode where [op_defs]: "OpJSJumpIfTrue = 135"
definition OpJSJumpIfNotUndefined :: OpCode where [op_defs]: "OpJSJumpIfNotUndefined = 136"
definition OpJSLoadCatchError :: OpCode where [op_defs]: "OpJSLoadCatchError = 137"
definition OpJSStoreCatchError :: OpCode where [op_defs]: "OpJSStoreCatchError = 138"
definition OpJSBreak :: OpCode where [op_defs]: "OpJSBreak = 139"
definition OpJSContinue :: OpCode where [op_defs]: "OpJSContinue = 140"
definition OpJSForIn :: OpCode where [op_defs]: "OpJSForIn = 141"
definition OpJSForInCleanup :: OpCode where [op_defs]: "OpJSForInCleanup = 142"
definition OpJSSwitch :: OpCode where [op_defs]: "OpJSSwitch = 143"
definition OpJSCase :: OpCode where [op_defs]: "OpJSCase = 144"
definition OpJSDefault :: OpCode where [op_defs]: "OpJSDefault = 145"
definition OpJSSubtract :: OpCode where [op_defs]: "OpJSSubtract = 146"
definition OpJSMultiply :: OpCode where [op_defs]: "OpJSMultiply = 147"
definition OpJSDivide :: OpCode where [op_defs]: "OpJSDivide = 148"
definition OpJSModulo :: OpCode where [op_defs]: "OpJSModulo = 149"
definition OpJSNegate :: OpCode where [op_defs]: "OpJSNegate = 150"
definition OpJSUnaryPlus :: OpCode where [op_defs]: "OpJSUnaryPlus = 151"
definition OpJSBitwiseAnd :: OpCode where [op_defs]: "OpJSBitwiseAnd = 152"
definition OpJSBitwiseOr :: OpCode where [op_defs]: "OpJSBitwiseOr = 153"
definition OpJSBitwiseXor :: OpCode where [op_defs]: "OpJSBitwiseXor = 154"
definition OpJSBitwiseNot :: OpCode where [op_defs]: "OpJSBitwiseNot = 155"
definition OpJSLeftShift :: OpCode where [op_defs]: "OpJSLeftShift = 156"
definition OpJSRightShift :: OpCode where [op_defs]: "OpJSRightShift = 157"
definition OpJSUnsignedRightShift :: OpCode where [op_defs]: "OpJSUnsignedRightShift = 158"
definition OpJSLess :: OpCode where [op_defs]: "OpJSLess = 159"
definition OpJSGreater :: OpCode where [op_defs]: "OpJSGreater = 160"
definition OpJSLessEqual :: OpCode where [op_defs]: "OpJSLessEqual = 161"
definition OpJSGreaterEqual :: OpCode where [op_defs]: "OpJSGreaterEqual = 162"
definition OpJSLooseEqual :: OpCode where [op_defs]: "OpJSLooseEqual = 163"
definition OpJSLooseNotEqual :: OpCode where [op_defs]: "OpJSLooseNotEqual = 164"
definition OpJSLogicalAnd :: OpCode where [op_defs]: "OpJSLogicalAnd = 165"
definition OpJSLogicalOr :: OpCode where [op_defs]: "OpJSLogicalOr = 166"
definition OpJSLogicalNot :: OpCode where [op_defs]: "OpJSLogicalNot = 167"
definition OpJSNew :: OpCode where [op_defs]: "OpJSNew = 168"
definition OpJSMemberDelete :: OpCode where [op_defs]: "OpJSMemberDelete = 169"
definition OpJSIndexGet :: OpCode where [op_defs]: "OpJSIndexGet = 170"
definition OpJSIndexSet :: OpCode where [op_defs]: "OpJSIndexSet = 171"
definition OpJSComma :: OpCode where [op_defs]: "OpJSComma = 172"
definition OpJSPostIncrement :: OpCode where [op_defs]: "OpJSPostIncrement = 173"
definition OpJSPostDecrement :: OpCode where [op_defs]: "OpJSPostDecrement = 174"
definition OpJSPreIncrement :: OpCode where [op_defs]: "OpJSPreIncrement = 175"
definition OpJSPreDecrement :: OpCode where [op_defs]: "OpJSPreDecrement = 176"
definition OpJSAddAssign :: OpCode where [op_defs]: "OpJSAddAssign = 177"
definition OpJSSubtractAssign :: OpCode where [op_defs]: "OpJSSubtractAssign = 178"
definition OpJSMultiplyAssign :: OpCode where [op_defs]: "OpJSMultiplyAssign = 179"
definition OpJSDivideAssign :: OpCode where [op_defs]: "OpJSDivideAssign = 180"
definition OpJSModuloAssign :: OpCode where [op_defs]: "OpJSModuloAssign = 181"
definition OpJSMemberIndexGet :: OpCode where [op_defs]: "OpJSMemberIndexGet = 182"
definition OpJSMemberIndexSet :: OpCode where [op_defs]: "OpJSMemberIndexSet = 183"
definition OpJSPostMemberIncrement :: OpCode where [op_defs]: "OpJSPostMemberIncrement = 184"
definition OpJSPostMemberDecrement :: OpCode where [op_defs]: "OpJSPostMemberDecrement = 185"
definition OpJSPreMemberIncrement :: OpCode where [op_defs]: "OpJSPreMemberIncrement = 186"
definition OpJSPreMemberDecrement :: OpCode where [op_defs]: "OpJSPreMemberDecrement = 187"
definition OpJSPostIndexIncrement :: OpCode where [op_defs]: "OpJSPostIndexIncrement = 188"
definition OpJSPostIndexDecrement :: OpCode where [op_defs]: "OpJSPostIndexDecrement = 189"
definition OpJSPreIndexIncrement :: OpCode where [op_defs]: "OpJSPreIndexIncrement = 190"
definition OpJSPreIndexDecrement :: OpCode where [op_defs]: "OpJSPreIndexDecrement = 191"
definition OpJSExponent :: OpCode where [op_defs]: "OpJSExponent = 192"
definition OpJSCoalesce :: OpCode where [op_defs]: "OpJSCoalesce = 193"
definition OpJSJumpIfNullish :: OpCode where [op_defs]: "OpJSJumpIfNullish = 194"
definition OpJSJumpIfNotNullish :: OpCode where [op_defs]: "OpJSJumpIfNotNullish = 195"
definition OpJSExponentAssign :: OpCode where [op_defs]: "OpJSExponentAssign = 196"
definition OpJSLogicalAndAssign :: OpCode where [op_defs]: "OpJSLogicalAndAssign = 197"
definition OpJSLogicalOrAssign :: OpCode where [op_defs]: "OpJSLogicalOrAssign = 198"
definition OpJSCoalesceAssign :: OpCode where [op_defs]: "OpJSCoalesceAssign = 199"
definition OpJSDefineProperty :: OpCode where [op_defs]: "OpJSDefineProperty = 200"
definition OpJSSetProto :: OpCode where [op_defs]: "OpJSSetProto = 201"
definition OpJSClassInherit :: OpCode where [op_defs]: "OpJSClassInherit = 202"
definition OpJSSuperCall :: OpCode where [op_defs]: "OpJSSuperCall = 203"
definition OpJSSuperMemberGet :: OpCode where [op_defs]: "OpJSSuperMemberGet = 204"
definition OpJSSuperMemberSet :: OpCode where [op_defs]: "OpJSSuperMemberSet = 205"
definition OpJSSuperCallMember :: OpCode where [op_defs]: "OpJSSuperCallMember = 206"
definition OpJSSuperIndexGet :: OpCode where [op_defs]: "OpJSSuperIndexGet = 207"
definition OpJSSuperIndexSet :: OpCode where [op_defs]: "OpJSSuperIndexSet = 208"
definition OpJSSuperCallComputedMember :: OpCode where [op_defs]: "OpJSSuperCallComputedMember = 209"
definition OpJSYield :: OpCode where [op_defs]: "OpJSYield = 210"
definition OpJSYieldDelegate :: OpCode where [op_defs]: "OpJSYieldDelegate = 211"
definition OpJSAwait :: OpCode where [op_defs]: "OpJSAwait = 212"
definition OpJSStrictModeEnter :: OpCode where [op_defs]: "OpJSStrictModeEnter = 213"
definition OpJSStrictModeExit :: OpCode where [op_defs]: "OpJSStrictModeExit = 214"
definition OpJSBlockScopeEnter :: OpCode where [op_defs]: "OpJSBlockScopeEnter = 215"
definition OpJSBlockScopeExit :: OpCode where [op_defs]: "OpJSBlockScopeExit = 216"
definition OpJSLetDeclare :: OpCode where [op_defs]: "OpJSLetDeclare = 217"
definition OpJSTDZRegisterLet :: OpCode where [op_defs]: "OpJSTDZRegisterLet = 218"
definition OpJSTDZRegisterConst :: OpCode where [op_defs]: "OpJSTDZRegisterConst = 219"
definition OpJSConstInitialize :: OpCode where [op_defs]: "OpJSConstInitialize = 220"
definition OpJSForIterEnter :: OpCode where [op_defs]: "OpJSForIterEnter = 221"
definition OpJSForIterExit :: OpCode where [op_defs]: "OpJSForIterExit = 222"
definition OpJSLoadNewTarget :: OpCode where [op_defs]: "OpJSLoadNewTarget = 223"
definition OpIncLocalInt :: OpCode where [op_defs]: "OpIncLocalInt = 224"
definition OpDecLocalInt :: OpCode where [op_defs]: "OpDecLocalInt = 225"
definition OpIncGlobalInt :: OpCode where [op_defs]: "OpIncGlobalInt = 226"
definition OpDecGlobalInt :: OpCode where [op_defs]: "OpDecGlobalInt = 227"
definition OpJSIncLocalInt :: OpCode where [op_defs]: "OpJSIncLocalInt = 228"
definition OpJSDecLocalInt :: OpCode where [op_defs]: "OpJSDecLocalInt = 229"
definition OpJSForFastIntEnter :: OpCode where [op_defs]: "OpJSForFastIntEnter = 230"
definition OpJSForFastInt :: OpCode where [op_defs]: "OpJSForFastInt = 231"
definition OpJSForIterEnterFast :: OpCode where [op_defs]: "OpJSForIterEnterFast = 232"
definition OpJSForIterExitFast :: OpCode where [op_defs]: "OpJSForIterExitFast = 233"
definition OpJSRootFrameEnter :: OpCode where [op_defs]: "OpJSRootFrameEnter = 234"
definition OpJSRootFrameLeave :: OpCode where [op_defs]: "OpJSRootFrameLeave = 235"
definition OpNop :: OpCode where [op_defs]: "OpNop = 236"
definition OpForNextFastInt :: OpCode where [op_defs]: "OpForNextFastInt = 237"
definition OpForNextFastGlobalInt :: OpCode where [op_defs]: "OpForNextFastGlobalInt = 238"
definition OpJSJumpIfLessFast :: OpCode where [op_defs]: "OpJSJumpIfLessFast = 239"
definition OpJSComputedPropertySet :: OpCode where [op_defs]: "OpJSComputedPropertySet = 240"
definition OpJSForOf :: OpCode where [op_defs]: "OpJSForOf = 241"
definition OpJSForOfCleanup :: OpCode where [op_defs]: "OpJSForOfCleanup = 242"
definition OpJSExportAll :: OpCode where [op_defs]: "OpJSExportAll = 243"
definition OpJumpIfNotEq :: OpCode where [op_defs]: "OpJumpIfNotEq = 244"
definition OpJumpIfEq :: OpCode where [op_defs]: "OpJumpIfEq = 245"
definition OpJumpIfNotLt :: OpCode where [op_defs]: "OpJumpIfNotLt = 246"
definition OpJumpIfLte :: OpCode where [op_defs]: "OpJumpIfLte = 247"
definition OpJumpIfNotIs :: OpCode where [op_defs]: "OpJumpIfNotIs = 248"
definition OpJSJumpIfLooseNotEq :: OpCode where [op_defs]: "OpJSJumpIfLooseNotEq = 249"
definition OpJSJumpIfLooseEq :: OpCode where [op_defs]: "OpJSJumpIfLooseEq = 250"
definition OpJSJumpIfStrictNotEq :: OpCode where [op_defs]: "OpJSJumpIfStrictNotEq = 251"
definition OpJSJumpIfStrictEq :: OpCode where [op_defs]: "OpJSJumpIfStrictEq = 252"
definition OpJSJumpIfNotLess :: OpCode where [op_defs]: "OpJSJumpIfNotLess = 253"
definition OpJSJumpIfLessEqual :: OpCode where [op_defs]: "OpJSJumpIfLessEqual = 254"
definition OpExtPrefix :: OpCode where [op_defs]: "OpExtPrefix = 255"

section \<open>Extended opcodes\<close>

definition ExtOpInitRecord :: ExtOpCode where [op_defs]: "ExtOpInitRecord = 0"
definition ExtOpGetRecordMember :: ExtOpCode where [op_defs]: "ExtOpGetRecordMember = 1"
definition ExtOpSetRecordMember :: ExtOpCode where [op_defs]: "ExtOpSetRecordMember = 2"
definition ExtOpAxonASP :: ExtOpCode where [op_defs]: "ExtOpAxonASP = 3"
definition ExtOpJSMathSin :: ExtOpCode where [op_defs]: "ExtOpJSMathSin = 4"
definition ExtOpJSMathCos :: ExtOpCode where [op_defs]: "ExtOpJSMathCos = 5"
definition ExtOpJSMathTan :: ExtOpCode where [op_defs]: "ExtOpJSMathTan = 6"
definition ExtOpJSMathAbs :: ExtOpCode where [op_defs]: "ExtOpJSMathAbs = 7"
definition ExtOpJSMathFloor :: ExtOpCode where [op_defs]: "ExtOpJSMathFloor = 8"
definition ExtOpJSMathCeil :: ExtOpCode where [op_defs]: "ExtOpJSMathCeil = 9"
definition ExtOpJSMathRound :: ExtOpCode where [op_defs]: "ExtOpJSMathRound = 10"
definition ExtOpJSMathSqrt :: ExtOpCode where [op_defs]: "ExtOpJSMathSqrt = 11"
definition ExtOpJSMathMin :: ExtOpCode where [op_defs]: "ExtOpJSMathMin = 12"
definition ExtOpJSMathMax :: ExtOpCode where [op_defs]: "ExtOpJSMathMax = 13"
definition ExtOpJSMathPow :: ExtOpCode where [op_defs]: "ExtOpJSMathPow = 14"
definition ExtOpRegisterClassEvent :: ExtOpCode where [op_defs]: "ExtOpRegisterClassEvent = 15"
definition ExtOpRaiseEvent :: ExtOpCode where [op_defs]: "ExtOpRaiseEvent = 16"
definition ExtOpWithEventsRegister :: ExtOpCode where [op_defs]: "ExtOpWithEventsRegister = 17"
definition ExtOpRegisterClassInterface :: ExtOpCode where [op_defs]: "ExtOpRegisterClassInterface = 18"
definition ExtOpJumpLocalIfFalse :: ExtOpCode where [op_defs]: "ExtOpJumpLocalIfFalse = 19"
definition ExtOpJumpGlobalIfFalse :: ExtOpCode where [op_defs]: "ExtOpJumpGlobalIfFalse = 20"
definition ExtOpJSJumpNameIfFalse :: ExtOpCode where [op_defs]: "ExtOpJSJumpNameIfFalse = 21"
definition ExtOpAddLocalConst :: ExtOpCode where [op_defs]: "ExtOpAddLocalConst = 22"
definition ExtOpSubGlobalConst :: ExtOpCode where [op_defs]: "ExtOpSubGlobalConst = 23"
definition ExtOpConcatLocalConst :: ExtOpCode where [op_defs]: "ExtOpConcatLocalConst = 24"
definition ExtOpConstant2 :: ExtOpCode where [op_defs]: "ExtOpConstant2 = 25"
definition ExtOpConstant3 :: ExtOpCode where [op_defs]: "ExtOpConstant3 = 26"
definition ExtOpConstant4 :: ExtOpCode where [op_defs]: "ExtOpConstant4 = 27"
definition ExtOpFileOpen :: ExtOpCode where [op_defs]: "ExtOpFileOpen = 28"
definition ExtOpFileClose :: ExtOpCode where [op_defs]: "ExtOpFileClose = 29"
definition ExtOpFilePrint :: ExtOpCode where [op_defs]: "ExtOpFilePrint = 30"
definition ExtOpFileWrite :: ExtOpCode where [op_defs]: "ExtOpFileWrite = 31"
definition ExtOpFileLineInput :: ExtOpCode where [op_defs]: "ExtOpFileLineInput = 32"
definition ExtOpFilePut :: ExtOpCode where [op_defs]: "ExtOpFilePut = 33"
definition ExtOpFileGet :: ExtOpCode where [op_defs]: "ExtOpFileGet = 34"
definition ExtOpFileFreeFile :: ExtOpCode where [op_defs]: "ExtOpFileFreeFile = 35"
definition ExtOpJSReThrow :: ExtOpCode where [op_defs]: "ExtOpJSReThrow = 36"
definition ExtOpCloneRecord :: ExtOpCode where [op_defs]: "ExtOpCloneRecord = 37"
definition ExtOpShiftLeft :: ExtOpCode where [op_defs]: "ExtOpShiftLeft = 38"
definition ExtOpShiftRight :: ExtOpCode where [op_defs]: "ExtOpShiftRight = 39"
definition ExtOpJSWrite :: ExtOpCode where [op_defs]: "ExtOpJSWrite = 40"

section \<open>Names\<close>

definition opcode_names_1 :: "(OpCode \<times> string) list" where
  "opcode_names_1 = [
    (OpHalt, ''OpHalt''),
    (OpConstant, ''OpConstant''),
    (OpPop, ''OpPop''),
    (OpGetGlobal, ''OpGetGlobal''),
    (OpSetGlobal, ''OpSetGlobal''),
    (OpGetClassMember, ''OpGetClassMember''),
    (OpSetClassMember, ''OpSetClassMember''),
    (OpEraseGlobal, ''OpEraseGlobal''),
    (OpEraseLocal, ''OpEraseLocal''),
    (OpEraseClassMember, ''OpEraseClassMember''),
    (OpAdd, ''OpAdd''),
    (OpSub, ''OpSub''),
    (OpMul, ''OpMul''),
    (OpDiv, ''OpDiv''),
    (OpMod, ''OpMod''),
    (OpPow, ''OpPow''),
    (OpIAdd, ''OpIAdd''),
    (OpISub, ''OpISub''),
    (OpIMul, ''OpIMul''),
    (OpIDiv, ''OpIDiv''),
    (OpIRightShift, ''OpIRightShift''),
    (OpMathSin, ''OpMathSin''),
    (OpMathCos, ''OpMathCos''),
    (OpMathTan, ''OpMathTan''),
    (OpMathAtn, ''OpMathAtn''),
    (OpMathSqr, ''OpMathSqr''),
    (OpMathAbs, ''OpMathAbs''),
    (OpMathExp, ''OpMathExp''),
    (OpMathLog, ''OpMathLog''),
    (OpMathRound, ''OpMathRound''),
    (OpMathInt, ''OpMathInt''),
    (OpConcat, ''OpConcat''),
    (OpEq, ''OpEq''),
    (OpIsRef, ''OpIsRef''),
    (OpIsNotRef, ''OpIsNotRef''),
    (OpLt, ''OpLt''),
    (OpJump, ''OpJump''),
    (OpJumpIfFalse, ''OpJumpIfFalse''),
    (OpOnErrorResumeNext, ''OpOnErrorResumeNext''),
    (OpOnErrorGoto0, ''OpOnErrorGoto0''),
    (OpLine, ''OpLine''),
    (OpWrite, ''OpWrite''),
    (OpWriteStatic, ''OpWriteStatic''),
    (OpWriteN, ''OpWriteN''),
    (OpSetDirective, ''OpSetDirective''),
    (OpRegisterClass, ''OpRegisterClass''),
    (OpRegisterClassMethod, ''OpRegisterClassMethod''),
    (OpRegisterClassField, ''OpRegisterClassField''),
    (OpInitClassArrayField, ''OpInitClassArrayField''),
    (OpRegisterClassPropertyGet, ''OpRegisterClassPropertyGet''),
    (OpRegisterClassPropertyLet, ''OpRegisterClassPropertyLet''),
    (OpRegisterClassPropertySet, ''OpRegisterClassPropertySet''),
    (OpCallMember, ''OpCallMember''),
    (OpCallBuiltin, ''OpCallBuiltin''),
    (OpCall, ''OpCall''),
    (OpNewClass, ''OpNewClass''),
    (OpArraySet, ''OpArraySet''),
    (OpRet, ''OpRet''),
    (OpSwap, ''OpSwap''),
    (OpArgGlobalRef, ''OpArgGlobalRef''),
    (OpArgLocalRef, ''OpArgLocalRef''),
    (OpArgClassMemberRef, ''OpArgClassMemberRef''),
    (OpWithEnter, ''OpWithEnter''),
    (OpWithLeave, ''OpWithLeave''),
    (OpWithLoad, ''OpWithLoad''),
    (OpLetGlobal, ''OpLetGlobal''),
    (OpLetLocal, ''OpLetLocal''),
    (OpLetClassMember, ''OpLetClassMember''),
    (OpCoerceToValue, ''OpCoerceToValue''),
    (OpJSDeclareName, ''OpJSDeclareName''),
    (OpJSGetName, ''OpJSGetName''),
    (OpJSSetName, ''OpJSSetName''),
    (OpJSImport, ''OpJSImport''),
    (OpJSExport, ''OpJSExport'')]"

definition opcode_names_2 :: "(OpCode \<times> string) list" where
  "opcode_names_2 = [
    (OpJSGetLocal, ''OpJSGetLocal''),
    (OpJSSetLocal, ''OpJSSetLocal''),
    (OpJSIncLocal, ''OpJSIncLocal''),
    (OpJSDecLocal, ''OpJSDecLocal''),
    (OpJSMemberGet, ''OpJSMemberGet''),
    (OpJSMemberSet, ''OpJSMemberSet''),
    (OpJSCall, ''OpJSCall''),
    (OpJSCallMember, ''OpJSCallMember''),
    (OpJSTailCall, ''OpJSTailCall''),
    (OpJSTailCallMember, ''OpJSTailCallMember''),
    (OpJSCallComputedMember, ''OpJSCallComputedMember''),
    (OpJSTailCallComputedMember, ''OpJSTailCallComputedMember''),
    (OpJSCreateClosure, ''OpJSCreateClosure''),
    (OpJSAdd, ''OpJSAdd''),
    (OpJSStrictEq, ''OpJSStrictEq''),
    (OpJSStrictNeq, ''OpJSStrictNeq''),
    (OpJSTryEnter, ''OpJSTryEnter''),
    (OpJSTryLeave, ''OpJSTryLeave''),
    (OpJSThrow, ''OpJSThrow''),
    (OpJSNewObject, ''OpJSNewObject''),
    (OpJSNewArray, ''OpJSNewArray''),
    (OpJSTypeof, ''OpJSTypeof''),
    (OpJSInstanceOf, ''OpJSInstanceOf''),
    (OpJSIn, ''OpJSIn''),
    (OpJSDelete, ''OpJSDelete''),
    (OpJSReturn, ''OpJSReturn''),
    (OpJSLoadUndefined, ''OpJSLoadUndefined''),
    (OpJSLoadThis, ''OpJSLoadThis''),
    (OpJSSetThis, ''OpJSSetThis''),
    (OpJSDup, ''OpJSDup''),
    (OpJSRequireObject, ''OpJSRequireObject''),
    (OpJSGetIterator, ''OpJSGetIterator''),
    (OpJSIteratorNext, ''OpJSIteratorNext''),
    (OpJSCollectRest, ''OpJSCollectRest''),
    (OpJSObjectRest, ''OpJSObjectRest''),
    (OpJSPop, ''OpJSPop''),
    (OpJSRot, ''OpJSRot''),
    (OpJSJump, ''OpJSJump''),
    (OpJSJumpIfFalse, ''OpJSJumpIfFalse''),
    (OpJSJumpIfTrue, ''OpJSJumpIfTrue''),
    (OpJSJumpIfNotUndefined, ''OpJSJumpIfNotUndefined''),
    (OpJSLoadCatchError, ''OpJSLoadCatchError''),
    (OpJSStoreCatchError, ''OpJSStoreCatchError''),
    (OpJSBreak, ''OpJSBreak''),
    (OpJSContinue, ''OpJSContinue''),
    (OpJSForIn, ''OpJSForIn''),
    (OpJSForInCleanup, ''OpJSForInCleanup''),
    (OpJSSwitch, ''OpJSSwitch''),
    (OpJSCase, ''OpJSCase''),
    (OpJSDefault, ''OpJSDefault''),
    (OpJSSubtract, ''OpJSSubtract''),
    (OpJSMultiply, ''OpJSMultiply''),
    (OpJSDivide, ''OpJSDivide''),
    (OpJSModulo, ''OpJSModulo''),
    (OpJSNegate, ''OpJSNegate''),
    (OpJSUnaryPlus, ''OpJSUnaryPlus''),
    (OpJSBitwiseAnd, ''OpJSBitwiseAnd''),
    (OpJSBitwiseOr, ''OpJSBitwiseOr''),
    (OpJSBitwiseXor, ''OpJSBitwiseXor''),
    (OpJSBitwiseNot, ''OpJSBitwiseNot''),
    (OpJSLeftShift, ''OpJSLeftShift''),
    (OpJSRightShift, ''OpJSRightShift''),
    (OpJSUnsignedRightShift, ''OpJSUnsignedRightShift''),
    (OpJSLess, ''OpJSLess''),
    (OpJSGreater, ''OpJSGreater''),
    (OpJSLessEqual, ''OpJSLessEqual''),
    (OpJSGreaterEqual, ''OpJSGreaterEqual''),
    (OpJSLooseEqual, ''OpJSLooseEqual''),
    (OpJSLooseNotEqual, ''OpJSLooseNotEqual''),
    (OpJSLogicalAnd, ''OpJSLogicalAnd''),
    (OpJSLogicalOr, ''OpJSLogicalOr''),
    (OpJSLogicalNot, ''OpJSLogicalNot''),
    (OpJSNew, ''OpJSNew''),
    (OpJSMemberDelete, ''OpJSMemberDelete'')]"

definition opcode_names_3 :: "(OpCode \<times> string) list" where
  "opcode_names_3 = [
    (OpJSIndexGet, ''OpJSIndexGet''),
    (OpJSIndexSet, ''OpJSIndexSet''),
    (OpJSComma, ''OpJSComma''),
    (OpJSPostIncrement, ''OpJSPostIncrement''),
    (OpJSPostDecrement, ''OpJSPostDecrement''),
    (OpJSPreIncrement, ''OpJSPreIncrement''),
    (OpJSPreDecrement, ''OpJSPreDecrement''),
    (OpJSAddAssign, ''OpJSAddAssign''),
    (OpJSSubtractAssign, ''OpJSSubtractAssign''),
    (OpJSMultiplyAssign, ''OpJSMultiplyAssign''),
    (OpJSDivideAssign, ''OpJSDivideAssign''),
    (OpJSModuloAssign, ''OpJSModuloAssign''),
    (OpJSMemberIndexGet, ''OpJSMemberIndexGet''),
    (OpJSMemberIndexSet, ''OpJSMemberIndexSet''),
    (OpJSPostMemberIncrement, ''OpJSPostMemberIncrement''),
    (OpJSPostMemberDecrement, ''OpJSPostMemberDecrement''),
    (OpJSPreMemberIncrement, ''OpJSPreMemberIncrement''),
    (OpJSPreMemberDecrement, ''OpJSPreMemberDecrement''),
    (OpJSPostIndexIncrement, ''OpJSPostIndexIncrement''),
    (OpJSPostIndexDecrement, ''OpJSPostIndexDecrement''),
    (OpJSPreIndexIncrement, ''OpJSPreIndexIncrement''),
    (OpJSPreIndexDecrement, ''OpJSPreIndexDecrement''),
    (OpJSExponent, ''OpJSExponent''),
    (OpJSCoalesce, ''OpJSCoalesce''),
    (OpJSJumpIfNullish, ''OpJSJumpIfNullish''),
    (OpJSJumpIfNotNullish, ''OpJSJumpIfNotNullish''),
    (OpJSExponentAssign, ''OpJSExponentAssign''),
    (OpJSLogicalAndAssign, ''OpJSLogicalAndAssign''),
    (OpJSLogicalOrAssign, ''OpJSLogicalOrAssign''),
    (OpJSCoalesceAssign, ''OpJSCoalesceAssign''),
    (OpJSDefineProperty, ''OpJSDefineProperty''),
    (OpJSSetProto, ''OpJSSetProto''),
    (OpJSClassInherit, ''OpJSClassInherit''),
    (OpJSSuperCall, ''OpJSSuperCall''),
    (OpJSSuperMemberGet, ''OpJSSuperMemberGet''),
    (OpJSSuperMemberSet, ''OpJSSuperMemberSet''),
    (OpJSSuperCallMember, ''OpJSSuperCallMember''),
    (OpJSSuperIndexGet, ''OpJSSuperIndexGet''),
    (OpJSSuperIndexSet, ''OpJSSuperIndexSet''),
    (OpJSSuperCallComputedMember, ''OpJSSuperCallComputedMember''),
    (OpJSYield, ''OpJSYield''),
    (OpJSYieldDelegate, ''OpJSYieldDelegate''),
    (OpJSAwait, ''OpJSAwait''),
    (OpJSStrictModeEnter, ''OpJSStrictModeEnter''),
    (OpJSStrictModeExit, ''OpJSStrictModeExit''),
    (OpJSBlockScopeEnter, ''OpJSBlockScopeEnter''),
    (OpJSBlockScopeExit, ''OpJSBlockScopeExit''),
    (OpJSLetDeclare, ''OpJSLetDeclare''),
    (OpJSTDZRegisterLet, ''OpJSTDZRegisterLet''),
    (OpJSTDZRegisterConst, ''OpJSTDZRegisterConst''),
    (OpJSConstInitialize, ''OpJSConstInitialize''),
    (OpJSForIterEnter, ''OpJSForIterEnter''),
    (OpJSForIterExit, ''OpJSForIterExit''),
    (OpJSLoadNewTarget, ''OpJSLoadNewTarget''),
    (OpIncLocalInt, ''OpIncLocalInt''),
    (OpDecLocalInt, ''OpDecLocalInt''),
    (OpIncGlobalInt, ''OpIncGlobalInt''),
    (OpDecGlobalInt, ''OpDecGlobalInt''),
    (OpJSIncLocalInt, ''OpJSIncLocalInt''),
    (OpJSDecLocalInt, ''OpJSDecLocalInt''),
    (OpJSForFastIntEnter, ''OpJSForFastIntEnter''),
    (OpJSForFastInt, ''OpJSForFastInt''),
    (OpJSForIterEnterFast, ''OpJSForIterEnterFast''),
    (OpJSForIterExitFast, ''OpJSForIterExitFast''),
    (OpJSRootFrameEnter, ''OpJSRootFrameEnter''),
    (OpJSRootFrameLeave, ''OpJSRootFrameLeave''),
    (OpNop, ''OpNop''),
    (OpForNextFastInt, ''OpForNextFastInt''),
    (OpForNextFastGlobalInt, ''OpForNextFastGlobalInt''),
    (OpJSJumpIfLessFast, ''OpJSJumpIfLessFast''),
    (OpJSComputedPropertySet, ''OpJSComputedPropertySet''),
    (OpJSForOf, ''OpJSForOf''),
    (OpJSForOfCleanup, ''OpJSForOfCleanup''),
    (OpJSExportAll, ''OpJSExportAll'')]"

definition opcode_names_4 :: "(OpCode \<times> string) list" where
  "opcode_names_4 = [
    (OpJumpIfNotEq, ''OpJumpIfNotEq''),
    (OpJumpIfEq, ''OpJumpIfEq''),
    (OpJumpIfNotLt, ''OpJumpIfNotLt''),
    (OpJumpIfLte, ''OpJumpIfLte''),
    (OpJumpIfNotIs, ''OpJumpIfNotIs''),
    (OpJSJumpIfLooseNotEq, ''OpJSJumpIfLooseNotEq''),
    (OpJSJumpIfLooseEq, ''OpJSJumpIfLooseEq''),
    (OpJSJumpIfStrictNotEq, ''OpJSJumpIfStrictNotEq''),
    (OpJSJumpIfStrictEq, ''OpJSJumpIfStrictEq''),
    (OpJSJumpIfNotLess, ''OpJSJumpIfNotLess''),
    (OpJSJumpIfLessEqual, ''OpJSJumpIfLessEqual''),
    (OpExtPrefix, ''OpExtPrefix'')]"

definition opcode_names :: "(OpCode \<times> string) list" where
  "opcode_names = opcode_names_1 @ opcode_names_2 @ opcode_names_3 @ opcode_names_4"

definition opcode_String :: "OpCode \<Rightarrow> string" where
  "opcode_String op = (case map_of opcode_names op of Some s \<Rightarrow> s | None \<Rightarrow> ''OpUnknown'')"

definition ext_opcode_names :: "(ExtOpCode \<times> string) list" where
  "ext_opcode_names = [
    (ExtOpInitRecord, ''ExtOpInitRecord''),
    (ExtOpGetRecordMember, ''ExtOpGetRecordMember''),
    (ExtOpSetRecordMember, ''ExtOpSetRecordMember''),
    (ExtOpAxonASP, ''ExtOpAxonASP''),
    (ExtOpJSMathSin, ''ExtOpJSMathSin''),
    (ExtOpJSMathCos, ''ExtOpJSMathCos''),
    (ExtOpJSMathTan, ''ExtOpJSMathTan''),
    (ExtOpJSMathAbs, ''ExtOpJSMathAbs''),
    (ExtOpJSMathFloor, ''ExtOpJSMathFloor''),
    (ExtOpJSMathCeil, ''ExtOpJSMathCeil''),
    (ExtOpJSMathRound, ''ExtOpJSMathRound''),
    (ExtOpJSMathSqrt, ''ExtOpJSMathSqrt''),
    (ExtOpJSMathMin, ''ExtOpJSMathMin''),
    (ExtOpJSMathMax, ''ExtOpJSMathMax''),
    (ExtOpJSMathPow, ''ExtOpJSMathPow''),
    (ExtOpRegisterClassEvent, ''ExtOpRegisterClassEvent''),
    (ExtOpRaiseEvent, ''ExtOpRaiseEvent''),
    (ExtOpWithEventsRegister, ''ExtOpWithEventsRegister''),
    (ExtOpRegisterClassInterface, ''ExtOpRegisterClassInterface''),
    (ExtOpJumpLocalIfFalse, ''ExtOpJumpLocalIfFalse''),
    (ExtOpJumpGlobalIfFalse, ''ExtOpJumpGlobalIfFalse''),
    (ExtOpJSJumpNameIfFalse, ''ExtOpJSJumpNameIfFalse''),
    (ExtOpAddLocalConst, ''ExtOpAddLocalConst''),
    (ExtOpSubGlobalConst, ''ExtOpSubGlobalConst''),
    (ExtOpConcatLocalConst, ''ExtOpConcatLocalConst''),
    (ExtOpConstant2, ''ExtOpConstant2''),
    (ExtOpConstant3, ''ExtOpConstant3''),
    (ExtOpConstant4, ''ExtOpConstant4''),
    (ExtOpFileOpen, ''ExtOpFileOpen''),
    (ExtOpFileClose, ''ExtOpFileClose''),
    (ExtOpFilePrint, ''ExtOpFilePrint''),
    (ExtOpFileWrite, ''ExtOpFileWrite''),
    (ExtOpFileLineInput, ''ExtOpFileLineInput''),
    (ExtOpFilePut, ''ExtOpFilePut''),
    (ExtOpFileGet, ''ExtOpFileGet''),
    (ExtOpFileFreeFile, ''ExtOpFileFreeFile''),
    (ExtOpJSReThrow, ''ExtOpJSReThrow''),
    (ExtOpCloneRecord, ''ExtOpCloneRecord''),
    (ExtOpShiftLeft, ''ExtOpShiftLeft''),
    (ExtOpShiftRight, ''ExtOpShiftRight''),
    (ExtOpJSWrite, ''ExtOpJSWrite'')]"

definition ext_opcode_String :: "ExtOpCode \<Rightarrow> string" where
  "ext_opcode_String op = (case map_of ext_opcode_names op of Some s \<Rightarrow> s | None \<Rightarrow> ''ExtOpUnknown'')"

section \<open>Lemmas\<close>

lemmas opcode_names_defs = opcode_names_1_def opcode_names_2_def opcode_names_3_def opcode_names_4_def

lemma ext_names_distinct: "distinct (map snd ext_opcode_names)"
  by code_simp

lemma ext_codes_distinct: "distinct (map fst ext_opcode_names)"
  by code_simp

end
