(* ===== verification/Bytecode.thy ===== *)
theory Bytecode
  imports Opcodes
begin

text \<open>
  The instruction encoding (\<open>opcodeOperandSize\<close> in \<open>axonvm/vm.go\<close>), the jump-target scan
  every optimizer pass starts with (\<open>collectJumpTargets\<close>, \<open>hasTargetInRange\<close> in
  \<open>axonvm/compiler_optimizer.go\<close>) and the relocation of a freshly compiled fragment
  (\<open>remapExecuteGlobalBytecode\<close>). A linear walk over the code is \<open>walk\<close>: the offsets at which
  the code's loops decode an instruction.
\<close>

section \<open>Operand sizes\<close>

definition size2_ops :: "OpCode list" where
  "size2_ops = [
    OpConstant, OpWriteStatic, OpWriteN,
    OpGetClassMember, OpSetClassMember, OpEraseClassMember, OpLetClassMember, OpArgClassMemberRef,
    OpMemberSet, OpMemberSetSet,
    OpNewClass,
    OpLabel,
    OpRegisterClass,
    OpGetGlobal, OpSetGlobal, OpEraseGlobal, OpGetLocal, OpSetLocal, OpEraseLocal,
    OpArgGlobalRef, OpArgLocalRef,
    OpLetGlobal, OpLetLocal,
    OpCall,
    OpJSDeclareName, OpJSGetName, OpJSSetName, OpJSGetLocal, OpJSSetLocal, OpJSIncLocal, OpJSDecLocal,
    OpJSRootFrameEnter, OpJSRootFrameLeave,
    OpJSCreateClosure, OpJSCall, OpJSTailCall, OpJSCallComputedMember, OpJSTailCallComputedMember, OpJSNewArray, OpJSSuperCall,
    OpJSNew, OpJSMemberDelete, OpJSPostIncrement, OpJSPostDecrement, OpJSPreIncrement, OpJSPreDecrement,
    OpJSAddAssign, OpJSSubtractAssign, OpJSMultiplyAssign, OpJSDivideAssign, OpJSModuloAssign,
    OpJSExponentAssign, OpJSLogicalAndAssign, OpJSLogicalOrAssign, OpJSCoalesceAssign,
    OpJSMemberIndexGet, OpJSMemberIndexSet,
    OpJSPostMemberIncrement, OpJSPostMemberDecrement, OpJSPreMemberIncrement, OpJSPreMemberDecrement,
    OpJSLetDeclare, OpJSTDZRegisterLet, OpJSTDZRegisterConst, OpJSConstInitialize, OpJSRot,
    OpJSIncLocalInt, OpJSDecLocalInt,
    OpIncLocalInt, OpDecLocalInt, OpIncGlobalInt, OpDecGlobalInt,
    OpJSSuperMemberGet, OpJSSuperMemberSet, OpJSSuperCallComputedMember,
    OpJSExportAll]"

definition size4_jump_ops :: "OpCode list" where
  "size4_jump_ops = [
    OpJump, OpJumpIfFalse, OpJumpIfTrue, OpGotoLabel, OpSet,
    OpJSJump, OpJSJumpIfFalse, OpJSJumpIfTrue, OpJSTryEnter,
    OpJSJumpIfNullish, OpJSJumpIfNotNullish, OpJSJumpIfNotUndefined,
    OpJSCase, OpJSDefault, OpJSBreak, OpJSContinue, OpJSForInCleanup, OpJSForOfCleanup,
    OpJumpIfNotEq, OpJumpIfEq, OpJumpIfNotLt, OpJumpIfLte, OpJumpIfNotIs,
    OpJSJumpIfLooseNotEq, OpJSJumpIfLooseEq, OpJSJumpIfStrictNotEq, OpJSJumpIfStrictEq, OpJSJumpIfNotLess, OpJSJumpIfLessEqual]"

definition size4_ops :: "OpCode list" where
  "size4_ops = [
    OpLine, OpArraySet, OpCallBuiltin, OpSetDirective, OpSetOption, OpJSCallMember,
    OpJSTailCallMember, OpJSDefineProperty, OpJSSuperCallMember, OpJSExport]"

definition ext_size1_ops :: "ExtOpCode list" where
  "ext_size1_ops = [
    ExtOpFileOpen, ExtOpFileClose, ExtOpFileLineInput, ExtOpFilePut, ExtOpFileGet, ExtOpFileFreeFile,
    ExtOpAxonASP, ExtOpJSReThrow, ExtOpCloneRecord, ExtOpShiftLeft, ExtOpShiftRight, ExtOpJSWrite,
    ExtOpJSMathSin, ExtOpJSMathCos, ExtOpJSMathTan, ExtOpJSMathAbs, ExtOpJSMathFloor, ExtOpJSMathCeil,
    ExtOpJSMathRound, ExtOpJSMathSqrt, ExtOpJSMathMin, ExtOpJSMathMax, ExtOpJSMathPow]"

definition ext_size :: "ExtOpCode \<Rightarrow> nat" where
  "ext_size e =
     (if e \<in> {ExtOpRegisterClassEvent, ExtOpRaiseEvent, ExtOpWithEventsRegister, ExtOpRegisterClassInterface} then 5
      else if e \<in> {ExtOpJumpLocalIfFalse, ExtOpJumpGlobalIfFalse, ExtOpJSJumpNameIfFalse} then 7
      else if e \<in> {ExtOpAddLocalConst, ExtOpSubGlobalConst, ExtOpConcatLocalConst} then 5
      else if e = ExtOpConstant2 then 5
      else if e = ExtOpConstant3 then 7
      else if e = ExtOpConstant4 then 9
      else if e \<in> {ExtOpFilePrint, ExtOpFileWrite} then 3
      else if e \<in> set ext_size1_ops then 1
      else 3)"

definition object_rest_size :: "bytes \<Rightarrow> nat \<Rightarrow> nat" where
  "object_rest_size bs ip =
     (case be16_at bs (ip + 1) of
        None \<Rightarrow> 0
      | Some count \<Rightarrow>
        (let size = 2 + 2 * count + 2
         in if length bs < ip + 1 + size then 0 else size))"

definition opcodeOperandSize :: "OpCode \<Rightarrow> bytes \<Rightarrow> nat \<Rightarrow> nat" where
  "opcodeOperandSize op bs ip =
     (if op \<in> set size2_ops then 2
      else if op = OpJSObjectRest then object_rest_size bs ip
      else if op \<in> set size4_jump_ops then 4
      else if op \<in> {OpForNextFastInt, OpForNextFastGlobalInt} then 9
      else if op \<in> {OpJSForFastIntEnter, OpJSForFastInt} then 8
      else if op \<in> {OpJSSetProto, OpJSSetThis, OpJSSuperIndexGet, OpJSSuperIndexSet} then 0
      else if op = OpExtPrefix then
        (case get_at bs (ip + 1) of
           None \<Rightarrow> 0
         | Some e \<Rightarrow> (if length bs < ip + 1 + ext_size e then 0 else ext_size e))
      else if op \<in> set size4_ops then 4
      else if op = OpCallMember then 8
      else if op \<in> {OpJSMemberGet, OpJSMemberSet} then 4
      else if op = OpRegisterClassField then 9
      else if op = OpInitClassArrayField then 6
      else if op \<in> {OpJSForIn, OpJSForOf} then 6
      else if op = OpRegisterClassMethod then 8
      else if op = OpJSJumpIfLessFast then 8
      else if op \<in> {OpRegisterClassPropertyGet, OpRegisterClassPropertyLet, OpRegisterClassPropertySet} then 10
      else 0)"

lemmas size_ops_defs = size2_ops_def size4_jump_ops_def size4_ops_def

text \<open>Sizes of the instructions the optimizer looks at.\<close>

lemma operand_size_simps [simp]:
  "opcodeOperandSize OpConstant bs ip = 2"
  "opcodeOperandSize OpGetLocal bs ip = 2"
  "opcodeOperandSize OpSetLocal bs ip = 2"
  "opcodeOperandSize OpLetLocal bs ip = 2"
  "opcodeOperandSize OpGetGlobal bs ip = 2"
  "opcodeOperandSize OpSetGlobal bs ip = 2"
  "opcodeOperandSize OpLetGlobal bs ip = 2"
  "opcodeOperandSize OpJSGetName bs ip = 2"
  "opcodeOperandSize OpNop bs ip = 0"
  "opcodeOperandSize OpPop bs ip = 0"
  "opcodeOperandSize OpAdd bs ip = 0"
  "opcodeOperandSize OpSub bs ip = 0"
  "opcodeOperandSize OpMul bs ip = 0"
  "opcodeOperandSize OpIAdd bs ip = 0"
  "opcodeOperandSize OpISub bs ip = 0"
  "opcodeOperandSize OpIMul bs ip = 0"
  "opcodeOperandSize OpIDiv bs ip = 0"
  "opcodeOperandSize OpIRightShift bs ip = 0"
  "opcodeOperandSize OpConcat bs ip = 0"
  "opcodeOperandSize OpJumpIfFalse bs ip = 4"
  "opcodeOperandSize OpJSJumpIfFalse bs ip = 4"
  by (simp_all add: opcodeOperandSize_def size_ops_defs op_defs)

section \<open>The linear walk\<close>

definition next_ip :: "bytes \<Rightarrow> nat \<Rightarrow> nat" where
  "next_ip bs ip = ip + 1 + opcodeOperandSize (bs ! ip) bs ip"

lemma next_ip_gt: "ip < next_ip bs ip"
  by (simp add: next_ip_def)

function walk :: "bytes \<Rightarrow> nat \<Rightarrow> nat list" where
  "walk bs ip = (if ip < length bs then ip # walk bs (next_ip bs ip) else [])"
  by pat_completeness auto
termination
  by (relation "measure (\<lambda>(bs, ip). length bs - ip)") (auto simp: next_ip_def)

declare walk.simps [simp del]

section \<open>Jump targets\<close>

definition jump4_ops :: "OpCode list" where
  "jump4_ops = [
    OpJump, OpJumpIfFalse, OpJumpIfTrue, OpGotoLabel,
    OpJSJump, OpJSJumpIfFalse, OpJSJumpIfTrue, OpJSTryEnter,
    OpJSJumpIfNullish, OpJSJumpIfNotNullish, OpJSJumpIfNotUndefined,
    OpJSCase, OpJSDefault, OpJSBreak, OpJSContinue,
    OpJumpIfNotEq, OpJumpIfEq, OpJumpIfNotLt, OpJumpIfLte, OpJumpIfNotIs,
    OpJSJumpIfLooseNotEq, OpJSJumpIfLooseEq, OpJSJumpIfStrictNotEq, OpJSJumpIfStrictEq, OpJSJumpIfNotLess, OpJSJumpIfLessEqual]"

text \<open>Where the absolute 4-byte target sits behind the opcode byte.\<close>

definition target_offset :: "OpCode \<Rightarrow> nat option" where
  "target_offset op =
     (if op \<in> set jump4_ops then Some 0
      else if op = OpForNextFastInt then Some 5
      else if op = OpForNextFastGlobalInt then Some 5
      else if op = OpJSJumpIfLessFast then Some 4
      else None)"

definition target_at :: "bytes \<Rightarrow> nat \<Rightarrow> nat option" where
  "target_at bs ip =
     (case target_offset (bs ! ip) of
        None \<Rightarrow> None
      | Some off \<Rightarrow> be32_at bs (ip + 1 + off))"

function collect_from :: "bytes \<Rightarrow> nat \<Rightarrow> nat list" where
  "collect_from bs ip =
     (if ip < length bs
      then (case target_at bs ip of None \<Rightarrow> [] | Some t \<Rightarrow> [t]) @ collect_from bs (next_ip bs ip)
      else [])"
  by pat_completeness auto
termination
  by (relation "measure (\<lambda>(bs, ip). length bs - ip)") (auto simp: next_ip_def)

declare collect_from.simps [simp del]

definition collectJumpTargets :: "bytes \<Rightarrow> nat list" where
  "collectJumpTargets bs = collect_from bs 0"

definition hasTargetInRange :: "nat list \<Rightarrow> nat \<Rightarrow> nat \<Rightarrow> bool" where
  "hasTargetInRange targets from to \<longleftrightarrow> list_ex (\<lambda>pos. pos \<in> set targets) [from..<to + 1]"

lemma hasTargetInRange_iff:
  "hasTargetInRange targets from to \<longleftrightarrow> (\<exists>t\<in>set targets. from \<le> t \<and> t \<le> to)"
  by (auto simp: hasTargetInRange_def list_ex_iff)

lemma collect_from_walk:
  "set (collect_from bs ip) = {t. \<exists>i\<in>set (walk bs ip). target_at bs i = Some t}"
proof (induction bs ip rule: collect_from.induct)
  case (1 bs ip)
  then show ?case
    by (auto simp: collect_from.simps[of bs ip] walk.simps[of bs ip] split: option.splits)
qed

lemma walk_bounds: "i \<in> set (walk bs ip) \<Longrightarrow> ip \<le> i \<and> i < length bs"
proof (induction bs ip rule: walk.induct)
  case (1 bs ip)
  then show ?case
    by (auto simp: walk.simps[of bs ip] next_ip_def split: if_splits)
qed

lemma walk_sorted: "sorted_wrt (<) (walk bs ip)"
proof (induction bs ip rule: walk.induct)
  case (1 bs ip)
  then show ?case
    by (auto simp: walk.simps[of bs ip] dest!: walk_bounds intro: less_le_trans[OF next_ip_gt])
qed

end
