(* ===== verification/Relocate.thy ===== *)
theory Relocate
  imports Bytecode
begin

text \<open>
  \<open>remapExecuteGlobalBytecode\<close> (\<open>axonvm/vm.go\<close>): code compiled for \<open>Execute\<close>, \<open>ExecuteGlobal\<close>
  and \<open>Eval\<close> is appended to the running program, so every constant index is shifted by
  \<open>constBase\<close> and every absolute jump target by \<open>bytecodeBase\<close>. Each \<open>case\<close> of the Go switch is
  the list of operand fields it reads and rewrites in order; a field past the end of the slice
  is the Go panic \<open>None\<close>.
\<close>

datatype field = FConst | FTarget | FSkip nat

fun run_field :: "nat \<Rightarrow> nat \<Rightarrow> field \<Rightarrow> bytes \<Rightarrow> nat \<Rightarrow> (bytes \<times> nat) option" where
  "run_field cb bb FConst bs ip =
     (case be16_at bs ip of None \<Rightarrow> None
      | Some idx \<Rightarrow> map_option (\<lambda>bs'. (bs', ip + 2)) (put_be16 bs ip (idx + cb)))"
| "run_field cb bb FTarget bs ip =
     (case be32_at bs ip of None \<Rightarrow> None
      | Some t \<Rightarrow> map_option (\<lambda>bs'. (bs', ip + 4)) (put_be32 bs ip (t + bb)))"
| "run_field cb bb (FSkip n) bs ip = Some (bs, ip + n)"

fun run_fields :: "nat \<Rightarrow> nat \<Rightarrow> field list \<Rightarrow> bytes \<Rightarrow> nat \<Rightarrow> (bytes \<times> nat) option" where
  "run_fields cb bb [] bs ip = Some (bs, ip)"
| "run_fields cb bb (f # fs) bs ip =
     (case run_field cb bb f bs ip of None \<Rightarrow> None
      | Some (bs', ip') \<Rightarrow> run_fields cb bb fs bs' ip')"

definition remap_const_ops :: "OpCode list" where
  "remap_const_ops = [
    OpConstant, OpWriteStatic, OpGetClassMember, OpSetClassMember, OpEraseClassMember, OpMemberSet,
    OpMemberSetSet, OpNewClass, OpLetClassMember, OpArgClassMemberRef,
    OpJSDeclareName, OpJSGetName, OpJSSetName, OpJSCreateClosure,
    OpJSMemberDelete, OpJSPostIncrement, OpJSPostDecrement, OpJSPreIncrement, OpJSPreDecrement,
    OpJSAddAssign, OpJSSubtractAssign, OpJSMultiplyAssign, OpJSDivideAssign, OpJSModuloAssign,
    OpJSExponentAssign, OpJSLogicalAndAssign, OpJSLogicalOrAssign, OpJSCoalesceAssign,
    OpJSMemberIndexGet, OpJSMemberIndexSet,
    OpJSPostMemberIncrement, OpJSPostMemberDecrement, OpJSPreMemberIncrement, OpJSPreMemberDecrement,
    OpJSLetDeclare, OpJSTDZRegisterLet, OpJSTDZRegisterConst, OpJSConstInitialize, OpJSIncLocalInt, OpJSDecLocalInt,
    OpJSSuperMemberGet, OpJSSuperMemberSet, OpJSExportAll]"

definition remap_jump_ops :: "OpCode list" where
  "remap_jump_ops = [
    OpJump, OpJumpIfFalse, OpJumpIfTrue, OpGotoLabel, OpJSJump, OpJSJumpIfFalse, OpJSJumpIfTrue,
    OpJSTryEnter, OpJSCase, OpJSDefault, OpJSBreak, OpJSContinue, OpJSForInCleanup, OpJSForOfCleanup,
    OpJSJumpIfNullish, OpJSJumpIfNotNullish, OpJSJumpIfNotUndefined,
    OpJumpIfNotEq, OpJumpIfEq, OpJumpIfNotLt, OpJumpIfLte, OpJumpIfNotIs,
    OpJSJumpIfLooseNotEq, OpJSJumpIfLooseEq, OpJSJumpIfStrictNotEq, OpJSJumpIfStrictEq, OpJSJumpIfNotLess, OpJSJumpIfLessEqual]"

definition remap_skip2_ops :: "OpCode list" where
  "remap_skip2_ops = [
    OpGetGlobal, OpSetGlobal, OpGetLocal, OpSetLocal, OpLabel, OpArgGlobalRef, OpArgLocalRef, OpLetGlobal,
    OpLetLocal, OpCall, OpIncLocalInt, OpDecLocalInt, OpIncGlobalInt, OpDecGlobalInt, OpWriteN,
    OpJSGetLocal, OpJSSetLocal, OpJSIncLocal, OpJSDecLocal, OpJSRootFrameEnter, OpJSRootFrameLeave]"

text \<open>The switch behind \<open>OpExtPrefix\<close>; \<open>None\<close> is its explicit \<open>panic\<close>.\<close>

definition ext_layout :: "ExtOpCode \<Rightarrow> field list option" where
  "ext_layout e =
     (if e \<in> {ExtOpInitRecord, ExtOpGetRecordMember, ExtOpSetRecordMember} then Some [FSkip 2]
      else if e \<in> set ext_size1_ops then Some []
      else if e \<in> {ExtOpFilePrint, ExtOpFileWrite} then Some [FSkip 2]
      else if e \<in> {ExtOpJumpLocalIfFalse, ExtOpJumpGlobalIfFalse} then Some [FSkip 2, FTarget]
      else if e = ExtOpJSJumpNameIfFalse then Some [FConst, FTarget]
      else if e \<in> {ExtOpAddLocalConst, ExtOpConcatLocalConst} then Some [FSkip 2, FConst]
      else if e = ExtOpSubGlobalConst then Some [FConst, FConst]
      else if e = ExtOpConstant2 then Some [FConst, FConst]
      else if e = ExtOpConstant3 then Some [FConst, FConst, FConst]
      else if e = ExtOpConstant4 then Some [FConst, FConst, FConst, FConst]
      else None)"

text \<open>The cases with a fixed operand layout.\<close>

definition op_layout :: "OpCode \<Rightarrow> field list option" where
  "op_layout op =
     (if op \<in> set remap_const_ops then Some [FConst]
      else if op \<in> {OpJSMemberGet, OpJSMemberSet} then Some [FConst, FSkip 2]
      else if op \<in> {OpJSRot, OpJSSuperCall, OpJSCall, OpJSTailCall, OpJSCallComputedMember,
                    OpJSTailCallComputedMember, OpJSNewArray, OpJSSuperCallComputedMember} then Some [FSkip 2]
      else if op = OpJSDefineProperty then Some [FConst, FSkip 2]
      else if op \<in> set remap_jump_ops then Some [FTarget]
      else if op = OpSetDirective then Some [FConst, FConst]
      else if op = OpCallMember then Some [FConst, FSkip 6]
      else if op \<in> {OpJSCallMember, OpJSTailCallMember, OpJSSuperCallMember} then Some [FConst, FSkip 2]
      else if op = OpArraySet then Some [FSkip 4]
      else if op \<in> {OpJSForIn, OpJSForOf} then Some [FConst, FTarget]
      else if op = OpJSForFastIntEnter then Some [FSkip 4, FTarget]
      else if op = OpJSForFastInt then Some [FSkip 4, FSkip 4]
      else if op = OpRegisterClass then Some [FConst]
      else if op = OpRegisterClassField then Some [FConst, FConst, FSkip 2, FSkip 1, FConst]
      else if op = OpInitClassArrayField then Some [FConst, FConst, FSkip 2]
      else if op = OpRegisterClassMethod then Some [FConst, FConst, FConst, FSkip 2]
      else if op \<in> {OpRegisterClassPropertyGet, OpRegisterClassPropertyLet, OpRegisterClassPropertySet}
        then Some [FConst, FConst, FConst, FSkip 4]
      else if op \<in> set remap_skip2_ops then Some [FSkip 2]
      else if op = OpForNextFastInt then Some [FSkip 5, FTarget]
      else if op = OpForNextFastGlobalInt then Some [FConst, FConst, FSkip 1, FTarget]
      else if op = OpJSJumpIfLessFast then Some [FConst, FConst, FTarget]
      else if op = OpJSExport then Some [FConst, FConst]
      else if op \<in> {OpSetOption, OpLine, OpCallBuiltin} then Some [FSkip 4]
      else None)"

text \<open>\<open>OpJSForIterEnter\<close>, \<open>OpJSForIterExit\<close> and \<open>OpJSImport\<close>: a counted list of entries of \<open>k\<close>
  constant indices, cut short at the end of the slice.\<close>

fun run_entries :: "nat \<Rightarrow> nat \<Rightarrow> nat \<Rightarrow> nat \<Rightarrow> bytes \<Rightarrow> nat \<Rightarrow> (bytes \<times> nat) option" where
  "run_entries cb bb k 0 bs ip = Some (bs, ip)"
| "run_entries cb bb k (Suc n) bs ip =
     (if ip + 2 * k \<le> length bs
      then (case run_fields cb bb (replicate k FConst) bs ip of None \<Rightarrow> None
            | Some (bs', ip') \<Rightarrow> run_entries cb bb k n bs' ip')
      else Some (bs, ip))"

text \<open>One iteration of the loop: \<open>ip\<close> is the offset of the opcode byte.\<close>

definition remap_instr :: "nat \<Rightarrow> nat \<Rightarrow> bytes \<Rightarrow> nat \<Rightarrow> (bytes \<times> nat) option" where
  "remap_instr cb bb bs ip =
     (let op = bs ! ip; p = ip + 1
      in case op_layout op of
           Some fs \<Rightarrow> run_fields cb bb fs bs p
         | None \<Rightarrow>
           (if op = OpExtPrefix then
              (case get_at bs p of None \<Rightarrow> None
               | Some e \<Rightarrow> (case ext_layout e of None \<Rightarrow> None
                           | Some fs \<Rightarrow> run_fields cb bb fs bs (p + 1)))
            else if op \<in> {OpJSForIterEnter, OpJSForIterExit} then
              (case be16_at bs p of None \<Rightarrow> Some (bs, p)
               | Some n \<Rightarrow> run_entries cb bb 1 n bs (p + 2))
            else if op = OpJSImport then
              (if length bs < p + 4 then Some (bs, p)
               else (case run_field cb bb FConst bs p of None \<Rightarrow> None
                     | Some (bs', p') \<Rightarrow>
                       (case be16_at bs' p' of None \<Rightarrow> None
                        | Some n \<Rightarrow> run_entries cb bb 2 n bs' (p' + 2))))
            else Some (bs, p + opcodeOperandSize op bs ip)))"

section \<open>Frame and progress of one step\<close>

declare run_field.simps [simp del]

lemma run_field_frame:
  "run_field cb bb f bs ip = Some (bs', ip') \<Longrightarrow>
   ip \<le> ip' \<and> length bs' = length bs \<and> (\<forall>k. k < ip \<or> ip' \<le> k \<longrightarrow> bs' ! k = bs ! k)"
  by (cases f) (auto simp: run_field.simps put_be16_def put_be32_def split: option.splits if_splits)

lemma run_fields_frame:
  "run_fields cb bb fs bs ip = Some (bs', ip') \<Longrightarrow>
   ip \<le> ip' \<and> length bs' = length bs \<and> (\<forall>k. k < ip \<or> ip' \<le> k \<longrightarrow> bs' ! k = bs ! k)"
proof (induction fs arbitrary: bs ip)
  case Nil
  then show ?case by simp
next
  case (Cons f fs)
  then obtain b1 p1 where s: "run_field cb bb f bs ip = Some (b1, p1)"
    and r: "run_fields cb bb fs b1 p1 = Some (bs', ip')"
    by (auto split: option.splits)
  from Cons.IH[OF r] run_field_frame[OF s] show ?case by auto
qed

lemma run_entries_frame:
  "run_entries cb bb k n bs ip = Some (bs', ip') \<Longrightarrow>
   ip \<le> ip' \<and> length bs' = length bs \<and> (\<forall>j. j < ip \<or> ip' \<le> j \<longrightarrow> bs' ! j = bs ! j)"
proof (induction n arbitrary: bs ip)
  case 0
  then show ?case by simp
next
  case (Suc n)
  show ?case
  proof (cases "ip + 2 * k \<le> length bs")
    case True
    with Suc.prems obtain b1 p1 where s: "run_fields cb bb (replicate k FConst) bs ip = Some (b1, p1)"
      and r: "run_entries cb bb k n b1 p1 = Some (bs', ip')"
      by (auto split: option.splits)
    from Suc.IH[OF r] run_fields_frame[OF s] show ?thesis by auto
  next
    case False
    with Suc.prems show ?thesis by simp
  qed
qed

lemma remap_instr_frame:
  assumes "remap_instr cb bb bs ip = Some (bs', ip')"
  shows "ip < ip' \<and> length bs' = length bs \<and> (\<forall>k. k \<le> ip \<or> ip' \<le> k \<longrightarrow> bs' ! k = bs ! k)"
  using assms
  by (auto simp: remap_instr_def Let_def split: option.splits if_splits prod.splits
      dest!: run_fields_frame run_entries_frame run_field_frame)

function remap_from :: "nat \<Rightarrow> nat \<Rightarrow> bytes \<Rightarrow> nat \<Rightarrow> bytes option" where
  "remap_from cb bb bs ip =
     (if ip < length bs
      then (case remap_instr cb bb bs ip of
              None \<Rightarrow> None
            | Some r \<Rightarrow> remap_from cb bb (fst r) (snd r))
      else Some bs)"
  by pat_completeness auto
termination
proof (relation "measure (\<lambda>(cb, bb, bs, ip). length bs - ip)", goal_cases)
  case 1
  then show ?case by simp
next
  case (2 cb bb bs ip r)
  then show ?case using remap_instr_frame[of cb bb bs ip "fst r" "snd r"] by (cases r) auto
qed

declare remap_from.simps [simp del]

definition remapExecuteGlobalBytecode :: "bytes \<Rightarrow> nat \<Rightarrow> nat \<Rightarrow> bytes option" where
  "remapExecuteGlobalBytecode bs constBase bytecodeBase = remap_from constBase bytecodeBase bs 0"

section \<open>Agreement with the instruction sizes\<close>

fun field_size :: "field \<Rightarrow> nat" where
  "field_size FConst = 2"
| "field_size FTarget = 4"
| "field_size (FSkip n) = n"

definition layout_size :: "field list \<Rightarrow> nat" where
  "layout_size fs = sum_list (map field_size fs)"

lemma layout_size_simps [simp]:
  "layout_size [] = 0"
  "layout_size (f # fs) = field_size f + layout_size fs"
  by (simp_all add: layout_size_def)

lemma run_fields_advance: "run_fields cb bb fs bs p = Some (bs', p') \<Longrightarrow> p' = p + layout_size fs"
proof (induction fs arbitrary: bs p)
  case Nil
  then show ?case by simp
next
  case (Cons f fs)
  then show ?case
    by (cases f) (fastforce simp: run_field.simps split: option.splits)+
qed

lemma single_sizes:
  "opcodeOperandSize OpJSMemberGet bs ip = 4" "opcodeOperandSize OpJSMemberSet bs ip = 4"
  "opcodeOperandSize OpJSRot bs ip = 2" "opcodeOperandSize OpJSSuperCall bs ip = 2"
  "opcodeOperandSize OpJSCall bs ip = 2" "opcodeOperandSize OpJSTailCall bs ip = 2"
  "opcodeOperandSize OpJSCallComputedMember bs ip = 2"
  "opcodeOperandSize OpJSTailCallComputedMember bs ip = 2"
  "opcodeOperandSize OpJSNewArray bs ip = 2"
  "opcodeOperandSize OpJSSuperCallComputedMember bs ip = 2"
  "opcodeOperandSize OpJSDefineProperty bs ip = 4" "opcodeOperandSize OpSetDirective bs ip = 4"
  "opcodeOperandSize OpCallMember bs ip = 8" "opcodeOperandSize OpJSCallMember bs ip = 4"
  "opcodeOperandSize OpJSTailCallMember bs ip = 4" "opcodeOperandSize OpJSSuperCallMember bs ip = 4"
  "opcodeOperandSize OpArraySet bs ip = 4" "opcodeOperandSize OpJSForIn bs ip = 6"
  "opcodeOperandSize OpJSForOf bs ip = 6" "opcodeOperandSize OpJSForFastIntEnter bs ip = 8"
  "opcodeOperandSize OpJSForFastInt bs ip = 8" "opcodeOperandSize OpRegisterClass bs ip = 2"
  "opcodeOperandSize OpRegisterClassField bs ip = 9" "opcodeOperandSize OpInitClassArrayField bs ip = 6"
  "opcodeOperandSize OpRegisterClassMethod bs ip = 8"
  "opcodeOperandSize OpRegisterClassPropertyGet bs ip = 10"
  "opcodeOperandSize OpRegisterClassPropertyLet bs ip = 10"
  "opcodeOperandSize OpRegisterClassPropertySet bs ip = 10"
  "opcodeOperandSize OpForNextFastInt bs ip = 9" "opcodeOperandSize OpForNextFastGlobalInt bs ip = 9"
  "opcodeOperandSize OpJSJumpIfLessFast bs ip = 8" "opcodeOperandSize OpJSExport bs ip = 4"
  "opcodeOperandSize OpSetOption bs ip = 4" "opcodeOperandSize OpLine bs ip = 4"
  "opcodeOperandSize OpCallBuiltin bs ip = 4"
  by (simp_all add: opcodeOperandSize_def size_ops_defs op_defs)

lemma list_sizes:
  "x \<in> set remap_const_ops \<Longrightarrow> opcodeOperandSize x bs ip = 2"
  "x \<in> set remap_skip2_ops \<Longrightarrow> opcodeOperandSize x bs ip = 2"
  "x \<in> set remap_jump_ops \<Longrightarrow> opcodeOperandSize x bs ip = 4"
proof -
  have "list_all (\<lambda>x. opcodeOperandSize x bs ip = 2) remap_const_ops"
    "list_all (\<lambda>x. opcodeOperandSize x bs ip = 2) remap_skip2_ops"
    "list_all (\<lambda>x. opcodeOperandSize x bs ip = 4) remap_jump_ops"
    by (simp_all add: remap_const_ops_def remap_skip2_ops_def remap_jump_ops_def
        opcodeOperandSize_def size_ops_defs op_defs)
  then show "x \<in> set remap_const_ops \<Longrightarrow> opcodeOperandSize x bs ip = 2"
    "x \<in> set remap_skip2_ops \<Longrightarrow> opcodeOperandSize x bs ip = 2"
    "x \<in> set remap_jump_ops \<Longrightarrow> opcodeOperandSize x bs ip = 4"
    by (simp_all add: list_all_iff)
qed

text \<open>Every layout of the relocation switch is as long as the instruction's operands.\<close>

lemma op_layout_size: "op_layout op = Some fs \<Longrightarrow> layout_size fs = opcodeOperandSize op bs ip"
  by (auto simp: op_layout_def single_sizes list_sizes split: if_splits)

lemma ext_layout_size: "ext_layout e = Some fs \<Longrightarrow> 1 + layout_size fs = ext_size e"
proof -
  have l: "x \<in> set ext_size1_ops \<Longrightarrow> ext_size x = 1" for x
  proof -
    have "list_all (\<lambda>x. ext_size x = 1) ext_size1_ops"
      by (simp add: ext_size_def ext_size1_ops_def op_defs)
    then show "x \<in> set ext_size1_ops \<Longrightarrow> ext_size x = 1" by (simp add: list_all_iff)
  qed
  have s: "ext_size ExtOpInitRecord = 3" "ext_size ExtOpGetRecordMember = 3" "ext_size ExtOpSetRecordMember = 3"
    "ext_size ExtOpFilePrint = 3" "ext_size ExtOpFileWrite = 3" "ext_size ExtOpJumpLocalIfFalse = 7"
    "ext_size ExtOpJumpGlobalIfFalse = 7" "ext_size ExtOpJSJumpNameIfFalse = 7"
    "ext_size ExtOpAddLocalConst = 5" "ext_size ExtOpConcatLocalConst = 5" "ext_size ExtOpSubGlobalConst = 5"
    "ext_size ExtOpConstant2 = 5" "ext_size ExtOpConstant3 = 7" "ext_size ExtOpConstant4 = 9"
    by (simp_all add: ext_size_def ext_size1_ops_def op_defs)
  show "ext_layout e = Some fs \<Longrightarrow> 1 + layout_size fs = ext_size e"
    by (auto simp: ext_layout_def l s split: if_splits)
qed

section \<open>What the relocated code is\<close>

text \<open>The operand fields of the instruction at \<open>i\<close> and where they start.\<close>

definition fields_of :: "bytes \<Rightarrow> nat \<Rightarrow> field list \<times> nat" where
  "fields_of bs i =
     (case op_layout (bs ! i) of
        Some fs \<Rightarrow> (fs, i + 1)
      | None \<Rightarrow>
        (if bs ! i = OpExtPrefix then
           (case ext_layout (bs ! (i + 1)) of Some fs \<Rightarrow> (fs, i + 2) | None \<Rightarrow> ([], i + 2))
         else ([FSkip (opcodeOperandSize (bs ! i) bs i)], i + 1)))"

text \<open>A complete instruction that the relocation walks past exactly.\<close>

definition supported :: "bytes \<Rightarrow> nat \<Rightarrow> bool" where
  "supported bs i \<longleftrightarrow>
     next_ip bs i \<le> length bs
   \<and> bs ! i \<notin> {OpJSForIterEnter, OpJSForIterExit, OpJSImport}
   \<and> (bs ! i = OpExtPrefix \<longrightarrow> i + 1 < length bs \<and> ext_layout (bs ! (i + 1)) \<noteq> None
        \<and> i + 1 + ext_size (bs ! (i + 1)) \<le> length bs)
   \<and> (bs ! i = OpJSObjectRest \<longrightarrow> opcodeOperandSize (bs ! i) bs i \<noteq> 0)"

definition relocatable :: "bytes \<Rightarrow> bool" where
  "relocatable bs \<longleftrightarrow> list_all (supported bs) (walk bs 0)"

text \<open>The operand bytes at \<open>p\<close> of \<open>bs'\<close> are those of \<open>bs\<close>, relocated.\<close>

fun reloc_fields :: "nat \<Rightarrow> nat \<Rightarrow> field list \<Rightarrow> bytes \<Rightarrow> bytes \<Rightarrow> nat \<Rightarrow> bool" where
  "reloc_fields cb bb [] bs bs' p = True"
| "reloc_fields cb bb (FConst # fs) bs bs' p =
     (be16_at bs' p = map_option (\<lambda>c. (c + cb) mod 65536) (be16_at bs p)
      \<and> reloc_fields cb bb fs bs bs' (p + 2))"
| "reloc_fields cb bb (FTarget # fs) bs bs' p =
     (be32_at bs' p = map_option (\<lambda>t. (t + bb) mod 4294967296) (be32_at bs p)
      \<and> reloc_fields cb bb fs bs bs' (p + 4))"
| "reloc_fields cb bb (FSkip n # fs) bs bs' p =
     ((\<forall>k. p \<le> k \<and> k < p + n \<longrightarrow> bs' ! k = bs ! k) \<and> reloc_fields cb bb fs bs bs' (p + n))"

definition relocated :: "nat \<Rightarrow> nat \<Rightarrow> bytes \<Rightarrow> bytes \<Rightarrow> nat \<Rightarrow> bool" where
  "relocated cb bb bs bs' i \<longleftrightarrow>
     bs' ! i = bs ! i \<and> (bs ! i = OpExtPrefix \<longrightarrow> bs' ! (i + 1) = bs ! (i + 1))
   \<and> reloc_fields cb bb (fst (fields_of bs i)) bs bs' (snd (fields_of bs i))"

text \<open>Two slices that agree on a range of bytes.\<close>

definition agree :: "bytes \<Rightarrow> bytes \<Rightarrow> nat \<Rightarrow> nat \<Rightarrow> bool" where
  "agree bs bs' a b \<longleftrightarrow> length bs' = length bs \<and> (\<forall>k. a \<le> k \<and> k < b \<longrightarrow> bs' ! k = bs ! k)"

lemma agreeD: "agree bs bs' a b \<Longrightarrow> a \<le> k \<Longrightarrow> k < b \<Longrightarrow> bs' ! k = bs ! k"
  by (simp add: agree_def)

lemma agree_length: "agree bs bs' a b \<Longrightarrow> length bs' = length bs"
  by (simp add: agree_def)

lemma agree_mono: "agree bs bs' a b \<Longrightarrow> a \<le> c \<Longrightarrow> d \<le> b \<Longrightarrow> agree bs bs' c d"
  by (auto simp: agree_def)

lemma reloc_fields_cong:
  "agree b1 b2 p (p + layout_size fs) \<Longrightarrow> agree c1 c2 p (p + layout_size fs) \<Longrightarrow>
   reloc_fields cb bb fs b1 c1 p \<Longrightarrow> reloc_fields cb bb fs b2 c2 p"
proof (induction fs arbitrary: p)
  case Nil
  then show ?case by simp
next
  case (Cons f fs)
  have a: "agree b1 b2 (p + field_size f) (p + field_size f + layout_size fs)"
    "agree c1 c2 (p + field_size f) (p + field_size f + layout_size fs)"
    using Cons.prems(1,2) by (auto intro: agree_mono)
  have eq: "length b2 = length b1" "length c2 = length c1"
    "\<And>k. p \<le> k \<Longrightarrow> k < p + field_size f \<Longrightarrow> b2 ! k = b1 ! k"
    "\<And>k. p \<le> k \<Longrightarrow> k < p + field_size f \<Longrightarrow> c2 ! k = c1 ! k"
    using Cons.prems(1,2) by (auto simp: agree_def)
  have c16: "field_size f = 2 \<Longrightarrow> be16_at b2 p = be16_at b1 p \<and> be16_at c2 p = be16_at c1 p"
    using eq by (auto intro!: be16_at_cong)
  have c32: "field_size f = 4 \<Longrightarrow> be32_at b2 p = be32_at b1 p \<and> be32_at c2 p = be32_at c1 p"
    using eq by (auto intro!: be32_at_cong)
  show ?case
    using Cons.IH[OF a] Cons.prems(3) eq c16 c32 by (cases f) auto
qed

lemma run_field_reloc:
  assumes "p + field_size f \<le> length bs"
  shows "\<exists>b1. run_field cb bb f bs p = Some (b1, p + field_size f) \<and> reloc_fields cb bb [f] bs b1 p"
proof (cases f)
  case FConst
  then obtain n where n: "be16_at bs p = Some n" using assms by (auto simp: be16_at_def)
  obtain b1 where b1: "put_be16 bs p (n + cb) = Some b1" using assms FConst by (auto simp: put_be16_def)
  show ?thesis using n b1 be16_put_same[OF b1] FConst by (simp add: run_field.simps)
next
  case FTarget
  then obtain n where n: "be32_at bs p = Some n" using assms by (auto simp: be32_at_def)
  obtain b1 where b1: "put_be32 bs p (n + bb) = Some b1" using assms FTarget by (auto simp: put_be32_def)
  show ?thesis using n b1 be32_put_same[OF b1] FTarget by (simp add: run_field.simps)
next
  case (FSkip n)
  then show ?thesis by (simp add: run_field.simps)
qed

lemma run_fields_reloc:
  "p + layout_size fs \<le> length bs \<Longrightarrow>
   \<exists>bs'. run_fields cb bb fs bs p = Some (bs', p + layout_size fs) \<and> reloc_fields cb bb fs bs bs' p"
proof (induction fs arbitrary: bs p)
  case Nil
  then show ?case by simp
next
  case (Cons f fs)
  obtain b1 where s: "run_field cb bb f bs p = Some (b1, p + field_size f)"
    and r1: "reloc_fields cb bb [f] bs b1 p"
    using run_field_reloc[of p f bs] Cons.prems by auto
  have fr: "length b1 = length bs" "\<And>k. p + field_size f \<le> k \<Longrightarrow> b1 ! k = bs ! k"
    using run_field_frame[OF s] by auto
  obtain b2 where t: "run_fields cb bb fs b1 (p + field_size f)
      = Some (b2, p + field_size f + layout_size fs)"
    and r2: "reloc_fields cb bb fs b1 b2 (p + field_size f)"
    using Cons.IH[of "p + field_size f" b1] Cons.prems fr by auto
  have fr2: "length b2 = length b1" "\<And>k. k < p + field_size f \<Longrightarrow> b2 ! k = b1 ! k"
    using run_fields_frame[OF t] by auto
  have "reloc_fields cb bb [f] bs b2 p"
    using r1 by (rule reloc_fields_cong[rotated 2]) (auto simp: agree_def fr2)
  moreover have "reloc_fields cb bb fs bs b2 (p + field_size f)"
    using r2 by (rule reloc_fields_cong[rotated 2]) (auto simp: agree_def fr)
  ultimately show ?case using s t by (cases f) auto
qed

section \<open>The whole pass\<close>

lemma operand_size_cong:
  assumes "length bs' = length bs" "bs' ! i = bs ! i"
    "bs ! i = OpExtPrefix \<Longrightarrow> i + 1 < length bs \<Longrightarrow> bs' ! (i + 1) = bs ! (i + 1)"
    "bs ! i = OpJSObjectRest \<Longrightarrow> be16_at bs' (i + 1) = be16_at bs (i + 1)"
  shows "opcodeOperandSize (bs' ! i) bs' i = opcodeOperandSize (bs ! i) bs i"
proof -
  have ext: "opcodeOperandSize OpExtPrefix b i
      = (case get_at b (i + 1) of None \<Rightarrow> 0
         | Some e \<Rightarrow> (if length b < i + 1 + ext_size e then 0 else ext_size e))" for b
    by (simp add: opcodeOperandSize_def size_ops_defs op_defs)
  have rest: "opcodeOperandSize OpJSObjectRest b i = object_rest_size b i" for b
    by (simp add: opcodeOperandSize_def size_ops_defs op_defs)
  consider "bs ! i = OpExtPrefix" | "bs ! i = OpJSObjectRest"
    | "bs ! i \<noteq> OpExtPrefix" "bs ! i \<noteq> OpJSObjectRest" by blast
  then show ?thesis
  proof cases
    case 1
    then show ?thesis using assms by (simp add: ext get_at_def)
  next
    case 2
    then show ?thesis using assms(1,2,4) by (auto simp: rest object_rest_size_def Let_def split: option.splits)
  next
    case 3
    then show ?thesis unfolding assms(2) opcodeOperandSize_def by simp
  qed
qed

lemma next_ip_cong_from:
  assumes "agree bs bs' i (length bs)" "i < length bs"
  shows "next_ip bs' i = next_ip bs i"
proof -
  have len: "length bs' = length bs" using assms(1) by (simp add: agree_def)
  have eq: "bs' ! k = bs ! k" if "i \<le> k" "k < length bs" for k
    using assms(1) that by (simp add: agree_def)
  have "opcodeOperandSize (bs' ! i) bs' i = opcodeOperandSize (bs ! i) bs i"
    by (rule operand_size_cong) (use eq assms(2) len in \<open>auto intro!: be16_at_cong\<close>)
  then show ?thesis by (simp add: next_ip_def)
qed

lemma walk_cong:
  "agree bs bs' ip (length bs) \<Longrightarrow> walk bs' ip = walk bs ip"
proof (induction bs ip rule: walk.induct)
  case (1 bs ip)
  show ?case
  proof (cases "ip < length bs")
    case True
    have n: "next_ip bs' ip = next_ip bs ip" using next_ip_cong_from[OF "1.prems" True] .
    have "agree bs bs' (next_ip bs ip) (length bs)"
      using "1.prems" by (rule agree_mono) (simp_all add: next_ip_def)
    from "1.IH"[OF True this] n "1.prems" True show ?thesis
      by (simp add: walk.simps[of bs ip] walk.simps[of bs' ip] agree_def)
  next
    case False
    with "1.prems" show ?thesis by (simp add: walk.simps agree_def)
  qed
qed

lemma fields_of_range:
  assumes "supported bs i"
  shows "i < snd (fields_of bs i)"
    and "snd (fields_of bs i) + layout_size (fst (fields_of bs i)) = next_ip bs i"
proof -
  have no: "op_layout OpExtPrefix = None"
    by (simp add: op_layout_def remap_const_ops_def remap_jump_ops_def remap_skip2_ops_def op_defs)
  show "i < snd (fields_of bs i)" by (auto simp: fields_of_def split: option.splits)
  show "snd (fields_of bs i) + layout_size (fst (fields_of bs i)) = next_ip bs i"
  proof (cases "bs ! i = OpExtPrefix")
    case True
    with assms obtain fs where fs: "ext_layout (bs ! (i + 1)) = Some fs"
      and b: "i + 1 < length bs" "i + 1 + ext_size (bs ! (i + 1)) \<le> length bs"
      by (auto simp: supported_def)
    have "opcodeOperandSize OpExtPrefix bs i = ext_size (bs ! (i + 1))"
      using b by (simp add: opcodeOperandSize_def size_ops_defs op_defs)
    with ext_layout_size[OF fs] True fs no show ?thesis
      by (simp add: fields_of_def next_ip_def)
  next
    case False
    then show ?thesis
      using op_layout_size[of "bs ! i" _ bs i] by (auto simp: fields_of_def next_ip_def split: option.splits)
  qed
qed

lemma remap_instr_supported:
  assumes "supported bs i" "i < length bs"
  shows "\<exists>bs'. remap_instr cb bb bs i = Some (bs', next_ip bs i)
           \<and> reloc_fields cb bb (fst (fields_of bs i)) bs bs' (snd (fields_of bs i))
           \<and> (\<forall>k < snd (fields_of bs i). bs' ! k = bs ! k)"
proof -
  obtain fs p where fp: "fields_of bs i = (fs, p)" by (cases "fields_of bs i")
  have end_: "p + layout_size fs = next_ip bs i" using fields_of_range(2)[OF assms(1)] fp by simp
  then have "p + layout_size fs \<le> length bs" using assms(1) by (simp add: supported_def)
  then obtain bs' where r: "run_fields cb bb fs bs p = Some (bs', next_ip bs i)"
    "reloc_fields cb bb fs bs bs' p"
    using run_fields_reloc[of p fs bs cb bb] end_ by auto
  have "remap_instr cb bb bs i = run_fields cb bb fs bs p"
    using fp assms
    by (auto simp: remap_instr_def fields_of_def supported_def Let_def run_field.simps
        split: option.splits if_splits)
  with r fp run_fields_frame[OF r(1)] show ?thesis by auto
qed

lemma relocated_next_ip:
  assumes "supported bs i" "relocated cb bb bs bs' i" "length bs' = length bs"
  shows "next_ip bs' i = next_ip bs i"
proof -
  have no: "op_layout OpJSObjectRest = None" "OpJSObjectRest \<noteq> OpExtPrefix"
    by (simp_all add: op_layout_def remap_const_ops_def remap_jump_ops_def remap_skip2_ops_def op_defs)
  have "opcodeOperandSize (bs' ! i) bs' i = opcodeOperandSize (bs ! i) bs i"
  proof (rule operand_size_cong)
    assume o: "bs ! i = OpJSObjectRest"
    let ?n = "opcodeOperandSize (bs ! i) bs i"
    have rest: "?n = object_rest_size bs i"
      using o by (simp add: opcodeOperandSize_def size_ops_defs op_defs)
    have "?n \<noteq> 0" using assms(1) o by (simp add: supported_def)
    then have "4 \<le> ?n" using rest by (auto simp: object_rest_size_def Let_def split: option.splits if_splits)
    moreover have "\<forall>k. i + 1 \<le> k \<and> k < i + 1 + ?n \<longrightarrow> bs' ! k = bs ! k"
      using assms(2) o no by (simp add: relocated_def fields_of_def)
    ultimately show "be16_at bs' (i + 1) = be16_at bs (i + 1)"
      using assms(3) by (intro be16_at_cong) auto
  qed (use assms in \<open>auto simp: relocated_def\<close>)
  then show ?thesis by (simp add: next_ip_def)
qed

lemma supported_cong:
  assumes "agree bs bs' i (length bs)" "i < length bs"
  shows "supported bs' i = supported bs i"
  using next_ip_cong_from[OF assms] assms
  by (auto simp: supported_def agree_def next_ip_def)

lemma fields_of_cong:
  assumes "agree bs bs' i (length bs)" "i < length bs" "supported bs i"
  shows "fields_of bs' i = fields_of bs i"
  using next_ip_cong_from[OF assms(1,2)] assms
  by (auto simp: fields_of_def agree_def next_ip_def supported_def split: option.splits)

theorem remap_from_spec:
  "\<forall>i\<in>set (walk bs ip). supported bs i \<Longrightarrow>
   \<exists>bs'. remap_from cb bb bs ip = Some bs' \<and> length bs' = length bs \<and> (\<forall>k < ip. bs' ! k = bs ! k)
       \<and> walk bs' ip = walk bs ip \<and> (\<forall>i\<in>set (walk bs ip). relocated cb bb bs bs' i)"
proof (induction cb bb bs ip rule: remap_from.induct)
  case (1 cb bb bs ip)
  show ?case
  proof (cases "ip < length bs")
    case False
    then show ?thesis by (simp add: remap_from.simps walk.simps)
  next
    case True
    let ?n = "next_ip bs ip"
    have w: "walk bs ip = ip # walk bs ?n" using True by (simp add: walk.simps[of bs ip])
    then have sup: "supported bs ip" using "1.prems" by simp
    obtain b1 where st: "remap_instr cb bb bs ip = Some (b1, ?n)"
      and rl: "reloc_fields cb bb (fst (fields_of bs ip)) bs b1 (snd (fields_of bs ip))"
      and pre: "\<forall>k < snd (fields_of bs ip). b1 ! k = bs ! k"
      using remap_instr_supported[OF sup True] by blast
    have fr: "length b1 = length bs" "\<And>k. k \<le> ip \<or> ?n \<le> k \<Longrightarrow> b1 ! k = bs ! k"
      using remap_instr_frame[OF st] by auto
    have ag: "agree bs b1 ?n (length bs)" using fr by (simp add: agree_def)
    have w1: "walk b1 ?n = walk bs ?n" by (rule walk_cong[OF ag])
    have later: "?n \<le> i \<and> i < length bs" if "i \<in> set (walk bs ?n)" for i
      using walk_bounds that by blast
    have agi: "agree bs b1 i (length bs)" if "i \<in> set (walk bs ?n)" for i
      using ag later[OF that] by (auto intro: agree_mono)
    have "\<forall>i\<in>set (walk b1 ?n). supported b1 i"
      using "1.prems" w w1 later supported_cong[OF agi] by auto
    then obtain b2 where r: "remap_from cb bb b1 ?n = Some b2" "length b2 = length b1"
      "\<forall>k < ?n. b2 ! k = b1 ! k" "walk b2 ?n = walk b1 ?n"
      "\<forall>i\<in>set (walk b1 ?n). relocated cb bb b1 b2 i"
      using "1.IH"[OF True st] by auto
    have here: "relocated cb bb bs b2 ip"
    proof -
      have "reloc_fields cb bb (fst (fields_of bs ip)) bs b2 (snd (fields_of bs ip))"
        using rl by (rule reloc_fields_cong[rotated 2])
          (use fields_of_range[OF sup] r fr in \<open>auto simp: agree_def\<close>)
      moreover have "bs ! ip = OpExtPrefix \<Longrightarrow> snd (fields_of bs ip) = ip + 2 \<and> ip + 1 < ?n"
        using sup op_layout_size[of OpExtPrefix _ bs ip] fields_of_range(2)[OF sup]
        by (auto simp: fields_of_def supported_def split: option.splits if_splits)
           (simp_all add: op_layout_def remap_const_ops_def remap_jump_ops_def remap_skip2_ops_def op_defs)
      ultimately show ?thesis
        using pre r(3) fr next_ip_gt[of ip bs] by (auto simp: relocated_def)
    qed
    have rest: "relocated cb bb bs b2 i" if i: "i \<in> set (walk bs ?n)" for i
    proof -
      have si: "supported bs i" using "1.prems" w i by simp
      have f: "fields_of b1 i = fields_of bs i" using fields_of_cong[OF agi[OF i] _ si] later[OF i] by simp
      have rb: "relocated cb bb b1 b2 i" using r(5) w1 i by simp
      have e: "b1 ! i = bs ! i" "bs ! i = OpExtPrefix \<Longrightarrow> b1 ! (i + 1) = bs ! (i + 1)"
        using fr(2)[of i] fr(2)[of "i + 1"] later[OF i] by simp_all
      have "reloc_fields cb bb (fst (fields_of bs i)) b1 b2 (snd (fields_of bs i))"
        using rb f by (simp add: relocated_def)
      then have "reloc_fields cb bb (fst (fields_of bs i)) bs b2 (snd (fields_of bs i))"
        by (rule reloc_fields_cong[rotated 2])
           (use fields_of_range[OF si] later[OF i] fr r in \<open>auto simp: agree_def\<close>)
      then show ?thesis using rb e by (auto simp: relocated_def)
    qed
    have "walk b2 ip = ip # walk bs ?n"
      using relocated_next_ip[OF sup here] r fr w1 True by (simp add: walk.simps[of b2 ip])
    then show ?thesis
      using st True r fr here rest w next_ip_gt[of ip bs] by (simp add: remap_from.simps[of cb bb bs ip])
  qed
qed

section \<open>Properties\<close>



end
