(* ===== verification/VBErrors.thy ===== *)
theory VBErrors
  imports Opcodes
begin

text \<open>
  The VBScript error catalogue (\<open>vbscript/vberrorcodes.go\<close>) and the HRESULT the engine reports
  for a code (\<open>vbscript/vberror_helpers.go\<close>). \<open>True\<close> and \<open>False\<close> of the Go constants are
  \<open>VBTrue\<close> and \<open>VBFalse\<close> here.
\<close>

type_synonym VBSyntaxErrorCode = int

named_theorems err_defs \<open>the numeric values of the error codes\<close>

section \<open>Codes\<close>

definition InvalidProcedureCallOrArgument :: VBSyntaxErrorCode where [err_defs]: "InvalidProcedureCallOrArgument = 5"
definition Overflow :: VBSyntaxErrorCode where [err_defs]: "Overflow = 6"
definition OutOfMemory :: VBSyntaxErrorCode where [err_defs]: "OutOfMemory = 7"
definition SubscriptOutOfRange :: VBSyntaxErrorCode where [err_defs]: "SubscriptOutOfRange = 9"
definition TheArrayIsOfFixedLengthOrTemporarilyLocked :: VBSyntaxErrorCode where [err_defs]: "TheArrayIsOfFixedLengthOrTemporarilyLocked = 10"
definition DivisionByZero :: VBSyntaxErrorCode where [err_defs]: "DivisionByZero = 11"
definition TypeMismatch :: VBSyntaxErrorCode where [err_defs]: "TypeMismatch = 13"
definition OutOfStringSpace :: VBSyntaxErrorCode where [err_defs]: "OutOfStringSpace = 14"
definition CannotPerformTheRequestedOperation :: VBSyntaxErrorCode where [err_defs]: "CannotPerformTheRequestedOperation = 17"
definition StackOverflow :: VBSyntaxErrorCode where [err_defs]: "StackOverflow = 28"
definition UndefinedSubProcedureOrFunction :: VBSyntaxErrorCode where [err_defs]: "UndefinedSubProcedureOrFunction = 35"
definition ErrorLoadingDLL :: VBSyntaxErrorCode where [err_defs]: "ErrorLoadingDLL = 48"
definition InternalError :: VBSyntaxErrorCode where [err_defs]: "InternalError = 51"
definition BadFileNameOrNumber :: VBSyntaxErrorCode where [err_defs]: "BadFileNameOrNumber = 52"
definition FileNotFound :: VBSyntaxErrorCode where [err_defs]: "FileNotFound = 53"
definition BadFileMode :: VBSyntaxErrorCode where [err_defs]: "BadFileMode = 54"
definition FileIsAlreadyOpen :: VBSyntaxErrorCode where [err_defs]: "FileIsAlreadyOpen = 55"
definition DeviceIOError :: VBSyntaxErrorCode where [err_defs]: "DeviceIOError = 57"
definition FileAlreadyExists :: VBSyntaxErrorCode where [err_defs]: "FileAlreadyExists = 58"
definition DiskSpaceIsFull :: VBSyntaxErrorCode where [err_defs]: "DiskSpaceIsFull = 61"
definition InputBeyondTheEndOfTheFile :: VBSyntaxErrorCode where [err_defs]: "InputBeyondTheEndOfTheFile = 62"
definition TooManyFiles :: VBSyntaxErrorCode where [err_defs]: "TooManyFiles = 67"
definition DeviceNotAvailable :: VBSyntaxErrorCode where [err_defs]: "DeviceNotAvailable = 68"
definition PermissionDenied :: VBSyntaxErrorCode where [err_defs]: "PermissionDenied = 70"
definition DiskNotReady :: VBSyntaxErrorCode where [err_defs]: "DiskNotReady = 71"
definition CannotRenameWithDifferentDrive :: VBSyntaxErrorCode where [err_defs]: "CannotRenameWithDifferentDrive = 74"
definition PathFileAccessError :: VBSyntaxErrorCode where [err_defs]: "PathFileAccessError = 75"
definition PathNotFound :: VBSyntaxErrorCode where [err_defs]: "PathNotFound = 76"
definition ObjectVariableNotSet :: VBSyntaxErrorCode where [err_defs]: "ObjectVariableNotSet = 91"
definition ForLoopIsNotInitialized :: VBSyntaxErrorCode where [err_defs]: "ForLoopIsNotInitialized = 92"
definition InvalidUseOfNull :: VBSyntaxErrorCode where [err_defs]: "InvalidUseOfNull = 94"
definition CouldNotCreateTheRequiredTemporaryFile :: VBSyntaxErrorCode where [err_defs]: "CouldNotCreateTheRequiredTemporaryFile = 322"
definition CouldNotFindTargetObject :: VBSyntaxErrorCode where [err_defs]: "CouldNotFindTargetObject = 424"
definition ActiveXCannotCreateObject :: VBSyntaxErrorCode where [err_defs]: "ActiveXCannotCreateObject = 429"
definition ClassDoesNotSupportAutomation :: VBSyntaxErrorCode where [err_defs]: "ClassDoesNotSupportAutomation = 430"
definition FileNameOrClassNameNotFound :: VBSyntaxErrorCode where [err_defs]: "FileNameOrClassNameNotFound = 432"
definition ObjectDoesntSupportThisPropertyOrMethod :: VBSyntaxErrorCode where [err_defs]: "ObjectDoesntSupportThisPropertyOrMethod = 438"
definition AutomationError :: VBSyntaxErrorCode where [err_defs]: "AutomationError = 440"
definition ObjectDoesNotSupportThisAction :: VBSyntaxErrorCode where [err_defs]: "ObjectDoesNotSupportThisAction = 445"
definition ObjectDoesNotSupportTheNamedArguments :: VBSyntaxErrorCode where [err_defs]: "ObjectDoesNotSupportTheNamedArguments = 446"
definition ObjectDoesNotSupportTheCurrentLocale :: VBSyntaxErrorCode where [err_defs]: "ObjectDoesNotSupportTheCurrentLocale = 447"
definition NamedArgumentNotFound :: VBSyntaxErrorCode where [err_defs]: "NamedArgumentNotFound = 448"
definition ParametersAreNotOptional :: VBSyntaxErrorCode where [err_defs]: "ParametersAreNotOptional = 449"
definition WrongNumberOfParameters :: VBSyntaxErrorCode where [err_defs]: "WrongNumberOfParameters = 450"
definition IsNotACollectionOfObjects :: VBSyntaxErrorCode where [err_defs]: "IsNotACollectionOfObjects = 451"
definition TheSpecifiedDLLFunctionWasNotFound :: VBSyntaxErrorCode where [err_defs]: "TheSpecifiedDLLFunctionWasNotFound = 453"
definition CodeResourceLockError :: VBSyntaxErrorCode where [err_defs]: "CodeResourceLockError = 455"
definition ThisKeyAlreadyAssociatedWithAnElement :: VBSyntaxErrorCode where [err_defs]: "ThisKeyAlreadyAssociatedWithAnElement = 457"
definition VariableUsesAnAutomationTypeNotSupported :: VBSyntaxErrorCode where [err_defs]: "VariableUsesAnAutomationTypeNotSupported = 458"
definition TheRemoteServerDoesNotExist :: VBSyntaxErrorCode where [err_defs]: "TheRemoteServerDoesNotExist = 462"
definition ImageIsInvalid :: VBSyntaxErrorCode where [err_defs]: "ImageIsInvalid = 481"
definition VariableNotDefined :: VBSyntaxErrorCode where [err_defs]: "VariableNotDefined = 500"
definition IllegalAssignment :: VBSyntaxErrorCode where [err_defs]: "IllegalAssignment = 501"
definition TheObjectIsNotSafeForScripting :: VBSyntaxErrorCode where [err_defs]: "TheObjectIsNotSafeForScripting = 502"
definition ObjectNotSafeForInitializing :: VBSyntaxErrorCode where [err_defs]: "ObjectNotSafeForInitializing = 503"
definition ObjectCanNotCreateASecureEnvironment :: VBSyntaxErrorCode where [err_defs]: "ObjectCanNotCreateASecureEnvironment = 504"
definition InvalidOrUnqualifiedReference :: VBSyntaxErrorCode where [err_defs]: "InvalidOrUnqualifiedReference = 505"
definition ClassTypeIsNotDefined :: VBSyntaxErrorCode where [err_defs]: "ClassTypeIsNotDefined = 506"
definition UnexpectedError :: VBSyntaxErrorCode where [err_defs]: "UnexpectedError = 507"
definition InsufficientMemory :: VBSyntaxErrorCode where [err_defs]: "InsufficientMemory = 1001"
definition SyntaxError :: VBSyntaxErrorCode where [err_defs]: "SyntaxError = 1002"
definition ExpectedColon :: VBSyntaxErrorCode where [err_defs]: "ExpectedColon = 1003"
definition ExpectedLParen :: VBSyntaxErrorCode where [err_defs]: "ExpectedLParen = 1005"
definition ExpectedRParen :: VBSyntaxErrorCode where [err_defs]: "ExpectedRParen = 1006"
definition ExpectedRBracket :: VBSyntaxErrorCode where [err_defs]: "ExpectedRBracket = 1007"
definition ExpectedIdentifier :: VBSyntaxErrorCode where [err_defs]: "ExpectedIdentifier = 1010"
definition ExpectedEqual :: VBSyntaxErrorCode where [err_defs]: "ExpectedEqual = 1011"
definition ExpectedIf :: VBSyntaxErrorCode where [err_defs]: "ExpectedIf = 1012"
definition ExpectedTo :: VBSyntaxErrorCode where [err_defs]: "ExpectedTo = 1013"
definition ExpectedEnd :: VBSyntaxErrorCode where [err_defs]: "ExpectedEnd = 1014"
definition ExpectedFunction :: VBSyntaxErrorCode where [err_defs]: "ExpectedFunction = 1015"
definition ExpectedSub :: VBSyntaxErrorCode where [err_defs]: "ExpectedSub = 1016"
definition ExpectedThen :: VBSyntaxErrorCode where [err_defs]: "ExpectedThen = 1017"
definition ExpectedWend :: VBSyntaxErrorCode where [err_defs]: "ExpectedWend = 1018"
definition ExpectedLoop :: VBSyntaxErrorCode where [err_defs]: "ExpectedLoop = 1019"
definition ExpectedNext :: VBSyntaxErrorCode where [err_defs]: "ExpectedNext = 1020"
definition ExpectedCase :: VBSyntaxErrorCode where [err_defs]: "ExpectedCase = 1021"
definition ExpectedSelect :: VBSyntaxErrorCode where [err_defs]: "ExpectedSelect = 1022"
definition ExpectedExpression :: VBSyntaxErrorCode where [err_defs]: "ExpectedExpression = 1023"
definition ExpectedStatement :: VBSyntaxErrorCode where [err_defs]: "ExpectedStatement = 1024"
definition ExpectedEndOfStatement :: VBSyntaxErrorCode where [err_defs]: "ExpectedEndOfStatement = 1025"
definition ExpectedInteger :: VBSyntaxErrorCode where [err_defs]: "ExpectedInteger = 1026"
definition ExpectedWhileOrUntil :: VBSyntaxErrorCode where [err_defs]: "ExpectedWhileOrUntil = 1027"
definition ExpectedWhileUntilOrEndOfStatement :: VBSyntaxErrorCode where [err_defs]: "ExpectedWhileUntilOrEndOfStatement = 1028"
definition ExpectedWith :: VBSyntaxErrorCode where [err_defs]: "ExpectedWith = 1029"
definition IdentifierTooLong :: VBSyntaxErrorCode where [err_defs]: "IdentifierTooLong = 1030"
definition InvalidNumber :: VBSyntaxErrorCode where [err_defs]: "InvalidNumber = 1031"
definition InvalidCharacter :: VBSyntaxErrorCode where [err_defs]: "InvalidCharacter = 1032"
definition UnterminatedStringConstant :: VBSyntaxErrorCode where [err_defs]: "UnterminatedStringConstant = 1033"
definition UnterminatedComment :: VBSyntaxErrorCode where [err_defs]: "UnterminatedComment = 1034"
definition InvalidUseOfMeKeyword :: VBSyntaxErrorCode where [err_defs]: "InvalidUseOfMeKeyword = 1037"
definition LoopWithoutDo :: VBSyntaxErrorCode where [err_defs]: "LoopWithoutDo = 1038"
definition InvalidExitStatement :: VBSyntaxErrorCode where [err_defs]: "InvalidExitStatement = 1039"
definition InvalidForLoopControlVariable :: VBSyntaxErrorCode where [err_defs]: "InvalidForLoopControlVariable = 1040"
definition NameRedefined :: VBSyntaxErrorCode where [err_defs]: "NameRedefined = 1041"
definition MustBeFirstStatementOnTheLine :: VBSyntaxErrorCode where [err_defs]: "MustBeFirstStatementOnTheLine = 1042"
definition CannotAssignToNonByValVariable :: VBSyntaxErrorCode where [err_defs]: "CannotAssignToNonByValVariable = 1043"
definition CannotUseParenthesesWhenCallingSub :: VBSyntaxErrorCode where [err_defs]: "CannotUseParenthesesWhenCallingSub = 1044"
definition ExpectedLiteral :: VBSyntaxErrorCode where [err_defs]: "ExpectedLiteral = 1045"
definition ExpectedIn :: VBSyntaxErrorCode where [err_defs]: "ExpectedIn = 1046"
definition ExpectedClass :: VBSyntaxErrorCode where [err_defs]: "ExpectedClass = 1047"
definition MustBeDefinedInsideClass :: VBSyntaxErrorCode where [err_defs]: "MustBeDefinedInsideClass = 1048"
definition ExpectedLetGetSet :: VBSyntaxErrorCode where [err_defs]: "ExpectedLetGetSet = 1049"
definition ExpectedProperty :: VBSyntaxErrorCode where [err_defs]: "ExpectedProperty = 1050"
definition InconsistentNumberOfArguments :: VBSyntaxErrorCode where [err_defs]: "InconsistentNumberOfArguments = 1051"
definition CannotHaveMultipleDefault :: VBSyntaxErrorCode where [err_defs]: "CannotHaveMultipleDefault = 1052"
definition ClassInitializeOrTerminateDoNotHaveArguments :: VBSyntaxErrorCode where [err_defs]: "ClassInitializeOrTerminateDoNotHaveArguments = 1053"
definition PropertySetOrLetMustHaveArguments :: VBSyntaxErrorCode where [err_defs]: "PropertySetOrLetMustHaveArguments = 1054"
definition UnexpectedNext :: VBSyntaxErrorCode where [err_defs]: "UnexpectedNext = 1055"
definition DefaultCanBeSpecifiedOnlyOnPropertyFunctionOrSub :: VBSyntaxErrorCode where [err_defs]: "DefaultCanBeSpecifiedOnlyOnPropertyFunctionOrSub = 1056"
definition DefaultMustAlsoSpecifyPublic :: VBSyntaxErrorCode where [err_defs]: "DefaultMustAlsoSpecifyPublic = 1057"
definition DefaultCanOnlyBeOnPropertyGet :: VBSyntaxErrorCode where [err_defs]: "DefaultCanOnlyBeOnPropertyGet = 1058"
definition ExpectedConstantExpression :: VBSyntaxErrorCode where [err_defs]: "ExpectedConstantExpression = 1059"
definition RequiresARegularExpressionObject :: VBSyntaxErrorCode where [err_defs]: "RequiresARegularExpressionObject = 5016"
definition RegularExpressionSyntaxError :: VBSyntaxErrorCode where [err_defs]: "RegularExpressionSyntaxError = 5017"
definition TheNumberOfWordsError :: VBSyntaxErrorCode where [err_defs]: "TheNumberOfWordsError = 5018"
definition RegularExpressionIsMissingClosingBracket :: VBSyntaxErrorCode where [err_defs]: "RegularExpressionIsMissingClosingBracket = 5019"
definition RegularExpressionIsMissingClosingParen :: VBSyntaxErrorCode where [err_defs]: "RegularExpressionIsMissingClosingParen = 5020"
definition CharacterSetCrossBorder :: VBSyntaxErrorCode where [err_defs]: "CharacterSetCrossBorder = 5021"
definition VBTrue :: VBSyntaxErrorCode where [err_defs]: "VBTrue = 32766"
definition VBFalse :: VBSyntaxErrorCode where [err_defs]: "VBFalse = 32767"
definition ElementWasNotFound :: VBSyntaxErrorCode where [err_defs]: "ElementWasNotFound = 32811"
definition SpecifiedDateNotAvailableInLocale :: VBSyntaxErrorCode where [err_defs]: "SpecifiedDateNotAvailableInLocale = 32812"

section \<open>Messages\<close>

definition error_messages_1 :: "(VBSyntaxErrorCode \<times> string) list" where
  "error_messages_1 = [
    (InvalidProcedureCallOrArgument, ''Invalid procedure call or argument''),
    (Overflow, ''Overflow''),
    (OutOfMemory, ''Out of memory''),
    (SubscriptOutOfRange, ''Subscript out of range''),
    (TheArrayIsOfFixedLengthOrTemporarilyLocked, ''The Array is of fixed length or temporarily locked''),
    (DivisionByZero, ''Division by zero''),
    (TypeMismatch, ''Type mismatch''),
    (OutOfStringSpace, ''Out of string space (overflow)''),
    (CannotPerformTheRequestedOperation, ''cannot perform the requested operation''),
    (StackOverflow, ''Stack overflow''),
    (UndefinedSubProcedureOrFunction, ''Undefined SUB procedure or Function''),
    (ErrorLoadingDLL, ''Error loading DLL''),
    (InternalError, ''Internal error''),
    (BadFileNameOrNumber, ''bad file name or number''),
    (FileNotFound, ''File not found''),
    (BadFileMode, ''Bad file mode''),
    (FileIsAlreadyOpen, ''File is already open''),
    (DeviceIOError, ''Device I/O error''),
    (FileAlreadyExists, ''File already exists''),
    (DiskSpaceIsFull, ''Disk space is full''),
    (InputBeyondTheEndOfTheFile, ''input beyond the end of the file''),
    (TooManyFiles, ''Too many files''),
    (DeviceNotAvailable, ''Device not available''),
    (PermissionDenied, ''Permission denied''),
    (DiskNotReady, ''Disk not ready''),
    (CannotRenameWithDifferentDrive, ''Cannot rename with different drive''),
    (PathFileAccessError, ''Path/ file access error''),
    (PathNotFound, ''Path not found''),
    (ObjectVariableNotSet, ''Object variable not set''),
    (ForLoopIsNotInitialized, ''For loop is not initialized''),
    (InvalidUseOfNull, ''Invalid use of Null''),
    (CouldNotCreateTheRequiredTemporaryFile, ''Could not create the required temporary file''),
    (CouldNotFindTargetObject, ''Could not find target object''),
    (ActiveXCannotCreateObject, ''AxonASP cannot create object''),
    (ClassDoesNotSupportAutomation, ''Class does not support Automation'')]"

definition error_messages_2 :: "(VBSyntaxErrorCode \<times> string) list" where
  "error_messages_2 = [
    (FileNameOrClassNameNotFound, ''File name or class name not found during Automation operation''),
    (ObjectDoesntSupportThisPropertyOrMethod, ''Object doesn'' @ [CHR 0xE2, CHR 0x80, CHR 0x99] @ ''t support this property or method''),
    (AutomationError, ''Automation error''),
    (ObjectDoesNotSupportThisAction, ''Object does not support this action''),
    (ObjectDoesNotSupportTheNamedArguments, ''Object does not support the named arguments''),
    (ObjectDoesNotSupportTheCurrentLocale, ''Object does not support the current locale''),
    (NamedArgumentNotFound, ''Named argument not found''),
    (ParametersAreNotOptional, ''parameters are not optional''),
    (WrongNumberOfParameters, ''Wrong number of parameters or invalid property assignment''),
    (IsNotACollectionOfObjects, ''is not a collection of objects''),
    (TheSpecifiedDLLFunctionWasNotFound, ''The specified DLL function was not found''),
    (CodeResourceLockError, ''Code resource lock error''),
    (ThisKeyAlreadyAssociatedWithAnElement, ''This key already associated with an element of this collection''),
    (VariableUsesAnAutomationTypeNotSupported, ''Variable uses an Automation type not supported in VBScript''),
    (TheRemoteServerDoesNotExist, ''The remote server does not exist or is not available''),
    (ImageIsInvalid, ''Image is invalid.''),
    (VariableNotDefined, ''variable not defined''),
    (IllegalAssignment, ''illegal assignment''),
    (TheObjectIsNotSafeForScripting, ''The object is not safe for scripting''),
    (ObjectNotSafeForInitializing, ''Object not safe for initializing''),
    (ObjectCanNotCreateASecureEnvironment, ''Object can not create a secure environment''),
    (InvalidOrUnqualifiedReference, ''invalid or unqualified reference''),
    (ClassTypeIsNotDefined, ''Class/Type is not defined''),
    (UnexpectedError, ''Unexpected error''),
    (InsufficientMemory, ''Insufficient memory''),
    (SyntaxError, ''syntax error''),
    (ExpectedColon, ''Missing '' @ [CHR 0x27] @ '':'' @ [CHR 0x27]),
    (ExpectedLParen, ''Missing '' @ [CHR 0x27] @ ''('' @ [CHR 0x27]),
    (ExpectedRParen, ''Missing '' @ [CHR 0x27] @ '')'' @ [CHR 0x27]),
    (ExpectedRBracket, ''Missing '' @ [CHR 0x27] @ '']'' @ [CHR 0x27]),
    (ExpectedIdentifier, ''Missing Identifier''),
    (ExpectedEqual, ''Missing =''),
    (ExpectedIf, ''Missing '' @ [CHR 0x27] @ ''If'' @ [CHR 0x27]),
    (ExpectedTo, ''Missing '' @ [CHR 0x27] @ ''To'' @ [CHR 0x27]),
    (ExpectedEnd, ''Missing '' @ [CHR 0x27] @ ''End'' @ [CHR 0x27])]"

definition error_messages_3 :: "(VBSyntaxErrorCode \<times> string) list" where
  "error_messages_3 = [
    (ExpectedFunction, ''Missing '' @ [CHR 0x27] @ ''Function'' @ [CHR 0x27]),
    (ExpectedSub, ''Missing '' @ [CHR 0x27] @ ''Sub'' @ [CHR 0x27]),
    (ExpectedThen, ''Missing '' @ [CHR 0x27] @ ''Then'' @ [CHR 0x27]),
    (ExpectedWend, ''Missing '' @ [CHR 0x27] @ ''Wend'' @ [CHR 0x27]),
    (ExpectedLoop, ''Missing '' @ [CHR 0x27] @ ''Loop'' @ [CHR 0x27]),
    (ExpectedNext, ''Missing '' @ [CHR 0x27] @ ''Next'' @ [CHR 0x27]),
    (ExpectedCase, ''Missing '' @ [CHR 0x27] @ ''Case'' @ [CHR 0x27]),
    (ExpectedSelect, ''Missing '' @ [CHR 0x27] @ ''Select'' @ [CHR 0x27]),
    (ExpectedExpression, ''Missing expression''),
    (ExpectedStatement, ''Missing statement''),
    (ExpectedEndOfStatement, ''Missing end of statement''),
    (ExpectedInteger, ''Requires an integer constant''),
    (ExpectedWhileOrUntil, ''Missing '' @ [CHR 0x27] @ ''While'' @ [CHR 0x27] @ '' or '' @ [CHR 0x27] @ ''Until'' @ [CHR 0x27]),
    (ExpectedWhileUntilOrEndOfStatement, ''Missing '' @ [CHR 0x27] @ ''While, '' @ [CHR 0x27] @ ''Until,'' @ [CHR 0x27] @ '' or End of statement''),
    (ExpectedWith, ''Too many locals or arguments''),
    (IdentifierTooLong, ''Identifier Too long''),
    (InvalidNumber, ''The number of is invalid''),
    (InvalidCharacter, ''Invalid character''),
    (UnterminatedStringConstant, ''Unterminated string constant''),
    (UnterminatedComment, ''Unterminated comment''),
    (InvalidUseOfMeKeyword, ''Invalid use of '' @ [CHR 0x27] @ ''Me'' @ [CHR 0x27] @ '' Keyword''),
    (LoopWithoutDo, [CHR 0x27] @ ''loop'' @ [CHR 0x27] @ '' statement is missing '' @ [CHR 0x27] @ ''do'' @ [CHR 0x27]),
    (InvalidExitStatement, ''invalid '' @ [CHR 0x27] @ ''exit'' @ [CHR 0x27] @ '' statement''),
    (InvalidForLoopControlVariable, ''invalid '' @ [CHR 0x27] @ ''for'' @ [CHR 0x27] @ '' loop control variable''),
    (NameRedefined, ''Name redefined''),
    (MustBeFirstStatementOnTheLine, ''Must be the first statement line''),
    (CannotAssignToNonByValVariable, ''Cannot be assigned to non - Byval argument''),
    (CannotUseParenthesesWhenCallingSub, ''Cannot use parentheses when calling Sub''),
    (ExpectedLiteral, ''Requires a literal constant''),
    (ExpectedIn, ''Missing '' @ [CHR 0x27] @ ''In'' @ [CHR 0x27]),
    (ExpectedClass, ''Missing '' @ [CHR 0x27] @ ''Class'' @ [CHR 0x27]),
    (MustBeDefinedInsideClass, ''Must be inside a class definition''),
    (ExpectedLetGetSet, ''Missing Let, Set or Get in the property declaration''),
    (ExpectedProperty, ''Missing '' @ [CHR 0x27] @ ''Property'' @ [CHR 0x27]),
    (ExpectedConstantExpression, ''Expected constant expression'')]"

definition error_messages_4 :: "(VBSyntaxErrorCode \<times> string) list" where
  "error_messages_4 = [
    (InconsistentNumberOfArguments, ''The Number of parameters must be consistent with the attribute description''),
    (CannotHaveMultipleDefault, ''cannot have more than one default attribute / method in a class''),
    (ClassInitializeOrTerminateDoNotHaveArguments, ''Class did not initialize or terminate the process parameters''),
    (PropertySetOrLetMustHaveArguments, ''Property Let or Set should have at least one parameter''),
    (UnexpectedNext, ''Error at '' @ [CHR 0x27] @ ''Next'' @ [CHR 0x27]),
    (DefaultCanBeSpecifiedOnlyOnPropertyFunctionOrSub, [CHR 0x27] @ ''Default'' @ [CHR 0x27] @ '' can only be in the '' @ [CHR 0x27] @ ''Property'' @ [CHR 0x27] @ '', '' @ [CHR 0x27] @ ''Function'' @ [CHR 0x27] @ '' or '' @ [CHR 0x27] @ ''Sub'' @ [CHR 0x27]),
    (DefaultMustAlsoSpecifyPublic, [CHR 0x27] @ ''Default'' @ [CHR 0x27] @ '' must be '' @ [CHR 0x27] @ ''Public'' @ [CHR 0x27]),
    (DefaultCanOnlyBeOnPropertyGet, ''Can only specify the Property Get in the '' @ [CHR 0x27] @ ''Default'' @ [CHR 0x27]),
    (RequiresARegularExpressionObject, ''Requires a regular expression object''),
    (RegularExpressionSyntaxError, ''Regular expression syntax error''),
    (TheNumberOfWordsError, ''The number of words error''),
    (RegularExpressionIsMissingClosingBracket, ''Regular expressions is missing '' @ [CHR 0x27] @ '']'' @ [CHR 0x27]),
    (RegularExpressionIsMissingClosingParen, ''Regular expressions is missing '' @ [CHR 0x27] @ '')'' @ [CHR 0x27]),
    (CharacterSetCrossBorder, ''Character set Cross-border''),
    (VBTrue, ''True''),
    (VBFalse, ''False''),
    (ElementWasNotFound, ''Element was not found''),
    (SpecifiedDateNotAvailableInLocale, ''The specified date is not available in the current locale'' @ [CHR 0xE2, CHR 0x80, CHR 0x99] @ ''s calendar'')]"

definition VBScriptErrorMessages :: "(VBSyntaxErrorCode \<times> string) list" where
  "VBScriptErrorMessages = error_messages_1 @ error_messages_2 @ error_messages_3 @ error_messages_4"

definition error_String :: "VBSyntaxErrorCode \<Rightarrow> string" where
  "error_String e = (case map_of VBScriptErrorMessages e of
      Some msg \<Rightarrow> msg | None \<Rightarrow> ''Unknown VBScript Error'')"

lemmas error_message_defs = VBScriptErrorMessages_def error_messages_1_def error_messages_2_def error_messages_3_def error_messages_4_def

definition error_codes :: "VBSyntaxErrorCode list" where
  "error_codes = [
    InvalidProcedureCallOrArgument, Overflow, OutOfMemory,
    SubscriptOutOfRange, TheArrayIsOfFixedLengthOrTemporarilyLocked, DivisionByZero,
    TypeMismatch, OutOfStringSpace, CannotPerformTheRequestedOperation,
    StackOverflow, UndefinedSubProcedureOrFunction, ErrorLoadingDLL,
    InternalError, BadFileNameOrNumber, FileNotFound,
    BadFileMode, FileIsAlreadyOpen, DeviceIOError,
    FileAlreadyExists, DiskSpaceIsFull, InputBeyondTheEndOfTheFile,
    TooManyFiles, DeviceNotAvailable, PermissionDenied,
    DiskNotReady, CannotRenameWithDifferentDrive, PathFileAccessError,
    PathNotFound, ObjectVariableNotSet, ForLoopIsNotInitialized,
    InvalidUseOfNull, CouldNotCreateTheRequiredTemporaryFile, CouldNotFindTargetObject,
    ActiveXCannotCreateObject, ClassDoesNotSupportAutomation, FileNameOrClassNameNotFound,
    ObjectDoesntSupportThisPropertyOrMethod, AutomationError, ObjectDoesNotSupportThisAction,
    ObjectDoesNotSupportTheNamedArguments, ObjectDoesNotSupportTheCurrentLocale, NamedArgumentNotFound,
    ParametersAreNotOptional, WrongNumberOfParameters, IsNotACollectionOfObjects,
    TheSpecifiedDLLFunctionWasNotFound, CodeResourceLockError, ThisKeyAlreadyAssociatedWithAnElement,
    VariableUsesAnAutomationTypeNotSupported, TheRemoteServerDoesNotExist, ImageIsInvalid,
    VariableNotDefined, IllegalAssignment, TheObjectIsNotSafeForScripting,
    ObjectNotSafeForInitializing, ObjectCanNotCreateASecureEnvironment, InvalidOrUnqualifiedReference,
    ClassTypeIsNotDefined, UnexpectedError, InsufficientMemory,
    SyntaxError, ExpectedColon, ExpectedLParen,
    ExpectedRParen, ExpectedRBracket, ExpectedIdentifier,
    ExpectedEqual, ExpectedIf, ExpectedTo,
    ExpectedEnd, ExpectedFunction, ExpectedSub,
    ExpectedThen, ExpectedWend, ExpectedLoop,
    ExpectedNext, ExpectedCase, ExpectedSelect,
    ExpectedExpression, ExpectedStatement, ExpectedEndOfStatement,
    ExpectedInteger, ExpectedWhileOrUntil, ExpectedWhileUntilOrEndOfStatement,
    ExpectedWith, IdentifierTooLong, InvalidNumber,
    InvalidCharacter, UnterminatedStringConstant, UnterminatedComment,
    InvalidUseOfMeKeyword, LoopWithoutDo, InvalidExitStatement,
    InvalidForLoopControlVariable, NameRedefined, MustBeFirstStatementOnTheLine,
    CannotAssignToNonByValVariable, CannotUseParenthesesWhenCallingSub, ExpectedLiteral,
    ExpectedIn, ExpectedClass, MustBeDefinedInsideClass,
    ExpectedLetGetSet, ExpectedProperty, InconsistentNumberOfArguments,
    CannotHaveMultipleDefault, ClassInitializeOrTerminateDoNotHaveArguments, PropertySetOrLetMustHaveArguments,
    UnexpectedNext, DefaultCanBeSpecifiedOnlyOnPropertyFunctionOrSub, DefaultMustAlsoSpecifyPublic,
    DefaultCanOnlyBeOnPropertyGet, ExpectedConstantExpression, RequiresARegularExpressionObject,
    RegularExpressionSyntaxError, TheNumberOfWordsError, RegularExpressionIsMissingClosingBracket,
    RegularExpressionIsMissingClosingParen, CharacterSetCrossBorder, VBTrue,
    VBFalse, ElementWasNotFound, SpecifiedDateNotAvailableInLocale]"

section \<open>HRESULT\<close>

definition hresult_u32 :: "VBSyntaxErrorCode \<Rightarrow> 32 word" where
  "hresult_u32 e = (0x800A0000 OR ucast (word_of_int e :: 16 word))"

definition HRESULTFromVBScriptCode :: "VBSyntaxErrorCode \<Rightarrow> int" where
  "HRESULTFromVBScriptCode e = sint (hresult_u32 e)"

text \<open>\<open>fmt\<close>'s \<open>%08X\<close> of a \<open>uint32\<close>.\<close>

definition hex_upper :: "nat \<Rightarrow> char" where
  "hex_upper d = ''0123456789ABCDEF'' ! (d mod 16)"

fun hex_digits :: "nat \<Rightarrow> nat \<Rightarrow> string" where
  "hex_digits 0 n = []"
| "hex_digits (Suc k) n = hex_digits k (n div 16) @ [hex_upper (n mod 16)]"

definition HRESULTHexFromVBScriptCode :: "VBSyntaxErrorCode \<Rightarrow> string" where
  "HRESULTHexFromVBScriptCode e = hex_digits 8 (unat (hresult_u32 e))"

lemma hresult_u32_value:
  assumes "0 \<le> e" "e < 65536"
  shows "unat (hresult_u32 e) = 0x800A0000 + nat e"
proof -
  define w where "w = (ucast (word_of_int e :: 16 word) :: 32 word)"
  have uw: "uint w = e"
    using assms by (simp add: w_def uint_word_of_int take_bit_eq_mod unsigned_ucast_eq)
  have "(0x800A0000 :: 32 word) AND w = 0"
  proof -
    have "w = take_bit 16 w"
      by (rule bit_word_eqI) (auto simp: w_def bit_simps)
    moreover have "(0x800A0000 :: 32 word) AND take_bit 16 w = 0"
    proof -
      have "take_bit 16 (0x800A0000 :: 32 word) = 0" by (simp add: take_bit_eq_mod)
      then show ?thesis by (metis and.commute take_bit_and zero_and_eq take_bit_eq_mask and.assoc)
    qed
    ultimately show ?thesis by simp
  qed
  then have s: "hresult_u32 e = 0x800A0000 + w"
    by (simp add: hresult_u32_def w_def disjunctive_add_eq_or)
  have u: "unat w = nat e" using uw unfolding nat_uint_eq[symmetric] by simp
  show ?thesis
    unfolding s using assms u by (subst unat_plus_if') simp
qed

lemma hex_digits_div: "hex_digits (a + b) n = hex_digits a (n div 16 ^ b) @ hex_digits b n"
  by (induction b arbitrary: n) (simp_all add: div_mult2_eq)

lemma hex_digits_mod: "n mod 16 ^ b = m mod 16 ^ b \<Longrightarrow> hex_digits b n = hex_digits b m"
proof (induction b arbitrary: n m)
  case 0
  then show ?case by simp
next
  case (Suc b)
  have d: "x mod 16 ^ Suc b div 16 = x div 16 mod 16 ^ b" "x mod 16 ^ Suc b mod 16 = x mod 16" for x :: nat
    using mod_mult2_eq[of x 16 "16 ^ b"] by simp_all
  have "n div 16 mod 16 ^ b = m div 16 mod 16 ^ b" "n mod 16 = m mod 16"
    using Suc.prems d by metis+
  then show ?case using Suc.IH[of "n div 16" "m div 16"] by simp
qed

lemma hex_digits_4:
  "hex_digits 4 n = [hex_upper (n div 4096 mod 16), hex_upper (n div 256 mod 16),
                     hex_upper (n div 16 mod 16), hex_upper (n mod 16)]"
proof -
  have "hex_digits (Suc (Suc (Suc (Suc 0)))) n
      = [hex_upper (n div 4096 mod 16), hex_upper (n div 256 mod 16),
         hex_upper (n div 16 mod 16), hex_upper (n mod 16)]"
    by (simp flip: div_mult2_eq)
  then show ?thesis by (simp only: numeral_eq_Suc pred_numeral_simps BitM.simps)
qed

text \<open>
  For every 16-bit error code the HRESULT the engine reports is \<open>0x800A0000 + code\<close> read as a
  negative 32-bit number, and its printed form is \<open>800A\<close> followed by the code's four hex digits.
\<close>

theorem HRESULT_of_code:
  assumes "0 \<le> e" "e < 65536"
  shows "HRESULTFromVBScriptCode e = e - 2146828288
       \<and> HRESULTHexFromVBScriptCode e = ''800A'' @ hex_digits 4 (nat e)"
proof
  have u: "unat (hresult_u32 e) = 2148139008 + nat e" using hresult_u32_value[OF assms] by simp
  have "uint (hresult_u32 e) = 2148139008 + e" using u assms by (simp add: uint_nat)
  moreover have "(4295622656 + e) mod 4294967296 = 655360 + e"
    using assms mod_add_self2[of "655360 + e" 4294967296] by (simp add: add.commute)
  ultimately have "signed_take_bit 31 (uint (hresult_u32 e)) = e - 2146828288"
    using assms by (simp add: signed_take_bit_eq_take_bit_shift take_bit_eq_mod)
  then show "HRESULTFromVBScriptCode e = e - 2146828288"
    by (simp add: HRESULTFromVBScriptCode_def sint_uint)
  have l: "hex_digits 4 (2148139008 + nat e) = hex_digits 4 (nat e)"
    by (rule hex_digits_mod) (use mod_mult_self3[of 32778 65536 "nat e"] in simp)
  have "(2148139008 + nat e) div 65536 = 32778" using assms by simp
  then have h: "hex_digits 4 ((2148139008 + nat e) div 16 ^ 4) = ''800A''"
    by (simp add: hex_digits_4 hex_upper_def)
  show "HRESULTHexFromVBScriptCode e = ''800A'' @ hex_digits 4 (nat e)"
    unfolding HRESULTHexFromVBScriptCode_def u using hex_digits_div[of 4 4 "2148139008 + nat e"] h l by simp
qed

theorem HRESULT_of_code_witness:
  "HRESULTFromVBScriptCode TypeMismatch = -2146828275 \<and> HRESULTHexFromVBScriptCode TypeMismatch = ''800A000D''"
  using HRESULT_of_code[of TypeMismatch] by (simp add: TypeMismatch_def hex_digits_4 hex_upper_def)

section \<open>The catalogue is complete\<close>

lemma message_keys:
  "map fst VBScriptErrorMessages
   = take 104 error_codes @ ExpectedConstantExpression # take 8 (drop 104 error_codes) @ drop 113 error_codes"
  "error_codes = take 112 error_codes @ ExpectedConstantExpression # drop 113 error_codes"
  by (simp_all add: error_message_defs error_codes_def)

text \<open>
  The error catalogue is complete: every error code of the enumeration has its own message, so
  no error the engine raises is reported as unknown.
\<close>

theorem every_code_has_message:
  assumes "e \<in> set error_codes"
  shows "error_String e \<noteq> ''Unknown VBScript Error''"
proof -
  have "set (take 112 error_codes) = set (take 104 error_codes) \<union> set (take 8 (drop 104 error_codes))"
    using take_add[of 104 8 error_codes] by simp
  then have "set (map fst VBScriptErrorMessages) = set error_codes"
    using message_keys by (metis set_append list.simps(15) Un_insert_right sup_assoc)
  then obtain m where m: "map_of VBScriptErrorMessages e = Some m"
    using assms by (metis map_of_eq_None_iff not_None_eq set_map)
  have "list_all (\<lambda>p. snd p \<noteq> ''Unknown VBScript Error'') VBScriptErrorMessages"
    by (simp add: error_message_defs)
  with m show ?thesis
    by (auto simp: error_String_def list_all_iff dest!: map_of_SomeD)
qed

theorem every_code_has_message_witness: "error_String TypeMismatch \<noteq> ''Unknown VBScript Error''"
proof -
  have "TypeMismatch \<in> set error_codes" by (simp add: error_codes_def)
  then show ?thesis by (rule every_code_has_message)
qed

end
