(* ===== verification/GoFloat.thy ===== *)
theory GoFloat
  imports Prelude
begin

text \<open>
  Go's \<open>float64\<close>: IEEE 754 binary64 with round-to-nearest, ties-to-even, as an executable
  datatype. A finite number is a sign, a mantissa and an exponent, worth \<open>(-1)^s * m * 2^e\<close>;
  the operations compute the exact rational result and round it once with \<open>f_round\<close>.
  NaN payloads are not represented (the modelled code cannot observe them). The conversion to
  \<open>int64\<close> is amd64's: a value out of range gives the smallest \<open>int64\<close>.
\<close>

datatype f64 = FNaN | FInf bool | FFin bool nat int

fun bit_length :: "nat \<Rightarrow> nat" where
  "bit_length n = (if n = 0 then 0 else Suc (bit_length (n div 2)))"

declare bit_length.simps [simp del]

definition flog2 :: "nat \<Rightarrow> nat \<Rightarrow> int" where
  "flog2 n d =
     (let l = int (bit_length n) - int (bit_length d)
      in if (if 0 \<le> l then d * 2 ^ nat l \<le> n else d \<le> n * 2 ^ nat (- l)) then l else l - 1)"

definition half_even :: "nat \<Rightarrow> nat \<Rightarrow> nat" where
  "half_even p q =
     (let m = p div q; r = p mod q
      in if q < 2 * r \<or> (2 * r = q \<and> odd m) then m + 1 else m)"

definition f_pack :: "bool \<Rightarrow> nat \<Rightarrow> int \<Rightarrow> f64" where
  "f_pack s m e =
     (let (m', e') = (if m = 2 ^ 53 then (2 ^ 52, e + 1) else (m, e))
      in if 971 < e' then FInf s else FFin s m' e')"

text \<open>The double nearest to the rational \<open>n / d\<close> with sign \<open>s\<close>.\<close>

definition f_round :: "bool \<Rightarrow> nat \<Rightarrow> nat \<Rightarrow> f64" where
  "f_round s n d =
     (if n = 0 then FFin s 0 (-1074)
      else let e = max (-1074) (flog2 n d - 52)
           in f_pack s (if 0 \<le> e then half_even n (d * 2 ^ nat e)
                        else half_even (n * 2 ^ nat (- e)) d) e)"

definition f_dyadic :: "bool \<Rightarrow> nat \<Rightarrow> int \<Rightarrow> f64" where
  "f_dyadic s m e = (if 0 \<le> e then f_round s (m * 2 ^ nat e) 1 else f_round s m (2 ^ nat (- e)))"

definition f_zero :: f64 where
  "f_zero = FFin False 0 (-1074)"

definition f_of_int :: "int \<Rightarrow> f64" where
  "f_of_int n = f_round (n < 0) (nat \<bar>n\<bar>) 1"

definition f_of_i64 :: "i64 \<Rightarrow> f64" where
  "f_of_i64 n = f_of_int (sint n)"

definition f_of_u64 :: "u64 \<Rightarrow> f64" where
  "f_of_u64 n = f_of_int (uint n)"

fun f_neg :: "f64 \<Rightarrow> f64" where
  "f_neg FNaN = FNaN"
| "f_neg (FInf s) = FInf (\<not> s)"
| "f_neg (FFin s m e) = FFin (\<not> s) m e"

fun f_abs :: "f64 \<Rightarrow> f64" where
  "f_abs FNaN = FNaN"
| "f_abs (FInf s) = FInf False"
| "f_abs (FFin s m e) = FFin False m e"

definition signed :: "bool \<Rightarrow> nat \<Rightarrow> int" where
  "signed s m = (if s then - int m else int m)"

text \<open>Two finite numbers on the common exponent of the smaller one.\<close>

definition aligned :: "bool \<Rightarrow> nat \<Rightarrow> int \<Rightarrow> int \<Rightarrow> int" where
  "aligned s m e e0 = signed s (m * 2 ^ nat (e - e0))"

fun f_add :: "f64 \<Rightarrow> f64 \<Rightarrow> f64" where
  "f_add FNaN _ = FNaN"
| "f_add _ FNaN = FNaN"
| "f_add (FInf s) (FInf t) = (if s = t then FInf s else FNaN)"
| "f_add (FInf s) (FFin _ _ _) = FInf s"
| "f_add (FFin _ _ _) (FInf t) = FInf t"
| "f_add (FFin s m e) (FFin t n f) =
     (let e0 = min e f; z = aligned s m e e0 + aligned t n f e0
      in if z = 0 then FFin (s \<and> t) 0 (-1074) else f_dyadic (z < 0) (nat \<bar>z\<bar>) e0)"

definition f_sub :: "f64 \<Rightarrow> f64 \<Rightarrow> f64" where
  "f_sub x y = f_add x (f_neg y)"

fun f_mul :: "f64 \<Rightarrow> f64 \<Rightarrow> f64" where
  "f_mul FNaN _ = FNaN"
| "f_mul _ FNaN = FNaN"
| "f_mul (FInf s) (FInf t) = FInf (s \<noteq> t)"
| "f_mul (FInf s) (FFin t n _) = (if n = 0 then FNaN else FInf (s \<noteq> t))"
| "f_mul (FFin s m _) (FInf t) = (if m = 0 then FNaN else FInf (s \<noteq> t))"
| "f_mul (FFin s m e) (FFin t n f) = f_dyadic (s \<noteq> t) (m * n) (e + f)"

fun f_div :: "f64 \<Rightarrow> f64 \<Rightarrow> f64" where
  "f_div FNaN _ = FNaN"
| "f_div _ FNaN = FNaN"
| "f_div (FInf s) (FInf t) = FNaN"
| "f_div (FInf s) (FFin t _ _) = FInf (s \<noteq> t)"
| "f_div (FFin s _ _) (FInf t) = FFin (s \<noteq> t) 0 (-1074)"
| "f_div (FFin s m e) (FFin t n f) =
     (if n = 0 then (if m = 0 then FNaN else FInf (s \<noteq> t))
      else if f \<le> e then f_round (s \<noteq> t) (m * 2 ^ nat (e - f)) n
      else f_round (s \<noteq> t) m (n * 2 ^ nat (f - e)))"

text \<open>Go's \<open>==\<close>, \<open><\<close> and \<open><=\<close>: every comparison with NaN is false.\<close>

fun f_cmp :: "f64 \<Rightarrow> f64 \<Rightarrow> int option" where
  "f_cmp FNaN _ = None"
| "f_cmp _ FNaN = None"
| "f_cmp (FInf s) (FInf t) = Some (if s = t then 0 else if s then -1 else 1)"
| "f_cmp (FInf s) (FFin _ _ _) = Some (if s then -1 else 1)"
| "f_cmp (FFin _ _ _) (FInf t) = Some (if t then 1 else -1)"
| "f_cmp (FFin s m e) (FFin t n f) =
     (let e0 = min e f in Some (sgn (aligned s m e e0 - aligned t n f e0)))"

definition f_eq :: "f64 \<Rightarrow> f64 \<Rightarrow> bool" where
  "f_eq x y \<longleftrightarrow> f_cmp x y = Some 0"

definition f_lt :: "f64 \<Rightarrow> f64 \<Rightarrow> bool" where
  "f_lt x y \<longleftrightarrow> f_cmp x y = Some (-1)"

definition f_le :: "f64 \<Rightarrow> f64 \<Rightarrow> bool" where
  "f_le x y \<longleftrightarrow> f_lt x y \<or> f_eq x y"

definition f_is_nan :: "f64 \<Rightarrow> bool" where
  "f_is_nan x \<longleftrightarrow> x = FNaN"

fun f_is_inf :: "f64 \<Rightarrow> bool" where
  "f_is_inf (FInf _) = True"
| "f_is_inf _ = False"

text \<open>Truncation, \<open>math.Floor\<close>, \<open>math.RoundToEven\<close> and the conversion \<open>int64(x)\<close>.\<close>

definition f_trunc :: "bool \<Rightarrow> nat \<Rightarrow> int \<Rightarrow> int" where
  "f_trunc s m e = signed s (if 0 \<le> e then m * 2 ^ nat e else m div 2 ^ nat (- e))"

fun f_to_i64 :: "f64 \<Rightarrow> i64" where
  "f_to_i64 (FFin s m e) =
     (let t = f_trunc s m e
      in if - (2 ^ 63) \<le> t \<and> t < 2 ^ 63 then word_of_int t else word_of_int (- (2 ^ 63)))"
| "f_to_i64 _ = word_of_int (- (2 ^ 63))"

fun f_floor :: "f64 \<Rightarrow> f64" where
  "f_floor (FFin s m e) =
     (if 0 \<le> e then FFin s m e
      else let d = 2 ^ nat (- e)
           in f_round s (if s \<and> m mod d \<noteq> 0 then m div d + 1 else m div d) 1)"
| "f_floor x = x"

fun f_round_even :: "f64 \<Rightarrow> f64" where
  "f_round_even (FFin s m e) =
     (if 0 \<le> e then FFin s m e else f_round s (half_even m (2 ^ nat (- e))) 1)"
| "f_round_even x = x"

section \<open>Lemmas: integers up to 2^53 are exact\<close>

lemma bit_length_0 [simp]: "bit_length 0 = 0"
  by (simp add: bit_length.simps)

lemma bit_length_bounds: "0 < n \<Longrightarrow> 2 ^ (bit_length n - 1) \<le> n \<and> n < 2 ^ bit_length n \<and> 0 < bit_length n"
proof (induction n rule: bit_length.induct)
  case (1 n)
  show ?case
  proof (cases "n = 1")
    case True
    then show ?thesis by (simp add: bit_length.simps)
  next
    case False
    with "1.prems" have n2: "0 < n div 2" by simp
    with "1" have ih: "2 ^ (bit_length (n div 2) - 1) \<le> n div 2 \<and> n div 2 < 2 ^ bit_length (n div 2)
        \<and> 0 < bit_length (n div 2)" by simp
    have b: "bit_length n = Suc (bit_length (n div 2))"
      using "1.prems" by (simp add: bit_length.simps[of n])
    obtain k where k: "bit_length (n div 2) = Suc k" using ih gr0_conv_Suc by auto
    show ?thesis using ih b k by auto
  qed
qed

lemma bit_length_unique: "2 ^ k \<le> n \<Longrightarrow> n < 2 ^ Suc k \<Longrightarrow> bit_length n = Suc k"
proof -
  assume lo: "2 ^ k \<le> n" and hi: "n < 2 ^ Suc k"
  have n0: "0 < n" using lo by (metis le_zero_eq neq0_conv power_eq_0_iff zero_neq_numeral)
  obtain j where j: "bit_length n = Suc j" using bit_length_bounds[OF n0] gr0_conv_Suc by auto
  have "2 ^ j \<le> n" "n < 2 ^ Suc j" using bit_length_bounds[OF n0] j by auto
  then have "(2::nat) ^ k < 2 ^ Suc j" "(2::nat) ^ j < 2 ^ Suc k" using lo hi by linarith+
  then have "k < Suc j" "j < Suc k" by (simp_all only: power_strict_increasing_iff one_less_numeral_iff semiring_norm(76))
  then show ?thesis using j by simp
qed

lemma bit_length_shift: "0 < n \<Longrightarrow> bit_length (n * 2 ^ k) = bit_length n + k"
proof -
  assume n0: "0 < n"
  obtain j where j: "bit_length n = Suc j" using bit_length_bounds[OF n0] gr0_conv_Suc by auto
  have "2 ^ j \<le> n" "n < 2 ^ Suc j" using bit_length_bounds[OF n0] j by auto
  then have "2 ^ (j + k) \<le> n * 2 ^ k" "n * 2 ^ k < 2 ^ Suc (j + k)"
    by (simp_all add: power_add)
  from bit_length_unique[OF this] show ?thesis using j by simp
qed

lemma flog2_scale:
  assumes "0 < n" "0 < d"
  shows "flog2 (n * 2 ^ k) (d * 2 ^ k) = flog2 n d"
proof -
  have b: "bit_length (n * 2 ^ k) = bit_length n + k" "bit_length (d * 2 ^ k) = bit_length d + k"
    using assms by (simp_all add: bit_length_shift)
  have c1: "(d * 2 ^ k) * 2 ^ j \<le> n * 2 ^ k \<longleftrightarrow> d * 2 ^ j \<le> n" for j
    by (metis (no_types, lifting) mult.commute mult.left_commute mult_le_cancel2 zero_less_numeral zero_less_power)
  have c2: "d * 2 ^ k \<le> (n * 2 ^ k) * 2 ^ j \<longleftrightarrow> d \<le> n * 2 ^ j" for j
    by (metis (no_types, lifting) mult.commute mult.left_commute mult_le_cancel2 zero_less_numeral zero_less_power)
  show ?thesis
    unfolding flog2_def b c1 c2 by simp
qed

lemma half_even_scale:
  assumes "0 < c"
  shows "half_even (p * c) (q * c) = half_even p q"
proof -
  have r: "(p * c) mod (q * c) = (p mod q) * c"
    by (simp add: mult_mod_left)
  have "q * c < 2 * (p mod q * c) \<longleftrightarrow> q < 2 * (p mod q)" "2 * (p mod q * c) = q * c \<longleftrightarrow> 2 * (p mod q) = q"
    using assms by (metis mult.assoc mult_less_cancel2) (metis assms mult.assoc mult_right_cancel neq0_conv)
  then show ?thesis
    using assms by (simp add: half_even_def Let_def r)
qed

lemma half_even_exact: "0 < q \<Longrightarrow> half_even (m * q) q = m"
  by (simp add: half_even_def Let_def)

lemma f_round_scale: "0 < d \<Longrightarrow> f_round s (n * 2 ^ k) (d * 2 ^ k) = f_round s n d"
proof (cases "n = 0")
  case False
  assume d: "0 < d"
  have a: "d * 2 ^ k * 2 ^ j = (d * 2 ^ j) * 2 ^ k" "n * 2 ^ k * 2 ^ j = (n * 2 ^ j) * 2 ^ k" for j
    by (simp_all add: ac_simps)
  define e where "e = max (-1074) (flog2 n d - 52)"
  have e': "max (-1074) (flog2 (n * 2 ^ k) (d * 2 ^ k) - 52) = e"
    using False d by (simp add: flog2_scale e_def)
  have h: "half_even (n * 2 ^ k) (d * 2 ^ k * 2 ^ j) = half_even n (d * 2 ^ j)"
    "half_even (n * 2 ^ k * 2 ^ j) (d * 2 ^ k) = half_even (n * 2 ^ j) d" for j
    using half_even_scale[of "2 ^ k" n "d * 2 ^ j"] half_even_scale[of "2 ^ k" "n * 2 ^ j" d]
    by (simp_all add: a)
  show ?thesis
    using False unfolding f_round_def e' h e_def[symmetric] by (simp add: Let_def)
qed (simp add: f_round_def)

text \<open>\<open>dyad m e n\<close>: the mantissa and exponent denote the integer \<open>n\<close> exactly.\<close>

definition dyad :: "nat \<Rightarrow> int \<Rightarrow> nat \<Rightarrow> bool" where
  "dyad m e n \<longleftrightarrow> (if 0 \<le> e then n = m * 2 ^ nat e else m = n * 2 ^ nat (- e))"

lemma f_dyadic_dyad: "dyad m e n \<Longrightarrow> f_dyadic s m e = f_round s n 1"
  using f_round_scale[of 1 s n "nat (- e)"] by (auto simp: dyad_def f_dyadic_def split: if_splits)

lemma flog2_one: "0 < n \<Longrightarrow> flog2 n 1 = int (bit_length n - 1)"
proof -
  assume n: "0 < n"
  have "bit_length (1::nat) = 1" using bit_length_unique[of 0 1] by simp
  moreover obtain j where "bit_length n = Suc j" using bit_length_bounds[OF n] gr0_conv_Suc by auto
  moreover have "2 ^ (bit_length n - 1) \<le> n" using bit_length_bounds[OF n] by simp
  ultimately show ?thesis by (simp add: flog2_def)
qed

lemma f_round_int:
  assumes "0 < n" "n \<le> 2 ^ 53"
  shows "\<exists>m e. f_round s n 1 = FFin s m e \<and> dyad m e n \<and> -52 \<le> e \<and> e \<le> 1"
proof -
  obtain L where L: "bit_length n = Suc L" "2 ^ L \<le> n" "n < 2 ^ Suc L"
    using bit_length_bounds[OF assms(1)] gr0_conv_Suc by auto
  have fl: "flog2 n 1 = int L" using flog2_one[OF assms(1)] L by simp
  show ?thesis
  proof (cases "L \<le> 52")
    case True
    define k where "k = 52 - L"
    have "n * 2 ^ k < 2 ^ Suc L * 2 ^ k" using L by simp
    also have "\<dots> = 2 ^ 53" using True by (simp add: k_def power_add[symmetric])
    finally have lt: "n * 2 ^ k < 2 ^ 53" .
    have e: "max (-1074) (int L - 52) = - int k" using True by (simp add: k_def)
    have one: "half_even p 1 = p" for p using half_even_exact[of 1 p] by simp
    have k0: "0 \<le> - int k \<longleftrightarrow> k = 0" by simp
    have "f_round s n 1 = f_pack s (n * 2 ^ k) (- int k)"
      unfolding f_round_def fl e Let_def k0 using assms(1) one[of n] one[of "n * 2 ^ k"] by simp
    also have "\<dots> = FFin s (n * 2 ^ k) (- int k)"
      using lt by (simp add: f_pack_def)
    finally show ?thesis
      using True by (auto simp: dyad_def k_def)
  next
    case False
    have "(2::nat) ^ L \<le> 2 ^ 53" using L assms(2) by linarith
    then have "L \<le> 53" using power_le_imp_le_exp[of 2 L 53] by simp
    then have L53: "L = 53" using False by simp
    then have n: "n = 2 ^ 53" using L assms(2) by simp
    have "f_round s n 1 = FFin s (2 ^ 52) 1"
      using half_even_exact[of 2 "2 ^ 52"] unfolding f_round_def fl L53
      by (simp add: n f_pack_def)
    then show ?thesis by (auto simp: dyad_def n)
  qed
qed

lemma f_of_int_dyad:
  assumes "\<bar>n\<bar> \<le> 2 ^ 53"
  shows "\<exists>m e. f_of_int n = FFin (n < 0) m e \<and> dyad m e (nat \<bar>n\<bar>) \<and> -1074 \<le> e \<and> e \<le> 1"
proof (cases "n = 0")
  case True
  then show ?thesis by (auto simp: f_of_int_def f_round_def dyad_def)
next
  case False
  have "nat \<bar>n\<bar> \<le> 2 ^ 53" using assms by simp
  from f_round_int[OF _ this, of "n < 0"] False show ?thesis
    by (fastforce simp: f_of_int_def)
qed

lemma dyad_signed_aligned:
  assumes "dyad m e (nat \<bar>n\<bar>)" "e0 \<le> e" "s = (n < 0)"
  shows "if 0 \<le> e0 then aligned s m e e0 * 2 ^ nat e0 = n else aligned s m e e0 = n * 2 ^ nat (- e0)"
proof (cases "0 \<le> e")
  case True
  have m: "int m * 2 ^ nat e = \<bar>n\<bar>" using assms(1) True
    by (simp add: dyad_def) (metis abs_ge_zero int_nat_eq of_nat_mult of_nat_numeral of_nat_power)
  show ?thesis
  proof (cases "0 \<le> e0")
    case True
    have "nat (e - e0) + nat e0 = nat e" using True assms(2) by linarith
    then have "(2::int) ^ nat (e - e0) * 2 ^ nat e0 = 2 ^ nat e" by (metis power_add)
    then show ?thesis using True m assms(3) by (auto simp: aligned_def signed_def mult.assoc)
  next
    case False
    have "nat (e - e0) = nat e + nat (- e0)" using False True by linarith
    then have "(2::int) ^ nat (e - e0) = 2 ^ nat e * 2 ^ nat (- e0)" by (metis power_add)
    then show ?thesis using False m assms(3)
      by (auto simp: aligned_def signed_def mult.assoc[symmetric])
  qed
next
  case False
  have m: "int m = \<bar>n\<bar> * 2 ^ nat (- e)" using assms(1) False
    by (simp add: dyad_def)
  have "nat (- e0) = nat (- e) + nat (e - e0)" using False assms(2) by linarith
  then have "(2::int) ^ nat (- e0) = 2 ^ nat (- e) * 2 ^ nat (e - e0)" by (metis power_add)
  then show ?thesis using False assms(2,3) m
    by (auto simp: aligned_def signed_def mult.assoc)
qed

theorem f_add_int:
  assumes "\<bar>a\<bar> \<le> 2 ^ 53" "\<bar>b\<bar> \<le> 2 ^ 53"
  shows "f_add (f_of_int a) (f_of_int b) = f_of_int (a + b)"
proof -
  obtain m e where A: "f_of_int a = FFin (a < 0) m e" "dyad m e (nat \<bar>a\<bar>)" "-1074 \<le> e" "e \<le> 1"
    using f_of_int_dyad[OF assms(1)] by auto
  obtain n f where B: "f_of_int b = FFin (b < 0) n f" "dyad n f (nat \<bar>b\<bar>)" "-1074 \<le> f" "f \<le> 1"
    using f_of_int_dyad[OF assms(2)] by auto
  define e0 where "e0 = min e f"
  define z where "z = aligned (a < 0) m e e0 + aligned (b < 0) n f e0"
  have z: "if 0 \<le> e0 then z * 2 ^ nat e0 = a + b else z = (a + b) * 2 ^ nat (- e0)"
    using dyad_signed_aligned[OF A(2), of e0 "a < 0"] dyad_signed_aligned[OF B(2), of e0 "b < 0"]
    by (auto simp: z_def e0_def distrib_right split: if_splits)
  have eq: "f_add (f_of_int a) (f_of_int b) =
      (if z = 0 then FFin (a < 0 \<and> b < 0) 0 (-1074) else f_dyadic (z < 0) (nat \<bar>z\<bar>) e0)"
    by (simp add: A(1) B(1) z_def e0_def Let_def)
  show ?thesis
  proof (cases "z = 0")
    case True
    then have "a + b = 0" using z by (auto split: if_splits)
    then show ?thesis using True eq by (auto simp: f_of_int_def f_round_def)
  next
    case False
    have d: "dyad (nat \<bar>z\<bar>) e0 (nat \<bar>a + b\<bar>)"
      using z by (auto simp: dyad_def abs_mult nat_mult_distrib nat_power_eq
          dest!: arg_cong[where f = "\<lambda>x. nat \<bar>x\<bar>"] split: if_splits)
    have "(z < 0) = (a + b < 0)"
      using z by (auto simp: mult_less_0_iff split: if_splits)
         (metis mult_less_0_iff not_less_iff_gr_or_eq zero_less_numeral zero_less_power)+
    then show ?thesis
      using f_dyadic_dyad[OF d] eq False by (simp add: f_of_int_def)
  qed
qed

theorem f_to_i64_of_int:
  assumes "\<bar>n\<bar> \<le> 2 ^ 53"
  shows "f_to_i64 (f_of_int n) = word_of_int n"
proof -
  obtain m e where A: "f_of_int n = FFin (n < 0) m e" "dyad m e (nat \<bar>n\<bar>)"
    using f_of_int_dyad[OF assms(1)] by auto
  have "(if 0 \<le> e then m * 2 ^ nat e else m div 2 ^ nat (- e)) = nat \<bar>n\<bar>"
    using A(2) by (auto simp: dyad_def split: if_splits)
  then have "f_trunc (n < 0) m e = n" by (auto simp: f_trunc_def signed_def)
  then show ?thesis using assms by (auto simp: A(1) Let_def)
qed

theorem f_cmp_int:
  assumes "\<bar>a\<bar> \<le> 2 ^ 53" "\<bar>b\<bar> \<le> 2 ^ 53"
  shows "f_cmp (f_of_int a) (f_of_int b) = Some (sgn (a - b))"
proof -
  obtain m e where A: "f_of_int a = FFin (a < 0) m e" "dyad m e (nat \<bar>a\<bar>)"
    using f_of_int_dyad[OF assms(1)] by auto
  obtain n f where B: "f_of_int b = FFin (b < 0) n f" "dyad n f (nat \<bar>b\<bar>)"
    using f_of_int_dyad[OF assms(2)] by auto
  define e0 where "e0 = min e f"
  define z where "z = aligned (a < 0) m e e0 - aligned (b < 0) n f e0"
  have z: "if 0 \<le> e0 then z * 2 ^ nat e0 = a - b else z = (a - b) * 2 ^ nat (- e0)"
    using dyad_signed_aligned[OF A(2), of e0 "a < 0"] dyad_signed_aligned[OF B(2), of e0 "b < 0"]
    by (auto simp: z_def e0_def left_diff_distrib split: if_splits)
  have "sgn z = sgn (a - b)"
    using z by (cases "0 \<le> e0") (simp_all add: sgn_mult, metis mult.right_neutral sgn_mult sgn_1_pos zero_less_numeral zero_less_power sgn_pos)
  then show ?thesis by (simp add: A(1) B(1) Let_def z_def e0_def)
qed

end
