(* ===== verification/GoStrings.thy ===== *)
theory GoStrings
  imports GoFloat "HOL-Library.Sublist"
begin

text \<open>
  The parts of Go's \<open>strings\<close>, \<open>strconv\<close> and \<open>fmt\<close> the engine uses, on byte strings
  (\<open>string\<close>, one \<open>char\<close> per byte, as Go's \<open>string\<close>): \<open>TrimSpace\<close> with the Unicode white
  space as UTF-8 sequences, ASCII case folding, \<open>ParseInt\<close>, \<open>ParseUint\<close>, \<open>ParseFloat\<close>,
  \<open>FormatInt\<close> and the shortest \<open>%g\<close> formatting. A parse error is \<open>None\<close>.
  \<open>ToLower\<close> on non-ASCII text needs the Unicode tables and is a parameter where it is used.
\<close>

definition code :: "char \<Rightarrow> nat" where
  "code c = of_char c"

definition is_digit :: "char \<Rightarrow> bool" where
  "is_digit c \<longleftrightarrow> 48 \<le> code c \<and> code c \<le> 57"

definition lower_char :: "char \<Rightarrow> char" where
  "lower_char c = (if 65 \<le> code c \<and> code c \<le> 90 then char_of (code c + 32) else c)"

definition ascii_lower :: "string \<Rightarrow> string" where
  "ascii_lower s = map lower_char s"

definition is_ascii :: "string \<Rightarrow> bool" where
  "is_ascii s \<longleftrightarrow> list_all (\<lambda>c. code c < 128) s"

text \<open>\<open>strings.ToLower\<close>: byte-wise on ASCII input; \<open>uni\<close> is its Unicode path.\<close>

definition to_lower :: "(string \<Rightarrow> string) \<Rightarrow> string \<Rightarrow> string" where
  "to_lower uni s = (if is_ascii s then ascii_lower s else uni s)"

text \<open>
  \<open>strings.EqualFold(s, t)\<close> for an ASCII \<open>t\<close>: besides ASCII letters, simple folding equates
  the Kelvin sign (E2 84 AA) with \<open>k\<close> and the long s (C5 BF) with \<open>s\<close>.
\<close>

fun fold_text :: "string \<Rightarrow> string" where
  "fold_text [] = []"
| "fold_text (a # b # c # s) =
     (if code a = 226 \<and> code b = 132 \<and> code c = 170 then CHR ''k'' # fold_text s
      else if code a = 197 \<and> code b = 191 then CHR ''s'' # fold_text (c # s)
      else lower_char a # fold_text (b # c # s))"
| "fold_text [a, b] =
     (if code a = 197 \<and> code b = 191 then [CHR ''s''] else [lower_char a, lower_char b])"
| "fold_text [a] = [lower_char a]"

definition equal_fold :: "string \<Rightarrow> string \<Rightarrow> bool" where
  "equal_fold s t \<longleftrightarrow> fold_text s = ascii_lower t"

section \<open>TrimSpace\<close>

definition ascii_space :: "char \<Rightarrow> bool" where
  "ascii_space c \<longleftrightarrow> code c = 32 \<or> (9 \<le> code c \<and> code c \<le> 13)"

definition space2 :: "char \<Rightarrow> char \<Rightarrow> bool" where
  "space2 a b \<longleftrightarrow> code a = 194 \<and> (code b = 133 \<or> code b = 160)"

definition space3 :: "char \<Rightarrow> char \<Rightarrow> char \<Rightarrow> bool" where
  "space3 a b c \<longleftrightarrow>
     (code a = 225 \<and> code b = 154 \<and> code c = 128)
   \<or> (code a = 226 \<and> code b = 128 \<and> ((128 \<le> code c \<and> code c \<le> 138) \<or> code c = 168 \<or> code c = 169 \<or> code c = 175))
   \<or> (code a = 226 \<and> code b = 129 \<and> code c = 159)
   \<or> (code a = 227 \<and> code b = 128 \<and> code c = 128)"

fun trim_left :: "string \<Rightarrow> string" where
  "trim_left [] = []"
| "trim_left (a # s) =
     (if ascii_space a then trim_left s
      else (case s of
          b # c # r \<Rightarrow> (if space2 a b then trim_left (c # r)
                         else if space3 a b c then trim_left r else a # s)
        | [b] \<Rightarrow> (if space2 a b then [] else a # s)
        | [] \<Rightarrow> [a]))"

text \<open>Trimming on the right, on the reversed string.\<close>

fun trim_rev :: "string \<Rightarrow> string" where
  "trim_rev [] = []"
| "trim_rev (c # s) =
     (if ascii_space c then trim_rev s
      else (case s of
          b # a # r \<Rightarrow> (if space2 b c then trim_rev (a # r)
                         else if space3 a b c then trim_rev r else c # s)
        | [b] \<Rightarrow> (if space2 b c then [] else c # s)
        | [] \<Rightarrow> [c]))"

definition trim_space :: "string \<Rightarrow> string" where
  "trim_space s = rev (trim_rev (rev (trim_left s)))"

section \<open>Integers\<close>

fun digits_value :: "nat \<Rightarrow> string \<Rightarrow> nat" where
  "digits_value acc [] = acc"
| "digits_value acc (c # s) = digits_value (acc * 10 + (code c - 48)) s"

definition parse_digits :: "string \<Rightarrow> nat option" where
  "parse_digits s = (if s \<noteq> [] \<and> list_all is_digit s then Some (digits_value 0 s) else None)"

text \<open>\<open>strconv.ParseInt(s, 10, 64)\<close> and \<open>strconv.ParseUint(s, 10, 64)\<close>.\<close>

definition parse_int64 :: "string \<Rightarrow> int option" where
  "parse_int64 s =
     (let (neg, ds) = (case s of
            c # r \<Rightarrow> (if c = CHR ''+'' then (False, r) else if c = CHR ''-'' then (True, r) else (False, s))
          | [] \<Rightarrow> (False, []))
      in case parse_digits ds of
           None \<Rightarrow> None
         | Some n \<Rightarrow> (if neg then (if n \<le> 2 ^ 63 then Some (- int n) else None)
                     else (if n < 2 ^ 63 then Some (int n) else None)))"

definition parse_uint64 :: "string \<Rightarrow> nat option" where
  "parse_uint64 s = (case parse_digits s of
      Some n \<Rightarrow> (if n < 2 ^ 64 then Some n else None) | None \<Rightarrow> None)"

definition hex_value :: "char \<Rightarrow> nat option" where
  "hex_value c =
     (if is_digit c then Some (code c - 48)
      else if 97 \<le> code (lower_char c) \<and> code (lower_char c) \<le> 122 then Some (code (lower_char c) - 87)
      else None)"

fun parse_base_digits :: "nat \<Rightarrow> nat \<Rightarrow> string \<Rightarrow> nat option" where
  "parse_base_digits b acc [] = Some acc"
| "parse_base_digits b acc (c # s) =
     (case hex_value c of
        Some d \<Rightarrow> (if d < b then parse_base_digits b (acc * b + d) s else None)
      | None \<Rightarrow> None)"

text \<open>\<open>strconv.ParseUint(s, base, 64)\<close> for base 8 and 16.\<close>

definition parse_uint_base :: "nat \<Rightarrow> string \<Rightarrow> nat option" where
  "parse_uint_base b s =
     (if s = [] then None
      else case parse_base_digits b 0 s of
        Some n \<Rightarrow> (if n < 2 ^ 64 then Some n else None) | None \<Rightarrow> None)"

fun nat_digits :: "nat \<Rightarrow> string" where
  "nat_digits n = (if n < 10 then [char_of (48 + n)] else nat_digits (n div 10) @ [char_of (48 + n mod 10)])"

declare nat_digits.simps [simp del]

definition format_int :: "int \<Rightarrow> string" where
  "format_int n = (if n < 0 then CHR ''-'' # nat_digits (nat (- n)) else nat_digits (nat n))"

section \<open>ParseFloat\<close>

text \<open>Splits the longest run of digits, underscores skipped (\<open>readFloat\<close> checks them apart).\<close>

definition is_hex_digit :: "char \<Rightarrow> bool" where
  "is_hex_digit c \<longleftrightarrow> is_digit c \<or> (97 \<le> code (lower_char c) \<and> code (lower_char c) \<le> 102)"

fun underscore_scan :: "bool \<Rightarrow> char \<Rightarrow> string \<Rightarrow> bool" where
  "underscore_scan hex saw [] = (saw \<noteq> CHR ''_'')"
| "underscore_scan hex saw (c # s) =
     (if is_digit c \<or> (hex \<and> is_hex_digit c) then underscore_scan hex (CHR ''0'') s
      else if c = CHR ''_'' then saw = CHR ''0'' \<and> underscore_scan hex (CHR ''_'') s
      else saw \<noteq> CHR ''_'' \<and> underscore_scan hex (CHR ''!'') s)"

definition strip_sign :: "string \<Rightarrow> bool \<times> string" where
  "strip_sign s = (case s of
      c # r \<Rightarrow> (if c = CHR ''+'' then (False, r) else if c = CHR ''-'' then (True, r) else (False, s))
    | [] \<Rightarrow> (False, []))"

definition underscore_ok :: "string \<Rightarrow> bool" where
  "underscore_ok s =
     (let t = snd (strip_sign s) in
      case t of
        a # b # r \<Rightarrow>
          (if a = CHR ''0'' \<and> lower_char b \<in> {CHR ''b'', CHR ''o'', CHR ''x''}
           then underscore_scan (lower_char b = CHR ''x'') (CHR ''0'') r
           else underscore_scan False (CHR ''^'') t)
      | _ \<Rightarrow> underscore_scan False (CHR ''^'') t)"

text \<open>The mantissa: value of the digits, number of digits after the point, whether any digit and
  any point were read, and the rest of the text.\<close>

fun read_mantissa :: "nat \<Rightarrow> nat \<Rightarrow> nat \<Rightarrow> bool \<Rightarrow> bool \<Rightarrow> string \<Rightarrow> (nat \<times> nat \<times> bool \<times> string) option" where
  "read_mantissa b acc frac dot digs [] = Some (acc, frac, digs, [])"
| "read_mantissa b acc frac dot digs (c # s) =
     (if c = CHR ''_'' then read_mantissa b acc frac dot digs s
      else if c = CHR ''.'' then
        (if dot then Some (acc, frac, digs, c # s) else read_mantissa b acc frac True digs s)
      else if is_digit c \<or> (b = 16 \<and> is_hex_digit c) then
        (case hex_value c of
           Some d \<Rightarrow> read_mantissa b (acc * b + d) (if dot then frac + 1 else frac) dot True s
         | None \<Rightarrow> None)
      else Some (acc, frac, digs, c # s))"

fun read_exp_digits :: "nat \<Rightarrow> string \<Rightarrow> nat \<times> string" where
  "read_exp_digits e [] = (e, [])"
| "read_exp_digits e (c # s) =
     (if c = CHR ''_'' then read_exp_digits e s
      else if is_digit c then read_exp_digits (if e < 10000 then e * 10 + (code c - 48) else e) s
      else (e, c # s))"

text \<open>The optional exponent: \<open>None\<close> for a malformed one.\<close>

definition read_exponent :: "char \<Rightarrow> string \<Rightarrow> (int \<times> bool \<times> string) option" where
  "read_exponent ec s =
     (case s of
        c # r \<Rightarrow>
          (if lower_char c \<noteq> ec then Some (0, False, s)
           else let (neg, ds) = strip_sign r in
             (case ds of
                d # _ \<Rightarrow> (if is_digit d
                   then let (e, rest) = read_exp_digits 0 ds in Some (if neg then - int e else int e, True, rest)
                   else None)
              | [] \<Rightarrow> None))
      | [] \<Rightarrow> Some (0, False, []))"

definition dec_float :: "bool \<Rightarrow> nat \<Rightarrow> int \<Rightarrow> f64" where
  "dec_float neg m e = (if 0 \<le> e then f_round neg (m * 10 ^ nat e) 1 else f_round neg m (10 ^ nat (- e)))"

definition parse_special :: "string \<Rightarrow> f64 option" where
  "parse_special s =
     (let (neg, t) = strip_sign s; l = ascii_lower t
      in if l = ''inf'' \<or> l = ''infinity'' then Some (FInf neg)
         else if ascii_lower s = ''nan'' then Some FNaN else None)"

text \<open>\<open>strconv.ParseFloat(s, 64)\<close>; a syntax or range error is \<open>None\<close>.\<close>

definition parse_float :: "string \<Rightarrow> f64 option" where
  "parse_float s =
     (case parse_special s of
        Some x \<Rightarrow> Some x
      | None \<Rightarrow>
        let (neg, t) = strip_sign s;
            hex = (case t of a # b # _ # _ \<Rightarrow> a = CHR ''0'' \<and> lower_char b = CHR ''x'' | _ \<Rightarrow> False);
            body = (if hex then drop 2 t else t)
        in case read_mantissa (if hex then 16 else 10) 0 0 False False body of
             None \<Rightarrow> None
           | Some (m, frac, digs, rest) \<Rightarrow>
             (if \<not> digs then None
              else case read_exponent (if hex then CHR ''p'' else CHR ''e'') rest of
                None \<Rightarrow> None
              | Some (e, saw_exp, rest') \<Rightarrow>
                (if rest' \<noteq> [] \<or> (hex \<and> \<not> saw_exp)
                    \<or> (CHR ''_'' \<in> set s \<and> \<not> underscore_ok s) then None
                 else let x = (if hex then f_dyadic neg m (e - 4 * int frac)
                               else dec_float neg m (e - int frac))
                      in if f_is_inf x then None else Some x)))"

section \<open>FormatFloat(x, 'g', -1, 64)\<close>

text \<open>\<open>dec_point n d\<close> is the \<open>k\<close> with \<open>10^(k-1) <= n/d < 10^k\<close>, for \<open>n > 0\<close>.\<close>

fun scale_down :: "nat \<Rightarrow> nat \<Rightarrow> nat \<Rightarrow> int \<Rightarrow> int" where
  "scale_down 0 n d k = k"
| "scale_down (Suc f) n d k = (if d * 10 ^ nat k \<le> n then scale_down f n d (k + 1) else k)"

fun scale_up :: "nat \<Rightarrow> nat \<Rightarrow> nat \<Rightarrow> int \<Rightarrow> int" where
  "scale_up 0 n d k = k"
| "scale_up (Suc f) n d k = (if n * 10 ^ nat (1 - k) < d then scale_up f n d (k - 1) else k)"

definition dec_point :: "nat \<Rightarrow> nat \<Rightarrow> int" where
  "dec_point n d = (if d \<le> n then scale_down 400 n d 1 else scale_up 400 n d 0)"

definition ratio_of :: "nat \<Rightarrow> int \<Rightarrow> nat \<times> nat" where
  "ratio_of m e = (if 0 \<le> e then (m * 2 ^ nat e, 1) else (m, 2 ^ nat (- e)))"

text \<open>The shortest decimal \<open>c * 10^(k - n)\<close> of at most 17 digits that rounds back to the number,
  nearest first.\<close>

fun shortest_from :: "nat \<Rightarrow> nat \<Rightarrow> nat \<Rightarrow> int \<Rightarrow> nat \<Rightarrow> int \<Rightarrow> nat \<times> int" where
  "shortest_from fuel n m e nd k =
     (let (p, q) = ratio_of m e;
          sc = int nd - k;
          (p', q') = (if 0 \<le> sc then (p * 10 ^ nat sc, q) else (p, q * 10 ^ nat (- sc)));
          lo = p' div q'; r = p' mod q'; hi = (if r = 0 then lo else lo + 1);
          ok = (\<lambda>c. dec_float False c (- sc) = FFin False m e);
          first = (if 2 * r < q' \<or> (2 * r = q' \<and> even lo) then lo else hi);
          second = (if first = lo then hi else lo)
      in if ok first then (first, - sc)
         else if ok second then (second, - sc)
         else case fuel of 0 \<Rightarrow> (first, - sc) | Suc f \<Rightarrow> shortest_from f n m e (nd + 1) k)"

declare shortest_from.simps [simp del]

fun drop_zeros :: "string \<Rightarrow> string" where
  "drop_zeros (c # s) = (if c = CHR ''0'' then drop_zeros s else c # s)"
| "drop_zeros [] = []"

definition short_digits :: "nat \<Rightarrow> int \<Rightarrow> string \<times> int" where
  "short_digits m e =
     (let (p, q) = ratio_of m e; k = dec_point p q; (c, x) = shortest_from 16 0 m e 1 k;
          ds = nat_digits c
      in (rev (drop_zeros (rev ds)), x + int (length ds)))"

definition pad_exp :: "int \<Rightarrow> string" where
  "pad_exp x = (if x < 0 then CHR ''-'' else CHR ''+'') #
     (if \<bar>x\<bar> < 10 then CHR ''0'' # nat_digits (nat \<bar>x\<bar>) else nat_digits (nat \<bar>x\<bar>))"

definition layout_g :: "string \<Rightarrow> int \<Rightarrow> string" where
  "layout_g ds dp =
     (let x = dp - 1
      in if x < -4 \<or> 6 \<le> x
         then take 1 ds @ (if length ds \<le> 1 then [] else CHR ''.'' # drop 1 ds) @ CHR ''e'' # pad_exp x
         else if dp \<le> 0 then ''0.'' @ replicate (nat (- dp)) (CHR ''0'') @ ds
         else if length ds \<le> nat dp then ds @ replicate (nat dp - length ds) (CHR ''0'')
         else take (nat dp) ds @ CHR ''.'' # drop (nat dp) ds)"

text \<open>\<open>strconv.FormatFloat(x, 'g', -1, 64)\<close>, also \<open>fmt.Sprintf("%g", x)\<close> of a finite number:
  an exponent below -4 or of at least 6 is written in the \<open>%e\<close> form.\<close>

fun format_g :: "f64 \<Rightarrow> string" where
  "format_g FNaN = ''NaN''"
| "format_g (FInf s) = (if s then ''-Inf'' else ''+Inf'')"
| "format_g (FFin s m e) =
     (let body = (if m = 0 then ''0'' else let (ds, dp) = short_digits m e in layout_g ds dp)
      in if s then CHR ''-'' # body else body)"

end
