(* ===== verification/Values.thy ===== *)
theory Values
  imports GoStrings VBErrors
begin

text \<open>
  The dynamically typed value of the engine (\<open>axonvm/value.go\<close>): the Go struct \<open>Value\<close> as a
  record, its subtype tag, the constructors, the string form, and the packed signature of a
  user-defined Sub or Function (\<open>NewUserSubEx\<close> and its accessors). Pointers (\<open>Arr\<close>, \<open>Rec\<close>)
  are heap addresses; \<open>Big\<close> is the pointed-to integer.
\<close>

section \<open>Data\<close>

datatype ValueType =
    VTEmpty | VTNull | VTBool | VTInteger | VTDouble | VTString | VTDate | VTArray | VTObject
  | VTNativeObject | VTBuiltin | VTUserSub | VTNothing | VTJSUndefined | VTJSObject | VTJSFunction
  | VTJSUninitialized | VTJSFunctionTemplate | VTJSArrowFunctionTemplate | VTArgRef | VTSymbol
  | VTJSBigInt | VTJSPromise | VTJSGenerator | VTJSProxy | VTRecord

record Value =
  VType :: ValueType
  VInterface :: string
  VNum :: i64
  VFlt :: f64
  VStr :: string
  VArr :: "nat option"
  VRec :: "nat option"
  VNames :: "string list"
  VBig :: "int option"

text \<open>Go's zero value \<open>Value{}\<close>; a composite literal sets the fields it names.\<close>

definition Value0 :: Value where
  "Value0 = \<lparr>VType = VTEmpty, VInterface = [], VNum = 0, VFlt = f_zero, VStr = [],
             VArr = None, VRec = None, VNames = [], VBig = None\<rparr>"

definition typed :: "ValueType \<Rightarrow> Value" where
  "typed t = Value0\<lparr>VType := t\<rparr>"

definition NewInteger :: "i64 \<Rightarrow> Value" where
  "NewInteger v = Value0\<lparr>VType := VTInteger, VNum := v\<rparr>"

definition NewDouble :: "f64 \<Rightarrow> Value" where
  "NewDouble v = Value0\<lparr>VType := VTDouble, VFlt := v\<rparr>"

definition NewString :: "string \<Rightarrow> Value" where
  "NewString v = Value0\<lparr>VType := VTString, VStr := v\<rparr>"

definition NewBool :: "bool \<Rightarrow> Value" where
  "NewBool v = Value0\<lparr>VType := VTBool, VNum := (if v then 1 else 0)\<rparr>"

definition NewBigInt :: "int option \<Rightarrow> Value" where
  "NewBigInt v = Value0\<lparr>VType := VTJSBigInt, VBig := v\<rparr>"

text \<open>The argument is \<open>v.UTC().UnixNano()\<close>.\<close>

definition NewDate :: "i64 \<Rightarrow> Value" where
  "NewDate nanos = Value0\<lparr>VType := VTDate, VNum := nanos\<rparr>"

definition NewNull :: Value where
  "NewNull = Value0\<lparr>VType := VTNull\<rparr>"

definition NewEmpty :: Value where
  "NewEmpty = Value0\<lparr>VType := VTEmpty\<rparr>"

lemmas value_new_defs = NewInteger_def NewDouble_def NewString_def NewBool_def NewNull_def NewEmpty_def

lemma new_value_fields [simp]:
  "VType (NewInteger n) = VTInteger" "VNum (NewInteger n) = n" "VFlt (NewInteger n) = f_zero"
  "VType (NewDouble x) = VTDouble" "VFlt (NewDouble x) = x" "VNum (NewDouble x) = 0"
  "VType (NewString s) = VTString" "VStr (NewString s) = s" "VNum (NewString s) = 0"
  "VType (NewBool b) = VTBool" "VNum (NewBool b) = (if b then 1 else 0)"
  "VType NewNull = VTNull" "VType NewEmpty = VTEmpty" "VNum NewEmpty = 0"
  "VType (typed t) = t" "VNum (typed t) = 0" "VStr (typed t) = []" "VFlt (typed t) = f_zero"
  "VInterface (typed t) = []"
  by (simp_all add: value_new_defs Value0_def typed_def)

section \<open>The string form\<close>

definition nativeObjectErr :: i64 where "nativeObjectErr = 6"

definition nativeObjectConsole :: i64 where "nativeObjectConsole = 7"

definition bracketed :: "string \<Rightarrow> i64 \<Rightarrow> string" where
  "bracketed name n = ''['' @ name @ '':'' @ format_int (sint n) @ '']''"

text \<open>\<open>Value.String\<close>; \<open>local_date\<close> is the locale's rendering of a \<open>VTDate\<close> in nanoseconds.\<close>

definition Value_String :: "(i64 \<Rightarrow> string) \<Rightarrow> Value \<Rightarrow> string" where
  "Value_String local_date v = (case VType v of
      VTEmpty \<Rightarrow> []
    | VTNull \<Rightarrow> ''Null''
    | VTBool \<Rightarrow> (if VNum v \<noteq> 0 then ''True'' else ''False'')
    | VTInteger \<Rightarrow> format_int (sint (VNum v))
    | VTDouble \<Rightarrow>
        (if f_is_nan (VFlt v) then ''NaN''
         else if VFlt v = FInf False then ''Infinity''
         else if VFlt v = FInf True then ''-Infinity''
         else if f_eq (VFlt v) f_zero then ''0''
         else format_g (VFlt v))
    | VTString \<Rightarrow> VStr v
    | VTArray \<Rightarrow> ''[Array]''
    | VTObject \<Rightarrow> (if VNum v = 0 then [] else bracketed ''Object'' (VNum v))
    | VTNativeObject \<Rightarrow> (if VNum v = nativeObjectConsole then ''[object console]''
                       else bracketed ''NativeObject'' (VNum v))
    | VTBuiltin \<Rightarrow> bracketed ''Builtin'' (VNum v)
    | VTDate \<Rightarrow> local_date (VNum v)
    | VTUserSub \<Rightarrow> ''[UserSub]''
    | VTJSUndefined \<Rightarrow> ''undefined''
    | VTJSUninitialized \<Rightarrow> ''[Uninitialized]''
    | VTJSObject \<Rightarrow> bracketed ''JSObject'' (VNum v)
    | VTJSFunction \<Rightarrow> bracketed ''JSFunction'' (VNum v)
    | VTJSFunctionTemplate \<Rightarrow> bracketed ''JSFunctionTemplate'' (VNum v)
    | VTArgRef \<Rightarrow> ''[ArgRef]''
    | VTSymbol \<Rightarrow> (if VStr v = [] then ''Symbol()'' else ''Symbol('' @ VStr v @ '')'')
    | VTJSBigInt \<Rightarrow> (case VBig v of None \<Rightarrow> ''0'' | Some n \<Rightarrow> format_int n)
    | VTJSPromise \<Rightarrow> ''[object Promise]''
    | VTJSGenerator \<Rightarrow> ''[object Generator]''
    | VTJSProxy \<Rightarrow> ''[object Proxy]''
    | VTRecord \<Rightarrow> ''[Record]''
    | _ \<Rightarrow> ''Unknown'')"

section \<open>User-defined procedures\<close>

definition f_half :: f64 where
  "f_half = f_dyadic False 1 (-1)"

definition user_sub_meta :: "u64 \<Rightarrow> u64 \<Rightarrow> int \<Rightarrow> string" where
  "user_sub_meta byRefMask optionalMask paramArrayIdx =
     (if byRefMask \<noteq> 0 \<or> optionalMask \<noteq> 0 \<or> 0 \<le> paramArrayIdx
      then nat_digits (unat byRefMask) @ ''|'' @ nat_digits (unat optionalMask) @ ''|''
           @ format_int paramArrayIdx
      else [])"

definition NewUserSubEx ::
    "int \<Rightarrow> int \<Rightarrow> int \<Rightarrow> bool \<Rightarrow> u64 \<Rightarrow> u64 \<Rightarrow> int \<Rightarrow> string list \<Rightarrow> Value" where
  "NewUserSubEx entryPoint paramCount0 localCount0 isFunc byRefMask optionalMask paramArrayIdx localNames =
     (let paramCount = (if paramCount0 < 0 then 0 else paramCount0);
          localCount = (if localCount0 < paramCount then paramCount else localCount0);
          packed = (push_bit 12 (i64_of_int localCount) OR (i64_of_int paramCount AND 0x0FFF));
          marker = f_of_i64 packed;
          marker' = (if isFunc then f_add marker f_half else marker)
      in Value0\<lparr>VType := VTUserSub, VNum := i64_of_int entryPoint, VFlt := marker',
                VNames := localNames, VStr := user_sub_meta byRefMask optionalMask paramArrayIdx\<rparr>)"

definition NewUserSub :: "int \<Rightarrow> int \<Rightarrow> int \<Rightarrow> bool \<Rightarrow> u64 \<Rightarrow> string list \<Rightarrow> Value" where
  "NewUserSub entryPoint paramCount localCount isFunc byRefMask localNames =
     NewUserSubEx entryPoint paramCount localCount isFunc byRefMask 0 (-1) localNames"

text \<open>\<open>strings.SplitN(s, sep, n)\<close> for a one-byte separator and a positive \<open>n\<close>.\<close>

fun split_n :: "nat \<Rightarrow> char \<Rightarrow> string \<Rightarrow> string list" where
  "split_n 0 sep s = []"
| "split_n (Suc 0) sep s = [s]"
| "split_n (Suc (Suc n)) sep s =
     (case dropWhile (\<lambda>c. c \<noteq> sep) s of
        [] \<Rightarrow> [s]
      | _ # rest \<Rightarrow> takeWhile (\<lambda>c. c \<noteq> sep) s # split_n (Suc n) sep rest)"

text \<open>The value \<open>strconv.ParseUint\<close> returns when its error is ignored: 0 on a syntax error, the
  largest \<open>uint64\<close> on overflow.\<close>

definition parse_uint_ignoring_error :: "string \<Rightarrow> u64" where
  "parse_uint_ignoring_error s =
     (case parse_digits s of None \<Rightarrow> 0
      | Some n \<Rightarrow> if n < 2 ^ 64 then word_of_nat n else - 1)"

definition parseUserSubStr :: "string \<Rightarrow> u64 \<times> u64 \<times> int" where
  "parseUserSubStr s =
     (if s = [] then (0, 0, -1)
      else let parts = split_n 3 (CHR ''|'') s;
               mask = (\<lambda>i. if i < length parts \<and> parts ! i \<noteq> [] then parse_uint_ignoring_error (parts ! i) else 0);
               idx = (if 2 < length parts \<and> parts ! 2 \<noteq> [] then
                        (case parse_int64 (parts ! 2) of Some n \<Rightarrow> n | None \<Rightarrow> -1) else -1)
           in (mask 0, mask 1, idx))"

definition UserSubIsFunc :: "Value \<Rightarrow> bool" where
  "UserSubIsFunc v \<longleftrightarrow> \<not> f_eq (VFlt v) (f_of_i64 (f_to_i64 (VFlt v)))"

definition UserSubParamCount :: "Value \<Rightarrow> i64" where
  "UserSubParamCount v =
     (let packed = f_to_i64 (VFlt v)
      in if sint packed \<le> 0x0FFF then packed else packed AND 0x0FFF)"

definition UserSubLocalCount :: "Value \<Rightarrow> i64" where
  "UserSubLocalCount v =
     (let packed = f_to_i64 (VFlt v)
      in if sint packed \<le> 0x0FFF then packed else signed_drop_bit 12 packed)"

definition UserSubByRefMask :: "Value \<Rightarrow> u64" where
  "UserSubByRefMask v = fst (parseUserSubStr (VStr v))"

definition UserSubOptionalMask :: "Value \<Rightarrow> u64" where
  "UserSubOptionalMask v = fst (snd (parseUserSubStr (VStr v)))"

definition UserSubParamArrayIdx :: "Value \<Rightarrow> int" where
  "UserSubParamArrayIdx v = snd (snd (parseUserSubStr (VStr v)))"

section \<open>Argument references and object references\<close>

definition ArgRefIsGlobal :: "Value \<Rightarrow> bool" where
  "ArgRefIsGlobal v = f_eq (VFlt v) (f_of_int 1)"

definition ArgRefIsLocal :: "Value \<Rightarrow> bool" where
  "ArgRefIsLocal v = f_eq (VFlt v) f_zero"

definition ArgRefIsClassMember :: "Value \<Rightarrow> bool" where
  "ArgRefIsClassMember v = f_eq (VFlt v) (f_of_int 2)"

definition ArgRefIdx :: "Value \<Rightarrow> i64" where
  "ArgRefIdx v = VNum v"

definition IsObjectReferenceValue :: "Value \<Rightarrow> bool" where
  "IsObjectReferenceValue v \<longleftrightarrow>
     VType v = VTObject \<or> VType v = VTNativeObject \<or> VType v = VTNothing
   \<or> (VType v = VTEmpty \<and> VInterface v = ''static'')"

end
