(* ===== verification/ValueOps.thy ===== *)
theory ValueOps
  imports Values
begin

text \<open>
  Coercions and operators on values: \<open>axonvm/vm_value_ops.go\<close>, the numeric text parser of
  \<open>axonvm/builtins.go\<close>, \<open>resolveCallable\<close>, and the conversion helpers at the end of
  \<open>axonvm/vm.go\<close>. An operator returns its result and what it passed to \<open>vm.raise\<close>, if anything.

  What the operators ask of the rest of the running VM (native objects, the builtin table, the
  locale's dates and collation) is the record \<open>host\<close>, a parameter of every definition.
\<close>

section \<open>The rest of the VM, as the operators see it\<close>

record host =
  h_err_property :: "string \<Rightarrow> Value"
  h_proxy_call :: "i64 \<Rightarrow> Value option"
  h_request_collection :: "i64 \<Rightarrow> (string list \<times> string) option"
  h_is_js :: bool
  h_builtin_count :: int
  h_builtin_call :: "int \<Rightarrow> Value option"
  h_js_property :: "Value \<Rightarrow> string \<Rightarrow> string"
  h_cookie :: "i64 \<Rightarrow> string option"
  h_asp_error :: "i64 \<Rightarrow> string option"
  h_submatch :: "i64 \<Rightarrow> string option"
  h_request_text :: "i64 \<Rightarrow> string option"
  h_adodb_text :: "i64 \<Rightarrow> string option"
  h_date_text :: "Value \<Rightarrow> string"
  h_local_date :: "i64 \<Rightarrow> string"
  h_text_compare :: bool
  h_collate :: "string \<Rightarrow> string \<Rightarrow> int"
  h_pow :: "f64 \<Rightarrow> f64 \<Rightarrow> f64"
  h_arg_slot :: "i64 \<Rightarrow> Value"
  h_unicode_lower :: "string \<Rightarrow> string"

type_synonym raised = "(VBSyntaxErrorCode \<times> string) option"

text \<open>The code an error is reported with; a blank message is replaced by the catalogue's.\<close>

definition raise_error :: "VBSyntaxErrorCode \<Rightarrow> string \<Rightarrow> raised" where
  "raise_error c msg = Some (c, if trim_space msg = [] then error_String c else trim_space msg)"

section \<open>Callables and native values\<close>

definition resolve_native :: "host \<Rightarrow> Value \<Rightarrow> Value" where
  "resolve_native h v0 =
     (let v = (case h_proxy_call h (VNum v0) of Some r \<Rightarrow> r | None \<Rightarrow> v0)
      in if VType v = VTNativeObject then
           (case h_request_collection h (VNum v) of
              Some (values, joined) \<Rightarrow>
                (if values = [] \<and> h_is_js h then typed VTJSUndefined else NewString joined)
            | None \<Rightarrow> v)
         else v)"

definition call_builtin :: "host \<Rightarrow> Value \<Rightarrow> Value" where
  "call_builtin h v =
     (if VType v \<noteq> VTBuiltin then v
      else if sint (VNum v) < 0 \<or> h_builtin_count h \<le> sint (VNum v) then v
      else (case h_builtin_call h (sint (VNum v)) of None \<Rightarrow> v | Some r \<Rightarrow> r))"

definition resolveCallable :: "host \<Rightarrow> Value \<Rightarrow> Value" where
  "resolveCallable h v =
     (if VType v = VTNativeObject \<and> VNum v = nativeObjectErr then h_err_property h ''Number''
      else call_builtin h (if VType v = VTNativeObject then resolve_native h v else v))"

text \<open>A value of a plain data subtype is its own resolution.\<close>

definition is_plain :: "Value \<Rightarrow> bool" where
  "is_plain v \<longleftrightarrow> VType v \<noteq> VTNativeObject \<and> VType v \<noteq> VTBuiltin"

lemma resolve_plain [simp]: "is_plain v \<Longrightarrow> resolveCallable h v = v"
  by (simp add: is_plain_def resolveCallable_def call_builtin_def)

lemma plain_types:
  "VType v \<in> {VTEmpty, VTNull, VTBool, VTInteger, VTDouble, VTString, VTDate} \<Longrightarrow> is_plain v"
  by (auto simp: is_plain_def)

lemma plain_new [simp]:
  "is_plain (NewInteger n)" "is_plain (NewDouble x)" "is_plain (NewString s)" "is_plain (NewBool b)"
  "is_plain NewNull" "is_plain NewEmpty"
  by (simp_all add: is_plain_def)

section \<open>Strings of values\<close>

text \<open>The Error branch of \<open>valueToString\<close>.\<close>

definition js_error_text :: "host \<Rightarrow> Value \<Rightarrow> string" where
  "js_error_text h v =
     (let name0 = h_js_property h v ''name'';
          msg = h_js_property h v ''message'';
          name1 = (if name0 = [] then h_js_property h v ''__js_ctor'' else name0);
          name = (if name1 = [] then ''Error'' else name1)
      in if msg = [] then name else name @ '': '' @ msg)"

text \<open>The native-object branch, in the order the maps are consulted.\<close>

definition native_text :: "host \<Rightarrow> i64 \<Rightarrow> string option" where
  "native_text h n =
     (case h_cookie h n of Some s \<Rightarrow> Some s | None \<Rightarrow>
      (case h_request_collection h n of Some (_, joined) \<Rightarrow> Some joined | None \<Rightarrow>
       (case h_asp_error h n of Some s \<Rightarrow> Some s | None \<Rightarrow>
        (case h_submatch h n of Some s \<Rightarrow> Some s | None \<Rightarrow>
         (if n = nativeObjectErr
          then Some (Value_String (h_local_date h) (h_err_property h ''Description''))
          else (case h_request_text h n of Some s \<Rightarrow> Some s | None \<Rightarrow> h_adodb_text h n))))))"

definition valueToString :: "host \<Rightarrow> Value \<Rightarrow> string" where
  "valueToString h v0 =
     (let v = resolveCallable h (if VType v0 = VTArgRef then h_arg_slot h (VNum v0) else v0)
      in if (VType v = VTJSObject \<or> VType v = VTJSFunction) \<and> h_js_property h v ''__js_type'' = ''Error''
         then js_error_text h v
         else case (if VType v = VTNativeObject then native_text h (VNum v) else None) of
                Some s \<Rightarrow> s
              | None \<Rightarrow> (if VType v = VTDate then h_date_text h v
                         else Value_String (h_local_date h) v))"

section \<open>Numeric text\<close>

text \<open>\<open>strings.ReplaceAll(s, ",", "")\<close>.\<close>

definition drop_commas :: "string \<Rightarrow> string" where
  "drop_commas s = filter (\<lambda>c. c \<noteq> CHR '','') s"

definition has_prefix :: "string \<Rightarrow> string \<Rightarrow> bool" where
  "has_prefix p s \<longleftrightarrow> take (length p) s = p"

text \<open>\<open>None\<close> is the result \<open>(0, TypeMismatch, false)\<close>.\<close>

definition radix_number :: "nat \<Rightarrow> f64 \<Rightarrow> string \<Rightarrow> f64 option" where
  "radix_number base sign digits =
     (if digits = [] then None
      else map_option (\<lambda>n. f_mul sign (f_of_u64 (word_of_nat n))) (parse_uint_base base digits))"

definition vbsParseNumericString :: "host \<Rightarrow> string \<Rightarrow> f64 option" where
  "vbsParseNumericString h text =
     (let trimmed0 = trim_space text
      in if trimmed0 = [] then None
         else let neg = has_prefix ''-'' trimmed0;
                  sign = (if neg then f_of_int (-1) else f_of_int 1);
                  trimmed = (if neg \<or> has_prefix ''+'' trimmed0 then trim_space (tl trimmed0) else trimmed0)
              in if trimmed = [] then None
                 else let low = to_lower (h_unicode_lower h) trimmed
                      in if has_prefix ''&h'' low then radix_number 16 sign (drop 2 trimmed)
                         else if has_prefix ''&o'' low then radix_number 8 sign (drop 2 trimmed)
                         else (case parse_float (drop_commas trimmed) of
                                 None \<Rightarrow> None
                               | Some x \<Rightarrow> (if f_is_nan x \<or> f_is_inf x then None
                                            else Some (f_mul sign x))))"

definition num_text :: "host \<Rightarrow> string \<Rightarrow> f64" where
  "num_text h s = (case vbsParseNumericString h s of Some x \<Rightarrow> x | None \<Rightarrow> f_zero)"

definition vbsCoerceNumericValue :: "host \<Rightarrow> Value \<Rightarrow> VBSyntaxErrorCode + f64" where
  "vbsCoerceNumericValue h v = (case VType v of
      VTEmpty \<Rightarrow> Inr f_zero
    | VTNull \<Rightarrow> Inl InvalidUseOfNull
    | VTBool \<Rightarrow> Inr (f_of_i64 (VNum v))
    | VTInteger \<Rightarrow> Inr (f_of_i64 (VNum v))
    | VTDouble \<Rightarrow> Inr (VFlt v)
    | VTDate \<Rightarrow> Inr (f_of_i64 (VNum v))
    | VTString \<Rightarrow> (case vbsParseNumericString h (VStr v) of Some x \<Rightarrow> Inr x | None \<Rightarrow> Inl TypeMismatch)
    | _ \<Rightarrow> Inl TypeMismatch)"

definition vbsConvertRoundedIntegerVM ::
    "host \<Rightarrow> Value list \<Rightarrow> i64 \<Rightarrow> i64 \<Rightarrow> Value \<times> raised" where
  "vbsConvertRoundedIntegerVM h args minValue maxValue =
     (case args of
        [] \<Rightarrow> (NewInteger 0, None)
      | v # _ \<Rightarrow>
        (case vbsCoerceNumericValue h v of
           Inl c \<Rightarrow> (NewInteger 0, raise_error c (error_String c))
         | Inr x \<Rightarrow>
           (let rounded = f_round_even x
            in if f_lt rounded (f_of_i64 minValue) \<or> f_lt (f_of_i64 maxValue) rounded
               then (NewInteger 0, raise_error Overflow (error_String Overflow))
               else (NewInteger (f_to_i64 rounded), None))))"

definition vbsCIntVM :: "host \<Rightarrow> Value list \<Rightarrow> Value \<times> raised" where
  "vbsCIntVM h args = vbsConvertRoundedIntegerVM h args (- 32768) 32767"

definition vbsCDblVM :: "host \<Rightarrow> Value list \<Rightarrow> Value \<times> raised" where
  "vbsCDblVM h args =
     (case args of
        [] \<Rightarrow> (NewDouble f_zero, None)
      | v # _ \<Rightarrow>
        (case vbsCoerceNumericValue h v of
           Inl c \<Rightarrow> (NewDouble f_zero, raise_error c (error_String c))
         | Inr x \<Rightarrow> (NewDouble x, None)))"

section \<open>Coercions\<close>

definition num_types :: "ValueType set" where
  "num_types = {VTBool, VTInteger, VTDate, VTNativeObject, VTBuiltin}"

definition coerceFloatStrict :: "host \<Rightarrow> Value \<Rightarrow> f64 option" where
  "coerceFloatStrict h v0 =
     (let v = resolveCallable h v0
      in if VType v = VTEmpty then Some f_zero
         else if VType v = VTDouble then Some (VFlt v)
         else if VType v \<in> num_types then Some (f_of_i64 (VNum v))
         else if VType v = VTString then vbsParseNumericString h (VStr v)
         else None)"

definition coerceFloat :: "host \<Rightarrow> Value \<Rightarrow> f64" where
  "coerceFloat h v0 =
     (let v = resolveCallable h v0
      in if VType v = VTDouble then VFlt v
         else if VType v = VTString then num_text h (VStr v)
         else f_of_i64 (VNum v))"

definition coerceInt64 :: "host \<Rightarrow> Value \<Rightarrow> i64" where
  "coerceInt64 h v0 =
     (let v = resolveCallable h v0
      in if VType v \<in> num_types then VNum v
         else if VType v = VTDouble then f_to_i64 (f_round_even (VFlt v))
         else if VType v = VTString then
           (case parse_int64 (trim_space (VStr v)) of
              Some n \<Rightarrow> word_of_int n
            | None \<Rightarrow> f_to_i64 (f_round_even (num_text h (VStr v))))
         else 0)"

definition coerceLogicalInt64 :: "host \<Rightarrow> Value \<Rightarrow> i64 option" where
  "coerceLogicalInt64 h v0 =
     (let v = resolveCallable h v0
      in if VType v \<in> num_types then Some (VNum v)
         else if VType v = VTDouble then Some (f_to_i64 (f_round_even (VFlt v)))
         else if VType v = VTEmpty then Some 0
         else if VType v = VTString then
           (let text = trim_space (VStr v)
            in case parse_int64 text of
                 Some n \<Rightarrow> Some (word_of_int n)
               | None \<Rightarrow> map_option (\<lambda>x. f_to_i64 (f_round_even x)) (vbsParseNumericString h text))
         else None)"

definition asFloat :: "Value \<Rightarrow> f64" where
  "asFloat v = (if VType v = VTDouble then VFlt v else f_of_i64 (VNum v))"

definition asBool :: "Value \<Rightarrow> bool" where
  "asBool v =
     (if VType v = VTBool \<or> VType v = VTInteger then VNum v \<noteq> 0
      else if VType v = VTDouble then \<not> f_eq (VFlt v) f_zero
      else if VType v = VTString then
        (let text = trim_space (VStr v)
         in if equal_fold text ''true'' then True
            else if equal_fold text ''false'' \<or> text = [] \<or> text = ''0'' then False
            else True)
      else False)"

definition isTruthy :: "Value \<Rightarrow> bool" where
  "isTruthy v =
     (if VType v = VTBool \<or> VType v = VTInteger then VNum v \<noteq> 0
      else if VType v = VTDouble then \<not> f_eq (VFlt v) f_zero
      else if VType v = VTString then VStr v \<noteq> [] \<and> VStr v \<noteq> ''0''
      else False)"

text \<open>\<open>fmt.Sscanf(s, "%d", &n)\<close>: leading blanks but no newline, a sign, digits within 64 bits;
  what follows is ignored.\<close>

definition sscanf_d :: "string \<Rightarrow> int option" where
  "sscanf_d s =
     (let rest = trim_left s;
          blanks = take (length s - length rest) s;
          (sign, body) = (case rest of
              c # r \<Rightarrow> (if c = CHR ''+'' \<or> c = CHR ''-'' then ([c], r) else ([], rest)) | [] \<Rightarrow> ([], []))
      in if CHR 0x0A \<in> set blanks then None
         else parse_int64 (sign @ takeWhile is_digit body))"

definition asInt :: "Value \<Rightarrow> i64" where
  "asInt v =
     (if VType v = VTDouble then f_to_i64 (VFlt v)
      else if VType v = VTString then
        (case sscanf_d (VStr v) of Some n \<Rightarrow> word_of_int n | None \<Rightarrow> 0)
      else VNum v)"

section \<open>Operators\<close>

definition isNull :: "Value \<Rightarrow> bool" where "isNull v \<longleftrightarrow> VType v = VTNull"

definition isEmpty :: "Value \<Rightarrow> bool" where "isEmpty v \<longleftrightarrow> VType v = VTEmpty"

definition isString :: "Value \<Rightarrow> bool" where "isString v \<longleftrightarrow> VType v = VTString"

definition isNumericLike :: "Value \<Rightarrow> bool" where
  "isNumericLike v \<longleftrightarrow> VType v \<in> {VTBool, VTInteger, VTDouble, VTDate}"

lemmas is_type_defs = isNull_def isEmpty_def isString_def isNumericLike_def

definition type_mismatch :: "Value \<times> raised" where
  "type_mismatch = (NewEmpty, raise_error TypeMismatch ''Type mismatch'')"

definition has_point :: "Value \<Rightarrow> bool" where
  "has_point v \<longleftrightarrow> isString v \<and> CHR ''.'' \<in> set (trim_space (VStr v))"

definition addValues :: "host \<Rightarrow> Value \<Rightarrow> Value \<Rightarrow> Value \<times> raised" where
  "addValues h a0 b0 =
     (let a = resolveCallable h a0; b = resolveCallable h b0;
          isStringANumericB = (isString a \<and> (VType b = VTInteger \<or> VType b = VTDouble));
          isStringBNumericA = (isString b \<and> (VType a = VTInteger \<or> VType a = VTDouble));
          bothNumeric = ((isNumericLike a \<or> isEmpty a) \<and> (isNumericLike b \<or> isEmpty b))
      in if isNull a \<or> isNull b then (NewNull, None)
         else if isString a \<and> isString b then (NewString (VStr a @ VStr b), None)
         else if (isEmpty a \<and> isString b) \<or> (isString a \<and> isEmpty b)
           then (NewString (valueToString h a @ valueToString h b), None)
         else if isStringANumericB \<or> isStringBNumericA \<or> bothNumeric then
           (case (coerceFloatStrict h a, coerceFloatStrict h b) of
              (Some left, Some right) \<Rightarrow>
                (if VType a = VTDouble \<or> VType b = VTDouble \<or> has_point a \<or> has_point b
                 then (NewDouble (f_add left right), None)
                 else (NewInteger (f_to_i64 (f_add left right)), None))
            | _ \<Rightarrow> type_mismatch)
         else if isString a \<or> isString b then type_mismatch
         else if VType a = VTDouble \<or> VType b = VTDouble
           then (NewDouble (f_add (coerceFloat h a) (coerceFloat h b)), None)
         else (NewInteger (coerceInt64 h a + coerceInt64 h b), None))"

definition subtractValues :: "host \<Rightarrow> Value \<Rightarrow> Value \<Rightarrow> Value" where
  "subtractValues h a b =
     (if isNull a \<or> isNull b then NewNull
      else if VType a = VTDouble \<or> VType b = VTDouble then NewDouble (f_sub (coerceFloat h a) (coerceFloat h b))
      else NewInteger (coerceInt64 h a - coerceInt64 h b))"

definition multiplyValues :: "host \<Rightarrow> Value \<Rightarrow> Value \<Rightarrow> Value" where
  "multiplyValues h a b =
     (if isNull a \<or> isNull b then NewNull
      else if VType a = VTDouble \<or> VType b = VTDouble then NewDouble (f_mul (coerceFloat h a) (coerceFloat h b))
      else NewInteger (coerceInt64 h a * coerceInt64 h b))"

definition division_by_zero :: "Value \<times> raised" where
  "division_by_zero = (NewEmpty, raise_error DivisionByZero ''Division by zero'')"

definition divideValues :: "host \<Rightarrow> Value \<Rightarrow> Value \<Rightarrow> Value \<times> raised" where
  "divideValues h a b =
     (if isNull a \<or> isNull b then (NewNull, None)
      else let divisor = coerceFloat h b
           in if f_eq divisor f_zero then division_by_zero
              else (NewDouble (f_div (coerceFloat h a) divisor), None))"

definition intDivideValues :: "host \<Rightarrow> Value \<Rightarrow> Value \<Rightarrow> Value \<times> raised" where
  "intDivideValues h a b =
     (if isNull a \<or> isNull b then (NewNull, None)
      else let divisor = coerceInt64 h b
           in if divisor = 0 then division_by_zero
              else (NewInteger (i64_quot (coerceInt64 h a) divisor), None))"

definition modValues :: "host \<Rightarrow> Value \<Rightarrow> Value \<Rightarrow> Value \<times> raised" where
  "modValues h a b =
     (if isNull a \<or> isNull b then (NewNull, None)
      else let divisor = coerceInt64 h b
           in if divisor = 0 then division_by_zero
              else (NewInteger (i64_rem (coerceInt64 h a) divisor), None))"

definition powValues :: "host \<Rightarrow> Value \<Rightarrow> Value \<Rightarrow> Value" where
  "powValues h a b =
     (if isNull a \<or> isNull b then NewNull
      else NewDouble (h_pow h (coerceFloat h a) (coerceFloat h b)))"

text \<open>Comparison: the two rewritings of a native operand, then the order itself. Go compares
  strings by bytes.\<close>

fun string_less :: "string \<Rightarrow> string \<Rightarrow> bool" where
  "string_less [] [] = False"
| "string_less [] (_ # _) = True"
| "string_less (_ # _) [] = False"
| "string_less (a # s) (b # t) = (code a < code b \<or> (code a = code b \<and> string_less s t))"

definition compare_operand :: "host \<Rightarrow> Value \<Rightarrow> Value" where
  "compare_operand h v0 =
     (let v = (if VType v0 = VTNativeObject \<and> VNum v0 = nativeObjectErr then h_err_property h ''Number'' else v0)
      in if VType v = VTNativeObject then
           (case h_request_collection h (VNum v) of Some (_, joined) \<Rightarrow> NewString joined | None \<Rightarrow> v)
         else v)"

definition object_like :: "Value \<Rightarrow> bool" where
  "object_like v \<longleftrightarrow> VType v \<in> {VTNativeObject, VTObject, VTBuiltin}"

definition compareValues :: "host \<Rightarrow> Value \<Rightarrow> Value \<Rightarrow> int" where
  "compareValues h a0 b0 =
     (let a = compare_operand h a0; b = compare_operand h b0
      in if object_like a \<or> object_like b then
           (if sint (VNum a) < sint (VNum b) then -1 else if sint (VNum b) < sint (VNum a) then 1 else 0)
         else if isString a \<or> isString b then
           (let left = valueToString h a; right = valueToString h b
            in if h_text_compare h then h_collate h left right
               else if string_less left right then -1 else if string_less right left then 1 else 0)
         else (let left = coerceFloat h a; right = coerceFloat h b
               in if f_lt left right then -1 else if f_lt right left then 1 else 0))"

definition logicalAnd :: "host \<Rightarrow> Value \<Rightarrow> Value \<Rightarrow> Value" where
  "logicalAnd h a b =
     (if isNull a \<or> isNull b then
        (if (\<not> isNull a \<and> \<not> asBool a) \<or> (\<not> isNull b \<and> \<not> asBool b) then NewBool False else NewNull)
      else if VType a = VTBool \<and> VType b = VTBool then NewBool (asBool a \<and> asBool b)
      else NewInteger (coerceInt64 h a AND coerceInt64 h b))"

definition logicalOr :: "host \<Rightarrow> Value \<Rightarrow> Value \<Rightarrow> Value" where
  "logicalOr h a b =
     (if isNull a \<or> isNull b then
        (if (\<not> isNull a \<and> asBool a) \<or> (\<not> isNull b \<and> asBool b) then NewBool True else NewNull)
      else if VType a = VTBool \<and> VType b = VTBool then NewBool (asBool a \<or> asBool b)
      else NewInteger (coerceInt64 h a OR coerceInt64 h b))"

definition logicalXor :: "host \<Rightarrow> Value \<Rightarrow> Value \<Rightarrow> Value" where
  "logicalXor h a b =
     (if isNull a \<or> isNull b then NewNull
      else if VType a = VTBool \<and> VType b = VTBool then NewBool (asBool a \<noteq> asBool b)
      else NewInteger (coerceInt64 h a XOR coerceInt64 h b))"

definition logicalEqv :: "host \<Rightarrow> Value \<Rightarrow> Value \<Rightarrow> Value" where
  "logicalEqv h a b =
     (if isNull a \<or> isNull b then NewNull
      else if VType a = VTBool \<and> VType b = VTBool then NewBool (asBool a = asBool b)
      else NewInteger (NOT (coerceInt64 h a XOR coerceInt64 h b)))"

definition logicalImp :: "host \<Rightarrow> Value \<Rightarrow> Value \<Rightarrow> Value" where
  "logicalImp h a b =
     (if isNull a \<or> isNull b then
        (if \<not> isNull a \<and> \<not> asBool a then NewBool True
         else if \<not> isNull b \<and> asBool b then NewBool True
         else NewNull)
      else if VType a = VTBool \<and> VType b = VTBool then NewBool (\<not> asBool a \<or> asBool b)
      else NewInteger (NOT (coerceInt64 h a) OR coerceInt64 h b))"

definition concatValues :: "host \<Rightarrow> Value \<Rightarrow> Value \<Rightarrow> Value" where
  "concatValues h a0 b0 =
     (let a = (if isNull a0 then NewString [] else a0);
          b = (if isNull b0 then NewString [] else b0)
      in if isString a \<and> isString b then NewString (VStr a @ VStr b)
         else NewString (valueToString h a @ valueToString h b))"

section \<open>Declared types\<close>

definition zeroValueForType :: "ValueType \<Rightarrow> Value" where
  "zeroValueForType t = (case t of
      VTInteger \<Rightarrow> NewInteger 0
    | VTDouble \<Rightarrow> NewDouble f_zero
    | VTString \<Rightarrow> NewString []
    | VTBool \<Rightarrow> typed VTBool
    | VTObject \<Rightarrow> typed VTNothing
    | VTRecord \<Rightarrow> typed VTRecord
    | _ \<Rightarrow> typed VTEmpty)"

definition parseInt64 :: "string \<Rightarrow> int option" where
  "parseInt64 s0 = (let s = trim_space s0 in if s = [] then None else parse_int64 s)"

definition parseFloat64 :: "string \<Rightarrow> f64 option" where
  "parseFloat64 s0 = (let s = trim_space s0 in if s = [] then None else parse_float s)"

text \<open>\<open>None\<close> is the type-mismatch error. \<open>clone\<close> is \<open>cloneValue\<close>, which copies a record.\<close>

definition coerceToDeclaredType :: "host \<Rightarrow> (Value \<Rightarrow> Value) \<Rightarrow> Value \<Rightarrow> ValueType \<Rightarrow> Value option" where
  "coerceToDeclaredType h clone v t =
     (if VType v = VTEmpty \<or> VType v = VTNull then Some (zeroValueForType t)
      else if t = VTRecord then (if VType v = VTRecord then Some (clone v) else None)
      else case t of
        VTInteger \<Rightarrow> (case VType v of
            VTInteger \<Rightarrow> Some v
          | VTDouble \<Rightarrow> Some (NewInteger (f_to_i64 (VFlt v)))
          | VTBool \<Rightarrow> Some (NewInteger (VNum v))
          | VTString \<Rightarrow> map_option (\<lambda>n. NewInteger (word_of_int n)) (parseInt64 (VStr v))
          | _ \<Rightarrow> None)
      | VTDouble \<Rightarrow> (case VType v of
            VTDouble \<Rightarrow> Some v
          | VTInteger \<Rightarrow> Some (NewDouble (f_of_i64 (VNum v)))
          | VTBool \<Rightarrow> Some (NewDouble (f_of_i64 (VNum v)))
          | VTString \<Rightarrow> map_option NewDouble (parseFloat64 (VStr v))
          | _ \<Rightarrow> None)
      | VTString \<Rightarrow> (if VType v = VTString then Some v
                    else if VType v \<in> {VTInteger, VTDouble, VTBool}
                    then Some (NewString (Value_String (h_local_date h) v)) else None)
      | VTBool \<Rightarrow> (case VType v of
            VTBool \<Rightarrow> Some v
          | VTInteger \<Rightarrow> Some ((typed VTBool)\<lparr>VNum := VNum v\<rparr>)
          | VTDouble \<Rightarrow> Some (NewBool (\<not> f_eq (VFlt v) f_zero))
          | VTString \<Rightarrow>
              (let low = to_lower (h_unicode_lower h) (trim_space (VStr v))
               in if low = ''true'' then Some (NewBool True)
                  else if low = ''false'' then Some (NewBool False) else None)
          | _ \<Rightarrow> None)
      | VTObject \<Rightarrow> (if VType v \<in> {VTObject, VTNativeObject, VTNothing} then Some v else None)
      | _ \<Rightarrow> Some v)"

section \<open>The binary instructions\<close>

definition coll_equal :: "host \<Rightarrow> string \<Rightarrow> string \<Rightarrow> bool" where
  "coll_equal h s t \<longleftrightarrow> h_collate h s t = 0"

definition values_equal :: "host \<Rightarrow> Value \<Rightarrow> Value \<Rightarrow> bool" where
  "values_equal h a b \<longleftrightarrow>
     (if h_text_compare h
      then coll_equal h (Value_String (h_local_date h) a) (Value_String (h_local_date h) b)
      else compareValues h a b = 0)"

definition null_or :: "Value \<Rightarrow> Value \<Rightarrow> bool \<Rightarrow> Value \<times> raised" where
  "null_or a b r = (if isNull a \<or> isNull b then NewNull else NewBool r, None)"

definition is_nothing :: "Value \<Rightarrow> bool" where
  "is_nothing v \<longleftrightarrow> VType v = VTNothing \<or> (VType v = VTEmpty \<and> VInterface v = ''static'')
     \<or> ((VType v = VTObject \<or> VType v = VTNativeObject) \<and> VNum v = 0)"

definition same_reference :: "Value \<Rightarrow> Value \<Rightarrow> bool" where
  "same_reference a b \<longleftrightarrow>
     (if is_nothing a \<and> is_nothing b then True
      else if is_nothing a \<or> is_nothing b then False
      else VType a = VType b \<and> VNum a = VNum b)"

definition compare_refs :: "Value \<Rightarrow> Value \<Rightarrow> bool \<Rightarrow> Value \<times> raised" where
  "compare_refs a b positive =
     (if \<not> IsObjectReferenceValue a \<or> \<not> IsObjectReferenceValue b
      then (NewEmpty, raise_error TypeMismatch (error_String TypeMismatch))
      else (NewBool (same_reference a b = positive), None))"

definition right_shift :: "host \<Rightarrow> Value \<Rightarrow> Value \<Rightarrow> Value" where
  "right_shift h a b =
     (let right = coerceInt64 h (resolveCallable h b); left = coerceInt64 h (resolveCallable h a)
      in if sint right \<le> 0 then NewInteger left
         else if 63 \<le> sint right then NewInteger (if sint left < 0 then -1 else 0)
         else NewInteger (signed_drop_bit (unat right) left))"

text \<open>The instructions of the form \<open>stack[sp-1] = f(stack[sp-1], stack[sp]); sp--\<close>; \<open>None\<close> for any
  other opcode.\<close>

definition binary_op :: "host \<Rightarrow> OpCode \<Rightarrow> Value \<Rightarrow> Value \<Rightarrow> (Value \<times> raised) option" where
  "binary_op h op a b =
     (if op = OpAdd then Some (addValues h a b)
      else if op = OpSub then Some (subtractValues h a b, None)
      else if op = OpMul then Some (multiplyValues h a b, None)
      else if op = OpDiv then Some (divideValues h a b)
      else if op = OpMod then Some (modValues h a b)
      else if op = OpPow then Some (powValues h a b, None)
      else if op = OpIAdd then Some (NewInteger (coerceInt64 h a + coerceInt64 h b), None)
      else if op = OpISub then Some (NewInteger (coerceInt64 h a - coerceInt64 h b), None)
      else if op = OpIMul then Some (NewInteger (coerceInt64 h a * coerceInt64 h b), None)
      else if op = OpIDiv then Some (intDivideValues h a b)
      else if op = OpIRightShift then Some (right_shift h a b, None)
      else if op = OpEq then Some (null_or a b (values_equal h a b))
      else if op = OpNeq then Some (null_or a b (\<not> values_equal h a b))
      else if op = OpLt then Some (null_or a b (compareValues h a b < 0))
      else if op = OpGt then Some (null_or a b (0 < compareValues h a b))
      else if op = OpLte then Some (null_or a b (compareValues h a b \<le> 0))
      else if op = OpGte then Some (null_or a b (0 \<le> compareValues h a b))
      else if op = OpIsRef then Some (compare_refs a b True)
      else if op = OpIsNotRef then Some (compare_refs a b False)
      else if op = OpAnd then Some (logicalAnd h a b, None)
      else if op = OpOr then Some (logicalOr h a b, None)
      else if op = OpXor then Some (logicalXor h a b, None)
      else if op = OpEqv then Some (logicalEqv h a b, None)
      else if op = OpImp then Some (logicalImp h a b, None)
      else if op = OpConcat then Some (concatValues h a b, None)
      else None)"

lemma binary_op_simps [simp]:
  "binary_op h OpAdd a b = Some (addValues h a b)"
  "binary_op h OpSub a b = Some (subtractValues h a b, None)"
  "binary_op h OpMul a b = Some (multiplyValues h a b, None)"
  "binary_op h OpDiv a b = Some (divideValues h a b)"
  "binary_op h OpMod a b = Some (modValues h a b)"
  "binary_op h OpIAdd a b = Some (NewInteger (coerceInt64 h a + coerceInt64 h b), None)"
  "binary_op h OpISub a b = Some (NewInteger (coerceInt64 h a - coerceInt64 h b), None)"
  "binary_op h OpIMul a b = Some (NewInteger (coerceInt64 h a * coerceInt64 h b), None)"
  "binary_op h OpIDiv a b = Some (intDivideValues h a b)"
  "binary_op h OpIRightShift a b = Some (right_shift h a b, None)"
  "binary_op h OpEq a b = Some (null_or a b (values_equal h a b))"
  "binary_op h OpNeq a b = Some (null_or a b (\<not> values_equal h a b))"
  "binary_op h OpLt a b = Some (null_or a b (compareValues h a b < 0))"
  "binary_op h OpGt a b = Some (null_or a b (0 < compareValues h a b))"
  "binary_op h OpIsRef a b = Some (compare_refs a b True)"
  "binary_op h OpConcat a b = Some (concatValues h a b, None)"
  by (simp_all add: binary_op_def op_defs)

text \<open>The text of \<open>coerceToDeclaredType\<close>'s error.\<close>

definition quoted_error :: "Value \<Rightarrow> string \<Rightarrow> string" where
  "quoted_error v target = ''Type mismatch: cannot convert ''
     @ (if VType v = VTString then [CHR 0x27] @ VStr v @ [CHR 0x27] @ '' '' else []) @ ''to '' @ target"

definition coerce_error :: "Value \<Rightarrow> ValueType \<Rightarrow> string" where
  "coerce_error v t = (case t of
      VTRecord \<Rightarrow> ''Type mismatch: expected Record''
    | VTInteger \<Rightarrow> quoted_error v ''Integer''
    | VTDouble \<Rightarrow> quoted_error v ''Double''
    | VTString \<Rightarrow> ''Type mismatch: cannot convert to String''
    | VTBool \<Rightarrow> quoted_error v ''Boolean''
    | _ \<Rightarrow> ''Type mismatch: cannot convert to Object'')"

end
