(* ===== verification/Fold.thy ===== *)
theory Fold
  imports ValueOps
begin

text \<open>
  Compile-time evaluation of constant operands (\<open>foldVBSBinaryOp\<close> and its helpers in
  \<open>axonvm/compiler_optimizer.go\<close>) and its agreement with the run-time operators.
  The result \<open>None\<close> is Go's \<open>(Value{}, false)\<close>.
\<close>

section \<open>The folding functions\<close>

definition vbsConstantToString :: "Value \<Rightarrow> string option" where
  "vbsConstantToString v = (case VType v of
      VTString \<Rightarrow> Some (VStr v)
    | VTInteger \<Rightarrow> Some (format_int (sint (VNum v)))
    | VTDouble \<Rightarrow> Some (format_g (VFlt v))
    | _ \<Rightarrow> None)"

definition vbsConstantToFloat :: "Value \<Rightarrow> f64 option" where
  "vbsConstantToFloat v = (case VType v of
      VTInteger \<Rightarrow> Some (f_of_i64 (VNum v))
    | VTDouble \<Rightarrow> Some (VFlt v)
    | _ \<Rightarrow> None)"

definition foldVBSNumericOp ::
    "Value \<Rightarrow> Value \<Rightarrow> (i64 \<Rightarrow> i64 \<Rightarrow> i64) \<Rightarrow> (f64 \<Rightarrow> f64 \<Rightarrow> f64) \<Rightarrow> Value option" where
  "foldVBSNumericOp a b intOp fltOp =
     (if VType a = VTInteger \<and> VType b = VTInteger then Some (NewInteger (intOp (VNum a) (VNum b)))
      else if VType a = VTDouble \<and> VType b = VTDouble then Some (NewDouble (fltOp (VFlt a) (VFlt b)))
      else if VType a = VTInteger \<and> VType b = VTDouble then Some (NewDouble (fltOp (f_of_i64 (VNum a)) (VFlt b)))
      else if VType a = VTDouble \<and> VType b = VTInteger then Some (NewDouble (fltOp (VFlt a) (f_of_i64 (VNum b))))
      else None)"

definition isFoldableVBSBinaryOp :: "OpCode \<Rightarrow> bool" where
  "isFoldableVBSBinaryOp op \<longleftrightarrow> op \<in> {OpAdd, OpSub, OpMul, OpDiv, OpIDiv, OpMod, OpConcat}"

definition fold_mod :: "Value \<Rightarrow> Value \<Rightarrow> Value option" where
  "fold_mod a b =
     (if VType a = VTInteger \<and> VType b = VTInteger \<and> 0 < sint (VNum b) \<and> 0 \<le> sint (VNum a)
      then Some (NewInteger (i64_rem (VNum a) (VNum b)))
      else case (vbsConstantToFloat a, vbsConstantToFloat b) of
             (Some fa, Some fb) \<Rightarrow>
               (let d = f_to_i64 (f_round_even fb)
                in if d \<noteq> 0 then Some (NewInteger (i64_rem (f_to_i64 (f_round_even fa)) d)) else None)
           | _ \<Rightarrow> None)"

definition foldVBSBinaryOp :: "Value \<Rightarrow> Value \<Rightarrow> OpCode \<Rightarrow> Value option" where
  "foldVBSBinaryOp a b op =
     (if op = OpConcat then
        (case (vbsConstantToString a, vbsConstantToString b) of
           (Some sa, Some sb) \<Rightarrow> Some (NewString (sa @ sb)) | _ \<Rightarrow> None)
      else if op = OpAdd then foldVBSNumericOp a b (+) f_add
      else if op = OpSub then foldVBSNumericOp a b (-) f_sub
      else if op = OpMul then foldVBSNumericOp a b (*) f_mul
      else if op = OpDiv then
        (case (vbsConstantToFloat a, vbsConstantToFloat b) of
           (Some fa, Some fb) \<Rightarrow> (if \<not> f_eq fb f_zero then Some (NewDouble (f_div fa fb)) else None)
         | _ \<Rightarrow> None)
      else if op = OpIDiv then
        (if VType a = VTInteger \<and> VType b = VTInteger \<and> VNum b \<noteq> 0
         then Some (NewInteger (i64_quot (VNum a) (VNum b))) else None)
      else if op = OpMod then fold_mod a b
      else None)"

section \<open>Folding agrees with execution\<close>

text \<open>Constants on which the two agree. Run-time addition and the mixed \<open>Mod\<close> go through a
  double, so their integers have to be exact there; the compile-time string of a double is not the
  run-time one for zero, infinities and NaN.\<close>

definition exact_int :: "Value \<Rightarrow> bool" where
  "exact_int v \<longleftrightarrow> (VType v = VTInteger \<longrightarrow> \<bar>sint (VNum v)\<bar> \<le> 2 ^ 52)"

definition prints_alike :: "Value \<Rightarrow> bool" where
  "prints_alike v \<longleftrightarrow> (VType v = VTDouble \<longrightarrow>
      (case VFlt v of FFin s m e \<Rightarrow> m \<noteq> 0 | _ \<Rightarrow> False))"

definition fold_safe :: "OpCode \<Rightarrow> Value \<Rightarrow> Value \<Rightarrow> bool" where
  "fold_safe op a b \<longleftrightarrow>
     (if op = OpConcat then prints_alike a \<and> prints_alike b
      else if op = OpAdd \<or> op = OpMod then exact_int a \<and> exact_int b
      else True)"

lemma const_types:
  "vbsConstantToFloat v = Some x \<Longrightarrow> VType v = VTInteger \<or> VType v = VTDouble"
  "vbsConstantToString v = Some s \<Longrightarrow> VType v = VTInteger \<or> VType v = VTDouble \<or> VType v = VTString"
  by (cases "VType v"; simp add: vbsConstantToFloat_def vbsConstantToString_def)+

lemma number_plain: "VType v = VTInteger \<or> VType v = VTDouble \<or> VType v = VTString \<Longrightarrow> is_plain v"
  by (auto simp: is_plain_def)

lemma coerce_number [simp]:
  "VType v = VTInteger \<Longrightarrow> coerceFloat h v = f_of_i64 (VNum v)"
  "VType v = VTDouble \<Longrightarrow> coerceFloat h v = VFlt v"
  "VType v = VTInteger \<Longrightarrow> coerceFloatStrict h v = Some (f_of_i64 (VNum v))"
  "VType v = VTDouble \<Longrightarrow> coerceFloatStrict h v = Some (VFlt v)"
  "VType v = VTInteger \<Longrightarrow> coerceInt64 h v = VNum v"
  "VType v = VTDouble \<Longrightarrow> coerceInt64 h v = f_to_i64 (f_round_even (VFlt v))"
  by (simp_all add: coerceFloat_def coerceFloatStrict_def coerceInt64_def num_types_def number_plain)

lemma coerce_float_const: "vbsConstantToFloat v = Some x \<Longrightarrow> coerceFloat h v = x"
  using const_types(1)[of v x] by (auto simp: vbsConstantToFloat_def)

lemma string_const:
  assumes "vbsConstantToString v = Some s" "prints_alike v"
  shows "valueToString h v = s"
proof -
  have t: "VType v = VTInteger \<or> VType v = VTDouble \<or> VType v = VTString"
    using const_types(2)[OF assms(1)] .
  have "Value_String (h_local_date h) v = s"
    using assms t
    by (auto simp: vbsConstantToString_def Value_String_def prints_alike_def f_is_nan_def f_eq_def
        f_zero_def aligned_def signed_def Let_def split: f64.splits)
  then show ?thesis
    using t number_plain[OF t] by (auto simp: valueToString_def Let_def)
qed

lemma f_round_even_int:
  assumes "\<bar>n\<bar> \<le> 2 ^ 53"
  shows "f_round_even (f_of_int n) = f_of_int n"
proof -
  obtain m e where A: "f_of_int n = FFin (n < 0) m e" "dyad m e (nat \<bar>n\<bar>)"
    using f_of_int_dyad[OF assms] by auto
  show ?thesis
  proof (cases "0 \<le> e")
    case True
    then show ?thesis by (simp add: A)
  next
    case False
    then have "m = nat \<bar>n\<bar> * 2 ^ nat (- e)" using A(2) by (simp add: dyad_def)
    then have "half_even m (2 ^ nat (- e)) = nat \<bar>n\<bar>" by (simp add: half_even_exact)
    then show ?thesis using False A(1) by (simp add: f_of_int_def)
  qed
qed

lemma coerce_int_const:
  assumes "vbsConstantToFloat v = Some x" "exact_int v"
  shows "coerceInt64 h v = f_to_i64 (f_round_even x)"
proof (cases "VType v = VTInteger")
  case True
  then have b: "\<bar>sint (VNum v)\<bar> \<le> 2 ^ 53" using assms(2) by (simp add: exact_int_def)
  have x: "x = f_of_int (sint (VNum v))"
    using assms(1) True by (simp add: vbsConstantToFloat_def f_of_i64_def)
  show ?thesis
    using True f_to_i64_of_int[OF b] by (simp add: x f_round_even_int[OF b])
next
  case False
  then have "VType v = VTDouble" using const_types(1)[OF assms(1)] by simp
  then show ?thesis using assms(1) by (simp add: vbsConstantToFloat_def)
qed

lemma fold_add:
  assumes "foldVBSNumericOp a b (+) f_add = Some r" "exact_int a" "exact_int b"
  shows "addValues h a b = (r, None)"
proof -
  have t: "VType a = VTInteger \<or> VType a = VTDouble" "VType b = VTInteger \<or> VType b = VTDouble"
    using assms(1) by (auto simp: foldVBSNumericOp_def split: if_splits)
  have p: "is_plain a" "is_plain b" using t number_plain by blast+
  show ?thesis
  proof (cases "VType a = VTInteger \<and> VType b = VTInteger")
    case True
    let ?x = "sint (VNum a)" and ?y = "sint (VNum b)"
    have b: "\<bar>?x\<bar> \<le> 2 ^ 52" "\<bar>?y\<bar> \<le> 2 ^ 52" using assms(2,3) True by (simp_all add: exact_int_def)
    have "f_to_i64 (f_add (f_of_int ?x) (f_of_int ?y)) = word_of_int (?x + ?y)"
      using b f_add_int[of ?x ?y] f_to_i64_of_int[of "?x + ?y"] by simp
    then have "f_to_i64 (f_add (f_of_i64 (VNum a)) (f_of_i64 (VNum b))) = VNum a + VNum b"
      by (simp add: f_of_i64_def)
    then show ?thesis
      using True assms(1) p by (auto simp: addValues_def foldVBSNumericOp_def is_type_defs has_point_def)
  next
    case False
    then show ?thesis
      using t assms(1) p
      by (auto simp: addValues_def foldVBSNumericOp_def is_type_defs has_point_def split: if_splits)
  qed
qed

lemma fold_sub_mul:
  "foldVBSNumericOp a b (-) f_sub = Some r \<Longrightarrow> subtractValues h a b = r"
  "foldVBSNumericOp a b (*) f_mul = Some r \<Longrightarrow> multiplyValues h a b = r"
  by (auto simp: foldVBSNumericOp_def subtractValues_def multiplyValues_def isNull_def split: if_splits)

lemma fold_mod_run:
  assumes "fold_mod a b = Some r" "exact_int a" "exact_int b"
  shows "modValues h a b = (r, None)"
proof -
  from assms(1) have n: "\<not> isNull a" "\<not> isNull b"
    using const_types(1)[of a] const_types(1)[of b]
    by (auto simp: fold_mod_def isNull_def split: if_splits option.splits)
  show ?thesis
  proof (cases "VType a = VTInteger \<and> VType b = VTInteger \<and> 0 < sint (VNum b) \<and> 0 \<le> sint (VNum a)")
    case True
    then show ?thesis using assms(1) n by (auto simp: fold_mod_def modValues_def Let_def)
  next
    case False
    then obtain fa fb where f: "vbsConstantToFloat a = Some fa" "vbsConstantToFloat b = Some fb"
      "f_to_i64 (f_round_even fb) \<noteq> 0"
      "r = NewInteger (i64_rem (f_to_i64 (f_round_even fa)) (f_to_i64 (f_round_even fb)))"
      using assms(1) unfolding fold_mod_def by (auto simp: Let_def split: option.splits if_splits)
    show ?thesis
      using f n coerce_int_const[OF f(1) assms(2)] coerce_int_const[OF f(2) assms(3)]
      by (simp add: modValues_def Let_def)
  qed
qed

lemma fold_agrees:
  assumes "foldVBSBinaryOp a b op = Some r" "fold_safe op a b"
  shows "binary_op h op a b = Some (r, None)"
proof -
  have nq: "OpAdd \<noteq> OpConcat" "OpSub \<noteq> OpConcat" "OpMod \<noteq> OpConcat" "OpMod \<noteq> OpAdd" "OpIDiv \<noteq> OpMod"
    by (simp_all add: op_defs)
  consider "op = OpConcat" | "op = OpAdd" | "op = OpSub" | "op = OpMul" | "op = OpDiv" | "op = OpIDiv" | "op = OpMod"
    using assms(1) by (auto simp: foldVBSBinaryOp_def split: if_splits)
  then show ?thesis
  proof cases
    case 1
    then obtain sa sb where s: "vbsConstantToString a = Some sa" "vbsConstantToString b = Some sb"
      "r = NewString (sa @ sb)" "prints_alike a" "prints_alike b"
      using assms by (auto simp: foldVBSBinaryOp_def fold_safe_def split: option.splits)
    have n: "\<not> isNull a" "\<not> isNull b"
      using const_types(2)[OF s(1)] const_types(2)[OF s(2)] by (auto simp: isNull_def)
    have "isString a \<Longrightarrow> VStr a = sa" "isString b \<Longrightarrow> VStr b = sb"
      using s(1,2) by (auto simp: isString_def vbsConstantToString_def)
    then show ?thesis
      using 1 s n string_const[OF s(1,4)] string_const[OF s(2,5)]
      by (auto simp: concatValues_def Let_def)
  next
    case 2
    then show ?thesis
      using assms nq fold_add[of a b r h] by (simp add: foldVBSBinaryOp_def fold_safe_def)
  next
    case 3
    then show ?thesis
      using assms(1) nq fold_sub_mul(1)[of a b r h] by (simp add: foldVBSBinaryOp_def binary_op_def op_defs)
  next
    case 4
    then show ?thesis
      using assms(1) fold_sub_mul(2)[of a b r h] by (simp add: foldVBSBinaryOp_def binary_op_def op_defs)
  next
    case 5
    then obtain fa fb where f: "vbsConstantToFloat a = Some fa" "vbsConstantToFloat b = Some fb"
      "\<not> f_eq fb f_zero" "r = NewDouble (f_div fa fb)"
      using assms(1) by (auto simp: foldVBSBinaryOp_def op_defs split: option.splits if_splits)
    have "\<not> isNull a" "\<not> isNull b"
      using const_types(1)[OF f(1)] const_types(1)[OF f(2)] by (auto simp: isNull_def)
    then show ?thesis
      using 5 f coerce_float_const[OF f(1)] coerce_float_const[OF f(2)] by (simp add: divideValues_def Let_def)
  next
    case 6
    then show ?thesis
      using assms(1) by (auto simp: foldVBSBinaryOp_def op_defs binary_op_def intDivideValues_def isNull_def Let_def split: if_splits)
  next
    case 7
    then show ?thesis
      using assms nq fold_mod_run[of a b r h]
      by (simp add: foldVBSBinaryOp_def fold_safe_def binary_op_def op_defs)
  qed
qed



end
