(* ===== verification/Optimizer.thy ===== *)
theory Optimizer
  imports Bytecode Fold
begin

text \<open>
  The optimizer passes over a compiled program (\<open>axonvm/compiler_optimizer.go\<close>), one step
  definition per loop body and one recursive function per loop, in the order the file has them.
  A pass works on the compiler state and returns it with its \<open>changed\<close> flag; \<open>None\<close> is a Go
  run-time panic (an index or slice expression out of range). Every pass replaces code in place and
  pads with \<open>OpNop\<close>, so the length of the code never changes.
\<close>

section \<open>Compiler state\<close>

record Code =
  c_bytecode :: bytes
  c_constants :: "Value list"
  c_constantMap :: "string \<Rightarrow> nat option"

record Compiler = Code +
  c_globalsCount :: nat

definition addConstant :: "Value \<Rightarrow> 'a Code_scheme \<Rightarrow> nat \<times> 'a Code_scheme" where
  "addConstant v c =
     (let n = length (c_constants c); c' = c\<lparr>c_constants := c_constants c @ [v]\<rparr>
      in if VType v = VTString then
           (case c_constantMap c (VStr v) of
              Some idx \<Rightarrow> (idx, c)
            | None \<Rightarrow> (n, c'\<lparr>c_constantMap := (c_constantMap c)(VStr v \<mapsto> n)\<rparr>))
         else (n, c'))"

text \<open>\<open>for j < len(b) && b[j] == OpNop { j++ }\<close>\<close>

definition skip_nops :: "bytes \<Rightarrow> nat \<Rightarrow> nat" where
  "skip_nops bs j = j + length (takeWhile (\<lambda>b. b = OpNop) (drop j bs))"

lemma skip_nops_ge: "j \<le> skip_nops bs j"
  by (simp add: skip_nops_def)

lemma skip_nops_nop: "j \<le> p \<Longrightarrow> p < skip_nops bs j \<Longrightarrow> p < length bs \<and> bs ! p = OpNop"
proof -
  assume a: "j \<le> p" "p < skip_nops bs j"
  let ?l = "takeWhile (\<lambda>b. b = OpNop) (drop j bs)"
  have l: "p - j < length ?l" using a by (auto simp: skip_nops_def)
  then have "?l ! (p - j) = OpNop" using set_takeWhileD nth_mem by fastforce
  moreover have "?l ! (p - j) = drop j bs ! (p - j)" using l by (rule takeWhile_nth)
  moreover have "p - j < length (drop j bs)" using l length_takeWhile_le order.strict_trans2 by blast
  ultimately show ?thesis using a(1) by simp
qed

lemma skip_nops_stop: "skip_nops bs j < length bs \<Longrightarrow> bs ! skip_nops bs j \<noteq> OpNop"
  using nth_length_takeWhile[of "\<lambda>b. b = OpNop" "drop j bs"] by (auto simp: skip_nops_def)

definition set_bytecode :: "Compiler \<Rightarrow> bytes \<Rightarrow> Compiler" where
  "set_bytecode c bs = c\<lparr>c_bytecode := bs\<rparr>"

definition goes_on :: "'s \<Rightarrow> nat \<Rightarrow> ('s \<times> nat \<times> bool) option" where
  "goes_on s i = Some (s, i, False)"

section \<open>Constant folding\<close>

text \<open>One iteration of \<open>optimizePeepholePass\<close> at \<open>i\<close>. After a fold it stays at \<open>i\<close>.\<close>

definition fold_rewrite :: "Compiler \<Rightarrow> nat \<Rightarrow> nat \<Rightarrow> Value \<Rightarrow> (Compiler \<times> nat \<times> bool) option" where
  "fold_rewrite c i k result =
     (let (newIdx, c') = addConstant result c
      in do { b1 \<leftarrow> put_be16 (c_bytecode c) (i + 1) newIdx;
              b2 \<leftarrow> fill_range b1 (i + 3) (k + 1) OpNop;
              Some (set_bytecode c' b2, i, True) })"

definition fold_step :: "nat list \<Rightarrow> Compiler \<Rightarrow> nat \<Rightarrow> (Compiler \<times> nat \<times> bool) option" where
  "fold_step targets c i =
     (let bs = c_bytecode c; op = bs ! i
      in if op \<noteq> OpConstant then goes_on c (i + 1 + opcodeOperandSize op bs i)
         else let j = skip_nops bs (i + 3)
              in if length bs < j + 3 \<or> bs ! j \<noteq> OpConstant then goes_on c (i + 1)
                 else let k = skip_nops bs (j + 3)
                      in if length bs \<le> k \<or> \<not> isFoldableVBSBinaryOp (bs ! k) then goes_on c (i + 1)
                         else if hasTargetInRange targets (i + 1) k then goes_on c (i + 1)
                         else do { idxA \<leftarrow> be16_at bs (i + 1); idxB \<leftarrow> be16_at bs (j + 1);
                                   if length (c_constants c) \<le> idxA \<or> length (c_constants c) \<le> idxB
                                   then goes_on c (i + 1)
                                   else case foldVBSBinaryOp (c_constants c ! idxA) (c_constants c ! idxB) (bs ! k) of
                                          None \<Rightarrow> goes_on c (i + 1)
                                        | Some result \<Rightarrow> fold_rewrite c i k result })"

section \<open>Comparison followed by a conditional jump\<close>

definition isFusedBranchCandidateOp :: "OpCode \<Rightarrow> bool" where
  "isFusedBranchCandidateOp op \<longleftrightarrow>
     op \<in> {OpEq, OpNeq, OpLt, OpGt, OpIsRef, OpJSLooseEqual, OpJSLooseNotEqual, OpJSStrictEq,
           OpJSStrictNeq, OpJSLess, OpJSGreater}"

definition isFusedBranchJumpOp :: "OpCode \<Rightarrow> bool" where
  "isFusedBranchJumpOp op \<longleftrightarrow> op = OpJumpIfFalse \<or> op = OpJSJumpIfFalse"

definition getFusedBranchOp :: "OpCode \<Rightarrow> OpCode \<Rightarrow> OpCode" where
  "getFusedBranchOp op jumpOp =
     (if jumpOp = OpJumpIfFalse then
        (if op = OpEq then OpJumpIfNotEq
         else if op = OpNeq then OpJumpIfEq
         else if op = OpLt then OpJumpIfNotLt
         else if op = OpGt then OpJumpIfLte
         else if op = OpIsRef then OpJumpIfNotIs
         else OpHalt)
      else if jumpOp = OpJSJumpIfFalse then
        (if op = OpJSLooseEqual then OpJSJumpIfLooseNotEq
         else if op = OpJSLooseNotEqual then OpJSJumpIfLooseEq
         else if op = OpJSStrictEq then OpJSJumpIfStrictNotEq
         else if op = OpJSStrictNeq then OpJSJumpIfStrictEq
         else if op = OpJSLess then OpJSJumpIfNotLess
         else if op = OpJSGreater then OpJSJumpIfLessEqual
         else OpHalt)
      else OpHalt)"

definition fused_branch_step :: "nat list \<Rightarrow> Compiler \<Rightarrow> nat \<Rightarrow> (Compiler \<times> nat \<times> bool) option" where
  "fused_branch_step targets c i =
     (let bs = c_bytecode c; op = bs ! i
      in if \<not> isFusedBranchCandidateOp op then goes_on c (i + 1 + opcodeOperandSize op bs i)
         else let j = skip_nops bs (i + 1)
              in if length bs < j + 5 then goes_on c (i + 1)
                 else if \<not> isFusedBranchJumpOp (bs ! j) then goes_on c (i + 1)
                 else if hasTargetInRange targets (i + 1) j then goes_on c (i + 1)
                 else let fusedOp = getFusedBranchOp op (bs ! j)
                      in if fusedOp = OpHalt then goes_on c (i + 1)
                         else do { target \<leftarrow> be32_at bs (j + 1);
                                   b1 \<leftarrow> put_at bs i fusedOp;
                                   b2 \<leftarrow> put_be32 b1 (i + 1) target;
                                   b3 \<leftarrow> fill_range b2 (i + 5) (j + 5) OpNop;
                                   Some (set_bytecode c b3, j + 5, True) })"

section \<open>Branches that are never taken\<close>

definition isCompileTimeFalseValue :: "Value \<Rightarrow> bool" where
  "isCompileTimeFalseValue v = (case VType v of
      VTBool \<Rightarrow> VNum v = 0
    | VTInteger \<Rightarrow> VNum v = 0
    | VTDouble \<Rightarrow> f_eq (VFlt v) f_zero
    | VTEmpty \<Rightarrow> True
    | VTNull \<Rightarrow> True
    | VTJSUndefined \<Rightarrow> True
    | VTString \<Rightarrow> VStr v = []
    | VTObject \<Rightarrow> VNum v = 0
    | _ \<Rightarrow> False)"

text \<open>The state carries \<open>prevInstrStart\<close>; \<open>None\<close> is -1. \<open>break\<close> moves to the end.\<close>

definition dead_branch_step ::
    "nat list \<Rightarrow> Compiler \<times> nat option \<Rightarrow> nat \<Rightarrow> ((Compiler \<times> nat option) \<times> nat \<times> bool) option" where
  "dead_branch_step targets s ip =
     (let (c, prev) = s; bs = c_bytecode c; op = bs ! ip; instrEnd = ip + 1 + opcodeOperandSize op bs ip
      in if length bs < instrEnd then goes_on s (length bs)
         else if op \<noteq> OpJumpIfFalse then goes_on (c, if op \<noteq> OpNop then Some ip else prev) instrEnd
         else do { target \<leftarrow> be32_at bs (ip + 1);
                   let skip = goes_on (c, Some ip) instrEnd in
                   if target \<le> instrEnd \<or> length bs < target then skip
                   else case prev of
                     None \<Rightarrow> skip
                   | Some condStart \<Rightarrow>
                     (if bs ! condStart \<noteq> OpConstant \<or> length bs < condStart + 3 then skip
                      else do { constIdx \<leftarrow> be16_at bs (condStart + 1);
                                if length (c_constants c) \<le> constIdx then skip
                                else if \<not> isCompileTimeFalseValue (c_constants c ! constIdx) then skip
                                else if hasTargetInRange targets instrEnd (target - 1) then skip
                                else do { b1 \<leftarrow> fill_range bs instrEnd target OpNop;
                                          Some ((set_bytecode c b1, Some ip), target, b1 \<noteq> bs) } }) })"

section \<open>Load followed by a conditional jump\<close>

definition load_branch_op :: "OpCode \<Rightarrow> OpCode \<Rightarrow> ExtOpCode option" where
  "load_branch_op op jumpOp =
     (if op = OpGetLocal \<and> jumpOp = OpJumpIfFalse then Some ExtOpJumpLocalIfFalse
      else if op = OpGetGlobal \<and> jumpOp = OpJumpIfFalse then Some ExtOpJumpGlobalIfFalse
      else if op = OpJSGetName \<and> jumpOp = OpJSJumpIfFalse then Some ExtOpJSJumpNameIfFalse
      else None)"

definition load_branch_rewrite :: "Compiler \<Rightarrow> nat \<Rightarrow> nat \<Rightarrow> ExtOpCode \<Rightarrow> (Compiler \<times> nat \<times> bool) option" where
  "load_branch_rewrite c i j fusedOp =
     (let bs = c_bytecode c
      in do { idx \<leftarrow> be16_at bs (i + 1);
              target \<leftarrow> be32_at bs (j + 1);
              b1 \<leftarrow> put_at bs i OpExtPrefix;
              b2 \<leftarrow> put_at b1 (i + 1) fusedOp;
              b3 \<leftarrow> put_be16 b2 (i + 2) idx;
              b4 \<leftarrow> put_be32 b3 (i + 4) target;
              b5 \<leftarrow> fill_range b4 (i + 8) (j + 5) OpNop;
              Some (set_bytecode c b5, j + 5, True) })"

definition load_branch_step :: "nat list \<Rightarrow> Compiler \<Rightarrow> nat \<Rightarrow> (Compiler \<times> nat \<times> bool) option" where
  "load_branch_step targets c i =
     (let bs = c_bytecode c; op = bs ! i
      in if op \<noteq> OpGetLocal \<and> op \<noteq> OpGetGlobal \<and> op \<noteq> OpJSGetName
         then goes_on c (i + 1 + opcodeOperandSize op bs i)
         else let j = skip_nops bs (i + 3)
              in if length bs < j + 5 then goes_on c (i + 3)
                 else if bs ! j \<noteq> OpJumpIfFalse \<and> bs ! j \<noteq> OpJSJumpIfFalse then goes_on c (i + 3)
                 else if hasTargetInRange targets (i + 1) j then goes_on c (i + 3)
                 else (case load_branch_op op (bs ! j) of
                         None \<Rightarrow> goes_on c (i + 3)
                       | Some fusedOp \<Rightarrow> load_branch_rewrite c i j fusedOp))"

section \<open>Load, constant, operator, store\<close>

text \<open>The store reads back the slot that was loaded, in the same frame or global table.\<close>

definition same_slot :: "OpCode \<Rightarrow> OpCode \<Rightarrow> bool" where
  "same_slot op storeOp \<longleftrightarrow>
     \<not> ((op = OpGetLocal \<and> (storeOp = OpSetGlobal \<or> storeOp = OpLetGlobal))
      \<or> (op = OpGetGlobal \<and> (storeOp = OpSetLocal \<or> storeOp = OpLetLocal)))"

definition in_place_op :: "OpCode \<Rightarrow> OpCode \<Rightarrow> ExtOpCode option" where
  "in_place_op op binOp =
     (if op = OpGetLocal \<and> binOp = OpAdd then Some ExtOpAddLocalConst
      else if op = OpGetGlobal \<and> binOp = OpSub then Some ExtOpSubGlobalConst
      else if op = OpGetLocal \<and> binOp = OpConcat then Some ExtOpConcatLocalConst
      else None)"

definition in_place_rewrite ::
    "Compiler \<Rightarrow> nat \<Rightarrow> nat \<Rightarrow> ExtOpCode \<Rightarrow> nat \<Rightarrow> nat \<Rightarrow> (Compiler \<times> nat \<times> bool) option" where
  "in_place_rewrite c i l fusedOp idx constIdx =
     do { b1 \<leftarrow> put_at (c_bytecode c) i OpExtPrefix;
          b2 \<leftarrow> put_at b1 (i + 1) fusedOp;
          b3 \<leftarrow> put_be16 b2 (i + 2) idx;
          b4 \<leftarrow> put_be16 b3 (i + 4) constIdx;
          b5 \<leftarrow> fill_range b4 (i + 6) (l + 3) OpNop;
          Some (set_bytecode c b5, l + 3, True) }"

text \<open>The tests on the window that starts at \<open>i\<close>, a load of slot \<open>idx\<close>: the fused opcode, the
  position of the store and the constant's index, or \<open>None\<close> where the loop goes on.\<close>

definition in_place_match ::
    "nat list \<Rightarrow> bytes \<Rightarrow> nat \<Rightarrow> nat \<Rightarrow> (ExtOpCode \<times> nat \<times> nat) option" where
  "in_place_match targets bs i idx =
     (let op = bs ! i; j = skip_nops bs (i + 3); k = skip_nops bs (j + 3); l = skip_nops bs (k + 1)
      in if length bs < j + 3 \<or> bs ! j \<noteq> OpConstant then None
         else if length bs < k + 1 then None
         else if bs ! k \<noteq> OpAdd \<and> bs ! k \<noteq> OpSub \<and> bs ! k \<noteq> OpConcat then None
         else if length bs < l + 3 then None
         else if bs ! l \<notin> {OpSetLocal, OpSetGlobal, OpLetLocal, OpLetGlobal} then None
         else if be16_at bs (l + 1) \<noteq> Some idx \<or> \<not> same_slot op (bs ! l) then None
         else if hasTargetInRange targets (i + 1) l then None
         else (case (in_place_op op (bs ! k), be16_at bs (j + 1)) of
                 (Some fusedOp, Some constIdx) \<Rightarrow> Some (fusedOp, l, constIdx)
               | _ \<Rightarrow> None))"

definition in_place_step :: "nat list \<Rightarrow> Compiler \<Rightarrow> nat \<Rightarrow> (Compiler \<times> nat \<times> bool) option" where
  "in_place_step targets c i =
     (let bs = c_bytecode c; op = bs ! i
      in if op \<noteq> OpGetLocal \<and> op \<noteq> OpGetGlobal then goes_on c (i + 1 + opcodeOperandSize op bs i)
         else do { idx \<leftarrow> be16_at bs (i + 1);
                   case in_place_match targets bs i idx of
                     None \<Rightarrow> goes_on c (i + 3)
                   | Some (fusedOp, l, constIdx) \<Rightarrow> in_place_rewrite c i l fusedOp idx constIdx })"

section \<open>Runs of constants\<close>

text \<open>The inner loop: collects up to four constant loads from \<open>pos\<close> on; the result lists
  (position, constant index). \<open>last\<close> is \<open>lastValidPos\<close> once a load was found.\<close>

function gather_constants :: "nat list \<Rightarrow> bytes \<Rightarrow> nat \<Rightarrow> (nat \<times> nat) list \<Rightarrow> (nat \<times> nat) list" where
  "gather_constants targets bs pos acc =
     (if length bs \<le> pos then acc
      else if bs ! pos = OpNop then gather_constants targets bs (pos + 1) acc
      else if bs ! pos \<noteq> OpConstant then acc
      else (case be16_at bs (pos + 1) of
              None \<Rightarrow> acc
            | Some idx \<Rightarrow>
              (if acc \<noteq> [] \<and> hasTargetInRange targets (fst (last acc) + 1) pos then acc
               else if length acc + 1 = 4 then acc @ [(pos, idx)]
               else gather_constants targets bs (pos + 3) (acc @ [(pos, idx)]))))"
  by pat_completeness auto
termination
  by (relation "measure (\<lambda>(t, bs, pos, acc). length bs - pos)") auto

declare gather_constants.simps [simp del]

fun put_indices :: "bytes \<Rightarrow> nat \<Rightarrow> nat list \<Rightarrow> bytes option" where
  "put_indices bs p [] = Some bs"
| "put_indices bs p (x # xs) = do { b \<leftarrow> put_be16 bs p x; put_indices b (p + 2) xs }"

definition pool_op :: "nat \<Rightarrow> ExtOpCode" where
  "pool_op n = (if n = 4 then ExtOpConstant4 else if n = 3 then ExtOpConstant3 else ExtOpConstant2)"

definition pool_step :: "nat list \<Rightarrow> Compiler \<Rightarrow> nat \<Rightarrow> (Compiler \<times> nat \<times> bool) option" where
  "pool_step targets c i =
     (let bs = c_bytecode c
      in if bs ! i \<noteq> OpConstant then goes_on c (i + 1 + opcodeOperandSize (bs ! i) bs i)
         else let found = gather_constants targets bs i []
              in if length found < 2 then goes_on c (i + 3)
                 else let firstPos = fst (hd found); lastPos = fst (last found); n = length found
                      in do { b1 \<leftarrow> put_at bs firstPos OpExtPrefix;
                              b2 \<leftarrow> put_at b1 (firstPos + 1) (pool_op n);
                              b3 \<leftarrow> put_indices b2 (firstPos + 2) (map snd found);
                              b4 \<leftarrow> fill_range b3 (firstPos + 2 + 2 * n) (lastPos + 3) OpNop;
                              Some (set_bytecode c b4, lastPos + 3, True) })"

section \<open>Integer inference\<close>

record intStackValue =
  isInt :: bool
  isConstInt :: bool
  constInt :: i64
  producerIP :: nat

definition unknown_entry :: "nat \<Rightarrow> intStackValue" where
  "unknown_entry ip = \<lparr>isInt = False, isConstInt = False, constInt = 0, producerIP = ip\<rparr>"

definition int_entry :: "nat \<Rightarrow> intStackValue" where
  "int_entry ip = (unknown_entry ip)\<lparr>isInt := True\<rparr>"

record inference =
  inf_locals :: "nat set"
  inf_globals :: "nat set"
  inf_stack :: "intStackValue list"

definition clearIntInference :: inference where
  "clearIntInference = \<lparr>inf_locals = {}, inf_globals = {}, inf_stack = []\<rparr>"

definition pushIntStack :: "intStackValue \<Rightarrow> inference \<Rightarrow> inference" where
  "pushIntStack e s = s\<lparr>inf_stack := e # inf_stack s\<rparr>"

definition popIntStack :: "inference \<Rightarrow> intStackValue \<times> inference" where
  "popIntStack s = (case inf_stack s of
      [] \<Rightarrow> (unknown_entry 0, s) | e # r \<Rightarrow> (e, s\<lparr>inf_stack := r\<rparr>))"

definition popInts :: "nat \<Rightarrow> inference \<Rightarrow> inference" where
  "popInts n s = ((\<lambda>s. snd (popIntStack s)) ^^ n) s"

definition mark :: "bool \<Rightarrow> nat \<Rightarrow> nat set \<Rightarrow> nat set" where
  "mark b i s = (if b then insert i s else s - {i})"

text \<open>\<open>bits.TrailingZeros64\<close> of a power of two, and the rewriting of the divisor's load.\<close>

definition trailing_zeros :: "u64 \<Rightarrow> nat" where
  "trailing_zeros w = length (takeWhile (\<lambda>k. \<not> bit w k) [0..<64])"

definition rewriteDivisorConstantToShift :: "Compiler \<Rightarrow> intStackValue \<Rightarrow> (Compiler \<times> bool) option" where
  "rewriteDivisorConstantToShift c rhs =
     (let d = constInt rhs; p = producerIP rhs; bs = c_bytecode c
      in if \<not> isConstInt rhs \<or> sint d \<le> 0 then Some (c, False)
         else if d AND (d - 1) \<noteq> 0 then Some (c, False)
         else if length bs \<le> p + 2 then Some (c, False)
         else if bs ! p \<noteq> OpConstant then Some (c, False)
         else let newIdx = length (c_constants c)
              in do { b1 \<leftarrow> put_be16 bs (p + 1) newIdx;
                      Some (c\<lparr>c_constants := c_constants c @ [NewInteger (word_of_nat (trailing_zeros d))],
                              c_bytecode := b1\<rparr>, True) })"

definition int_binary :: "OpCode \<Rightarrow> OpCode" where
  "int_binary op = (if op = OpAdd then OpIAdd else if op = OpSub then OpISub else OpIMul)"

definition int_clearing_ops :: "OpCode list" where
  "int_clearing_ops = [
    OpCall, OpCallMember, OpCallBuiltin, OpArraySet, OpMemberGet, OpMemberSet, OpMemberSetSet,
    OpJump, OpJumpIfFalse, OpJumpIfTrue, OpGotoLabel,
    OpJSJump, OpJSJumpIfFalse, OpJSJumpIfTrue, OpJSTryEnter,
    OpJSBreak, OpJSContinue, OpJSForInCleanup, OpJSJumpIfLessFast,
    OpJSCall, OpJSCallMember, OpJSTailCall, OpJSTailCallMember, OpJSNew]"

definition int_binary_unknown_ops :: "OpCode list" where
  "int_binary_unknown_ops = [
    OpDiv, OpMod, OpPow, OpConcat,
    OpEq, OpNeq, OpLt, OpGt, OpLte, OpGte, OpIsRef, OpIsNotRef,
    OpAnd, OpOr, OpXor, OpEqv, OpImp]"

text \<open>The effect of one instruction on the inference, for the cases that rewrite no code.\<close>

definition infer_operand :: "Compiler \<Rightarrow> nat \<Rightarrow> OpCode \<Rightarrow> nat \<Rightarrow> inference \<Rightarrow> inference" where
  "infer_operand c ip op idx s =
     (if op = OpConstant then
        (let v = c_constants c ! idx
         in pushIntStack (if idx < length (c_constants c) \<and> VType v = VTInteger
                          then (int_entry ip)\<lparr>isConstInt := True, constInt := VNum v\<rparr>
                          else unknown_entry ip) s)
      else if op = OpGetLocal then pushIntStack ((unknown_entry ip)\<lparr>isInt := idx \<in> inf_locals s\<rparr>) s
      else if op = OpGetGlobal then pushIntStack ((unknown_entry ip)\<lparr>isInt := idx \<in> inf_globals s\<rparr>) s
      else if op = OpSetLocal \<or> op = OpLetLocal then
        (let (rhs, s1) = popIntStack s in s1\<lparr>inf_locals := mark (isInt rhs) idx (inf_locals s1)\<rparr>)
      else if op = OpSetGlobal \<or> op = OpLetGlobal then
        (let (rhs, s1) = popIntStack s in s1\<lparr>inf_globals := mark (isInt rhs) idx (inf_globals s1)\<rparr>)
      else if op = OpIncLocalInt \<or> op = OpDecLocalInt then s\<lparr>inf_locals := insert idx (inf_locals s)\<rparr>
      else if op = OpIncGlobalInt \<or> op = OpDecGlobalInt then s\<lparr>inf_globals := insert idx (inf_globals s)\<rparr>
      else popInts idx s)"

definition infer_operand_ops :: "OpCode list" where
  "infer_operand_ops = [
    OpConstant, OpGetLocal, OpGetGlobal, OpSetLocal, OpLetLocal, OpSetGlobal, OpLetGlobal,
    OpIncLocalInt, OpDecLocalInt, OpIncGlobalInt, OpDecGlobalInt, OpWriteN]"

definition infer_for_next :: "OpCode \<Rightarrow> nat \<Rightarrow> nat \<Rightarrow> inference \<Rightarrow> inference" where
  "infer_for_next op varIdx endIdx s =
     (if op = OpForNextFastInt
      then s\<lparr>inf_locals := insert endIdx (insert varIdx (inf_locals s)), inf_stack := []\<rparr>
      else s\<lparr>inf_globals := insert endIdx (insert varIdx (inf_globals s)), inf_stack := []\<rparr>)"

definition infer_plain :: "nat \<Rightarrow> OpCode \<Rightarrow> inference \<Rightarrow> inference" where
  "infer_plain ip op s =
     (if op \<in> {OpIAdd, OpISub, OpIMul, OpIRightShift} then pushIntStack (int_entry ip) (popInts 2 s)
      else if op \<in> set int_binary_unknown_ops then pushIntStack (unknown_entry ip) (popInts 2 s)
      else if op = OpNeg \<or> op = OpNot then
        (let (a, s1) = popIntStack s in pushIntStack ((unknown_entry ip)\<lparr>isInt := isInt a\<rparr>) s1)
      else if op = OpPop \<or> op = OpWrite then popInts 1 s
      else if op \<in> set int_clearing_ops then clearIntInference
      else s)"

text \<open>The two cases that may rewrite the instruction.\<close>

definition infer_arith ::
    "Compiler \<Rightarrow> nat \<Rightarrow> OpCode \<Rightarrow> inference \<Rightarrow> ((Compiler \<times> inference) \<times> bool) option" where
  "infer_arith c ip op s =
     (let (rhs, s1) = popIntStack s; (lhs, s2) = popIntStack s1
      in if \<not> (isInt lhs \<and> isInt rhs) then Some ((c, pushIntStack (unknown_entry ip) s2), False)
         else do { (c1, rewritten, newOp) \<leftarrow>
                     (if op = OpIDiv
                      then do { (c1, ok) \<leftarrow> rewriteDivisorConstantToShift c rhs; Some (c1, ok, OpIRightShift) }
                      else Some (c, True, int_binary op));
                   if rewritten
                   then do { b \<leftarrow> put_at (c_bytecode c1) ip newOp;
                             Some ((set_bytecode c1 b, pushIntStack (int_entry ip) s2), True) }
                   else Some ((c1, pushIntStack (int_entry ip) s2), False) })"

definition int_step ::
    "nat list \<Rightarrow> Compiler \<times> inference \<Rightarrow> nat \<Rightarrow> ((Compiler \<times> inference) \<times> nat \<times> bool) option" where
  "int_step targets s ip =
     (let (c, s0) = s; bs = c_bytecode c; op = bs ! ip;
          inf = (if ip \<in> set targets then clearIntInference else s0);
          instrEnd = ip + 1 + opcodeOperandSize op bs ip
      in if length bs < instrEnd then goes_on (c, inf) (length bs)
         else if op \<in> set infer_operand_ops then
           do { idx \<leftarrow> be16_at bs (ip + 1); goes_on (c, infer_operand c ip op idx inf) instrEnd }
         else if op = OpForNextFastInt \<or> op = OpForNextFastGlobalInt then
           do { varIdx \<leftarrow> be16_at bs (ip + 1); endIdx \<leftarrow> be16_at bs (ip + 3);
                goes_on (c, infer_for_next op varIdx endIdx inf) instrEnd }
         else if op \<in> {OpAdd, OpSub, OpMul, OpIDiv} then
           do { (s1, changed) \<leftarrow> infer_arith c ip op inf; Some (s1, instrEnd, changed) }
         else goes_on (c, infer_plain ip op inf) instrEnd)"

section \<open>Copy propagation and repeated loads\<close>

type_synonym alias_map = "nat \<Rightarrow> nat option"

text \<open>The chain walk \<open>for { up, ok := alias[resolved]; ... }\<close>; \<open>None\<close> when it does not end.\<close>

partial_function (option) resolve_alias :: "alias_map \<Rightarrow> nat \<Rightarrow> nat option" where
  "resolve_alias alias resolved =
     (case alias resolved of
        None \<Rightarrow> Some resolved
      | Some up \<Rightarrow> if up = resolved then Some resolved else resolve_alias alias up)"

definition forget_local :: "nat \<Rightarrow> alias_map \<Rightarrow> alias_map" where
  "forget_local written alias =
     (\<lambda>k. if k = written \<or> alias k = Some written then None else alias k)"

definition alias_boundary_ops :: "OpCode list" where
  "alias_boundary_ops = [
    OpForNextFastInt, OpForNextFastGlobalInt,
    OpJump, OpJumpIfFalse, OpJumpIfTrue, OpGotoLabel,
    OpJSJump, OpJSJumpIfFalse, OpJSJumpIfTrue, OpJSTryEnter,
    OpJSBreak, OpJSContinue, OpJSForInCleanup,
    OpJSJumpIfLessFast,
    OpCall, OpCallMember, OpCallBuiltin, OpJSCall, OpJSCallMember, OpJSTailCall, OpJSTailCallMember, OpJSNew]"

text \<open>Removes the second load and the pop of \<open>load x; load x; pop\<close>.\<close>

definition drop_repeated_load :: "nat list \<Rightarrow> OpCode \<Rightarrow> nat \<Rightarrow> bytes \<Rightarrow> nat \<Rightarrow> (bytes \<times> bool) option" where
  "drop_repeated_load targets loadOp slot bs instrEnd =
     (let nextLoad = skip_nops bs instrEnd
      in if \<not> (nextLoad + 2 < length bs \<and> bs ! nextLoad = loadOp) then Some (bs, False)
         else do { other \<leftarrow> be16_at bs (nextLoad + 1);
                   if other \<noteq> slot then Some (bs, False)
                   else let after = skip_nops bs (nextLoad + 3)
                        in if \<not> (after < length bs \<and> bs ! after = OpPop) then Some (bs, False)
                           else if hasTargetInRange targets nextLoad after then Some (bs, False)
                           else do { b1 \<leftarrow> fill_range bs nextLoad (nextLoad + 3) OpNop;
                                     b2 \<leftarrow> put_at b1 after OpNop;
                                     Some (b2, True) } })"

text \<open>Records the copy \<open>load local; let dst\<close>.\<close>

definition record_copy :: "bytes \<Rightarrow> nat \<Rightarrow> nat \<Rightarrow> alias_map \<Rightarrow> alias_map option" where
  "record_copy bs instrEnd local alias =
     (let next = skip_nops bs instrEnd
      in if \<not> (next + 2 < length bs \<and> bs ! next = OpLetLocal) then Some alias
         else do { dst \<leftarrow> be16_at bs (next + 1);
                   resolved \<leftarrow> resolve_alias alias local;
                   Some (if dst \<noteq> resolved then alias(dst \<mapsto> resolved) else alias(dst := None)) })"

text \<open>The rewriting of a load whose slot has an alias: the code, the slot now loaded.\<close>

definition replace_load :: "bytes \<Rightarrow> nat \<Rightarrow> alias_map \<Rightarrow> (bytes \<times> nat \<times> bool) option" where
  "replace_load bs ip alias =
     do { local \<leftarrow> be16_at bs (ip + 1);
          case alias local of
            Some src \<Rightarrow> (if src \<noteq> local
                         then do { b \<leftarrow> put_be16 bs (ip + 1) src; Some (b, src, True) }
                         else Some (bs, local, False))
          | None \<Rightarrow> Some (bs, local, False) }"

definition copy_step ::
    "nat list \<Rightarrow> Compiler \<times> alias_map \<Rightarrow> nat \<Rightarrow> ((Compiler \<times> alias_map) \<times> nat \<times> bool) option" where
  "copy_step targets s ip =
     (let (c, alias0) = s; bs = c_bytecode c; op = bs ! ip;
          alias = (if ip \<in> set targets then Map.empty else alias0);
          instrEnd = ip + 1 + opcodeOperandSize op bs ip
      in if length bs < instrEnd then goes_on (c, alias) (length bs)
         else if op = OpGetLocal then
           do { (b1, local, ch1) \<leftarrow> replace_load bs ip alias;
                alias1 \<leftarrow> record_copy b1 instrEnd local alias;
                (b2, ch2) \<leftarrow> drop_repeated_load targets OpGetLocal local b1 instrEnd;
                Some ((set_bytecode c b2, alias1), instrEnd, ch1 \<or> ch2) }
         else if op = OpGetGlobal then
           do { global \<leftarrow> be16_at bs (ip + 1);
                (b1, ch) \<leftarrow> drop_repeated_load targets OpGetGlobal global bs instrEnd;
                Some ((set_bytecode c b1, alias), instrEnd, ch) }
         else if op \<in> {OpLetLocal, OpSetLocal, OpIncLocalInt, OpDecLocalInt} then
           do { written \<leftarrow> be16_at bs (ip + 1); goes_on (c, forget_local written alias) instrEnd }
         else if op \<in> set alias_boundary_ops then goes_on (c, Map.empty) instrEnd
         else goes_on (c, alias) instrEnd)"

section \<open>Every step moves forward and keeps the length\<close>

lemmas step_splits = if_splits option.splits prod.splits
lemmas step_defs = goes_on_def set_bytecode_def Let_def Option.bind_eq_Some_conv

lemma put_indices_length [size_keep]: "put_indices bs p xs = Some b \<Longrightarrow> length b = length bs"
  by (induction bs p xs rule: put_indices.induct)
     (auto simp: Option.bind_eq_Some_conv dest: put_be16_length)

lemma fused_branch_progress:
  "fused_branch_step t c i = Some (c', i', ch) \<Longrightarrow>
   i < i' \<and> length (c_bytecode c') = length (c_bytecode c)"
  using skip_nops_ge[of "i + 1" "c_bytecode c"]
  by (auto simp: fused_branch_step_def step_defs split: step_splits dest!: size_keep)

lemma dead_branch_progress:
  "dead_branch_step t s i = Some (s', i', ch) \<Longrightarrow> i < length (c_bytecode (fst s)) \<Longrightarrow>
   i < i' \<and> length (c_bytecode (fst s')) = length (c_bytecode (fst s))"
  by (auto simp: dead_branch_step_def step_defs split: step_splits dest!: size_keep)

lemma load_branch_progress:
  "load_branch_step t c i = Some (c', i', ch) \<Longrightarrow>
   i < i' \<and> length (c_bytecode c') = length (c_bytecode c)"
  using skip_nops_ge[of "i + 3" "c_bytecode c"]
  by (auto simp: load_branch_step_def load_branch_rewrite_def step_defs split: step_splits dest!: size_keep)

lemma in_place_match_pos:
  assumes "in_place_match t bs i idx = Some (f, l, ci)"
  shows "i + 7 \<le> l \<and> l + 3 \<le> length bs"
proof -
  define j where "j = skip_nops bs (i + 3)"
  define k where "k = skip_nops bs (j + 3)"
  have "i + 3 \<le> j" "j + 3 \<le> k" "k + 1 \<le> skip_nops bs (k + 1)"
    by (simp_all add: j_def k_def skip_nops_ge)
  then show ?thesis
    using assms unfolding in_place_match_def Let_def j_def[symmetric] k_def[symmetric]
    by (simp split: if_splits option.splits)
qed

lemma in_place_rewrite_result:
  "in_place_rewrite c i l f idx ci = Some (c', i', ch) \<Longrightarrow>
   i' = l + 3 \<and> length (c_bytecode c') = length (c_bytecode c)"
  by (auto simp: in_place_rewrite_def step_defs split: step_splits dest!: size_keep)

lemma in_place_progress:
  "in_place_step t c i = Some (c', i', ch) \<Longrightarrow>
   i < i' \<and> length (c_bytecode c') = length (c_bytecode c)"
  by (auto simp: in_place_step_def step_defs split: step_splits dest!: in_place_rewrite_result)
     (use in_place_match_pos in fastforce)+

lemma gather_sorted:
  "sorted_wrt (<) (map fst acc) \<Longrightarrow> \<forall>p\<in>set acc. lo \<le> fst p \<and> fst p < pos \<Longrightarrow> lo \<le> pos \<Longrightarrow>
   sorted_wrt (<) (map fst (gather_constants t bs pos acc))
   \<and> (\<forall>p\<in>set (gather_constants t bs pos acc). lo \<le> fst p)"
proof (induction t bs pos acc rule: gather_constants.induct)
  case (1 t bs pos acc)
  show ?case
  proof (cases "pos < length bs \<and> (bs ! pos = OpNop \<or>
      (bs ! pos = OpConstant \<and> be16_at bs (pos + 1) \<noteq> None
       \<and> \<not> (acc \<noteq> [] \<and> hasTargetInRange t (fst (last acc) + 1) pos)))")
    case False
    then have "gather_constants t bs pos acc = acc"
      by (auto simp: gather_constants.simps[of t bs pos acc] split: option.splits)
    with "1.prems" show ?thesis by simp
  next
    case True
    show ?thesis
    proof (cases "bs ! pos = OpNop")
      case nop: True
      have "\<forall>p\<in>set acc. lo \<le> fst p \<and> fst p < pos + 1" using "1.prems"(2) by auto
      with "1.IH"(1) True nop "1.prems" show ?thesis
        by (simp add: gather_constants.simps[of t bs pos acc])
    next
      case False
      with True obtain idx where idx: "be16_at bs (pos + 1) = Some idx" and C: "bs ! pos = OpConstant"
        "\<not> (acc \<noteq> [] \<and> hasTargetInRange t (fst (last acc) + 1) pos)" "pos < length bs" by auto
      let ?a = "acc @ [(pos, idx)]"
      have a: "sorted_wrt (<) (map fst ?a)" "\<forall>p\<in>set ?a. lo \<le> fst p \<and> fst p < pos + 3"
        using "1.prems" by (auto simp: sorted_wrt_append)
      have eq: "gather_constants t bs pos acc
          = (if length acc + 1 = 4 then ?a else gather_constants t bs (pos + 3) ?a)"
        using idx C False by (subst gather_constants.simps) auto
      show ?thesis
      proof (cases "length acc + 1 = 4")
        case True
        with eq a show ?thesis by auto
      next
        case n4: False
        have "lo \<le> pos + 3" using "1.prems"(3) by simp
        with "1.IH"(2)[OF _ False _ idx _ n4 a] C eq n4 show ?thesis by auto
      qed
    qed
  qed
qed

lemma pool_progress:
  assumes "pool_step t c i = Some (c', i', ch)"
  shows "i < i' \<and> length (c_bytecode c') = length (c_bytecode c)"
proof -
  let ?f = "gather_constants t (c_bytecode c) i []"
  have "\<forall>p\<in>set ?f. i \<le> fst p" using gather_sorted[of "[]" i i t "c_bytecode c"] by auto
  then have "?f \<noteq> [] \<Longrightarrow> i < fst (last ?f) + 3" using last_in_set[of ?f] by fastforce
  moreover have "2 \<le> length ?f \<Longrightarrow> ?f \<noteq> []" by auto
  ultimately show ?thesis
    using assms by (auto simp: pool_step_def step_defs not_less split: step_splits dest!: size_keep)
qed

lemma divisor_length:
  "rewriteDivisorConstantToShift c e = Some (c', b) \<Longrightarrow> length (c_bytecode c') = length (c_bytecode c)"
  by (auto simp: rewriteDivisorConstantToShift_def step_defs split: step_splits dest!: size_keep)

lemma infer_arith_length:
  "infer_arith c ip op s = Some (s', ch) \<Longrightarrow> length (c_bytecode (fst s')) = length (c_bytecode c)"
  by (auto simp: infer_arith_def step_defs split: step_splits dest!: size_keep divisor_length)

lemma int_progress:
  "int_step t s i = Some (s', i', ch) \<Longrightarrow> i < length (c_bytecode (fst s)) \<Longrightarrow>
   i < i' \<and> length (c_bytecode (fst s')) = length (c_bytecode (fst s))"
  by (auto simp: int_step_def step_defs split: step_splits dest!: infer_arith_length)

lemma repeated_load_length [size_keep]:
  "drop_repeated_load t op x bs i = Some (b, ch) \<Longrightarrow> length b = length bs"
  by (auto simp: drop_repeated_load_def step_defs split: step_splits dest!: size_keep)

lemma replace_load_length:
  "replace_load bs i a = Some (b, x, ch) \<Longrightarrow> length b = length bs"
  by (auto simp: replace_load_def step_defs split: step_splits dest!: size_keep)

lemma copy_progress:
  "copy_step t s i = Some (s', i', ch) \<Longrightarrow> i < length (c_bytecode (fst s)) \<Longrightarrow>
   i < i' \<and> length (c_bytecode (fst s')) = length (c_bytecode (fst s))"
  by (auto simp: copy_step_def step_defs split: step_splits dest!: repeated_load_length replace_load_length)

text \<open>A fold keeps the position but clears an operator byte behind it.\<close>

definition busy_after :: "bytes \<Rightarrow> nat \<Rightarrow> nat set" where
  "busy_after bs i = {p. i + 3 \<le> p \<and> p < length bs \<and> bs ! p \<noteq> OpNop}"

lemma foldable_not_nop: "isFoldableVBSBinaryOp op \<Longrightarrow> op \<noteq> OpNop"
  by (auto simp: isFoldableVBSBinaryOp_def op_defs)

lemma fold_rewrite_result:
  assumes "fold_rewrite c i k r = Some (c', i', ch)" "i + 3 \<le> k" "k < length (c_bytecode c)"
    "c_bytecode c ! k \<noteq> OpNop"
  shows "i' = i" "ch" "length (c_bytecode c') = length (c_bytecode c)"
    "busy_after (c_bytecode c') i \<subset> busy_after (c_bytecode c) i"
proof -
  obtain n c1 where a: "addConstant r c = (n, c1)" by (cases "addConstant r c")
  with assms(1) obtain b1 b2 where b: "put_be16 (c_bytecode c) (i + 1) n = Some b1"
    "fill_range b1 (i + 3) (k + 1) OpNop = Some b2" "c' = set_bytecode c1 b2" "i' = i" "ch"
    by (auto simp: fold_rewrite_def Option.bind_eq_Some_conv)
  have len: "length b1 = length (c_bytecode c)" "length b2 = length (c_bytecode c)"
    using put_be16_length[OF b(1)] fill_range_length[OF b(2)] by simp_all
  have same: "b1 ! p = c_bytecode c ! p" if "i + 3 \<le> p" for p
    using b(1) that by (auto simp: put_be16_def split: if_splits)
  have b2: "b2 ! p = (if p \<le> k then OpNop else c_bytecode c ! p)" if "i + 3 \<le> p" "p < length b1" for p
    using fill_range_nth[OF b(2) that(2)] same[OF that(1)] that by auto
  show "i' = i" "ch" "length (c_bytecode c') = length (c_bytecode c)"
    using b len by (simp_all add: set_bytecode_def)
  have "busy_after b2 i \<subseteq> busy_after (c_bytecode c) i"
    using b2 len by (auto simp: busy_after_def split: if_splits)
  moreover have "k \<in> busy_after (c_bytecode c) i" "k \<notin> busy_after b2 i"
    using b2[of k] assms(2-4) len by (auto simp: busy_after_def)
  ultimately show "busy_after (c_bytecode c') i \<subset> busy_after (c_bytecode c) i"
    using b(3) by (auto simp: set_bytecode_def)
qed

lemma fold_progress:
  assumes "fold_step t c i = Some (c', i', ch)"
  shows "length (c_bytecode c') = length (c_bytecode c)
       \<and> (if ch then i' = i \<and> busy_after (c_bytecode c') i \<subset> busy_after (c_bytecode c) i
          else c' = c \<and> i < i')"
proof -
  let ?bs = "c_bytecode c"
  define j where "j = skip_nops ?bs (i + 3)"
  define k where "k = skip_nops ?bs (j + 3)"
  have ge: "i + 3 \<le> j" "j + 3 \<le> k" by (simp_all add: j_def k_def skip_nops_ge)
  show ?thesis
  proof (cases "\<exists>r. fold_rewrite c i k r = Some (c', i', ch) \<and> k < length ?bs \<and> isFoldableVBSBinaryOp (?bs ! k)")
    case True
    then obtain r where "fold_rewrite c i k r = Some (c', i', ch)" "k < length ?bs" "?bs ! k \<noteq> OpNop"
      using foldable_not_nop by blast
    from fold_rewrite_result[OF this(1) _ this(2,3)] ge show ?thesis by simp
  next
    case False
    then have "c' = c \<and> i < i' \<and> \<not> ch"
      using assms unfolding fold_step_def Let_def j_def[symmetric] k_def[symmetric]
      by (auto simp: goes_on_def Option.bind_eq_Some_conv split: if_splits option.splits)
    then show ?thesis by simp
  qed
qed

section \<open>The loops\<close>

text \<open>Each \<open>for\<close> loop of the file: while \<open>i < len(c.bytecode)\<close>, one step.\<close>

function fold_loop :: "nat list \<Rightarrow> Compiler \<Rightarrow> nat \<Rightarrow> bool \<Rightarrow> (Compiler \<times> bool) option" where
  "fold_loop t c i ch =
     (if i < length (c_bytecode c)
      then (case fold_step t c i of None \<Rightarrow> None
            | Some r \<Rightarrow> fold_loop t (fst r) (fst (snd r)) (ch \<or> snd (snd r)))
      else Some (c, ch))"
  by pat_completeness auto
termination
proof (relation "inv_image (less_than <*lex*> less_than)
    (\<lambda>(t, c, i, ch). (length (c_bytecode c) - i, card (busy_after (c_bytecode c) i)))", goal_cases)
  case 1
  then show ?case by auto
next
  case (2 t c i ch r)
  obtain c' i' ch' where r: "r = (c', i', ch')" by (cases r)
  have fin: "finite (busy_after (c_bytecode c) i)" by (simp add: busy_after_def)
  show ?case
    using fold_progress[of t c i c' i' ch'] 2 r psubset_card_mono[OF fin]
    by (auto split: if_splits)
qed

function fused_branch_loop :: "nat list \<Rightarrow> Compiler \<Rightarrow> nat \<Rightarrow> bool \<Rightarrow> (Compiler \<times> bool) option" where
  "fused_branch_loop t c i ch =
     (if i < length (c_bytecode c)
      then (case fused_branch_step t c i of None \<Rightarrow> None
            | Some r \<Rightarrow> fused_branch_loop t (fst r) (fst (snd r)) (ch \<or> snd (snd r)))
      else Some (c, ch))"
  by pat_completeness auto
termination
  by (relation "measure (\<lambda>(t, c, i, ch). length (c_bytecode c) - i)")
     (auto dest!: fused_branch_progress)

function load_branch_loop :: "nat list \<Rightarrow> Compiler \<Rightarrow> nat \<Rightarrow> bool \<Rightarrow> (Compiler \<times> bool) option" where
  "load_branch_loop t c i ch =
     (if i < length (c_bytecode c)
      then (case load_branch_step t c i of None \<Rightarrow> None
            | Some r \<Rightarrow> load_branch_loop t (fst r) (fst (snd r)) (ch \<or> snd (snd r)))
      else Some (c, ch))"
  by pat_completeness auto
termination
  by (relation "measure (\<lambda>(t, c, i, ch). length (c_bytecode c) - i)")
     (auto dest!: load_branch_progress)

function in_place_loop :: "nat list \<Rightarrow> Compiler \<Rightarrow> nat \<Rightarrow> bool \<Rightarrow> (Compiler \<times> bool) option" where
  "in_place_loop t c i ch =
     (if i < length (c_bytecode c)
      then (case in_place_step t c i of None \<Rightarrow> None
            | Some r \<Rightarrow> in_place_loop t (fst r) (fst (snd r)) (ch \<or> snd (snd r)))
      else Some (c, ch))"
  by pat_completeness auto
termination
  by (relation "measure (\<lambda>(t, c, i, ch). length (c_bytecode c) - i)")
     (auto dest!: in_place_progress)

function pool_loop :: "nat list \<Rightarrow> Compiler \<Rightarrow> nat \<Rightarrow> bool \<Rightarrow> (Compiler \<times> bool) option" where
  "pool_loop t c i ch =
     (if i < length (c_bytecode c)
      then (case pool_step t c i of None \<Rightarrow> None
            | Some r \<Rightarrow> pool_loop t (fst r) (fst (snd r)) (ch \<or> snd (snd r)))
      else Some (c, ch))"
  by pat_completeness auto
termination
  by (relation "measure (\<lambda>(t, c, i, ch). length (c_bytecode c) - i)")
     (auto dest!: pool_progress)

function dead_branch_loop ::
    "nat list \<Rightarrow> Compiler \<times> nat option \<Rightarrow> nat \<Rightarrow> bool \<Rightarrow> ((Compiler \<times> nat option) \<times> bool) option" where
  "dead_branch_loop t s i ch =
     (if i < length (c_bytecode (fst s))
      then (case dead_branch_step t s i of None \<Rightarrow> None
            | Some r \<Rightarrow> dead_branch_loop t (fst r) (fst (snd r)) (ch \<or> snd (snd r)))
      else Some (s, ch))"
  by pat_completeness auto
termination
  by (relation "measure (\<lambda>(t, s, i, ch). length (c_bytecode (fst s)) - i)")
     (auto dest!: dead_branch_progress)

function int_loop ::
    "nat list \<Rightarrow> Compiler \<times> inference \<Rightarrow> nat \<Rightarrow> bool \<Rightarrow> ((Compiler \<times> inference) \<times> bool) option" where
  "int_loop t s i ch =
     (if i < length (c_bytecode (fst s))
      then (case int_step t s i of None \<Rightarrow> None
            | Some r \<Rightarrow> int_loop t (fst r) (fst (snd r)) (ch \<or> snd (snd r)))
      else Some (s, ch))"
  by pat_completeness auto
termination
  by (relation "measure (\<lambda>(t, s, i, ch). length (c_bytecode (fst s)) - i)")
     (auto dest!: int_progress)

function copy_loop ::
    "nat list \<Rightarrow> Compiler \<times> alias_map \<Rightarrow> nat \<Rightarrow> bool \<Rightarrow> ((Compiler \<times> alias_map) \<times> bool) option" where
  "copy_loop t s i ch =
     (if i < length (c_bytecode (fst s))
      then (case copy_step t s i of None \<Rightarrow> None
            | Some r \<Rightarrow> copy_loop t (fst r) (fst (snd r)) (ch \<or> snd (snd r)))
      else Some (s, ch))"
  by pat_completeness auto
termination
  by (relation "measure (\<lambda>(t, s, i, ch). length (c_bytecode (fst s)) - i)")
     (auto dest!: copy_progress)

declare fold_loop.simps [simp del] fused_branch_loop.simps [simp del] load_branch_loop.simps [simp del]
  in_place_loop.simps [simp del] pool_loop.simps [simp del] dead_branch_loop.simps [simp del]
  int_loop.simps [simp del] copy_loop.simps [simp del]

section \<open>The passes and the driver\<close>

definition optimizePeepholePass :: "Compiler \<Rightarrow> (Compiler \<times> bool) option" where
  "optimizePeepholePass c =
     (let bs = c_bytecode c
      in if length bs < 7 then Some (c, False) else fold_loop (collectJumpTargets bs) c 0 False)"

definition optimizeLocalCopyPropagationPass :: "Compiler \<Rightarrow> (Compiler \<times> bool) option" where
  "optimizeLocalCopyPropagationPass c =
     map_option (\<lambda>((c', _), ch). (c', ch)) (copy_loop (collectJumpTargets (c_bytecode c)) (c, Map.empty) 0 False)"

definition optimizeIntegerArithmeticPass :: "Compiler \<Rightarrow> (Compiler \<times> bool) option" where
  "optimizeIntegerArithmeticPass c =
     map_option (\<lambda>((c', _), ch). (c', ch)) (int_loop (collectJumpTargets (c_bytecode c)) (c, clearIntInference) 0 False)"

definition optimizeDeadConditionalJumpPass :: "Compiler \<Rightarrow> (Compiler \<times> bool) option" where
  "optimizeDeadConditionalJumpPass c =
     map_option (\<lambda>((c', _), ch). (c', ch)) (dead_branch_loop (collectJumpTargets (c_bytecode c)) (c, None) 0 False)"

definition optimizeFusedBranchPass :: "Compiler \<Rightarrow> (Compiler \<times> bool) option" where
  "optimizeFusedBranchPass c =
     (let bs = c_bytecode c
      in if length bs < 6 then Some (c, False) else fused_branch_loop (collectJumpTargets bs) c 0 False)"

definition optimizeFusedLoadBranchPass :: "Compiler \<Rightarrow> (Compiler \<times> bool) option" where
  "optimizeFusedLoadBranchPass c =
     (let bs = c_bytecode c
      in if length bs < 8 then Some (c, False) else load_branch_loop (collectJumpTargets bs) c 0 False)"

definition optimizeInPlaceMathPass :: "Compiler \<Rightarrow> (Compiler \<times> bool) option" where
  "optimizeInPlaceMathPass c =
     (let bs = c_bytecode c
      in if length bs < 11 then Some (c, False) else in_place_loop (collectJumpTargets bs) c 0 False)"

definition optimizeConstantPoolingPass :: "Compiler \<Rightarrow> (Compiler \<times> bool) option" where
  "optimizeConstantPoolingPass c =
     (let bs = c_bytecode c
      in if length bs < 6 then Some (c, False) else pool_loop (collectJumpTargets bs) c 0 False)"

text \<open>One turn of the driver: the eight passes in order, and whether any of them changed something.\<close>

definition run_pass ::
    "(Compiler \<Rightarrow> (Compiler \<times> bool) option) \<Rightarrow> Compiler \<times> bool \<Rightarrow> (Compiler \<times> bool) option" where
  "run_pass pass s = do { (c, ch) \<leftarrow> pass (fst s); Some (c, snd s \<or> ch) }"

definition peephole_round :: "Compiler \<Rightarrow> (Compiler \<times> bool) option" where
  "peephole_round c =
     do { s1 \<leftarrow> run_pass optimizePeepholePass (c, False);
          s2 \<leftarrow> run_pass optimizeLocalCopyPropagationPass s1;
          s3 \<leftarrow> run_pass optimizeIntegerArithmeticPass s2;
          s4 \<leftarrow> run_pass optimizeDeadConditionalJumpPass s3;
          s5 \<leftarrow> run_pass optimizeFusedBranchPass s4;
          s6 \<leftarrow> run_pass optimizeFusedLoadBranchPass s5;
          s7 \<leftarrow> run_pass optimizeInPlaceMathPass s6;
          run_pass optimizeConstantPoolingPass s7 }"

text \<open>\<open>optimizePeephole\<close>: \<open>None\<close> is a panic, or a loop that does not end.\<close>

partial_function (option) optimizePeephole :: "Compiler \<Rightarrow> Compiler option" where
  "optimizePeephole c =
     (case peephole_round c of
        None \<Rightarrow> None
      | Some r \<Rightarrow> if snd r then optimizePeephole (fst r) else Some (fst r))"

section \<open>The integrity check\<close>

definition const_operand_ops :: "OpCode list" where
  "const_operand_ops = [
    OpConstant, OpWriteStatic, OpGetClassMember, OpSetClassMember, OpEraseClassMember, OpMemberSet,
    OpMemberSetSet, OpNewClass, OpLetClassMember, OpArgClassMemberRef,
    OpRegisterClass, OpRegisterClassField, OpRegisterClassMethod, OpRegisterClassPropertyGet,
    OpRegisterClassPropertyLet, OpRegisterClassPropertySet, OpInitClassArrayField,
    OpLabel]"

definition global_operand_ops :: "OpCode list" where
  "global_operand_ops = [
    OpGetGlobal, OpSetGlobal, OpLetGlobal, OpEraseGlobal, OpIncGlobalInt, OpDecGlobalInt, OpArgGlobalRef]"

definition index_below :: "bytes \<Rightarrow> nat \<Rightarrow> nat \<Rightarrow> bool" where
  "index_below bs p n \<longleftrightarrow> (case be16_at bs p of None \<Rightarrow> False | Some idx \<Rightarrow> idx < n)"

text \<open>The extended opcodes: a truncated one is not checked.\<close>

definition ext_indices_ok :: "Compiler \<Rightarrow> nat \<Rightarrow> bool" where
  "ext_indices_ok c ip =
     (let bs = c_bytecode c; n = length (c_constants c); ext = bs ! (ip + 1)
      in if ext = ExtOpAddLocalConst \<or> ext = ExtOpConcatLocalConst then
           (ip + 6 \<le> length bs \<longrightarrow> index_below bs (ip + 4) n)
         else if ext = ExtOpSubGlobalConst then
           (ip + 6 \<le> length bs \<longrightarrow> index_below bs (ip + 2) (c_globalsCount c) \<and> index_below bs (ip + 4) n)
         else if ext = ExtOpConstant2 then
           (ip + 6 \<le> length bs \<longrightarrow> list_all (\<lambda>off. index_below bs (ip + off) n) [2, 4])
         else if ext = ExtOpConstant3 then
           (ip + 8 \<le> length bs \<longrightarrow> list_all (\<lambda>off. index_below bs (ip + off) n) [2, 4, 6])
         else if ext = ExtOpConstant4 then
           (ip + 10 \<le> length bs \<longrightarrow> list_all (\<lambda>off. index_below bs (ip + off) n) [2, 4, 6, 8])
         else True)"

text \<open>No panic on the instruction at \<open>ip\<close>.\<close>

definition instr_indices_ok :: "Compiler \<Rightarrow> nat \<Rightarrow> bool" where
  "instr_indices_ok c ip =
     (let bs = c_bytecode c; op = bs ! ip
      in next_ip bs ip \<le> length bs
       \<and> (op \<in> set const_operand_ops \<longrightarrow> index_below bs (ip + 1) (length (c_constants c)))
       \<and> (op \<in> set global_operand_ops \<longrightarrow> index_below bs (ip + 1) (c_globalsCount c))
       \<and> (op = OpExtPrefix \<and> ip + 1 < length bs \<longrightarrow> ext_indices_ok c ip))"

text \<open>\<open>validateBytecodeIndices\<close> returns (\<open>True\<close>) or panics (\<open>False\<close>).\<close>

function validate_from :: "Compiler \<Rightarrow> nat \<Rightarrow> bool" where
  "validate_from c ip =
     (if ip < length (c_bytecode c)
      then instr_indices_ok c ip \<and> validate_from c (next_ip (c_bytecode c) ip)
      else True)"
  by pat_completeness auto
termination
  by (relation "measure (\<lambda>(c, ip). length (c_bytecode c) - ip)") (auto simp: next_ip_def)

declare validate_from.simps [simp del]

definition validateBytecodeIndices :: "Compiler \<Rightarrow> bool" where
  "validateBytecodeIndices c = validate_from c 0"

lemma validate_from_walk:
  "validate_from c ip \<longleftrightarrow> list_all (instr_indices_ok c) (walk (c_bytecode c) ip)"
proof (induction c ip rule: validate_from.induct)
  case (1 c ip)
  then show ?case
    by (simp add: validate_from.simps[of c ip] walk.simps[of _ ip])
qed

end
