(* ===== verification/OptLaws.thy ===== *)
theory OptLaws
  imports Optimizer
begin

text \<open>
  What every optimizer pass promises. The eight loops have one shape, a step repeated while the
  position is inside the code; \<open>scan\<close> is that shape with its induction principles, and
  \<open>code_pass\<close> adds the contract of a pass: it keeps the length of the code, only appends to the
  constant pool, and reports a change whenever it makes one. Every pass is an interpretation.
\<close>

section \<open>Scanning loops\<close>

locale scan =
  fixes step :: "nat list \<Rightarrow> 's \<Rightarrow> nat \<Rightarrow> ('s \<times> nat \<times> bool) option"
    and loop :: "nat list \<Rightarrow> 's \<Rightarrow> nat \<Rightarrow> bool \<Rightarrow> ('s \<times> bool) option"
    and prog :: "'s \<Rightarrow> Compiler"
    and rank :: "'s \<Rightarrow> nat \<Rightarrow> nat"
  assumes loop_eq: "loop t s i ch =
      (if i < length (c_bytecode (prog s))
       then (case step t s i of None \<Rightarrow> None
             | Some r \<Rightarrow> loop t (fst r) (fst (snd r)) (ch \<or> snd (snd r)))
       else Some (s, ch))"
    and step_progress: "step t s i = Some (s', i', b) \<Longrightarrow> i < length (c_bytecode (prog s)) \<Longrightarrow>
      length (c_bytecode (prog s')) = length (c_bytecode (prog s))
      \<and> (i < i' \<or> (i' = i \<and> rank s' i < rank s i))"
begin

lemma loop_induct [consumes 0, case_names stop panic advance]:
  assumes stop: "\<And>s i ch. length (c_bytecode (prog s)) \<le> i \<Longrightarrow> P s i ch"
    and panic: "\<And>s i ch. i < length (c_bytecode (prog s)) \<Longrightarrow> step t s i = None \<Longrightarrow> P s i ch"
    and advance: "\<And>s i ch s' i' b. i < length (c_bytecode (prog s)) \<Longrightarrow> step t s i = Some (s', i', b) \<Longrightarrow>
      P s' i' (ch \<or> b) \<Longrightarrow> P s i ch"
  shows "P s i ch"
proof (induction "(length (c_bytecode (prog s)) - i, rank s i)" arbitrary: s i ch
    rule: wf_induct[OF wf_lex_prod[OF wf_less_than wf_less_than]])
  case (1 s i ch)
  show ?case
  proof (cases "i < length (c_bytecode (prog s))")
    case False
    then show ?thesis by (intro stop) simp
  next
    case True
    show ?thesis
    proof (cases "step t s i")
      case None
      with True show ?thesis by (rule panic)
    next
      case (Some r)
      obtain s' i' b where r: "r = (s', i', b)" by (cases r)
      have "P s' i' (ch \<or> b)"
        using step_progress[OF Some[unfolded r] True] True by (intro 1[rule_format, OF _ refl]) auto
      with True Some r show ?thesis by (auto intro: advance)
    qed
  qed
qed

lemma loop_keeps:
  assumes keep: "\<And>s i s' i' b. P s \<Longrightarrow> i < length (c_bytecode (prog s)) \<Longrightarrow> step t s i = Some (s', i', b) \<Longrightarrow> P s'"
  shows "P s \<Longrightarrow> loop t s i ch = Some (s', ch') \<Longrightarrow> P s'"
proof (induction s i ch rule: loop_induct[of _ t])
  case (stop s i ch)
  then show ?case by (simp add: loop_eq)
next
  case (panic s i ch)
  then show ?case by (simp add: loop_eq[of t s i ch])
next
  case (advance s i ch s1 i1 b)
  then show ?case using keep by (auto simp: loop_eq[of t s i ch])
qed

lemma loop_returns:
  assumes "\<And>s i. i < length (c_bytecode (prog s)) \<Longrightarrow> P s i \<Longrightarrow>
      \<exists>s' i' b. step t s i = Some (s', i', b) \<and> P s' i'"
  shows "P s i \<Longrightarrow> \<exists>s' ch'. loop t s i ch = Some (s', ch')"
proof (induction s i ch rule: loop_induct[of _ t])
  case (stop s i ch)
  then show ?case by (simp add: loop_eq)
next
  case (panic s i ch)
  then show ?case using assms[of i s] by auto
next
  case (advance s i ch s1 i1 b)
  then show ?case using assms[of i s] by (auto simp: loop_eq[of t s i ch])
qed

lemma loop_quiet:
  assumes quiet: "\<And>s i s' i'. i < length (c_bytecode (prog s)) \<Longrightarrow> step t s i = Some (s', i', False) \<Longrightarrow> prog s' = prog s"
  shows "loop t s i ch = Some (s', False) \<Longrightarrow> prog s' = prog s \<and> \<not> ch"
proof (induction s i ch rule: loop_induct[of _ t])
  case (stop s i ch)
  then show ?case by (simp add: loop_eq)
next
  case (panic s i ch)
  then show ?case by (simp add: loop_eq[of t s i ch])
next
  case (advance s i ch s1 i1 b)
  then show ?case using quiet by (auto simp: loop_eq[of t s i ch])
qed

end

section \<open>The contract of a pass\<close>

text \<open>\<open>extends c c'\<close>: same length of code, the old constants a prefix of the new pool.\<close>

definition extends :: "Compiler \<Rightarrow> Compiler \<Rightarrow> bool" where
  "extends c c' \<longleftrightarrow> length (c_bytecode c') = length (c_bytecode c)
     \<and> take (length (c_constants c)) (c_constants c') = c_constants c
     \<and> c_globalsCount c' = c_globalsCount c"

lemma extends_refl [simp]: "extends c c"
  by (simp add: extends_def)

lemma extends_trans: "extends a b \<Longrightarrow> extends b c \<Longrightarrow> extends a c"
  unfolding extends_def by (metis min.absorb1 take_take length_take nat_le_linear take_all)

lemma extends_set_bytecode [simp]:
  "length bs = length (c_bytecode c) \<Longrightarrow> extends c0 c \<Longrightarrow> extends c0 (set_bytecode c bs)"
  by (simp add: extends_def set_bytecode_def)

lemma extends_addConstant: "addConstant v c = (n, c') \<Longrightarrow> extends c c' \<and> c_bytecode c' = c_bytecode c"
  by (auto simp: addConstant_def extends_def Let_def split: if_splits option.splits)

context scan
begin

lemma loop_contract:
  assumes law: "\<And>t s i s' i' b. step t s i = Some (s', i', b) \<Longrightarrow>
      extends (prog s) (prog s') \<and> (\<not> b \<longrightarrow> prog s' = prog s)"
    and "loop t s i ch = Some (s', ch')"
  shows "extends (prog s) (prog s') \<and> (\<not> ch' \<longrightarrow> prog s' = prog s)"
proof -
  have "extends (prog s) (prog s')"
    by (rule loop_keeps[OF _ _ assms(2), of "\<lambda>u. extends (prog s) (prog u)"])
       (use law in \<open>auto intro: extends_trans\<close>)
  moreover have "prog s' = prog s" if "\<not> ch'"
    using loop_quiet[of t s i ch s'] law assms(2) that by fastforce
  ultimately show ?thesis by blast
qed

end

locale code_pass =
  fixes pass :: "Compiler \<Rightarrow> (Compiler \<times> bool) option"
  assumes pass_extends: "pass c = Some (c', ch) \<Longrightarrow> extends c c'"
    and pass_quiet: "pass c = Some (c', False) \<Longrightarrow> c' = c"
begin

lemma run_extends: "run_pass pass s = Some s' \<Longrightarrow> extends c (fst s) \<Longrightarrow> extends c (fst s')"
  by (auto simp: run_pass_def Option.bind_eq_Some_conv dest!: pass_extends intro: extends_trans)

lemma run_quiet: "run_pass pass s = Some s' \<Longrightarrow> \<not> snd s' \<Longrightarrow> s' = s \<and> \<not> snd s \<and> pass (fst s) = Some (fst s, False)"
  by (cases s') (auto simp: run_pass_def Option.bind_eq_Some_conv prod_eq_iff dest: pass_quiet)

end

section \<open>The steps meet the contract\<close>

lemma fused_branch_law:
  "fused_branch_step t c i = Some (c', i', ch) \<Longrightarrow> extends c c' \<and> (\<not> ch \<longrightarrow> c' = c)"
  by (auto simp: fused_branch_step_def goes_on_def Let_def Option.bind_eq_Some_conv
      split: step_splits dest!: size_keep intro!: extends_set_bytecode)

lemma load_branch_law:
  "load_branch_step t c i = Some (c', i', ch) \<Longrightarrow> extends c c' \<and> (\<not> ch \<longrightarrow> c' = c)"
  by (auto simp: load_branch_step_def load_branch_rewrite_def goes_on_def Let_def Option.bind_eq_Some_conv
      split: step_splits dest!: size_keep intro!: extends_set_bytecode)

lemma in_place_law:
  "in_place_step t c i = Some (c', i', ch) \<Longrightarrow> extends c c' \<and> (\<not> ch \<longrightarrow> c' = c)"
  by (auto simp: in_place_step_def in_place_rewrite_def goes_on_def Let_def Option.bind_eq_Some_conv
      split: step_splits dest!: size_keep intro!: extends_set_bytecode)

lemma pool_law:
  "pool_step t c i = Some (c', i', ch) \<Longrightarrow> extends c c' \<and> (\<not> ch \<longrightarrow> c' = c)"
  by (auto simp: pool_step_def goes_on_def Let_def Option.bind_eq_Some_conv
      split: step_splits dest!: size_keep intro!: extends_set_bytecode)

lemma set_same_bytecode [simp]: "set_bytecode c (c_bytecode c) = c"
  by (simp add: set_bytecode_def)

lemma dead_branch_law:
  "dead_branch_step t s i = Some (s', i', ch) \<Longrightarrow> extends (fst s) (fst s') \<and> (\<not> ch \<longrightarrow> fst s' = fst s)"
  by (auto simp: dead_branch_step_def goes_on_def Let_def Option.bind_eq_Some_conv
      split: step_splits dest!: size_keep intro!: extends_set_bytecode)

lemma fold_law:
  "fold_step t c i = Some (c', i', ch) \<Longrightarrow> extends c c' \<and> (\<not> ch \<longrightarrow> c' = c)"
proof -
  assume h: "fold_step t c i = Some (c', i', ch)"
  have "extends c c'" if "fold_rewrite c i k r = Some (c', i', ch)" for k r
    using that by (auto simp: fold_rewrite_def Option.bind_eq_Some_conv split: prod.splits
        dest!: size_keep dest: extends_addConstant intro!: extends_set_bytecode)
  moreover have "(\<exists>k r. fold_rewrite c i k r = Some (c', i', ch)) \<or> (c' = c \<and> \<not> ch)"
    using h by (auto simp: fold_step_def goes_on_def Let_def Option.bind_eq_Some_conv split: step_splits)
  ultimately show ?thesis using fold_progress[OF h] by auto
qed

lemma divisor_law:
  "rewriteDivisorConstantToShift c e = Some (c', b) \<Longrightarrow> extends c c' \<and> (\<not> b \<longrightarrow> c' = c)"
  by (auto simp: rewriteDivisorConstantToShift_def extends_def Let_def Option.bind_eq_Some_conv
      split: step_splits dest!: size_keep)

lemma int_law:
  "int_step t s i = Some (s', i', ch) \<Longrightarrow> extends (fst s) (fst s') \<and> (\<not> ch \<longrightarrow> fst s' = fst s)"
proof -
  assume h: "int_step t s i = Some (s', i', ch)"
  have "extends c (fst s1) \<and> (\<not> b \<longrightarrow> fst s1 = c)" if "infer_arith c i op inf = Some (s1, b)" for c op inf s1 b
    using that divisor_length
    by (auto simp: infer_arith_def Let_def Option.bind_eq_Some_conv split: step_splits
        dest!: size_keep dest: divisor_law intro!: extends_set_bytecode)
  then show ?thesis using h
    by (auto simp: int_step_def goes_on_def Let_def Option.bind_eq_Some_conv split: step_splits)
qed

lemma replace_load_law:
  "replace_load bs i a = Some (b, x, ch) \<Longrightarrow> length b = length bs \<and> (\<not> ch \<longrightarrow> b = bs)"
  by (auto simp: replace_load_def Option.bind_eq_Some_conv split: step_splits dest!: size_keep)

lemma repeated_load_law:
  "drop_repeated_load t op x bs i = Some (b, ch) \<Longrightarrow> length b = length bs \<and> (\<not> ch \<longrightarrow> b = bs)"
  by (auto simp: drop_repeated_load_def Let_def Option.bind_eq_Some_conv split: step_splits dest!: size_keep)

lemma copy_law:
  "copy_step t s i = Some (s', i', ch) \<Longrightarrow> extends (fst s) (fst s') \<and> (\<not> ch \<longrightarrow> fst s' = fst s)"
  by (auto simp: copy_step_def goes_on_def Let_def Option.bind_eq_Some_conv split: step_splits
      dest!: repeated_load_law replace_load_law intro!: extends_set_bytecode)

section \<open>Interpretations\<close>

interpretation fold_scan: scan fold_step fold_loop "\<lambda>c. c" "\<lambda>c i. card (busy_after (c_bytecode c) i)"
proof (unfold_locales, goal_cases)
  case (1 t s i ch)
  show ?case by (rule fold_loop.simps)
next
  case (2 t s i s' i' b)
  have "finite (busy_after (c_bytecode s) i)" by (simp add: busy_after_def)
  then show ?case using fold_progress[OF 2(1)] psubset_card_mono by (auto split: if_splits)
qed

interpretation fused_branch_scan: scan fused_branch_step fused_branch_loop "\<lambda>c. c" "\<lambda>_ _. 0"
  by unfold_locales (rule fused_branch_loop.simps, simp add: fused_branch_progress)

interpretation load_branch_scan: scan load_branch_step load_branch_loop "\<lambda>c. c" "\<lambda>_ _. 0"
  by unfold_locales (rule load_branch_loop.simps, simp add: load_branch_progress)

interpretation in_place_scan: scan in_place_step in_place_loop "\<lambda>c. c" "\<lambda>_ _. 0"
  by unfold_locales (rule in_place_loop.simps, simp add: in_place_progress)

interpretation pool_scan: scan pool_step pool_loop "\<lambda>c. c" "\<lambda>_ _. 0"
  by unfold_locales (rule pool_loop.simps, simp add: pool_progress)

interpretation dead_branch_scan: scan dead_branch_step dead_branch_loop fst "\<lambda>_ _. 0"
  by unfold_locales (rule dead_branch_loop.simps, simp add: dead_branch_progress)

interpretation int_scan: scan int_step int_loop fst "\<lambda>_ _. 0"
  by unfold_locales (rule int_loop.simps, simp add: int_progress)

interpretation copy_scan: scan copy_step copy_loop fst "\<lambda>_ _. 0"
  by unfold_locales (rule copy_loop.simps, simp add: copy_progress)

section \<open>The passes meet the contract\<close>

lemma fold_loop_contract:
  "fold_loop t c i b = Some (c', ch) \<Longrightarrow> extends c c' \<and> (\<not> ch \<longrightarrow> c' = c)"
  by (erule fold_scan.loop_contract[rotated]) (erule fold_law)

lemma fused_branch_loop_contract:
  "fused_branch_loop t c i b = Some (c', ch) \<Longrightarrow> extends c c' \<and> (\<not> ch \<longrightarrow> c' = c)"
  by (erule fused_branch_scan.loop_contract[rotated]) (erule fused_branch_law)

lemma load_branch_loop_contract:
  "load_branch_loop t c i b = Some (c', ch) \<Longrightarrow> extends c c' \<and> (\<not> ch \<longrightarrow> c' = c)"
  by (erule load_branch_scan.loop_contract[rotated]) (erule load_branch_law)

lemma in_place_loop_contract:
  "in_place_loop t c i b = Some (c', ch) \<Longrightarrow> extends c c' \<and> (\<not> ch \<longrightarrow> c' = c)"
  by (erule in_place_scan.loop_contract[rotated]) (erule in_place_law)

lemma pool_loop_contract:
  "pool_loop t c i b = Some (c', ch) \<Longrightarrow> extends c c' \<and> (\<not> ch \<longrightarrow> c' = c)"
  by (erule pool_scan.loop_contract[rotated]) (erule pool_law)

lemma dead_branch_loop_contract:
  "dead_branch_loop t s i b = Some (s', ch) \<Longrightarrow> extends (fst s) (fst s') \<and> (\<not> ch \<longrightarrow> fst s' = fst s)"
  by (erule dead_branch_scan.loop_contract[rotated]) (erule dead_branch_law)

lemma int_loop_contract:
  "int_loop t s i b = Some (s', ch) \<Longrightarrow> extends (fst s) (fst s') \<and> (\<not> ch \<longrightarrow> fst s' = fst s)"
  by (erule int_scan.loop_contract[rotated]) (erule int_law)

lemma copy_loop_contract:
  "copy_loop t s i b = Some (s', ch) \<Longrightarrow> extends (fst s) (fst s') \<and> (\<not> ch \<longrightarrow> fst s' = fst s)"
  by (erule copy_scan.loop_contract[rotated]) (erule copy_law)

lemmas plain_pass_defs = optimizePeepholePass_def optimizeFusedBranchPass_def
  optimizeFusedLoadBranchPass_def optimizeInPlaceMathPass_def optimizeConstantPoolingPass_def Let_def

lemmas state_pass_defs = optimizeLocalCopyPropagationPass_def optimizeIntegerArithmeticPass_def
  optimizeDeadConditionalJumpPass_def

interpretation fold_pass: code_pass optimizePeepholePass
  by unfold_locales
     (auto simp: plain_pass_defs split: if_splits dest: fold_loop_contract)

interpretation fused_branch_pass: code_pass optimizeFusedBranchPass
  by unfold_locales
     (auto simp: plain_pass_defs split: if_splits dest: fused_branch_loop_contract)

interpretation load_branch_pass: code_pass optimizeFusedLoadBranchPass
  by unfold_locales
     (auto simp: plain_pass_defs split: if_splits dest: load_branch_loop_contract)

interpretation in_place_pass: code_pass optimizeInPlaceMathPass
  by unfold_locales
     (auto simp: plain_pass_defs split: if_splits dest: in_place_loop_contract)

interpretation pool_pass: code_pass optimizeConstantPoolingPass
  by unfold_locales
     (auto simp: plain_pass_defs split: if_splits dest: pool_loop_contract)

interpretation dead_branch_pass: code_pass optimizeDeadConditionalJumpPass
  by unfold_locales
     (auto simp: state_pass_defs dest: dead_branch_loop_contract)

interpretation int_pass: code_pass optimizeIntegerArithmeticPass
  by unfold_locales
     (auto simp: state_pass_defs dest: int_loop_contract)

interpretation copy_pass: code_pass optimizeLocalCopyPropagationPass
  by unfold_locales
     (auto simp: state_pass_defs dest: copy_loop_contract)

section \<open>The driver\<close>

lemma peephole_round_extends: "peephole_round c = Some (c', ch) \<Longrightarrow> extends c c'"
proof -
  assume "peephole_round c = Some (c', ch)"
  then obtain s1 s2 s3 s4 s5 s6 s7 where
    "run_pass optimizePeepholePass (c, False) = Some s1"
    "run_pass optimizeLocalCopyPropagationPass s1 = Some s2"
    "run_pass optimizeIntegerArithmeticPass s2 = Some s3"
    "run_pass optimizeDeadConditionalJumpPass s3 = Some s4"
    "run_pass optimizeFusedBranchPass s4 = Some s5"
    "run_pass optimizeFusedLoadBranchPass s5 = Some s6"
    "run_pass optimizeInPlaceMathPass s6 = Some s7"
    "run_pass optimizeConstantPoolingPass s7 = Some (c', ch)"
    by (auto simp: peephole_round_def Option.bind_eq_Some_conv)
  note r = this
  have "extends c (fst s1)" using fold_pass.run_extends[OF r(1)] by simp
  from pool_pass.run_extends[OF r(8) in_place_pass.run_extends[OF r(7) load_branch_pass.run_extends[OF r(6)
      fused_branch_pass.run_extends[OF r(5) dead_branch_pass.run_extends[OF r(4)
      int_pass.run_extends[OF r(3) copy_pass.run_extends[OF r(2) this]]]]]]]
  show ?thesis by simp
qed

text \<open>A quiet round: no pass has anything to do.\<close>

definition settled :: "Compiler \<Rightarrow> bool" where
  "settled c \<longleftrightarrow> list_all (\<lambda>pass. case pass c of Some (c', ch) \<Rightarrow> \<not> ch \<and> c' = c | None \<Rightarrow> False)
     [optimizePeepholePass, optimizeLocalCopyPropagationPass, optimizeIntegerArithmeticPass,
      optimizeDeadConditionalJumpPass, optimizeFusedBranchPass, optimizeFusedLoadBranchPass,
      optimizeInPlaceMathPass, optimizeConstantPoolingPass]"

lemma peephole_round_quiet: "peephole_round c = Some (c', False) \<Longrightarrow> c' = c \<and> settled c"
proof -
  assume "peephole_round c = Some (c', False)"
  then obtain s1 s2 s3 s4 s5 s6 s7 where
    "run_pass optimizePeepholePass (c, False) = Some s1"
    "run_pass optimizeLocalCopyPropagationPass s1 = Some s2"
    "run_pass optimizeIntegerArithmeticPass s2 = Some s3"
    "run_pass optimizeDeadConditionalJumpPass s3 = Some s4"
    "run_pass optimizeFusedBranchPass s4 = Some s5"
    "run_pass optimizeFusedLoadBranchPass s5 = Some s6"
    "run_pass optimizeInPlaceMathPass s6 = Some s7"
    "run_pass optimizeConstantPoolingPass s7 = Some (c', False)"
    by (auto simp: peephole_round_def Option.bind_eq_Some_conv)
  note r = this
  note q8 = pool_pass.run_quiet[OF r(8), simplified]
  then have n7: "\<not> snd s7" by auto
  note q7 = in_place_pass.run_quiet[OF r(7) n7]
  then have n6: "\<not> snd s6" by auto
  note q6 = load_branch_pass.run_quiet[OF r(6) n6]
  then have n5: "\<not> snd s5" by auto
  note q5 = fused_branch_pass.run_quiet[OF r(5) n5]
  then have n4: "\<not> snd s4" by auto
  note q4 = dead_branch_pass.run_quiet[OF r(4) n4]
  then have n3: "\<not> snd s3" by auto
  note q3 = int_pass.run_quiet[OF r(3) n3]
  then have n2: "\<not> snd s2" by auto
  note q2 = copy_pass.run_quiet[OF r(2) n2]
  then have n1: "\<not> snd s1" by auto
  note q1 = fold_pass.run_quiet[OF r(1) n1]
  show ?thesis
    using q1 q2 q3 q4 q5 q6 q7 q8 by (auto simp: settled_def)
qed

lemma optimizePeephole_result:
  "optimizePeephole c = Some c' \<Longrightarrow> extends c c' \<and> settled c'"
proof (induction rule: optimizePeephole.raw_induct[rotated, consumes 1, case_names round])
  case (round self c c')
  from round(2) obtain c1 ch where r: "peephole_round c = Some (c1, ch)"
    "if ch then self c1 = Some c' else c1 = c'"
    by (auto split: option.splits if_splits)
  show ?case
  proof (cases ch)
    case True
    with round(1)[of c1 c'] r peephole_round_extends[OF r(1)] show ?thesis by (auto intro: extends_trans)
  next
    case False
    with r peephole_round_quiet[of c c1] show ?thesis by auto
  qed
qed

lemma settled_round: "settled c \<Longrightarrow> peephole_round c = Some (c, False)"
  by (auto simp: settled_def peephole_round_def run_pass_def split: option.splits)

lemma optimizePeephole_settled: "settled c \<Longrightarrow> optimizePeephole c = Some c"
  by (subst optimizePeephole.simps) (simp add: settled_round)

end
