(* ===== verification/OptTotal.thy ===== *)
theory OptTotal
  imports OptLaws
begin

text \<open>
  The optimizer passes return: on any bytecode, well-formed or not, no slice access of the folding,
  branch-fusing, dead-branch, load-fusing, integer and constant-pooling loops is out of range. The
  loops end by the \<open>scan\<close> contract, so each pass is total.
\<close>

section \<open>Computations that return\<close>

named_theorems returns_intro \<open>introduction rules for \<open>returns\<close>\<close>

definition returns :: "'a option \<Rightarrow> bool" where
  "returns x \<longleftrightarrow> x \<noteq> None"

lemma returns_Some [returns_intro]: "returns (Some x)"
  by (simp add: returns_def)

lemma returns_goes_on [returns_intro]: "returns (goes_on s i)"
  by (simp add: returns_def goes_on_def)

lemma returns_bind [returns_intro]:
  "returns m \<Longrightarrow> (\<And>x. m = Some x \<Longrightarrow> returns (f x)) \<Longrightarrow> returns (m \<bind> f)"
  by (auto simp: returns_def)

lemma returns_if [returns_intro]:
  "(b \<Longrightarrow> returns x) \<Longrightarrow> (\<not> b \<Longrightarrow> returns y) \<Longrightarrow> returns (if b then x else y)"
  by simp

lemma returns_case [returns_intro]:
  "(opt = None \<Longrightarrow> returns x) \<Longrightarrow> (\<And>e. opt = Some e \<Longrightarrow> returns (f e)) \<Longrightarrow>
   returns (case opt of None \<Rightarrow> x | Some e \<Rightarrow> f e)"
  "(\<And>a b. p = (a, b) \<Longrightarrow> returns (g a b)) \<Longrightarrow> returns (case p of (a, b) \<Rightarrow> g a b)"
  by (auto split: option.splits prod.splits)

lemma returns_access [returns_intro]:
  "i + 2 \<le> length bs \<Longrightarrow> returns (be16_at bs i)"
  "i + 4 \<le> length bs \<Longrightarrow> returns (be32_at bs i)"
  "j < length xs \<Longrightarrow> returns (put_at xs j x)"
  "i + 2 \<le> length bs \<Longrightarrow> returns (put_be16 bs i n)"
  "i + 4 \<le> length bs \<Longrightarrow> returns (put_be32 bs i n)"
  "b \<le> length xs \<Longrightarrow> returns (fill_range xs a b x)"
  using fill_range_Some[of b xs a x]
  by (auto simp: returns_def be16_at_def be32_at_def put_at_def put_be16_def put_be32_def)

section \<open>No step fails\<close>

lemma fold_step_returns: "returns (fold_step t c i)"
proof -
  let ?bs = "c_bytecode c"
  define j where "j = skip_nops ?bs (i + 3)"
  define k where "k = skip_nops ?bs (j + 3)"
  have ge: "i + 3 \<le> j" "j + 3 \<le> k" by (simp_all add: j_def k_def skip_nops_ge)
  have r: "returns (fold_rewrite c i k r)" if "k < length ?bs" for r
    unfolding fold_rewrite_def Let_def
    by (intro returns_intro; (use that ge in \<open>auto dest!: size_keep\<close>)?)
  show ?thesis
    unfolding fold_step_def Let_def j_def[symmetric] k_def[symmetric]
    by (intro returns_intro r; (use ge in simp)?)
qed

lemma fused_branch_step_returns: "returns (fused_branch_step t c i)"
proof -
  let ?bs = "c_bytecode c"
  define j where "j = skip_nops ?bs (i + 1)"
  have ge: "i + 1 \<le> j" by (simp add: j_def skip_nops_ge)
  show ?thesis
    unfolding fused_branch_step_def Let_def j_def[symmetric]
    by (intro returns_intro; (use ge in \<open>auto dest!: size_keep\<close>)?)
qed

lemma load_branch_step_returns: "returns (load_branch_step t c i)"
proof -
  let ?bs = "c_bytecode c"
  define j where "j = skip_nops ?bs (i + 3)"
  have ge: "i + 3 \<le> j" by (simp add: j_def skip_nops_ge)
  have r: "returns (load_branch_rewrite c i j f)" if "j + 5 \<le> length ?bs" for f
    unfolding load_branch_rewrite_def Let_def
    by (intro returns_intro; (use that ge in \<open>auto dest!: size_keep\<close>)?)
  show ?thesis
    unfolding load_branch_step_def Let_def j_def[symmetric]
    by (intro returns_intro r; (use ge in simp)?)
qed

lemma jump_operand: "opcodeOperandSize OpJumpIfFalse bs i = 4"
  by (simp add: opcodeOperandSize_def op_defs size2_ops_def size4_jump_ops_def)

lemma dead_branch_step_returns: "returns (dead_branch_step t s i)"
  unfolding dead_branch_step_def Let_def
  by (intro returns_intro; (use jump_operand in \<open>auto dest!: size_keep\<close>)?)

text \<open>The collected constant loads do not overlap and lie inside the code.\<close>

definition loads_ok :: "bytes \<Rightarrow> (nat \<times> nat) list \<Rightarrow> bool" where
  "loads_ok bs found \<longleftrightarrow>
     sorted_wrt (\<lambda>a b. fst a + 3 \<le> fst b) found \<and> list_all (\<lambda>f. fst f + 3 \<le> length bs) found"

lemma loads_snoc:
  "loads_ok bs acc \<Longrightarrow> acc = [] \<or> fst (last acc) + 3 \<le> pos \<Longrightarrow> pos + 3 \<le> length bs \<Longrightarrow>
   loads_ok bs (acc @ [(pos, idx)])"
proof (cases acc rule: rev_cases)
  case Nil
  then show "pos + 3 \<le> length bs \<Longrightarrow> ?thesis" by (simp add: loads_ok_def)
next
  case (snoc ys z)
  assume a: "loads_ok bs acc" "acc = [] \<or> fst (last acc) + 3 \<le> pos" "pos + 3 \<le> length bs"
  have "fst y + 3 \<le> pos" if "y \<in> set ys" for y
    using a that snoc by (fastforce simp: loads_ok_def sorted_wrt_append)
  then show ?thesis using a snoc by (simp add: loads_ok_def sorted_wrt_append)
qed

lemma gather_ok:
  "loads_ok bs acc \<Longrightarrow> acc = [] \<or> fst (last acc) + 3 \<le> pos \<Longrightarrow> loads_ok bs (gather_constants t bs pos acc)"
proof (induction t bs pos acc rule: gather_constants.induct)
  case (1 t bs pos acc)
  have p: "pos + 3 \<le> length bs" if "be16_at bs (pos + 1) = Some idx" for idx
    using that by (auto simp: be16_at_def split: if_splits)
  show ?case
    using 1 p loads_snoc[OF "1.prems"]
    by (auto simp: gather_constants.simps[of t bs pos acc] split: option.splits)
qed

lemma gather_size:
  assumes "loads_ok bs found" "found \<noteq> []"
  shows "fst (hd found) + 3 * length found \<le> fst (last found) + 3"
  using assms
proof (induction found)
  case Nil
  then show ?case by simp
next
  case (Cons f fs)
  show ?case
  proof (cases fs)
    case Nil
    then show ?thesis by simp
  next
    case (Cons g gs)
    then have "fst f + 3 \<le> fst (hd fs)" "loads_ok bs fs" using Cons.prems by (auto simp: loads_ok_def)
    then show ?thesis using Cons.IH Cons by simp
  qed
qed

lemma put_indices_returns [returns_intro]: "p + 2 * length xs \<le> length bs \<Longrightarrow> returns (put_indices bs p xs)"
  by (induction xs arbitrary: bs p) (auto intro!: returns_intro dest!: size_keep)

lemma pool_step_returns: "returns (pool_step t c i)"
proof -
  let ?bs = "c_bytecode c" and ?f = "gather_constants t (c_bytecode c) i []"
  have ok: "loads_ok ?bs ?f" by (rule gather_ok) (simp_all add: loads_ok_def)
  have "fst (hd ?f) + 2 + 2 * length ?f \<le> fst (last ?f) + 3 \<and> fst (last ?f) + 3 \<le> length ?bs"
    if "2 \<le> length ?f"
  proof
    have ne: "?f \<noteq> []" using that by auto
    show "fst (hd ?f) + 2 + 2 * length ?f \<le> fst (last ?f) + 3" using gather_size[OF ok ne] that by linarith
    show "fst (last ?f) + 3 \<le> length ?bs" using ok ne by (simp add: loads_ok_def list_all_iff)
  qed
  then show ?thesis
    unfolding pool_step_def Let_def
    by (intro returns_intro; (auto dest!: size_keep)?)
qed

lemma infer_operand_size: "op \<in> set infer_operand_ops \<Longrightarrow> opcodeOperandSize op bs i = 2"
proof -
  have "list_all (\<lambda>x. x \<in> set size2_ops) infer_operand_ops"
    by (simp add: infer_operand_ops_def size2_ops_def)
  then show "op \<in> set infer_operand_ops \<Longrightarrow> ?thesis" by (simp add: list_all_iff opcodeOperandSize_def)
qed

lemma for_next_size:
  "opcodeOperandSize OpForNextFastInt bs i = 9" "opcodeOperandSize OpForNextFastGlobalInt bs i = 9"
  by (simp_all add: opcodeOperandSize_def op_defs size2_ops_def size4_jump_ops_def)

lemma divisor_returns [returns_intro]: "returns (rewriteDivisorConstantToShift c e)"
  unfolding rewriteDivisorConstantToShift_def Let_def by (intro returns_intro) simp

lemma infer_arith_returns:
  assumes "i < length (c_bytecode c)"
  shows "returns (infer_arith c i op s)"
  unfolding infer_arith_def Let_def
  by (intro returns_intro; (use assms in \<open>auto simp: Option.bind_eq_Some_conv dest!: divisor_length split: if_splits\<close>)?)

lemma int_step_returns:
  assumes "i < length (c_bytecode (fst s))"
  shows "returns (int_step t s i)"
proof -
  obtain c inf where s: "s = (c, inf)" by (cases s)
  have i: "i < length (c_bytecode c)" using assms s by simp
  show ?thesis
    unfolding int_step_def s Let_def prod.case
    by (intro returns_intro infer_arith_returns i; (auto simp: infer_operand_size for_next_size)?)
qed

section \<open>Copy propagation\<close>

text \<open>What the alias map holds when a position is decoded: nothing, or the one pair recorded by the
  load just before, whose \<open>OpLetLocal\<close> is the next instruction.\<close>

definition alias_pending :: "bytes \<Rightarrow> alias_map \<Rightarrow> nat \<Rightarrow> bool" where
  "alias_pending bs alias i \<longleftrightarrow> alias = Map.empty
     \<or> (\<exists>dst src. alias = [dst \<mapsto> src] \<and> skip_nops bs i + 2 < length bs \<and> bs ! skip_nops bs i = OpLetLocal
          \<and> be16_at bs (skip_nops bs i + 1) = Some dst)"

lemma skip_nops_here: "i < length bs \<Longrightarrow> bs ! i \<noteq> OpNop \<Longrightarrow> skip_nops bs i = i"
  by (simp add: skip_nops_def Cons_nth_drop_Suc[symmetric])

lemma skip_nops_next: "i < length bs \<Longrightarrow> bs ! i = OpNop \<Longrightarrow> skip_nops bs (i + 1) = skip_nops bs i"
  by (simp add: skip_nops_def Cons_nth_drop_Suc[symmetric])

lemma pending_empty: "alias_pending bs alias i \<Longrightarrow> i < length bs \<Longrightarrow> bs ! i \<noteq> OpNop \<Longrightarrow> bs ! i \<noteq> OpLetLocal \<Longrightarrow>
   alias = Map.empty"
  by (auto simp: alias_pending_def skip_nops_here)

lemma load_size:
  "opcodeOperandSize OpGetLocal bs i = 2" "opcodeOperandSize OpGetGlobal bs i = 2"
  "opcodeOperandSize OpLetLocal bs i = 2" "opcodeOperandSize OpSetLocal bs i = 2"
  "opcodeOperandSize OpIncLocalInt bs i = 2" "opcodeOperandSize OpDecLocalInt bs i = 2"
  "opcodeOperandSize OpNop bs i = 0"
  by (simp_all add: opcodeOperandSize_def op_defs size2_ops_def size4_jump_ops_def size4_ops_def)

lemma drop_repeated_returns [returns_intro]: "returns (drop_repeated_load t op x bs i)"
  unfolding drop_repeated_load_def Let_def
  by (intro returns_intro; (auto dest!: size_keep)?)

lemma replace_nothing: "i + 3 \<le> length bs \<Longrightarrow> \<exists>x. replace_load bs i Map.empty = Some (bs, x, False)"
  by (auto simp: replace_load_def be16_at_def)

lemma record_first: "\<exists>a. record_copy bs e x Map.empty = Some a \<and> alias_pending bs a e"
proof -
  have r: "resolve_alias Map.empty y = Some y" for y by (subst resolve_alias.simps) simp
  show ?thesis
    by (auto simp: record_copy_def Let_def r be16_at_def alias_pending_def)
qed

lemma drop_only_loads:
  "drop_repeated_load t op x bs e = Some (b, ch) \<Longrightarrow> skip_nops bs e < length bs \<Longrightarrow>
   bs ! skip_nops bs e \<noteq> op \<Longrightarrow> b = bs"
  by (auto simp: drop_repeated_load_def Let_def)

definition only_erases :: "bytes \<Rightarrow> bytes \<Rightarrow> bool" where
  "only_erases bs b \<longleftrightarrow> length b = length bs \<and> (\<forall>p < length bs. b ! p = bs ! p \<or> b ! p = OpNop)"

lemma only_erases_refl: "only_erases bs bs"
  by (simp add: only_erases_def)

lemma only_erases_trans: "only_erases a b \<Longrightarrow> only_erases b c \<Longrightarrow> only_erases a c"
  unfolding only_erases_def by metis

lemma erasing_writes:
  "fill_range bs a b OpNop = Some y \<Longrightarrow> only_erases bs y" "put_at bs i OpNop = Some y \<Longrightarrow> only_erases bs y"
  using fill_range_nth[of bs a b OpNop y] fill_range_length[of bs a b OpNop y]
  by (auto simp: only_erases_def put_at_def nth_list_update split: if_splits)

lemma drop_erases: "drop_repeated_load t op x bs e = Some (b, ch) \<Longrightarrow> only_erases bs b"
  by (auto simp: drop_repeated_load_def Let_def Option.bind_eq_Some_conv only_erases_refl
      split: if_splits intro: only_erases_trans erasing_writes)

lemma forget_pending:
  assumes "alias_pending bs alias i" "i + 3 \<le> length bs" "op = bs ! i"
    "op \<in> {OpLetLocal, OpSetLocal, OpIncLocalInt, OpDecLocalInt}" "be16_at bs (i + 1) = Some w"
  shows "forget_local w alias = Map.empty"
proof -
  have ne: "bs ! i \<noteq> OpNop" using assms(3,4) by (auto simp: op_defs)
  then show ?thesis
    using assms by (auto simp: alias_pending_def skip_nops_here forget_local_def fun_eq_iff op_defs)
qed

lemma copy_step_works:
  assumes "alias_pending (c_bytecode c) alias0 i" "i < length (c_bytecode c)"
  shows "\<exists>c' amap' i' ch. copy_step t (c, alias0) i = Some ((c', amap'), i', ch)
     \<and> alias_pending (c_bytecode c') amap' i' \<and> only_erases (c_bytecode c) (c_bytecode c')"
proof -
  let ?bs = "c_bytecode c"
  define op where "op = ?bs ! i"
  define e where "e = i + 1 + opcodeOperandSize op ?bs i"
  define amap where "amap = (if i \<in> set t then Map.empty else alias0)"
  have p: "alias_pending ?bs amap i" using assms(1) by (simp add: amap_def alias_pending_def)
  note emp = pending_empty[OF p assms(2), folded op_def]
  have none: "alias_pending b Map.empty k" for b k by (simp add: alias_pending_def)
  have step: "copy_step t (c, alias0) i = (if length ?bs < e then goes_on (c, amap) (length ?bs)
      else if op = OpGetLocal then
           do { (b1, local, ch1) \<leftarrow> replace_load ?bs i amap;
                alias1 \<leftarrow> record_copy b1 e local amap;
                (b2, ch2) \<leftarrow> drop_repeated_load t OpGetLocal local b1 e;
                Some ((set_bytecode c b2, alias1), e, ch1 \<or> ch2) }
         else if op = OpGetGlobal then
           do { global \<leftarrow> be16_at ?bs (i + 1);
                (b1, ch) \<leftarrow> drop_repeated_load t OpGetGlobal global ?bs e;
                Some ((set_bytecode c b1, amap), e, ch) }
         else if op \<in> {OpLetLocal, OpSetLocal, OpIncLocalInt, OpDecLocalInt} then
           do { written \<leftarrow> be16_at ?bs (i + 1); goes_on (c, forget_local written amap) e }
         else if op \<in> set alias_boundary_ops then goes_on (c, Map.empty) e
         else goes_on (c, amap) e)"
    unfolding copy_step_def op_def e_def amap_def by (simp only: Let_def prod.case)
  consider "length ?bs < e" | "e \<le> length ?bs" "op = OpGetLocal" | "e \<le> length ?bs" "op = OpGetGlobal"
    | "e \<le> length ?bs" "op \<in> {OpLetLocal, OpSetLocal, OpIncLocalInt, OpDecLocalInt}"
    | "e \<le> length ?bs" "op \<in> set alias_boundary_ops" "op \<noteq> OpGetLocal" "op \<noteq> OpGetGlobal"
      "op \<notin> {OpLetLocal, OpSetLocal, OpIncLocalInt, OpDecLocalInt}"
    | "e \<le> length ?bs" "op \<notin> set alias_boundary_ops" "op \<noteq> OpGetLocal" "op \<noteq> OpGetGlobal"
      "op \<notin> {OpLetLocal, OpSetLocal, OpIncLocalInt, OpDecLocalInt}"
    by linarith
  then show ?thesis
  proof cases
    case 1
    then have "op \<noteq> OpNop" using assms(2) load_size(7) by (auto simp: e_def)
    then have "amap = Map.empty"
      using 1 p emp load_size(3) by (auto simp: alias_pending_def skip_nops_here[OF assms(2)] op_def e_def)
    then show ?thesis using 1 step none only_erases_refl by (auto simp: goes_on_def)
  next
    case 2
    have al: "amap = Map.empty" using emp 2 by (simp add: op_defs)
    have i3: "i + 3 \<le> length ?bs" using 2 load_size(1) by (simp add: e_def)
    obtain x where x: "replace_load ?bs i Map.empty = Some (?bs, x, False)" using replace_nothing[OF i3] by auto
    obtain a where a: "record_copy ?bs e x Map.empty = Some a" "alias_pending ?bs a e" using record_first[of ?bs e x] by auto
    obtain b ch where d: "drop_repeated_load t OpGetLocal x ?bs e = Some (b, ch)"
      using drop_repeated_returns[of t OpGetLocal x ?bs e] by (auto simp: returns_def)
    have "alias_pending b a e"
    proof (cases "a = Map.empty")
      case False
      then have "b = ?bs" using a(2) drop_only_loads[OF d] by (auto simp: alias_pending_def op_defs)
      then show ?thesis using a(2) by simp
    qed (simp add: none)
    then show ?thesis
      using 2 step al x a(1) d drop_erases[OF d] by (auto simp: set_bytecode_def)
  next
    case 3
    have al: "amap = Map.empty" using emp 3 by (simp add: op_defs)
    obtain x where x: "be16_at ?bs (i + 1) = Some x"
      using 3 load_size(2) by (auto simp: e_def be16_at_def)
    obtain b ch where d: "drop_repeated_load t OpGetGlobal x ?bs e = Some (b, ch)"
      using drop_repeated_returns[of t OpGetGlobal x ?bs e] by (auto simp: returns_def)
    show ?thesis
      using 3 step al x d drop_erases[OF d] none by (auto simp: set_bytecode_def op_defs)
  next
    case 4
    have i3: "i + 3 \<le> length ?bs" using 4 load_size(3-6) by (auto simp: e_def)
    then obtain x where x: "be16_at ?bs (i + 1) = Some x" by (auto simp: be16_at_def)
    have "forget_local x amap = Map.empty" using forget_pending[OF p i3 op_def 4(2) x] .
    then show ?thesis
      using 4 step x none only_erases_refl by (auto simp: goes_on_def op_defs)
  next
    case 5
    then show ?thesis using step none only_erases_refl by (auto simp: goes_on_def)
  next
    case 6
    have "alias_pending ?bs amap e"
    proof (cases "op = OpNop")
      case True
      then have "e = i + 1" using load_size(7) by (simp add: e_def)
      then show ?thesis using p skip_nops_next[OF assms(2)] True by (simp add: alias_pending_def op_def)
    next
      case False
      then show ?thesis using 6 emp none by simp
    qed
    then show ?thesis using 6 step only_erases_refl by (auto simp: goes_on_def)
  qed
qed

lemma copy_loop_works:
  assumes "alias_pending (c_bytecode c) alias0 i"
  shows "\<exists>s' ch'. copy_loop t (c, alias0) i ch = Some (s', ch')"
proof -
  have step: "\<exists>s' i' b. copy_step t s k = Some (s', i', b) \<and> alias_pending (c_bytecode (fst s')) (snd s') i'"
    if "k < length (c_bytecode (fst s))" "alias_pending (c_bytecode (fst s)) (snd s) k" for s k
    using copy_step_works[of "fst s" "snd s" k t] that by fastforce
  show ?thesis
    by (rule copy_scan.loop_returns[where P = "\<lambda>s. alias_pending (c_bytecode (fst s)) (snd s)"])
       (use step assms in auto)
qed

section \<open>Properties\<close>

text \<open>The seven passes whose loops need no assumption on the code.\<close>

lemma loops_return:
  "\<exists>r. fold_loop t c i ch = Some r" "\<exists>r. fused_branch_loop t c i ch = Some r"
  "\<exists>r. load_branch_loop t c i ch = Some r" "\<exists>r. pool_loop t c i ch = Some r"
  "\<exists>r. dead_branch_loop t p i ch = Some r" "\<exists>r. int_loop t q i ch = Some r"
proof -
  have r: "\<exists>a b d. x = Some (a, b, d) \<and> True" if "returns x" for x :: "('s \<times> nat \<times> bool) option"
    using that by (cases x) (auto simp: returns_def)
  show "\<exists>r. fold_loop t c i ch = Some r"
    using fold_scan.loop_returns[where P = "\<lambda>_ _. True"] r[OF fold_step_returns] by fast
  show "\<exists>r. fused_branch_loop t c i ch = Some r"
    using fused_branch_scan.loop_returns[where P = "\<lambda>_ _. True"] r[OF fused_branch_step_returns] by fast
  show "\<exists>r. load_branch_loop t c i ch = Some r"
    using load_branch_scan.loop_returns[where P = "\<lambda>_ _. True"] r[OF load_branch_step_returns] by fast
  show "\<exists>r. pool_loop t c i ch = Some r"
    using pool_scan.loop_returns[where P = "\<lambda>_ _. True"] r[OF pool_step_returns] by fast
  show "\<exists>r. dead_branch_loop t p i ch = Some r"
    using dead_branch_scan.loop_returns[where P = "\<lambda>_ _. True"] r[OF dead_branch_step_returns] by fast
  show "\<exists>r. int_loop t q i ch = Some r"
    using int_scan.loop_returns[where P = "\<lambda>_ _. True"] r[OF int_step_returns] by fast
qed

context scan
begin

lemma loop_invariant:
  assumes "\<And>s i. i < length (c_bytecode (prog s)) \<Longrightarrow> P s i \<Longrightarrow>
      \<exists>s' i' b. step t s i = Some (s', i', b) \<and> P s' i'"
  shows "P s i \<Longrightarrow> \<exists>s' i' ch'. loop t s i ch = Some (s', ch') \<and> P s' i'"
proof (induction s i ch rule: loop_induct[of _ t])
  case (stop s i ch)
  then show ?case by (auto simp: loop_eq)
next
  case (panic s i ch)
  then show ?case using assms[of i s] by auto
next
  case (advance s i ch s1 i1 b)
  then show ?case using assms[of i s] by (auto simp: loop_eq[of t s i ch])
qed

end

text \<open>
  C10. Seven of the eight optimizer passes return on every bytecode, well-formed or not: their loops
  end and no access of the code is out of range.
\<close>

theorem passes_return:
  "(\<exists>r. optimizePeepholePass c = Some r) \<and> (\<exists>r. optimizeLocalCopyPropagationPass c = Some r)
   \<and> (\<exists>r. optimizeIntegerArithmeticPass c = Some r) \<and> (\<exists>r. optimizeDeadConditionalJumpPass c = Some r)
   \<and> (\<exists>r. optimizeFusedBranchPass c = Some r) \<and> (\<exists>r. optimizeFusedLoadBranchPass c = Some r)
   \<and> (\<exists>r. optimizeConstantPoolingPass c = Some r)"
proof -
  have "\<exists>r. copy_loop (collectJumpTargets (c_bytecode c)) (c, Map.empty) 0 False = Some r"
    using copy_loop_works[of c Map.empty 0] by (auto simp: alias_pending_def)
  then have m: "\<exists>r. optimizeLocalCopyPropagationPass c = Some r"
    unfolding state_pass_defs by (elim exE) simp
  obtain r1 r2 where "int_loop (collectJumpTargets (c_bytecode c)) (c, clearIntInference) 0 False = Some r1"
    "dead_branch_loop (collectJumpTargets (c_bytecode c)) (c, None) 0 False = Some r2"
    using loops_return(5,6) by meson
  then have m2: "\<exists>r. optimizeIntegerArithmeticPass c = Some r" "\<exists>r. optimizeDeadConditionalJumpPass c = Some r"
    unfolding state_pass_defs by simp_all
  have ite: "\<exists>r. y = Some r \<Longrightarrow> \<exists>r. (if b then Some x else y) = Some r" for b and x :: "Compiler \<times> bool" and y
    by simp
  have "\<exists>r. optimizePeepholePass c = Some r" "\<exists>r. optimizeFusedBranchPass c = Some r"
    "\<exists>r. optimizeFusedLoadBranchPass c = Some r" "\<exists>r. optimizeConstantPoolingPass c = Some r"
    unfolding plain_pass_defs by (rule ite, rule loops_return)+
  with m m2 show ?thesis by blast
qed

text \<open>
  The local copy propagation pass never propagates a copy: the alias recorded for a local is
  dropped again when the very next instruction is decoded, so on every program the pass only erases
  repeated loads (each byte of the code stays or becomes \<open>OpNop\<close>) and adds no constant.
\<close>

theorem copy_propagation_only_erases:
  "\<exists>c' ch. optimizeLocalCopyPropagationPass c = Some (c', ch)
     \<and> only_erases (c_bytecode c) (c_bytecode c') \<and> c_constants c' = c_constants c"
proof -
  let ?P = "\<lambda>s i. alias_pending (c_bytecode (fst s)) (snd s) i \<and> only_erases (c_bytecode c) (c_bytecode (fst s))
      \<and> c_constants (fst s) = c_constants c"
  have pool: "c_constants c2 = c_constants c1" if "copy_step t (c1, al) k = Some ((c2, al2), k2, b)" for t c1 al k c2 al2 k2 b
    using that by (auto simp: copy_step_def Let_def goes_on_def set_bytecode_def Option.bind_eq_Some_conv split: if_splits)
  have step: "\<exists>s' i' b. copy_step t s k = Some (s', i', b) \<and> ?P s' i'"
    if k: "k < length (c_bytecode (fst s))" and p: "?P s k" for s k t
  proof -
    obtain c1 al where s: "s = (c1, al)" by (cases s)
    obtain c2 al2 k2 b where st: "copy_step t (c1, al) k = Some ((c2, al2), k2, b)"
      "alias_pending (c_bytecode c2) al2 k2" "only_erases (c_bytecode c1) (c_bytecode c2)"
      using copy_step_works[of c1 al k t] k p s by auto
    have "only_erases (c_bytecode c) (c_bytecode c2)" using only_erases_trans[OF _ st(3)] p s by simp
    moreover have "c_constants c2 = c_constants c" using pool[OF st(1)] p s by simp
    ultimately show ?thesis using st(1,2) s by simp
  qed
  have "?P (c, Map.empty) 0" by (simp add: alias_pending_def only_erases_refl)
  from copy_scan.loop_invariant[where P = ?P, OF step this, of "collectJumpTargets (c_bytecode c)" False]
  obtain s' ch' where r: "copy_loop (collectJumpTargets (c_bytecode c)) (c, Map.empty) 0 False = Some (s', ch')"
    "only_erases (c_bytecode c) (c_bytecode (fst s'))" "c_constants (fst s') = c_constants c"
    by blast
  have "optimizeLocalCopyPropagationPass c = Some (fst s', ch')"
    unfolding optimizeLocalCopyPropagationPass_def r(1) by (simp add: case_prod_beta)
  with r(2,3) show ?thesis by blast
qed

end
