(* ===== verification/ObjectRefs.thy ===== *)
theory ObjectRefs
  imports Values
begin

text \<open>
  Reference counts of class instances (\<open>incrementObjectRefCount\<close>, \<open>decrementObjectRefCountEx\<close> in
  \<open>axonvm/vm.go\<close>). An instance whose count reaches zero is terminated once: its members are
  released in turn. The Go code recurses over the member map; here the values still to be released
  are a work list, members first, which visits them in the same depth-first order. Releasing an
  instance whose class declares \<open>Class_Terminate\<close> enters that procedure instead; the model stops
  there with \<open>None\<close>.
\<close>

section \<open>State\<close>

record Instance =
  in_refCount :: int
  in_terminated :: bool
  in_members :: "Value list"
  in_onTerminate :: bool

type_synonym objects = "i64 \<Rightarrow> Instance option"

definition live :: "objects \<Rightarrow> i64 set" where
  "live objs = {n. \<exists>inst. objs n = Some inst \<and> \<not> in_terminated inst}"

section \<open>Operations\<close>

definition incrementObjectRefCount :: "Value \<Rightarrow> objects \<Rightarrow> objects" where
  "incrementObjectRefCount obj objs =
     (if VType obj \<noteq> VTObject then objs
      else case objs (VNum obj) of
             None \<Rightarrow> objs
           | Some inst \<Rightarrow> (if in_terminated inst then objs
                          else objs(VNum obj \<mapsto> inst\<lparr>in_refCount := in_refCount inst + 1\<rparr>)))"

definition retire :: "Instance \<Rightarrow> Instance" where
  "retire inst = inst\<lparr>in_refCount := 0, in_terminated := True, in_members := []\<rparr>"

lemma live_retire:
  "objs n = Some inst \<Longrightarrow> \<not> in_terminated inst \<Longrightarrow> live (objs(n \<mapsto> retire inst)) \<subset> live objs"
  by (auto simp: live_def retire_def)

lemma live_count:
  "objs n = Some inst \<Longrightarrow> live (objs(n \<mapsto> inst\<lparr>in_refCount := k\<rparr>)) = live objs"
  by (auto simp: live_def)

text \<open>\<open>suppress\<close> is \<open>vm.suppressTerminate\<close>.\<close>

function release :: "bool \<Rightarrow> objects \<Rightarrow> Value list \<Rightarrow> objects option" where
  "release suppress objs [] = Some objs"
| "release suppress objs (v # vs) =
     (if VType v \<noteq> VTObject then release suppress objs vs
      else case objs (VNum v) of
             None \<Rightarrow> release suppress objs vs
           | Some inst \<Rightarrow>
             (if in_terminated inst then release suppress objs vs
              else if 0 < in_refCount inst - 1
              then release suppress (objs(VNum v \<mapsto> inst\<lparr>in_refCount := in_refCount inst - 1\<rparr>)) vs
              else if in_onTerminate inst \<and> \<not> suppress then None
              else release suppress (objs(VNum v \<mapsto> retire inst)) (in_members inst @ vs)))"
  by pat_completeness auto

termination
proof (relation "inv_image (less_than <*lex*> less_than) (\<lambda>(b, objs, vs). (card (live objs), length vs))", goal_cases)
  case (6 suppress objs v vs inst)
  then have "card (live (objs(VNum v \<mapsto> retire inst))) < card (live objs)"
    using live_retire by (intro psubset_card_mono) auto
  then show ?case by simp
qed (auto simp: live_count)

definition decrementObjectRefCountEx :: "bool \<Rightarrow> Value \<Rightarrow> bool \<Rightarrow> objects \<Rightarrow> objects option" where
  "decrementObjectRefCountEx suppress obj isReturnValue objs =
     (case objs (VNum obj) of
        Some inst \<Rightarrow>
          (if VType obj = VTObject \<and> \<not> in_terminated inst \<and> in_refCount inst - 1 \<le> 0 \<and> isReturnValue
           then Some (objs(VNum obj \<mapsto> inst\<lparr>in_refCount := 0\<rparr>))
           else release suppress objs [obj])
      | None \<Rightarrow> release suppress objs [obj])"

definition decrementObjectRefCount :: "bool \<Rightarrow> Value \<Rightarrow> objects \<Rightarrow> objects option" where
  "decrementObjectRefCount suppress obj objs = decrementObjectRefCountEx suppress obj False objs"

section \<open>Laws\<close>

text \<open>Counts are never negative, and a terminated instance holds nothing.\<close>

definition counts_ok :: "objects \<Rightarrow> bool" where
  "counts_ok objs \<longleftrightarrow> (\<forall>n inst. objs n = Some inst \<longrightarrow>
     0 \<le> in_refCount inst \<and> (in_terminated inst \<longrightarrow> in_refCount inst = 0 \<and> in_members inst = []))"

lemma counts_increment: "counts_ok objs \<Longrightarrow> counts_ok (incrementObjectRefCount v objs)"
  by (auto simp: counts_ok_def incrementObjectRefCount_def split: option.splits)

lemma release_step:
  "\<not> (VType v = VTObject \<and> (\<exists>inst. objs (VNum v) = Some inst \<and> \<not> in_terminated inst)) \<Longrightarrow>
   release b objs (v # vs) = release b objs vs"
  "VType v = VTObject \<Longrightarrow> objs (VNum v) = Some inst \<Longrightarrow> \<not> in_terminated inst \<Longrightarrow>
   release b objs (v # vs) =
     (if 0 < in_refCount inst - 1
      then release b (objs(VNum v \<mapsto> inst\<lparr>in_refCount := in_refCount inst - 1\<rparr>)) vs
      else if in_onTerminate inst \<and> \<not> b then None
      else release b (objs(VNum v \<mapsto> retire inst)) (in_members inst @ vs))"
  by (auto split: option.splits)

declare release.simps(2) [simp del]

lemma release_keeps:
  assumes count: "\<And>objs n inst. P objs \<Longrightarrow> objs n = Some inst \<Longrightarrow> \<not> in_terminated inst \<Longrightarrow>
      0 < in_refCount inst - 1 \<Longrightarrow> P (objs(n \<mapsto> inst\<lparr>in_refCount := in_refCount inst - 1\<rparr>))"
    and retire: "\<And>objs n inst. P objs \<Longrightarrow> objs n = Some inst \<Longrightarrow> \<not> in_terminated inst \<Longrightarrow>
      P (objs(n \<mapsto> retire inst))"
  shows "release b objs vs = Some objs' \<Longrightarrow> P objs \<Longrightarrow> P objs'"
proof (induction b objs vs rule: release.induct)
  case (1 b objs)
  then show ?case by simp
next
  case (2 b objs v vs)
  show ?case
  proof (cases "VType v = VTObject \<and> (\<exists>inst. objs (VNum v) = Some inst \<and> \<not> in_terminated inst)")
    case False
    then have eq: "release b objs (v # vs) = release b objs vs" by (rule release_step)
    consider "VType v \<noteq> VTObject" | "VType v = VTObject" "objs (VNum v) = None"
      | inst where "VType v = VTObject" "objs (VNum v) = Some inst" "in_terminated inst"
      using False by blast
    then show ?thesis using 2 unfolding eq by cases blast+
  next
    case True
    then obtain inst where inst: "VType v = VTObject" "objs (VNum v) = Some inst" "\<not> in_terminated inst" by blast
    note eq = release_step(2)[of v objs inst b vs, OF inst]
    consider "0 < in_refCount inst - 1" | "\<not> 0 < in_refCount inst - 1" "\<not> (in_onTerminate inst \<and> \<not> b)"
      using "2.prems"(1) unfolding eq by (auto split: if_splits)
    then show ?thesis
    proof cases
      case 1
      with "2.IH"(4)[OF _ inst(2) inst(3) 1] "2.prems" inst(1) count[OF "2.prems"(2) inst(2,3) 1]
      show ?thesis unfolding eq by (simp add: fun_upd_def)
    next
      case b: 2
      with "2.IH"(5)[OF _ inst(2) inst(3) b(1) b(2)] "2.prems" inst(1) retire[OF "2.prems"(2) inst(2,3)]
      show ?thesis unfolding eq by (simp add: fun_upd_def)
    qed
  qed
qed

lemma release_counts: "release b objs vs = Some objs' \<Longrightarrow> counts_ok objs \<Longrightarrow> counts_ok objs'"
  by (erule release_keeps[rotated 2]) (auto simp: counts_ok_def retire_def)

text \<open>A terminated instance is never touched again, and no instance appears or disappears.\<close>

lemma release_terminated:
  assumes "release b objs vs = Some objs'" "objs n = Some inst" "in_terminated inst"
  shows "objs' n = Some inst"
  by (rule release_keeps[OF _ _ assms(1), of "\<lambda>objs. objs n = Some inst"]) (use assms in auto)

lemma release_domain: "release b objs vs = Some objs' \<Longrightarrow> dom objs' = dom objs"
  by (erule release_keeps[rotated 2, where P = "\<lambda>u. dom u = dom objs"]) auto

text \<open>With no \<open>Class_Terminate\<close> to run, the release always completes.\<close>

definition quiet_classes :: "bool \<Rightarrow> objects \<Rightarrow> bool" where
  "quiet_classes suppress objs \<longleftrightarrow> suppress \<or> (\<forall>n inst. objs n = Some inst \<longrightarrow> \<not> in_onTerminate inst)"

lemma quiet_update:
  "quiet_classes b objs \<Longrightarrow> objs n = Some inst \<Longrightarrow> quiet_classes b (objs(n \<mapsto> inst\<lparr>in_refCount := k\<rparr>))"
  "quiet_classes b objs \<Longrightarrow> objs n = Some inst \<Longrightarrow> quiet_classes b (objs(n \<mapsto> retire inst))"
  by (auto simp: quiet_classes_def retire_def)

lemma release_returns: "quiet_classes b objs \<Longrightarrow> \<exists>objs'. release b objs vs = Some objs'"
proof (induction b objs vs rule: release.induct)
  case (1 b objs)
  then show ?case by simp
next
  case (2 b objs v vs)
  show ?case
  proof (cases "VType v = VTObject \<and> (\<exists>inst. objs (VNum v) = Some inst \<and> \<not> in_terminated inst)")
    case False
    then have eq: "release b objs (v # vs) = release b objs vs" by (rule release_step)
    consider "VType v \<noteq> VTObject" | "VType v = VTObject" "objs (VNum v) = None"
      | inst where "VType v = VTObject" "objs (VNum v) = Some inst" "in_terminated inst"
      using False by blast
    then show ?thesis using 2 unfolding eq by cases blast+
  next
    case True
    then obtain inst where inst: "VType v = VTObject" "objs (VNum v) = Some inst" "\<not> in_terminated inst" by blast
    have nt: "\<not> (in_onTerminate inst \<and> \<not> b)" using "2.prems" inst by (auto simp: quiet_classes_def)
    show ?thesis
      using "2.IH"(4)[OF _ inst(2) inst(3)] "2.IH"(5)[OF _ inst(2) inst(3) _ nt] "2.prems" inst nt quiet_update
      unfolding release_step(2)[of v objs inst b vs, OF inst] by (auto simp: fun_upd_def)
  qed
qed

section \<open>Properties\<close>

definition demo_objects :: objects where
  "demo_objects = (\<lambda>n. if n = 1 then Some \<lparr>in_refCount = 1, in_terminated = False,
       in_members = [(typed VTObject)\<lparr>VNum := 2\<rparr>], in_onTerminate = False\<rparr>
     else if n = 2 then Some \<lparr>in_refCount = 1, in_terminated = False, in_members = [], in_onTerminate = False\<rparr>
     else None)"

text \<open>
  C40. Dropping a reference always completes when no \<open>Class_Terminate\<close> is due, however the instances
  refer to each other (cycles included): counts stay non-negative, a terminated instance has count
  zero, holds no members and is never touched again, and no instance appears or disappears.
\<close>

theorem reference_counts_are_kept:
  assumes "counts_ok objs" "quiet_classes b objs"
  shows "\<exists>objs'. decrementObjectRefCount b v objs = Some objs' \<and> counts_ok objs' \<and> dom objs' = dom objs
     \<and> (\<forall>n inst. objs n = Some inst \<and> in_terminated inst \<longrightarrow> objs' n = Some inst)"
proof -
  have eq: "decrementObjectRefCount b v objs = release b objs [v]"
    by (simp add: decrementObjectRefCount_def decrementObjectRefCountEx_def split: option.splits)
  obtain objs' where r: "release b objs [v] = Some objs'" using release_returns[OF assms(2)] by blast
  show ?thesis
    unfolding eq using r release_counts[OF r assms(1)] release_domain[OF r] release_terminated[OF r] by blast
qed

theorem reference_counts_are_kept_witness:
  "\<exists>objs'. decrementObjectRefCount False ((typed VTObject)\<lparr>VNum := 1\<rparr>) demo_objects = Some objs'
     \<and> dom objs' = {1, 2}"
proof -
  have "counts_ok demo_objects" "quiet_classes False demo_objects" "dom demo_objects = {1, 2}"
    by (auto simp: demo_objects_def counts_ok_def quiet_classes_def split: if_splits)
  then show ?thesis using reference_counts_are_kept[of demo_objects False "(typed VTObject)\<lparr>VNum := 1\<rparr>"] by auto
qed

end
