(* ===== verification/Machine.thy ===== *)
theory Machine
  imports Bytecode ValueOps ObjectRefs
begin

text \<open>
  The stack machine (\<open>VM.Run\<close> in \<open>axonvm/vm.go\<close>): its state, \<open>push\<close>, \<open>pop\<close> and \<open>raise\<close>, and one
  definition per group of \<open>case\<close>s of the dispatch loop. A step fetches the opcode at \<open>ip\<close> and executes
  it completely. Its outcome is a running machine, a finished run, an error returned by \<open>Run\<close>, the
  machine as \<open>raiseVMError\<close> leaves it when the error is handed to a calling frame, a Go run-time
  panic, or \<open>Beyond\<close> where the instruction leaves the modelled fragment (calls of library objects,
  events, \<open>Class_Terminate\<close>, JScript).

  The stack is an array of \<open>StackSize\<close> slots; it is a function on \<open>int\<close> read and written only
  through bounds checks.
\<close>

section \<open>State\<close>

type_synonym err = "VBSyntaxErrorCode \<times> string"

record byRef =
  br_calleeParamIdx :: int
  br_isGlobal :: bool
  br_callerIdx :: int
  br_isClassMember :: bool

record Frame =
  fr_callee :: Value
  fr_returnIP :: nat
  fr_oldFP :: int
  fr_oldSP :: int
  fr_boundObj :: i64
  fr_discard :: bool
  fr_byRefs :: "byRef list"
  fr_savedOnResumeNext :: bool
  fr_savedSkipToNextStmt :: bool
  fr_savedStmtSP :: int
  fr_terminateObjID :: i64

record VM =
  vm_bytecode :: bytes
  vm_ip :: nat
  vm_sp :: int
  vm_fp :: int
  vm_stack :: "int \<Rightarrow> Value"
  vm_constants :: "Value list"
  vm_Globals :: "Value list"
  vm_globalNames :: "string list"
  vm_globalTypes :: "ValueType list"
  vm_globalClassTypes :: "nat \<Rightarrow> string option"
  vm_globalWithEvents :: "nat \<Rightarrow> bool"
  vm_localTypes :: "int \<Rightarrow> ValueType"
  vm_funcLocalTypes :: "i64 \<Rightarrow> (nat \<times> ValueType) list"
  vm_funcLocalClassTypes :: "i64 \<Rightarrow> nat \<Rightarrow> string option"
  vm_funcParamDefaults :: "i64 \<Rightarrow> int list"
  vm_optionCompare :: nat
  vm_onResumeNext :: bool
  vm_executeGlobalResumeGuard :: bool
  vm_skipToNextStmt :: bool
  vm_stmtSP :: int
  vm_lastLine :: nat
  vm_lastColumn :: nat
  vm_errObject :: "err option"
  vm_lastError :: "err option"
  vm_callStack :: "Frame list"
  vm_activeClassObjectID :: i64
  vm_suppressTerminate :: bool
  vm_objs :: objects
  vm_output :: "string option"

definition StackSize :: int where "StackSize = 4096"

text \<open>\<open>callStack\<close> has the innermost frame first.\<close>

datatype outcome =
    Running VM
  | Finished VM
  | Failed err VM
  | Unwound VM
  | GoPanic
  | Beyond

text \<open>The operators see the machine's \<open>Option Compare\<close> and its stack.\<close>

definition host_of :: "host \<Rightarrow> VM \<Rightarrow> host" where
  "host_of h vm = h\<lparr>h_text_compare := (vm_optionCompare vm = 1), h_arg_slot := (\<lambda>n. vm_stack vm (sint n))\<rparr>"

section \<open>Errors\<close>

text \<open>\<open>raiseVMError\<close>'s walk to the nearest frame whose caller had Resume Next active: the frames
  from the innermost to that one are discarded and their slots released.\<close>

fun release_range :: "VM \<Rightarrow> int \<Rightarrow> nat \<Rightarrow> VM option" where
  "release_range vm k 0 = Some vm"
| "release_range vm k (Suc n) =
     (if 0 \<le> k \<and> k < StackSize
      then (case decrementObjectRefCount (vm_suppressTerminate vm) (vm_stack vm k) (vm_objs vm) of
              None \<Rightarrow> None | Some objs' \<Rightarrow> release_range (vm\<lparr>vm_objs := objs'\<rparr>) (k + 1) n)
      else release_range vm (k + 1) n)"

fun unwind :: "VM \<Rightarrow> int \<Rightarrow> int \<Rightarrow> err \<Rightarrow> Frame list \<Rightarrow> VM option" where
  "unwind vm curFP curSP e [] = None"
| "unwind vm curFP curSP e (frame # rest) =
     (case release_range vm curFP (nat (curSP + 1 - curFP)) of
        None \<Rightarrow> None
      | Some vm1 \<Rightarrow>
        (if fr_savedOnResumeNext frame
         then Some (vm1\<lparr>vm_callStack := rest, vm_sp := fr_oldSP frame, vm_fp := fr_oldFP frame, vm_ip := fr_returnIP frame,
                        vm_activeClassObjectID := fr_boundObj frame, vm_onResumeNext := True, vm_lastError := Some e\<rparr>)
         else unwind vm1 (fr_oldFP frame) (fr_oldSP frame) e rest))"

definition raise_vm :: "err \<Rightarrow> VM \<Rightarrow> (VM \<Rightarrow> outcome) \<Rightarrow> outcome" where
  "raise_vm e vm0 k =
     (let vm = vm0\<lparr>vm_errObject := Some e\<rparr>
      in if vm_onResumeNext vm \<or> vm_executeGlobalResumeGuard vm
         then k (vm\<lparr>vm_lastError := Some e, vm_skipToNextStmt := True\<rparr>)
         else if list_ex fr_savedOnResumeNext (vm_callStack vm)
         then (case unwind vm (vm_fp vm) (vm_sp vm) e (vm_callStack vm) of None \<Rightarrow> Beyond | Some vm' \<Rightarrow> Unwound vm')
         else Failed e vm)"

definition raised_then :: "raised \<Rightarrow> VM \<Rightarrow> (VM \<Rightarrow> outcome) \<Rightarrow> outcome" where
  "raised_then r vm k = (case r of None \<Rightarrow> k vm | Some e \<Rightarrow> raise_vm e vm k)"

definition plain_error :: "VBSyntaxErrorCode \<Rightarrow> string \<Rightarrow> err" where
  "plain_error c msg = the (raise_error c msg)"

section \<open>Stack, slots and operands\<close>

definition in_stack :: "int \<Rightarrow> bool" where
  "in_stack i \<longleftrightarrow> 0 \<le> i \<and> i < StackSize"

definition put :: "VM \<Rightarrow> int \<Rightarrow> Value \<Rightarrow> VM" where
  "put vm i v = vm\<lparr>vm_stack := (vm_stack vm)(i := v)\<rparr>"

definition slot_then :: "VM \<Rightarrow> int \<Rightarrow> (Value \<Rightarrow> outcome) \<Rightarrow> outcome" where
  "slot_then vm i k = (if in_stack i then k (vm_stack vm i) else GoPanic)"

definition push_then :: "host \<Rightarrow> VM \<Rightarrow> Value \<Rightarrow> (VM \<Rightarrow> outcome) \<Rightarrow> outcome" where
  "push_then h vm v k =
     (if StackSize \<le> vm_sp vm + 1 then
        (if h_is_js h then Beyond else raise_vm (plain_error StackOverflow ''Stack overflow'') vm k)
      else if in_stack (vm_sp vm + 1) then k (put (vm\<lparr>vm_sp := vm_sp vm + 1\<rparr>) (vm_sp vm + 1) v)
      else GoPanic)"

definition pop_then :: "host \<Rightarrow> VM \<Rightarrow> (Value \<Rightarrow> VM \<Rightarrow> outcome) \<Rightarrow> outcome" where
  "pop_then h vm k =
     (if vm_sp vm < 0 then
        (if h_is_js h then Beyond
         else raise_vm (plain_error InternalError ''Stack underflow'') vm (k (typed VTEmpty)))
      else slot_then vm (vm_sp vm) (\<lambda>v. k v (vm\<lparr>vm_sp := vm_sp vm - 1\<rparr>)))"

definition u16_then :: "VM \<Rightarrow> (nat \<Rightarrow> VM \<Rightarrow> outcome) \<Rightarrow> outcome" where
  "u16_then vm k = (case be16_at (vm_bytecode vm) (vm_ip vm) of
      None \<Rightarrow> GoPanic | Some n \<Rightarrow> k n (vm\<lparr>vm_ip := vm_ip vm + 2\<rparr>))"

definition u32_then :: "VM \<Rightarrow> (nat \<Rightarrow> VM \<Rightarrow> outcome) \<Rightarrow> outcome" where
  "u32_then vm k = (case be32_at (vm_bytecode vm) (vm_ip vm) of
      None \<Rightarrow> GoPanic | Some n \<Rightarrow> k n (vm\<lparr>vm_ip := vm_ip vm + 4\<rparr>))"

definition const_then :: "VM \<Rightarrow> nat \<Rightarrow> (Value \<Rightarrow> outcome) \<Rightarrow> outcome" where
  "const_then vm i k = (if i < length (vm_constants vm) then k (vm_constants vm ! i) else GoPanic)"

definition global_then :: "VM \<Rightarrow> nat \<Rightarrow> (Value \<Rightarrow> outcome) \<Rightarrow> outcome" where
  "global_then vm i k = (if i < length (vm_Globals vm) then k (vm_Globals vm ! i) else GoPanic)"

definition put_global :: "VM \<Rightarrow> nat \<Rightarrow> Value \<Rightarrow> VM" where
  "put_global vm i v = vm\<lparr>vm_Globals := (vm_Globals vm)[i := v]\<rparr>"

lemmas access_defs = slot_then_def u16_then_def u32_then_def const_then_def global_then_def

section \<open>Loads and stores\<close>

definition getCurrentFuncEntryPoint :: "VM \<Rightarrow> i64" where
  "getCurrentFuncEntryPoint vm = (case vm_callStack vm of
      [] \<Rightarrow> 0 | f # _ \<Rightarrow> if VType (fr_callee f) = VTUserSub then VNum (fr_callee f) else 0)"

definition with_class :: "string option \<Rightarrow> Value \<Rightarrow> Value" where
  "with_class cls v = (case cls of
      Some className \<Rightarrow> (if VType v = VTObject then v\<lparr>VInterface := className\<rparr> else v) | None \<Rightarrow> v)"

definition local_class :: "VM \<Rightarrow> nat \<Rightarrow> string option" where
  "local_class vm idx = vm_funcLocalClassTypes vm (getCurrentFuncEntryPoint vm) idx"

definition load_global :: "VM \<Rightarrow> nat \<Rightarrow> Value \<Rightarrow> Value" where
  "load_global vm idx v =
     with_class (vm_globalClassTypes vm idx)
       (if VType v = VTEmpty \<and> idx < length (vm_globalNames vm) \<and> has_prefix ''__static_'' (vm_globalNames vm ! idx)
        then v\<lparr>VInterface := ''static''\<rparr> else v)"

text \<open>The counting around an assignment. \<open>inc_first\<close> is the order of \<open>OpSetGlobal\<close>,
  \<open>OpLetLocal\<close> and \<open>OpSet\<close>: increment the new value, then decrement the old one.\<close>

definition dec_then :: "VM \<Rightarrow> Value \<Rightarrow> (VM \<Rightarrow> outcome) \<Rightarrow> outcome" where
  "dec_then vm v k =
     (if VType v = VTObject
      then (case decrementObjectRefCount (vm_suppressTerminate vm) v (vm_objs vm) of
              None \<Rightarrow> Beyond | Some objs' \<Rightarrow> k (vm\<lparr>vm_objs := objs'\<rparr>))
      else k vm)"

definition inc_ref :: "Value \<Rightarrow> VM \<Rightarrow> VM" where
  "inc_ref v vm = vm\<lparr>vm_objs := incrementObjectRefCount v (vm_objs vm)\<rparr>"

definition assign_then ::
    "bool \<Rightarrow> (VM \<Rightarrow> VM) \<Rightarrow> Value \<Rightarrow> Value \<Rightarrow> VM \<Rightarrow> (VM \<Rightarrow> outcome) \<Rightarrow> outcome" where
  "assign_then inc_first store prev new vm k =
     (if inc_first then dec_then (inc_ref new (store vm)) prev k
      else dec_then vm prev (\<lambda>vm1. k (inc_ref new (store vm1))))"

text \<open>The declared type of a slot: coercion, or its error. A copied record is beyond the fragment.\<close>

definition coerce_then ::
    "host \<Rightarrow> VM \<Rightarrow> ValueType \<Rightarrow> Value \<Rightarrow> (Value \<Rightarrow> VM \<Rightarrow> outcome) \<Rightarrow> outcome" where
  "coerce_then h vm t v k =
     (if t = VTRecord \<and> VType v = VTRecord then Beyond
      else case coerceToDeclaredType h (\<lambda>v. v) v t of
             Some v' \<Rightarrow> k v' vm
           | None \<Rightarrow> raise_vm (plain_error TypeMismatch (coerce_error v t)) vm Running)"

definition declared_global :: "VM \<Rightarrow> nat \<Rightarrow> ValueType" where
  "declared_global vm idx = (if idx < length (vm_globalTypes vm) then vm_globalTypes vm ! idx else VTEmpty)"

definition store_global :: "host \<Rightarrow> VM \<Rightarrow> nat \<Rightarrow> Value \<Rightarrow> outcome" where
  "store_global h vm idx new =
     (if vm_globalWithEvents vm idx then Beyond
      else global_then vm idx (\<lambda>prev. assign_then True (\<lambda>u. put_global u idx new) prev new vm Running))"

definition exec_SetGlobal :: "host \<Rightarrow> VM \<Rightarrow> outcome" where
  "exec_SetGlobal h vm =
     u16_then vm (\<lambda>idx vm. pop_then h vm (\<lambda>v vm.
       if declared_global vm idx \<noteq> VTEmpty
       then coerce_then h vm (declared_global vm idx) v
              (\<lambda>v vm. store_global h vm idx (with_class (vm_globalClassTypes vm idx) v))
       else store_global h vm idx (v\<lparr>VInterface := []\<rparr>)))"

definition exec_LetGlobal :: "host \<Rightarrow> VM \<Rightarrow> outcome" where
  "exec_LetGlobal h vm =
     (let store = (\<lambda>idx new vm.
        global_then vm idx (\<lambda>prev. assign_then False (\<lambda>u. put_global u idx new) prev new vm Running))
      in u16_then vm (\<lambda>idx vm. pop_then h vm (\<lambda>v vm.
           if declared_global vm idx \<noteq> VTEmpty
           then coerce_then h vm (declared_global vm idx) v (store idx)
           else store idx (v\<lparr>VInterface := []\<rparr>) vm)))"

definition exec_store_local :: "bool \<Rightarrow> host \<Rightarrow> VM \<Rightarrow> outcome" where
  "exec_store_local inc_first h vm =
     u16_then vm (\<lambda>offset vm.
       let slot = vm_fp vm + int offset;
           store = (\<lambda>new vm. slot_then vm slot (\<lambda>prev. assign_then inc_first (\<lambda>u. put u slot new) prev new vm Running))
       in pop_then h vm (\<lambda>v vm.
            if \<not> in_stack slot then GoPanic
            else if vm_localTypes vm slot \<noteq> VTEmpty
            then coerce_then h vm (vm_localTypes vm slot) v (\<lambda>v vm. store (with_class (local_class vm offset) v) vm)
            else store (v\<lparr>VInterface := []\<rparr>) vm))"

definition exec_Set :: "host \<Rightarrow> VM \<Rightarrow> outcome" where
  "exec_Set h vm =
     u16_then vm (\<lambda>destOp vm. u16_then vm (\<lambda>destIdx vm. pop_then h vm (\<lambda>v vm.
       if (word_of_nat destOp :: byte) = OpSetGlobal then
         (let store = (\<lambda>new vm. global_then vm destIdx
                (\<lambda>prev. assign_then True (\<lambda>u. put_global u destIdx new) prev new vm Running))
          in if declared_global vm destIdx \<noteq> VTEmpty
             then coerce_then h vm (declared_global vm destIdx) v
                    (\<lambda>v vm. store (with_class (vm_globalClassTypes vm destIdx) v) vm)
             else store v vm)
       else if (word_of_nat destOp :: byte) = OpSetLocal then
         (let slot = vm_fp vm + int destIdx;
              store = (\<lambda>new vm. slot_then vm slot (\<lambda>prev. assign_then True (\<lambda>u. put u slot new) prev new vm Running))
          in if \<not> in_stack slot then GoPanic
             else if vm_localTypes vm slot \<noteq> VTEmpty
             then coerce_then h vm (vm_localTypes vm slot) v (\<lambda>v vm. store (with_class (local_class vm destIdx) v) vm)
             else store v vm)
       else raise_vm (plain_error InternalError ''Invalid OpSet destination'') vm Running)))"

definition exec_GetGlobal :: "host \<Rightarrow> VM \<Rightarrow> outcome" where
  "exec_GetGlobal h vm =
     u16_then vm (\<lambda>idx vm. global_then vm idx (\<lambda>v. push_then h vm (load_global vm idx v) Running))"

definition exec_GetLocal :: "host \<Rightarrow> VM \<Rightarrow> outcome" where
  "exec_GetLocal h vm =
     u16_then vm (\<lambda>idx vm. slot_then vm (vm_fp vm + int idx)
       (\<lambda>v. push_then h vm (with_class (local_class vm idx) v) Running))"

definition exec_Constant :: "host \<Rightarrow> VM \<Rightarrow> outcome" where
  "exec_Constant h vm = u16_then vm (\<lambda>idx vm. const_then vm idx (\<lambda>v. push_then h vm v Running))"

section \<open>Counters and counted loops\<close>

text \<open>One step of a counter: \<open>Num++\<close>, \<open>Flt++\<close> or the general addition; \<open>up\<close> is the direction.\<close>

definition count_value :: "host \<Rightarrow> bool \<Rightarrow> Value \<Rightarrow> Value \<times> raised" where
  "count_value h up v =
     (if VType v = VTInteger then (v\<lparr>VNum := (if up then VNum v + 1 else VNum v - 1)\<rparr>, None)
      else if VType v = VTDouble
      then (v\<lparr>VFlt := (if up then f_add (VFlt v) (f_of_int 1) else f_sub (VFlt v) (f_of_int 1))\<rparr>, None)
      else if up then addValues h v (NewInteger 1)
      else (subtractValues h v (NewInteger 1), None))"

definition exec_count_local :: "bool \<Rightarrow> host \<Rightarrow> VM \<Rightarrow> outcome" where
  "exec_count_local up h vm =
     u16_then vm (\<lambda>offset vm. let slot = vm_fp vm + int offset in
       slot_then vm slot (\<lambda>v. let (v', r) = count_value (host_of h vm) up v in
         raised_then r vm (\<lambda>vm. Running (put vm slot v'))))"

definition exec_count_global :: "bool \<Rightarrow> host \<Rightarrow> VM \<Rightarrow> outcome" where
  "exec_count_global up h vm =
     u16_then vm (\<lambda>idx vm. global_then vm idx (\<lambda>v. let (v', r) = count_value (host_of h vm) up v in
       if VType v = VTInteger \<or> VType v = VTDouble then Running (put_global vm idx v')
       else raised_then r vm (\<lambda>vm. assign_then True (\<lambda>u. put_global u idx v') v v' vm Running)))"

definition for_next_operands ::
    "VM \<Rightarrow> (nat \<Rightarrow> nat \<Rightarrow> bool \<Rightarrow> nat \<Rightarrow> VM \<Rightarrow> outcome) \<Rightarrow> outcome" where
  "for_next_operands vm k =
     u16_then vm (\<lambda>var vm. u16_then vm (\<lambda>lim vm.
       case get_at (vm_bytecode vm) (vm_ip vm) of
         None \<Rightarrow> GoPanic
       | Some s \<Rightarrow> u32_then (vm\<lparr>vm_ip := vm_ip vm + 1\<rparr>) (\<lambda>body vm. k var lim (0 < sint s) body vm)))"

text \<open>The counter after one step and whether the loop goes on. Two integers are compared as
  integers; every other pair is compared as doubles.\<close>

definition next_counter :: "host \<Rightarrow> bool \<Rightarrow> Value \<Rightarrow> Value \<Rightarrow> (Value \<times> raised) \<times> bool" where
  "next_counter h up cur limit =
     (if VType cur = VTInteger \<and> VType limit = VTInteger then
        (let v = cur\<lparr>VNum := (if up then VNum cur + 1 else VNum cur - 1)\<rparr>
         in ((v, None), if up then sint (VNum v) \<le> sint (VNum limit) else sint (VNum limit) \<le> sint (VNum v)))
      else
        (let r = (if VType cur = VTDouble then count_value h up cur
                  else if up then addValues h cur (NewInteger 1)
                  else (subtractValues h cur (NewInteger 1), None))
         in (r, if up then f_le (asFloat (fst r)) (asFloat limit) else f_le (asFloat limit) (asFloat (fst r)))))"

definition exec_ForNextFastInt :: "host \<Rightarrow> VM \<Rightarrow> outcome" where
  "exec_ForNextFastInt h vm =
     for_next_operands vm (\<lambda>var lim up body vm.
       let varSlot = vm_fp vm + int var in
       slot_then vm varSlot (\<lambda>cur. slot_then vm (vm_fp vm + int lim) (\<lambda>limit.
         let ((v, r), again) = next_counter (host_of h vm) up cur limit in
         raised_then r vm (\<lambda>vm. let vm' = put vm varSlot v in
           Running (if again then vm'\<lparr>vm_ip := body\<rparr> else vm')))))"

definition exec_ForNextFastGlobalInt :: "host \<Rightarrow> VM \<Rightarrow> outcome" where
  "exec_ForNextFastGlobalInt h vm =
     for_next_operands vm (\<lambda>var lim up body vm.
       global_then vm var (\<lambda>cur. global_then vm lim (\<lambda>limit.
         let ((v, r), again) = next_counter (host_of h vm) up cur limit;
             finish = (\<lambda>vm. let vm' = put_global vm var v in
                Running (if again then vm'\<lparr>vm_ip := body\<rparr> else vm')) in
         raised_then r vm (\<lambda>vm.
           if VType v = VTObject then dec_then vm (vm_Globals vm ! var) finish else finish vm))))"

section \<open>Operators\<close>

definition exec_binary :: "host \<Rightarrow> Value \<times> raised \<Rightarrow> VM \<Rightarrow> outcome" where
  "exec_binary h r vm =
     raised_then (snd r) vm (\<lambda>vm. Running (put (vm\<lparr>vm_sp := vm_sp vm - 1\<rparr>) (vm_sp vm - 1) (fst r)))"

definition exec_binary_op :: "host \<Rightarrow> OpCode \<Rightarrow> VM \<Rightarrow> outcome" where
  "exec_binary_op h op vm =
     slot_then vm (vm_sp vm - 1) (\<lambda>a. slot_then vm (vm_sp vm) (\<lambda>b.
       case binary_op (host_of h vm) op a b of
         None \<Rightarrow> Beyond
       | Some r \<Rightarrow> exec_binary h r vm))"

text \<open>\<open>OpNeg\<close> and \<open>OpNot\<close> of a value.\<close>

definition neg_value :: "host \<Rightarrow> Value \<Rightarrow> Value \<times> raised" where
  "neg_value h v =
     (if isNull v then (NewNull, None)
      else if VType v = VTDouble then (NewDouble (f_neg (VFlt v)), None)
      else if VType v = VTString then
        (let s = trim_space (VStr v)
         in case parse_float s of
              None \<Rightarrow> type_mismatch
            | Some x \<Rightarrow>
              (if CHR ''.'' \<in> set s \<or> CHR ''e'' \<in> set (to_lower (h_unicode_lower h) s)
               then (NewDouble (f_neg x), None)
               else (case parse_int64 s of
                       Some n \<Rightarrow> (NewInteger (- word_of_int n), None)
                     | None \<Rightarrow> (NewDouble (f_neg x), None))))
      else (NewInteger (- coerceInt64 h v), None))"

definition not_value :: "host \<Rightarrow> Value \<Rightarrow> Value \<times> raised" where
  "not_value h v =
     (if isNull v then (NewNull, None)
      else if VType v = VTBool then (NewBool (\<not> asBool v), None)
      else case coerceLogicalInt64 h v of
             None \<Rightarrow> (NewEmpty, raise_error TypeMismatch (error_String TypeMismatch))
           | Some n \<Rightarrow> (NewInteger (NOT n), None))"

definition exec_unary :: "host \<Rightarrow> (host \<Rightarrow> Value \<Rightarrow> Value \<times> raised) \<Rightarrow> VM \<Rightarrow> outcome" where
  "exec_unary h f vm =
     pop_then h vm (\<lambda>v vm. let (v', r) = f (host_of h vm) v in
       raised_then r vm (\<lambda>vm. push_then h vm v' Running))"

section \<open>Jumps\<close>

definition jump_if :: "bool \<Rightarrow> nat \<Rightarrow> VM \<Rightarrow> VM" where
  "jump_if b target vm = (if b then vm\<lparr>vm_ip := target\<rparr> else vm)"

definition exec_Jump :: "VM \<Rightarrow> outcome" where
  "exec_Jump vm = u32_then vm (\<lambda>target vm. Running (vm\<lparr>vm_ip := target\<rparr>))"

definition exec_JumpIf :: "bool \<Rightarrow> host \<Rightarrow> VM \<Rightarrow> outcome" where
  "exec_JumpIf sense h vm =
     u32_then vm (\<lambda>target vm. pop_then h vm (\<lambda>v vm. Running (jump_if (isTruthy v = sense) target vm)))"

text \<open>The fused comparisons: whether the branch is taken, or the error of \<open>Is\<close>.\<close>

definition fused_taken :: "host \<Rightarrow> OpCode \<Rightarrow> Value \<Rightarrow> Value \<Rightarrow> (bool \<times> raised) option" where
  "fused_taken h op a b =
     (let null = (isNull a \<or> isNull b)
      in if op = OpJumpIfNotEq then Some (\<not> (\<not> null \<and> values_equal h a b), None)
         else if op = OpJumpIfEq then Some (\<not> (\<not> null \<and> \<not> values_equal h a b), None)
         else if op = OpJumpIfNotLt then Some (null \<or> \<not> f_lt (asFloat a) (asFloat b), None)
         else if op = OpJumpIfLte then Some (null \<or> f_le (asFloat a) (asFloat b), None)
         else if op = OpJumpIfNotIs then
           (if \<not> IsObjectReferenceValue a \<or> \<not> IsObjectReferenceValue b
            then Some (True, raise_error TypeMismatch (error_String TypeMismatch))
            else Some (\<not> same_reference a b, None))
         else None)"

definition exec_fused_jump :: "host \<Rightarrow> OpCode \<Rightarrow> VM \<Rightarrow> outcome" where
  "exec_fused_jump h op vm =
     u32_then vm (\<lambda>target vm. pop_then h vm (\<lambda>b vm. pop_then h vm (\<lambda>a vm.
       case fused_taken (host_of h vm) op a b of
         None \<Rightarrow> Beyond
       | Some (taken, r) \<Rightarrow> raised_then r vm (\<lambda>vm. Running (jump_if taken target vm)))))"

section \<open>Extended opcodes\<close>

definition exec_jump_local :: "VM \<Rightarrow> outcome" where
  "exec_jump_local vm =
     u16_then vm (\<lambda>offset vm. u32_then vm (\<lambda>target vm.
       slot_then vm (vm_fp vm + int offset) (\<lambda>v. Running (jump_if (\<not> isTruthy v) target vm))))"

definition exec_jump_global :: "VM \<Rightarrow> outcome" where
  "exec_jump_global vm =
     u16_then vm (\<lambda>idx vm. u32_then vm (\<lambda>target vm.
       global_then vm idx (\<lambda>v. Running (jump_if (\<not> isTruthy v) target vm))))"

definition exec_local_const :: "(host \<Rightarrow> Value \<Rightarrow> Value \<Rightarrow> Value \<times> raised) \<Rightarrow> host \<Rightarrow> VM \<Rightarrow> outcome" where
  "exec_local_const f h vm =
     u16_then vm (\<lambda>offset vm. u16_then vm (\<lambda>constIdx vm. let slot = vm_fp vm + int offset in
       slot_then vm slot (\<lambda>v. const_then vm constIdx (\<lambda>c. let (v', r) = f (host_of h vm) v c in
         raised_then r vm (\<lambda>vm. Running (put vm slot v'))))))"

definition exec_sub_global_const :: "host \<Rightarrow> VM \<Rightarrow> outcome" where
  "exec_sub_global_const h vm =
     u16_then vm (\<lambda>idx vm. u16_then vm (\<lambda>constIdx vm.
       global_then vm idx (\<lambda>v. const_then vm constIdx (\<lambda>c.
         Running (put_global vm idx (subtractValues (host_of h vm) v c))))))"

text \<open>\<open>ExtOpConstant2/3/4\<close>: the constants are stored above the stack pointer without \<open>push\<close>.\<close>

fun read_indices :: "VM \<Rightarrow> nat \<Rightarrow> (nat list \<Rightarrow> VM \<Rightarrow> outcome) \<Rightarrow> outcome" where
  "read_indices vm 0 k = k [] vm"
| "read_indices vm (Suc n) k = u16_then vm (\<lambda>idx vm. read_indices vm n (\<lambda>rest. k (idx # rest)))"

fun store_constants :: "VM \<Rightarrow> int \<Rightarrow> nat list \<Rightarrow> (VM \<Rightarrow> outcome) \<Rightarrow> outcome" where
  "store_constants vm i [] k = k vm"
| "store_constants vm i (idx # rest) k =
     const_then vm idx (\<lambda>c. slot_then vm i (\<lambda>_. store_constants (put vm i c) (i + 1) rest k))"

definition exec_constants :: "nat \<Rightarrow> VM \<Rightarrow> outcome" where
  "exec_constants n vm =
     read_indices vm n (\<lambda>idxs vm. store_constants vm (vm_sp vm + 1) idxs
       (\<lambda>vm. Running (vm\<lparr>vm_sp := vm_sp vm + int n\<rparr>)))"

definition exec_ext :: "host \<Rightarrow> VM \<Rightarrow> outcome" where
  "exec_ext h vm =
     (case get_at (vm_bytecode vm) (vm_ip vm) of
        None \<Rightarrow> GoPanic
      | Some ext \<Rightarrow>
        (let vm = vm\<lparr>vm_ip := vm_ip vm + 1\<rparr>
         in if ext = ExtOpJumpLocalIfFalse then exec_jump_local vm
            else if ext = ExtOpJumpGlobalIfFalse then exec_jump_global vm
            else if ext = ExtOpAddLocalConst then exec_local_const addValues h vm
            else if ext = ExtOpSubGlobalConst then exec_sub_global_const h vm
            else if ext = ExtOpConcatLocalConst then exec_local_const (\<lambda>h a b. (concatValues h a b, None)) h vm
            else if ext = ExtOpConstant2 then exec_constants 2 vm
            else if ext = ExtOpConstant3 then exec_constants 3 vm
            else if ext = ExtOpConstant4 then exec_constants 4 vm
            else Beyond))"

section \<open>Output, options, statements\<close>

definition emit_text :: "string \<Rightarrow> VM \<Rightarrow> VM" where
  "emit_text s vm = (case vm_output vm of None \<Rightarrow> vm | Some t \<Rightarrow> vm\<lparr>vm_output := Some (t @ s)\<rparr>)"

fun pop_many :: "host \<Rightarrow> nat \<Rightarrow> VM \<Rightarrow> Value list \<Rightarrow> (Value list \<Rightarrow> VM \<Rightarrow> outcome) \<Rightarrow> outcome" where
  "pop_many h 0 vm acc k = k acc vm"
| "pop_many h (Suc n) vm acc k = pop_then h vm (\<lambda>v vm. pop_many h n vm (v # acc) k)"

definition exec_Write :: "host \<Rightarrow> VM \<Rightarrow> outcome" where
  "exec_Write h vm = pop_then h vm (\<lambda>v vm. Running (emit_text (valueToString (host_of h vm) v) vm))"

definition exec_WriteN :: "host \<Rightarrow> VM \<Rightarrow> outcome" where
  "exec_WriteN h vm =
     u16_then vm (\<lambda>n vm. pop_many h n vm [] (\<lambda>parts vm.
       Running (emit_text (concat (map (valueToString (host_of h vm)) parts)) vm)))"

definition exec_WriteStatic :: "VM \<Rightarrow> outcome" where
  "exec_WriteStatic vm =
     u16_then vm (\<lambda>idx vm. if vm_output vm = None then Running vm
       else const_then vm idx (\<lambda>c. Running (emit_text (VStr c) vm)))"

definition exec_SetOption :: "VM \<Rightarrow> outcome" where
  "exec_SetOption vm =
     u16_then vm (\<lambda>optionID vm. u16_then vm (\<lambda>val vm.
       Running (if optionID = 0 then vm\<lparr>vm_optionCompare := val\<rparr> else vm)))"

definition begin_statement :: "VM \<Rightarrow> VM" where
  "begin_statement vm0 =
     (let vm = (if vm_skipToNextStmt vm0
                then vm0\<lparr>vm_sp := vm_stmtSP vm0, vm_skipToNextStmt := False\<rparr> else vm0)
      in vm\<lparr>vm_stmtSP := vm_sp vm\<rparr>)"

definition exec_Line :: "VM \<Rightarrow> outcome" where
  "exec_Line vm =
     (if vm_ip vm + 3 < length (vm_bytecode vm)
      then u16_then vm (\<lambda>line vm. u16_then vm (\<lambda>col vm.
             Running (begin_statement (vm\<lparr>vm_lastLine := line, vm_lastColumn := col\<rparr>))))
      else u16_then vm (\<lambda>line vm. Running (begin_statement (vm\<lparr>vm_lastLine := line, vm_lastColumn := 0\<rparr>))))"

definition exec_ResumeNext :: "bool \<Rightarrow> VM \<Rightarrow> outcome" where
  "exec_ResumeNext on vm =
     Running (if on then vm\<lparr>vm_onResumeNext := True\<rparr>
              else vm\<lparr>vm_onResumeNext := False, vm_errObject := None, vm_lastError := None\<rparr>)"

definition exec_Swap :: "VM \<Rightarrow> outcome" where
  "exec_Swap vm =
     (if 1 \<le> vm_sp vm
      then slot_then vm (vm_sp vm) (\<lambda>a. slot_then vm (vm_sp vm - 1) (\<lambda>b.
             Running (put (put vm (vm_sp vm) b) (vm_sp vm - 1) a)))
      else Running vm)"

definition exec_arg_ref :: "bool \<Rightarrow> host \<Rightarrow> VM \<Rightarrow> outcome" where
  "exec_arg_ref global h vm =
     u16_then vm (\<lambda>idx vm.
       push_then h vm ((typed VTArgRef)\<lparr>VNum := word_of_nat idx, VFlt := (if global then f_of_int 1 else f_zero)\<rparr>) Running)"

definition exec_Me :: "host \<Rightarrow> VM \<Rightarrow> outcome" where
  "exec_Me h vm =
     (if vm_activeClassObjectID vm = 0
      then raise_vm (plain_error ObjectVariableNotSet ''Me is not valid outside a class method'') vm
             (\<lambda>vm. push_then h vm (typed VTEmpty) Running)
      else push_then h vm ((typed VTObject)\<lparr>VNum := vm_activeClassObjectID vm\<rparr>) Running)"

section \<open>Procedures\<close>

definition frame_size :: "Value \<Rightarrow> int" where
  "frame_size callee = max (sint (UserSubLocalCount callee)) (sint (UserSubParamCount callee))"

fun clear_slots :: "VM \<Rightarrow> int \<Rightarrow> nat \<Rightarrow> VM option" where
  "clear_slots vm i 0 = Some vm"
| "clear_slots vm i (Suc n) =
     (if in_stack i
      then clear_slots ((put vm i (typed VTEmpty))\<lparr>vm_localTypes := (vm_localTypes vm)(i := VTEmpty)\<rparr>) (i + 1) n
      else None)"

fun declare_locals :: "VM \<Rightarrow> i64 \<Rightarrow> int \<Rightarrow> (nat \<times> ValueType) list \<Rightarrow> VM" where
  "declare_locals vm entry n [] = vm"
| "declare_locals vm entry n ((offset, t) # rest) =
     (if int offset < n
      then let i = vm_fp vm + int offset;
               z = zeroValueForType t;
               v = (if t = VTObject then
                      (case vm_funcLocalClassTypes vm entry offset of
                         Some c \<Rightarrow> z\<lparr>VInterface := c\<rparr> | None \<Rightarrow> z) else z)
           in declare_locals ((put vm i v)\<lparr>vm_localTypes := (vm_localTypes vm)(i := t)\<rparr>) entry n rest
      else declare_locals vm entry n rest)"

definition default_argument :: "VM \<Rightarrow> i64 \<Rightarrow> nat \<Rightarrow> Value" where
  "default_argument vm entry paramIdx =
     (let defaults = vm_funcParamDefaults vm entry
      in if paramIdx < length defaults \<and> 0 \<le> defaults ! paramIdx
            \<and> nat (defaults ! paramIdx) < length (vm_constants vm)
         then vm_constants vm ! nat (defaults ! paramIdx) else typed VTEmpty)"

text \<open>Parameters \<open>paramIdx, paramIdx + 1, \<dots>\<close>, \<open>n\<close> of them, from the arguments left.\<close>

fun bind_params :: "VM \<Rightarrow> i64 \<Rightarrow> u64 \<Rightarrow> nat \<Rightarrow> nat \<Rightarrow> Value list \<Rightarrow> VM option" where
  "bind_params vm entry optionalMask paramIdx 0 args = Some vm"
| "bind_params vm entry optionalMask paramIdx (Suc n) args =
     (let slot = vm_fp vm + int paramIdx
      in case args of
           a # rest \<Rightarrow>
             (if in_stack slot
              then bind_params (inc_ref a (put vm slot a)) entry optionalMask (paramIdx + 1) n rest
              else None)
         | [] \<Rightarrow>
             (if bit optionalMask paramIdx
              then (if in_stack slot
                    then let d = default_argument vm entry paramIdx
                         in bind_params (inc_ref d (put vm slot d)) entry optionalMask (paramIdx + 1) n []
                    else None)
              else bind_params vm entry optionalMask (paramIdx + 1) n []))"

definition enter_frame :: "VM \<Rightarrow> Value \<Rightarrow> bool \<Rightarrow> i64 \<Rightarrow> byRef list \<Rightarrow> VM" where
  "enter_frame vm target discard bound wb =
     vm\<lparr>vm_callStack := \<lparr>fr_callee = target, fr_returnIP = vm_ip vm, fr_oldFP = vm_fp vm, fr_oldSP = vm_sp vm,
          fr_boundObj = vm_activeClassObjectID vm, fr_discard = discard, fr_byRefs = wb,
          fr_savedOnResumeNext = vm_onResumeNext vm, fr_savedSkipToNextStmt = vm_skipToNextStmt vm,
          fr_savedStmtSP = vm_stmtSP vm, fr_terminateObjID = 0\<rparr> # vm_callStack vm,
        vm_activeClassObjectID := bound, vm_onResumeNext := False, vm_skipToNextStmt := False,
        vm_fp := vm_sp vm + 1\<rparr>"

text \<open>\<open>beginUserSubCall\<close> on a \<open>VTUserSub\<close>; a \<open>ParamArray\<close> allocates an array and is beyond the
  fragment.\<close>

definition begin_call :: "VM \<Rightarrow> Value \<Rightarrow> Value list \<Rightarrow> bool \<Rightarrow> i64 \<Rightarrow> byRef list \<Rightarrow> outcome" where
  "begin_call vm0 target args discard bound wb =
     (let vm = enter_frame vm0 target discard bound wb;
          entry = VNum target;
          paramCount = sint (UserSubParamCount target);
          localCount = frame_size target;
          frameLast = vm_fp vm + localCount - 1;
          pa = UserSubParamArrayIdx target;
          fill = (\<lambda>vm. case clear_slots vm (vm_fp vm) (nat localCount) of
              None \<Rightarrow> GoPanic
            | Some vm1 \<Rightarrow>
              (case bind_params (declare_locals vm1 entry localCount (vm_funcLocalTypes vm1 entry)) entry
                      (UserSubOptionalMask target) 0 (nat paramCount) args of
                 None \<Rightarrow> GoPanic
               | Some vm2 \<Rightarrow>
                 Running (vm2\<lparr>vm_sp := (if 0 < localCount then frameLast else vm_fp vm2 - 1),
                              vm_ip := unat entry\<rparr>)))
      in if 0 \<le> pa \<and> pa < paramCount then Beyond
         else if sint entry < 0 then Beyond
         else if 0 < localCount \<and> StackSize \<le> frameLast
         then raise_vm (plain_error StackOverflow ''Stack overflow'') vm fill
         else fill vm)"

definition slot_value :: "VM \<Rightarrow> Value \<Rightarrow> Value option" where
  "slot_value vm arg =
     (let idx = sint (VNum arg)
      in if ArgRefIsClassMember arg then None
         else if ArgRefIsGlobal arg then
           Some (if 0 \<le> idx \<and> idx < int (length (vm_Globals vm))
                 then (let v = vm_Globals vm ! nat idx
                       in if VType v = VTEmpty \<and> nat idx < length (vm_globalNames vm)
                             \<and> has_prefix ''__static_'' (vm_globalNames vm ! nat idx)
                          then v\<lparr>VInterface := ''static''\<rparr> else v)
                 else Value0)
         else if ArgRefIsLocal arg then
           Some (let slot = vm_fp vm + idx in if in_stack slot then vm_stack vm slot else Value0)
         else Some Value0)"

text \<open>\<open>collectByRefsAndUnwrap\<close>: the write-backs and the values; \<open>None\<close> for a class member.\<close>

fun unwrap_args :: "host \<Rightarrow> VM \<Rightarrow> u64 \<Rightarrow> nat \<Rightarrow> Value list \<Rightarrow> (byRef list \<times> Value list) option" where
  "unwrap_args h vm byRefMask i [] = Some ([], [])"
| "unwrap_args h vm byRefMask i (a # rest) =
     (case unwrap_args h vm byRefMask (i + 1) rest of
        None \<Rightarrow> None
      | Some (wbs, vals) \<Rightarrow>
        (if VType a \<noteq> VTArgRef then Some (wbs, a # vals)
         else case slot_value vm a of
                None \<Rightarrow> None
              | Some v \<Rightarrow>
                Some (if i < 64 \<and> bit byRefMask i
                      then \<lparr>br_calleeParamIdx = int i, br_isGlobal = ArgRefIsGlobal a,
                            br_callerIdx = sint (VNum a), br_isClassMember = False\<rparr> # wbs
                      else wbs,
                      resolveCallable h v # vals)))"

definition call_argument :: "host \<Rightarrow> Value \<Rightarrow> Value" where
  "call_argument h v = (if VType v = VTArgRef then v else resolveCallable h v)"

definition exec_Call :: "host \<Rightarrow> VM \<Rightarrow> outcome" where
  "exec_Call h vm =
     u16_then vm (\<lambda>argCount vm. slot_then vm (vm_sp vm - int argCount) (\<lambda>_.
       pop_many h argCount vm [] (\<lambda>raw vm. pop_then h vm (\<lambda>target vm.
         let hv = host_of h vm in
         if VType target \<in> {VTBuiltin, VTObject, VTNativeObject, VTJSFunction, VTJSObject, VTJSProxy, VTArray}
         then Beyond
         else case unwrap_args hv vm (if VType target = VTUserSub then UserSubByRefMask target else 0) 0
                     (map (call_argument hv) raw) of
                None \<Rightarrow> Beyond
              | Some (wbs, args) \<Rightarrow>
                (if VType target = VTUserSub then begin_call vm target args False 0 wbs
                 else push_then h vm (typed VTEmpty) Running)))))"

text \<open>\<open>OpCoerceToValue\<close>: a name in a value position stands for its value. A builtin and a function without parameters
  are called; the default members of objects are beyond the fragment.\<close>

definition exec_CoerceToValue :: "host \<Rightarrow> VM \<Rightarrow> outcome" where
  "exec_CoerceToValue h vm =
     pop_then h vm (\<lambda>v vm.
       if VType v = VTBuiltin then push_then h vm (resolveCallable (host_of h vm) v) Running
       else if VType v = VTUserSub \<and> UserSubIsFunc v \<and> UserSubParamCount v = 0 then begin_call vm v [] False 0 []
       else if VType v = VTObject \<and> VNum v \<noteq> 0 \<or> VType v = VTNativeObject then Beyond
       else push_then h vm v Running)"

section \<open>Return\<close>

text \<open>One write-back of a ByRef parameter into the caller's slot; \<open>None\<close> for a class member.\<close>

definition write_back :: "Frame \<Rightarrow> VM \<Rightarrow> byRef \<Rightarrow> VM option" where
  "write_back frame vm wb =
     (let calleeSlot = vm_fp vm + br_calleeParamIdx wb; v = vm_stack vm calleeSlot; idx = br_callerIdx wb
      in if \<not> in_stack calleeSlot then Some vm
         else if br_isClassMember wb then None
         else if br_isGlobal wb then
           Some (if 0 \<le> idx \<and> idx < int (length (vm_Globals vm)) then put_global vm (nat idx) v else vm)
         else Some (if in_stack (fr_oldFP frame + idx) then put vm (fr_oldFP frame + idx) v else vm))"

fun write_backs :: "Frame \<Rightarrow> VM \<Rightarrow> byRef list \<Rightarrow> VM option" where
  "write_backs frame vm [] = Some vm"
| "write_backs frame vm (wb # rest) =
     (case write_back frame vm wb of None \<Rightarrow> None | Some vm' \<Rightarrow> write_backs frame vm' rest)"

text \<open>Clears the callee's slots from \<open>i\<close> on and collects the objects they held.\<close>

fun leave_slots :: "VM \<Rightarrow> int \<Rightarrow> nat \<Rightarrow> Value list \<times> VM" where
  "leave_slots vm i 0 = ([], vm)"
| "leave_slots vm i (Suc n) =
     (if in_stack i
      then (let (os, vm') = leave_slots (put vm i (typed VTEmpty)) (i + 1) n
            in (if VType (vm_stack vm i) = VTObject then vm_stack vm i # os else os, vm'))
      else leave_slots vm (i + 1) n)"

fun release_locals :: "bool \<Rightarrow> Value \<Rightarrow> VM \<Rightarrow> Value list \<Rightarrow> VM option" where
  "release_locals kept retVal vm [] = Some vm"
| "release_locals kept retVal vm (v # vs) =
     (case decrementObjectRefCountEx (vm_suppressTerminate vm) v
             (kept \<and> VType retVal = VTObject \<and> VType v = VTObject \<and> VNum v = VNum retVal) (vm_objs vm) of
        None \<Rightarrow> None
      | Some objs' \<Rightarrow> release_locals kept retVal (vm\<lparr>vm_objs := objs'\<rparr>) vs)"

text \<open>After \<open>Class_Terminate\<close>: the members of the terminated instance are released.\<close>

definition finish_terminate :: "Frame \<Rightarrow> VM \<Rightarrow> VM option" where
  "finish_terminate frame vm =
     (if fr_terminateObjID frame = 0 then Some vm
      else case vm_objs vm (fr_terminateObjID frame) of
             None \<Rightarrow> Some vm
           | Some inst \<Rightarrow>
             map_option (\<lambda>o'. vm\<lparr>vm_objs := o'\<rparr>)
               (release (vm_suppressTerminate vm)
                  ((vm_objs vm)(fr_terminateObjID frame \<mapsto> inst\<lparr>in_members := []\<rparr>)) (in_members inst)))"

definition restore_frame :: "Frame \<Rightarrow> VM \<Rightarrow> VM" where
  "restore_frame frame vm =
     vm\<lparr>vm_sp := fr_oldSP frame, vm_fp := fr_oldFP frame, vm_ip := fr_returnIP frame,
        vm_activeClassObjectID := fr_boundObj frame,
        vm_onResumeNext := (fr_savedOnResumeNext frame \<or> (vm_executeGlobalResumeGuard vm \<and> vm_callStack vm = [])),
        vm_skipToNextStmt := fr_savedSkipToNextStmt frame, vm_stmtSP := fr_savedStmtSP frame\<rparr>"

definition callee_end :: "Frame \<Rightarrow> VM \<Rightarrow> int" where
  "callee_end frame vm =
     (if VType (fr_callee frame) = VTUserSub
      then max (vm_fp vm + frame_size (fr_callee frame) - 1) (vm_sp vm) else vm_sp vm)"

definition return_from :: "host \<Rightarrow> Frame \<Rightarrow> Value \<Rightarrow> VM \<Rightarrow> outcome" where
  "return_from h frame retVal vm =
     (case finish_terminate frame vm of None \<Rightarrow> Beyond
      | Some vm1 \<Rightarrow>
        (case write_backs frame vm1 (fr_byRefs frame) of None \<Rightarrow> Beyond
         | Some vm2 \<Rightarrow>
           (let (os, vm3) = leave_slots vm2 (vm_fp vm2) (nat (callee_end frame vm2 + 1 - vm_fp vm2));
                vm4 = restore_frame frame vm3;
                finish = (\<lambda>vm. case release_locals (\<not> fr_discard frame) retVal vm os of
                            None \<Rightarrow> Beyond | Some vm' \<Rightarrow> Running vm')
            in if fr_discard frame then finish vm4 else push_then h vm4 retVal finish)))"

definition exec_Ret :: "host \<Rightarrow> VM \<Rightarrow> outcome" where
  "exec_Ret h vm =
     pop_then h vm (\<lambda>retVal vm.
       case vm_callStack vm of
         [] \<Rightarrow> push_then h vm retVal Running
       | frame # rest \<Rightarrow> return_from h frame retVal (vm\<lparr>vm_callStack := rest\<rparr>))"

section \<open>Dispatch\<close>

definition binary_ops :: "OpCode list" where
  "binary_ops = [
    OpAdd, OpSub, OpMul, OpDiv, OpMod, OpPow, OpIAdd, OpISub, OpIMul, OpIDiv, OpIRightShift,
    OpEq, OpNeq, OpLt, OpGt, OpLte, OpGte, OpIsRef, OpIsNotRef, OpAnd, OpOr, OpXor, OpEqv, OpImp, OpConcat]"

definition fused_jump_ops :: "OpCode list" where
  "fused_jump_ops = [OpJumpIfNotEq, OpJumpIfEq, OpJumpIfNotLt, OpJumpIfLte, OpJumpIfNotIs]"

definition exec_slots :: "host \<Rightarrow> OpCode \<Rightarrow> VM \<Rightarrow> outcome" where
  "exec_slots h op vm =
     (if op = OpGetGlobal then exec_GetGlobal h vm
      else if op = OpSetGlobal then exec_SetGlobal h vm
      else if op = OpLetGlobal then exec_LetGlobal h vm
      else if op = OpGetLocal then exec_GetLocal h vm
      else if op = OpSetLocal then exec_store_local False h vm
      else if op = OpLetLocal then exec_store_local True h vm
      else if op = OpSet then exec_Set h vm
      else if op = OpIncLocalInt then exec_count_local True h vm
      else if op = OpDecLocalInt then exec_count_local False h vm
      else if op = OpIncGlobalInt then exec_count_global True h vm
      else if op = OpDecGlobalInt then exec_count_global False h vm
      else if op = OpForNextFastInt then exec_ForNextFastInt h vm
      else if op = OpForNextFastGlobalInt then exec_ForNextFastGlobalInt h vm
      else Beyond)"

definition exec_control :: "host \<Rightarrow> OpCode \<Rightarrow> VM \<Rightarrow> outcome" where
  "exec_control h op vm =
     (if op = OpJump \<or> op = OpGotoLabel then exec_Jump vm
      else if op = OpJumpIfFalse then exec_JumpIf False h vm
      else if op = OpJumpIfTrue then exec_JumpIf True h vm
      else if op \<in> set fused_jump_ops then exec_fused_jump h op vm
      else if op = OpLabel then Running (vm\<lparr>vm_ip := vm_ip vm + 2\<rparr>)
      else if op = OpLine then exec_Line vm
      else if op = OpOnErrorResumeNext then exec_ResumeNext True vm
      else if op = OpOnErrorGoto0 then exec_ResumeNext False vm
      else if op = OpCall then exec_Call h vm
      else if op = OpRet then exec_Ret h vm
      else if op = OpCoerceToValue then exec_CoerceToValue h vm
      else exec_slots h op vm)"

definition exec :: "host \<Rightarrow> OpCode \<Rightarrow> VM \<Rightarrow> outcome" where
  "exec h op vm =
     (if op = OpHalt then Finished vm
      else if op = OpConstant then exec_Constant h vm
      else if op = OpPop then pop_then h vm (\<lambda>_ vm. Running vm)
      else if op = OpNop then Running vm
      else if op \<in> set binary_ops then exec_binary_op h op vm
      else if op = OpNeg then exec_unary h neg_value vm
      else if op = OpNot then exec_unary h not_value vm
      else if op = OpExtPrefix then exec_ext h vm
      else if op = OpWriteStatic then exec_WriteStatic vm
      else if op = OpWrite then exec_Write h vm
      else if op = OpWriteN then exec_WriteN h vm
      else if op = OpSetOption then exec_SetOption vm
      else if op = OpArgGlobalRef then exec_arg_ref True h vm
      else if op = OpArgLocalRef then exec_arg_ref False h vm
      else if op = OpMe then exec_Me h vm
      else if op = OpSwap then exec_Swap vm
      else exec_control h op vm)"

definition step :: "host \<Rightarrow> VM \<Rightarrow> outcome" where
  "step h vm =
     (if vm_ip vm < length (vm_bytecode vm)
      then exec h (vm_bytecode vm ! vm_ip vm) (vm\<lparr>vm_ip := vm_ip vm + 1\<rparr>)
      else Finished vm)"

text \<open>At most \<open>fuel\<close> instructions.\<close>

fun run :: "nat \<Rightarrow> host \<Rightarrow> VM \<Rightarrow> outcome" where
  "run 0 h vm = Running vm"
| "run (Suc n) h vm = (case step h vm of Running vm' \<Rightarrow> run n h vm' | r \<Rightarrow> r)"

text \<open>The step relation of machines that keep running.\<close>

inductive steps :: "host \<Rightarrow> VM \<Rightarrow> VM \<Rightarrow> bool" for h where
  steps_refl: "steps h vm vm"
| steps_step: "steps h vm vm1 \<Longrightarrow> step h vm1 = Running vm2 \<Longrightarrow> steps h vm vm2"

end
