(* ===== verification/MachineLaws.thy ===== *)
theory MachineLaws
  imports Machine
begin

text \<open>
  Safety of the stack machine: the program and the constants are never modified, and the stack
  pointer, the saved stack pointers of the statement and of every frame stay inside the stack.
  The rules in \<open>safe_rules\<close> follow the continuation style of the machine: one rule per access
  function, so that a handler is checked by applying them.
\<close>

named_theorems safe_rules \<open>rules that carry the machine invariant through an instruction\<close>

section \<open>The invariant\<close>

definition sp_ok :: "int \<Rightarrow> bool" where
  "sp_ok i \<longleftrightarrow> -1 \<le> i \<and> i < StackSize"

definition frame_ok :: "Frame \<Rightarrow> bool" where
  "frame_ok f \<longleftrightarrow> sp_ok (fr_oldSP f) \<and> sp_ok (fr_savedStmtSP f)"

definition inv_vm :: "bytes \<Rightarrow> Value list \<Rightarrow> nat \<Rightarrow> VM \<Rightarrow> bool" where
  "inv_vm bs ks n vm \<longleftrightarrow>
     vm_bytecode vm = bs \<and> vm_constants vm = ks \<and> length (vm_Globals vm) = n
   \<and> sp_ok (vm_sp vm) \<and> sp_ok (vm_stmtSP vm) \<and> list_all frame_ok (vm_callStack vm)"

fun holds :: "(VM \<Rightarrow> bool) \<Rightarrow> outcome \<Rightarrow> bool" where
  "holds P (Running vm) = P vm"
| "holds P (Finished vm) = P vm"
| "holds P (Failed e vm) = P vm"
| "holds P (Unwound vm) = P vm"
| "holds P GoPanic = True"
| "holds P Beyond = True"

text \<open>The machines the invariant speaks of; \<open>safe k\<close>: a continuation keeps the invariant.\<close>

lemma inv_update [safe_rules]:
  "inv_vm bs ks n vm \<Longrightarrow> inv_vm bs ks n (vm\<lparr>vm_ip := i\<rparr>)"
  "inv_vm bs ks n vm \<Longrightarrow> inv_vm bs ks n (put vm j v)"
  "inv_vm bs ks n vm \<Longrightarrow> inv_vm bs ks n (put_global vm g v)"
  "inv_vm bs ks n vm \<Longrightarrow> inv_vm bs ks n (vm\<lparr>vm_objs := ob\<rparr>)"
  "inv_vm bs ks n vm \<Longrightarrow> inv_vm bs ks n (inc_ref v vm)"
  "inv_vm bs ks n vm \<Longrightarrow> inv_vm bs ks n (jump_if b t vm)"
  "inv_vm bs ks n vm \<Longrightarrow> inv_vm bs ks n (emit_text s vm)"
  "inv_vm bs ks n vm \<Longrightarrow> inv_vm bs ks n (vm\<lparr>vm_optionCompare := c\<rparr>)"
  "inv_vm bs ks n vm \<Longrightarrow> inv_vm bs ks n (vm\<lparr>vm_lastLine := l, vm_lastColumn := c\<rparr>)"
  "inv_vm bs ks n vm \<Longrightarrow> inv_vm bs ks n (begin_statement vm)"
  by (auto simp: inv_vm_def put_def put_global_def inc_ref_def jump_if_def emit_text_def
      begin_statement_def Let_def split: option.splits)

lemma release_range_fields:
  "release_range vm k n = Some vm' \<Longrightarrow> \<exists>o'. vm' = vm\<lparr>vm_objs := o'\<rparr>"
proof (induction vm k n rule: release_range.induct)
  case (1 vm k)
  then show ?case by (auto intro: exI[of _ "vm_objs vm"])
next
  case (2 vm k n)
  then show ?case by (fastforce split: if_splits option.splits)
qed

lemma unwind_inv:
  "unwind vm f s e frames = Some vm' \<Longrightarrow> inv_vm bs ks n vm \<Longrightarrow> list_all frame_ok frames \<Longrightarrow> inv_vm bs ks n vm'"
proof (induction vm f s e frames rule: unwind.induct)
  case (1 vm f s e)
  then show ?case by simp
next
  case (2 vm f s e frame rest)
  then obtain vm1 where r: "release_range vm f (nat (s + 1 - f)) = Some vm1" by (auto split: option.splits)
  have i1: "inv_vm bs ks n vm1" using release_range_fields[OF r] "2.prems"(2) by (auto simp: inv_vm_def)
  have f: "sp_ok (fr_oldSP frame)" "list_all frame_ok rest" using "2.prems"(3) by simp_all (simp add: frame_ok_def)
  show ?case
    using 2 r i1 f by (auto simp: inv_vm_def split: if_splits)
qed

section \<open>Rules for the access functions\<close>

lemma raise_safe [safe_rules]:
  assumes "inv_vm bs ks n vm" "\<And>vm'. inv_vm bs ks n vm' \<Longrightarrow> holds (inv_vm bs ks n) (k vm')"
  shows "holds (inv_vm bs ks n) (raise_vm e vm k)"
proof -
  let ?vm = "vm\<lparr>vm_errObject := Some e\<rparr>"
  have i: "inv_vm bs ks n ?vm" "inv_vm bs ks n (?vm\<lparr>vm_lastError := Some e, vm_skipToNextStmt := True\<rparr>)"
    using assms(1) by (auto simp: inv_vm_def)
  then show ?thesis
    using assms(2) unwind_inv[OF _ i(1), of "vm_fp ?vm" "vm_sp ?vm" e "vm_callStack ?vm"]
    by (auto simp: raise_vm_def Let_def inv_vm_def split: option.splits)
qed

lemma raised_safe [safe_rules]:
  "inv_vm bs ks n vm \<Longrightarrow> (\<And>vm'. inv_vm bs ks n vm' \<Longrightarrow> holds (inv_vm bs ks n) (k vm')) \<Longrightarrow>
   holds (inv_vm bs ks n) (raised_then r vm k)"
  by (auto simp: raised_then_def split: option.splits intro: raise_safe)

lemma slot_safe [safe_rules]:
  "(\<And>v. in_stack i \<Longrightarrow> holds P (k v)) \<Longrightarrow> holds P (slot_then vm i k)"
  by (simp add: slot_then_def)

lemma push_safe [safe_rules]:
  assumes "inv_vm bs ks n vm" "\<And>vm'. inv_vm bs ks n vm' \<Longrightarrow> holds (inv_vm bs ks n) (k vm')"
  shows "holds (inv_vm bs ks n) (push_then h vm v k)"
proof -
  have "sp_ok (vm_sp vm + 1)" if "in_stack (vm_sp vm + 1)"
    using that by (simp add: sp_ok_def in_stack_def)
  then have "inv_vm bs ks n (put (vm\<lparr>vm_sp := vm_sp vm + 1\<rparr>) (vm_sp vm + 1) v)"
    if "in_stack (vm_sp vm + 1)" using assms(1) that by (simp add: inv_vm_def put_def)
  then show ?thesis
    using assms by (auto simp: push_then_def intro: raise_safe)
qed

lemma pop_safe [safe_rules]:
  assumes "inv_vm bs ks n vm" "\<And>v vm'. inv_vm bs ks n vm' \<Longrightarrow> holds (inv_vm bs ks n) (k v vm')"
  shows "holds (inv_vm bs ks n) (pop_then h vm k)"
proof -
  have "inv_vm bs ks n (vm\<lparr>vm_sp := vm_sp vm - 1\<rparr>)" if "in_stack (vm_sp vm)"
    using assms(1) that by (auto simp: inv_vm_def sp_ok_def in_stack_def)
  then show ?thesis
    using assms by (auto simp: pop_then_def intro!: raise_safe slot_safe)
qed

lemma u16_safe [safe_rules]:
  "inv_vm bs ks n vm \<Longrightarrow> (\<And>x vm'. inv_vm bs ks n vm' \<Longrightarrow> holds P (k x vm')) \<Longrightarrow> holds P (u16_then vm k)"
  by (auto simp: u16_then_def inv_vm_def split: option.splits)

lemma u32_safe [safe_rules]:
  "inv_vm bs ks n vm \<Longrightarrow> (\<And>x vm'. inv_vm bs ks n vm' \<Longrightarrow> holds P (k x vm')) \<Longrightarrow> holds P (u32_then vm k)"
  by (auto simp: u32_then_def inv_vm_def split: option.splits)

lemma const_safe [safe_rules]: "(\<And>v. holds P (k v)) \<Longrightarrow> holds P (const_then vm i k)"
  by (simp add: const_then_def)

lemma global_safe [safe_rules]: "(\<And>v. holds P (k v)) \<Longrightarrow> holds P (global_then vm i k)"
  by (simp add: global_then_def)

lemma dec_safe [safe_rules]:
  "inv_vm bs ks n vm \<Longrightarrow> (\<And>vm'. inv_vm bs ks n vm' \<Longrightarrow> holds (inv_vm bs ks n) (k vm')) \<Longrightarrow>
   holds (inv_vm bs ks n) (dec_then vm v k)"
  by (auto simp: dec_then_def split: option.splits intro: inv_update)

lemma assign_safe [safe_rules]:
  assumes "inv_vm bs ks n vm" "\<And>u. inv_vm bs ks n u \<Longrightarrow> inv_vm bs ks n (store u)"
    "\<And>vm'. inv_vm bs ks n vm' \<Longrightarrow> holds (inv_vm bs ks n) (k vm')"
  shows "holds (inv_vm bs ks n) (assign_then b store old new vm k)"
  using assms by (auto simp: assign_then_def intro!: dec_safe intro: inv_update)

lemma coerce_safe [safe_rules]:
  "inv_vm bs ks n vm \<Longrightarrow> (\<And>v vm'. inv_vm bs ks n vm' \<Longrightarrow> holds (inv_vm bs ks n) (k v vm')) \<Longrightarrow>
   holds (inv_vm bs ks n) (coerce_then h vm t v k)"
  by (auto simp: coerce_then_def split: option.splits intro: raise_safe)

lemma pop_many_safe [safe_rules]:
  "inv_vm bs ks n vm \<Longrightarrow> (\<And>vs vm'. inv_vm bs ks n vm' \<Longrightarrow> holds (inv_vm bs ks n) (k vs vm')) \<Longrightarrow>
   holds (inv_vm bs ks n) (pop_many h m vm acc k)"
  by (induction m arbitrary: vm acc) (auto intro: pop_safe)

lemma running_safe [safe_rules]: "inv_vm bs ks n vm \<Longrightarrow> holds (inv_vm bs ks n) (Running vm)"
  by simp

lemma let_case_safe [safe_rules]:
  "(\<And>a b. p = (a, b) \<Longrightarrow> holds P (f a b)) \<Longrightarrow> holds P (case p of (a, b) \<Rightarrow> f a b)"
  "(b \<Longrightarrow> holds P x) \<Longrightarrow> (\<not> b \<Longrightarrow> holds P y) \<Longrightarrow> holds P (if b then x else y)"
  "holds P (g c) \<Longrightarrow> holds P (Let c g)"
  "holds P GoPanic" "holds P Beyond"
  "(\<And>a b. p = (a, b) \<Longrightarrow> holds P (f' a b d)) \<Longrightarrow> holds P ((case p of (a, b) \<Rightarrow> f' a b) d)"
  "(opt = None \<Longrightarrow> holds P x) \<Longrightarrow> (\<And>e. opt = Some e \<Longrightarrow> holds P (k e)) \<Longrightarrow>
   holds P (case opt of None \<Rightarrow> x | Some e \<Rightarrow> k e)"
  by (auto split: prod.splits option.splits)

lemma inv_if [safe_rules]:
  "inv_vm bs ks n vm \<Longrightarrow> inv_vm bs ks n vm' \<Longrightarrow> inv_vm bs ks n (if b then vm else vm')"
  "inv_vm bs ks n (g c) \<Longrightarrow> inv_vm bs ks n (Let c g)"
  by simp_all

section \<open>The instructions\<close>

lemma load_store_safe:
  assumes "inv_vm bs ks n vm"
  shows "holds (inv_vm bs ks n) (exec_Constant h vm)"
    and "holds (inv_vm bs ks n) (exec_GetGlobal h vm)"
    and "holds (inv_vm bs ks n) (exec_GetLocal h vm)"
    and "holds (inv_vm bs ks n) (exec_SetGlobal h vm)"
    and "holds (inv_vm bs ks n) (exec_LetGlobal h vm)"
    and "holds (inv_vm bs ks n) (exec_store_local b h vm)"
    and "holds (inv_vm bs ks n) (exec_Set h vm)"
  unfolding exec_Constant_def exec_GetGlobal_def exec_GetLocal_def exec_SetGlobal_def exec_LetGlobal_def
    exec_store_local_def exec_Set_def store_global_def
  by (rule safe_rules assms | assumption)+

lemma counter_safe:
  assumes "inv_vm bs ks n vm"
  shows "holds (inv_vm bs ks n) (exec_count_local up h vm)"
    and "holds (inv_vm bs ks n) (exec_count_global up h vm)"
  unfolding exec_count_local_def exec_count_global_def
  by (rule safe_rules assms | assumption)+

lemma for_operands_safe [safe_rules]:
  assumes "inv_vm bs ks n vm" "\<And>a b c d vm'. inv_vm bs ks n vm' \<Longrightarrow> holds P (k a b c d vm')"
  shows "holds P (for_next_operands vm k)"
  unfolding for_next_operands_def
  using assms by (auto intro!: u16_safe u32_safe intro: inv_update split: option.splits)

lemma for_next_safe:
  assumes "inv_vm bs ks n vm"
  shows "holds (inv_vm bs ks n) (exec_ForNextFastInt h vm)"
    and "holds (inv_vm bs ks n) (exec_ForNextFastGlobalInt h vm)"
  unfolding exec_ForNextFastInt_def exec_ForNextFastGlobalInt_def
  by (rule safe_rules assms | assumption)+

text \<open>An absorbed error leaves the stack pointer, the frame pointer and the call stack alone.\<close>

lemma raise_safe_same:
  assumes "inv_vm bs ks n vm"
    "\<And>vm'. inv_vm bs ks n vm' \<Longrightarrow> vm_sp vm' = vm_sp vm \<Longrightarrow> vm_fp vm' = vm_fp vm \<Longrightarrow>
       holds (inv_vm bs ks n) (k vm')"
  shows "holds (inv_vm bs ks n) (raise_vm e vm k)"
proof -
  have eq: "raise_vm e vm k
      = raise_vm e vm (\<lambda>u. if vm_sp u = vm_sp vm \<and> vm_fp u = vm_fp vm then k u else GoPanic)"
    by (simp add: raise_vm_def Let_def)
  show ?thesis
    by (subst eq) (auto intro!: raise_safe assms)
qed

lemma exec_binary_safe [safe_rules]:
  assumes "inv_vm bs ks n vm" "in_stack (vm_sp vm - 1)"
  shows "holds (inv_vm bs ks n) (exec_binary h r vm)"
proof -
  have drop: "holds (inv_vm bs ks n) (Running (put (u\<lparr>vm_sp := vm_sp u - 1\<rparr>) (vm_sp u - 1) v))"
    if "inv_vm bs ks n u" "vm_sp u = vm_sp vm" for u v
    using that assms(2) by (auto simp: inv_vm_def sp_ok_def in_stack_def put_def)
  show ?thesis
  proof (cases "snd r")
    case None
    then show ?thesis by (simp only: exec_binary_def raised_then_def option.case drop assms(1))
  next
    case (Some e)
    then show ?thesis
      by (simp only: exec_binary_def raised_then_def option.case) (rule raise_safe_same[OF assms(1)], rule drop)
  qed
qed

lemma operator_safe:
  assumes "inv_vm bs ks n vm"
  shows "holds (inv_vm bs ks n) (exec_binary_op h op vm)"
    and "holds (inv_vm bs ks n) (exec_unary h f vm)"
  unfolding exec_binary_op_def exec_unary_def
  by (rule safe_rules assms | assumption)+

lemma jump_safe:
  assumes "inv_vm bs ks n vm"
  shows "holds (inv_vm bs ks n) (exec_Jump vm)"
    and "holds (inv_vm bs ks n) (exec_JumpIf sense h vm)"
    and "holds (inv_vm bs ks n) (exec_fused_jump h op vm)"
  unfolding exec_Jump_def exec_JumpIf_def exec_fused_jump_def
  by (rule safe_rules assms | assumption)+

lemma read_indices_safe [safe_rules]:
  "inv_vm bs ks n vm \<Longrightarrow> (\<And>xs vm'. length xs = m \<Longrightarrow> inv_vm bs ks n vm' \<Longrightarrow> holds P (k xs vm')) \<Longrightarrow>
   holds P (read_indices vm m k)"
  by (induction m arbitrary: vm k) (auto intro!: u16_safe)

lemma store_constants_safe:
  "inv_vm bs ks n vm \<Longrightarrow> (\<And>vm'. inv_vm bs ks n vm' \<Longrightarrow> vm_sp vm' = vm_sp vm \<Longrightarrow> xs = [] \<or> in_stack (i + int (length xs) - 1) \<Longrightarrow>
      holds P (k vm')) \<Longrightarrow>
   holds P (store_constants vm i xs k)"
proof (induction xs arbitrary: vm i)
  case Nil
  then show ?case by simp
next
  case (Cons x xs)
  show ?case
    unfolding store_constants.simps
  proof (intro const_safe slot_safe Cons.IH)
    fix c
    assume st: "in_stack i"
    show "inv_vm bs ks n (put vm i c)" using Cons.prems(1) by (rule inv_update)
    fix vm'
    assume "inv_vm bs ks n vm'" "vm_sp vm' = vm_sp (put vm i c)" "xs = [] \<or> in_stack (i + 1 + int (length xs) - 1)"
    then show "holds P (k vm')" using Cons.prems(2) st by (auto simp: put_def)
  qed
qed

lemma ext_safe:
  assumes "inv_vm bs ks n vm"
  shows "holds (inv_vm bs ks n) (exec_jump_local vm)"
    and "holds (inv_vm bs ks n) (exec_jump_global vm)"
    and "holds (inv_vm bs ks n) (exec_local_const f h vm)"
    and "holds (inv_vm bs ks n) (exec_sub_global_const h vm)"
  unfolding exec_jump_local_def exec_jump_global_def exec_local_const_def exec_sub_global_const_def
  by (rule safe_rules assms | assumption)+

lemma constants_safe:
  assumes "inv_vm bs ks n vm" "0 < m"
  shows "holds (inv_vm bs ks n) (exec_constants m vm)"
  unfolding exec_constants_def
proof (rule read_indices_safe[OF assms(1)])
  fix xs :: "nat list" and vm'
  assume l: "length xs = m" and i: "inv_vm bs ks n vm'"
  show "holds (inv_vm bs ks n) (store_constants vm' (vm_sp vm' + 1) xs
          (\<lambda>vm. Running (vm\<lparr>vm_sp := vm_sp vm + int m\<rparr>)))"
    by (rule store_constants_safe[OF i])
       (use l assms(2) in \<open>auto simp: inv_vm_def sp_ok_def in_stack_def\<close>)
qed

lemma exec_ext_safe:
  assumes "inv_vm bs ks n vm"
  shows "holds (inv_vm bs ks n) (exec_ext h vm)"
  unfolding exec_ext_def
  by (rule safe_rules ext_safe constants_safe assms zero_less_numeral | assumption)+

lemma misc_safe:
  assumes "inv_vm bs ks n vm"
  shows "holds (inv_vm bs ks n) (exec_Write h vm)"
    and "holds (inv_vm bs ks n) (exec_WriteN h vm)"
    and "holds (inv_vm bs ks n) (exec_WriteStatic vm)"
    and "holds (inv_vm bs ks n) (exec_SetOption vm)"
    and "holds (inv_vm bs ks n) (exec_Line vm)"
    and "holds (inv_vm bs ks n) (exec_Swap vm)"
    and "holds (inv_vm bs ks n) (exec_arg_ref b h vm)"
    and "holds (inv_vm bs ks n) (exec_Me h vm)"
  unfolding exec_Write_def exec_WriteN_def exec_WriteStatic_def exec_SetOption_def exec_Line_def exec_Swap_def
    exec_arg_ref_def exec_Me_def
  by (rule safe_rules assms | assumption)+

lemma resume_safe:
  "inv_vm bs ks n vm \<Longrightarrow> holds (inv_vm bs ks n) (exec_ResumeNext b vm)"
  by (simp add: exec_ResumeNext_def inv_vm_def)

section \<open>Calls and returns\<close>

text \<open>Updates that leave the program, the sizes, the pointers and the frames alone.\<close>

definition same_core :: "VM \<Rightarrow> VM \<Rightarrow> bool" where
  "same_core vm vm' \<longleftrightarrow>
     vm_bytecode vm' = vm_bytecode vm \<and> vm_constants vm' = vm_constants vm
   \<and> length (vm_Globals vm') = length (vm_Globals vm)
   \<and> vm_sp vm' = vm_sp vm \<and> vm_fp vm' = vm_fp vm \<and> vm_stmtSP vm' = vm_stmtSP vm
   \<and> vm_callStack vm' = vm_callStack vm \<and> vm_ip vm' = vm_ip vm
   \<and> vm_executeGlobalResumeGuard vm' = vm_executeGlobalResumeGuard vm"

lemma same_core_refl: "same_core vm vm"
  by (simp add: same_core_def)

lemma same_core_trans: "same_core vm vm' \<Longrightarrow> same_core vm' vm'' \<Longrightarrow> same_core vm vm''"
  by (simp add: same_core_def)

lemma same_core_inv: "same_core vm vm' \<Longrightarrow> inv_vm bs ks n vm \<Longrightarrow> inv_vm bs ks n vm'"
  by (simp add: same_core_def inv_vm_def)

lemma same_core_updates:
  "same_core vm (put vm i v)" "same_core vm (put_global vm g v)" "same_core vm (inc_ref v vm)"
  "same_core vm (vm\<lparr>vm_objs := ob\<rparr>)" "same_core vm ((put vm i v)\<lparr>vm_localTypes := t\<rparr>)"
  by (simp_all add: same_core_def put_def put_global_def inc_ref_def)

lemma clear_slots_core:
  "clear_slots vm i k = Some vm' \<Longrightarrow> same_core vm vm' \<and> (0 < k \<longrightarrow> in_stack i \<and> in_stack (i + int k - 1))"
proof (induction vm i k rule: clear_slots.induct)
  case (1 vm i)
  then show ?case by (simp add: same_core_refl)
next
  case (2 vm i k)
  then have i: "in_stack i" by (auto split: if_splits)
  let ?u = "(put vm i (typed VTEmpty))\<lparr>vm_localTypes := (vm_localTypes vm)(i := VTEmpty)\<rparr>"
  have r: "clear_slots ?u (i + 1) k = Some vm'" using 2 i by simp
  have ih: "same_core ?u vm' \<and> (0 < k \<longrightarrow> in_stack (i + 1) \<and> in_stack (i + 1 + int k - 1))"
    using "2.IH"[OF i r] .
  then show ?case using i same_core_trans[OF same_core_updates(5)] by (cases k) (auto simp: algebra_simps)
qed

lemma declare_locals_core: "same_core vm (declare_locals vm entry n ls)"
proof (induction ls arbitrary: vm)
  case Nil
  then show ?case by (simp add: same_core_refl)
next
  case (Cons l ls)
  then show ?case
    by (cases l) (auto simp: Let_def intro: same_core_trans[OF same_core_updates(5)])
qed

lemma bind_params_core: "bind_params vm entry om p k args = Some vm' \<Longrightarrow> same_core vm vm'"
proof (induction vm entry om p k args rule: bind_params.induct)
  case (1 vm entry om p args)
  then show ?case by (simp add: same_core_refl)
next
  case (2 vm entry om p k args)
  have u: "same_core vm (inc_ref a (put vm i b))" for a i b
    using same_core_trans same_core_updates(1,3) by blast
  from 2 show ?case
    by (auto simp: Let_def intro: same_core_trans[OF u] split: list.splits if_splits)
qed

lemma write_backs_core: "write_backs frame vm wbs = Some vm' \<Longrightarrow> same_core vm vm'"
proof (induction frame vm wbs rule: write_backs.induct)
  case (1 frame vm)
  then show ?case by (simp add: same_core_refl)
next
  case (2 frame vm wb rest)
  then obtain vm1 where w: "write_back frame vm wb = Some vm1" by (auto split: option.splits)
  have "same_core vm vm1"
    using w by (auto simp: write_back_def Let_def same_core_updates same_core_refl split: if_splits)
  with 2 w show ?case by (auto intro: same_core_trans)
qed

lemma leave_slots_core: "same_core vm (snd (leave_slots vm i k))"
proof (induction vm i k rule: leave_slots.induct)
  case (1 vm i)
  then show ?case by (simp add: same_core_refl)
next
  case (2 vm i k)
  then show ?case
    by (auto simp: Let_def split: prod.splits if_splits intro: same_core_trans[OF same_core_updates(1)])
qed

lemma release_locals_core: "release_locals kept r vm vs = Some vm' \<Longrightarrow> same_core vm vm'"
  by (induction kept r vm vs rule: release_locals.induct)
     (auto simp: same_core_refl split: option.splits intro: same_core_trans[OF same_core_updates(4)])

lemma finish_terminate_core: "finish_terminate frame vm = Some vm' \<Longrightarrow> same_core vm vm'"
  by (auto simp: finish_terminate_def same_core_refl same_core_updates split: if_splits option.splits)

lemma enter_frame_inv:
  "inv_vm bs ks n vm \<Longrightarrow> inv_vm bs ks n (enter_frame vm target discard bound wb)"
  by (simp add: inv_vm_def enter_frame_def frame_ok_def)

lemma begin_call_safe:
  assumes "inv_vm bs ks n vm"
  shows "holds (inv_vm bs ks n) (begin_call vm target args discard bound wb)"
proof -
  let ?e = "enter_frame vm target discard bound wb"
  let ?fl = "\<lambda>lc fp. if 0 < lc then fp + lc - 1 else fp - 1"
  have e: "inv_vm bs ks n ?e" using enter_frame_inv[OF assms] .
  have fp: "vm_fp ?e = vm_sp ?e + 1" by (simp add: enter_frame_def)
  have ok: "sp_ok (vm_sp ?e)" using e by (simp add: inv_vm_def)
  have fill: "holds (inv_vm bs ks n)
      (case clear_slots u (vm_fp u) (nat lc) of None \<Rightarrow> GoPanic
       | Some vm1 \<Rightarrow>
         (case bind_params (declare_locals vm1 en lc (vm_funcLocalTypes vm1 en)) en om 0 pc args of
            None \<Rightarrow> GoPanic
          | Some vm2 \<Rightarrow> Running (vm2\<lparr>vm_sp := (if 0 < lc then vm_fp ?e + lc - 1 else vm_fp vm2 - 1), vm_ip := a\<rparr>)))"
    if u: "inv_vm bs ks n u" "vm_fp u = vm_fp ?e" for u lc en om pc a
  proof (cases "clear_slots u (vm_fp u) (nat lc)")
    case None
    then show ?thesis by simp
  next
    case (Some vm1)
    let ?d = "declare_locals vm1 en lc (vm_funcLocalTypes vm1 en)"
    show ?thesis
    proof (cases "bind_params ?d en om 0 pc args")
      case None
      then show ?thesis using Some by simp
    next
      case b: (Some vm2)
      have c: "same_core u vm2"
        using clear_slots_core[OF Some] declare_locals_core bind_params_core[OF b] same_core_trans by blast
      have i: "inv_vm bs ks n vm2" "vm_fp vm2 = vm_fp ?e"
        using same_core_inv[OF c u(1)] c u(2) by (simp_all add: same_core_def)
      have "in_stack (vm_fp ?e + lc - 1)" if "0 < lc"
        using clear_slots_core[OF Some] that u(2) by auto
      then have "sp_ok (if 0 < lc then vm_fp ?e + lc - 1 else vm_fp vm2 - 1)"
        using i(2) fp ok by (simp add: in_stack_def sp_ok_def)
      then show ?thesis using Some b i(1) by (simp add: inv_vm_def)
    qed
  qed
  show ?thesis
    unfolding begin_call_def Let_def
    by (auto simp del: option.case intro!: raise_safe_same[OF e] fill e)
qed

lemma restore_frame_inv:
  "inv_vm bs ks n vm \<Longrightarrow> frame_ok frame \<Longrightarrow> inv_vm bs ks n (restore_frame frame vm)"
  by (simp add: inv_vm_def restore_frame_def frame_ok_def)

lemma return_safe:
  assumes "inv_vm bs ks n vm" "frame_ok frame"
  shows "holds (inv_vm bs ks n) (return_from h frame retVal vm)"
proof -
  have finish: "holds (inv_vm bs ks n)
      (case release_locals kept retVal u os of None \<Rightarrow> Beyond | Some vm' \<Rightarrow> Running vm')"
    if "inv_vm bs ks n u" for kept u os
    using that by (auto split: option.splits dest: release_locals_core intro: same_core_inv)
  show ?thesis
  proof (cases "finish_terminate frame vm")
    case None
    then show ?thesis by (simp add: return_from_def)
  next
    case (Some v1)
    then have c1: "same_core vm v1" by (rule finish_terminate_core)
    show ?thesis
    proof (cases "write_backs frame v1 (fr_byRefs frame)")
      case None
      then show ?thesis using Some by (simp add: return_from_def)
    next
      case w: (Some v2)
      obtain os v3 where l:
        "leave_slots v2 (vm_fp v2) (nat (callee_end frame v2 + 1 - vm_fp v2)) = (os, v3)" by fastforce
      have "same_core vm v3"
        using c1 write_backs_core[OF w] leave_slots_core[of v2] l same_core_trans by (metis snd_conv)
      then have r: "inv_vm bs ks n (restore_frame frame v3)"
        by (rule restore_frame_inv[OF same_core_inv[OF _ assms(1)] assms(2)])
      show ?thesis
        unfolding return_from_def Some w l option.case prod.case Let_def
        by (rule let_case_safe(2)) (rule finish[OF r], rule push_safe[OF r], rule finish)
    qed
  qed
qed

lemma call_return_safe:
  assumes "inv_vm bs ks n vm"
  shows "holds (inv_vm bs ks n) (exec_Call h vm)"
    and "holds (inv_vm bs ks n) (exec_Ret h vm)"
proof -
  show "holds (inv_vm bs ks n) (exec_Call h vm)"
    unfolding exec_Call_def
    by (rule u16_safe[OF assms], rule slot_safe, rule pop_many_safe, assumption, rule pop_safe, assumption)
       (auto simp: Let_def split: option.splits intro!: push_safe begin_call_safe)
  show "holds (inv_vm bs ks n) (exec_Ret h vm)"
    unfolding exec_Ret_def
  proof (rule pop_safe[OF assms])
    fix v vm'
    assume i: "inv_vm bs ks n vm'"
    show "holds (inv_vm bs ks n) (case vm_callStack vm' of [] \<Rightarrow> push_then h vm' v Running
        | frame # rest \<Rightarrow> return_from h frame v (vm'\<lparr>vm_callStack := rest\<rparr>))"
    proof (cases "vm_callStack vm'")
      case Nil
      then show ?thesis using i by (auto intro: push_safe)
    next
      case (Cons f rest)
      then have "frame_ok f" "inv_vm bs ks n (vm'\<lparr>vm_callStack := rest\<rparr>)" using i by (auto simp: inv_vm_def)
      then show ?thesis using Cons return_safe by simp
    qed
  qed
qed

lemma coerce_value_safe:
  assumes "inv_vm bs ks n vm"
  shows "holds (inv_vm bs ks n) (exec_CoerceToValue h vm)"
  unfolding exec_CoerceToValue_def
  by (rule pop_safe[OF assms]) (auto intro!: push_safe begin_call_safe)

section \<open>Every instruction\<close>

lemmas handler_safe =
  load_store_safe counter_safe for_next_safe operator_safe jump_safe exec_ext_safe misc_safe resume_safe
  call_return_safe coerce_value_safe

lemma exec_safe:
  assumes "inv_vm bs ks n vm"
  shows "holds (inv_vm bs ks n) (exec h op vm)"
proof -
  have slots: "holds (inv_vm bs ks n) (exec_slots h op vm)"
    unfolding exec_slots_def by (simp add: handler_safe[OF assms])
  have control: "holds (inv_vm bs ks n) (exec_control h op vm)"
    unfolding exec_control_def using slots inv_update(1)[OF assms]
    by (simp add: handler_safe[OF assms])
  show ?thesis
    unfolding exec_def using control assms
    by (simp add: handler_safe[OF assms] pop_safe[OF assms])
qed

lemma step_safe:
  assumes "inv_vm bs ks n vm"
  shows "holds (inv_vm bs ks n) (step h vm)"
  unfolding step_def using exec_safe[OF inv_update(1)[OF assms]] assms by simp

lemma run_safe:
  assumes "inv_vm bs ks n vm"
  shows "holds (inv_vm bs ks n) (run fuel h vm)"
  using assms
proof (induction fuel h vm rule: run.induct)
  case (1 h vm)
  then show ?case by simp
next
  case (2 m h vm)
  have "holds (inv_vm bs ks n) (step h vm)" using "2.prems" by (rule step_safe)
  with "2.IH" show ?case by (cases "step h vm") simp_all
qed

lemma steps_inv: "steps h vm vm' \<Longrightarrow> inv_vm bs ks n vm \<Longrightarrow> inv_vm bs ks n vm'"
proof (induction rule: steps.induct)
  case (steps_refl vm)
  then show ?case .
next
  case (steps_step vm vm1 vm2)
  then show ?case using step_safe[of bs ks n vm1 h] by simp
qed

text \<open>The relation is the reflexive transitive closure that \<open>run\<close> computes.\<close>

lemma steps_head: "steps h vm1 vm2 \<Longrightarrow> step h vm = Running vm1 \<Longrightarrow> steps h vm vm2"
  by (induction rule: steps.induct) (auto intro: steps.intros)

lemma run_steps: "run fuel h vm = Running vm' \<Longrightarrow> steps h vm vm'"
  by (induction fuel h vm rule: run.induct) (auto intro: steps_refl steps_head split: outcome.splits)

lemma run_add: "run (m + k) h vm = (case run m h vm of Running vm' \<Rightarrow> run k h vm' | r \<Rightarrow> r)"
  by (induction m h vm rule: run.induct) (auto split: outcome.splits)

lemma steps_run: "steps h vm vm' \<Longrightarrow> \<exists>fuel. run fuel h vm = Running vm'"
proof (induction rule: steps.induct)
  case (steps_refl vm)
  then show ?case by (auto intro: exI[of _ 0])
next
  case (steps_step vm vm1 vm2)
  then obtain m where "run m h vm = Running vm1" by auto
  then have "run (m + 1) h vm = Running vm2" using steps_step.hyps by (simp only: run_add) simp
  then show ?case by blast
qed

end
