(* ===== verification/UserSubs.thy ===== *)
theory UserSubs
  imports Values
begin

text \<open>
  The packed representation of a procedure value: \<open>NewUserSubEx\<close> stores the two counts and the
  function flag in the float field and the three parameter descriptors in the string field;
  \<open>UserSubParamCount\<close>, \<open>parseUserSubStr\<close> and the other readers take them out again.
\<close>

section \<open>Numbers as text\<close>

text \<open>What the descriptor needs of a number format: it reads back, and it never contains the
  separator.\<close>

locale number_codec =
  fixes print :: "'a \<Rightarrow> string" and parse :: "string \<Rightarrow> 'a option" and valid :: "'a \<Rightarrow> bool"
  assumes reads_back: "valid x \<Longrightarrow> parse (print x) = Some x"
    and no_separator: "CHR ''|'' \<notin> set (print x)"
    and print_nonempty: "print x \<noteq> []"
begin

lemma field_span:
  "takeWhile (\<lambda>c. c \<noteq> CHR ''|'') (print x @ CHR ''|'' # r) = print x"
  "dropWhile (\<lambda>c. c \<noteq> CHR ''|'') (print x @ CHR ''|'' # r) = CHR ''|'' # r"
proof -
  have "\<forall>c\<in>set (print x). c \<noteq> CHR ''|''" using no_separator by metis
  then show "takeWhile (\<lambda>c. c \<noteq> CHR ''|'') (print x @ CHR ''|'' # r) = print x"
    "dropWhile (\<lambda>c. c \<noteq> CHR ''|'') (print x @ CHR ''|'' # r) = CHR ''|'' # r"
    by (simp_all add: takeWhile_append2 dropWhile_append2)
qed

lemma print_inj: "valid x \<Longrightarrow> valid y \<Longrightarrow> print x = print y \<Longrightarrow> x = y"
  using reads_back by (metis option.inject)

end

lemma code_digit: "d < 10 \<Longrightarrow> code (char_of (48 + d)) = 48 + d"
  by (simp add: code_def)

lemma digits_value_snoc: "digits_value a (s @ [c]) = digits_value a s * 10 + (code c - 48)"
  by (induction s arbitrary: a) simp_all

lemma nat_digits_digits: "list_all is_digit (nat_digits n) \<and> nat_digits n \<noteq> [] \<and> digits_value 0 (nat_digits n) = n"
proof (induction n rule: nat_digits.induct)
  case (1 n)
  show ?case
  proof (cases "n < 10")
    case True
    then show ?thesis by (simp add: nat_digits.simps[of n] is_digit_def code_digit)
  next
    case False
    have m: "n mod 10 < 10" by simp
    show ?thesis
      using False "1" code_digit[OF m] by (simp add: nat_digits.simps[of n] is_digit_def digits_value_snoc)
  qed
qed

lemma parse_nat_digits: "parse_digits (nat_digits n) = Some n"
  using nat_digits_digits by (simp add: parse_digits_def)

lemma digit_not: "list_all is_digit s \<Longrightarrow> \<not> is_digit c \<Longrightarrow> c \<notin> set s"
  by (auto simp: list_all_iff)

lemma sign_not_digit: "\<not> is_digit (CHR ''|'')" "\<not> is_digit (CHR ''-'')" "\<not> is_digit (CHR ''+'')"
  by (simp_all add: is_digit_def code_def of_char_def)

lemma unat_u64: "unat (w :: u64) < 2 ^ 64"
  using unsigned_less[of w, where ?'a = nat] by simp

definition print_mask :: "u64 \<Rightarrow> string" where
  "print_mask w = nat_digits (unat w)"

definition parse_mask :: "string \<Rightarrow> u64 option" where
  "parse_mask s = map_option word_of_nat (parse_uint64 s)"

interpretation mask_codec: number_codec print_mask parse_mask "\<lambda>_. True"
proof unfold_locales
  fix w :: u64
  have "unat w < 2 ^ 64" by (rule unat_u64)
  then show "parse_mask (print_mask w) = Some w"
    by (simp add: parse_mask_def print_mask_def parse_uint64_def parse_nat_digits)
  show "CHR ''|'' \<notin> set (print_mask w)"
    using nat_digits_digits digit_not sign_not_digit(1) by (simp add: print_mask_def)
  show "print_mask w \<noteq> []" using nat_digits_digits by (simp add: print_mask_def)
qed

lemma parse_int64_digits: "parse_int64 (nat_digits n) = (if n < 2 ^ 63 then Some (int n) else None)"
proof -
  obtain c r where s: "nat_digits n = c # r" "is_digit c"
    using nat_digits_digits[of n] by (cases "nat_digits n") auto
  then have "c \<noteq> CHR ''+''" "c \<noteq> CHR ''-''" using sign_not_digit by auto
  then show ?thesis using parse_nat_digits[of n] by (simp add: parse_int64_def s(1))
qed

interpretation index_codec: number_codec format_int parse_int64 "\<lambda>n. - (2 ^ 63) \<le> n \<and> n < 2 ^ 63"
proof unfold_locales
  fix n :: int
  show "parse_int64 (format_int n) = Some n" if "- (2 ^ 63) \<le> n \<and> n < 2 ^ 63"
  proof (cases "n < 0")
    case True
    then show ?thesis using that by (simp add: format_int_def parse_int64_def parse_nat_digits)
  next
    case False
    then show ?thesis using that by (simp add: format_int_def parse_int64_digits)
  qed
  show "CHR ''|'' \<notin> set (format_int n)"
    using nat_digits_digits digit_not sign_not_digit(1) by (simp add: format_int_def)
  show "format_int n \<noteq> []" using nat_digits_digits by (simp add: format_int_def)
qed

section \<open>The parameter descriptors\<close>

lemma split_three:
  "split_n 3 (CHR ''|'') (print_mask a @ CHR ''|'' # print_mask b @ CHR ''|'' # s) = [print_mask a, print_mask b, s]"
  by (simp add: numeral_3_eq_3 mask_codec.field_span)

lemma parse_printed_mask: "parse_uint_ignoring_error (print_mask w) = w"
proof -
  have "unat w < 2 ^ 64" by (rule unat_u64)
  then show ?thesis by (simp add: parse_uint_ignoring_error_def print_mask_def parse_nat_digits)
qed

lemma parse_meta:
  assumes "-1 \<le> p" "p < 2 ^ 63"
  shows "parseUserSubStr (user_sub_meta r q p) = (r, q, p)"
proof (cases "r \<noteq> 0 \<or> q \<noteq> 0 \<or> 0 \<le> p")
  case True
  then have "user_sub_meta r q p = print_mask r @ CHR ''|'' # print_mask q @ CHR ''|'' # format_int p"
    by (simp add: user_sub_meta_def print_mask_def)
  then show ?thesis
    using index_codec.reads_back[of p] assms
    by (simp add: parseUserSubStr_def split_three parse_printed_mask mask_codec.print_nonempty
        index_codec.print_nonempty)
next
  case False
  then show ?thesis using assms by (simp add: user_sub_meta_def parseUserSubStr_def)
qed

section \<open>The counts and the function flag\<close>

lemma f_round_odd_half:
  assumes "2 * n + 1 < 2 ^ 53"
  shows "\<exists>k. f_round False (2 * n + 1) 2 = FFin False ((2 * n + 1) * 2 ^ k) (- int k - 1) \<and> k \<le> 52"
proof -
  let ?p = "2 * n + 1"
  obtain L where L: "bit_length ?p = Suc L" "2 ^ L \<le> ?p" "?p < 2 ^ Suc L"
    using bit_length_bounds[of ?p] gr0_conv_Suc by auto
  have b2: "bit_length (2::nat) = 2" using bit_length_unique[of 1 2] by simp
  have "(2::nat) ^ L < 2 ^ 53" using L(2) assms by linarith
  then have L52: "L \<le> 52" by (simp only: power_strict_increasing_iff one_less_numeral_iff semiring_norm(76))
  have fl: "flog2 ?p 2 = int L - 1"
  proof (cases L)
    case 0
    then show ?thesis using L b2 by (simp add: flog2_def)
  next
    case (Suc j)
    then show ?thesis using L b2 by (simp add: flog2_def)
  qed
  define k where "k = 52 - L"
  have e: "max (-1074) (flog2 ?p 2 - 52) = - int k - 1" using fl L52 by (simp add: k_def)
  have "?p * 2 ^ k < 2 ^ Suc L * 2 ^ k" using L(3) by (rule mult_strict_right_mono) simp
  also have "\<dots> = 2 ^ 53" using L52 by (simp add: k_def power_add[symmetric])
  finally have lt: "?p * 2 ^ k < 2 ^ 53" .
  have "nat (- (- int k - 1)) = Suc k" by simp
  then have "f_round False ?p 2 = f_pack False (half_even (?p * 2 ^ Suc k) 2) (- int k - 1)"
    unfolding f_round_def e Let_def by simp
  also have "half_even (?p * 2 ^ Suc k) 2 = ?p * 2 ^ k"
    using half_even_exact[of 2 "?p * 2 ^ k"] by (simp add: ac_simps)
  finally show ?thesis using lt k_def by (auto simp: f_pack_def intro!: exI[of _ k])
qed

lemma f_half_eq: "f_half = FFin False (2 ^ 52) (-53)"
proof -
  have "bit_length 1 = 1" "bit_length 2 = 2" using bit_length_unique[of 0 1] bit_length_unique[of 1 2] by simp_all
  then have "flog2 1 2 = -1" by (simp add: flog2_def)
  then show ?thesis
    using half_even_exact[of 2 "2 ^ 52"] by (simp add: f_half_def f_dyadic_def f_round_def f_pack_def)
qed

text \<open>Adding a half to an integer below \<open>2 ^ 52\<close> is exact, truncates back and is seen.\<close>

lemma add_half:
  assumes "0 \<le> n" "n < 2 ^ 52"
  shows "f_to_i64 (f_add (f_of_int n) f_half) = word_of_int n"
    and "\<not> f_eq (f_add (f_of_int n) f_half) (f_of_int n)"
proof -
  obtain m e where A: "f_of_int n = FFin False m e" "dyad m e (nat n)" "-1074 \<le> e" "e \<le> 1"
    using f_of_int_dyad[of n] assms by auto
  define N where "N = nat n"
  have small: "2 * N + 1 < 2 ^ 53" using assms by (simp add: N_def)
  obtain k where k: "f_round False (2 * N + 1) 2 = FFin False ((2 * N + 1) * 2 ^ k) (- int k - 1)" "k \<le> 52"
    using f_round_odd_half[OF small] by auto
  have nN: "n = int N" using assms(1) by (simp add: N_def)
  define e0 where "e0 = min e (-53)"
  define j where "j = nat (- 53 - e0)"
  have e0: "e0 < 0" "nat (- e0) = 53 + j" "nat (-53 - e0) = j" by (simp_all add: e0_def j_def)
  have al: "aligned False m e e0 = n * 2 ^ (53 + j)"
    using dyad_signed_aligned[of m e n e0 False] A(2) assms(1) e0 by (simp add: e0_def)
  define Z where "Z = (2 * N + 1) * 2 ^ (52 + j)"
  have Z0: "0 < Z" by (simp add: Z_def)
  have z: "n * 2 ^ (53 + j) + 2 ^ 52 * 2 ^ j = int Z"
    by (simp add: Z_def nN power_add algebra_simps)
  have half: "aligned False (2 ^ 52) (-53) e0 = 2 ^ 52 * 2 ^ j"
    using e0(3) by (simp add: aligned_def signed_def)
  have "f_add (f_of_int n) f_half = f_dyadic False Z e0"
    unfolding A(1) f_half_eq f_add.simps Let_def e0_def[symmetric] al half z using Z0 by simp
  also have "\<dots> = f_round False ((2 * N + 1) * 2 ^ (52 + j)) (2 * 2 ^ (52 + j))"
    using e0 by (simp add: f_dyadic_def Z_def power_add)
  also have "\<dots> = f_round False (2 * N + 1) 2" by (rule f_round_scale) simp
  finally have "f_add (f_of_int n) f_half = f_round False (2 * N + 1) 2" .
  then have x: "f_add (f_of_int n) f_half = FFin False ((2 * N + 1) * 2 ^ k) (- int k - 1)" using k by simp
  have "(2 * N + 1) * 2 ^ k div (2 * 2 ^ k) = (2 * N + 1) div 2" by (rule div_mult_mult2) simp
  then have "(2 * N + 1) * 2 ^ k div 2 ^ Suc k = N" by simp
  moreover have "nat (- (- int k - 1)) = Suc k" by simp
  ultimately have "f_trunc False ((2 * N + 1) * 2 ^ k) (- int k - 1) = n"
    using assms(1) unfolding f_trunc_def by (simp add: signed_def N_def del: power_Suc)
  then show "f_to_i64 (f_add (f_of_int n) f_half) = word_of_int n"
    using assms by (simp add: x Let_def)
  show "\<not> f_eq (f_add (f_of_int n) f_half) (f_of_int n)"
  proof
    assume eq: "f_eq (f_add (f_of_int n) f_half) (f_of_int n)"
    define e1 where "e1 = min (- int k - 1) e"
    define q where "q = nat (- int k - 1 - e1)"
    have e1: "e1 < 0" "nat (- e1) = k + 1 + q" by (simp_all add: e1_def q_def)
    have a: "aligned False m e e1 = n * 2 ^ (k + 1 + q)"
      using dyad_signed_aligned[of m e n e1 False] A(2) assms(1) e1 by (simp add: e1_def)
    have "aligned False ((2 * N + 1) * 2 ^ k) (- int k - 1) e1 = aligned False m e e1"
      using eq[unfolded f_eq_def x, unfolded A(1)] by (simp add: Let_def e1_def[symmetric] sgn_0_0)
    then have "(2 * int N + 1) * 2 ^ (k + q) = (2 * int N) * 2 ^ (k + q)"
      unfolding a unfolding aligned_def signed_def q_def[symmetric] by (simp add: nN power_add algebra_simps)
    then show False by simp
  qed
qed

lemma sint_i64: "- (2 ^ 63) \<le> n \<Longrightarrow> n < 2 ^ 63 \<Longrightarrow> sint (word_of_int n :: i64) = n"
  by (simp add: sint_sbintrunc' signed_take_bit_int_eq_self)

lemma and_4095: "(word_of_int n :: i64) AND 0x0FFF = word_of_int (n AND 4095)"
  using word_wi_log_defs(2)[of n 4095] by simp

lemma packed_counts:
  assumes "0 \<le> pc" "pc < 4096"
  shows "push_bit 12 (i64_of_int lc) OR (i64_of_int pc AND 0x0FFF) = word_of_int (lc * 4096 + pc)"
proof -
  have pc: "take_bit 12 pc = pc" using assms by (simp add: take_bit_int_eq_self)
  then have m: "pc AND 4095 = pc" by (simp add: take_bit_eq_mask mask_eq_exp_minus_1)
  have sh: "push_bit 12 (i64_of_int lc) = word_of_int (push_bit 12 lc)"
    by (simp add: i64_of_int_def push_bit_eq_mult)
  have "bit pc k \<Longrightarrow> k < 12" for k using pc by (metis bit_take_bit_iff)
  then have "\<not> bit (push_bit 12 lc) k \<or> \<not> bit pc k" for k by (metis bit_push_bit_iff_int not_le)
  then have "push_bit 12 lc + pc = push_bit 12 lc OR pc" by (rule disjunctive_add)
  then have o: "push_bit 12 lc OR pc = lc * 4096 + pc" by (simp add: push_bit_eq_mult)
  have a: "i64_of_int pc AND 0x0FFF = word_of_int pc"
    by (simp add: i64_of_int_def and_4095 m)
  have "(word_of_int (push_bit 12 lc) :: i64) OR word_of_int pc = word_of_int (push_bit 12 lc OR pc)"
    by (rule word_wi_log_defs(3))
  then show ?thesis by (simp only: sh a o)
qed

lemma unpacked_counts:
  assumes "0 \<le> pc" "pc < 4096" "pc \<le> lc" "lc < 2 ^ 40"
  defines "w \<equiv> (word_of_int (lc * 4096 + pc) :: i64)"
  shows "sint (if sint w \<le> 0x0FFF then w else w AND 0x0FFF) = pc"
    and "sint (if sint w \<le> 0x0FFF then w else signed_drop_bit 12 w) = lc"
proof -
  let ?n = "lc * 4096 + pc"
  have n: "sint w = ?n"
    unfolding w_def using assms(1-4) by (intro sint_i64) auto
  have small: "sint w \<le> 0x0FFF \<longleftrightarrow> lc = 0" using n assms by auto
  have "?n AND 4095 = take_bit 12 ?n" by (simp add: take_bit_eq_mask mask_eq_exp_minus_1)
  also have "\<dots> = pc" using assms by (simp add: take_bit_eq_mod)
  finally have "w AND 0x0FFF = word_of_int pc"
    by (simp only: w_def and_4095)
  moreover have "sint (word_of_int pc :: i64) = pc"
    using assms by (intro sint_i64) auto
  moreover have "sint (signed_drop_bit 12 w) = lc"
    using n assms by (simp add: sint_signed_drop_bit_eq drop_bit_eq_div)
  ultimately show "sint (if sint w \<le> 0x0FFF then w else w AND 0x0FFF) = pc"
    "sint (if sint w \<le> 0x0FFF then w else signed_drop_bit 12 w) = lc"
    using small n assms by auto
qed

text \<open>What the float field of a packed procedure reads as.\<close>

lemma marker_reads:
  fixes entry pc lc p :: int and isFunc :: bool and r q :: u64 and names :: "string list"
  assumes "0 \<le> pc" "pc < 4096" "pc \<le> lc" "lc < 2 ^ 40"
  defines "v \<equiv> NewUserSubEx entry pc lc isFunc r q p names"
  shows "f_to_i64 (VFlt v) = word_of_int (lc * 4096 + pc)" and "UserSubIsFunc v = isFunc"
proof -
  let ?n = "lc * 4096 + pc"
  have n: "0 \<le> ?n" "?n < 2 ^ 52" "\<bar>?n\<bar> \<le> 2 ^ 53" using assms by auto
  have s: "sint (word_of_int ?n :: i64) = ?n"
    using n by (intro sint_i64) auto
  have v: "VFlt v = (if isFunc then f_add (f_of_int ?n) f_half else f_of_int ?n)"
    using assms packed_counts[of pc lc] s by (simp add: v_def NewUserSubEx_def f_of_i64_def Let_def)
  show f: "f_to_i64 (VFlt v) = word_of_int ?n"
    using add_half(1)[OF n(1,2)] f_to_i64_of_int[OF n(3)] by (simp add: v)
  have "f_eq (f_of_int ?n) (f_of_int ?n)" using f_cmp_int[OF n(3) n(3)] by (simp add: f_eq_def)
  then show "UserSubIsFunc v = isFunc"
    using add_half(2)[OF n(1,2)] s by (simp add: UserSubIsFunc_def f f_of_i64_def) (simp add: v)
qed

lemma user_sub_reads:
  fixes entry pc lc p :: int and isFunc :: bool and r q :: u64 and names :: "string list"
  assumes "0 \<le> pc" "pc < 4096" "pc \<le> lc" "lc < 2 ^ 40" "-1 \<le> p" "p < 2 ^ 63"
  defines "v \<equiv> NewUserSubEx entry pc lc isFunc r q p names"
  shows "VType v = VTUserSub \<and> VNum v = i64_of_int entry \<and> sint (UserSubParamCount v) = pc
     \<and> sint (UserSubLocalCount v) = lc \<and> UserSubIsFunc v = isFunc \<and> UserSubByRefMask v = r
     \<and> UserSubOptionalMask v = q \<and> UserSubParamArrayIdx v = p \<and> VNames v = names"
proof -
  have f: "f_to_i64 (VFlt v) = word_of_int (lc * 4096 + pc)" "UserSubIsFunc v = isFunc"
    unfolding v_def using assms(1-4) by (rule marker_reads)+
  have "VStr v = user_sub_meta r q p" by (simp add: v_def NewUserSubEx_def Let_def)
  then have "parseUserSubStr (VStr v) = (r, q, p)" using parse_meta[OF assms(5,6)] by simp
  moreover have "sint (UserSubParamCount v) = pc" "sint (UserSubLocalCount v) = lc"
    using unpacked_counts[OF assms(1-4)] by (simp_all only: UserSubParamCount_def UserSubLocalCount_def Let_def f(1))
  moreover have "VType v = VTUserSub" "VNum v = i64_of_int entry" "VNames v = names"
    by (simp_all add: v_def NewUserSubEx_def Let_def)
  ultimately show ?thesis
    using f(2) by (simp add: UserSubByRefMask_def UserSubOptionalMask_def UserSubParamArrayIdx_def)
qed

text \<open>
  C39. A packed procedure value reads back as it was built: entry point, parameter count, local
  count, function flag, the ByRef and Optional masks and the \<open>ParamArray\<close> position, for every
  procedure with fewer than 4096 parameters.
\<close>

theorem user_sub_round_trip:
  fixes entry pc lc p :: int and isFunc :: bool and r q :: u64 and names :: "string list"
  assumes "0 \<le> pc" "pc < 4096" "pc \<le> lc" "lc < 2 ^ 40" "-1 \<le> p" "p < 2 ^ 63"
  defines "v \<equiv> NewUserSubEx entry pc lc isFunc r q p names"
  shows "VType v = VTUserSub \<and> VNum v = i64_of_int entry \<and> sint (UserSubParamCount v) = pc
     \<and> sint (UserSubLocalCount v) = lc \<and> UserSubIsFunc v = isFunc \<and> UserSubByRefMask v = r
     \<and> UserSubOptionalMask v = q \<and> UserSubParamArrayIdx v = p \<and> VNames v = names"
  unfolding v_def using user_sub_reads[OF assms(1-6)] by simp

theorem user_sub_round_trip_witness:
  "sint (UserSubParamCount (NewUserSubEx 100 2 3 True 1 2 (-1) [])) = 2
   \<and> UserSubIsFunc (NewUserSubEx 100 2 3 True 1 2 (-1) [])
   \<and> UserSubByRefMask (NewUserSubEx 100 2 3 True 1 2 (-1) []) = 1"
  using user_sub_round_trip[of 2 3 "-1" 100 True 1 2 "[]"] by simp

end
