(* ===== verification/Calls.thy ===== *)
theory Calls
  imports MachineLaws UserSubs
begin

text \<open>
  Procedure calls of the stack machine: the machine a program starts in (\<open>NewVM\<close>), what
  \<open>beginUserSubCall\<close> sets up for the callee, and what \<open>OpRet\<close> gives back to the caller.
\<close>

section \<open>The initial machine\<close>

text \<open>The globals \<open>NewVM\<close> injects: the eight intrinsic objects, two event slots, the builtins (one
  per entry of \<open>BuiltinRegistry\<close>) and the predefined constants, each where it fits below
  \<open>globalCount\<close>.\<close>

definition nativeObjectObjectContext :: i64 where "nativeObjectObjectContext = 5"

definition intrinsic_globals :: "Value list" where
  "intrinsic_globals =
     map (\<lambda>n. (typed VTNativeObject)\<lparr>VNum := n\<rparr>)
       [0, 1, 2, 3, 4, nativeObjectObjectContext, nativeObjectErr, nativeObjectConsole]"

definition initial_global :: "nat \<Rightarrow> Value list \<Rightarrow> nat \<Rightarrow> nat \<Rightarrow> Value" where
  "initial_global builtins vbsConstants globalCount i =
     (if 10 + builtins \<le> i \<and> i - 10 - builtins < length vbsConstants then vbsConstants ! (i - 10 - builtins)
      else if 10 \<le> i \<and> i < 10 + builtins then (typed VTBuiltin)\<lparr>VNum := word_of_nat (i - 10)\<rparr>
      else if i < 8 \<and> 8 \<le> globalCount then intrinsic_globals ! i
      else Value0)"

definition NewVM :: "nat \<Rightarrow> Value list \<Rightarrow> bytes \<Rightarrow> Value list \<Rightarrow> nat \<Rightarrow> VM" where
  "NewVM builtins vbsConstants bc constants globalCount =
     \<lparr>vm_bytecode = bc, vm_ip = 0, vm_sp = -1, vm_fp = 0, vm_stack = (\<lambda>_. Value0),
      vm_constants = constants,
      vm_Globals = map (initial_global builtins vbsConstants globalCount) [0..<globalCount],
      vm_globalNames = [], vm_globalTypes = replicate globalCount VTEmpty,
      vm_globalClassTypes = (\<lambda>_. None), vm_globalWithEvents = (\<lambda>_. False), vm_localTypes = (\<lambda>_. VTEmpty),
      vm_funcLocalTypes = (\<lambda>_. []), vm_funcLocalClassTypes = (\<lambda>_ _. None), vm_funcParamDefaults = (\<lambda>_. []),
      vm_optionCompare = 0, vm_onResumeNext = False, vm_executeGlobalResumeGuard = False,
      vm_skipToNextStmt = False, vm_stmtSP = -1, vm_lastLine = 0, vm_lastColumn = 0,
      vm_errObject = None, vm_lastError = None, vm_callStack = [], vm_activeClassObjectID = 0,
      vm_suppressTerminate = False, vm_objs = (\<lambda>_. None), vm_output = None\<rparr>"

lemma NewVM_inv: "inv_vm bs ks n (NewVM b cs bs ks n)"
  by (simp add: inv_vm_def NewVM_def sp_ok_def StackSize_def)

section \<open>Entering a procedure\<close>

lemma stack_updates [simp]:
  "vm_stack (put vm i v) = (vm_stack vm)(i := v)" "vm_stack (inc_ref v vm) = vm_stack vm"
  "vm_stack (put_global vm g v) = vm_stack vm"
  "vm_fp (put vm i v) = vm_fp vm" "vm_fp (inc_ref v vm) = vm_fp vm"
  by (simp_all add: put_def inc_ref_def put_global_def)

lemma clear_slots_stack:
  "clear_slots vm i k = Some vm' \<Longrightarrow>
   vm_stack vm' = (\<lambda>j. if i \<le> j \<and> j < i + int k then typed VTEmpty else vm_stack vm j)"
proof (induction vm i k rule: clear_slots.induct)
  case (1 vm i)
  then show ?case by (auto simp: fun_eq_iff)
next
  case (2 vm i k)
  then have i: "in_stack i" by (auto split: if_splits)
  with 2 have "vm_stack vm' = (\<lambda>j. if i + 1 \<le> j \<and> j < i + 1 + int k then typed VTEmpty
      else ((vm_stack vm)(i := typed VTEmpty)) j)" by (simp cong del: if_weak_cong)
  then show ?case by (auto simp: fun_eq_iff)
qed

lemma declare_locals_stack: "j < vm_fp vm \<Longrightarrow> vm_stack (declare_locals vm entry n ls) j = vm_stack vm j"
proof (induction ls arbitrary: vm)
  case Nil
  then show ?case by simp
next
  case (Cons l ls)
  then show ?case by (cases l) (auto simp: Let_def)
qed

lemma bind_params_stack:
  "bind_params vm entry om p k args = Some vm' \<Longrightarrow>
   (\<forall>j < vm_fp vm + int p. vm_stack vm' j = vm_stack vm j)
   \<and> (\<forall>i < min k (length args). vm_stack vm' (vm_fp vm + int p + int i) = args ! i)"
proof (induction k arbitrary: vm p args)
  case 0
  then show ?case by simp
next
  case (Suc k)
  let ?slot = "vm_fp vm + int p"
  show ?case
  proof (cases args)
    case Nil
    then consider d where "bind_params (inc_ref d (put vm ?slot d)) entry om (p + 1) k [] = Some vm'"
      | "bind_params vm entry om (p + 1) k [] = Some vm'"
      using Suc.prems by (auto simp: Let_def split: if_splits)
    then show ?thesis
      using Nil by cases (fastforce dest: Suc.IH)+
  next
    case (Cons a rest)
    then have s: "bind_params (inc_ref a (put vm ?slot a)) entry om (p + 1) k rest = Some vm'"
      using Suc.prems by (auto simp: Let_def split: if_splits)
    have ih: "(\<forall>j < ?slot + 1. vm_stack vm' j = ((vm_stack vm)(?slot := a)) j)
        \<and> (\<forall>i < min k (length rest). vm_stack vm' (?slot + 1 + int i) = rest ! i)"
      using Suc.IH[OF s] by (simp add: algebra_simps)
    have "vm_stack vm' (?slot + int i) = args ! i" if "i < min (Suc k) (length args)" for i
      using that ih Cons by (cases i) (auto simp: algebra_simps)
    then show ?thesis using ih by auto
  qed
qed

lemma begin_call_running:
  assumes "begin_call vm target args discard bound wb = Running vm'"
  defines "e \<equiv> enter_frame vm target discard bound wb" and "en \<equiv> VNum target" and "lc \<equiv> frame_size target"
  obtains vm1 vm2 where "clear_slots e (vm_fp e) (nat lc) = Some vm1"
    "bind_params (declare_locals vm1 en lc (vm_funcLocalTypes vm1 en)) en (UserSubOptionalMask target) 0
       (nat (sint (UserSubParamCount target))) args = Some vm2"
    "vm' = vm2\<lparr>vm_sp := (if 0 < lc then vm_fp e + lc - 1 else vm_fp vm2 - 1), vm_ip := unat en\<rparr>"
proof -
  have over: "clear_slots u (vm_fp e) (nat lc) = None" if "0 < lc" "StackSize \<le> vm_fp e + lc - 1" for u
    using that clear_slots_core[of u "vm_fp e" "nat lc"] by (cases "clear_slots u (vm_fp e) (nat lc)") (auto simp: in_stack_def)
  have abs: "raise_vm err e k \<noteq> Running vm'" if "\<And>u. vm_fp u = vm_fp e \<Longrightarrow> k u = GoPanic" for err k
    using that by (auto simp: raise_vm_def Let_def split: if_splits option.splits)
  show ?thesis
    using assms(1) that over abs
    by (auto simp: begin_call_def Let_def e_def[symmetric] en_def[symmetric] lc_def[symmetric]
        split: if_splits option.splits)
qed

lemma begin_call_enters:
  assumes "begin_call vm target args discard bound wb = Running vm'"
  shows "vm_callStack vm' = vm_callStack (enter_frame vm target discard bound wb)
     \<and> vm_fp vm' = vm_sp vm + 1 \<and> vm_ip vm' = unat (VNum target)
     \<and> vm_sp vm' = vm_sp vm + max 0 (frame_size target)
     \<and> (\<forall>i < min (nat (sint (UserSubParamCount target))) (length args).
          vm_stack vm' (vm_sp vm + 1 + int i) = args ! i)
     \<and> (\<forall>j \<le> vm_sp vm. vm_stack vm' j = vm_stack vm j)"
proof -
  let ?e = "enter_frame vm target discard bound wb" and ?en = "VNum target"
  obtain vm1 vm2 where r: "clear_slots ?e (vm_fp ?e) (nat (frame_size target)) = Some vm1"
    "bind_params (declare_locals vm1 ?en (frame_size target) (vm_funcLocalTypes vm1 ?en)) ?en
       (UserSubOptionalMask target) 0 (nat (sint (UserSubParamCount target))) args = Some vm2"
    "vm' = vm2\<lparr>vm_sp := (if 0 < frame_size target then vm_fp ?e + frame_size target - 1 else vm_fp vm2 - 1),
               vm_ip := unat ?en\<rparr>"
    using begin_call_running[OF assms] .
  let ?d = "declare_locals vm1 ?en (frame_size target) (vm_funcLocalTypes vm1 ?en)"
  have fpe: "vm_fp ?e = vm_sp vm + 1" "vm_stack ?e = vm_stack vm" by (simp_all add: enter_frame_def)
  have c1: "same_core ?e vm1" using clear_slots_core[OF r(1)] by simp
  have c2: "same_core ?e ?d" using c1 declare_locals_core same_core_trans by blast
  have c3: "same_core ?e vm2" using c2 bind_params_core[OF r(2)] same_core_trans by blast
  have fp: "vm_fp vm1 = vm_sp vm + 1" "vm_fp ?d = vm_sp vm + 1" "vm_fp vm2 = vm_sp vm + 1"
    "vm_callStack vm2 = vm_callStack ?e"
    using c1 c2 c3 fpe by (simp_all add: same_core_def)
  have b: "\<forall>j < vm_sp vm + 1. vm_stack vm2 j = vm_stack ?d j"
    "\<forall>i < min (nat (sint (UserSubParamCount target))) (length args). vm_stack vm2 (vm_sp vm + 1 + int i) = args ! i"
    using bind_params_stack[OF r(2)] fp(2) by simp_all
  have "vm_stack ?d j = vm_stack vm j" if "j \<le> vm_sp vm" for j
    using declare_locals_stack[of j vm1] clear_slots_stack[OF r(1)] that fp(1) fpe by simp
  then show ?thesis using b fp fpe(1) r(3) by auto
qed

section \<open>Leaving a procedure\<close>

lemma release_locals_fields:
  "release_locals kept r vm vs = Some vm' \<Longrightarrow> \<exists>o'. vm' = vm\<lparr>vm_objs := o'\<rparr>"
proof (induction kept r vm vs rule: release_locals.induct)
  case (1 kept r vm)
  then show ?case by (auto intro: exI[of _ "vm_objs vm"])
next
  case (2 kept r vm v vs)
  then show ?case by (fastforce split: option.splits)
qed

lemma finish_terminate_fields:
  "finish_terminate f vm = Some vm' \<Longrightarrow> \<exists>o'. vm' = vm\<lparr>vm_objs := o'\<rparr>"
  by (auto simp: finish_terminate_def intro: exI[of _ "vm_objs vm"] split: if_splits option.splits)

lemma leave_slots_stack:
  "vm_stack (snd (leave_slots vm i k)) =
   (\<lambda>j. if i \<le> j \<and> j < i + int k \<and> in_stack j then typed VTEmpty else vm_stack vm j)"
proof (induction vm i k rule: leave_slots.induct)
  case (1 vm i)
  then show ?case by (auto simp: fun_eq_iff)
next
  case (2 vm i k)
  then show ?case
    by (cases "in_stack i") (auto simp: fun_eq_iff Let_def add1_zle_eq order_le_less split: prod.splits)
qed

text \<open>The slot of the caller a write-back goes to.\<close>

definition caller_slot :: "Frame \<Rightarrow> byRef \<Rightarrow> int" where
  "caller_slot f wb = fr_oldFP f + br_callerIdx wb"

definition local_write_backs :: "Frame \<Rightarrow> VM \<Rightarrow> bool" where
  "local_write_backs f vm \<longleftrightarrow>
     list_all (\<lambda>wb. \<not> br_isClassMember wb \<and> \<not> br_isGlobal wb \<and> 0 \<le> br_calleeParamIdx wb
        \<and> in_stack (vm_fp vm + br_calleeParamIdx wb) \<and> 0 \<le> caller_slot f wb \<and> caller_slot f wb < vm_fp vm
        \<and> caller_slot f wb \<le> fr_oldSP f)
      (fr_byRefs f)
     \<and> distinct (map (caller_slot f) (fr_byRefs f))"

lemma write_backs_stack:
  assumes "write_backs f vm wbs = Some vm'"
    "list_all (\<lambda>wb. \<not> br_isClassMember wb \<and> \<not> br_isGlobal wb \<and> 0 \<le> br_calleeParamIdx wb
        \<and> in_stack (vm_fp vm + br_calleeParamIdx wb) \<and> 0 \<le> caller_slot f wb \<and> caller_slot f wb < vm_fp vm
        \<and> caller_slot f wb \<le> fr_oldSP f) wbs"
    "distinct (map (caller_slot f) wbs)"
  shows "(\<forall>wb\<in>set wbs. vm_stack vm' (caller_slot f wb) = vm_stack vm (vm_fp vm + br_calleeParamIdx wb))
     \<and> (\<forall>j. j \<notin> caller_slot f ` set wbs \<longrightarrow> vm_stack vm' j = vm_stack vm j) \<and> vm_fp vm' = vm_fp vm"
  using assms
proof (induction f vm wbs rule: write_backs.induct)
  case (1 f vm)
  then show ?case by simp
next
  case (2 f vm wb rest)
  have wb: "\<not> br_isClassMember wb" "\<not> br_isGlobal wb" "0 \<le> br_calleeParamIdx wb"
    "in_stack (vm_fp vm + br_calleeParamIdx wb)" "0 \<le> caller_slot f wb" "caller_slot f wb < vm_fp vm"
    using "2.prems"(2) by simp_all
  let ?v = "vm_stack vm (vm_fp vm + br_calleeParamIdx wb)"
  have "in_stack (caller_slot f wb)" using wb by (simp add: in_stack_def)
  then have w: "write_back f vm wb = Some (put vm (caller_slot f wb) ?v)"
    using wb by (simp add: write_back_def Let_def caller_slot_def)
  then have r: "write_backs f (put vm (caller_slot f wb) ?v) rest = Some vm'" using "2.prems"(1) by simp
  have ne: "caller_slot f wb \<notin> caller_slot f ` set rest" using "2.prems"(3) by auto
  have ih: "(\<forall>w\<in>set rest. vm_stack vm' (caller_slot f w) =
        ((vm_stack vm)(caller_slot f wb := ?v)) (vm_fp vm + br_calleeParamIdx w))
      \<and> (\<forall>j. j \<notin> caller_slot f ` set rest \<longrightarrow> vm_stack vm' j = ((vm_stack vm)(caller_slot f wb := ?v)) j)
      \<and> vm_fp vm' = vm_fp vm"
    using "2.IH"[OF w r] "2.prems"(2,3) by simp
  have "vm_fp vm + br_calleeParamIdx w \<noteq> caller_slot f wb" if "w \<in> set rest" for w
    using "2.prems"(2) wb(6) that by (auto simp: list_all_iff)
  then show ?case using ih ne by auto
qed

lemma return_result:
  assumes "return_from h f v vm = Running vm'" "\<not> fr_discard f" "in_stack (fr_oldSP f + 1)"
  obtains o1 vm2 o2 where "write_backs f (vm\<lparr>vm_objs := o1\<rparr>) (fr_byRefs f) = Some vm2"
    "vm' = (put ((restore_frame f (snd (leave_slots vm2 (vm_fp vm2) (nat (callee_end f vm2 + 1 - vm_fp vm2)))))
             \<lparr>vm_sp := fr_oldSP f + 1\<rparr>) (fr_oldSP f + 1) v)\<lparr>vm_objs := o2\<rparr>"
proof -
  have push: "push_then h (restore_frame f u) v k
      = k (put ((restore_frame f u)\<lparr>vm_sp := fr_oldSP f + 1\<rparr>) (fr_oldSP f + 1) v)" for u k
    using assms(3) by (simp add: push_then_def restore_frame_def in_stack_def)
  show ?thesis
    using assms(1,2) that
    by (auto simp: return_from_def Let_def push split: option.splits prod.splits
        dest!: finish_terminate_fields release_locals_fields)
qed

section \<open>Properties\<close>

text \<open>
  C9. A call that is entered hands the callee its own frame: the caller's pointers and flags are
  saved in a new frame, the frame pointer is one past the caller's stack pointer, the arguments are
  the callee's first locals, execution continues at the procedure's entry point, and the caller's
  stack is untouched.
\<close>

theorem call_enters_procedure:
  assumes "begin_call vm target args discard bound wb = Running vm'"
  shows "vm_callStack vm' = vm_callStack (enter_frame vm target discard bound wb)
     \<and> vm_fp vm' = vm_sp vm + 1 \<and> vm_ip vm' = unat (VNum target)
     \<and> vm_sp vm' = vm_sp vm + max 0 (frame_size target)
     \<and> (\<forall>i < min (nat (sint (UserSubParamCount target))) (length args).
          vm_stack vm' (vm_sp vm + 1 + int i) = args ! i)
     \<and> (\<forall>j \<le> vm_sp vm. vm_stack vm' j = vm_stack vm j)"
  using assms by (rule begin_call_enters)

text \<open>
  C8. \<open>OpRet\<close> gives the caller back its stack pointer, frame pointer, instruction pointer, active
  object and statement state, pushes the returned value on top, copies every ByRef parameter into the
  caller's slot it came from, and leaves every other slot of the caller as it was.
\<close>

theorem return_restores_caller:
  assumes "exec_Ret h vm = Running vm'" "vm_callStack vm = f # rest" "in_stack (vm_sp vm)"
    "\<not> fr_discard f" "in_stack (fr_oldSP f + 1)" "local_write_backs f vm" "fr_oldSP f < vm_fp vm"
  shows "vm_sp vm' = fr_oldSP f + 1 \<and> vm_fp vm' = fr_oldFP f \<and> vm_ip vm' = fr_returnIP f
     \<and> vm_callStack vm' = rest \<and> vm_activeClassObjectID vm' = fr_boundObj f
     \<and> vm_stmtSP vm' = fr_savedStmtSP f \<and> vm_skipToNextStmt vm' = fr_savedSkipToNextStmt f
     \<and> vm_stack vm' (fr_oldSP f + 1) = vm_stack vm (vm_sp vm)
     \<and> (\<forall>wb\<in>set (fr_byRefs f). vm_stack vm' (caller_slot f wb) = vm_stack vm (vm_fp vm + br_calleeParamIdx wb))
     \<and> (\<forall>j \<le> fr_oldSP f. j \<notin> caller_slot f ` set (fr_byRefs f) \<longrightarrow> vm_stack vm' j = vm_stack vm j)"
proof -
  let ?vm = "vm\<lparr>vm_sp := vm_sp vm - 1, vm_callStack := rest\<rparr>"
  have "return_from h f (vm_stack vm (vm_sp vm)) ?vm = Running vm'"
    using assms(1-3) by (simp add: exec_Ret_def pop_then_def slot_then_def in_stack_def)
  then obtain o1 vm2 o2 where w: "write_backs f (?vm\<lparr>vm_objs := o1\<rparr>) (fr_byRefs f) = Some vm2"
    and vm': "vm' = (put ((restore_frame f (snd (leave_slots vm2 (vm_fp vm2)
        (nat (callee_end f vm2 + 1 - vm_fp vm2)))))\<lparr>vm_sp := fr_oldSP f + 1\<rparr>) (fr_oldSP f + 1)
        (vm_stack vm (vm_sp vm)))\<lparr>vm_objs := o2\<rparr>"
    by (rule return_result[OF _ assms(4,5)])
  let ?u = "snd (leave_slots vm2 (vm_fp vm2) (nat (callee_end f vm2 + 1 - vm_fp vm2)))"
  have l: "list_all (\<lambda>wb. \<not> br_isClassMember wb \<and> \<not> br_isGlobal wb \<and> 0 \<le> br_calleeParamIdx wb
        \<and> in_stack (vm_fp (?vm\<lparr>vm_objs := o1\<rparr>) + br_calleeParamIdx wb) \<and> 0 \<le> caller_slot f wb
        \<and> caller_slot f wb < vm_fp (?vm\<lparr>vm_objs := o1\<rparr>) \<and> caller_slot f wb \<le> fr_oldSP f) (fr_byRefs f)"
    "distinct (map (caller_slot f) (fr_byRefs f))"
    using assms(6) by (simp_all add: local_write_backs_def)
  have s: "(\<forall>wb\<in>set (fr_byRefs f). vm_stack vm2 (caller_slot f wb) = vm_stack vm (vm_fp vm + br_calleeParamIdx wb))"
    "(\<forall>j. j \<notin> caller_slot f ` set (fr_byRefs f) \<longrightarrow> vm_stack vm2 j = vm_stack vm j)" "vm_fp vm2 = vm_fp vm"
    using write_backs_stack[OF w l] by simp_all
  have low: "vm_stack vm' j = vm_stack vm2 j" if "j \<le> fr_oldSP f" for j
    using that assms(7) s(3) vm' leave_slots_stack[of vm2 "vm_fp vm2"] by (simp add: restore_frame_def)
  have wbs: "\<forall>wb\<in>set (fr_byRefs f). vm_stack vm' (caller_slot f wb) = vm_stack vm (vm_fp vm + br_calleeParamIdx wb)"
    using l(1) low s(1) by (simp add: list_all_iff)
  have rest: "\<forall>j \<le> fr_oldSP f. j \<notin> caller_slot f ` set (fr_byRefs f) \<longrightarrow> vm_stack vm' j = vm_stack vm j"
    using low s(2) by simp
  have "vm_callStack ?u = rest"
    using same_core_trans[OF write_backs_core[OF w] leave_slots_core] by (simp add: same_core_def)
  moreover have "vm_stack vm' (fr_oldSP f + 1) = vm_stack vm (vm_sp vm)" using vm' by (simp add: put_def)
  ultimately show ?thesis using wbs rest vm' by (simp add: restore_frame_def put_def)
qed


section \<open>A concrete call\<close>

text \<open>A function at offset 100 with one ByRef parameter, called with the caller's slot 0.\<close>

definition demo_sub :: Value where
  "demo_sub = NewUserSubEx 100 1 1 True 1 0 (-1) []"

definition demo_caller :: VM where
  "demo_caller = (NewVM 0 [] [] [] 0)\<lparr>vm_ip := 40, vm_sp := 0, vm_stack := (\<lambda>_. Value0)(0 := NewInteger 5)\<rparr>"

definition demo_ref :: byRef where
  "demo_ref = \<lparr>br_calleeParamIdx = 0, br_isGlobal = False, br_callerIdx = 0, br_isClassMember = False\<rparr>"

text \<open>The callee just before \<open>OpRet\<close>: the parameter is 12 and 77 is returned.\<close>

definition demo_callee :: VM where
  "demo_callee = (enter_frame demo_caller demo_sub False 0 [demo_ref])
     \<lparr>vm_sp := 2, vm_stack := (vm_stack demo_caller)(1 := NewInteger 12, 2 := NewInteger 77)\<rparr>"

lemma demo_sub_reads:
  "sint (UserSubParamCount demo_sub) = 1" "sint (UserSubLocalCount demo_sub) = 1"
  "UserSubOptionalMask demo_sub = 0" "UserSubParamArrayIdx demo_sub = -1" "VNum demo_sub = 100"
  "frame_size demo_sub = 1" "VType demo_sub = VTUserSub"
  using user_sub_reads[of 1 1 "-1" 100 True 1 0 "[]"]
  by (simp_all add: demo_sub_def frame_size_def i64_of_int_def)

lemma demo_call_runs:
  "\<exists>vm'. begin_call demo_caller demo_sub [NewInteger 9] False 0 [demo_ref] = Running vm'"
  by (simp add: begin_call_def enter_frame_def demo_caller_def NewVM_def Let_def demo_sub_reads
      StackSize_def inc_ref_def put_def in_stack_def)

theorem call_enters_procedure_witness:
  "\<exists>vm'. begin_call demo_caller demo_sub [NewInteger 9] False 0 [demo_ref] = Running vm'
     \<and> vm_ip vm' = 100 \<and> vm_fp vm' = 1 \<and> vm_stack vm' 1 = NewInteger 9 \<and> vm_stack vm' 0 = NewInteger 5"
proof -
  obtain vm' where r: "begin_call demo_caller demo_sub [NewInteger 9] False 0 [demo_ref] = Running vm'"
    using demo_call_runs by auto
  show ?thesis
    using call_enters_procedure[OF r] r by (simp add: demo_sub_reads demo_caller_def NewVM_def)
qed

lemma demo_return_runs: "\<exists>vm'. exec_Ret h demo_callee = Running vm'"
  by (simp add: exec_Ret_def pop_then_def slot_then_def return_from_def demo_callee_def enter_frame_def
      demo_caller_def NewVM_def finish_terminate_def write_back_def demo_ref_def callee_end_def demo_sub_reads
      in_stack_def StackSize_def push_then_def restore_frame_def put_def numeral_2_eq_2 NewInteger_def
      Value0_def Let_def)

theorem return_restores_caller_witness:
  "\<forall>h. \<exists>vm'. exec_Ret h demo_callee = Running vm' \<and> vm_ip vm' = 40 \<and> vm_sp vm' = 1
     \<and> vm_stack vm' 1 = NewInteger 77 \<and> vm_stack vm' 0 = NewInteger 12"
proof
  fix h
  obtain vm' where r: "exec_Ret h demo_callee = Running vm'" using demo_return_runs by auto
  let ?f = "hd (vm_callStack demo_callee)"
  have f: "vm_callStack demo_callee = ?f # []" "in_stack (vm_sp demo_callee)" "\<not> fr_discard ?f"
    "in_stack (fr_oldSP ?f + 1)" "fr_oldSP ?f < vm_fp demo_callee"
    by (simp_all add: demo_callee_def enter_frame_def demo_caller_def NewVM_def in_stack_def StackSize_def)
  have l: "local_write_backs ?f demo_callee"
    by (simp add: local_write_backs_def demo_callee_def enter_frame_def demo_caller_def NewVM_def demo_ref_def
        caller_slot_def in_stack_def StackSize_def)
  show "\<exists>vm'. exec_Ret h demo_callee = Running vm' \<and> vm_ip vm' = 40 \<and> vm_sp vm' = 1
     \<and> vm_stack vm' 1 = NewInteger 77 \<and> vm_stack vm' 0 = NewInteger 12"
    using return_restores_caller[OF r f(1-4) l f(5)] r
    by (simp add: demo_callee_def enter_frame_def demo_caller_def NewVM_def demo_ref_def caller_slot_def)
qed

end
