(* ===== verification/OptSound.thy ===== *)
theory OptSound
  imports OptTotal Calls
begin

text \<open>
  The rewritings of the optimizer against the machine that executes them: a window of the original
  code and the window that replaces it are run from the same state, and the results are compared
  with \<open>same_state\<close>, equality up to the code itself and the stack slots above the stack pointer.
  Where a rewriting is only sound on some operands, the condition is stated, and the operands on
  which the two differ are exhibited.
\<close>

section \<open>Running a window\<close>

definition same_state :: "VM \<Rightarrow> VM \<Rightarrow> bool" where
  "same_state vm vm' \<longleftrightarrow>
     vm' = vm\<lparr>vm_bytecode := vm_bytecode vm', vm_stack := vm_stack vm'\<rparr>
   \<and> (\<forall>j \<le> vm_sp vm. vm_stack vm' j = vm_stack vm j)"

text \<open>The machine at position \<open>i\<close> of the code \<open>bs\<close>.\<close>

definition at_code :: "bytes \<Rightarrow> nat \<Rightarrow> VM \<Rightarrow> VM" where
  "at_code bs i vm = vm\<lparr>vm_bytecode := bs, vm_ip := i\<rparr>"

definition same_run :: "host \<Rightarrow> VM \<Rightarrow> VM \<Rightarrow> bool" where
  "same_run h vm vm' \<longleftrightarrow>
     (\<exists>m n vm1 vm2. run m h vm = Running vm1 \<and> run n h vm' = Running vm2 \<and> 0 < m \<and> same_state vm1 vm2)"

lemma exec_simps:
  "exec h OpNop vm = Running vm"
  "exec h OpConstant vm = exec_Constant h vm"
  "exec h OpGetLocal vm = exec_GetLocal h vm"
  "exec h OpGetGlobal vm = exec_GetGlobal h vm"
  "exec h OpSetLocal vm = exec_store_local False h vm"
  "exec h OpLetLocal vm = exec_store_local True h vm"
  "exec h OpExtPrefix vm = exec_ext h vm"
  "exec h OpJumpIfFalse vm = exec_JumpIf False h vm"
  by (simp_all add: exec_def exec_control_def exec_slots_def op_defs binary_ops_def fused_jump_ops_def)

lemma exec_binary_ops: "op \<in> set binary_ops \<Longrightarrow> exec h op vm = exec_binary_op h op vm"
proof -
  have "list_all (\<lambda>x. x \<notin> {OpHalt, OpConstant, OpPop, OpNop}) binary_ops"
    by (simp add: binary_ops_def op_defs)
  then show "op \<in> set binary_ops \<Longrightarrow> ?thesis" by (auto simp: exec_def list_all_iff)
qed

lemma exec_fused_ops: "op \<in> set fused_jump_ops \<Longrightarrow> exec h op vm = exec_fused_jump h op vm"
proof -
  have "list_all (\<lambda>x. x \<notin> {OpHalt, OpConstant, OpPop, OpNop, OpNeg, OpNot, OpExtPrefix, OpWriteStatic, OpWrite,
      OpWriteN, OpSetOption, OpArgGlobalRef, OpArgLocalRef, OpMe, OpSwap, OpJump, OpGotoLabel, OpJumpIfFalse,
      OpJumpIfTrue} \<and> x \<notin> set binary_ops) fused_jump_ops"
    by (simp add: fused_jump_ops_def binary_ops_def op_defs)
  then show "op \<in> set fused_jump_ops \<Longrightarrow> ?thesis"
    by (auto simp: exec_def exec_control_def list_all_iff)
qed

lemma step_at: "i < length bs \<Longrightarrow> step h (at_code bs i vm) = exec h (bs ! i) (at_code bs (i + 1) vm)"
  by (simp add: step_def at_code_def)

lemma run_one: "run (Suc 0) h vm = step h vm"
  by (cases "step h vm") simp_all

text \<open>Padding is executed one \<open>OpNop\<close> at a time and changes nothing else.\<close>

lemma run_nops:
  assumes "\<And>p. i \<le> p \<Longrightarrow> p < i + k \<Longrightarrow> p < length bs \<and> bs ! p = OpNop"
  shows "run k h (at_code bs i vm) = Running (at_code bs (i + k) vm)"
  using assms
proof (induction k arbitrary: i)
  case 0
  then show ?case by simp
next
  case (Suc k)
  have "step h (at_code bs i vm) = Running (at_code bs (i + 1) vm)"
    using Suc.prems[of i] by (simp add: step_at exec_simps)
  moreover have "run k h (at_code bs (i + 1) vm) = Running (at_code bs (i + 1 + k) vm)"
    by (rule Suc.IH) (use Suc.prems in force)
  ultimately show ?case by simp
qed

lemma run_to: "i \<le> j \<Longrightarrow> (\<And>p. i \<le> p \<Longrightarrow> p < j \<Longrightarrow> p < length bs \<and> bs ! p = OpNop) \<Longrightarrow>
   run (j - i) h (at_code bs i vm) = Running (at_code bs j vm)"
  using run_nops[of i "j - i" bs h vm] by simp

lemma run_seq: "run m h vm = Running vm1 \<Longrightarrow> run k h vm1 = r \<Longrightarrow> run (m + k) h vm = r"
  by (simp add: run_add)

text \<open>What the machine reads at a position does not depend on where it stands.\<close>

lemma at_code_simps [simp]:
  "vm_bytecode (at_code bs i vm) = bs" "vm_ip (at_code bs i vm) = i" "vm_sp (at_code bs i vm) = vm_sp vm"
  "vm_stack (at_code bs i vm) = vm_stack vm" "vm_fp (at_code bs i vm) = vm_fp vm"
  "host_of h (at_code bs i vm) = host_of h vm" "vm_constants (at_code bs i vm) = vm_constants vm"
  "(at_code bs i vm)\<lparr>vm_ip := k\<rparr> = at_code bs k vm"
  by (simp_all add: at_code_def host_of_def)

section \<open>Single instructions on operands that are there\<close>

lemma exec_binary_op_ok:
  assumes "1 \<le> vm_sp vm" "vm_sp vm < StackSize"
    "binary_op (host_of h vm) op (vm_stack vm (vm_sp vm - 1)) (vm_stack vm (vm_sp vm)) = Some (v, None)"
  shows "exec_binary_op h op vm = Running (put (vm\<lparr>vm_sp := vm_sp vm - 1\<rparr>) (vm_sp vm - 1) v)"
  using assms by (simp add: exec_binary_op_def slot_then_def in_stack_def exec_binary_def raised_then_def)

lemma exec_JumpIf_ok:
  assumes "0 \<le> vm_sp vm" "vm_sp vm < StackSize" "be32_at bs (j + 1) = Some target"
  shows "exec_JumpIf False h (at_code bs (j + 1) vm)
    = Running (at_code bs (if isTruthy (vm_stack vm (vm_sp vm)) then j + 5 else target) (vm\<lparr>vm_sp := vm_sp vm - 1\<rparr>))"
  using assms
  by (simp add: exec_JumpIf_def u32_then_def pop_then_def slot_then_def in_stack_def jump_if_def at_code_def)

lemma exec_fused_jump_ok:
  assumes "1 \<le> vm_sp vm" "vm_sp vm < StackSize" "be32_at bs (i + 1) = Some target"
    "fused_taken (host_of h vm) op (vm_stack vm (vm_sp vm - 1)) (vm_stack vm (vm_sp vm)) = Some (taken, None)"
  shows "exec_fused_jump h op (at_code bs (i + 1) vm)
    = Running (at_code bs (if taken then target else i + 5) (vm\<lparr>vm_sp := vm_sp vm - 2\<rparr>))"
proof -
  have hv: "host_of h (at_code b k vm\<lparr>vm_sp := s\<rparr>) = host_of h vm" for b k s
    by (simp add: host_of_def at_code_def)
  show ?thesis
    using assms
    by (simp add: exec_fused_jump_def u32_then_def pop_then_def slot_then_def in_stack_def jump_if_def
        raised_then_def host_of_def at_code_def)
qed

lemma be32_at_bound: "be32_at bs i = Some n \<Longrightarrow> n < 4294967296"
proof -
  assume h: "be32_at bs i = Some n"
  have "unat (bs ! i) < 256" "unat (bs ! (i + 1)) < 256" "unat (bs ! (i + 2)) < 256" "unat (bs ! (i + 3)) < 256"
    using unsigned_less[of "bs ! i"] unsigned_less[of "bs ! (i + 1)"] unsigned_less[of "bs ! (i + 2)"]
      unsigned_less[of "bs ! (i + 3)"] by simp_all
  then show ?thesis using h by (auto simp: be32_at_def split: if_splits)
qed

section \<open>A comparison and the conditional jump after it\<close>

text \<open>What the branch rewriting leaves in the code.\<close>

lemma fused_branch_window:
  assumes "fused_branch_step t c i = Some (c', k, True)"
  defines "bs \<equiv> c_bytecode c" and "b \<equiv> c_bytecode c'" and "j \<equiv> skip_nops (c_bytecode c) (i + 1)"
  obtains target where "i < j" "k = j + 5" "j + 5 \<le> length bs" "length b = length bs"
    "isFusedBranchJumpOp (bs ! j)" "getFusedBranchOp (bs ! i) (bs ! j) \<noteq> OpHalt"
    "be32_at bs (j + 1) = Some target" "b ! i = getFusedBranchOp (bs ! i) (bs ! j)"
    "be32_at b (i + 1) = Some target" "\<And>p. i + 5 \<le> p \<Longrightarrow> p < j + 5 \<Longrightarrow> b ! p = OpNop"
proof -
  have ij: "i < j" using skip_nops_ge[of "i + 1"] by (simp add: j_def Suc_le_eq)
  obtain target b1 b2 b3 where r: "k = j + 5" "j + 5 \<le> length bs" "isFusedBranchJumpOp (bs ! j)"
    "getFusedBranchOp (bs ! i) (bs ! j) \<noteq> OpHalt" "be32_at bs (j + 1) = Some target"
    "put_at bs i (getFusedBranchOp (bs ! i) (bs ! j)) = Some b1" "put_be32 b1 (i + 1) target = Some b2"
    "fill_range b2 (i + 5) (j + 5) OpNop = Some b3" "b = b3"
    using assms(1) unfolding fused_branch_step_def Let_def bs_def b_def j_def
    by (auto simp: goes_on_def set_bytecode_def Option.bind_eq_Some_conv split: if_splits)
  have len: "length b1 = length bs" "length b2 = length bs" "length b3 = length bs"
    using r(6-8) by (simp_all add: put_at_length put_be32_length fill_range_length)
  have nth3: "b3 ! p = (if i + 5 \<le> p \<and> p < j + 5 then OpNop else b2 ! p)" if "p < length bs" for p
    using fill_range_nth[OF r(8)] that len by simp
  have i: "b2 ! i = getFusedBranchOp (bs ! i) (bs ! j)"
    using r(6,7) r(2) ij by (auto simp: put_at_def put_be32_def split: if_splits)
  have "be32_at b2 (i + 1) = Some target"
    using be32_put_same[OF r(7)] be32_at_bound[OF r(5)] by simp
  moreover have "be32_at b3 (i + 1) = be32_at b2 (i + 1)"
    by (rule be32_at_cong) (use len nth3 in auto)
  ultimately show ?thesis
    using that ij r i nth3 len by auto
qed

text \<open>The operands on which the fused branch and the comparison agree: any for \<open>=\<close> and \<open><>\<close>, two
  references for \<open>Is\<close>, two numbers that are not NaN for \<open><\<close> and \<open>>\<close>.\<close>

definition plain_number :: "Value \<Rightarrow> bool" where
  "plain_number v \<longleftrightarrow> VType v = VTInteger \<or> (VType v = VTDouble \<and> VFlt v \<noteq> FNaN)"

definition branch_operands :: "OpCode \<Rightarrow> Value \<Rightarrow> Value \<Rightarrow> bool" where
  "branch_operands op a b \<longleftrightarrow>
     op = OpEq \<or> op = OpNeq
   \<or> (op = OpIsRef \<and> IsObjectReferenceValue a \<and> IsObjectReferenceValue b)
   \<or> ((op = OpLt \<or> op = OpGt) \<and> plain_number a \<and> plain_number b)"

lemma f_cmp_swap:
  assumes "x \<noteq> FNaN" "y \<noteq> FNaN"
  shows "\<exists>r. f_cmp x y = Some r \<and> f_cmp y x = Some (- r) \<and> r \<in> {-1, 0, 1}"
proof (cases "(\<exists>s m e. x = FFin s m e) \<and> (\<exists>t n f. y = FFin t n f)")
  case True
  then obtain s m e t n f where xy: "x = FFin s m e" "y = FFin t n f" by blast
  define d where "d = aligned s m e (min e f) - aligned t n f (min e f)"
  have "f_cmp x y = Some (sgn d)" by (simp add: xy Let_def d_def)
  moreover have "f_cmp y x = Some (sgn (- d))"
    using min.commute[of f e] by (simp add: xy Let_def d_def)
  ultimately show ?thesis by (auto simp: sgn_if)
next
  case False
  then show ?thesis using assms by (cases x; cases y) auto
qed

lemma f_le_not_lt: "x \<noteq> FNaN \<Longrightarrow> y \<noteq> FNaN \<Longrightarrow> f_le x y \<longleftrightarrow> \<not> f_lt y x"
  using f_cmp_swap[of x y] by (auto simp: f_le_def f_lt_def f_eq_def)

lemma f_lt_asym: "x \<noteq> FNaN \<Longrightarrow> y \<noteq> FNaN \<Longrightarrow> f_lt x y \<Longrightarrow> \<not> f_lt y x"
  using f_cmp_swap[of x y] by (auto simp: f_lt_def)

lemma int_not_nan: "f_of_i64 n \<noteq> FNaN"
  by (auto simp: f_of_i64_def f_of_int_def f_round_def f_pack_def Let_def split: prod.splits)

lemma plain_number_float: "plain_number v \<Longrightarrow> asFloat v \<noteq> FNaN \<and> coerceFloat h v = asFloat v
    \<and> compare_operand h v = v \<and> \<not> object_like v \<and> \<not> isString v \<and> \<not> isNull v"
  using int_not_nan
  by (auto simp: plain_number_def asFloat_def compare_operand_def object_like_def isString_def isNull_def)

lemma compare_numbers:
  assumes "plain_number a" "plain_number b"
  shows "compareValues h a b < 0 \<longleftrightarrow> f_lt (asFloat a) (asFloat b)"
    and "0 < compareValues h a b \<longleftrightarrow> f_lt (asFloat b) (asFloat a)"
proof -
  note p = plain_number_float[OF assms(1), of h] plain_number_float[OF assms(2), of h]
  have "compareValues h a b = (if f_lt (asFloat a) (asFloat b) then -1
      else if f_lt (asFloat b) (asFloat a) then 1 else 0)"
    using p by (simp add: compareValues_def Let_def)
  then show "compareValues h a b < 0 \<longleftrightarrow> f_lt (asFloat a) (asFloat b)"
    "0 < compareValues h a b \<longleftrightarrow> f_lt (asFloat b) (asFloat a)"
    using f_lt_asym p by auto
qed

lemma new_bool_truthy [simp]: "isTruthy (NewBool b) = b" "isTruthy NewNull = False"
  by (simp_all add: isTruthy_def)

lemma fused_taken_simps:
  "fused_taken h OpJumpIfNotEq a b = Some (\<not> (\<not> (isNull a \<or> isNull b) \<and> values_equal h a b), None)"
  "fused_taken h OpJumpIfEq a b = Some (\<not> (\<not> (isNull a \<or> isNull b) \<and> \<not> values_equal h a b), None)"
  "fused_taken h OpJumpIfNotLt a b = Some (isNull a \<or> isNull b \<or> \<not> f_lt (asFloat a) (asFloat b), None)"
  "fused_taken h OpJumpIfLte a b = Some (isNull a \<or> isNull b \<or> f_le (asFloat a) (asFloat b), None)"
  "fused_taken h OpJumpIfNotIs a b =
     (if \<not> IsObjectReferenceValue a \<or> \<not> IsObjectReferenceValue b
      then Some (True, raise_error TypeMismatch (error_String TypeMismatch))
      else Some (\<not> same_reference a b, None))"
  by (simp_all add: fused_taken_def Let_def op_defs)

lemma fused_ops:
  "getFusedBranchOp OpEq OpJumpIfFalse = OpJumpIfNotEq" "getFusedBranchOp OpNeq OpJumpIfFalse = OpJumpIfEq"
  "getFusedBranchOp OpLt OpJumpIfFalse = OpJumpIfNotLt" "getFusedBranchOp OpGt OpJumpIfFalse = OpJumpIfLte"
  "getFusedBranchOp OpIsRef OpJumpIfFalse = OpJumpIfNotIs"
  by (simp_all add: getFusedBranchOp_def op_defs)

lemma fused_condition:
  assumes "branch_operands op a b"
  shows "\<exists>v. binary_op h op a b = Some (v, None)
     \<and> fused_taken h (getFusedBranchOp op OpJumpIfFalse) a b = Some (\<not> isTruthy v, None)"
proof -
  consider "op = OpEq" | "op = OpNeq" | "op = OpIsRef" "IsObjectReferenceValue a" "IsObjectReferenceValue b"
    | "op = OpLt" "plain_number a" "plain_number b" | "op = OpGt" "plain_number a" "plain_number b"
    using assms by (auto simp: branch_operands_def)
  then show ?thesis
  proof cases
    case 3
    then show ?thesis by (simp add: fused_ops fused_taken_simps compare_refs_def)
  next
    case 4
    then show ?thesis using compare_numbers[of a b h] plain_number_float[of a h] plain_number_float[of b h]
      by (simp add: fused_ops fused_taken_simps null_or_def)
  next
    case 5
    then show ?thesis using compare_numbers[of a b h] plain_number_float[of a h] plain_number_float[of b h]
      by (simp add: fused_ops fused_taken_simps null_or_def f_le_not_lt)
  qed (auto simp: fused_ops fused_taken_simps null_or_def)
qed

lemma nops_between:
  "i + 1 \<le> p \<Longrightarrow> p < skip_nops bs (i + 1) \<Longrightarrow> p < length bs \<and> bs ! p = OpNop"
  by (rule skip_nops_nop)

lemma at_code_updates:
  "(at_code b i vm)\<lparr>vm_sp := s\<rparr> = at_code b i (vm\<lparr>vm_sp := s\<rparr>)"
  "put (at_code b i vm) k v = at_code b i (put vm k v)"
  "put_global (at_code b i vm) g v = at_code b i (put_global vm g v)"
  by (auto intro!: VM.equality simp: at_code_def put_def put_global_def)

lemma same_stateI:
  assumes "\<And>j. j \<le> vm_sp u \<Longrightarrow> st j = vm_stack u j"
  shows "same_state (at_code b i u) (at_code b' i (u\<lparr>vm_stack := st\<rparr>))"
  using assms by (simp add: same_state_def at_code_def)

text \<open>
  C11. The branch pass is sound: wherever it replaces a comparison and the \<open>OpJumpIfFalse\<close> after it by
  one fused jump (\<open>optimizeFusedBranchPass\<close>), the original window and the new code, started in the
  same machine state, reach the same instruction with the same state, up to the slot above the stack
  pointer. The operands are any two values for \<open>=\<close> and \<open><>\<close>, two references for \<open>Is\<close> and two numbers
  for \<open><\<close> and \<open>>\<close>, and the operands are on the stack.
\<close>

theorem fused_branches_sound:
  assumes "fused_branch_step t c i = Some (c', k, True)"
    "c_bytecode c ! skip_nops (c_bytecode c) (i + 1) = OpJumpIfFalse"
    "1 \<le> vm_sp vm" "vm_sp vm < StackSize"
    "branch_operands (c_bytecode c ! i) (vm_stack vm (vm_sp vm - 1)) (vm_stack vm (vm_sp vm))"
  shows "same_run h (at_code (c_bytecode c) i vm) (at_code (c_bytecode c') i vm)"
proof -
  let ?bs = "c_bytecode c" and ?b = "c_bytecode c'" and ?hv = "host_of h vm"
  let ?a1 = "vm_stack vm (vm_sp vm - 1)" and ?a2 = "vm_stack vm (vm_sp vm)"
  define op where "op = ?bs ! i"
  define j where "j = skip_nops ?bs (i + 1)"
  define fop where "fop = getFusedBranchOp op OpJumpIfFalse"
  obtain target where w: "i < j" "j + 5 \<le> length ?bs" "length ?b = length ?bs"
    "be32_at ?bs (j + 1) = Some target" "?b ! i = fop" "be32_at ?b (i + 1) = Some target"
    "\<And>p. i + 5 \<le> p \<Longrightarrow> p < j + 5 \<Longrightarrow> ?b ! p = OpNop"
    using fused_branch_window[OF assms(1)] assms(2) by (metis op_def j_def fop_def)
  obtain v where v: "binary_op ?hv op ?a1 ?a2 = Some (v, None)" "fused_taken ?hv fop ?a1 ?a2 = Some (\<not> isTruthy v, None)"
    using fused_condition[OF assms(5), of ?hv] by (auto simp: op_def fop_def)
  have ops: "op \<in> set binary_ops" "fop \<in> set fused_jump_ops"
    using assms(5) by (auto simp: branch_operands_def op_def[symmetric] fop_def fused_ops binary_ops_def fused_jump_ops_def)
  define u where "u = put (vm\<lparr>vm_sp := vm_sp vm - 1\<rparr>) (vm_sp vm - 1) v"
  define end_ip where "end_ip = (if isTruthy v then j + 5 else target)"
  have s1: "step h (at_code ?bs i vm) = Running (at_code ?bs (i + 1) u)"
    using w(1,2) ops(1) exec_binary_op_ok[of "at_code ?bs (i + 1) vm" h op v] assms(3,4) v(1)
    by (simp add: step_at op_def[symmetric] exec_binary_ops u_def at_code_updates)
  have s2: "run (j - (i + 1)) h (at_code ?bs (i + 1) u) = Running (at_code ?bs j u)"
    by (rule run_to) (use w(1) nops_between in \<open>auto simp: j_def\<close>)
  have u: "vm_sp u = vm_sp vm - 1" "vm_stack u (vm_sp u) = v" by (simp_all add: u_def put_def)
  have jop: "?bs ! j = OpJumpIfFalse" using assms(2) by (simp add: j_def)
  have s3: "step h (at_code ?bs j u) = Running (at_code ?bs end_ip (u\<lparr>vm_sp := vm_sp u - 1\<rparr>))"
    using w(2,4) assms(3,4) u exec_JumpIf_ok[of u ?bs j target h]
    by (simp add: step_at jop exec_simps end_ip_def)
  have r1: "run (Suc 0 + ((j - (i + 1)) + Suc 0)) h (at_code ?bs i vm)
      = Running (at_code ?bs end_ip (u\<lparr>vm_sp := vm_sp u - 1\<rparr>))"
    by (rule run_seq[of _ _ _ "at_code ?bs (i + 1) u"], simp only: run_one s1,
        rule run_seq[OF s2], simp only: run_one s3)
  have f1: "step h (at_code ?b i vm) = Running (at_code ?b (if isTruthy v then i + 5 else target) (vm\<lparr>vm_sp := vm_sp vm - 2\<rparr>))"
    using w(1-3,5,6) ops(2) assms(3,4) v(2) exec_fused_jump_ok[of vm ?b i target h fop "\<not> isTruthy v"]
    by (simp add: step_at exec_fused_ops)
  have f2: "\<exists>m. run m h (at_code ?b (if isTruthy v then i + 5 else target) (vm\<lparr>vm_sp := vm_sp vm - 2\<rparr>))
      = Running (at_code ?b end_ip (vm\<lparr>vm_sp := vm_sp vm - 2\<rparr>))"
  proof (cases "isTruthy v")
    case True
    have "run (j + 5 - (i + 5)) h (at_code ?b (i + 5) (vm\<lparr>vm_sp := vm_sp vm - 2\<rparr>))
        = Running (at_code ?b (j + 5) (vm\<lparr>vm_sp := vm_sp vm - 2\<rparr>))"
      by (rule run_to) (use w in auto)
    then show ?thesis using True by (auto simp: end_ip_def)
  next
    case False
    then show ?thesis by (auto simp: end_ip_def intro: exI[of _ 0])
  qed
  then obtain m where m: "run (Suc m) h (at_code ?b i vm) = Running (at_code ?b end_ip (vm\<lparr>vm_sp := vm_sp vm - 2\<rparr>))"
    using f1 by auto
  have "vm\<lparr>vm_sp := vm_sp vm - 2\<rparr> = u\<lparr>vm_sp := vm_sp u - 1\<rparr>\<lparr>vm_stack := vm_stack vm\<rparr>"
    by (simp add: u_def put_def)
  then have "same_state (at_code ?bs end_ip (u\<lparr>vm_sp := vm_sp u - 1\<rparr>)) (at_code ?b end_ip (vm\<lparr>vm_sp := vm_sp vm - 2\<rparr>))"
    by (simp only:) (rule same_stateI, simp add: u_def put_def)
  then show ?thesis using r1 m unfolding same_run_def by (metis zero_less_Suc add_Suc add.commute)
qed

definition demo_branch :: bytes where
  "demo_branch = [OpLt, OpNop, OpJumpIfFalse, 0, 0, 0, 7, OpHalt]"

definition demo_branch_vm :: VM where
  "demo_branch_vm = (NewVM 0 [] [] [] 0)
     \<lparr>vm_sp := 1, vm_stack := (\<lambda>_. Value0)(0 := NewInteger 3, 1 := NewInteger 5)\<rparr>"

definition demo_compiler :: "bytes \<Rightarrow> Compiler" where
  "demo_compiler bs = \<lparr>c_bytecode = bs, c_constants = [], c_constantMap = (\<lambda>_. None), c_globalsCount = 0\<rparr>"

lemma demo_branch_skip: "skip_nops demo_branch (Suc 0) = 2"
  by code_simp

lemma demo_branch_step:
  "fused_branch_step [] (demo_compiler demo_branch) 0
     = Some (demo_compiler [OpJumpIfNotLt, 0, 0, 0, 7, OpNop, OpNop, OpHalt], 7, True)"
proof -
  have tests: "isFusedBranchCandidateOp (demo_branch ! 0)" "isFusedBranchJumpOp (demo_branch ! 2)"
    "getFusedBranchOp (demo_branch ! 0) (demo_branch ! 2) = OpJumpIfNotLt" "OpJumpIfNotLt \<noteq> OpHalt"
    "hasTargetInRange [] (Suc 0) 2 = False" "be32_at demo_branch 3 = Some 7"
    "put_at demo_branch 0 OpJumpIfNotLt = Some (demo_branch[0 := OpJumpIfNotLt])"
    "put_be32 (demo_branch[0 := OpJumpIfNotLt]) (Suc 0) 7 = Some [OpJumpIfNotLt, 0, 0, 0, 7, 0, 7, OpHalt]"
    "length demo_branch = 8"
    by (simp_all add: demo_branch_def isFusedBranchCandidateOp_def isFusedBranchJumpOp_def getFusedBranchOp_def
        hasTargetInRange_iff be32_at_def put_at_def put_be32_def op_defs)
  have fill: "fill_range [OpJumpIfNotLt, 0, 0, 0, 7, 0, 7, OpHalt] 5 7 OpNop
      = Some [OpJumpIfNotLt, 0, 0, 0, 7, OpNop, OpNop, OpHalt]"
    by (simp add: fill_range_def put_at_def numeral_eq_Suc)
  have c: "c_bytecode (demo_compiler demo_branch) = demo_branch" by (simp add: demo_compiler_def)
  show ?thesis
    using tests fill by (simp add: fused_branch_step_def c demo_branch_skip Let_def del: Option.bind_eq_Some_conv)
      (simp add: set_bytecode_def demo_compiler_def)
qed

theorem fused_branches_sound_witness:
  "\<forall>h. same_run h (at_code demo_branch 0 demo_branch_vm)
     (at_code [OpJumpIfNotLt, 0, 0, 0, 7, OpNop, OpNop, OpHalt] 0 demo_branch_vm)"
proof
  fix h
  have "same_run h (at_code (c_bytecode (demo_compiler demo_branch)) 0 demo_branch_vm)
     (at_code (c_bytecode (demo_compiler [OpJumpIfNotLt, 0, 0, 0, 7, OpNop, OpNop, OpHalt])) 0 demo_branch_vm)"
    by (rule fused_branches_sound[OF demo_branch_step])
      (simp_all add: demo_compiler_def demo_branch_skip demo_branch_vm_def StackSize_def branch_operands_def
        plain_number_def, simp_all add: demo_branch_def)
  then show "same_run h (at_code demo_branch 0 demo_branch_vm)
     (at_code [OpJumpIfNotLt, 0, 0, 0, 7, OpNop, OpNop, OpHalt] 0 demo_branch_vm)"
    by (simp add: demo_compiler_def)
qed

text \<open>
  C12. On two strings the fused branch and the comparison part ways: \<open><\<close> and \<open>>\<close> compare the texts byte
  by byte (\<open>compareValues\<close>), but the fused jumps read both as the number 0 and always skip the body of
  the \<open>If\<close>.
\<close>

theorem fused_branches_skip_strings:
  assumes "\<not> h_text_compare h"
  shows "binary_op h OpLt (NewString s) (NewString t) = Some (NewBool (string_less s t), None)
    \<and> binary_op h OpGt (NewString s) (NewString t) = Some (NewBool (string_less t s \<and> \<not> string_less s t), None)
    \<and> fused_taken h (getFusedBranchOp OpLt OpJumpIfFalse) (NewString s) (NewString t) = Some (True, None)
    \<and> fused_taken h (getFusedBranchOp OpGt OpJumpIfFalse) (NewString s) (NewString t) = Some (True, None)"
proof -
  have c: "compareValues h (NewString s) (NewString t) = (if string_less s t then -1 else if string_less t s then 1 else 0)"
    using assms by (simp add: compareValues_def compare_operand_def object_like_def isString_def valueToString_def Value_String_def Let_def)
  have z: "f_lt (f_of_i64 0) (f_of_i64 0) = False" "f_le (f_of_i64 0) (f_of_i64 0)" by code_simp+
  show ?thesis
    by (simp add: c z fused_ops fused_taken_simps null_or_def isNull_def asFloat_def)
qed

theorem fused_branches_skip_strings_witness:
  "\<exists>h. \<not> h_text_compare h \<and> binary_op h OpGt (NewString ''b'') (NewString ''a'') = Some (NewBool True, None)
     \<and> fused_taken h (getFusedBranchOp OpGt OpJumpIfFalse) (NewString ''b'') (NewString ''a'') = Some (True, None)"
proof -
  define h where "h = (undefined :: host)\<lparr>h_text_compare := False\<rparr>"
  have h: "\<not> h_text_compare h" by (simp add: h_def)
  have l: "string_less ''a'' ''b''" "string_less ''b'' ''a'' = False" by code_simp+
  show ?thesis
    by (rule exI[of _ h]) (use fused_branches_skip_strings[OF h, of "''b''" "''a''"] h l in simp)
qed

end
