(* ===== verification/AppValues.thy ===== *)
theory AppValues
  imports GoFloat GoStrings
begin

text \<open>
  The values that \<open>Session\<close> and \<open>Application\<close> keep (\<open>ApplicationValue\<close> in
  \<open>axonvm/asp/application.go\<close>) and the contract of a store with case-insensitive keys, which the
  session contents, the application contents and both tables of static objects obey.

  The type tag is the Go byte, so that a tag read from a file that no constant names is kept as it
  is. \<open>uni\<close> is the part of \<open>strings.ToLower\<close> that needs the Unicode tables.
\<close>

section \<open>Values\<close>

datatype ApplicationValue =
  AV (avType: byte) (avNum: i64) (avFlt: f64) (avStr: string) (avInterface: string)
     (avArr: "ApplicationValue list") (avArrLower: int)

definition ApplicationValueEmpty :: byte where "ApplicationValueEmpty = 0"
definition ApplicationValueString :: byte where "ApplicationValueString = 1"
definition ApplicationValueInteger :: byte where "ApplicationValueInteger = 2"
definition ApplicationValueDouble :: byte where "ApplicationValueDouble = 3"
definition ApplicationValueBool :: byte where "ApplicationValueBool = 4"
definition ApplicationValueArray :: byte where "ApplicationValueArray = 5"
definition ApplicationValueNativeObject :: byte where "ApplicationValueNativeObject = 6"
definition ApplicationValueObject :: byte where "ApplicationValueObject = 7"
definition ApplicationValueNothing :: byte where "ApplicationValueNothing = 8"
definition ApplicationValueJSObject :: byte where "ApplicationValueJSObject = 9"

lemmas av_tags = ApplicationValueEmpty_def ApplicationValueString_def ApplicationValueInteger_def
  ApplicationValueDouble_def ApplicationValueBool_def ApplicationValueArray_def
  ApplicationValueNativeObject_def ApplicationValueObject_def ApplicationValueNothing_def
  ApplicationValueJSObject_def

text \<open>The zero value with its tag set, and the constructors.\<close>

definition av_zero :: "byte \<Rightarrow> ApplicationValue" where
  "av_zero t = AV t 0 f_zero [] [] [] 0"

definition NewApplicationArray :: "int \<Rightarrow> ApplicationValue list \<Rightarrow> ApplicationValue" where
  "NewApplicationArray lower arr = AV ApplicationValueArray 0 f_zero [] [] arr lower"

definition NewApplicationEmpty :: ApplicationValue where
  "NewApplicationEmpty = av_zero ApplicationValueEmpty"

definition NewApplicationString :: "string \<Rightarrow> ApplicationValue" where
  "NewApplicationString v = AV ApplicationValueString 0 f_zero v [] [] 0"

definition NewApplicationInteger :: "i64 \<Rightarrow> ApplicationValue" where
  "NewApplicationInteger v = AV ApplicationValueInteger v f_zero [] [] [] 0"

definition NewApplicationDouble :: "f64 \<Rightarrow> ApplicationValue" where
  "NewApplicationDouble v = AV ApplicationValueDouble 0 v [] [] [] 0"

definition NewApplicationBool :: "bool \<Rightarrow> ApplicationValue" where
  "NewApplicationBool v = AV ApplicationValueBool (if v then 1 else 0) f_zero [] [] [] 0"

definition NewApplicationNativeObject :: "i64 \<Rightarrow> string \<Rightarrow> string \<Rightarrow> ApplicationValue" where
  "NewApplicationNativeObject i str iface = AV ApplicationValueNativeObject i f_zero str iface [] 0"

definition NewApplicationObject :: "i64 \<Rightarrow> string \<Rightarrow> string \<Rightarrow> ApplicationValue" where
  "NewApplicationObject i str iface = AV ApplicationValueObject i f_zero str iface [] 0"

definition NewApplicationNothing :: ApplicationValue where
  "NewApplicationNothing = av_zero ApplicationValueNothing"

definition NewApplicationJSObject :: "i64 \<Rightarrow> string \<Rightarrow> string \<Rightarrow> ApplicationValue" where
  "NewApplicationJSObject i str iface = AV ApplicationValueJSObject i f_zero str iface [] 0"

definition av_Bool :: "ApplicationValue \<Rightarrow> bool" where
  "av_Bool v \<longleftrightarrow> avNum v \<noteq> 0"

definition av_IsObject :: "ApplicationValue \<Rightarrow> bool" where
  "av_IsObject v \<longleftrightarrow> avType v = ApplicationValueNativeObject \<or> avType v = ApplicationValueObject
     \<or> avType v = ApplicationValueJSObject \<or> avType v = ApplicationValueNothing"

lemmas av_constructors = NewApplicationArray_def NewApplicationEmpty_def NewApplicationString_def
  NewApplicationInteger_def NewApplicationDouble_def NewApplicationBool_def
  NewApplicationNativeObject_def NewApplicationObject_def NewApplicationNothing_def
  NewApplicationJSObject_def av_zero_def

section \<open>Tables with case-insensitive keys\<close>

type_synonym table = "string \<Rightarrow> ApplicationValue option"

definition normalizeApplicationKey :: "(string \<Rightarrow> string) \<Rightarrow> string \<Rightarrow> string" where
  "normalizeApplicationKey uni key = to_lower uni key"

text \<open>What a page may rely on when it writes and reads such a table: \<open>get\<close>, \<open>put\<close> and \<open>del\<close> are the
  operations on the state \<open>'s\<close>, \<open>norm\<close> the normal form of a key.\<close>

locale keyed_store =
  fixes norm :: "string \<Rightarrow> string"
    and get :: "'s \<Rightarrow> string \<Rightarrow> 'v option"
    and put :: "'s \<Rightarrow> string \<Rightarrow> 'v \<Rightarrow> 's"
    and del :: "'s \<Rightarrow> string \<Rightarrow> 's"
    and clear :: "'s \<Rightarrow> 's"
  assumes get_put: "get (put s k v) k' = (if norm k' = norm k then Some v else get s k')"
    and get_del: "get (del s k) k' = (if norm k' = norm k then None else get s k')"
    and get_clear: "get (clear s) k' = None"
    and get_norm: "norm k = norm k' \<Longrightarrow> get s k = get s k'"
begin

definition write_all :: "(string \<times> 'v) list \<Rightarrow> 's \<Rightarrow> 's" where
  "write_all kvs s = fold (\<lambda>(k, v) s. put s k v) kvs s"

text \<open>After a batch of writes a key reads as the last value written under any spelling of it.\<close>

lemma get_write_all:
  "get (write_all kvs s) k = (case map_of (rev (map (\<lambda>(k, v). (norm k, v)) kvs)) (norm k) of
     Some v \<Rightarrow> Some v | None \<Rightarrow> get s k)"
  by (induction kvs arbitrary: s)
     (auto simp: write_all_def get_put map_add_def split: option.splits)

lemma put_twice: "get (put (put s k v) k w) k' = get (put s k w) k'"
  by (simp add: get_put)

lemma put_swap: "norm k \<noteq> norm l \<Longrightarrow> get (put (put s k v) l w) k' = get (put (put s l w) k v) k'"
  by (simp add: get_put)

lemma del_put: "get (del (put s k v) k) k' = get (del s k) k'"
  by (simp add: get_put get_del)

lemma write_after_clear: "get (write_all kvs (clear s)) k = map_of (rev (map (\<lambda>(k, v). (norm k, v)) kvs)) (norm k)"
  by (simp add: get_write_all get_clear split: option.splits)

end

end
