(* ===== verification/Application.thy ===== *)
theory Application
  imports AppValues
begin

text \<open>
  The \<open>Application\<close> object (\<open>axonvm/asp/application.go\<close>): its two tables, the nested lock owned by
  a request, and the requests that compete for it. A request is known by its \<open>*Server\<close> pointer, a
  number here; \<open>None\<close> is \<open>nil\<close>. Every method body runs under \<open>stateMu\<close> or \<open>mutex\<close> and is one atomic
  step; a call of \<open>stateCond.Wait\<close> is the outcome \<open>None\<close> of an operation and puts the request to
  sleep until the next \<open>Broadcast\<close>.
\<close>

section \<open>State and operations\<close>

type_synonym ServerPtr = "nat option"

record Application =
  ap_contents :: table
  ap_staticObjects :: table
  ap_lockOwner :: ServerPtr
  ap_locked :: bool
  ap_lockCount :: nat

definition NewApplication :: Application where
  "NewApplication = \<lparr>ap_contents = (\<lambda>_. None), ap_staticObjects = (\<lambda>_. None),
     ap_lockOwner = None, ap_locked = False, ap_lockCount = 0\<rparr>"

text \<open>The condition of the wait loops.\<close>

definition must_wait :: "ServerPtr \<Rightarrow> Application \<Rightarrow> bool" where
  "must_wait owner app \<longleftrightarrow> 0 < ap_lockCount app \<and> ap_lockOwner app \<noteq> owner"

definition LockForServer :: "ServerPtr \<Rightarrow> Application \<Rightarrow> Application option" where
  "LockForServer owner app =
     (if must_wait owner app then None
      else Some (app\<lparr>ap_lockOwner := owner, ap_lockCount := ap_lockCount app + 1,
                     ap_locked := 0 < ap_lockCount app + 1\<rparr>))"

definition WaitForServer :: "ServerPtr \<Rightarrow> Application \<Rightarrow> Application option" where
  "WaitForServer owner app = (if must_wait owner app then None else Some app)"

text \<open>The new state and whether the sleeping requests are woken.\<close>

definition UnlockForServer :: "ServerPtr \<Rightarrow> Application \<Rightarrow> Application \<times> bool" where
  "UnlockForServer owner app =
     (if ap_lockCount app = 0 then (app, False)
      else if ap_lockOwner app \<noteq> None \<and> owner \<noteq> None \<and> ap_lockOwner app \<noteq> owner then (app, False)
      else let n = ap_lockCount app - 1; app = app\<lparr>ap_lockCount := n, ap_locked := 0 < n\<rparr>
           in if n = 0 then (app\<lparr>ap_lockOwner := None\<rparr>, True) else (app, False))"

definition app_Lock :: "Application \<Rightarrow> Application option" where
  "app_Lock = LockForServer None"

definition app_Unlock :: "Application \<Rightarrow> Application \<times> bool" where
  "app_Unlock = UnlockForServer None"

definition IsLocked :: "Application \<Rightarrow> bool" where
  "IsLocked app = ap_locked app"

definition GetLockCount :: "Application \<Rightarrow> nat" where
  "GetLockCount app = ap_lockCount app"

definition app_Set :: "(string \<Rightarrow> string) \<Rightarrow> string \<Rightarrow> ApplicationValue \<Rightarrow> Application \<Rightarrow> Application" where
  "app_Set uni key v app = app\<lparr>ap_contents := (ap_contents app)(normalizeApplicationKey uni key \<mapsto> v)\<rparr>"

definition app_Get :: "(string \<Rightarrow> string) \<Rightarrow> string \<Rightarrow> Application \<Rightarrow> ApplicationValue option" where
  "app_Get uni key app = ap_contents app (normalizeApplicationKey uni key)"

definition ContainsContent :: "(string \<Rightarrow> string) \<Rightarrow> string \<Rightarrow> Application \<Rightarrow> bool" where
  "ContainsContent uni key app \<longleftrightarrow> ap_contents app (normalizeApplicationKey uni key) \<noteq> None"

definition app_Remove :: "(string \<Rightarrow> string) \<Rightarrow> string \<Rightarrow> Application \<Rightarrow> Application" where
  "app_Remove uni key app = app\<lparr>ap_contents := (ap_contents app)(normalizeApplicationKey uni key := None)\<rparr>"

definition app_RemoveAll :: "Application \<Rightarrow> Application" where
  "app_RemoveAll app = app\<lparr>ap_contents := (\<lambda>_. None)\<rparr>"

definition app_Count :: "Application \<Rightarrow> nat" where
  "app_Count app = card (dom (ap_contents app)) + card (dom (ap_staticObjects app))"

definition AddStaticObject :: "(string \<Rightarrow> string) \<Rightarrow> string \<Rightarrow> ApplicationValue \<Rightarrow> Application \<Rightarrow> Application" where
  "AddStaticObject uni key v app =
     app\<lparr>ap_staticObjects := (ap_staticObjects app)(normalizeApplicationKey uni key \<mapsto> v)\<rparr>"

definition GetStaticObject :: "(string \<Rightarrow> string) \<Rightarrow> string \<Rightarrow> Application \<Rightarrow> ApplicationValue option" where
  "GetStaticObject uni key app = ap_staticObjects app (normalizeApplicationKey uni key)"

definition ContainsStaticObject :: "(string \<Rightarrow> string) \<Rightarrow> string \<Rightarrow> Application \<Rightarrow> bool" where
  "ContainsStaticObject uni key app \<longleftrightarrow> ap_staticObjects app (normalizeApplicationKey uni key) \<noteq> None"

definition GetContentsCopy :: "Application \<Rightarrow> table" where
  "GetContentsCopy app = ap_contents app"

definition GetStaticObjectsCopy :: "Application \<Rightarrow> table" where
  "GetStaticObjectsCopy app = ap_staticObjects app"

text \<open>The keys of both tables, in the order \<open>ks\<close>, \<open>ss\<close> in which the two \<open>range\<close> loops meet them.\<close>

definition GetAllKeys :: "string list \<Rightarrow> string list \<Rightarrow> Application \<Rightarrow> string list" where
  "GetAllKeys ks ss app =
     filter (\<lambda>k. ap_contents app k \<noteq> None) ks @ filter (\<lambda>k. ap_staticObjects app k \<noteq> None) ss"

lemmas app_ops = app_Set_def app_Get_def ContainsContent_def app_Remove_def app_RemoveAll_def
  AddStaticObject_def GetStaticObject_def ContainsStaticObject_def

interpretation app_contents: keyed_store "normalizeApplicationKey uni" "\<lambda>app k. app_Get uni k app"
    "\<lambda>app k v. app_Set uni k v app" "\<lambda>app k. app_Remove uni k app" app_RemoveAll
  for uni by unfold_locales (auto simp: app_ops)

section \<open>A nested lock\<close>

text \<open>\<open>mine s\<close>: the caller may take the lock in \<open>s\<close>; \<open>depth s\<close>: how many unlocks are due.\<close>

locale nested_lock =
  fixes mine :: "'s \<Rightarrow> bool" and depth :: "'s \<Rightarrow> nat"
    and acquire :: "'s \<Rightarrow> 's option" and release :: "'s \<Rightarrow> 's"
  assumes acquire_mine: "mine s \<Longrightarrow> \<exists>s'. acquire s = Some s' \<and> mine s' \<and> depth s' = depth s + 1"
    and release_mine: "mine s \<Longrightarrow> mine (release s) \<and> depth (release s) = depth s - 1"
begin

text \<open>A caller's program: \<open>True\<close> locks, \<open>False\<close> unlocks.\<close>

fun perform :: "bool list \<Rightarrow> 's \<Rightarrow> 's option" where
  "perform [] s = Some s"
| "perform (True # w) s = (case acquire s of None \<Rightarrow> None | Some s' \<Rightarrow> perform w s')"
| "perform (False # w) s = perform w (release s)"

text \<open>The depth after a program, the counter stopping at 0.\<close>

fun count :: "bool list \<Rightarrow> nat \<Rightarrow> nat" where
  "count [] n = n"
| "count (True # w) n = count w (n + 1)"
| "count (False # w) n = count w (n - 1)"

lemma perform_count: "mine s \<Longrightarrow> \<exists>s'. perform w s = Some s' \<and> mine s' \<and> depth s' = count w (depth s)"
proof (induction w s rule: perform.induct)
  case (2 w s)
  then obtain s' where "acquire s = Some s'" "mine s'" "depth s' = depth s + 1"
    using acquire_mine by blast
  then show ?case using 2(1) by simp
next
  case (3 w s)
  then show ?case using release_mine by simp
qed auto

lemma count_append: "count (v @ w) n = count w (count v n)"
  by (induction v n rule: count.induct) auto

lemma count_replicate: "count (replicate k True) n = n + k" "count (replicate k False) n = n - k"
  by (induction k arbitrary: n) auto

text \<open>Locking \<open>k\<close> times and unlocking \<open>k\<close> times brings back the depth.\<close>

lemma bracket:
  "mine s \<Longrightarrow> \<exists>s'. perform (replicate k True @ replicate k False) s = Some s' \<and> mine s' \<and> depth s' = depth s"
  using perform_count[of s "replicate k True @ replicate k False"] by (simp add: count_append count_replicate)

end

definition app_mine :: "nat \<Rightarrow> Application \<Rightarrow> bool" where
  "app_mine r app \<longleftrightarrow> \<not> must_wait (Some r) app"

interpretation app_lock: nested_lock "app_mine r" ap_lockCount "LockForServer (Some r)"
    "\<lambda>app. fst (UnlockForServer (Some r) app)"
  for r by unfold_locales (auto simp: app_mine_def must_wait_def LockForServer_def UnlockForServer_def Let_def)

section \<open>Requests that compete\<close>

text \<open>The awake requests are those not in \<open>sy_parked\<close>. A request that is woken tries again, which is
  a new step of it. \<open>sy_writing r\<close> is the write request \<open>r\<close> has waited for with \<open>WaitForServer\<close> and not yet done.\<close>

record lock_system =
  sy_app :: Application
  sy_parked :: "nat set"
  sy_writing :: "nat \<Rightarrow> (string \<times> ApplicationValue) option"

definition initial_system :: lock_system where
  "initial_system = \<lparr>sy_app = NewApplication, sy_parked = {}, sy_writing = (\<lambda>_. None)\<rparr>"

definition awake :: "nat \<Rightarrow> lock_system \<Rightarrow> bool" where
  "awake r s \<longleftrightarrow> r \<notin> sy_parked s"

inductive app_step :: "(string \<Rightarrow> string) \<Rightarrow> nat \<Rightarrow> lock_system \<Rightarrow> lock_system \<Rightarrow> bool" for uni r where
  lock: "awake r s \<Longrightarrow> sy_writing s r = None \<Longrightarrow> LockForServer (Some r) (sy_app s) = Some app
    \<Longrightarrow> app_step uni r s (s\<lparr>sy_app := app\<rparr>)"
| lock_sleeps: "awake r s \<Longrightarrow> sy_writing s r = None \<Longrightarrow> LockForServer (Some r) (sy_app s) = None
    \<Longrightarrow> app_step uni r s (s\<lparr>sy_parked := insert r (sy_parked s)\<rparr>)"
| unlock: "awake r s \<Longrightarrow> sy_writing s r = None \<Longrightarrow> UnlockForServer (Some r) (sy_app s) = (app, woken)
    \<Longrightarrow> app_step uni r s (s\<lparr>sy_app := app, sy_parked := (if woken then {} else sy_parked s)\<rparr>)"
| write_begins: "awake r s \<Longrightarrow> sy_writing s r = None \<Longrightarrow> WaitForServer (Some r) (sy_app s) = Some app
    \<Longrightarrow> app_step uni r s (s\<lparr>sy_writing := (sy_writing s)(r \<mapsto> (k, v))\<rparr>)"
| write_sleeps: "awake r s \<Longrightarrow> sy_writing s r = None \<Longrightarrow> WaitForServer (Some r) (sy_app s) = None
    \<Longrightarrow> app_step uni r s (s\<lparr>sy_parked := insert r (sy_parked s)\<rparr>)"
| write_ends: "awake r s \<Longrightarrow> sy_writing s r = Some (k, v)
    \<Longrightarrow> app_step uni r s (s\<lparr>sy_app := app_Set uni k v (sy_app s), sy_writing := (sy_writing s)(r := None)\<rparr>)"

inductive reachable :: "(string \<Rightarrow> string) \<Rightarrow> lock_system \<Rightarrow> bool" for uni where
  reach_start: "reachable uni initial_system"
| reach_step: "reachable uni s \<Longrightarrow> app_step uni r s s' \<Longrightarrow> reachable uni s'"

inductive_cases app_stepE: "app_step uni r s s'"

text \<open>The bookkeeping is consistent, and a request sleeps only while another one holds the lock.\<close>

definition lock_inv :: "Application \<Rightarrow> bool" where
  "lock_inv app \<longleftrightarrow> ap_locked app = (0 < ap_lockCount app) \<and> (ap_lockCount app = 0) = (ap_lockOwner app = None)"

definition system_inv :: "lock_system \<Rightarrow> bool" where
  "system_inv s \<longleftrightarrow> lock_inv (sy_app s) \<and> (\<forall>r \<in> sy_parked s. must_wait (Some r) (sy_app s))"

lemma Lock_cases:
  "LockForServer owner app = Some app' \<longleftrightarrow> \<not> must_wait owner app \<and>
     app' = app\<lparr>ap_lockOwner := owner, ap_lockCount := ap_lockCount app + 1, ap_locked := True\<rparr>"
  by (auto simp: LockForServer_def)

lemma system_inv_step: "app_step uni r s s' \<Longrightarrow> system_inv s \<Longrightarrow> system_inv s'"
proof (induction rule: app_step.induct)
  case (lock s app)
  have "must_wait (Some q) app" if "q \<in> sy_parked s" for q
  proof -
    have "must_wait (Some q) (sy_app s)" using that lock.prems by (simp add: system_inv_def)
    moreover have "q \<noteq> r" using that lock.hyps(1) by (auto simp: awake_def)
    ultimately show ?thesis using lock.hyps(3) by (auto simp: Lock_cases must_wait_def)
  qed
  then show ?case using lock by (auto simp: system_inv_def lock_inv_def Lock_cases)
next
  case (unlock s app woken)
  then show ?case
    by (auto simp: system_inv_def lock_inv_def UnlockForServer_def Let_def must_wait_def split: if_splits)
next
  case (lock_sleeps s)
  then show ?case by (auto simp: system_inv_def LockForServer_def split: if_splits)
next
  case (write_sleeps s)
  then show ?case by (auto simp: system_inv_def WaitForServer_def split: if_splits)
qed (auto simp: system_inv_def lock_inv_def app_Set_def must_wait_def)

lemma initial_inv: "system_inv initial_system"
  by (simp add: initial_system_def NewApplication_def system_inv_def lock_inv_def)

lemma reachable_inv: "reachable uni s \<Longrightarrow> system_inv s"
  by (induction rule: reachable.induct) (use initial_inv system_inv_step in blast)+

text \<open>Several steps of one request.\<close>

inductive app_steps :: "(string \<Rightarrow> string) \<Rightarrow> nat \<Rightarrow> lock_system \<Rightarrow> lock_system \<Rightarrow> bool" for uni r where
  steps_none: "app_steps uni r s s"
| steps_more: "app_step uni r s s' \<Longrightarrow> app_steps uni r s' s'' \<Longrightarrow> app_steps uni r s s''"

lemma owner_unlocks:
  assumes "ap_lockOwner (sy_app s) = Some q" "ap_lockCount (sy_app s) = Suc n" "awake q s" "sy_writing s q = None"
  shows "\<exists>s'. app_steps uni q s s' \<and> ap_lockCount (sy_app s') = 0 \<and> sy_parked s' = {}"
  using assms
proof (induction n arbitrary: s)
  case 0
  let ?s' = "s\<lparr>sy_app := (sy_app s)\<lparr>ap_lockCount := 0, ap_locked := False, ap_lockOwner := None\<rparr>, sy_parked := {}\<rparr>"
  have u: "UnlockForServer (Some q) (sy_app s)
      = ((sy_app s)\<lparr>ap_lockCount := 0, ap_locked := False, ap_lockOwner := None\<rparr>, True)"
    using 0 by (simp add: UnlockForServer_def Let_def)
  have "app_step uni q s ?s'" using app_step.unlock[OF 0(3,4) u] by simp
  then show ?case by (intro exI[of _ ?s']) (auto intro: app_steps.intros)
next
  case (Suc n)
  let ?app = "(sy_app s)\<lparr>ap_lockCount := Suc n, ap_locked := True\<rparr>"
  have u: "UnlockForServer (Some q) (sy_app s) = (?app, False)"
    using Suc.prems by (simp add: UnlockForServer_def Let_def)
  let ?s1 = "s\<lparr>sy_app := ?app\<rparr>"
  have st: "app_step uni q s ?s1" using app_step.unlock[OF Suc.prems(3,4) u] by simp
  obtain s' where "app_steps uni q ?s1 s'" "ap_lockCount (sy_app s') = 0" "sy_parked s' = {}"
    using Suc.IH[of ?s1] Suc.prems by (auto simp: awake_def)
  then show ?case using st by (auto intro: app_steps.intros)
qed

text \<open>A write that was waited for can always be finished.\<close>

lemma finish_write:
  assumes "awake q s"
  shows "\<exists>s'. app_steps uni q s s' \<and> sy_writing s' q = None \<and> awake q s'
     \<and> ap_lockOwner (sy_app s') = ap_lockOwner (sy_app s) \<and> ap_lockCount (sy_app s') = ap_lockCount (sy_app s)"
proof (cases "sy_writing s q")
  case None
  then show ?thesis using assms by (auto intro: app_steps.intros)
next
  case (Some kv)
  then obtain k v where "sy_writing s q = Some (k, v)" by (cases kv) auto
  from app_step.write_ends[OF assms this, of uni] show ?thesis
    by (intro exI) (rule conjI[OF steps_more[OF _ steps_none]], assumption, simp add: awake_def app_Set_def assms[unfolded awake_def])
qed

lemma app_steps_trans: "app_steps uni r s s' \<Longrightarrow> app_steps uni r s' s'' \<Longrightarrow> app_steps uni r s s''"
  by (induction rule: app_steps.induct) (auto intro: app_steps.intros)

text \<open>
  C22. No wake-up is lost and no request waits for ever behind an owner that unlocks: in every reachable
  state a sleeping request waits for another request that holds the lock and is awake, and that request
  alone can run on (\<open>Unlock\<close> as often as it locked, after finishing a write it had begun) to a state
  in which the sleeper is awake and \<open>LockForServer\<close> grants it the lock.
\<close>

theorem waiting_requests_get_the_lock:
  assumes "reachable uni s" "r \<in> sy_parked s"
  shows "\<exists>q s' app. q \<noteq> r \<and> ap_lockOwner (sy_app s) = Some q \<and> awake q s \<and> app_steps uni q s s'
     \<and> awake r s' \<and> LockForServer (Some r) (sy_app s') = Some app \<and> ap_lockOwner app = Some r"
proof -
  have inv: "system_inv s" using assms(1) by (rule reachable_inv)
  then have w: "must_wait (Some r) (sy_app s)" using assms(2) by (auto simp: system_inv_def)
  then obtain q n where q: "ap_lockOwner (sy_app s) = Some q" "ap_lockCount (sy_app s) = Suc n" "q \<noteq> r"
    using inv by (cases "ap_lockCount (sy_app s)") (auto simp: system_inv_def lock_inv_def must_wait_def)
  have aq: "awake q s" using inv q by (auto simp: awake_def system_inv_def must_wait_def)
  obtain s1 where s1: "app_steps uni q s s1" "sy_writing s1 q = None" "awake q s1"
      "ap_lockOwner (sy_app s1) = Some q" "ap_lockCount (sy_app s1) = Suc n"
    using finish_write[OF aq, of uni] q by metis
  obtain s' where s': "app_steps uni q s1 s'" "ap_lockCount (sy_app s') = 0" "sy_parked s' = {}"
    using owner_unlocks[OF s1(4,5,3,2), of uni] by blast
  have "LockForServer (Some r) (sy_app s') \<noteq> None" using s'(2) by (simp add: LockForServer_def must_wait_def)
  then obtain app where app: "LockForServer (Some r) (sy_app s') = Some app" by blast
  then have "ap_lockOwner app = Some r" by (auto simp: Lock_cases)
  then show ?thesis
    using q aq app app_steps_trans[OF s1(1) s'(1)] s'(3) by (intro exI[of _ q] exI[of _ s'] exI[of _ app]) (simp add: awake_def)
qed

lemma Unlock_ignored:
  "ap_lockOwner app = Some q \<Longrightarrow> r \<noteq> q \<Longrightarrow> UnlockForServer (Some r) app = (app, False)"
  by (simp add: UnlockForServer_def)

text \<open>
  C23. Mutual exclusion: while request \<open>q\<close> holds the lock, no step of another request changes the owner
  or the nesting depth, and the contents change only by a write whose \<open>WaitForServer\<close> returned before.
\<close>

theorem lock_excludes_others:
  assumes "reachable uni s" "ap_lockOwner (sy_app s) = Some q" "r \<noteq> q" "app_step uni r s s'"
  shows "ap_lockOwner (sy_app s') = Some q \<and> ap_lockCount (sy_app s') = ap_lockCount (sy_app s)
    \<and> (sy_writing s r = None \<longrightarrow> ap_contents (sy_app s') = ap_contents (sy_app s) \<and> sy_writing s' r = None)"
proof -
  have "0 < ap_lockCount (sy_app s)"
    using reachable_inv[OF assms(1)] assms(2) by (auto simp: system_inv_def lock_inv_def)
  then have "must_wait (Some r) (sy_app s)" using assms(2,3) by (simp add: must_wait_def)
  with assms(4) show ?thesis
    using assms(2,3)
    by cases (auto simp: LockForServer_def WaitForServer_def Unlock_ignored app_Set_def)
qed

text \<open>Request 1 locks twice and request 2, which wants the lock, falls asleep.\<close>

definition held_app :: Application where
  "held_app = NewApplication\<lparr>ap_lockOwner := Some 1, ap_locked := True, ap_lockCount := 2\<rparr>"

definition held_system :: lock_system where
  "held_system = initial_system\<lparr>sy_app := held_app, sy_parked := {2}\<rparr>"

lemma held_reachable: "reachable uni held_system"
proof -
  define a1 where "a1 = NewApplication\<lparr>ap_lockOwner := Some (1::nat), ap_locked := True, ap_lockCount := 1\<rparr>"
  define s1 where "s1 = initial_system\<lparr>sy_app := a1\<rparr>"
  define s2 where "s2 = initial_system\<lparr>sy_app := held_app\<rparr>"
  have "app_step uni 1 initial_system (initial_system\<lparr>sy_app := a1\<rparr>)"
    by (rule app_step.lock)
      (simp_all add: initial_system_def awake_def LockForServer_def must_wait_def NewApplication_def a1_def)
  then have 1: "reachable uni s1" unfolding s1_def by (rule reachable.reach_step[OF reachable.reach_start])
  have "app_step uni 1 s1 (s1\<lparr>sy_app := held_app\<rparr>)"
    by (rule app_step.lock)
      (simp_all add: s1_def initial_system_def awake_def LockForServer_def must_wait_def NewApplication_def a1_def held_app_def)
  then have 2: "reachable uni s2" using reachable.reach_step[OF 1] by (simp add: s1_def s2_def)
  have "app_step uni 2 s2 (s2\<lparr>sy_parked := insert 2 (sy_parked s2)\<rparr>)"
    by (rule app_step.lock_sleeps)
      (simp_all add: s2_def initial_system_def awake_def LockForServer_def must_wait_def held_app_def)
  then have "reachable uni (s2\<lparr>sy_parked := insert 2 (sy_parked s2)\<rparr>)" by (rule reachable.reach_step[OF 2])
  then show ?thesis by (simp add: s2_def held_system_def initial_system_def)
qed

theorem waiting_requests_get_the_lock_witness:
  "\<exists>q s' app. q \<noteq> 2 \<and> ap_lockOwner held_app = Some q \<and> app_steps id q held_system s'
     \<and> LockForServer (Some 2) (sy_app s') = Some app"
  using waiting_requests_get_the_lock[OF held_reachable, of 2 id]
  by (auto simp: held_system_def)

theorem lock_excludes_others_witness:
  "\<exists>s'. app_step id 3 held_system s' \<and> ap_lockOwner (sy_app s') = Some 1 \<and> ap_lockCount (sy_app s') = 2"
proof -
  have "app_step id 3 held_system (held_system\<lparr>sy_parked := insert 3 (sy_parked held_system)\<rparr>)"
    by (rule app_step.lock_sleeps)
      (simp_all add: held_system_def initial_system_def awake_def LockForServer_def must_wait_def held_app_def)
  moreover from lock_excludes_others[OF held_reachable _ _ this, of 1] have
    "ap_lockOwner (sy_app (held_system\<lparr>sy_parked := insert 3 (sy_parked held_system)\<rparr>)) = Some 1"
    "ap_lockCount (sy_app (held_system\<lparr>sy_parked := insert 3 (sy_parked held_system)\<rparr>)) = 2"
    by (simp_all add: held_system_def held_app_def)
  ultimately show ?thesis by blast
qed

text \<open>
  C24. The lock does not cover a write that another request had waited for before: \<open>WaitForServer\<close>
  returns and releases \<open>stateMu\<close>, then the lock is taken, then the write is done, inside the critical
  section of the other request.
\<close>

theorem write_slips_into_critical_section:
  "\<exists>s s' q r. reachable uni s \<and> ap_lockOwner (sy_app s) = Some q \<and> 0 < ap_lockCount (sy_app s)
     \<and> r \<noteq> q \<and> app_step uni r s s' \<and> app_Get uni ''x'' (sy_app s) = None
     \<and> app_Get uni ''x'' (sy_app s') = Some (NewApplicationInteger 5)"
proof -
  let ?v = "NewApplicationInteger 5"
  define a1 where "a1 = NewApplication\<lparr>ap_lockOwner := Some (1::nat), ap_locked := True, ap_lockCount := 1\<rparr>"
  define s1 where "s1 = initial_system\<lparr>sy_writing := (\<lambda>_. None)(2 := Some (''x'', ?v))\<rparr>"
  define s2 where "s2 = s1\<lparr>sy_app := a1\<rparr>"
  have "app_step uni 2 initial_system (initial_system\<lparr>sy_writing := (sy_writing initial_system)(2 \<mapsto> (''x'', ?v))\<rparr>)"
    by (rule app_step.write_begins)
      (simp_all add: initial_system_def awake_def WaitForServer_def must_wait_def NewApplication_def)
  then have 1: "reachable uni s1"
    using reachable.reach_step[OF reachable.reach_start] by (simp add: s1_def initial_system_def)
  have "app_step uni 1 s1 (s1\<lparr>sy_app := a1\<rparr>)"
    by (rule app_step.lock)
      (simp_all add: s1_def initial_system_def awake_def LockForServer_def must_wait_def NewApplication_def a1_def)
  then have 2: "reachable uni s2" using reachable.reach_step[OF 1] by (simp add: s2_def)
  have 3: "app_step uni 2 s2 (s2\<lparr>sy_app := app_Set uni ''x'' ?v (sy_app s2), sy_writing := (sy_writing s2)(2 := None)\<rparr>)"
    by (rule app_step.write_ends) (simp_all add: s2_def s1_def initial_system_def awake_def)
  show ?thesis
    using 2 3 by (intro exI[of _ s2] exI[of _ 1] exI[of _ 2] exI conjI)
      (auto simp: s2_def s1_def a1_def NewApplication_def app_Get_def app_Set_def)
qed

end
