(* ===== verification/SessionCodec.thy ===== *)
theory SessionCodec
  imports AppValues
begin

text \<open>
  The binary form of session values (\<open>serializeApplicationValue\<close>, \<open>deserializeApplicationMap\<close> and
  their helpers in \<open>axonvm/asp/session.go\<close>). A \<open>bytes.Reader\<close> is the list of the bytes still to be
  read: a read past the end leaves zeros in the buffer, as the code ignores its error, and only
  \<open>ReadByte\<close> of the type tag reports it. Allocation is unlimited.
\<close>

section \<open>Little-endian numbers and strings\<close>

fun le_bytes :: "nat \<Rightarrow> nat \<Rightarrow> bytes" where
  "le_bytes 0 n = []"
| "le_bytes (Suc k) n = word_of_nat (n mod 256) # le_bytes k (n div 256)"

fun le_value :: "bytes \<Rightarrow> nat" where
  "le_value [] = 0"
| "le_value (b # bs) = unat b + 256 * le_value bs"

definition byte_of :: "char \<Rightarrow> byte" where "byte_of c = word_of_nat (code c)"

definition char_of_byte :: "byte \<Rightarrow> char" where "char_of_byte b = char_of (unat b)"

definition str_bytes :: "string \<Rightarrow> bytes" where "str_bytes s = map byte_of s"

definition bytes_str :: "bytes \<Rightarrow> string" where "bytes_str bs = map char_of_byte bs"

definition writeUint32 :: "nat \<Rightarrow> bytes" where "writeUint32 v = le_bytes 4 v"

text \<open>\<open>r.Read(buf)\<close> into a fresh buffer of \<open>n\<close> bytes.\<close>

definition read_n :: "nat \<Rightarrow> bytes \<Rightarrow> bytes \<times> bytes" where
  "read_n n r = (take n r @ replicate (n - length r) 0, drop n r)"

definition readUint32 :: "bytes \<Rightarrow> nat \<times> bytes" where
  "readUint32 r = (let (b, r') = read_n 4 r in (le_value b, r'))"

definition readUint64 :: "bytes \<Rightarrow> nat \<times> bytes" where
  "readUint64 r = (let (b, r') = read_n 8 r in (le_value b, r'))"

definition read_string :: "nat \<Rightarrow> bytes \<Rightarrow> string \<times> bytes" where
  "read_string n r = (let (b, r') = read_n n r in (bytes_str b, r'))"

section \<open>\<open>math.Float64bits\<close> and \<open>math.Float64frombits\<close>\<close>

text \<open>The mantissas and exponents of binary64; \<open>f_round\<close> makes no others.\<close>

fun f_canonical :: "f64 \<Rightarrow> bool" where
  "f_canonical (FFin s m e) \<longleftrightarrow>
     (m < 2 ^ 52 \<and> e = -1074) \<or> (2 ^ 52 \<le> m \<and> m < 2 ^ 53 \<and> -1074 \<le> e \<and> e \<le> 971)"
| "f_canonical _ \<longleftrightarrow> True"

definition f_payload :: "nat \<Rightarrow> int \<Rightarrow> nat" where
  "f_payload m e = (if m < 2 ^ 52 then m else nat (e + 1075) * 2 ^ 52 + (m - 2 ^ 52))"

fun Float64bits :: "f64 \<Rightarrow> nat" where
  "Float64bits FNaN = 2047 * 2 ^ 52 + 2 ^ 51 + 1"
| "Float64bits (FInf s) = (if s then 2 ^ 63 else 0) + 2047 * 2 ^ 52"
| "Float64bits (FFin s m e) = (if s then 2 ^ 63 else 0) + f_payload m e"

definition Float64frombits :: "nat \<Rightarrow> f64" where
  "Float64frombits n =
     (let s = odd (n div 2 ^ 63); ex = n div 2 ^ 52 mod 2048; fr = n mod 2 ^ 52
      in if ex = 2047 then (if fr = 0 then FInf s else FNaN)
         else if ex = 0 then FFin s fr (-1074)
         else FFin s (fr + 2 ^ 52) (int ex - 1075))"

section \<open>Values\<close>

fun serializeApplicationValue :: "ApplicationValue \<Rightarrow> bytes" where
  "serializeApplicationValue (AV t num flt str iface arr lower) = t #
     (if t = ApplicationValueString then writeUint32 (length str) @ str_bytes str
      else if t = ApplicationValueInteger then le_bytes 8 (unat num)
      else if t = ApplicationValueDouble then le_bytes 8 (Float64bits flt)
      else if t = ApplicationValueBool then [if num \<noteq> 0 then 1 else 0]
      else if t = ApplicationValueArray
        then writeUint32 (nat (lower mod 2 ^ 32)) @ writeUint32 (length arr) @ concat (map serializeApplicationValue arr)
      else if t = ApplicationValueNativeObject \<or> t = ApplicationValueObject \<or> t = ApplicationValueJSObject
        then le_bytes 8 (unat num) @ writeUint32 (length str) @ str_bytes str
             @ writeUint32 (length iface) @ str_bytes iface
      else [])"

text \<open>The loop over \<open>v.Arr\<close>, whose elements start as zero values: the elements, whether a tag was
  missing, the rest. \<open>f\<close> reads one element.\<close>

fun de_elems :: "(bytes \<Rightarrow> ApplicationValue \<times> bool \<times> bytes) \<Rightarrow> nat \<Rightarrow> bytes
    \<Rightarrow> ApplicationValue list \<times> bool \<times> bytes" where
  "de_elems f 0 r = ([], False, r)"
| "de_elems f (Suc n) r =
     (case f r of (v, err, r') \<Rightarrow>
        if err then (replicate (Suc n) (av_zero 0), True, r')
        else (case de_elems f n r' of (vs, err, r'') \<Rightarrow> (v # vs, err, r'')))"

text \<open>The value, whether the error is set, the rest. The first argument bounds the nesting;
  \<open>deserializeApplicationValue\<close> supplies a bound that is never reached, as every level of nesting has
  consumed its tag byte.\<close>

fun de_value :: "nat \<Rightarrow> bytes \<Rightarrow> ApplicationValue \<times> bool \<times> bytes" where
  "de_value 0 r = (av_zero 0, True, r)"
| "de_value (Suc n) [] = (av_zero 0, True, [])"
| "de_value (Suc n) (t # r) =
     (if t = ApplicationValueString
        then (case readUint32 r of (l, r) \<Rightarrow> case read_string l r of (str, r) \<Rightarrow>
               (AV t 0 f_zero str [] [] 0, False, r))
      else if t = ApplicationValueInteger
        then (case readUint64 r of (k, r) \<Rightarrow> (AV t (word_of_nat k) f_zero [] [] [] 0, False, r))
      else if t = ApplicationValueDouble
        then (case readUint64 r of (k, r) \<Rightarrow> (AV t 0 (Float64frombits k) [] [] [] 0, False, r))
      else if t = ApplicationValueBool
        then (case read_n 1 r of (b, r) \<Rightarrow> (AV t (if b \<noteq> [0] then 1 else 0) f_zero [] [] [] 0, False, r))
      else if t = ApplicationValueArray
        then (case readUint32 r of (lower, r) \<Rightarrow> case readUint32 r of (l, r) \<Rightarrow>
               case de_elems (de_value n) l r of (vs, err, r) \<Rightarrow> (AV t 0 f_zero [] [] vs (int lower), err, r))
      else if t = ApplicationValueNativeObject \<or> t = ApplicationValueObject \<or> t = ApplicationValueJSObject
        then (case readUint64 r of (k, r) \<Rightarrow> case readUint32 r of (ls, r) \<Rightarrow> case read_string ls r of (str, r) \<Rightarrow>
               case readUint32 r of (li, r) \<Rightarrow> case read_string li r of (iface, r) \<Rightarrow>
                 (AV t (word_of_nat k) f_zero str iface [] 0, False, r))
      else (av_zero t, False, r))"

definition deserializeApplicationValue :: "bytes \<Rightarrow> ApplicationValue \<times> bool \<times> bytes" where
  "deserializeApplicationValue r = de_value (length r + 1) r"

section \<open>Maps\<close>

text \<open>\<open>ks\<close> is the order in which \<open>range\<close> meets the keys.\<close>

definition serializeApplicationMap :: "string list \<Rightarrow> table \<Rightarrow> bytes" where
  "serializeApplicationMap ks m =
     writeUint32 (length ks) @
     concat (map (\<lambda>k. writeUint32 (length k) @ str_bytes k @
       (case m k of None \<Rightarrow> [] | Some v \<Rightarrow> serializeApplicationValue v)) ks)"

definition iteration :: "table \<Rightarrow> string list \<Rightarrow> bool" where
  "iteration m ks \<longleftrightarrow> distinct ks \<and> set ks = dom m"

fun de_entries :: "nat \<Rightarrow> bytes \<Rightarrow> table \<Rightarrow> table \<times> bytes" where
  "de_entries 0 r m = (m, r)"
| "de_entries (Suc n) r m =
     (case readUint32 r of (l, r) \<Rightarrow> case read_string l r of (k, r) \<Rightarrow>
      case deserializeApplicationValue r of (v, _, r) \<Rightarrow> de_entries n r (m(k \<mapsto> v)))"

definition deserializeApplicationMap :: "bytes \<Rightarrow> table \<times> bytes" where
  "deserializeApplicationMap r = (case readUint32 r of (n, r) \<Rightarrow> de_entries n r (\<lambda>_. None))"

section \<open>What the format can hold\<close>

definition u32_fits :: "nat \<Rightarrow> bool" where "u32_fits n \<longleftrightarrow> n < 2 ^ 32"

text \<open>The values the constructors build, with lengths and bounds the 32-bit fields hold.\<close>

fun storable :: "ApplicationValue \<Rightarrow> bool" where
  "storable (AV t num flt str iface arr lower) =
     (if t = ApplicationValueString
        then num = 0 \<and> flt = f_zero \<and> iface = [] \<and> arr = [] \<and> lower = 0 \<and> u32_fits (length str)
      else if t = ApplicationValueInteger then flt = f_zero \<and> str = [] \<and> iface = [] \<and> arr = [] \<and> lower = 0
      else if t = ApplicationValueDouble
        then num = 0 \<and> f_canonical flt \<and> str = [] \<and> iface = [] \<and> arr = [] \<and> lower = 0
      else if t = ApplicationValueBool
        then (num = 0 \<or> num = 1) \<and> flt = f_zero \<and> str = [] \<and> iface = [] \<and> arr = [] \<and> lower = 0
      else if t = ApplicationValueArray
        then num = 0 \<and> flt = f_zero \<and> str = [] \<and> iface = [] \<and> 0 \<le> lower \<and> lower < 2 ^ 32
             \<and> u32_fits (length arr) \<and> list_all storable arr
      else if t = ApplicationValueNativeObject \<or> t = ApplicationValueObject \<or> t = ApplicationValueJSObject
        then flt = f_zero \<and> arr = [] \<and> lower = 0 \<and> u32_fits (length str) \<and> u32_fits (length iface)
      else num = 0 \<and> flt = f_zero \<and> str = [] \<and> iface = [] \<and> arr = [] \<and> lower = 0)"

definition storable_map :: "table \<Rightarrow> bool" where
  "storable_map m \<longleftrightarrow> finite (dom m) \<and> u32_fits (card (dom m))
     \<and> (\<forall>k v. m k = Some v \<longrightarrow> u32_fits (length k) \<and> storable v)"

section \<open>Reading back what was written\<close>

named_theorems codec \<open>reading back a written field\<close>

lemma length_le_bytes [simp]: "length (le_bytes k n) = k"
  by (induction k n rule: le_bytes.induct) auto

lemma le_value_le_bytes: "le_value (le_bytes k n) = n mod 256 ^ k"
proof (induction k n rule: le_bytes.induct)
  case (2 k n)
  have "unat (word_of_nat (n mod 256) :: byte) = n mod 256" by (simp add: unat_of_nat)
  then show ?case using 2 by (simp add: mod_mult2_eq)
qed simp

lemma le_value_bound: "le_value bs < 256 ^ length bs"
proof (induction bs)
  case (Cons b bs)
  have "unat b < 256" using unsigned_less[of b] by simp
  then have "unat b + 256 * le_value bs < 256 + 256 * le_value bs" by simp
  also have "\<dots> \<le> 256 * 256 ^ length bs" using Cons by (simp add: Suc_leI flip: distrib_left mult_Suc_right)
  finally show ?case by simp
qed simp

lemma read_n_append [codec]: "length b = n \<Longrightarrow> read_n n (b @ r) = (b, r)"
  by (simp add: read_n_def)

lemma read_n_length: "read_n n r = (b, r') \<Longrightarrow> length b = n \<and> length r' = length r - n"
  by (auto simp: read_n_def)

lemma readUint32_write [codec]: "u32_fits n \<Longrightarrow> readUint32 (writeUint32 n @ r) = (n, r)"
  by (simp add: readUint32_def writeUint32_def codec le_value_le_bytes u32_fits_def)

lemma readUint64_write [codec]: "n < 2 ^ 64 \<Longrightarrow> readUint64 (le_bytes 8 n @ r) = (n, r)"
  by (simp add: readUint64_def codec le_value_le_bytes)

lemma bytes_of_string [simp]: "bytes_str (str_bytes s) = s"
proof -
  have "char_of_byte (byte_of c) = c" for c
    by (simp add: char_of_byte_def byte_of_def unat_of_nat code_def)
  then show ?thesis by (simp add: bytes_str_def str_bytes_def comp_def map_idI)
qed

lemma read_string_write [codec]: "read_string (length s) (str_bytes s @ r) = (s, r)"
proof -
  have "read_n (length s) (str_bytes s @ r) = (str_bytes s, r)" by (rule read_n_append) (simp add: str_bytes_def)
  then show ?thesis by (simp add: read_string_def)
qed

lemma payload:
  assumes "f_canonical (FFin s m e)"
  shows "f_payload m e < 2047 * 2 ^ 52"
    "f_payload m e div 2 ^ 52 = (if m < 2 ^ 52 then 0 else nat (e + 1075))"
    "f_payload m e mod 2 ^ 52 = (if m < 2 ^ 52 then m else m - 2 ^ 52)"
    "m < 2 ^ 52 \<Longrightarrow> e = -1074" "\<not> m < 2 ^ 52 \<Longrightarrow> 0 < nat (e + 1075) \<and> nat (e + 1075) \<le> 2046"
proof -
  define N :: nat where "N = 2 ^ 52"
  have c: "m < N \<and> e = -1074 \<or> N \<le> m \<and> m < 2 * N \<and> -1074 \<le> e \<and> e \<le> 971"
    using assms by (simp add: N_def)
  have p: "f_payload m e = (if m < N then m else nat (e + 1075) * N + (m - N))"
    by (simp add: f_payload_def N_def)
  have N0: "0 < N" by (simp add: N_def)
  have bound: "k * N + j < 2047 * N" if "k \<le> 2046" "j < N" for k j :: nat
  proof -
    have "k * N \<le> 2046 * N" using that(1) by simp
    then show ?thesis using that(2) by linarith
  qed
  have "f_payload m e < 2047 * N"
    using c bound[of "nat (e + 1075)" "m - N"] by (auto simp: p)
  then show "f_payload m e < 2047 * 2 ^ 52" by (simp only: N_def)
  have dm: "(k * N + j) div N = k \<and> (k * N + j) mod N = j" if "j < N" for k j :: nat
    using that N0 by simp
  have split: "f_payload m e div N = (if m < N then 0 else nat (e + 1075))
    \<and> f_payload m e mod N = (if m < N then m else m - N)"
  proof (cases "m < N")
    case False
    then have "m - N < N" using c by auto
    then show ?thesis using dm[of "m - N" "nat (e + 1075)"] False by (simp only: p if_False)
  qed (simp add: p)
  then have "f_payload m e div N = (if m < N then 0 else nat (e + 1075))" by blast
  then show "f_payload m e div 2 ^ 52 = (if m < 2 ^ 52 then 0 else nat (e + 1075))" by (simp only: N_def)
  have "f_payload m e mod N = (if m < N then m else m - N)" using split by blast
  then show "f_payload m e mod 2 ^ 52 = (if m < 2 ^ 52 then m else m - 2 ^ 52)" by (simp only: N_def)
  show "m < 2 ^ 52 \<Longrightarrow> e = -1074" using c by (simp add: N_def)
  show "\<not> m < 2 ^ 52 \<Longrightarrow> 0 < nat (e + 1075) \<and> nat (e + 1075) \<le> 2046" using c by (auto simp: N_def)
qed

text \<open>Splitting the sign off 64 bits.\<close>

lemma sign_split:
  fixes p :: nat
  assumes "p < 2047 * 2 ^ 52"
  shows "(b * 2 ^ 63 + p) div 2 ^ 63 = b" "(b * 2 ^ 63 + p) div 2 ^ 52 mod 2048 = p div 2 ^ 52"
    "(b * 2 ^ 63 + p) mod 2 ^ 52 = p mod 2 ^ 52"
proof -
  show "(b * 2 ^ 63 + p) div 2 ^ 63 = b" using assms by simp
  have e: "b * 2 ^ 63 + p = p + (b * 2048) * 2 ^ 52" by simp
  have "p div 2 ^ 52 < 2048" using assms by (simp add: div_less_iff_less_mult)
  then show "(b * 2 ^ 63 + p) div 2 ^ 52 mod 2048 = p div 2 ^ 52"
    unfolding e by (subst div_mult_self1) auto
  show "(b * 2 ^ 63 + p) mod 2 ^ 52 = p mod 2 ^ 52"
    unfolding e by (rule mod_mult_self1)
qed

lemma Float64bits_bound: "f_canonical x \<Longrightarrow> Float64bits x < 2 ^ 64"
proof (cases x)
  case (FFin s m e)
  assume "f_canonical x"
  then have "f_payload m e < 2047 * 2 ^ 52" using payload(1)[of s m e] FFin by simp
  then show ?thesis using FFin by simp
qed auto

lemma Float64bits_round_trip [codec]: "f_canonical x \<Longrightarrow> Float64frombits (Float64bits x) = x"
proof (cases x)
  case (FFin s m e)
  assume "f_canonical x"
  then have c: "f_canonical (FFin s m e)" using FFin by simp
  note p = payload[OF c]
  have b: "Float64bits x = (if s then 1 else 0) * 2 ^ 63 + f_payload m e" using FFin by simp
  have "Float64frombits (Float64bits x)
      = (if (if m < 2 ^ 52 then 0 else nat (e + 1075)) = 0 then FFin s (f_payload m e mod 2 ^ 52) (-1074)
         else FFin s (f_payload m e mod 2 ^ 52 + 2 ^ 52) (int (nat (e + 1075)) - 1075))"
    using p(5) unfolding Float64frombits_def Let_def b sign_split[OF p(1)] p(2) by (auto split: if_splits)
  then show ?thesis using p(3-5) FFin by (cases "m < 2 ^ 52") (auto split: if_splits)
next
  case (FInf s)
  then show ?thesis by (cases s) (simp_all add: Float64frombits_def)
qed (simp add: Float64frombits_def)

section \<open>The nesting bound is never reached\<close>

lemma read_lengths:
  "readUint32 r = (k, r') \<Longrightarrow> length r' \<le> length r" "readUint64 r = (k, r') \<Longrightarrow> length r' \<le> length r"
  "read_string n r = (s, r') \<Longrightarrow> length r' \<le> length r" "read_n n r = (b, r') \<Longrightarrow> length r' \<le> length r"
  by (auto simp: readUint32_def readUint64_def read_string_def read_n_def)

lemma de_elems_length:
  assumes "\<And>r v err r'. f r = (v, err, r') \<Longrightarrow> length r' \<le> length r" "de_elems f n r = (vs, err, r')"
  shows "length r' \<le> length r"
  using assms(2)
proof (induction n arbitrary: r vs err r')
  case (Suc n)
  obtain v e r1 where f: "f r = (v, e, r1)" by (cases "f r") auto
  then have le: "length r1 \<le> length r" by (rule assms(1))
  show ?case
  proof (cases e)
    case False
    obtain vs' e' r2 where d: "de_elems f n r1 = (vs', e', r2)" by (cases "de_elems f n r1") auto
    then show ?thesis using Suc.IH[OF d] Suc.prems f False le by auto
  qed (use Suc.prems f le in auto)
qed simp

lemma de_value_length: "de_value n r = (v, err, r') \<Longrightarrow> length r' \<le> length r"
proof (induction n arbitrary: r v err r')
  case (Suc n)
  show ?case
  proof (cases r)
    case (Cons t r0)
    have el: "length r2 \<le> length r1" if "de_elems (de_value n) l r1 = (vs, e, r2)" for l r1 r2 vs e
      by (rule de_elems_length[OF Suc.IH that])
    show ?thesis
      using Suc.prems unfolding Cons de_value.simps
      by (auto split: if_splits prod.splits dest!: read_lengths el)
  qed (use Suc.prems in auto)
qed auto

lemma de_elems_cong:
  assumes "\<And>r'. length r' \<le> length r \<Longrightarrow> f r' = g r'"
    "\<And>r v err r'. f r = (v, err, r') \<Longrightarrow> length r' \<le> length r"
  shows "de_elems f n r = de_elems g n r"
  using assms(1)
proof (induction n arbitrary: r)
  case (Suc n)
  obtain v e r1 where f: "f r = (v, e, r1)" by (cases "f r") auto
  then have g: "g r = (v, e, r1)" using Suc.prems[of r] by simp
  have "length r1 \<le> length r" using assms(2)[OF f] .
  then have "de_elems f n r1 = de_elems g n r1" using Suc by auto
  then show ?case by (simp add: f g)
qed simp

lemma de_value_enough:
  "length r < n \<Longrightarrow> length r < m \<Longrightarrow> de_value n r = de_value m r"
proof (induction n arbitrary: m r)
  case (Suc n)
  obtain m' where m: "m = Suc m'" using Suc.prems by (cases m) auto
  show ?case
  proof (cases r)
    case (Cons t r0)
    have el: "de_elems (de_value n) l r2 = de_elems (de_value m') l r2"
      if "readUint32 r0 = (k, r1)" "readUint32 r1 = (l, r2)" for k l r1 r2
    proof (rule de_elems_cong)
      have "length r2 \<le> length r0" using read_lengths(1)[OF that(1)] read_lengths(1)[OF that(2)] by simp
      then show "de_value n r' = de_value m' r'" if "length r' \<le> length r2" for r'
        using Suc.IH[of r' m'] Suc.prems that Cons m by simp
    qed (rule de_value_length)
    show ?thesis
      using el unfolding Cons m de_value.simps by (auto split: prod.splits)
  qed (simp add: m)
qed simp

text \<open>So the reader is the recursion of the source, without a bound.\<close>

lemma deserialize_array:
  assumes "readUint32 r = (lower, r1)" "readUint32 r1 = (l, r2)"
    "de_elems deserializeApplicationValue l r2 = (vs, err, r3)"
  shows "deserializeApplicationValue (ApplicationValueArray # r)
    = (AV ApplicationValueArray 0 f_zero [] [] vs (int lower), err, r3)"
proof -
  have len: "length r2 \<le> length r" using read_lengths(1)[OF assms(1)] read_lengths(1)[OF assms(2)] by simp
  have "de_elems deserializeApplicationValue l r2 = de_elems (de_value (Suc (length r))) l r2"
  proof (rule de_elems_cong)
    show "deserializeApplicationValue r' = de_value (Suc (length r)) r'" if "length r' \<le> length r2" for r'
      unfolding deserializeApplicationValue_def by (rule de_value_enough) (use that len in auto)
    show "deserializeApplicationValue r = (v, err, r') \<Longrightarrow> length r' \<le> length r" for r v err r'
      unfolding deserializeApplicationValue_def by (rule de_value_length)
  qed
  then have "de_elems (de_value (Suc (length r))) l r2 = (vs, err, r3)" using assms(3) by simp
  then show ?thesis
    using assms(1,2) by (simp add: deserializeApplicationValue_def av_tags)
qed

section \<open>Round trips\<close>

lemma de_elems_write:
  assumes "\<And>v r. v \<in> set arr \<Longrightarrow> f (ser v @ r) = (v, False, r)"
  shows "de_elems f (length arr) (concat (map ser arr) @ r) = (arr, False, r)"
  using assms by (induction arr) auto

lemma le_word_round_trip: "word_of_nat (unat (k::i64)) = k"
  by simp

lemma ser_length: "v \<in> set arr \<Longrightarrow> length (serializeApplicationValue v)
    \<le> length (concat (map serializeApplicationValue arr))"
  by (induction arr) auto

lemma de_value_serialize:
  "storable v \<Longrightarrow> length (serializeApplicationValue v) \<le> n \<Longrightarrow> de_value n (serializeApplicationValue v @ r) = (v, False, r)"
proof (induction v arbitrary: n r)
  case (AV t num flt str iface arr lower)
  obtain n' where n: "n = Suc n'" using AV.prems(2) by (cases n) auto
  have num: "unat num < 2 ^ 64" using unsigned_less[of num] by simp
  consider "t = ApplicationValueString" | "t = ApplicationValueInteger" | "t = ApplicationValueDouble"
    | "t = ApplicationValueBool" | "t = ApplicationValueArray"
    | "t \<in> {ApplicationValueNativeObject, ApplicationValueObject, ApplicationValueJSObject}"
    | "t \<notin> {ApplicationValueString, ApplicationValueInteger, ApplicationValueDouble, ApplicationValueBool,
        ApplicationValueArray, ApplicationValueNativeObject, ApplicationValueObject, ApplicationValueJSObject}"
    by blast
  then show ?case
  proof cases
    case 5
    have el: "de_elems (de_value n') (length arr) (concat (map serializeApplicationValue arr) @ r) = (arr, False, r)"
    proof (rule de_elems_write)
      fix v r assume v: "v \<in> set arr"
      have "storable v" using AV.prems(1) 5 v by (auto simp: av_tags list_all_iff)
      moreover have "length (serializeApplicationValue v) \<le> n'"
        using ser_length[OF v] AV.prems(2) 5 n by (simp add: av_tags)
      ultimately show "de_value n' (serializeApplicationValue v @ r) = (v, False, r)" using AV.IH v by blast
    qed
    have "u32_fits (nat (lower mod 2 ^ 32))" "int (nat (lower mod 2 ^ 32)) = lower" "u32_fits (length arr)"
      using AV.prems(1) 5 by (auto simp: av_tags u32_fits_def)
    then show ?thesis using AV.prems(1) 5 el by (simp add: n av_tags codec)
  next
    case 6
    then have f: "flt = f_zero" "arr = []" "lower = 0" "u32_fits (length str)" "u32_fits (length iface)"
      using AV.prems(1) by (auto simp: av_tags)
    have t: "t = 6 \<or> t = 7 \<or> t = 9" using 6 by (simp add: av_tags)
    have "de_value (Suc n') (t # le_bytes 8 (unat num) @ writeUint32 (length str) @ str_bytes str
        @ writeUint32 (length iface) @ str_bytes iface @ r) = (AV t num f_zero str iface [] 0, False, r)"
      using num f(4,5) t by (elim disjE) (simp_all add: av_tags codec)
    then show ?thesis using f(1-3) t by (elim disjE) (simp_all add: n av_tags)
  next
    case 7
    then show ?thesis using AV.prems(1) by (simp add: n av_tags av_zero_def)
  next
    case 3
    then show ?thesis using AV.prems(1) Float64bits_bound[of flt] by (simp add: n av_tags codec)
  next
    case 4
    have one: "read_n (Suc 0) (b # r) = ([b], r)" for b by (simp add: read_n_def)
    show ?thesis using AV.prems(1) 4 by (auto simp: n av_tags one)
  qed (use AV.prems(1) num in \<open>simp_all add: n av_tags codec\<close>)
qed

lemma deserialize_serialize [codec]:
  "storable v \<Longrightarrow> deserializeApplicationValue (serializeApplicationValue v @ r) = (v, False, r)"
  unfolding deserializeApplicationValue_def by (rule de_value_serialize) auto

lemma de_entries_write:
  assumes "\<And>k. k \<in> set ks \<Longrightarrow> \<exists>v. m k = Some v \<and> u32_fits (length k) \<and> storable v"
  shows "de_entries (length ks) (concat (map (\<lambda>k. writeUint32 (length k) @ str_bytes k @
       (case m k of None \<Rightarrow> [] | Some v \<Rightarrow> serializeApplicationValue v)) ks) @ r) acc
    = (acc ++ (m |` set ks), r)"
  using assms
proof (induction ks arbitrary: acc)
  case (Cons k ks)
  obtain v where v: "m k = Some v" "u32_fits (length k)" "storable v" using Cons.prems[of k] by auto
  have "acc(k \<mapsto> v) ++ (m |` set ks) = acc ++ (m |` set (k # ks))"
    using v(1) by (auto simp: map_add_def restrict_map_def fun_eq_iff split: option.splits)
  then show ?case using Cons v by (simp add: codec)
qed (simp add: restrict_map_def map_add_def)

lemma map_round_trip [codec]:
  assumes "storable_map m" "iteration m ks"
  shows "deserializeApplicationMap (serializeApplicationMap ks m @ r) = (m, r)"
proof -
  have len: "u32_fits (length ks)"
    using assms distinct_card[of ks] by (simp add: storable_map_def iteration_def)
  have ks: "\<And>k. k \<in> set ks \<Longrightarrow> \<exists>v. m k = Some v \<and> u32_fits (length k) \<and> storable v"
    using assms by (metis storable_map_def iteration_def domD)
  have "m |` dom m = m" by (rule ext) (simp add: restrict_map_def domIff)
  then show ?thesis
    using len de_entries_write[OF ks, of ks] assms(2)
    by (simp add: deserializeApplicationMap_def serializeApplicationMap_def codec iteration_def)
qed

text \<open>
  C38. A value kept in a session is read back from the bytes that were written for it, whatever follows
  them, and the reader stops right behind it: for strings, numbers, Booleans, doubles, object
  references, Nothing, Empty and arrays nested to any depth, as long as lengths and lower bounds fit 32 bits.
\<close>

theorem session_value_round_trip:
  assumes "storable v"
  shows "deserializeApplicationValue (serializeApplicationValue v @ rest) = (v, False, rest)"
  using assms by (rule deserialize_serialize)

theorem session_value_round_trip_witness:
  "\<forall>rest. let v = NewApplicationArray 1 [NewApplicationString ''ab'', NewApplicationArray 0 [NewApplicationBool True]]
    in deserializeApplicationValue (serializeApplicationValue v @ rest) = (v, False, rest)"
  unfolding Let_def by (intro allI session_value_round_trip) (simp add: av_constructors av_tags u32_fits_def)

text \<open>A lower bound is stored in 32 bits and read back unsigned: a negative one is lost.\<close>

lemma lower_bound_unsigned:
  "deserializeApplicationValue (serializeApplicationValue (NewApplicationArray lower []))
    = (NewApplicationArray (lower mod 2 ^ 32) [], False, [])"
proof -
  have "u32_fits (nat (lower mod 2 ^ 32))" "u32_fits 0" by (simp_all add: u32_fits_def nat_less_iff)
  then have "readUint32 (writeUint32 (nat (lower mod 2 ^ 32)) @ writeUint32 0) = (nat (lower mod 2 ^ 32), writeUint32 0)"
    "readUint32 (writeUint32 0) = (0, [])"
    using readUint32_write[of 0 "[]"] readUint32_write by simp_all
  then show ?thesis by (simp add: NewApplicationArray_def deserializeApplicationValue_def av_tags)
qed

end
