(* ===== verification/Session.thy ===== *)
theory Session
  imports SessionCodec Application
begin

text \<open>
  Sessions (\<open>axonvm/asp/session.go\<close>): the state of one session and its operations, the file format
  of \<open>Save\<close> and \<open>LoadSession\<close>, the registry and the flush of all sessions. Times are nanoseconds
  since the epoch, read from the argument \<open>now\<close> where the code calls \<open>time.Now\<close>; \<open>cfg\<close> is
  the configured \<open>global.default_mslcid\<close>. The disk is a map from paths to file contents and a disk operation succeeds.
\<close>

section \<open>One session\<close>

record Session =
  se_ID :: string
  se_data :: table
  se_staticObjects :: table
  se_LCID :: int
  se_CodePage :: int
  se_Timeout :: int
  se_CreatedAt :: int
  se_LastAccessed :: int
  se_locked :: bool
  se_lockCount :: nat
  se_abandoned :: bool
  se_dirty :: bool
  se_version :: u64
  se_lastSavedVersion :: u64

definition defaultSessionTimeoutMinutes :: int where "defaultSessionTimeoutMinutes = 20"
definition defaultSessionLCID :: int where "defaultSessionLCID = 1033"
definition defaultSessionCodePage :: int where "defaultSessionCodePage = 65001"

definition resolveDefaultSessionLCID :: "int \<Rightarrow> int" where
  "resolveDefaultSessionLCID cfg = (if 0 < cfg then cfg else defaultSessionLCID)"

definition NewSessionWithID :: "int \<Rightarrow> int \<Rightarrow> string \<Rightarrow> Session" where
  "NewSessionWithID cfg now sessionID =
     \<lparr>se_ID = sessionID, se_data = (\<lambda>_. None), se_staticObjects = (\<lambda>_. None),
      se_LCID = resolveDefaultSessionLCID cfg, se_CodePage = defaultSessionCodePage,
      se_Timeout = defaultSessionTimeoutMinutes, se_CreatedAt = now, se_LastAccessed = now,
      se_locked = False, se_lockCount = 0, se_abandoned = False, se_dirty = True, se_version = 1,
      se_lastSavedVersion = 0\<rparr>"

definition touchLocked :: "int \<Rightarrow> Session \<Rightarrow> Session" where
  "touchLocked now s = s\<lparr>se_LastAccessed := now\<rparr>"

definition markDirtyLocked :: "int \<Rightarrow> Session \<Rightarrow> Session" where
  "markDirtyLocked now s = (touchLocked now s)\<lparr>se_dirty := True, se_version := se_version s + 1\<rparr>"

definition session_Set :: "(string \<Rightarrow> string) \<Rightarrow> int \<Rightarrow> string \<Rightarrow> ApplicationValue \<Rightarrow> Session \<Rightarrow> Session" where
  "session_Set uni now key v s =
     markDirtyLocked now (s\<lparr>se_data := (se_data s)(normalizeApplicationKey uni key \<mapsto> v)\<rparr>)"

definition session_Get :: "(string \<Rightarrow> string) \<Rightarrow> string \<Rightarrow> Session \<Rightarrow> ApplicationValue option" where
  "session_Get uni key s = se_data s (normalizeApplicationKey uni key)"

definition session_Contains :: "(string \<Rightarrow> string) \<Rightarrow> string \<Rightarrow> Session \<Rightarrow> bool" where
  "session_Contains uni key s \<longleftrightarrow> se_data s (normalizeApplicationKey uni key) \<noteq> None"

definition session_Remove :: "(string \<Rightarrow> string) \<Rightarrow> int \<Rightarrow> string \<Rightarrow> Session \<Rightarrow> Session" where
  "session_Remove uni now key s =
     (let k = normalizeApplicationKey uni key
      in if se_data s k \<noteq> None then markDirtyLocked now (s\<lparr>se_data := (se_data s)(k := None)\<rparr>) else s)"

definition session_RemoveAll :: "int \<Rightarrow> Session \<Rightarrow> Session" where
  "session_RemoveAll now s =
     (if card (dom (se_data s)) = 0 then s else markDirtyLocked now (s\<lparr>se_data := (\<lambda>_. None)\<rparr>))"

definition session_Count :: "Session \<Rightarrow> nat" where
  "session_Count s = card (dom (se_data s))"

definition session_AddStaticObject :: "(string \<Rightarrow> string) \<Rightarrow> int \<Rightarrow> string \<Rightarrow> ApplicationValue \<Rightarrow> Session \<Rightarrow> Session" where
  "session_AddStaticObject uni now key v s =
     markDirtyLocked now (s\<lparr>se_staticObjects := (se_staticObjects s)(to_lower uni key \<mapsto> v)\<rparr>)"

definition session_GetStaticObject :: "(string \<Rightarrow> string) \<Rightarrow> string \<Rightarrow> Session \<Rightarrow> ApplicationValue option" where
  "session_GetStaticObject uni key s = se_staticObjects s (to_lower uni key)"

definition session_ContainsStaticObject :: "(string \<Rightarrow> string) \<Rightarrow> string \<Rightarrow> Session \<Rightarrow> bool" where
  "session_ContainsStaticObject uni key s \<longleftrightarrow> se_staticObjects s (to_lower uni key) \<noteq> None"

definition SetTimeout :: "int \<Rightarrow> int \<Rightarrow> Session \<Rightarrow> Session" where
  "SetTimeout now minutes s =
     (let t = (if minutes \<le> 0 then defaultSessionTimeoutMinutes else minutes)
      in if se_Timeout s \<noteq> t then markDirtyLocked now (s\<lparr>se_Timeout := t\<rparr>) else s)"

definition GetTimeout :: "Session \<Rightarrow> int" where
  "GetTimeout s = (if se_Timeout s \<le> 0 then defaultSessionTimeoutMinutes else se_Timeout s)"

definition SetLCID :: "int \<Rightarrow> int \<Rightarrow> int \<Rightarrow> Session \<Rightarrow> Session" where
  "SetLCID cfg now lcid s =
     (let l = (if lcid \<le> 0 then resolveDefaultSessionLCID cfg else lcid)
      in if se_LCID s \<noteq> l then markDirtyLocked now (s\<lparr>se_LCID := l\<rparr>) else s)"

definition GetLCID :: "int \<Rightarrow> Session \<Rightarrow> int" where
  "GetLCID cfg s = (if se_LCID s \<le> 0 then resolveDefaultSessionLCID cfg else se_LCID s)"

definition SetCodePage :: "int \<Rightarrow> int \<Rightarrow> Session \<Rightarrow> Session" where
  "SetCodePage now codePage s =
     (let c = (if codePage \<le> 0 then defaultSessionCodePage else codePage)
      in if se_CodePage s \<noteq> c then markDirtyLocked now (s\<lparr>se_CodePage := c\<rparr>) else s)"

definition GetCodePage :: "Session \<Rightarrow> int" where
  "GetCodePage s = (if se_CodePage s \<le> 0 then defaultSessionCodePage else se_CodePage s)"

definition session_Lock :: "Session \<Rightarrow> Session" where
  "session_Lock s = s\<lparr>se_lockCount := se_lockCount s + 1, se_locked := 0 < se_lockCount s + 1\<rparr>"

definition session_Unlock :: "Session \<Rightarrow> Session" where
  "session_Unlock s =
     (let n = (if 0 < se_lockCount s then se_lockCount s - 1 else se_lockCount s)
      in s\<lparr>se_lockCount := n, se_locked := 0 < n\<rparr>)"

definition session_IsLocked :: "Session \<Rightarrow> bool" where "session_IsLocked s = se_locked s"

definition session_GetLockCount :: "Session \<Rightarrow> nat" where "session_GetLockCount s = se_lockCount s"

definition Abandon :: "int \<Rightarrow> Session \<Rightarrow> Session" where
  "Abandon now s =
     (let s = (if 0 < card (dom (se_data s)) then s\<lparr>se_data := (\<lambda>_. None)\<rparr> else s);
          s = (if se_abandoned s then s else s\<lparr>se_abandoned := True\<rparr>)
      in markDirtyLocked now s)"

definition IsAbandoned :: "Session \<Rightarrow> bool" where "IsAbandoned s = se_abandoned s"

text \<open>\<open>time.Duration(t) * time.Minute\<close>, in nanoseconds, wraps at 64 bits.\<close>

definition minutes_ns :: "int \<Rightarrow> int" where
  "minutes_ns t = sint (word_of_int (t * 60000000000) :: i64)"

definition isExpiredAt :: "int \<Rightarrow> Session \<Rightarrow> bool" where
  "isExpiredAt now s \<longleftrightarrow>
     (let t = (if se_Timeout s \<le> 0 then defaultSessionTimeoutMinutes else se_Timeout s)
      in minutes_ns t < now - se_LastAccessed s)"

definition IsExpired :: "int \<Rightarrow> Session \<Rightarrow> bool" where
  "IsExpired now s \<longleftrightarrow> minutes_ns (GetTimeout s) < now - se_LastAccessed s"

definition Touch :: "int \<Rightarrow> Session \<Rightarrow> Session" where "Touch now s = touchLocked now s"

definition IsDirty :: "Session \<Rightarrow> bool" where "IsDirty s = se_dirty s"

text \<open>The test shared by \<open>SaveIfDirty\<close> and \<open>QueueSaveIfDirty\<close>.\<close>

definition needs_save :: "Session \<Rightarrow> bool" where
  "needs_save s \<longleftrightarrow> \<not> (\<not> se_dirty s \<or> unat (se_version s) \<le> unat (se_lastSavedVersion s))"

lemmas session_ops = session_Set_def session_Get_def session_Remove_def session_RemoveAll_def
  markDirtyLocked_def touchLocked_def

text \<open>A Go map is finite; \<open>len(m) == 0\<close> is then emptiness.\<close>

definition finite_session :: "Session \<Rightarrow> bool" where
  "finite_session s \<longleftrightarrow> finite (dom (se_data s)) \<and> finite (dom (se_staticObjects s))"

typedef gosession = "{s :: Session. finite_session s}"
  by (rule exI[of _ "NewSessionWithID 0 0 []"]) (simp add: finite_session_def NewSessionWithID_def)

setup_lifting type_definition_gosession

lift_definition go_get :: "(string \<Rightarrow> string) \<Rightarrow> gosession \<Rightarrow> string \<Rightarrow> ApplicationValue option"
  is "\<lambda>uni s k. session_Get uni k s" .

lift_definition go_set :: "(string \<Rightarrow> string) \<Rightarrow> int \<Rightarrow> gosession \<Rightarrow> string \<Rightarrow> ApplicationValue \<Rightarrow> gosession"
  is "\<lambda>uni now s k v. session_Set uni now k v s"
  by (simp add: finite_session_def session_ops)

lift_definition go_remove :: "(string \<Rightarrow> string) \<Rightarrow> int \<Rightarrow> gosession \<Rightarrow> string \<Rightarrow> gosession"
  is "\<lambda>uni now s k. session_Remove uni now k s"
  by (simp add: finite_session_def session_ops Let_def)

lift_definition go_clear :: "int \<Rightarrow> gosession \<Rightarrow> gosession" is session_RemoveAll
  by (simp add: finite_session_def session_ops)

interpretation session_contents: keyed_store "normalizeApplicationKey uni" "go_get uni" "go_set uni now"
    "go_remove uni now" "go_clear now"
  for uni now
  by unfold_locales (transfer, auto simp: session_ops Let_def finite_session_def)+

interpretation session_lock: nested_lock "\<lambda>s. True" se_lockCount "\<lambda>s. Some (session_Lock s)" session_Unlock
  by unfold_locales (auto simp: session_Lock_def session_Unlock_def Let_def)

section \<open>The session file\<close>

definition magic :: bytes where "magic = str_bytes ''G3SES'' @ [0]"

text \<open>\<open>copy(header[7:31], id)\<close> into zeroed bytes.\<close>

definition id_field :: "string \<Rightarrow> bytes" where
  "id_field i = take 24 (str_bytes i @ replicate 24 0)"

text \<open>\<open>t.Unix()\<close> and the conversions to the header's fields.\<close>

definition unix_seconds :: "int \<Rightarrow> int" where "unix_seconds t = t div 1000000000"

definition le_int :: "nat \<Rightarrow> int \<Rightarrow> bytes" where
  "le_int k n = le_bytes k (nat (n mod 2 ^ (8 * k)))"

text \<open>A field that is 0 after the conversion is replaced by its default.\<close>

definition or_default :: "nat \<Rightarrow> int \<Rightarrow> int \<Rightarrow> int" where
  "or_default bits n d = (if n mod 2 ^ bits = 0 then d else n)"

definition session_header :: "int \<Rightarrow> Session \<Rightarrow> bytes" where
  "session_header cfg s =
     magic @ [1] @ id_field (se_ID s)
     @ le_int 8 (unix_seconds (se_CreatedAt s)) @ le_int 8 (unix_seconds (se_LastAccessed s))
     @ le_int 2 (or_default 16 (se_Timeout s) defaultSessionTimeoutMinutes)
     @ le_int 2 (or_default 16 (se_LCID s) (resolveDefaultSessionLCID cfg))
     @ le_int 4 (or_default 32 (se_CodePage s) defaultSessionCodePage)"

definition block :: "bytes \<Rightarrow> bytes" where
  "block b = 30 # writeUint32 (length b) @ b"

text \<open>The bytes \<open>Save\<close> writes; \<open>ord\<close> gives the iteration order of a map.\<close>

definition session_file :: "(table \<Rightarrow> string list) \<Rightarrow> int \<Rightarrow> Session \<Rightarrow> bytes" where
  "session_file ord cfg s =
     session_header cfg s @ block (serializeApplicationMap (ord (se_data s)) (se_data s))
     @ block (serializeApplicationMap (ord (se_staticObjects s)) (se_staticObjects s))"

definition le_field :: "nat \<Rightarrow> nat \<Rightarrow> bytes \<Rightarrow> nat" where
  "le_field a k data = le_value (take k (drop a data))"

definition read_block :: "bytes \<Rightarrow> table option \<times> bytes" where
  "read_block r =
     (case read_n 1 r of (sep, r) \<Rightarrow>
        if sep = [30] then (case readUint32 r of (_, r) \<Rightarrow> case deserializeApplicationMap r of (m, r) \<Rightarrow> (Some m, r))
        else (None, r))"

text \<open>\<open>LoadSession\<close> up to the check of expiry; \<open>None\<close> where the file is not a session.\<close>

definition decode_session :: "int \<Rightarrow> int \<Rightarrow> string \<Rightarrow> bytes \<Rightarrow> Session option" where
  "decode_session cfg now sessionID data =
     (if length data < 55 \<or> take 6 data \<noteq> magic then None
      else if data ! 6 \<noteq> 1 then None
      else let s = (NewSessionWithID cfg now sessionID)
                 \<lparr>se_CreatedAt := sint (word_of_nat (le_field 31 8 data) :: i64) * 1000000000,
                  se_LastAccessed := sint (word_of_nat (le_field 39 8 data) :: i64) * 1000000000,
                  se_Timeout := sint (word_of_nat (le_field 47 2 data) :: 16 word),
                  se_LCID := int (le_field 49 2 data), se_CodePage := int (le_field 51 4 data)\<rparr>
           in case read_block (drop 55 data) of (d, r) \<Rightarrow> case read_block r of (st, _) \<Rightarrow>
                Some (s\<lparr>se_data := (case d of None \<Rightarrow> se_data s | Some m \<Rightarrow> m),
                        se_staticObjects := (case st of None \<Rightarrow> se_staticObjects s | Some m \<Rightarrow> m),
                        se_dirty := False, se_version := 0\<rparr>))"

section \<open>Reading a saved session\<close>

definition sized :: "Session \<Rightarrow> bool" where
  "sized s \<longleftrightarrow> 0 < se_Timeout s \<and> se_Timeout s < 2 ^ 15 \<and> 0 < se_LCID s \<and> se_LCID s < 2 ^ 16
     \<and> 0 < se_CodePage s \<and> se_CodePage s < 2 ^ 32
     \<and> \<bar>se_CreatedAt s\<bar> < 2 ^ 63 \<and> \<bar>se_LastAccessed s\<bar> < 2 ^ 63
     \<and> storable_map (se_data s) \<and> storable_map (se_staticObjects s)"

text \<open>What a saved session reads back as: whole seconds, unlocked, clean.\<close>

definition reloaded :: "string \<Rightarrow> Session \<Rightarrow> Session" where
  "reloaded sessionID s = s\<lparr>se_ID := sessionID,
     se_CreatedAt := unix_seconds (se_CreatedAt s) * 1000000000,
     se_LastAccessed := unix_seconds (se_LastAccessed s) * 1000000000,
     se_locked := False, se_lockCount := 0, se_abandoned := False, se_dirty := False, se_version := 0,
     se_lastSavedVersion := 0\<rparr>"

lemma header_length: "length (session_header cfg s) = 55"
  by (simp add: session_header_def magic_def id_field_def le_int_def str_bytes_def)

lemma le_int_value: "0 \<le> n \<Longrightarrow> n < 2 ^ (8 * k) \<Longrightarrow> int (le_value (le_int k n)) = n"
  by (simp add: le_int_def le_value_le_bytes power_mult)

lemma signed_back:
  assumes "- (2 ^ (LENGTH('a) - 1)) \<le> n" "n < 2 ^ (LENGTH('a) - 1)" "LENGTH('a) = 8 * k"
  shows "sint (word_of_nat (le_value (le_int k n)) :: 'a::len word) = n"
proof -
  have v: "int (le_value (le_int k n)) = n mod 2 ^ LENGTH('a)"
    using assms(3) by (simp add: le_int_def le_value_le_bytes power_mult nat_less_iff)
  have "(word_of_nat (le_value (le_int k n)) :: 'a word) = word_of_int (int (le_value (le_int k n)))" by simp
  also have "\<dots> = word_of_int n" by (simp add: v word_of_int_eq_iff take_bit_eq_mod)
  finally have "sint (word_of_nat (le_value (le_int k n)) :: 'a word) = signed_take_bit (LENGTH('a) - 1) n"
    by (simp only: sint_sbintrunc')
  then show ?thesis using signed_take_bit_int_eq_self assms(1,2) by simp
qed

lemma field_at: "length p = a \<Longrightarrow> length f = k \<Longrightarrow> le_field a k (p @ f @ q) = le_value f"
  by (simp add: le_field_def)

lemma le_int_length [simp]: "length (le_int k n) = k"
  by (simp add: le_int_def)

lemma unix_bound: "\<bar>t\<bar> < 2 ^ 63 \<Longrightarrow> - (2 ^ 63) \<le> unix_seconds t \<and> unix_seconds t < 2 ^ 63"
  by (auto simp: unix_seconds_def)

lemma read_block_write:
  "storable_map m \<Longrightarrow> iteration m ks \<Longrightarrow> read_block (block (serializeApplicationMap ks m) @ r) = (Some m, r)"
proof -
  assume a: "storable_map m" "iteration m ks"
  let ?b = "serializeApplicationMap ks m"
  have one: "read_n (Suc 0) (30 # x) = ([30], x)" for x by (simp add: read_n_def)
  obtain n where n: "readUint32 (writeUint32 (length ?b) @ ?b @ r) = (n, ?b @ r)"
    by (cases "readUint32 (writeUint32 (length ?b) @ ?b @ r)")
       (simp add: readUint32_def writeUint32_def read_n_append)
  show ?thesis
    using map_round_trip[OF a] n one by (simp add: read_block_def block_def)
qed

lemma header_fields:
  assumes "sized s"
  shows "take 6 (session_header cfg s @ r) = magic" "(session_header cfg s @ r) ! 6 = 1"
    "sint (word_of_nat (le_field 31 8 (session_header cfg s @ r)) :: i64) = unix_seconds (se_CreatedAt s)"
    "sint (word_of_nat (le_field 39 8 (session_header cfg s @ r)) :: i64) = unix_seconds (se_LastAccessed s)"
    "sint (word_of_nat (le_field 47 2 (session_header cfg s @ r)) :: 16 word) = se_Timeout s"
    "int (le_field 49 2 (session_header cfg s @ r)) = se_LCID s"
    "int (le_field 51 4 (session_header cfg s @ r)) = se_CodePage s"
proof -
  let ?p = "magic @ [1] @ id_field (se_ID s)"
  let ?c = "le_int 8 (unix_seconds (se_CreatedAt s))" and ?a = "le_int 8 (unix_seconds (se_LastAccessed s))"
  have d: "or_default 16 (se_Timeout s) defaultSessionTimeoutMinutes = se_Timeout s"
    "or_default 16 (se_LCID s) (resolveDefaultSessionLCID cfg) = se_LCID s"
    "or_default 32 (se_CodePage s) defaultSessionCodePage = se_CodePage s"
    using assms by (auto simp: or_default_def sized_def)
  let ?t = "le_int 2 (se_Timeout s)" and ?l = "le_int 2 (se_LCID s)" and ?g = "le_int 4 (se_CodePage s)"
  have h: "session_header cfg s @ r = ?p @ ?c @ ?a @ ?t @ ?l @ ?g @ r" by (simp add: session_header_def d)
  have p: "length ?p = 31" "length magic = 6" by (simp_all add: magic_def id_field_def str_bytes_def)
  show "take 6 (session_header cfg s @ r) = magic" "(session_header cfg s @ r) ! 6 = 1"
    unfolding h using p(2) by (simp_all add: nth_append)
  have "le_field 31 8 (?p @ ?c @ ?a @ ?t @ ?l @ ?g @ r) = le_value ?c" by (rule field_at) (use p in simp_all)
  then have "le_field 31 8 (session_header cfg s @ r) = le_value ?c" by (simp only: h)
  then show "sint (word_of_nat (le_field 31 8 (session_header cfg s @ r)) :: i64) = unix_seconds (se_CreatedAt s)"
    using signed_back[where 'a = 64 and k = 8 and n = "unix_seconds (se_CreatedAt s)"] unix_bound assms
    by (simp add: sized_def)
  have "le_field 39 8 ((?p @ ?c) @ ?a @ ?t @ ?l @ ?g @ r) = le_value ?a" by (rule field_at) (use p in simp_all)
  then have "le_field 39 8 (session_header cfg s @ r) = le_value ?a" by (simp add: h)
  then show "sint (word_of_nat (le_field 39 8 (session_header cfg s @ r)) :: i64) = unix_seconds (se_LastAccessed s)"
    using signed_back[where 'a = 64 and k = 8 and n = "unix_seconds (se_LastAccessed s)"] unix_bound assms
    by (simp add: sized_def)
  have "le_field 47 2 ((?p @ ?c @ ?a) @ ?t @ ?l @ ?g @ r) = le_value ?t" by (rule field_at) (use p in simp_all)
  then have "le_field 47 2 (session_header cfg s @ r) = le_value ?t" by (simp add: h)
  then show "sint (word_of_nat (le_field 47 2 (session_header cfg s @ r)) :: 16 word) = se_Timeout s"
    using signed_back[where 'a = 16 and k = 2 and n = "se_Timeout s"] assms by (simp add: sized_def)
  have "le_field 49 2 ((?p @ ?c @ ?a @ ?t) @ ?l @ ?g @ r) = le_value ?l" by (rule field_at) (use p in simp_all)
  then have "le_field 49 2 (session_header cfg s @ r) = le_value ?l" by (simp add: h)
  then show "int (le_field 49 2 (session_header cfg s @ r)) = se_LCID s"
    using le_int_value[of "se_LCID s" 2] assms by (simp add: sized_def)
  have "le_field 51 4 ((?p @ ?c @ ?a @ ?t @ ?l) @ ?g @ r) = le_value ?g" by (rule field_at) (use p in simp_all)
  then have "le_field 51 4 (session_header cfg s @ r) = le_value ?g" by (simp add: h)
  then show "int (le_field 51 4 (session_header cfg s @ r)) = se_CodePage s"
    using le_int_value[of "se_CodePage s" 4] assms by (simp add: sized_def)
qed

lemma decode_saved:
  assumes "sized s" "iteration (se_data s) (ord (se_data s))" "iteration (se_staticObjects s) (ord (se_staticObjects s))"
  shows "decode_session cfg now sessionID (session_file ord cfg s) = Some (reloaded sessionID s)"
proof -
  let ?r = "block (serializeApplicationMap (ord (se_data s)) (se_data s))
     @ block (serializeApplicationMap (ord (se_staticObjects s)) (se_staticObjects s))"
  let ?f = "session_header cfg s @ ?r"
  note h = header_fields[OF assms(1), of cfg ?r]
  have d: "drop 55 ?f = ?r" using header_length[of cfg s] by simp
  have l: "\<not> (length ?f < 55 \<or> take 6 ?f \<noteq> magic)" using h(1) header_length[of cfg s] by simp
  have st: "storable_map (se_data s)" "storable_map (se_staticObjects s)" using assms(1) by (simp_all add: sized_def)
  have b1: "read_block ?r = (Some (se_data s), block (serializeApplicationMap (ord (se_staticObjects s)) (se_staticObjects s)))"
    by (rule read_block_write[OF st(1) assms(2)])
  have b2: "read_block (block (serializeApplicationMap (ord (se_staticObjects s)) (se_staticObjects s)))
      = (Some (se_staticObjects s), [])"
    using read_block_write[OF st(2) assms(3), of "[]"] by simp
  show ?thesis
    unfolding session_file_def decode_session_def Let_def if_not_P[OF l] d h(2-7) b1
    by (simp add: b2 reloaded_def NewSessionWithID_def)
qed

end
