(* ===== verification/SessionStore.thy ===== *)
theory SessionStore
  imports Session
begin

text \<open>
  The session registry and the session files (\<open>GetOrCreateSession\<close>, \<open>LoadSession\<close>, \<open>registerSession\<close>,
  \<open>FlushRegisteredSessions\<close>, \<open>cleanupExpiredSessionFilesOnDisk\<close> in \<open>axonvm/asp/session.go\<close>), and the
  savers that write one session while requests change it. A registered session is known by its ID.
\<close>

section \<open>State\<close>

record SessionStore =
  st_registry :: "string \<Rightarrow> Session option"
  st_disk :: "string \<Rightarrow> bytes option"

text \<open>The file name within the storage directory.\<close>

definition sessionFilePath :: "string \<Rightarrow> string" where
  "sessionFilePath sessionID =
     map (\<lambda>c. if c = CHR ''/'' \<or> c = CHR 0x5C then CHR ''_'' else c) sessionID @ ''.g3ses''"

definition getRegisteredSession :: "string \<Rightarrow> SessionStore \<Rightarrow> Session option" where
  "getRegisteredSession sessionID st = (if trim_space sessionID = [] then None else st_registry st sessionID)"

definition registerSession :: "Session \<Rightarrow> SessionStore \<Rightarrow> Session \<times> SessionStore" where
  "registerSession s st =
     (if trim_space (se_ID s) = [] then (s, st)
      else case st_registry st (se_ID s) of
             Some existing \<Rightarrow> (existing, st)
           | None \<Rightarrow> (s, st\<lparr>st_registry := (st_registry st)(se_ID s \<mapsto> s)\<rparr>))"

definition unregisterSession :: "string \<Rightarrow> SessionStore \<Rightarrow> SessionStore" where
  "unregisterSession sessionID st =
     (if trim_space sessionID = [] then st else st\<lparr>st_registry := (st_registry st)(sessionID := None)\<rparr>)"

definition session_Delete :: "string \<Rightarrow> SessionStore \<Rightarrow> SessionStore" where
  "session_Delete sessionID st =
     unregisterSession sessionID (st\<lparr>st_disk := (st_disk st)(sessionFilePath sessionID := None)\<rparr>)"

definition LoadSession :: "int \<Rightarrow> int \<Rightarrow> string \<Rightarrow> SessionStore \<Rightarrow> Session option \<times> SessionStore" where
  "LoadSession cfg now sessionID st =
     (case st_disk st (sessionFilePath sessionID) of
        None \<Rightarrow> (None, st)
      | Some data \<Rightarrow>
        (case decode_session cfg now sessionID data of
           None \<Rightarrow> (None, st)
         | Some s \<Rightarrow> if IsExpired now s then (None, session_Delete sessionID st) else (Some (Touch now s), st)))"

text \<open>\<open>rnd\<close> are the 24 bytes of \<open>rand.Read\<close>.\<close>

definition newSessionID :: "bytes \<Rightarrow> string" where
  "newSessionID rnd = map (\<lambda>b. char_of (65 + unat b mod 26)) rnd"

definition CreateSession :: "int \<Rightarrow> int \<Rightarrow> bytes \<Rightarrow> SessionStore \<Rightarrow> Session \<times> SessionStore" where
  "CreateSession cfg now rnd st =
     registerSession (markDirtyLocked now (NewSessionWithID cfg now (newSessionID rnd))) st"

text \<open>The session, whether it is new, the store.\<close>

definition GetOrCreateSession ::
    "int \<Rightarrow> int \<Rightarrow> bytes \<Rightarrow> string \<Rightarrow> SessionStore \<Rightarrow> Session \<times> bool \<times> SessionStore" where
  "GetOrCreateSession cfg now rnd sessionID st =
     (let normalizedID = trim_space sessionID;
          registered = (if normalizedID \<noteq> [] then getRegisteredSession normalizedID st else None)
      in case registered of
           Some existing \<Rightarrow>
             (Touch now existing, False,
              st\<lparr>st_registry := (st_registry st)(normalizedID \<mapsto> Touch now existing)\<rparr>)
         | None \<Rightarrow>
           (let (loaded, st) = (if sessionID \<noteq> [] then LoadSession cfg now sessionID st else (None, st))
            in case loaded of
                 Some s \<Rightarrow> (let (s, st) = registerSession s st in (s, False, st))
               | None \<Rightarrow> (let (s, st) = CreateSession cfg now rnd st in (s, True, st))))"

section \<open>Flushing\<close>

text \<open>\<open>Save\<close> without interruption.\<close>

definition save_session :: "(table \<Rightarrow> string list) \<Rightarrow> int \<Rightarrow> Session \<Rightarrow> SessionStore \<Rightarrow> SessionStore" where
  "save_session ord cfg s st =
     st\<lparr>st_disk := (st_disk st)(sessionFilePath (se_ID s) \<mapsto> session_file ord cfg s),
        st_registry := (st_registry st)(se_ID s \<mapsto> s\<lparr>se_dirty := False, se_lastSavedVersion := se_version s\<rparr>)\<rparr>"

definition flush_one :: "(table \<Rightarrow> string list) \<Rightarrow> int \<Rightarrow> bool \<Rightarrow> int \<Rightarrow> string \<Rightarrow> SessionStore \<Rightarrow> SessionStore" where
  "flush_one ord cfg force now i st =
     (case st_registry st i of
        None \<Rightarrow> st
      | Some s \<Rightarrow>
        if IsAbandoned s \<or> isExpiredAt now s then session_Delete i st
        else if force \<or> needs_save s then save_session ord cfg s st else st)"

text \<open>\<open>persistedSessionFileExpired\<close>.\<close>

definition file_expired :: "int \<Rightarrow> bytes \<Rightarrow> bool" where
  "file_expired now data =
     (if length data < 49 then True
      else if take 6 data \<noteq> magic then True
      else let t = sint (word_of_nat (le_field 47 2 data) :: 16 word);
               t = (if t \<le> 0 then defaultSessionTimeoutMinutes else t);
               lastAccessed = sint (word_of_nat (le_field 39 8 data) :: i64) * 1000000000
           in minutes_ns t < now - lastAccessed)"

definition has_suffix :: "string \<Rightarrow> string \<Rightarrow> bool" where
  "has_suffix s suf \<longleftrightarrow> length suf \<le> length s \<and> drop (length s - length suf) s = suf"

definition trim_suffix :: "string \<Rightarrow> string \<Rightarrow> string" where
  "trim_suffix s suf = (if has_suffix s suf then take (length s - length suf) s else s)"

definition cleanup_one :: "int \<Rightarrow> string set \<Rightarrow> string \<Rightarrow> SessionStore \<Rightarrow> SessionStore" where
  "cleanup_one now registeredIDs name st =
     (if \<not> has_suffix name ''.g3ses'' then st
      else if trim_suffix name ''.g3ses'' \<in> registeredIDs then st
      else case st_disk st name of
             None \<Rightarrow> st
           | Some data \<Rightarrow> if file_expired now data then st\<lparr>st_disk := (st_disk st)(name := None)\<rparr> else st)"

text \<open>\<open>ids\<close> lists the registered sessions as the \<open>range\<close> loop meets them, \<open>names\<close> the directory after the
  sessions were saved.\<close>

definition FlushRegisteredSessions ::
    "(table \<Rightarrow> string list) \<Rightarrow> int \<Rightarrow> bool \<Rightarrow> int \<Rightarrow> string list \<Rightarrow> string list \<Rightarrow> SessionStore \<Rightarrow> SessionStore" where
  "FlushRegisteredSessions ord cfg force now ids names st =
     fold (cleanup_one now (set ids)) names (fold (flush_one ord cfg force now) ids st)"

section \<open>What a flush leaves behind\<close>

definition plain_id :: "string \<Rightarrow> bool" where
  "plain_id i \<longleftrightarrow> CHR ''/'' \<notin> set i \<and> CHR 0x5C \<notin> set i \<and> trim_space i \<noteq> []"

lemma plain_path: "plain_id i \<Longrightarrow> sessionFilePath i = i @ ''.g3ses''"
proof -
  assume "plain_id i"
  then have "map (\<lambda>c. if c = CHR ''/'' \<or> c = CHR 0x5C then CHR ''_'' else c) i = i"
    by (intro map_idI) (auto simp: plain_id_def)
  then show ?thesis by (simp add: sessionFilePath_def)
qed

lemma flush_one_other:
  assumes "plain_id i" "plain_id j" "i \<noteq> j" "\<And>s. st_registry st i = Some s \<Longrightarrow> se_ID s = i"
  shows "st_registry (flush_one ord cfg force now i st) j = st_registry st j
    \<and> st_disk (flush_one ord cfg force now i st) (sessionFilePath j) = st_disk st (sessionFilePath j)"
  using assms
  by (auto simp: flush_one_def session_Delete_def unregisterSession_def save_session_def plain_path split: option.splits)

text \<open>The registry holds each session under its ID.\<close>

definition well_registered :: "SessionStore \<Rightarrow> bool" where
  "well_registered st \<longleftrightarrow> (\<forall>i s. st_registry st i = Some s \<longrightarrow> se_ID s = i)"

lemma flush_one_registered: "well_registered st \<Longrightarrow> well_registered (flush_one ord cfg force now i st)"
  by (auto simp: well_registered_def flush_one_def session_Delete_def unregisterSession_def save_session_def
      split: option.splits if_splits)

lemma flush_all_other:
  "well_registered st \<Longrightarrow> plain_id j \<Longrightarrow> j \<notin> set ids \<Longrightarrow> list_all plain_id ids \<Longrightarrow>
   st_registry (fold (flush_one ord cfg force now) ids st) j = st_registry st j
   \<and> st_disk (fold (flush_one ord cfg force now) ids st) (sessionFilePath j) = st_disk st (sessionFilePath j)"
proof (induction ids arbitrary: st)
  case (Cons i ids)
  then show ?case
    using flush_one_other[of i j st ord cfg force now] flush_one_registered[OF Cons.prems(1), of ord cfg force now i]
    by (auto simp: well_registered_def)
qed simp

text \<open>The result at the session's own ID and file.\<close>

definition gone :: "int \<Rightarrow> Session \<Rightarrow> bool" where
  "gone now s \<longleftrightarrow> IsAbandoned s \<or> isExpiredAt now s"

lemma flush_one_at:
  assumes "st_registry st i = Some s" "se_ID s = i" "plain_id i"
  shows "st_registry (flush_one ord cfg force now i st) i = (if gone now s then None
      else Some (if force \<or> needs_save s then s\<lparr>se_dirty := False, se_lastSavedVersion := se_version s\<rparr> else s))"
    "st_disk (flush_one ord cfg force now i st) (sessionFilePath i) = (if gone now s then None
      else if force \<or> needs_save s then Some (session_file ord cfg s) else st_disk st (sessionFilePath i))"
  using assms
  by (simp_all add: flush_one_def gone_def session_Delete_def unregisterSession_def save_session_def plain_id_def)

lemma flush_one_same:
  assumes "st_registry s1 i = st_registry s2 i" "st_disk s1 (sessionFilePath i) = st_disk s2 (sessionFilePath i)"
    "well_registered s1" "plain_id i"
  shows "st_registry (flush_one ord cfg force now i s1) i = st_registry (flush_one ord cfg force now i s2) i
      \<and> st_disk (flush_one ord cfg force now i s1) (sessionFilePath i) = st_disk (flush_one ord cfg force now i s2) (sessionFilePath i)"
proof (cases "st_registry s1 i")
  case None
  then show ?thesis using assms(1,2) by (simp add: flush_one_def)
next
  case (Some s)
  then have "se_ID s = i" using assms(3) by (simp add: well_registered_def)
  then show ?thesis using Some assms flush_one_at[of s1 i s] flush_one_at[of s2 i s] by simp
qed

lemma flush_all_at:
  assumes "well_registered st" "distinct ids" "i \<in> set ids" "list_all plain_id ids"
  shows "st_registry (fold (flush_one ord cfg force now) ids st) i = st_registry (flush_one ord cfg force now i st) i
   \<and> st_disk (fold (flush_one ord cfg force now) ids st) (sessionFilePath i)
     = st_disk (flush_one ord cfg force now i st) (sessionFilePath i)"
  using assms
proof (induction ids arbitrary: st)
  case (Cons j ids)
  let ?st = "flush_one ord cfg force now j st"
  have w: "well_registered ?st" by (rule flush_one_registered[OF Cons.prems(1)])
  show ?case
  proof (cases "i = j")
    case True
    then show ?thesis using flush_all_other[OF w, of i ids] Cons.prems by auto
  next
    case False
    then have "plain_id i" "plain_id j" "i \<in> set ids" using Cons.prems by (auto simp: list_all_iff)
    then have "st_registry ?st i = st_registry st i \<and> st_disk ?st (sessionFilePath i) = st_disk st (sessionFilePath i)"
      using flush_one_other[of j i st] False Cons.prems(1) by (auto simp: well_registered_def)
    then have "st_registry (flush_one ord cfg force now i ?st) i = st_registry (flush_one ord cfg force now i st) i
      \<and> st_disk (flush_one ord cfg force now i ?st) (sessionFilePath i) = st_disk (flush_one ord cfg force now i st) (sessionFilePath i)"
      using flush_one_same[OF _ _ w \<open>plain_id i\<close>] by blast
    then show ?thesis
      using Cons.IH[OF w] Cons.prems \<open>i \<in> set ids\<close> by simp
  qed
qed simp

text \<open>The cleanup keeps the registry and the files of registered sessions.\<close>

lemma cleanup_keeps:
  "i \<in> ids \<Longrightarrow> plain_id i \<Longrightarrow>
   st_registry (fold (cleanup_one now ids) names st) = st_registry st
   \<and> st_disk (fold (cleanup_one now ids) names st) (sessionFilePath i) = st_disk st (sessionFilePath i)"
proof (induction names arbitrary: st)
  case (Cons n names)
  have "n = sessionFilePath i \<Longrightarrow> trim_suffix n ''.g3ses'' = i"
    using Cons.prems(2) by (simp add: plain_path trim_suffix_def has_suffix_def)
  then have "st_registry (cleanup_one now ids n st) = st_registry st
    \<and> st_disk (cleanup_one now ids n st) (sessionFilePath i) = st_disk st (sessionFilePath i)"
    using Cons.prems(1) by (auto simp: cleanup_one_def split: option.splits)
  then show ?case using Cons by simp
qed simp

lemma flushed:
  assumes "well_registered st" "distinct ids" "list_all plain_id ids" "i \<in> set ids" "st_registry st i = Some s"
  shows "st_registry (FlushRegisteredSessions ord cfg force now ids names st) i = (if gone now s then None
      else Some (if force \<or> needs_save s then s\<lparr>se_dirty := False, se_lastSavedVersion := se_version s\<rparr> else s))"
    "st_disk (FlushRegisteredSessions ord cfg force now ids names st) (sessionFilePath i) = (if gone now s then None
      else if force \<or> needs_save s then Some (session_file ord cfg s) else st_disk st (sessionFilePath i))"
proof -
  have "plain_id i" using assms(3,4) by (simp add: list_all_iff)
  moreover have "se_ID s = i" using assms(1,5) by (simp add: well_registered_def)
  ultimately show "st_registry (FlushRegisteredSessions ord cfg force now ids names st) i = (if gone now s then None
      else Some (if force \<or> needs_save s then s\<lparr>se_dirty := False, se_lastSavedVersion := se_version s\<rparr> else s))"
    "st_disk (FlushRegisteredSessions ord cfg force now ids names st) (sessionFilePath i) = (if gone now s then None
      else if force \<or> needs_save s then Some (session_file ord cfg s) else st_disk st (sessionFilePath i))"
    unfolding FlushRegisteredSessions_def
    using cleanup_keeps[of i "set ids" now names] flush_all_at[OF assms(1,2,4,3)] flush_one_at[OF assms(5)] assms(4)
    by simp_all
qed

text \<open>
  C13. A session survives a restart of the server: after a forced \<open>FlushRegisteredSessions\<close> (what
  \<open>StopSessionAutoFlush\<close> does) a new process with the same session files and an empty registry gets the
  session back from \<open>GetOrCreateSession\<close> under its ID, not as a new one, with the same contents, static
  objects, timeout, LCID and code page, as long as its sizes fit the header's fields and its timeout,
  counted from the whole second of the last access, has not elapsed.
\<close>

theorem session_survives_restart:
  assumes "well_registered st" "distinct ids" "list_all plain_id ids" "i \<in> set ids" "trim_space i = i"
    "st_registry st i = Some s" "sized s" "\<And>m. finite (dom m) \<Longrightarrow> iteration m (ord m)"
    "\<not> gone now s" "\<not> IsExpired later (reloaded i s)"
  shows "\<exists>s' st'. GetOrCreateSession cfg later rnd i
       ((FlushRegisteredSessions ord cfg True now ids names st)\<lparr>st_registry := (\<lambda>_. None)\<rparr>) = (s', False, st')
     \<and> se_data s' = se_data s \<and> se_staticObjects s' = se_staticObjects s \<and> se_Timeout s' = se_Timeout s
     \<and> se_LCID s' = se_LCID s \<and> se_CodePage s' = se_CodePage s \<and> se_LastAccessed s' = later
     \<and> st_registry st' i = Some s' \<and> \<not> needs_save s'"
proof -
  let ?st = "(FlushRegisteredSessions ord cfg True now ids names st)\<lparr>st_registry := (\<lambda>_. None)\<rparr>"
  have disk: "st_disk ?st (sessionFilePath i) = Some (session_file ord cfg s)"
    using flushed(2)[OF assms(1,2,3,4,6)] assms(9) by simp
  have "finite (dom (se_data s))" "finite (dom (se_staticObjects s))"
    using assms(7) by (simp_all add: sized_def storable_map_def)
  then have dec: "decode_session cfg later i (session_file ord cfg s) = Some (reloaded i s)"
    by (intro decode_saved assms(7,8))
  have i: "trim_space i \<noteq> []" "i \<noteq> []" using assms(3-5) by (auto simp: list_all_iff plain_id_def)
  have load: "LoadSession cfg later i ?st = (Some (Touch later (reloaded i s)), ?st)"
    using disk dec assms(10) by (simp add: LoadSession_def)
  show ?thesis
    using i assms(5) load
    by (simp add: GetOrCreateSession_def getRegisteredSession_def registerSession_def Touch_def touchLocked_def
        reloaded_def needs_save_def)
qed

section \<open>Savers\<close>

text \<open>
  \<open>Save\<close> takes a snapshot (version and bytes), writes the file, and then marks the session clean if its
  version is still the snapshot's. Requests change the session in between. Up to four writer goroutines
  and the flusher run \<open>Save\<close>; \<open>sv_jobs j\<close> is the save in progress of saver \<open>j\<close>: the version, the
  state it serialized and whether the file has been written.
\<close>

record savers =
  sv_session :: Session
  sv_file :: "Session option"
  sv_jobs :: "nat \<Rightarrow> (u64 \<times> Session \<times> bool) option"

text \<open>The file is kept as the state it encodes. The persisted part of the state, without the times.\<close>

definition same_content :: "Session \<Rightarrow> Session \<Rightarrow> bool" where
  "same_content s t \<longleftrightarrow> se_data s = se_data t \<and> se_staticObjects s = se_staticObjects t
     \<and> se_Timeout s = se_Timeout t \<and> se_LCID s = se_LCID t \<and> se_CodePage s = se_CodePage t"

text \<open>A change goes through \<open>markDirtyLocked\<close>; fewer than \<open>2 ^ 64\<close> changes are made.\<close>

inductive saver_step :: "savers \<Rightarrow> savers \<Rightarrow> bool" where
  change: "se_version t = se_version (sv_session s) \<Longrightarrow> se_lastSavedVersion t = se_lastSavedVersion (sv_session s)
    \<Longrightarrow> unat (se_version t) < 2 ^ 64 - 1 \<Longrightarrow> saver_step s (s\<lparr>sv_session := markDirtyLocked now t\<rparr>)"
| touch: "saver_step s (s\<lparr>sv_session := Touch now (sv_session s)\<rparr>)"
| snapshot: "sv_jobs s j = None \<Longrightarrow>
    saver_step s (s\<lparr>sv_jobs := (sv_jobs s)(j \<mapsto> (se_version (sv_session s), sv_session s, False))\<rparr>)"
| write_file: "sv_jobs s j = Some (v, t, False) \<Longrightarrow>
    saver_step s (s\<lparr>sv_file := Some t, sv_jobs := (sv_jobs s)(j \<mapsto> (v, t, True))\<rparr>)"
| commit: "sv_jobs s j = Some (v, t, True) \<Longrightarrow>
    saver_step s (s\<lparr>sv_jobs := (sv_jobs s)(j := None),
      sv_session := (if se_version (sv_session s) = v
        then (sv_session s)\<lparr>se_dirty := False, se_lastSavedVersion := v\<rparr> else sv_session s)\<rparr>)"

inductive saver_run :: "savers \<Rightarrow> savers \<Rightarrow> bool" where
  run_none: "saver_run s s"
| run_more: "saver_run s s' \<Longrightarrow> saver_step s' s'' \<Longrightarrow> saver_run s s''"

text \<open>The same, with one save at a time.\<close>

definition idle_savers :: "savers \<Rightarrow> bool" where
  "idle_savers s \<longleftrightarrow> (\<forall>j. sv_jobs s j = None)"

inductive single_run :: "savers \<Rightarrow> savers \<Rightarrow> bool" where
  single_none: "single_run s s"
| single_more: "single_run s s' \<Longrightarrow> saver_step s' s'' \<Longrightarrow>
    (\<forall>j k. sv_jobs s'' j \<noteq> None \<longrightarrow> sv_jobs s'' k \<noteq> None \<longrightarrow> j = k) \<Longrightarrow> single_run s s''"

definition new_savers :: "Session \<Rightarrow> savers" where
  "new_savers s = \<lparr>sv_session = s, sv_file = None, sv_jobs = (\<lambda>_. None)\<rparr>"

lemma same_content_simps [simp]:
  "same_content s s" "same_content t (s\<lparr>se_LastAccessed := now\<rparr>) = same_content t s"
  "same_content t (s\<lparr>se_dirty := d, se_lastSavedVersion := v\<rparr>) = same_content t s"
  by (simp_all add: same_content_def)

definition file_current :: "savers \<Rightarrow> bool" where
  "file_current s \<longleftrightarrow> (\<exists>t. sv_file s = Some t \<and> same_content t (sv_session s))"

definition saver_inv :: "savers \<Rightarrow> bool" where
  "saver_inv s \<longleftrightarrow>
     (se_dirty (sv_session s) \<or> file_current s)
   \<and> (\<forall>j v t w. sv_jobs s j = Some (v, t, w) \<longrightarrow>
        unat v \<le> unat (se_version (sv_session s))
      \<and> (if v = se_version (sv_session s) then same_content t (sv_session s) else se_dirty (sv_session s))
      \<and> (w \<longrightarrow> sv_file s = Some t))"

lemma version_grows:
  "unat (v::u64) < 2 ^ 64 - 1 \<Longrightarrow> unat (v + 1) = unat v + 1"
  by (simp add: unat_word_ariths)

lemma saver_invD:
  assumes "saver_inv s" "sv_jobs s j = Some (v, t, w)"
  shows "unat v \<le> unat (se_version (sv_session s))"
    "v = se_version (sv_session s) \<Longrightarrow> same_content t (sv_session s)"
    "v \<noteq> se_version (sv_session s) \<Longrightarrow> se_dirty (sv_session s)" "w \<Longrightarrow> sv_file s = Some t"
  using assms unfolding saver_inv_def by (metis (full_types))+

lemma saver_inv_step:
  assumes "saver_step s s'" "saver_inv s" "\<forall>j k. sv_jobs s j \<noteq> None \<longrightarrow> sv_jobs s k \<noteq> None \<longrightarrow> j = k"
  shows "saver_inv s'"
  using assms
proof (induction rule: saver_step.induct)
  case (change t s now)
  have v: "unat (se_version t + 1) = unat (se_version t) + 1" by (rule version_grows[OF change(3)])
  have "unat v' \<le> unat (se_version t + 1) \<and> v' \<noteq> se_version t + 1"
    if "sv_jobs s j = Some (v', t', w)" for j v' t' w
    using saver_invD(1)[OF change(4) that] v change(1) by (metis add_leD1 not_less_eq_eq Suc_eq_plus1 le_Suc_eq)
  moreover have "w \<Longrightarrow> sv_file s = Some t'" if "sv_jobs s j = Some (v', t', w)" for j v' t' w
    using saver_invD(4)[OF change(4) that] .
  ultimately show ?case
    by (auto simp: saver_inv_def markDirtyLocked_def touchLocked_def)
next
  case (write_file s j v t)
  have other: "sv_jobs s k = None" if "k \<noteq> j" for k using write_file(1,3) that by blast
  note i = saver_invD(1-3)[OF write_file(2,1)]
  have "se_dirty (sv_session s) \<or> same_content t (sv_session s)" using i(2,3) by blast
  then show ?case
    using i other by (auto simp: saver_inv_def file_current_def)
next
  case (commit s j v t)
  have other: "sv_jobs s k = None" if "k \<noteq> j" for k using commit(1,3) that by blast
  note i = saver_invD[OF commit(2,1)]
  show ?case
    using i other by (auto simp: saver_inv_def file_current_def same_content_def)
next
  case (touch s now)
  then show ?case by (auto simp: saver_inv_def file_current_def Touch_def touchLocked_def)
next
  case (snapshot s j)
  then show ?case by (auto simp: saver_inv_def file_current_def)
qed

lemma single_run_inv:
  "single_run s z \<Longrightarrow> saver_inv s \<Longrightarrow> \<forall>j k. sv_jobs s j \<noteq> None \<longrightarrow> sv_jobs s k \<noteq> None \<longrightarrow> j = k \<Longrightarrow>
   saver_inv z \<and> (\<forall>j k. sv_jobs z j \<noteq> None \<longrightarrow> sv_jobs z k \<noteq> None \<longrightarrow> j = k)"
  by (induction rule: single_run.induct) (use saver_inv_step in blast)+


definition demo_session :: Session where
  "demo_session = NewSessionWithID 0 0 ''ABC''"

definition demo_changed :: Session where
  "demo_changed = session_Set id 5 ''x'' (NewApplicationInteger 1) demo_session"

lemma no_job:
  "(\<lambda>_. None)(k := None) = (\<lambda>_. None)" "(\<lambda>_. None)(0 := a, Suc 0 := None) = (\<lambda>_. None)(0 := a)"
  by (auto simp: fun_eq_iff)


text \<open>
  C15. With two saves of one session at a time a change can be lost: the slower saver writes its older
  snapshot over the file of the faster one, and the session stays marked clean, so that no later
  \<open>SaveIfDirty\<close> repairs the file.
\<close>

theorem two_savers_lose_a_change:
  "\<exists>z t. saver_run (new_savers demo_session) z \<and> idle_savers z \<and> \<not> needs_save (sv_session z)
     \<and> sv_session z = demo_changed\<lparr>se_dirty := False, se_lastSavedVersion := 2\<rparr>
     \<and> sv_file z = Some t \<and> session_Get id ''x'' (sv_session z) = Some (NewApplicationInteger 1)
     \<and> session_Get id ''x'' t = None"
proof -
  let ?s = demo_session and ?u = demo_changed
  let ?c = "?u\<lparr>se_dirty := False, se_lastSavedVersion := 2\<rparr>"
  have v: "se_version ?s = 1" "se_version ?u = 2"
    by (simp_all add: demo_session_def demo_changed_def NewSessionWithID_def session_ops)
  define z0 where "z0 = new_savers ?s"
  define z1 where "z1 = z0\<lparr>sv_jobs := (\<lambda>_. None)(0 := Some (1, ?s, False))\<rparr>"
  define z2 where "z2 = z1\<lparr>sv_session := ?u\<rparr>"
  define z3 where "z3 = z2\<lparr>sv_jobs := (\<lambda>_. None)(0 := Some (1, ?s, False), 1 := Some (2, ?u, False))\<rparr>"
  define z4 where "z4 = z3\<lparr>sv_file := Some ?u, sv_jobs := (\<lambda>_. None)(0 := Some (1, ?s, False), 1 := Some (2, ?u, True))\<rparr>"
  define z5 where "z5 = z4\<lparr>sv_jobs := (\<lambda>_. None)(0 := Some (1, ?s, False)), sv_session := ?c\<rparr>"
  define z6 where "z6 = z5\<lparr>sv_file := Some ?s, sv_jobs := (\<lambda>_. None)(0 := Some (1, ?s, True))\<rparr>"
  define z7 where "z7 = z6\<lparr>sv_jobs := (\<lambda>_. None)\<rparr>"
  note zs = z0_def z1_def z2_def z3_def z4_def z5_def z6_def z7_def new_savers_def no_job
  let ?t = "?s\<lparr>se_data := (se_data ?s)(normalizeApplicationKey id ''x'' \<mapsto> NewApplicationInteger 1)\<rparr>"
  have 1: "saver_step z0 z1" using saver_step.snapshot[of z0 0] v by (simp add: zs)
  have 2: "saver_step z1 z2"
    using saver_step.change[of ?t z1 5] v by (simp add: zs demo_changed_def session_Set_def)
  have 3: "saver_step z2 z3" using saver_step.snapshot[of z2 1] v by (simp add: zs)
  have 4: "saver_step z3 z4" using saver_step.write_file[of z3 1 2 ?u] by (simp add: zs)
  have 5: "saver_step z4 z5"
    using saver_step.commit[of z4 1 2 ?u] v by (simp add: zs)
  have 6: "saver_step z5 z6" using saver_step.write_file[of z5 0 1 ?s] by (simp add: zs)
  have 7: "saver_step z6 z7" using saver_step.commit[of z6 0 1 ?s] v by (simp add: zs)
  have "saver_run z0 z7"
    by (rule run_more[OF run_more[OF run_more[OF run_more[OF run_more[OF run_more[OF run_more[OF run_none 1] 2] 3] 4] 5] 6] 7])
  moreover have "session_Get id ''x'' ?c = Some (NewApplicationInteger 1)" "session_Get id ''x'' ?s = None"
    by (simp_all add: demo_changed_def demo_session_def NewSessionWithID_def session_ops)
  moreover have "sv_session z7 = ?c" "sv_file z7 = Some ?s" "idle_savers z7" by (simp_all add: zs idle_savers_def)
  moreover have "\<not> needs_save ?c" by (simp add: needs_save_def)
  ultimately show ?thesis unfolding z0_def by metis
qed

definition demo_store :: SessionStore where
  "demo_store = \<lparr>st_registry = (\<lambda>_. None)(''ABC'' \<mapsto> demo_changed), st_disk = (\<lambda>_. None)\<rparr>"

lemma orders_exist: "\<exists>ord. \<forall>m. finite (dom m) \<longrightarrow> iteration m (ord m)"
proof -
  have "\<exists>ks. finite (dom m) \<longrightarrow> iteration m ks" for m
    using finite_distinct_list[of "dom m"] by (auto simp: iteration_def)
  then show ?thesis by metis
qed

lemma demo_changed_sized: "sized demo_changed"
  by (simp add: sized_def demo_changed_def demo_session_def NewSessionWithID_def session_ops storable_map_def
      u32_fits_def NewApplicationInteger_def av_tags resolveDefaultSessionLCID_def defaultSessionLCID_def
      defaultSessionCodePage_def defaultSessionTimeoutMinutes_def normalizeApplicationKey_def to_lower_def
      is_ascii_def ascii_lower_def code_def)

theorem session_survives_restart_witness:
  "\<exists>ord s' st'. GetOrCreateSession 0 1000 [] ''ABC''
       ((FlushRegisteredSessions ord 0 True 10 [''ABC''] [] demo_store)\<lparr>st_registry := (\<lambda>_. None)\<rparr>) = (s', False, st')
     \<and> session_Get id ''x'' s' = Some (NewApplicationInteger 1)"
proof -
  obtain ord where ord: "\<And>m. finite (dom m) \<Longrightarrow> iteration m (ord m)" using orders_exist by blast
  have t: "trim_space ''ABC'' = ''ABC''" by code_simp
  have e: "\<not> gone 10 demo_changed" "\<not> IsExpired 1000 (reloaded ''ABC'' demo_changed)"
    by (simp_all add: gone_def IsAbandoned_def isExpiredAt_def IsExpired_def GetTimeout_def reloaded_def demo_changed_def
        demo_session_def NewSessionWithID_def session_ops defaultSessionTimeoutMinutes_def minutes_ns_def unix_seconds_def)
  have w: "well_registered demo_store"
    by (simp add: well_registered_def demo_store_def demo_changed_def demo_session_def NewSessionWithID_def session_ops)
  have "list_all plain_id [''ABC'']" by (simp add: plain_id_def t)
  then obtain s' st' where r: "GetOrCreateSession 0 1000 [] ''ABC''
      ((FlushRegisteredSessions ord 0 True 10 [''ABC''] [] demo_store)\<lparr>st_registry := (\<lambda>_. None)\<rparr>) = (s', False, st')"
      "se_data s' = se_data demo_changed"
    using session_survives_restart[of demo_store "[''ABC'']" "''ABC''" demo_changed ord 10 1000 0 "[]" "[]"]
      w t demo_changed_sized ord e by (auto simp: demo_store_def)
  moreover have "session_Get id ''x'' s' = Some (NewApplicationInteger 1)"
    using r(2) by (simp add: session_Get_def demo_changed_def session_ops)
  ultimately show ?thesis by blast
qed

section \<open>Numeric session identifiers\<close>

text \<open>\<open>fnv.New32a\<close> over the bytes of the ID.\<close>

definition fnv32a :: "bytes \<Rightarrow> 32 word" where
  "fnv32a bs = fold (\<lambda>b h. (h XOR ucast b) * 16777619) bs 2166136261"

definition numericSessionID :: "string \<Rightarrow> i64" where
  "numericSessionID sessionID =
     (if sessionID = [] then 0
      else let v = ucast (fnv32a (str_bytes sessionID) AND 0x7fffffff) in if v = 0 then 1 else v)"

text \<open>
  \<open>Session.SessionID\<close> is 0 only without an ID, and otherwise a positive number that fits in a
  31-bit Long, whatever the ID is.
\<close>

theorem numeric_session_id_bounds:
  "(numericSessionID i = 0) = (i = []) \<and> 0 \<le> sint (numericSessionID i) \<and> sint (numericSessionID i) < 2 ^ 31"
proof (cases "i = []")
  case False
  define w where "w = fnv32a (str_bytes i) AND 0x7fffffff"
  have "(0x7fffffff :: 32 word) = mask 31" by (simp add: mask_eq_decr_exp)
  then have "w = take_bit 31 (fnv32a (str_bytes i))" unfolding w_def by (simp add: take_bit_eq_mask)
  then have "uint w < 2 ^ 31" using take_bit_int_less_exp[of 31 "uint (fnv32a (str_bytes i))"] by (simp add: unsigned_take_bit_eq)
  then have u: "uint (ucast w :: i64) < 2 ^ 31" using take_bit_int_less_eq_self_iff[of 64 "uint w"] by (simp add: unsigned_ucast_eq)
  have "sint x = uint x" if "uint x < 2 ^ 31" for x :: i64
  proof -
    have "0 \<le> uint x" by simp
    then have "- (2 ^ 63) \<le> uint x" by (rule order_trans[rotated]) simp
    then show ?thesis using that signed_take_bit_int_eq_self[of 63 "uint x"] by (simp add: sint_uint)
  qed
  then have "sint (ucast w :: i64) = uint (ucast w :: i64)" using u by blast
  then show ?thesis using False u by (simp add: numericSessionID_def w_def[symmetric] Let_def)
qed (simp add: numericSessionID_def)

end
