(* ===== verification/Tokens.thy ===== *)
theory Tokens
  imports VBErrors GoStrings
begin

text \<open>
  The tokens of the VBScript lexer (\<open>vbscript/tokentype.go\<close>, \<open>token.go\<close>), the two tables of keywords
  and their lookup (\<open>lexerutils.go\<close>). \<open>uni\<close> is the part of \<open>strings.ToLower\<close> that needs the Unicode tables.
\<close>

section \<open>Keywords and punctuation\<close>

type_synonym Keyword = nat

named_theorems keyword_defs
definition KeywordStep :: Keyword where [keyword_defs]: "KeywordStep = 0"
definition KeywordProperty :: Keyword where [keyword_defs]: "KeywordProperty = 1"
definition KeywordExplicit :: Keyword where [keyword_defs]: "KeywordExplicit = 2"
definition KeywordError :: Keyword where [keyword_defs]: "KeywordError = 3"
definition KeywordErase :: Keyword where [keyword_defs]: "KeywordErase = 4"
definition KeywordDefault :: Keyword where [keyword_defs]: "KeywordDefault = 5"
definition KeywordOptional :: Keyword where [keyword_defs]: "KeywordOptional = 6"
definition KeywordParamArray :: Keyword where [keyword_defs]: "KeywordParamArray = 7"
definition KeywordAnd :: Keyword where [keyword_defs]: "KeywordAnd = 8"
definition KeywordByRef :: Keyword where [keyword_defs]: "KeywordByRef = 9"
definition KeywordByVal :: Keyword where [keyword_defs]: "KeywordByVal = 10"
definition KeywordCall :: Keyword where [keyword_defs]: "KeywordCall = 11"
definition KeywordCase :: Keyword where [keyword_defs]: "KeywordCase = 12"
definition KeywordClass :: Keyword where [keyword_defs]: "KeywordClass = 13"
definition KeywordConst :: Keyword where [keyword_defs]: "KeywordConst = 14"
definition KeywordDim :: Keyword where [keyword_defs]: "KeywordDim = 15"
definition KeywordDo :: Keyword where [keyword_defs]: "KeywordDo = 16"
definition KeywordEach :: Keyword where [keyword_defs]: "KeywordEach = 17"
definition KeywordElse :: Keyword where [keyword_defs]: "KeywordElse = 18"
definition KeywordElseIf :: Keyword where [keyword_defs]: "KeywordElseIf = 19"
definition KeywordEnd :: Keyword where [keyword_defs]: "KeywordEnd = 20"
definition KeywordEqv :: Keyword where [keyword_defs]: "KeywordEqv = 21"
definition KeywordExit :: Keyword where [keyword_defs]: "KeywordExit = 22"
definition KeywordFor :: Keyword where [keyword_defs]: "KeywordFor = 23"
definition KeywordFunction :: Keyword where [keyword_defs]: "KeywordFunction = 24"
definition KeywordGet :: Keyword where [keyword_defs]: "KeywordGet = 25"
definition KeywordGoto :: Keyword where [keyword_defs]: "KeywordGoto = 26"
definition KeywordIf :: Keyword where [keyword_defs]: "KeywordIf = 27"
definition KeywordImp :: Keyword where [keyword_defs]: "KeywordImp = 28"
definition KeywordIn :: Keyword where [keyword_defs]: "KeywordIn = 29"
definition KeywordXor :: Keyword where [keyword_defs]: "KeywordXor = 30"
definition KeywordWith :: Keyword where [keyword_defs]: "KeywordWith = 31"
definition KeywordWhile :: Keyword where [keyword_defs]: "KeywordWhile = 32"
definition KeywordWEnd :: Keyword where [keyword_defs]: "KeywordWEnd = 33"
definition KeywordTo :: Keyword where [keyword_defs]: "KeywordTo = 34"
definition KeywordUntil :: Keyword where [keyword_defs]: "KeywordUntil = 35"
definition KeywordThen :: Keyword where [keyword_defs]: "KeywordThen = 36"
definition KeywordSub :: Keyword where [keyword_defs]: "KeywordSub = 37"
definition KeywordSet :: Keyword where [keyword_defs]: "KeywordSet = 38"
definition KeywordSelect :: Keyword where [keyword_defs]: "KeywordSelect = 39"
definition KeywordResume :: Keyword where [keyword_defs]: "KeywordResume = 40"
definition KeywordReDim :: Keyword where [keyword_defs]: "KeywordReDim = 41"
definition KeywordPublic :: Keyword where [keyword_defs]: "KeywordPublic = 42"
definition KeywordPrivate :: Keyword where [keyword_defs]: "KeywordPrivate = 43"
definition KeywordPreserve :: Keyword where [keyword_defs]: "KeywordPreserve = 44"
definition KeywordOr :: Keyword where [keyword_defs]: "KeywordOr = 45"
definition KeywordOption :: Keyword where [keyword_defs]: "KeywordOption = 46"
definition KeywordOn :: Keyword where [keyword_defs]: "KeywordOn = 47"
definition KeywordNot :: Keyword where [keyword_defs]: "KeywordNot = 48"
definition KeywordNext :: Keyword where [keyword_defs]: "KeywordNext = 49"
definition KeywordNew :: Keyword where [keyword_defs]: "KeywordNew = 50"
definition KeywordMod :: Keyword where [keyword_defs]: "KeywordMod = 51"
definition KeywordLoop :: Keyword where [keyword_defs]: "KeywordLoop = 52"
definition KeywordLet :: Keyword where [keyword_defs]: "KeywordLet = 53"
definition KeywordIs :: Keyword where [keyword_defs]: "KeywordIs = 54"
definition KeywordBinary :: Keyword where [keyword_defs]: "KeywordBinary = 55"
definition KeywordCompare :: Keyword where [keyword_defs]: "KeywordCompare = 56"
definition KeywordText :: Keyword where [keyword_defs]: "KeywordText = 57"
definition KeywordBase :: Keyword where [keyword_defs]: "KeywordBase = 58"
definition KeywordEnum :: Keyword where [keyword_defs]: "KeywordEnum = 59"
definition KeywordStatic :: Keyword where [keyword_defs]: "KeywordStatic = 60"
definition KeywordEvent :: Keyword where [keyword_defs]: "KeywordEvent = 61"
definition KeywordRaiseEvent :: Keyword where [keyword_defs]: "KeywordRaiseEvent = 62"
definition KeywordWithEvents :: Keyword where [keyword_defs]: "KeywordWithEvents = 63"
definition KeywordImplements :: Keyword where [keyword_defs]: "KeywordImplements = 64"
definition KeywordMe :: Keyword where [keyword_defs]: "KeywordMe = 65"
definition KeywordOpen :: Keyword where [keyword_defs]: "KeywordOpen = 66"
definition KeywordPrint :: Keyword where [keyword_defs]: "KeywordPrint = 67"
definition KeywordLine :: Keyword where [keyword_defs]: "KeywordLine = 68"
definition KeywordInput :: Keyword where [keyword_defs]: "KeywordInput = 69"
definition KeywordClose :: Keyword where [keyword_defs]: "KeywordClose = 70"
definition KeywordOutput :: Keyword where [keyword_defs]: "KeywordOutput = 71"
definition KeywordAppend :: Keyword where [keyword_defs]: "KeywordAppend = 72"
definition KeywordPut :: Keyword where [keyword_defs]: "KeywordPut = 73"
definition KeywordFreeFile :: Keyword where [keyword_defs]: "KeywordFreeFile = 74"
definition KeywordAs :: Keyword where [keyword_defs]: "KeywordAs = 75"
definition KeywordWrite :: Keyword where [keyword_defs]: "KeywordWrite = 76"
definition KeywordIsNot :: Keyword where [keyword_defs]: "KeywordIsNot = 77"
definition KeywordAndAlso :: Keyword where [keyword_defs]: "KeywordAndAlso = 78"
definition KeywordOrElse :: Keyword where [keyword_defs]: "KeywordOrElse = 79"

datatype Punctuation =
    PunctLParen | PunctRParen | PunctLBracket | PunctRBracket | PunctDot | PunctComma | PunctPlus |
    PunctMinus | PunctSlash | PunctBackslash | PunctStar | PunctAmp | PunctExp | PunctEqual |
    PunctNotEqual | PunctLess | PunctLessOrEqual | PunctGreater | PunctGreaterOrEqual | PunctHash |
    PunctShiftLeft | PunctShiftRight

text \<open>The cases of \<open>Keyword.String\<close>.\<close>

definition keyword_names :: "(Keyword \<times> string) list" where
  "keyword_names = [
    (KeywordStep, ''Step''), (KeywordProperty, ''Property''), (KeywordExplicit, ''Explicit''),
    (KeywordError, ''Error''), (KeywordErase, ''Erase''), (KeywordDefault, ''Default''),
    (KeywordOptional, ''Optional''), (KeywordParamArray, ''ParamArray''), (KeywordAnd, ''And''),
    (KeywordByRef, ''ByRef''), (KeywordByVal, ''ByVal''), (KeywordCall, ''Call''),
    (KeywordCase, ''Case''), (KeywordClass, ''Class''), (KeywordConst, ''Const''),
    (KeywordDim, ''Dim''), (KeywordDo, ''Do''), (KeywordEach, ''Each''), (KeywordElse, ''Else''),
    (KeywordElseIf, ''ElseIf''), (KeywordEnd, ''End''), (KeywordEqv, ''Eqv''),
    (KeywordExit, ''Exit''), (KeywordFor, ''For''), (KeywordFunction, ''Function''),
    (KeywordGet, ''Get''), (KeywordGoto, ''Goto''), (KeywordIf, ''If''), (KeywordImp, ''Imp''),
    (KeywordIn, ''In''), (KeywordXor, ''Xor''), (KeywordWith, ''With''), (KeywordWhile, ''While''),
    (KeywordWEnd, ''WEnd''), (KeywordTo, ''To''), (KeywordUntil, ''Until''),
    (KeywordThen, ''Then''), (KeywordSub, ''Sub''), (KeywordSet, ''Set''),
    (KeywordSelect, ''Select''), (KeywordResume, ''Resume''), (KeywordReDim, ''ReDim''),
    (KeywordPublic, ''Public''), (KeywordPrivate, ''Private''), (KeywordPreserve, ''Preserve''),
    (KeywordOr, ''Or''), (KeywordOption, ''Option''), (KeywordOn, ''On''), (KeywordNot, ''Not''),
    (KeywordNext, ''Next''), (KeywordNew, ''New''), (KeywordMod, ''Mod''), (KeywordLoop, ''Loop''),
    (KeywordLet, ''Let''), (KeywordIs, ''Is''), (KeywordBinary, ''Binary''),
    (KeywordCompare, ''Compare''), (KeywordText, ''Text''), (KeywordBase, ''Base''),
    (KeywordEnum, ''Enum''), (KeywordStatic, ''Static''), (KeywordEvent, ''Event''),
    (KeywordRaiseEvent, ''RaiseEvent''), (KeywordWithEvents, ''WithEvents''), (KeywordMe, ''Me''),
    (KeywordOpen, ''Open''), (KeywordPrint, ''Print''), (KeywordLine, ''Line''),
    (KeywordInput, ''Input''), (KeywordClose, ''Close''), (KeywordOutput, ''Output''),
    (KeywordAppend, ''Append''), (KeywordPut, ''Put''), (KeywordFreeFile, ''FreeFile''),
    (KeywordAs, ''As''), (KeywordWrite, ''Write''), (KeywordIsNot, ''IsNot''),
    (KeywordAndAlso, ''AndAlso''), (KeywordOrElse, ''OrElse'')]"

definition Keyword_String :: "Keyword \<Rightarrow> string" where
  "Keyword_String k = (case map_of keyword_names k of Some s \<Rightarrow> s | None \<Rightarrow> ''Unknown'')"

text \<open>Go maps with distinct constant keys.\<close>

definition keyword_table :: "(string \<times> Keyword) list" where
  "keyword_table = [
    (''and'', KeywordAnd), (''andalso'', KeywordAndAlso), (''byref'', KeywordByRef),
    (''byval'', KeywordByVal), (''call'', KeywordCall), (''case'', KeywordCase),
    (''class'', KeywordClass), (''const'', KeywordConst), (''dim'', KeywordDim),
    (''do'', KeywordDo), (''each'', KeywordEach), (''else'', KeywordElse),
    (''elseif'', KeywordElseIf), (''end'', KeywordEnd), (''enum'', KeywordEnum),
    (''eqv'', KeywordEqv), (''event'', KeywordEvent), (''exit'', KeywordExit),
    (''for'', KeywordFor), (''function'', KeywordFunction), (''get'', KeywordGet),
    (''goto'', KeywordGoto), (''if'', KeywordIf), (''imp'', KeywordImp),
    (''implements'', KeywordImplements), (''in'', KeywordIn), (''is'', KeywordIs),
    (''isnot'', KeywordIsNot), (''let'', KeywordLet), (''loop'', KeywordLoop),
    (''mod'', KeywordMod), (''new'', KeywordNew), (''next'', KeywordNext), (''not'', KeywordNot),
    (''on'', KeywordOn), (''open'', KeywordOpen), (''option'', KeywordOption), (''or'', KeywordOr),
    (''orelse'', KeywordOrElse), (''preserve'', KeywordPreserve), (''private'', KeywordPrivate),
    (''public'', KeywordPublic), (''raiseevent'', KeywordRaiseEvent), (''redim'', KeywordReDim),
    (''resume'', KeywordResume), (''select'', KeywordSelect), (''set'', KeywordSet),
    (''static'', KeywordStatic), (''sub'', KeywordSub), (''then'', KeywordThen),
    (''to'', KeywordTo), (''until'', KeywordUntil), (''me'', KeywordMe), (''wend'', KeywordWEnd),
    (''while'', KeywordWhile), (''with'', KeywordWith), (''withevents'', KeywordWithEvents),
    (''xor'', KeywordXor)]"

definition keywordAsIdentifiers :: "(string \<times> Keyword) list" where
  "keywordAsIdentifiers = [
    (''append'', KeywordAppend), (''as'', KeywordAs), (''base'', KeywordBase),
    (''binary'', KeywordBinary), (''close'', KeywordClose), (''compare'', KeywordCompare),
    (''default'', KeywordDefault), (''erase'', KeywordErase), (''error'', KeywordError),
    (''explicit'', KeywordExplicit), (''freefile'', KeywordFreeFile), (''input'', KeywordInput),
    (''line'', KeywordLine), (''optional'', KeywordOptional), (''output'', KeywordOutput),
    (''paramarray'', KeywordParamArray), (''print'', KeywordPrint),
    (''property'', KeywordProperty), (''put'', KeywordPut), (''step'', KeywordStep),
    (''text'', KeywordText), (''write'', KeywordWrite)]"

definition GetKeyword :: "(string \<Rightarrow> string) \<Rightarrow> string \<Rightarrow> Keyword option" where
  "GetKeyword uni s = map_of keyword_table (to_lower uni s)"

definition IsKeyword :: "(string \<Rightarrow> string) \<Rightarrow> string \<Rightarrow> bool" where
  "IsKeyword uni s \<longleftrightarrow> GetKeyword uni s \<noteq> None"

definition GetKeywordAsIdentifier :: "(string \<Rightarrow> string) \<Rightarrow> string \<Rightarrow> Keyword option" where
  "GetKeywordAsIdentifier uni s = map_of keywordAsIdentifiers (to_lower uni s)"

definition IsKeywordAsIdentifier :: "(string \<Rightarrow> string) \<Rightarrow> string \<Rightarrow> bool" where
  "IsKeywordAsIdentifier uni s \<longleftrightarrow> GetKeywordAsIdentifier uni s \<noteq> None"

section \<open>Tokens\<close>

text \<open>\<open>time.Time\<close> of a date literal, in UTC.\<close>

record gotime =
  tm_Year :: int
  tm_Month :: nat
  tm_Day :: nat
  tm_Hour :: nat
  tm_Minute :: nat
  tm_Second :: nat
  tm_Nanosecond :: nat

text \<open>The token types with the fields they add to \<open>BaseToken\<close>.\<close>

datatype token_kind =
    EOFToken | LineTerminationToken | ColonLineTerminationToken
  | CommentToken (Comment: string) (IsRem: bool)
  | StringLiteralToken (strValue: string)
  | DecIntegerLiteralToken i64 | HexIntegerLiteralToken i64 | OctIntegerLiteralToken i64
  | DateLiteralToken gotime | FloatLiteralToken f64
  | TrueLiteralToken | FalseLiteralToken | NullLiteralToken | NothingLiteralToken | EmptyLiteralToken
  | IdentifierToken string
  | KeywordToken Keyword string
  | KeywordOrIdentifierToken Keyword string
  | HTMLToken (Content: string)
  | ASPCodeStartToken (Language: string) | ASPExpressionStartToken | ASPDirectiveStartToken | ASPCodeEndToken
  | ASPJScriptBlockToken (jsContent: string) (IsScriptTag: bool)
  | ASPIncludeToken (Virtual: bool) (Path: string)
  | ASPObjectToken (Scope: string) (objID: string) (ProgID: string) (ClassID: string)
  | PunctuationToken Punctuation

record Token =
  tk_Start :: nat
  tk_End :: nat
  tk_LineNumber :: int
  tk_LineStart :: nat
  tk_kind :: token_kind

section \<open>The keyword tables\<close>

lemma lower_letters:
  "lower_char CHR ''A'' = CHR ''a''" "lower_char CHR ''B'' = CHR ''b''" "lower_char CHR ''C'' = CHR ''c''"
  "lower_char CHR ''D'' = CHR ''d''" "lower_char CHR ''E'' = CHR ''e''" "lower_char CHR ''F'' = CHR ''f''"
  "lower_char CHR ''G'' = CHR ''g''" "lower_char CHR ''H'' = CHR ''h''" "lower_char CHR ''I'' = CHR ''i''"
  "lower_char CHR ''J'' = CHR ''j''" "lower_char CHR ''K'' = CHR ''k''" "lower_char CHR ''L'' = CHR ''l''"
  "lower_char CHR ''M'' = CHR ''m''" "lower_char CHR ''N'' = CHR ''n''" "lower_char CHR ''O'' = CHR ''o''"
  "lower_char CHR ''P'' = CHR ''p''" "lower_char CHR ''Q'' = CHR ''q''" "lower_char CHR ''R'' = CHR ''r''"
  "lower_char CHR ''S'' = CHR ''s''" "lower_char CHR ''T'' = CHR ''t''" "lower_char CHR ''U'' = CHR ''u''"
  "lower_char CHR ''V'' = CHR ''v''" "lower_char CHR ''W'' = CHR ''w''" "lower_char CHR ''X'' = CHR ''x''"
  "lower_char CHR ''Y'' = CHR ''y''" "lower_char CHR ''Z'' = CHR ''z''" "lower_char CHR ''a'' = CHR ''a''"
  "lower_char CHR ''b'' = CHR ''b''" "lower_char CHR ''c'' = CHR ''c''" "lower_char CHR ''d'' = CHR ''d''"
  "lower_char CHR ''e'' = CHR ''e''" "lower_char CHR ''f'' = CHR ''f''" "lower_char CHR ''g'' = CHR ''g''"
  "lower_char CHR ''h'' = CHR ''h''" "lower_char CHR ''i'' = CHR ''i''" "lower_char CHR ''j'' = CHR ''j''"
  "lower_char CHR ''k'' = CHR ''k''" "lower_char CHR ''l'' = CHR ''l''" "lower_char CHR ''m'' = CHR ''m''"
  "lower_char CHR ''n'' = CHR ''n''" "lower_char CHR ''o'' = CHR ''o''" "lower_char CHR ''p'' = CHR ''p''"
  "lower_char CHR ''q'' = CHR ''q''" "lower_char CHR ''r'' = CHR ''r''" "lower_char CHR ''s'' = CHR ''s''"
  "lower_char CHR ''t'' = CHR ''t''" "lower_char CHR ''u'' = CHR ''u''" "lower_char CHR ''v'' = CHR ''v''"
  "lower_char CHR ''w'' = CHR ''w''" "lower_char CHR ''x'' = CHR ''x''" "lower_char CHR ''y'' = CHR ''y''"
  "lower_char CHR ''z'' = CHR ''z''"
  by code_simp+

lemma tables_disjoint:
  "distinct (map fst keyword_table)" "distinct (map fst keywordAsIdentifiers)"
  "\<forall>x\<in>set (map fst keyword_table). x \<notin> set (map fst keywordAsIdentifiers)"
  by (simp_all add: keyword_table_def keywordAsIdentifiers_def)

lemma names_in_tables:
  "list_all (\<lambda>(k, s). is_ascii s \<and> ((ascii_lower s, k) \<in> set keyword_table \<or> (ascii_lower s, k) \<in> set keywordAsIdentifiers))
     keyword_names"
  by (simp add: keyword_names_def ascii_lower_def lower_letters code_def is_ascii_def keyword_table_def
      keywordAsIdentifiers_def keyword_defs)

lemma all_named:
  "list_all (\<lambda>k. k = KeywordImplements \<or> k \<in> set (map fst keyword_names)) [0..<80]"
  "KeywordImplements \<notin> set (map fst keyword_names)"
  by (simp_all add: keyword_names_def keyword_defs upt_rec)

text \<open>
  Every keyword with a name (\<open>Keyword.String\<close>) is found under that name and in exactly one of the two
  tables, so the lexer never has to choose between a reserved word and a word that may also be an
  identifier. \<open>Implements\<close> alone has no name, and the text it prints instead is not a keyword.
\<close>

theorem keyword_round_trip:
  "k < 80 \<longrightarrow> (if k = KeywordImplements then Keyword_String k = ''Unknown'' \<and> \<not> IsKeyword uni (Keyword_String k)
   else (GetKeyword uni (Keyword_String k) = Some k \<and> \<not> IsKeywordAsIdentifier uni (Keyword_String k))
      \<noteq> (GetKeywordAsIdentifier uni (Keyword_String k) = Some k \<and> \<not> IsKeyword uni (Keyword_String k)))"
proof
  assume k: "k < 80"
  show "if k = KeywordImplements then Keyword_String k = ''Unknown'' \<and> \<not> IsKeyword uni (Keyword_String k)
   else (GetKeyword uni (Keyword_String k) = Some k \<and> \<not> IsKeywordAsIdentifier uni (Keyword_String k))
      \<noteq> (GetKeywordAsIdentifier uni (Keyword_String k) = Some k \<and> \<not> IsKeyword uni (Keyword_String k))"
  proof (cases "k = KeywordImplements")
    case True
    then have "Keyword_String k = ''Unknown''"
      using all_named(2) map_of_eq_None_iff[of keyword_names KeywordImplements] by (simp add: Keyword_String_def)
    moreover have "\<not> IsKeyword uni ''Unknown''"
      by (simp add: IsKeyword_def GetKeyword_def to_lower_def is_ascii_def ascii_lower_def lower_letters code_def
          keyword_table_def)
    ultimately show ?thesis using True by simp
  next
    case False
    then have "k \<in> set (map fst keyword_names)" using all_named(1) k by (auto simp: list_all_iff)
    then obtain s where s: "map_of keyword_names k = Some s" by (metis map_of_eq_None_iff option.exhaust list.set_map)
    have "is_ascii s \<and> ((ascii_lower s, k) \<in> set keyword_table \<or> (ascii_lower s, k) \<in> set keywordAsIdentifiers)"
      using names_in_tables map_of_SomeD[OF s] by (auto simp: list_all_iff)
    then have "is_ascii s" "map_of keyword_table (ascii_lower s) = Some k \<and> map_of keywordAsIdentifiers (ascii_lower s) = None
        \<or> map_of keyword_table (ascii_lower s) = None \<and> map_of keywordAsIdentifiers (ascii_lower s) = Some k"
      using tables_disjoint by (force simp: map_of_eq_None_iff)+
    then show ?thesis
      using s False
      by (auto simp: Keyword_String_def IsKeyword_def IsKeywordAsIdentifier_def GetKeyword_def
          GetKeywordAsIdentifier_def to_lower_def)
  qed
qed

theorem keyword_round_trip_witness: "GetKeyword id (Keyword_String KeywordWhile) = Some KeywordWhile"
proof -
  have n: "map_of keyword_names KeywordWhile = Some ''While''" by (simp add: keyword_names_def keyword_defs)
  have "KeywordWhile < 80" "KeywordWhile \<noteq> KeywordImplements" by (simp_all add: keyword_defs)
  moreover have "\<not> IsKeywordAsIdentifier id (Keyword_String KeywordWhile)"
    by (simp add: Keyword_String_def n IsKeywordAsIdentifier_def GetKeywordAsIdentifier_def to_lower_def is_ascii_def
        ascii_lower_def lower_letters code_def keywordAsIdentifiers_def)
  ultimately show ?thesis
    using keyword_round_trip[of KeywordWhile id]
    by (auto simp: IsKeywordAsIdentifier_def)
qed

end
