(* ===== verification/LexText.thy ===== *)
theory LexText
  imports GoStrings
begin

text \<open>
  Text as the lexer sees it: Go's conversions between strings and runes, the \<open>strings\<close> functions it
  uses, and the character classes of \<open>vbscript/charutils.go\<close>. A rune is its code point, a natural number.
\<close>

type_synonym rune = nat

section \<open>Strings and runes\<close>

definition cont_byte :: "nat \<Rightarrow> bool" where "cont_byte b \<longleftrightarrow> 128 \<le> b \<and> b \<le> 191"

definition three_bytes :: "nat \<Rightarrow> nat \<Rightarrow> nat \<Rightarrow> bool" where
  "three_bytes a b c \<longleftrightarrow> 224 \<le> a \<and> a \<le> 239 \<and> cont_byte b \<and> cont_byte c
     \<and> (a = 224 \<longrightarrow> 160 \<le> b) \<and> (a = 237 \<longrightarrow> b \<le> 159)"

definition four_bytes :: "nat \<Rightarrow> nat \<Rightarrow> nat \<Rightarrow> nat \<Rightarrow> bool" where
  "four_bytes a b c d \<longleftrightarrow> 240 \<le> a \<and> a \<le> 244 \<and> cont_byte b \<and> cont_byte c \<and> cont_byte d
     \<and> (a = 240 \<longrightarrow> 144 \<le> b) \<and> (a = 244 \<longrightarrow> b \<le> 143)"

text \<open>\<open>[]rune(s)\<close>: a byte that starts no valid sequence is U+FFFD.\<close>

fun utf8_decode :: "nat list \<Rightarrow> rune list" where
  "utf8_decode [] = []"
| "utf8_decode (a # s) =
     (if a < 128 then a # utf8_decode s
      else case s of
        b # r \<Rightarrow>
          (if 194 \<le> a \<and> a \<le> 223 \<and> cont_byte b then ((a - 192) * 64 + (b - 128)) # utf8_decode r
           else case r of
             c # r2 \<Rightarrow>
               (if three_bytes a b c then ((a - 224) * 4096 + (b - 128) * 64 + (c - 128)) # utf8_decode r2
                else case r2 of
                  d # r3 \<Rightarrow>
                    (if four_bytes a b c d
                     then ((a - 240) * 262144 + (b - 128) * 4096 + (c - 128) * 64 + (d - 128)) # utf8_decode r3
                     else 65533 # utf8_decode s)
                | [] \<Rightarrow> 65533 # utf8_decode s)
           | [] \<Rightarrow> 65533 # utf8_decode s)
      | [] \<Rightarrow> [65533])"

definition to_runes :: "string \<Rightarrow> rune list" where
  "to_runes s = (if is_ascii s then map code s else utf8_decode (map code s))"

text \<open>\<open>string(r)\<close>; a number that is no code point becomes U+FFFD.\<close>

definition rune_bytes :: "rune \<Rightarrow> nat list" where
  "rune_bytes r0 =
     (let r = (if 1114111 < r0 \<or> (55296 \<le> r0 \<and> r0 \<le> 57343) then 65533 else r0)
      in if r < 128 then [r]
         else if r < 2048 then [192 + r div 64, 128 + r mod 64]
         else if r < 65536 then [224 + r div 4096, 128 + r div 64 mod 64, 128 + r mod 64]
         else [240 + r div 262144, 128 + r div 4096 mod 64, 128 + r div 64 mod 64, 128 + r mod 64])"

definition of_runes :: "rune list \<Rightarrow> string" where
  "of_runes rs = map char_of (concat (map rune_bytes rs))"

lemma of_runes_simps [simp]: "of_runes [] = []" "of_runes (xs @ ys) = of_runes xs @ of_runes ys"
  by (simp_all add: of_runes_def)

lemma of_runes_ascii: "list_all (\<lambda>r. r < 128) rs \<Longrightarrow> of_runes rs = map char_of rs"
  by (induction rs) (simp_all add: of_runes_def rune_bytes_def)

lemma runes_of_ascii: "is_ascii s \<Longrightarrow> to_runes s = map code s"
  by (simp add: to_runes_def)

lemma ascii_round_trip: "is_ascii s \<Longrightarrow> of_runes (to_runes s) = s"
proof -
  assume a: "is_ascii s"
  then have "of_runes (map code s) = map char_of (map code s)"
    by (intro of_runes_ascii) (simp add: is_ascii_def list_all_iff)
  then show ?thesis using a by (simp add: runes_of_ascii code_def comp_def)
qed

text \<open>A valid code point survives the way through its bytes.\<close>

definition code_point :: "rune \<Rightarrow> bool" where
  "code_point r \<longleftrightarrow> r \<le> 1114111 \<and> \<not> (55296 \<le> r \<and> r \<le> 57343)"

lemma split3: "r div 4096 * 4096 + r div 64 mod 64 * 64 + r mod 64 = (r::nat)"
proof -
  have "r div 4096 = r div 64 div 64" by (simp add: div_mult2_eq[symmetric])
  then have "r div 4096 * 64 + r div 64 mod 64 = r div 64" by simp
  then have "(r div 4096 * 64 + r div 64 mod 64) * 64 + r mod 64 = r" by simp
  then show ?thesis by simp
qed

lemma split4: "r div 262144 * 262144 + r div 4096 mod 64 * 4096 + r div 64 mod 64 * 64 + r mod 64 = (r::nat)"
proof -
  have "r div 262144 = r div 4096 div 64" by (simp add: div_mult2_eq[symmetric])
  then have "r div 262144 * 64 + r div 4096 mod 64 = r div 4096" by simp
  then have "(r div 262144 * 64 + r div 4096 mod 64) * 4096 + r div 64 mod 64 * 64 + r mod 64 = r"
    using split3[of r] by simp
  then show ?thesis by (simp add: algebra_simps)
qed

lemma decode_rune: "code_point r \<Longrightarrow> utf8_decode (rune_bytes r @ s) = r # utf8_decode s"
proof -
  assume r: "code_point r"
  then have nr: "\<not> (1114111 < r \<or> (55296 \<le> r \<and> r \<le> 57343))" by (auto simp: code_point_def)
  consider "r < 128" | "128 \<le> r" "r < 2048" | "2048 \<le> r" "r < 65536" | "65536 \<le> r" by linarith
  then show ?thesis
  proof cases
    case 1
    then show ?thesis by (simp add: rune_bytes_def)
  next
    case 2
    define a b where "a = r div 64" and "b = r mod 64"
    have e: "a * 64 + b = r" unfolding a_def b_def by simp
    have l: "2 \<le> a" "a < 32" "b < 64" using 2 by (auto simp: a_def b_def)
    have "194 \<le> 192 + a \<and> 192 + a \<le> 223 \<and> cont_byte (128 + b)" using l by (auto simp: cont_byte_def)
    moreover have "rune_bytes r = [192 + a, 128 + b]"
      using 2 r by (simp add: rune_bytes_def a_def b_def)
    ultimately show ?thesis using e by simp
  next
    case 3
    define a b c where "a = r div 4096" and "b = r div 64 mod 64" and "c = r mod 64"
    have e: "a * 4096 + b * 64 + c = r" unfolding a_def b_def c_def by (rule split3)
    have l: "a < 16" "b < 64" "c < 64" using 3 by (auto simp: a_def b_def c_def)
    have "a = 0 \<Longrightarrow> 32 \<le> b" using e l 3 by auto
    moreover have "a = 13 \<Longrightarrow> b \<le> 31" using e l r by (auto simp: code_point_def)
    ultimately have t: "three_bytes (224 + a) (128 + b) (128 + c)"
      using l by (auto simp: three_bytes_def cont_byte_def)
    have n: "\<not> (194 \<le> 224 + a \<and> 224 + a \<le> 223 \<and> cont_byte (128 + b))" by simp
    have "rune_bytes r = [224 + a, 128 + b, 128 + c]"
      using 3 unfolding rune_bytes_def if_not_P[OF nr] a_def b_def c_def Let_def by simp
    then show ?thesis using t n e by simp
  next
    case 4
    define a b c d where "a = r div 262144" and "b = r div 4096 mod 64" and "c = r div 64 mod 64" and "d = r mod 64"
    have e: "a * 262144 + b * 4096 + c * 64 + d = r" unfolding a_def b_def c_def d_def by (rule split4)
    have l: "a < 5" "b < 64" "c < 64" "d < 64" using 4 r by (auto simp: a_def b_def c_def d_def code_point_def)
    have "a = 0 \<Longrightarrow> 16 \<le> b" using e l 4 by auto
    moreover have "a = 4 \<Longrightarrow> b \<le> 15" using e l r by (auto simp: code_point_def)
    ultimately have t: "four_bytes (240 + a) (128 + b) (128 + c) (128 + d)"
      using l by (auto simp: four_bytes_def cont_byte_def)
    have n: "\<not> three_bytes (240 + a) (128 + b) (128 + c)" by (simp add: three_bytes_def)
    have "rune_bytes r = [240 + a, 128 + b, 128 + c, 128 + d]"
      using 4 unfolding rune_bytes_def if_not_P[OF nr] a_def b_def c_def d_def Let_def by simp
    then show ?thesis using t n e by simp
  qed
qed

section \<open>The functions of \<open>strings\<close>\<close>

fun starts_with :: "string \<Rightarrow> string \<Rightarrow> bool" where
  "starts_with [] s = True"
| "starts_with (c # p) [] = False"
| "starts_with (c # p) (d # s) = (c = d \<and> starts_with p s)"

fun str_index :: "string \<Rightarrow> string \<Rightarrow> nat option" where
  "str_index p [] = (if p = [] then Some 0 else None)"
| "str_index p (c # s) = (if starts_with p (c # s) then Some 0 else map_option Suc (str_index p s))"

definition str_contains :: "string \<Rightarrow> string \<Rightarrow> bool" where
  "str_contains s p \<longleftrightarrow> str_index p s \<noteq> None"

text \<open>\<open>IndexByte\<close> and \<open>IndexAny\<close>: the first position of a character of the set.\<close>

fun index_any :: "string \<Rightarrow> string \<Rightarrow> nat option" where
  "index_any cs [] = None"
| "index_any cs (c # s) = (if c \<in> set cs then Some 0 else map_option Suc (index_any cs s))"

text \<open>\<open>ReplaceAll\<close> of a non-empty pattern.\<close>

fun replace_all :: "string \<Rightarrow> string \<Rightarrow> string \<Rightarrow> string" where
  "replace_all p q [] = []"
| "replace_all p q (c # s) =
     (if p \<noteq> [] \<and> starts_with p (c # s) then q @ replace_all p q (drop (length p - 1) s)
      else c # replace_all p q s)"

lemma replace_all_length: "length q \<le> length p \<Longrightarrow> length (replace_all p q s) \<le> length s"
proof (induction p q s rule: replace_all.induct)
  case (2 p q c s)
  have "length p \<le> length (c # s)" if "starts_with p (c # s)"
    using that by (induction p "c # s" arbitrary: c s rule: starts_with.induct) (auto elim: starts_with.elims)
  then show ?case using 2 by (cases p) auto
qed simp

lemma replace_all_shrinks:
  "length q < length p \<Longrightarrow> str_contains s p \<Longrightarrow> length (replace_all p q s) < length s"
proof (induction p q s rule: replace_all.induct)
  case (1 p q)
  then show ?case by (simp add: str_contains_def split: if_splits)
next
  case (2 p q c s)
  show ?case
  proof (cases "starts_with p (c # s)")
    case True
    have l: "length p \<le> length (c # s)"
      using True by (induction p "c # s" arbitrary: c s rule: starts_with.induct) (auto elim: starts_with.elims)
    have "length (replace_all p q (drop (length p - 1) s)) \<le> length s - (length p - 1)"
      using replace_all_length[of q p "drop (length p - 1) s"] "2.prems"(1) by simp
    then show ?thesis using True l "2.prems"(1) by (cases p) auto
  next
    case False
    then have "str_contains s p" using "2.prems"(2) by (auto simp: str_contains_def)
    then show ?thesis using 2 False by simp
  qed
qed

text \<open>\<open>for strings.Contains(s, "  ") { s = strings.ReplaceAll(s, "  ", " ") }\<close>\<close>

function collapse_spaces :: "string \<Rightarrow> string" where
  "collapse_spaces s =
     (if str_contains s ''  '' then collapse_spaces (replace_all ''  '' '' '' s) else s)"
  by pat_completeness auto
termination by (relation "measure length") (auto intro: replace_all_shrinks)

declare collapse_spaces.simps [simp del]

section \<open>Character classes\<close>

definition IsLineTerminator :: "rune \<Rightarrow> bool" where "IsLineTerminator c \<longleftrightarrow> c = 10 \<or> c = 13 \<or> c = 58"
definition IsNewLine :: "rune \<Rightarrow> bool" where "IsNewLine c \<longleftrightarrow> c = 10 \<or> c = 13"
definition IsDecDigit :: "rune \<Rightarrow> bool" where "IsDecDigit c \<longleftrightarrow> 48 \<le> c \<and> c \<le> 57"

definition IsHexDigit :: "rune \<Rightarrow> bool" where
  "IsHexDigit c \<longleftrightarrow> IsDecDigit c \<or> (97 \<le> c \<and> c \<le> 102) \<or> (65 \<le> c \<and> c \<le> 70)"

definition IsOctDigit :: "rune \<Rightarrow> bool" where "IsOctDigit c \<longleftrightarrow> 48 \<le> c \<and> c \<le> 55"

definition IsIdentifierStart :: "rune \<Rightarrow> bool" where
  "IsIdentifierStart c \<longleftrightarrow> (65 \<le> c \<and> c \<le> 90) \<or> (97 \<le> c \<and> c \<le> 122)"

definition IsIdentifier :: "rune \<Rightarrow> bool" where
  "IsIdentifier c \<longleftrightarrow> IsIdentifierStart c \<or> IsDecDigit c \<or> c = 95"

definition IsWhiteSpace :: "rune \<Rightarrow> bool" where
  "IsWhiteSpace c \<longleftrightarrow> c = 32 \<or> c = 9 \<or> c = 11 \<or> c = 12"

definition IsExtendedIdentifier :: "rune \<Rightarrow> bool" where
  "IsExtendedIdentifier c \<longleftrightarrow> \<not> IsNewLine c \<and> c \<noteq> 93 \<and> c \<le> 255"

definition runeToUpper :: "rune \<Rightarrow> rune" where
  "runeToUpper c = (if 97 \<le> c \<and> c \<le> 122 then c - 32 else c)"

definition CharEquals :: "rune \<Rightarrow> rune \<Rightarrow> bool" where
  "CharEquals a b \<longleftrightarrow> runeToUpper a = runeToUpper b"

lemmas char_classes = IsLineTerminator_def IsNewLine_def IsDecDigit_def IsHexDigit_def IsOctDigit_def
  IsIdentifierStart_def IsIdentifier_def IsWhiteSpace_def runeToUpper_def CharEquals_def

end
