(* ===== verification/LexerBase.thy ===== *)
theory LexerBase
  imports Tokens LexText
begin

text \<open>
  The state of the lexer (\<open>Lexer\<close> in \<open>vbscript/lexer.go\<close>), its access to the source, its syntax errors and
  the skipping of white space, shared by the VBScript scanner and the ASP scanner. \<open>Code\<close>, \<open>runes\<close> and
  \<open>Length\<close> are the one list \<open>lx_chars\<close> of runes, which for ASCII source are its bytes; the builder \<open>sb\<close> is
  local to each scan. \<open>panic(l.vbSyntaxError(...))\<close> is the value \<open>Inl\<close>.
\<close>

section \<open>State\<close>

datatype LexerMode = ModeVBScript | ModeASP | ModeEval

datatype ASPBlockType = BlockTypeNone | BlockTypePercent | BlockTypeScript

record Lexer =
  lx_chars :: "rune list"
  lx_asciiOnly :: bool
  lx_Index :: nat
  lx_CurrentLine :: int
  lx_CurrentLineStart :: nat
  lx_Mode :: LexerMode
  lx_InASPBlock :: bool
  lx_BlockType :: ASPBlockType
  lx_defaultASPLanguage :: string
  lx_skipHTMLLeadingNL :: bool
  lx_preserveFormatting :: bool

text \<open>The parts of the library that need Unicode tables or the calendar: \<open>strings.ToLower\<close> and
  \<open>ToUpper\<close> beyond ASCII, and \<open>time.Parse\<close>.\<close>

record lex_env =
  le_lower :: "string \<Rightarrow> string"
  le_upper :: "string \<Rightarrow> string"
  le_time_Parse :: "string \<Rightarrow> string \<Rightarrow> gotime option"

definition Length :: "Lexer \<Rightarrow> nat" where "Length l = length (lx_chars l)"

definition isEof :: "Lexer \<Rightarrow> bool" where "isEof l \<longleftrightarrow> Length l \<le> lx_Index l"

definition getChar :: "Lexer \<Rightarrow> nat \<Rightarrow> rune" where
  "getChar l pos = (if pos < Length l then lx_chars l ! pos else 0)"

definition sliceString :: "Lexer \<Rightarrow> nat \<Rightarrow> nat \<Rightarrow> string" where
  "sliceString l start stop =
     (let stop = (if stop < start then start else stop); stop = min stop (Length l)
      in of_runes (take (stop - start) (drop start (lx_chars l))))"

definition LineIndex :: "Lexer \<Rightarrow> int" where
  "LineIndex l = int (lx_Index l) - int (lx_CurrentLineStart l)"

text \<open>The runes from a position on, and how many of them in a row satisfy \<open>p\<close>: every scanning loop
  stops at the first that does not, or at the end.\<close>

definition chars_from :: "Lexer \<Rightarrow> nat \<Rightarrow> rune list" where
  "chars_from l i = drop i (lx_chars l)"

definition span :: "(rune \<Rightarrow> bool) \<Rightarrow> Lexer \<Rightarrow> nat \<Rightarrow> nat" where
  "span p l i = length (takeWhile p (chars_from l i))"

definition set_Index :: "nat \<Rightarrow> Lexer \<Rightarrow> Lexer" where
  "set_Index i l = l\<lparr>lx_Index := i\<rparr>"

definition advance :: "nat \<Rightarrow> Lexer \<Rightarrow> Lexer" where
  "advance n l = set_Index (lx_Index l + n) l"

definition isASCIIString :: "string \<Rightarrow> bool" where "isASCIIString s \<longleftrightarrow> is_ascii s"

text \<open>A token that ends where the lexer stands.\<close>

definition token_at :: "Lexer \<Rightarrow> nat \<Rightarrow> token_kind \<Rightarrow> Token" where
  "token_at l start k = \<lparr>tk_Start = start, tk_End = lx_Index l, tk_LineNumber = lx_CurrentLine l,
     tk_LineStart = lx_CurrentLineStart l, tk_kind = k\<rparr>"

section \<open>Syntax errors\<close>

record VBSyntaxError =
  er_Code :: VBSyntaxErrorCode
  er_Line :: int
  er_Column :: int
  er_TokenText :: string
  er_LineText :: string
  er_ASPCode :: int
  er_ASPDescription :: string
  er_Category :: string
  er_Description :: string
  er_File :: string
  er_Number :: int
  er_Source :: string

definition normalizeVBScriptColumn :: "int \<Rightarrow> int" where
  "normalizeVBScriptColumn column = (if column < 0 then 0 else column + 1)"

definition NewVBSyntaxError :: "VBSyntaxErrorCode \<Rightarrow> int \<Rightarrow> int \<Rightarrow> string \<Rightarrow> string \<Rightarrow> VBSyntaxError" where
  "NewVBSyntaxError c line column tokenText lineText =
     (let description = error_String c
      in \<lparr>er_Code = c, er_Line = line, er_Column = normalizeVBScriptColumn column,
          er_TokenText = tokenText, er_LineText = lineText, er_ASPCode = c,
          er_ASPDescription = description, er_Category = ''VBScript compilation'',
          er_Description = description, er_File = [], er_Number = HRESULTFromVBScriptCode c,
          er_Source = ''VBScript compilation error''\<rparr>)"

definition currentLineText :: "Lexer \<Rightarrow> string" where
  "currentLineText l =
     (if Length l = 0 then []
      else let start = lx_CurrentLineStart l;
               stop = start + span (\<lambda>c. \<not> (c = 10 \<or> c = 13 \<or> c = 0)) l start
           in if start < Length l then sliceString l start stop else [])"

definition vbSyntaxError :: "Lexer \<Rightarrow> VBSyntaxErrorCode \<Rightarrow> VBSyntaxError" where
  "vbSyntaxError l c =
     (let r = getChar l (lx_Index l);
          tokenText = (if lx_Index l < Length l \<and> r \<noteq> 0 then of_runes [r] else [])
      in NewVBSyntaxError c (lx_CurrentLine l) (LineIndex l) tokenText (currentLineText l))"

text \<open>The text of an error (\<open>VBSyntaxError.Error\<close>).\<close>

definition newline :: string where "newline = [CHR 0x0A]"

definition VBSyntaxError_Error :: "VBSyntaxError \<Rightarrow> string" where
  "VBSyntaxError_Error e =
     er_Source e
     @ (if er_Code e \<noteq> 0 then '' '' @ [CHR 0x27] @ HRESULTHexFromVBScriptCode (er_Code e) @ [CHR 0x27] else [])
     @ (if trim_space (er_Description e) \<noteq> [] then newline @ er_Description e else [])
     @ newline @ ''Category: '' @ er_Category e @ newline @ ''Column: '' @ format_int (er_Column e)
     @ newline @ ''Description: '' @ er_Description e @ newline @ ''File: '' @ er_File e
     @ newline @ ''Line: '' @ format_int (er_Line e) @ newline @ ''Number: '' @ format_int (er_Number e)
     @ newline @ ''Source: '' @ er_Source e
     @ (if er_LineText e \<noteq> [] then newline @ newline @ er_LineText e else [])"

definition WithFile :: "string \<Rightarrow> VBSyntaxError \<Rightarrow> VBSyntaxError" where
  "WithFile file e = e\<lparr>er_File := trim_space file\<rparr>"

definition WithASPDescription :: "string \<Rightarrow> VBSyntaxError \<Rightarrow> VBSyntaxError" where
  "WithASPDescription description e =
     (let t = trim_space description in if t \<noteq> [] then e\<lparr>er_ASPDescription := t\<rparr> else e)"

type_synonym 'a lex = "VBSyntaxError + 'a"

section \<open>White space\<close>

definition skipWSOnly :: "Lexer \<Rightarrow> Lexer" where
  "skipWSOnly l = advance (span IsWhiteSpace l (lx_Index l)) l"

definition skipNewline :: "Lexer \<Rightarrow> Lexer" where
  "skipNewline l =
     (let c = getChar l (lx_Index l); l = advance 1 l
      in if IsNewLine c
         then let l = (if c = 13 \<and> getChar l (lx_Index l) = 10 then advance 1 l else l)
              in l\<lparr>lx_CurrentLine := lx_CurrentLine l + 1, lx_CurrentLineStart := lx_Index l\<rparr>
         else l)"

lemma span_bound: "lx_Index l \<le> Length l \<Longrightarrow> lx_Index l + span p l (lx_Index l) \<le> Length l"
  using length_takeWhile_le[of p "chars_from l (lx_Index l)"] by (simp add: span_def Length_def chars_from_def)

lemma chars_kept [simp]:
  "lx_chars (set_Index i l) = lx_chars l" "lx_chars (advance n l) = lx_chars l"
  "lx_chars (skipWSOnly l) = lx_chars l" "lx_chars (skipNewline l) = lx_chars l"
  by (simp_all add: set_Index_def advance_def skipWSOnly_def skipNewline_def Let_def)

lemma Length_kept [simp]:
  "Length (set_Index i l) = Length l" "Length (advance n l) = Length l"
  "Length (skipWSOnly l) = Length l" "Length (skipNewline l) = Length l"
  by (simp_all add: Length_def)

lemma index_simps [simp]:
  "lx_Index (set_Index i l) = i" "lx_Index (advance n l) = lx_Index l + n"
  by (simp_all add: set_Index_def advance_def)

lemma skipWSOnly_ge: "lx_Index l \<le> lx_Index (skipWSOnly l)"
  by (simp add: skipWSOnly_def)

lemma skipNewline_gt: "lx_Index l < lx_Index (skipNewline l)"
  by (simp add: skipNewline_def Let_def)

function skipWhitespaces :: "Lexer \<Rightarrow> Lexer lex" where
  "skipWhitespaces l =
     (if isEof l then Inr l
      else let l1 = skipWSOnly l
           in if getChar l1 (lx_Index l1) \<noteq> 95 then Inr l1
              else let l2 = skipWSOnly (advance 1 l1)
                   in if \<not> IsNewLine (getChar l2 (lx_Index l2)) then Inl (vbSyntaxError l2 InvalidCharacter)
                      else skipWhitespaces (skipNewline l2))"
  by pat_completeness auto
termination
proof (relation "measure (\<lambda>l. Length l - lx_Index l)", goal_cases)
  case (2 l l1 l2)
  have "lx_Index l < lx_Index (skipNewline l2)"
    using skipWSOnly_ge[of l] skipWSOnly_ge[of "advance 1 l1"] skipNewline_gt[of l2] 2 by simp
  then show ?case using 2 by (simp add: isEof_def)
qed simp

declare skipWhitespaces.simps [simp del]

end
