(* ===== verification/LexerVB.thy ===== *)
theory LexerVB
  imports LexerBase
begin

text \<open>
  The VBScript scanner (\<open>nextIdentifier\<close>, \<open>nextStringLiteral\<close>, \<open>nextNumericLiteral\<close>, \<open>nextDateLiteral\<close>,
  \<open>nextComment\<close>, \<open>nextLineTermination\<close>, \<open>nextPunctuation\<close> and their helpers in \<open>vbscript/lexer.go\<close>, \<open>GetDate\<close> in
  \<open>lexerutils.go\<close>). Each function returns the token and the lexer behind it, or the syntax error.
\<close>

section \<open>Identifiers\<close>

definition nextExtendedIdentifier :: "Lexer \<Rightarrow> (Token \<times> Lexer) lex" where
  "nextExtendedIdentifier l =
     (let start = lx_Index l; nameStart = start + 1;
          n = span (\<lambda>c. \<not> (c = 93 \<or> IsNewLine c \<or> c = 0)) l nameStart;
          l1 = advance (1 + n) l
      in if getChar l1 (lx_Index l1) \<noteq> 93 then Inl (vbSyntaxError l1 ExpectedRBracket)
         else let name = sliceString l1 nameStart (lx_Index l1); l2 = advance 1 l1
              in Inr (token_at l2 start (IdentifierToken name), l2))"

definition getIdentifierName :: "Lexer \<Rightarrow> string \<times> Lexer" where
  "getIdentifierName l =
     (let l' = advance (span IsIdentifier l (lx_Index l)) l in (sliceString l (lx_Index l) (lx_Index l'), l'))"

definition CIEquals :: "string \<Rightarrow> string \<Rightarrow> bool" where "CIEquals s t \<longleftrightarrow> equal_fold s t"

definition identifier_kind :: "lex_env \<Rightarrow> string \<Rightarrow> token_kind" where
  "identifier_kind E i =
     (if CIEquals i ''true'' then TrueLiteralToken
      else if CIEquals i ''null'' then NullLiteralToken
      else if CIEquals i ''false'' then FalseLiteralToken
      else if CIEquals i ''empty'' then EmptyLiteralToken
      else if CIEquals i ''nothing'' then NothingLiteralToken
      else case GetKeyword (le_lower E) i of
             Some kw \<Rightarrow> KeywordToken kw i
           | None \<Rightarrow> (case GetKeywordAsIdentifier (le_lower E) i of
                 Some kw \<Rightarrow> KeywordOrIdentifierToken kw i
               | None \<Rightarrow> IdentifierToken i))"

definition nextIdentifier :: "lex_env \<Rightarrow> Lexer \<Rightarrow> Token \<times> Lexer" where
  "nextIdentifier E l =
     (let (i, l') = getIdentifierName l in (token_at l' (lx_Index l) (identifier_kind E i), l'))"

section \<open>Strings\<close>

text \<open>The loop of the slow path over the runes after the opening quote: the text, how many runes it
  consumed, and whether the string is unterminated.\<close>

fun scan_string :: "rune list \<Rightarrow> rune list \<times> nat \<times> bool" where
  "scan_string [] = ([], 0, True)"
| "scan_string (c # r) =
     (if c = 34 then
        (case r of
           d # r' \<Rightarrow> (if d = 34 then (case scan_string r' of (t, n, e) \<Rightarrow> (34 # t, n + 2, e)) else ([], 1, False))
         | [] \<Rightarrow> ([], 1, False))
      else if IsNewLine c then ([], 0, True)
      else (case scan_string r of (t, n, e) \<Rightarrow> (c # t, n + 1, e)))"

definition string_token :: "Lexer \<Rightarrow> nat \<Rightarrow> string \<Rightarrow> Token" where
  "string_token l start v = (token_at l start (StringLiteralToken v))\<lparr>tk_End := lx_Index l - 1\<rparr>"

definition string_slow_path :: "Lexer \<Rightarrow> (Token \<times> Lexer) lex" where
  "string_slow_path l =
     (case scan_string (chars_from l (lx_Index l + 1)) of (t, n, e) \<Rightarrow>
        let l' = advance (1 + n) l
        in if e then Inl (vbSyntaxError l' UnterminatedStringConstant)
           else Inr (string_token l' (lx_Index l) (of_runes t), l'))"

text \<open>The scan of the ASCII source for the closing quote, with the two reasons to fall back.\<close>

definition nextStringLiteral :: "Lexer \<Rightarrow> (Token \<times> Lexer) lex" where
  "nextStringLiteral l =
     (if lx_asciiOnly l then
        (let contentStart = lx_Index l + 1;
             i = contentStart + span (\<lambda>b. \<not> (b = 34 \<or> b = 13 \<or> b = 10)) l contentStart
         in if Length l \<le> i then string_slow_path l
            else if lx_chars l ! i = 34 then
              (if i + 1 < Length l \<and> lx_chars l ! (i + 1) = 34 then string_slow_path l
               else let l' = set_Index (i + 1) l
                    in Inr (string_token l' (lx_Index l) (of_runes (take (i - contentStart) (chars_from l contentStart))), l'))
            else string_slow_path l)
      else string_slow_path l)"

section \<open>Numbers\<close>

definition getStrByPredicate :: "(rune \<Rightarrow> bool) \<Rightarrow> Lexer \<Rightarrow> string \<times> Lexer" where
  "getStrByPredicate p l =
     (let l' = advance (span p l (lx_Index l)) l in (sliceString l (lx_Index l) (lx_Index l'), l'))"

definition getDecStr :: "Lexer \<Rightarrow> string \<times> Lexer" where "getDecStr = getStrByPredicate IsDecDigit"
definition getOctStr :: "Lexer \<Rightarrow> string \<times> Lexer" where "getOctStr = getStrByPredicate IsOctDigit"
definition getHexStr :: "Lexer \<Rightarrow> string \<times> Lexer" where "getHexStr = getStrByPredicate IsHexDigit"

text \<open>\<open>strconv.ParseInt(s, base, 64)\<close> of a string of digits.\<close>

definition parse_int_base :: "nat \<Rightarrow> string \<Rightarrow> nat option" where
  "parse_int_base b s =
     (if s = [] then None
      else case parse_base_digits b 0 s of Some n \<Rightarrow> (if n < 2 ^ 63 then Some n else None) | None \<Rightarrow> None)"

definition integer_kind :: "nat \<Rightarrow> i64 \<Rightarrow> token_kind" where
  "integer_kind base v =
     (if base = 8 then OctIntegerLiteralToken v else if base = 16 then HexIntegerLiteralToken v
      else DecIntegerLiteralToken v)"

text \<open>The token starts where the caller says (\<open>SetStart\<close>).\<close>

definition parseInteger :: "string \<Rightarrow> nat \<Rightarrow> nat \<Rightarrow> Lexer \<Rightarrow> Token lex" where
  "parseInteger s base start l =
     (case parse_int_base base s of
        Some n \<Rightarrow> Inr (token_at l start (integer_kind base (word_of_nat n)))
      | None \<Rightarrow>
        if base = 8 \<or> base = 16 then Inl (vbSyntaxError l SyntaxError)
        else case parse_float s of
               Some x \<Rightarrow> Inr (token_at l start (FloatLiteralToken x))
             | None \<Rightarrow> Inl (vbSyntaxError l InvalidNumber))"

definition finish_integer :: "string \<Rightarrow> nat \<Rightarrow> nat \<Rightarrow> Lexer \<Rightarrow> (Token \<times> Lexer) lex" where
  "finish_integer s base start l = map_sum id (\<lambda>t. (t, l)) (parseInteger s base start l)"

definition octal_rest :: "nat \<Rightarrow> Lexer \<Rightarrow> (Token \<times> Lexer) lex" where
  "octal_rest start l =
     (case getOctStr l of (s, l) \<Rightarrow>
        let c = getChar l (lx_Index l)
        in if IsDecDigit c \<and> \<not> IsOctDigit c then Inl (vbSyntaxError l SyntaxError)
           else if IsIdentifierStart c then Inl (vbSyntaxError l ExpectedEndOfStatement)
           else finish_integer s 8 start l)"

definition nextOctIntLiteralPrefix :: "Lexer \<Rightarrow> (Token \<times> Lexer) lex" where
  "nextOctIntLiteralPrefix l = octal_rest (lx_Index l) (advance 2 l)"

definition nextOctIntLiteral :: "Lexer \<Rightarrow> (Token \<times> Lexer) lex" where
  "nextOctIntLiteral l = octal_rest (lx_Index l) (advance 1 l)"

definition nextHexIntLiteral :: "Lexer \<Rightarrow> (Token \<times> Lexer) lex" where
  "nextHexIntLiteral l =
     (case getHexStr (advance 2 l) of (s, l') \<Rightarrow>
        if IsIdentifierStart (getChar l' (lx_Index l')) then Inl (vbSyntaxError l' ExpectedEndOfStatement)
        else finish_integer s 16 (lx_Index l) l')"

text \<open>The optional fraction and the optional exponent: the text of \<open>fstr\<close> and the lexer behind it.\<close>

definition scan_fraction :: "Lexer \<Rightarrow> string \<times> Lexer" where
  "scan_fraction l =
     (if getChar l (lx_Index l) = 46
      then (case getDecStr (advance 1 l) of (ds, l') \<Rightarrow> (CHR ''.'' # ds, l'))
      else ([], l))"

definition scan_exponent :: "string \<Rightarrow> Lexer \<Rightarrow> (string \<times> Lexer) lex" where
  "scan_exponent f l =
     (if CharEquals (getChar l (lx_Index l)) 101 then
        (let c = getChar l (lx_Index l + 1); l1 = advance 1 l;
             (f1, l2) = (if c = 43 \<or> c = 45 then (f @ ''e'' @ of_runes [c], advance 1 l1) else (f @ ''e'', l1))
         in if IsDecDigit (getChar l2 (lx_Index l2))
            then (case getDecStr l2 of (ds, l3) \<Rightarrow> Inr (f1 @ ds, l3))
            else Inl (vbSyntaxError l2 InvalidNumber))
      else Inr (f, l))"

definition decimal_rest :: "nat \<Rightarrow> string \<Rightarrow> Lexer \<Rightarrow> (Token \<times> Lexer) lex" where
  "decimal_rest start decStr l =
     (case scan_fraction l of (f, l1) \<Rightarrow>
      case scan_exponent f l1 of
        Inl e \<Rightarrow> Inl e
      | Inr (fstr, l2) \<Rightarrow>
        if IsIdentifierStart (getChar l2 (lx_Index l2)) then Inl (vbSyntaxError l2 ExpectedEndOfStatement)
        else let floatStr = (if fstr \<noteq> [] \<and> decStr \<noteq> [] then decStr @ fstr else fstr)
             in if floatStr \<noteq> []
                then (case parse_float floatStr of
                        None \<Rightarrow> Inl (vbSyntaxError l2 InvalidNumber)
                      | Some x \<Rightarrow> Inr (token_at l2 start (FloatLiteralToken x), l2))
                else finish_integer decStr 10 start l2)"

definition nextNumericLiteral :: "Lexer \<Rightarrow> (Token \<times> Lexer) lex" where
  "nextNumericLiteral l =
     (let start = lx_Index l; c = getChar l start; next = getChar l (start + 1)
      in if c = 46 then decimal_rest start [] l
         else if c = 38 then
           (if CharEquals next 104 then nextHexIntLiteral l
            else if CharEquals next 111 then nextOctIntLiteralPrefix l
            else if IsOctDigit next then nextOctIntLiteral l
            else Inl (vbSyntaxError l SyntaxError))
         else (case getDecStr l of (decStr, l1) \<Rightarrow>
                 if IsIdentifierStart (getChar l1 (lx_Index l1)) then Inl (vbSyntaxError l1 ExpectedEndOfStatement)
                 else decimal_rest start decStr l1))"

section \<open>Dates\<close>

text \<open>The layouts \<open>GetDate\<close> tries, in order; the last two are \<open>time.RFC3339\<close> and \<open>RFC3339Nano\<close>.\<close>

definition date_formats :: "string list" where
  "date_formats =
     [''1/2/2006'', ''1/2/06'', ''2006-1-2'', ''2006-01-02'', ''01/02/2006'', ''1/2/2006 3:04:05 PM'',
      ''1/2/2006 3:04 PM'', ''1/2/2006 15:04:05'', ''1/2/2006 15:04'', ''1/2/06 3:04:05 PM'', ''1/2/06 3:04 PM'',
      ''1/2/06 15:04:05'', ''1/2/06 15:04'', ''2006-1-2 15:04:05'', ''2006-1-2 15:04'', ''2006-01-02 15:04:05'',
      ''2006-01-02 15:04'', ''3:04:05 PM'', ''3:04 PM'', ''15:04:05'', ''15:04'', ''Jan 2, 2006'', ''2 Jan 2006'',
      ''Jan 2 2006'', ''2-Jan-2006'', ''2-Jan-06'', ''Jan 2, 2006 3:04:05 PM'', ''Jan 2, 2006 15:04:05'',
      ''2-Jan-2006 15:04:05'', ''2-Jan-2006 3:04:05 PM'', ''2006-01-02T15:04:05Z07:00'',
      ''2006-01-02T15:04:05.999999999Z07:00'']"

text \<open>A space before \<open>PM\<close>, or else before \<open>AM\<close>, where one is missing; the position is found in the
  upper-cased text.\<close>

definition needs_space :: "lex_env \<Rightarrow> string \<Rightarrow> string \<Rightarrow> nat option" where
  "needs_space E marker s =
     (case str_index marker (le_upper E s) of
        Some i \<Rightarrow> (if 0 < i \<and> i \<le> length s \<and> s ! (i - 1) \<noteq> CHR '' '' then Some i else None)
      | None \<Rightarrow> None)"

definition space_meridiem :: "lex_env \<Rightarrow> string \<Rightarrow> string" where
  "space_meridiem E s =
     (case needs_space E ''PM'' s of
        Some i \<Rightarrow> take i s @ '' '' @ drop i s
      | None \<Rightarrow> (case needs_space E ''AM'' s of Some i \<Rightarrow> take i s @ '' '' @ drop i s | None \<Rightarrow> s))"

definition normalize_date :: "lex_env \<Rightarrow> string \<Rightarrow> string" where
  "normalize_date E s0 =
     (let s = trim_space s0;
          s = replace_all '' / '' ''/'' s; s = replace_all '' /'' ''/'' s; s = replace_all ''/ '' ''/'' s;
          s = replace_all '' - '' ''-'' s; s = replace_all '' -'' ''-'' s; s = replace_all ''- '' ''-'' s
      in collapse_spaces (space_meridiem E s))"

text \<open>A time of day alone parses to year 0 and is moved to VBScript's day zero.\<close>

definition day_zero :: "gotime \<Rightarrow> gotime" where
  "day_zero t = (if tm_Year t = 0 then t\<lparr>tm_Year := 1899, tm_Month := 12, tm_Day := 30\<rparr> else t)"

fun first_parse :: "lex_env \<Rightarrow> string list \<Rightarrow> string \<Rightarrow> gotime option" where
  "first_parse E [] s = None"
| "first_parse E (f # fs) s = (case le_time_Parse E f s of Some t \<Rightarrow> Some t | None \<Rightarrow> first_parse E fs s)"

definition GetDate :: "lex_env \<Rightarrow> string \<Rightarrow> gotime option" where
  "GetDate E s0 =
     (let s = normalize_date E s0
      in case first_parse E date_formats s of
           Some t \<Rightarrow> Some (day_zero t)
         | None \<Rightarrow> map_option day_zero (le_time_Parse E ''2006-01-02T15:04:05Z07:00'' s))"

definition nextDateLiteral :: "lex_env \<Rightarrow> Lexer \<Rightarrow> (Token \<times> Lexer) lex" where
  "nextDateLiteral E l =
     (let start = lx_Index l;
          n = span (\<lambda>c. \<not> (c = 35 \<or> IsNewLine c)) l (start + 1);
          text = of_runes (take n (chars_from l (start + 1)));
          l1 = advance (1 + n) l
      in if getChar l1 (lx_Index l1) \<noteq> 35 \<or> n = 0
         then let l2 = set_Index (start + 1) l in Inr (token_at l2 start (PunctuationToken PunctHash), l2)
         else case GetDate E (trim_space text) of
                None \<Rightarrow> Inl (vbSyntaxError l1 SyntaxError)
              | Some t \<Rightarrow> let l2 = advance 1 l1 in Inr (token_at l2 start (DateLiteralToken t), l2))"

section \<open>Comments\<close>

definition nextCommentBody :: "nat \<Rightarrow> bool \<Rightarrow> Lexer \<Rightarrow> Token \<times> Lexer" where
  "nextCommentBody offset isRem l =
     (let start = lx_Index l - offset;
          inBlock = (lx_Mode l = ModeASP \<and> lx_InASPBlock l \<and> lx_BlockType l = BlockTypePercent);
          r = chars_from l (lx_Index l);
          n = (if inBlock
               then length (takeWhile (\<lambda>i. \<not> (r ! i = 37 \<and> i + 1 < length r \<and> r ! (i + 1) = 62) \<and> \<not> IsNewLine (r ! i)) [0..<length r])
               else length (takeWhile (\<lambda>c. \<not> IsNewLine c) r));
          l' = advance n l
      in (token_at l' start (CommentToken (of_runes (take n r)) isRem), l'))"

definition nextComment :: "Lexer \<Rightarrow> (Token \<times> Lexer) option" where
  "nextComment l =
     (let i = lx_Index l; c = getChar l i
      in if isEof l then None
         else if c = 39 then Some (nextCommentBody 1 False (advance 1 l))
         else if CharEquals c 114 \<and> CharEquals (getChar l (i + 1)) 101 \<and> CharEquals (getChar l (i + 2)) 109
                 \<and> IsWhiteSpace (getChar l (i + 3))
           then Some (nextCommentBody 3 True (advance 3 l))
         else None)"

section \<open>Line ends\<close>

lemma skipWhitespaces_ge:
  "skipWhitespaces l = Inr l' \<Longrightarrow> lx_Index l \<le> lx_Index l' \<and> lx_chars l' = lx_chars l"
proof (induction l rule: skipWhitespaces.induct)
  case (1 l)
  let ?l1 = "skipWSOnly l"
  let ?l2 = "skipWSOnly (advance 1 ?l1)"
  have g: "lx_Index l \<le> lx_Index ?l1" "lx_Index ?l1 \<le> lx_Index ?l2" "lx_Index ?l2 \<le> lx_Index (skipNewline ?l2)"
    using skipWSOnly_ge[of l] skipWSOnly_ge[of "advance 1 ?l1"] skipNewline_gt[of ?l2] by simp_all
  show ?case
    using 1(2) g 1(1)[OF _ refl _ refl]
    by (subst (asm) skipWhitespaces.simps) (fastforce simp: Let_def split: if_splits)
qed

definition line_end :: "Lexer \<Rightarrow> Lexer" where
  "line_end l =
     (let c = getChar l (lx_Index l);
          l = advance (if c = 13 \<and> getChar l (lx_Index l + 1) = 10 then 2 else 1) l
      in if c \<noteq> 58 then l\<lparr>lx_CurrentLine := lx_CurrentLine l + 1, lx_CurrentLineStart := lx_Index l\<rparr> else l)"

lemma line_end_simps [simp]: "lx_chars (line_end l) = lx_chars l" "lx_Index l < lx_Index (line_end l)"
  by (simp_all add: line_end_def Let_def)

function line_ends :: "Lexer \<Rightarrow> bool \<Rightarrow> (Lexer \<times> bool) lex" where
  "line_ends l isColon =
     (if isEof l \<or> \<not> IsLineTerminator (getChar l (lx_Index l)) then Inr (l, isColon)
      else case skipWhitespaces (line_end l) of
             Inl e \<Rightarrow> Inl e
           | Inr l' \<Rightarrow> line_ends l' (isColon \<or> getChar l (lx_Index l) = 58))"
  by pat_completeness auto
termination
  by (relation "measure (\<lambda>(l, b). Length l - lx_Index l)")
     (auto simp: isEof_def Length_def dest!: skipWhitespaces_ge intro!: diff_less_mono2
       intro: less_le_trans[OF line_end_simps(2)])

declare line_ends.simps [simp del]

definition nextLineTermination :: "Lexer \<Rightarrow> (Token \<times> Lexer) lex" where
  "nextLineTermination l =
     (case line_ends l False of
        Inl e \<Rightarrow> Inl e
      | Inr (l', isColon) \<Rightarrow>
        let t = token_at l' (lx_Index l) (if isColon then ColonLineTerminationToken else LineTerminationToken)
        in Inr (t\<lparr>tk_LineNumber := (if isColon then lx_CurrentLine l else lx_CurrentLine l' - 1)\<rparr>, l'))"

section \<open>Punctuation\<close>

definition is_blank :: "rune \<Rightarrow> bool" where "is_blank c \<longleftrightarrow> c = 32 \<or> c = 9"

definition getNextNonWhitespaceChar :: "Lexer \<Rightarrow> nat \<Rightarrow> rune" where
  "getNextNonWhitespaceChar l pos = getChar l (pos + span is_blank l pos)"

text \<open>The punctuation at the index and the position of its last rune.\<close>

definition compare_punct ::
    "Lexer \<Rightarrow> Punctuation \<Rightarrow> Punctuation \<Rightarrow> Punctuation \<times> nat" where
  "compare_punct l alone or_equal =
     (let i = lx_Index l
      in if getNextNonWhitespaceChar l (i + 1) = 61 then (or_equal, i + 1 + span is_blank l (i + 1))
         else (alone, i))"

definition punctuation_at :: "Lexer \<Rightarrow> (Punctuation \<times> nat) option" where
  "punctuation_at l =
     (let i = lx_Index l; c = getChar l i; next = getChar l (i + 1)
      in if c = 40 then Some (PunctLParen, i)
         else if c = 41 then Some (PunctRParen, i)
         else if c = 46 then Some (PunctDot, i)
         else if c = 44 then Some (PunctComma, i)
         else if c = 43 then Some (PunctPlus, i)
         else if c = 45 then Some (PunctMinus, i)
         else if c = 47 then Some (PunctSlash, i)
         else if c = 92 then Some (PunctBackslash, i)
         else if c = 42 then Some (PunctStar, i)
         else if c = 38 then Some (PunctAmp, i)
         else if c = 94 then Some (PunctExp, i)
         else if c = 35 then Some (PunctHash, i)
         else if c = 61 then
           (if next = 60 then Some (PunctLessOrEqual, i + 1)
            else if next = 62 then Some (PunctGreaterOrEqual, i + 1)
            else Some (PunctEqual, i))
         else if c = 60 then
           (if next = 60 then Some (PunctShiftLeft, i + 1)
            else if next = 61 then Some (PunctLessOrEqual, i + 1)
            else if next = 62 then Some (PunctNotEqual, i + 1)
            else Some (compare_punct l PunctLess PunctLessOrEqual))
         else if c = 62 then
           (if next = 62 then Some (PunctShiftRight, i + 1)
            else if next = 61 then Some (PunctGreaterOrEqual, i + 1)
            else if next = 60 then Some (PunctNotEqual, i + 1)
            else Some (compare_punct l PunctGreater PunctGreaterOrEqual))
         else None)"

definition nextPunctuation :: "Lexer \<Rightarrow> (Token \<times> Lexer) lex" where
  "nextPunctuation l =
     (case punctuation_at l of
        None \<Rightarrow> Inl (vbSyntaxError l InvalidCharacter)
      | Some (p, lastPos) \<Rightarrow> let l' = set_Index (lastPos + 1) l in Inr (token_at l' (lx_Index l) (PunctuationToken p), l'))"

end
