(* ===== verification/LexerASP.thy ===== *)
theory LexerASP
  imports LexerBase
begin

text \<open>
  The scanner of ASP pages outside code blocks (\<open>nextHTML\<close> and its helpers in \<open>vbscript/lexer.go\<close>): HTML
  text, \<open><%\<close> blocks, server-side \<open><script>\<close> and \<open><object>\<close> tags, includes, and the line breaks around them.
\<close>

section \<open>Attributes\<close>

text \<open>\<open>extractDirectiveLanguageValue\<close> and \<open>extractScriptLanguageValue\<close> have the same body. The
  position is found in the lower-cased text.\<close>

definition quoted_or_bare :: "string \<Rightarrow> string \<Rightarrow> string option" where
  "quoted_or_bare stops rest =
     (case rest of
        [] \<Rightarrow> None
      | q # r \<Rightarrow>
        if q = CHR 0x27 \<or> q = CHR 0x22 then map_option (\<lambda>n. take n r) (index_any [q] r)
        else case index_any stops rest of None \<Rightarrow> Some rest | Some n \<Rightarrow> Some (take n rest))"

definition extract_language :: "lex_env \<Rightarrow> string \<Rightarrow> string option" where
  "extract_language E attr =
     (case str_index ''language'' (to_lower (le_lower E) attr) of
        None \<Rightarrow> None
      | Some idx \<Rightarrow>
        (case trim_space (drop (idx + 8) attr) of
           c # rest \<Rightarrow> (if c = CHR ''='' then quoted_or_bare [CHR '' '', CHR 0x09, CHR 0x0D, CHR 0x0A, CHR ''>''] (trim_space rest) else None)
         | [] \<Rightarrow> None))"

definition extractDirectiveLanguageValue :: "lex_env \<Rightarrow> string \<Rightarrow> string option" where
  "extractDirectiveLanguageValue = extract_language"

definition extractScriptLanguageValue :: "lex_env \<Rightarrow> string \<Rightarrow> string option" where
  "extractScriptLanguageValue = extract_language"

definition quoted :: "char \<Rightarrow> string \<Rightarrow> string" where "quoted q s = q # s @ [q]"

definition runs_at_server :: "string \<Rightarrow> bool" where
  "runs_at_server attrLower \<longleftrightarrow> str_contains attrLower (''runat='' @ quoted (CHR 0x22) ''server'')
     \<or> str_contains attrLower ''runat=server'' \<or> str_contains attrLower (''runat='' @ quoted (CHR 0x27) ''server'')"

section \<open>Recognising tags\<close>

text \<open>The position of the \<open>>\<close> that ends the tag that starts at the index and is seven runes long
  without its attributes, and the attributes.\<close>

definition tag_end :: "Lexer \<Rightarrow> string \<Rightarrow> (nat \<times> string) option" where
  "tag_end l name =
     (let i = lx_Index l
      in if getChar l i \<noteq> 60 then None
         else if \<not> equal_fold (sliceString l i (i + 7)) name then None
         else let e = i + 7 + span (\<lambda>c. c \<noteq> 62) l (i + 7)
              in if e < Length l then Some (e, sliceString l (i + 7) e) else None)"

definition isScriptServerStart :: "lex_env \<Rightarrow> Lexer \<Rightarrow> (nat \<times> string) option" where
  "isScriptServerStart E l =
     (case tag_end l ''<script'' of
        None \<Rightarrow> None
      | Some (e, attr) \<Rightarrow>
        if \<not> runs_at_server (to_lower (le_lower E) attr) then None
        else Some (e - lx_Index l + 1,
               case extractScriptLanguageValue E attr of
                 Some v \<Rightarrow> to_lower (le_lower E) (trim_space v) | None \<Rightarrow> ''vbscript''))"

text \<open>The states of the search for \<open></script>\<close>: \<open>Quoted q esc\<close> is inside quotes \<open>q\<close>.\<close>

datatype script_state = Plain | LineComment | BlockComment | Quoted rune bool

definition head_or_0 :: "rune list \<Rightarrow> rune" where
  "head_or_0 r = (case r of [] \<Rightarrow> 0 | c # _ \<Rightarrow> c)"

fun script_end :: "script_state \<Rightarrow> rune list \<Rightarrow> nat \<Rightarrow> nat option" where
  "script_end st [] i = None"
| "script_end st (c # r) i =
     (let next = head_or_0 r
      in case st of
           LineComment \<Rightarrow> script_end (if c = 13 \<or> c = 10 then Plain else LineComment) r (i + 1)
         | BlockComment \<Rightarrow>
             (if c = 42 \<and> next = 47 then script_end Plain (tl r) (i + 2) else script_end BlockComment r (i + 1))
         | Quoted q esc \<Rightarrow>
             (if esc then script_end (Quoted q False) r (i + 1)
              else if c = 92 then script_end (Quoted q True) r (i + 1)
              else if c = q then script_end Plain r (i + 1)
              else script_end (Quoted q False) r (i + 1))
         | Plain \<Rightarrow>
             (if c = 47 \<and> next = 47 then script_end LineComment (tl r) (i + 2)
              else if c = 47 \<and> next = 42 then script_end BlockComment (tl r) (i + 2)
              else if c = 39 \<or> c = 34 \<or> c = 96 then script_end (Quoted c False) r (i + 1)
              else if c = 60 \<and> next = 47 \<and> equal_fold (of_runes (take 9 (c # r))) ''</script>'' then Some i
              else script_end Plain r (i + 1)))"

definition findScriptEndFrom :: "Lexer \<Rightarrow> nat \<Rightarrow> (nat \<times> nat) option" where
  "findScriptEndFrom l start = map_option (\<lambda>i. (i, i + 9)) (script_end Plain (chars_from l start) start)"

fun percent_end :: "rune list \<Rightarrow> nat \<Rightarrow> nat option" where
  "percent_end [] i = None"
| "percent_end (c # r) i = (if c = 37 \<and> head_or_0 r = 62 then Some i else percent_end r (i + 1))"

definition findASPPercentEndFrom :: "Lexer \<Rightarrow> nat \<Rightarrow> (nat \<times> nat) option" where
  "findASPPercentEndFrom l start = map_option (\<lambda>i. (i, i + 2)) (percent_end (chars_from l start) start)"

text \<open>One attribute of an \<open><object>\<close> tag, \<open>[]\<close> when it has none.\<close>

definition object_attr :: "string \<Rightarrow> string \<Rightarrow> string \<Rightarrow> string" where
  "object_attr attrLower attrStr key =
     (case str_index key attrLower of
        None \<Rightarrow> []
      | Some idx \<Rightarrow>
        (let sub = drop (idx + length key) attrStr
         in case str_index ''='' sub of
              None \<Rightarrow> []
            | Some e \<Rightarrow> (case quoted_or_bare '' >'' (trim_space (drop (e + 1) sub)) of Some v \<Rightarrow> v | None \<Rightarrow> [])))"

fun object_close :: "rune list \<Rightarrow> nat \<Rightarrow> nat option" where
  "object_close [] i = None"
| "object_close (c # r) i =
     (if c = 60 \<and> head_or_0 r = 47 \<and> equal_fold (of_runes (take 9 (c # r))) ''</object>'' then Some i
      else object_close r (i + 1))"

text \<open>The length of the tag and the token with its attributes.\<close>

definition isObjectStart :: "lex_env \<Rightarrow> Lexer \<Rightarrow> (nat \<times> token_kind) option" where
  "isObjectStart E l =
     (case tag_end l ''<object'' of
        None \<Rightarrow> None
      | Some (e, attrStr) \<Rightarrow>
        (let attrLower = to_lower (le_lower E) attrStr; attr = object_attr attrLower attrStr
         in if \<not> runs_at_server attrLower then None
            else let k = ASPObjectToken (attr ''scope'') (attr ''id'') (attr ''progid'') (attr ''classid'')
                 in case object_close (chars_from l (e + 1)) (e + 1) of
                      Some j \<Rightarrow> Some (j - lx_Index l + 9, k)
                    | None \<Rightarrow> Some (e - lx_Index l + 1, k)))"

definition isScriptEnd :: "Lexer \<Rightarrow> nat option" where
  "isScriptEnd l =
     (let i = lx_Index l
      in if getChar l i \<noteq> 60 \<or> getChar l (i + 1) \<noteq> 47 then None
         else if equal_fold (sliceString l i (i + 9)) ''</script>'' then Some 9 else None)"

text \<open>The text between the first two quotes \<open>q\<close>; \<open>None\<close> when there is no quote.\<close>

definition between :: "char \<Rightarrow> string \<Rightarrow> string option" where
  "between q s =
     (case index_any [q] s of
        None \<Rightarrow> None
      | Some a \<Rightarrow> (let r = drop (a + 1) s in case index_any [q] r of Some b \<Rightarrow> Some (take b r) | None \<Rightarrow> Some []))"

fun comment_end :: "rune list \<Rightarrow> nat \<Rightarrow> nat option" where
  "comment_end [] i = None"
| "comment_end (c # r) i =
     (if c = 45 \<and> head_or_0 r = 45 \<and> head_or_0 (tl r) = 62 then Some i else comment_end r (i + 1))"

definition isIncludeStart :: "lex_env \<Rightarrow> Lexer \<Rightarrow> (nat \<times> string \<times> bool) option" where
  "isIncludeStart E l =
     (let i = lx_Index l
      in if getChar l i \<noteq> 60 \<or> getChar l (i + 1) \<noteq> 33 \<or> getChar l (i + 2) \<noteq> 45 \<or> getChar l (i + 3) \<noteq> 45
            \<or> getChar l (i + 4) \<noteq> 35 then None
         else if \<not> equal_fold (sliceString l i (i + 13)) ''<!--#include '' then None
         else case comment_end (chars_from l (i + 13)) (i + 13) of
                None \<Rightarrow> None
              | Some e \<Rightarrow>
                (let content = sliceString l (i + 13) e;
                     virtual = str_contains (to_lower (le_lower E) content) ''virtual'';
                     path = (case between (CHR 0x22) content of
                               Some p \<Rightarrow> p
                             | None \<Rightarrow> (case between (CHR 0x27) content of Some p \<Rightarrow> p | None \<Rightarrow> []))
                 in Some (e - i + 3, path, virtual)))"

section \<open>Moving over blocks and line breaks\<close>

function advance_to :: "nat \<Rightarrow> Lexer \<Rightarrow> Lexer" where
  "advance_to target l =
     (if target \<le> lx_Index l then l
      else let ch = getChar l (lx_Index l); l1 = advance 1 l
           in if ch = 13 then
                let l2 = (if getChar l1 (lx_Index l1) = 10 then advance 1 l1 else l1)
                in advance_to target (l2\<lparr>lx_CurrentLine := lx_CurrentLine l2 + 1, lx_CurrentLineStart := lx_Index l2\<rparr>)
              else if ch = 10 then
                advance_to target (l1\<lparr>lx_CurrentLine := lx_CurrentLine l1 + 1, lx_CurrentLineStart := lx_Index l1\<rparr>)
              else advance_to target l1)"
  by pat_completeness auto
termination
  by (relation "measure (\<lambda>(t, l). t - lx_Index l)") (auto simp: Let_def)

declare advance_to.simps [simp del]

definition advanceIndexWithLineTracking :: "nat \<Rightarrow> Lexer \<Rightarrow> Lexer" where
  "advanceIndexWithLineTracking target l =
     (if target \<le> lx_Index l then l else advance_to (min target (Length l)) l)"

text \<open>Spaces, tabs and line breaks from a position on: the position behind them, the line, its start.\<close>

fun skip_blank :: "rune list \<Rightarrow> nat \<Rightarrow> int \<Rightarrow> nat \<Rightarrow> nat \<times> int \<times> nat" where
  "skip_blank [] i line start = (i, line, start)"
| "skip_blank (c # r) i line start =
     (if c = 32 \<or> c = 9 then skip_blank r (i + 1) line start
      else if c = 13 then
        (if head_or_0 r = 10 then skip_blank (tl r) (i + 2) (line + 1) (i + 2)
         else skip_blank r (i + 1) (line + 1) (i + 1))
      else if c = 10 then skip_blank r (i + 1) (line + 1) (i + 1)
      else (i, line, start))"

definition startsServerDelimiterAt :: "lex_env \<Rightarrow> nat \<Rightarrow> Lexer \<Rightarrow> bool" where
  "startsServerDelimiterAt E pos l \<longleftrightarrow>
     (getChar l pos = 60 \<and> getChar l (pos + 1) = 37) \<or> getChar l pos = 0
   \<or> isScriptServerStart E (set_Index pos l) \<noteq> None \<or> isIncludeStart E (set_Index pos l) \<noteq> None
   \<or> isObjectStart E (set_Index pos l) \<noteq> None"

definition consumeASPPostBlockLineBreak :: "lex_env \<Rightarrow> Lexer \<Rightarrow> Lexer" where
  "consumeASPPostBlockLineBreak E l =
     (if \<not> lx_skipHTMLLeadingNL l then l
      else case skip_blank (chars_from l (lx_Index l)) (lx_Index l) (lx_CurrentLine l) (lx_CurrentLineStart l) of
        (i, line, start) \<Rightarrow>
          if lx_Index l < i \<and> startsServerDelimiterAt E i l
          then l\<lparr>lx_Index := i, lx_CurrentLine := line, lx_CurrentLineStart := start, lx_skipHTMLLeadingNL := False\<rparr>
          else let j = lx_Index l + span (\<lambda>c. c = 32 \<or> c = 9) l (lx_Index l); ch = getChar l j;
                   k = (if ch = 13 then (if getChar l (j + 1) = 10 then j + 2 else j + 1) else j + 1)
               in if ch = 13 \<or> ch = 10
                  then l\<lparr>lx_Index := k, lx_CurrentLine := lx_CurrentLine l + 1, lx_CurrentLineStart := k,
                         lx_skipHTMLLeadingNL := False\<rparr>
                  else l\<lparr>lx_skipHTMLLeadingNL := False\<rparr>)"

definition shouldSuppressFormattingHTMLBeforeServerBlock :: "nat \<Rightarrow> nat \<Rightarrow> Lexer \<Rightarrow> bool" where
  "shouldSuppressFormattingHTMLBeforeServerBlock start stop l \<longleftrightarrow>
     start < stop \<and>
     (let cs = map (getChar l) [start..<stop]
      in list_all (\<lambda>c. c \<in> {13, 10, 32, 9}) cs \<and> list_ex (\<lambda>c. c = 13 \<or> c = 10) cs)"

section \<open>\<open>nextHTML\<close>\<close>

definition html_token :: "Lexer \<Rightarrow> nat \<Rightarrow> int \<Rightarrow> nat \<Rightarrow> Token" where
  "html_token l start line lineStart =
     \<lparr>tk_Start = start, tk_End = lx_Index l, tk_LineNumber = line, tk_LineStart = lineStart,
      tk_kind = HTMLToken (sliceString l start (lx_Index l))\<rparr>"

text \<open>Before a server-side block: the HTML since \<open>start\<close> is returned first, unless there is none or it is
  only formatting (and no \<open><object>\<close> went before).\<close>

definition html_before :: "Lexer \<Rightarrow> nat \<Rightarrow> int \<Rightarrow> nat \<Rightarrow> (Token \<times> Lexer) option" where
  "html_before l start line lineStart =
     (if start < lx_Index l \<and>
         (\<not> shouldSuppressFormattingHTMLBeforeServerBlock start (lx_Index l) l \<or> lx_preserveFormatting l)
      then Some (html_token l start line lineStart, l\<lparr>lx_preserveFormatting := False\<rparr>)
      else None)"

text \<open>A token of a block that began where \<open>l0\<close> stands and ends where \<open>l\<close> stands.\<close>

definition block_token :: "Lexer \<Rightarrow> Lexer \<Rightarrow> token_kind \<Rightarrow> Token" where
  "block_token l0 l k =
     \<lparr>tk_Start = lx_Index l0, tk_End = lx_Index l, tk_LineNumber = lx_CurrentLine l0,
      tk_LineStart = lx_CurrentLineStart l0, tk_kind = k\<rparr>"

definition is_jscript :: "string \<Rightarrow> bool" where
  "is_jscript lang \<longleftrightarrow> equal_fold lang ''jscript'' \<or> equal_fold lang ''javascript''"

definition leave_block :: "Lexer \<Rightarrow> Lexer" where
  "leave_block l = l\<lparr>lx_InASPBlock := False, lx_BlockType := BlockTypeNone\<rparr>"

definition or_to_end :: "Lexer \<Rightarrow> (nat \<times> nat) option \<Rightarrow> nat \<times> nat" where
  "or_to_end l r = (case r of Some p \<Rightarrow> p | None \<Rightarrow> (Length l, Length l))"

text \<open>A JScript block up to \<open>blockEnd\<close>.\<close>

definition jscript_block :: "Lexer \<Rightarrow> Lexer \<Rightarrow> nat \<Rightarrow> string \<Rightarrow> bool \<Rightarrow> Token \<times> Lexer" where
  "jscript_block l0 l blockEnd content isScriptTag =
     (let l' = (advanceIndexWithLineTracking blockEnd l)\<lparr>lx_skipHTMLLeadingNL := True\<rparr>
      in (block_token l0 l' (ASPJScriptBlockToken content isScriptTag), l'))"

definition directive_language :: "lex_env \<Rightarrow> nat \<Rightarrow> Lexer \<Rightarrow> Lexer" where
  "directive_language E innerStart l =
     (case findASPPercentEndFrom l innerStart of
        None \<Rightarrow> l
      | Some (innerEnd, _) \<Rightarrow>
        (case extractDirectiveLanguageValue E (sliceString l innerStart innerEnd) of
           None \<Rightarrow> l
         | Some v \<Rightarrow>
           (let n = to_lower (le_lower E) (trim_space v)
            in if n = ''jscript'' \<or> n = ''javascript'' then l\<lparr>lx_defaultASPLanguage := ''jscript''\<rparr>
               else if n = ''vbscript'' then l\<lparr>lx_defaultASPLanguage := ''vbscript''\<rparr> else l)))"

definition percent_block :: "lex_env \<Rightarrow> Lexer \<Rightarrow> Token \<times> Lexer" where
  "percent_block E l0 =
     (let l = (advance 2 l0)\<lparr>lx_InASPBlock := True, lx_BlockType := BlockTypePercent\<rparr>;
          probe = lx_Index l + span (\<lambda>c. c \<in> {32, 9, 13, 10}) l (lx_Index l);
          next = getChar l probe
      in if next = 61 then
           (if is_jscript (lx_defaultASPLanguage l) then
              (case or_to_end l (findASPPercentEndFrom l (probe + 1)) of (innerEnd, blockEnd) \<Rightarrow>
                 let expr = trim_space (sliceString l (probe + 1) innerEnd);
                     content = (if expr = [] then ''Response.Write('' @ quoted (CHR 0x22) [] @ '');''
                                else ''Response.Write('' @ expr @ '');'')
                 in jscript_block l0 (leave_block l) blockEnd content False)
            else let l' = set_Index (probe + 1) l in (block_token l0 l' ASPExpressionStartToken, l'))
         else if next = 64 then
           (let l' = set_Index (probe + 1) (directive_language E (probe + 1) l)
            in (block_token l0 l' ASPDirectiveStartToken, l'))
         else if is_jscript (lx_defaultASPLanguage l) then
           (case or_to_end l (findASPPercentEndFrom l (lx_Index l)) of (innerEnd, blockEnd) \<Rightarrow>
              jscript_block l0 (leave_block l) blockEnd (sliceString l (lx_Index l) innerEnd) False)
         else (block_token l0 l (ASPCodeStartToken []), l))"

definition script_block :: "Lexer \<Rightarrow> nat \<Rightarrow> string \<Rightarrow> Token \<times> Lexer" where
  "script_block l0 n language =
     (if is_jscript language then
        (let innerStart = lx_Index l0 + n
         in case or_to_end l0 (findScriptEndFrom l0 innerStart) of (innerEnd, blockEnd) \<Rightarrow>
              jscript_block l0 l0 blockEnd (sliceString l0 innerStart innerEnd) True)
      else let l = (advance n l0)\<lparr>lx_InASPBlock := True, lx_BlockType := BlockTypeScript\<rparr>
           in (block_token l0 l (ASPCodeStartToken language), l))"

definition include_block :: "Lexer \<Rightarrow> nat \<Rightarrow> string \<Rightarrow> bool \<Rightarrow> Token \<times> Lexer" where
  "include_block l0 n path virtual =
     (let l = (advance n l0)\<lparr>lx_skipHTMLLeadingNL := True\<rparr> in (block_token l0 l (ASPIncludeToken virtual path), l))"

definition object_block :: "Lexer \<Rightarrow> nat \<Rightarrow> token_kind \<Rightarrow> Token \<times> Lexer" where
  "object_block l0 n k =
     (let l = (advance n l0)\<lparr>lx_preserveFormatting := True\<rparr> in (block_token l0 l k, l))"

text \<open>The block that begins where the lexer stands, if one does.\<close>

definition server_block :: "lex_env \<Rightarrow> Lexer \<Rightarrow> (Token \<times> Lexer) option" where
  "server_block E l =
     (if getChar l (lx_Index l) = 60 \<and> getChar l (lx_Index l + 1) = 37 then Some (percent_block E l)
      else case isScriptServerStart E l of
             Some (n, language) \<Rightarrow> Some (script_block l n language)
           | None \<Rightarrow>
             (case isIncludeStart E l of
                Some (n, path, virtual) \<Rightarrow> Some (include_block l n path virtual)
              | None \<Rightarrow> (case isObjectStart E l of Some (n, k) \<Rightarrow> Some (object_block l n k) | None \<Rightarrow> None)))"

text \<open>One rune of HTML, or two for CR LF.\<close>

definition html_rune :: "Lexer \<Rightarrow> Lexer" where
  "html_rune l =
     (let c = getChar l (lx_Index l)
      in if IsNewLine c then
           (let i = lx_Index l + (if c = 13 \<and> getChar l (lx_Index l + 1) = 10 then 2 else 1)
            in l\<lparr>lx_Index := i, lx_CurrentLine := lx_CurrentLine l + 1, lx_CurrentLineStart := i\<rparr>)
         else advance 1 l)"

lemma html_rune_simps [simp]:
  "lx_chars (html_rune l) = lx_chars l" "Length (html_rune l) = Length l" "lx_Index l < lx_Index (html_rune l)"
  by (simp_all add: html_rune_def Let_def Length_def)

function html_loop :: "lex_env \<Rightarrow> Lexer \<Rightarrow> nat \<Rightarrow> int \<Rightarrow> nat \<Rightarrow> Token \<times> Lexer" where
  "html_loop E l start line lineStart =
     (if isEof l then
        (if start < lx_Index l then (html_token l start line lineStart, l)
         else (token_at l (lx_Index l) EOFToken, l))
      else case server_block E l of
             Some r \<Rightarrow> (case html_before l start line lineStart of Some h \<Rightarrow> h | None \<Rightarrow> r)
           | None \<Rightarrow> html_loop E (html_rune l) start line lineStart)"
  by pat_completeness auto
termination
  by (relation "measure (\<lambda>(E, l, _). Length l - lx_Index l)") (auto simp: isEof_def intro!: diff_less_mono2)

declare html_loop.simps [simp del]

definition nextHTML :: "lex_env \<Rightarrow> Lexer \<Rightarrow> Token \<times> Lexer" where
  "nextHTML E l0 =
     (let l = consumeASPPostBlockLineBreak E l0
      in html_loop E l (lx_Index l) (lx_CurrentLine l) (lx_CurrentLineStart l))"

end
