(* ===== verification/VBLexer.thy ===== *)
theory VBLexer
  imports LexerVB LexerASP
begin

text \<open>
  The lexer as a whole (\<open>NewLexer\<close>, \<open>NextToken\<close>, \<open>AsSequence\<close>, \<open>Reset\<close> in \<open>vbscript/lexer.go\<close>).
\<close>

section \<open>A new lexer\<close>

text \<open>\<open>strings.TrimLeft(code, " \t\r\n\uFEFF")\<close>.\<close>

fun trim_left_bom :: "string \<Rightarrow> string" where
  "trim_left_bom (c # s) =
     (if c \<in> {CHR '' '', CHR 0x09, CHR 0x0D, CHR 0x0A} then trim_left_bom s
      else case s of
        d # e # r \<Rightarrow> (if c = CHR 0xEF \<and> d = CHR 0xBB \<and> e = CHR 0xBF then trim_left_bom r else c # s)
      | _ \<Rightarrow> c # s)"
| "trim_left_bom [] = []"

definition detectDefaultASPLanguage :: "lex_env \<Rightarrow> string \<Rightarrow> string" where
  "detectDefaultASPLanguage E src =
     (let trimmed = trim_left_bom src
      in if \<not> starts_with ''<%'' trimmed then ''vbscript''
         else case trim_space (drop 2 trimmed) of
           [] \<Rightarrow> ''vbscript''
         | c # _ \<Rightarrow>
           (if c \<noteq> CHR ''@'' then ''vbscript''
            else case str_index ''%>'' trimmed of
                   None \<Rightarrow> ''vbscript''
                 | Some e \<Rightarrow>
                   (case extractDirectiveLanguageValue E (take (e - 2) (drop 2 trimmed)) of
                      None \<Rightarrow> ''vbscript''
                    | Some v \<Rightarrow>
                      (let n = to_lower (le_lower E) (trim_space v)
                       in if n = ''jscript'' \<or> n = ''javascript'' then ''jscript'' else ''vbscript''))))"

definition NewLexer :: "lex_env \<Rightarrow> string \<Rightarrow> Lexer" where
  "NewLexer E src =
     \<lparr>lx_chars = to_runes src, lx_asciiOnly = isASCIIString src, lx_Index = 0,
      lx_CurrentLine = (if src = [] then 0 else 1), lx_CurrentLineStart = 0, lx_Mode = ModeVBScript,
      lx_InASPBlock = False, lx_BlockType = BlockTypeNone,
      lx_defaultASPLanguage = detectDefaultASPLanguage E src,
      lx_skipHTMLLeadingNL = False, lx_preserveFormatting = False\<rparr>"

definition lexer_Reset :: "Lexer \<Rightarrow> Lexer" where
  "lexer_Reset l = l\<lparr>lx_Index := 0, lx_CurrentLine := (if Length l = 0 then 0 else 1), lx_CurrentLineStart := 0\<rparr>"

section \<open>One token\<close>

text \<open>The end of the code block, as \<open>%>\<close> or as \<open></script>\<close>.\<close>

definition block_end :: "Lexer \<Rightarrow> nat option" where
  "block_end l =
     (if lx_Mode l = ModeASP \<and> lx_InASPBlock l then
        (if lx_BlockType l = BlockTypePercent \<and> getChar l (lx_Index l) = 37 \<and> getChar l (lx_Index l + 1) = 62 then Some 2
         else if lx_BlockType l = BlockTypeScript then isScriptEnd l
         else None)
      else None)"

definition close_block :: "nat \<Rightarrow> Lexer \<Rightarrow> Token \<times> Lexer" where
  "close_block n l =
     (let l' = (leave_block (advance n l))\<lparr>lx_skipHTMLLeadingNL := True\<rparr>
      in (token_at l' (lx_Index l) ASPCodeEndToken, l'))"

text \<open>Whether \<open>&\<close> begins a hexadecimal or octal literal: digits of the class must follow the prefix and
  no identifier may go on behind them.\<close>

definition radix_literal :: "(rune \<Rightarrow> bool) \<Rightarrow> Lexer \<Rightarrow> bool" where
  "radix_literal digit l \<longleftrightarrow>
     (let i = lx_Index l + 2
      in digit (getChar l i) \<and>
         (let boundary = getChar l (i + span digit l i) in \<not> (IsIdentifierStart boundary \<or> boundary = 95)))"

definition ampersand :: "Lexer \<Rightarrow> (Token \<times> Lexer) lex" where
  "ampersand l =
     (let next = getChar l (lx_Index l + 1)
      in if CharEquals next 104 then (if radix_literal IsHexDigit l then nextNumericLiteral l else nextPunctuation l)
         else if CharEquals next 111 then (if radix_literal IsOctDigit l then nextNumericLiteral l else nextPunctuation l)
         else if IsDecDigit next then nextNumericLiteral l
         else nextPunctuation l)"

text \<open>The dispatch on the first rune of a token.\<close>

definition code_token :: "lex_env \<Rightarrow> Lexer \<Rightarrow> (Token \<times> Lexer) lex" where
  "code_token E l =
     (let c = getChar l (lx_Index l)
      in if IsLineTerminator c then nextLineTermination l
         else case nextComment l of
           Some r \<Rightarrow> Inr r
         | None \<Rightarrow>
           if IsIdentifierStart c then Inr (nextIdentifier E l)
           else if c = 34 then nextStringLiteral l
           else if c = 46 then (if IsDecDigit (getChar l (lx_Index l + 1)) then nextNumericLiteral l else nextPunctuation l)
           else if IsDecDigit c then nextNumericLiteral l
           else if c = 38 then ampersand l
           else if c = 35 then nextDateLiteral E l
           else if c = 91 then nextExtendedIdentifier l
           else nextPunctuation l)"

definition NextToken :: "lex_env \<Rightarrow> Lexer \<Rightarrow> (Token \<times> Lexer) lex" where
  "NextToken E l0 =
     (if lx_Mode l0 = ModeASP \<and> \<not> lx_InASPBlock l0 then Inr (nextHTML E l0)
      else case skipWhitespaces l0 of
        Inl e \<Rightarrow> Inl e
      | Inr l \<Rightarrow>
        if isEof l then Inr (token_at l (lx_Index l) EOFToken, l)
        else case block_end l of
               Some n \<Rightarrow> Inr (close_block n l)
             | None \<Rightarrow> code_token E l)"

end
