(* ===== verification/LexerLaws.thy ===== *)
theory LexerLaws
  imports VBLexer
begin

text \<open>
  The lexer always makes progress and never leaves the source: \<open>progress\<close> is proved for every scanning
  function and then for \<open>NextToken\<close>, from which \<open>AsSequence\<close> terminates and its tokens follow each other.
\<close>

section \<open>Folding keeps the number of runes\<close>

lemma fold_text_step: "code a \<noteq> 226 \<Longrightarrow> code a \<noteq> 197 \<Longrightarrow> fold_text (a # s) = lower_char a # fold_text s"
  by (cases s rule: fold_text.cases) auto

lemma code_char_of [simp]: "n < 256 \<Longrightarrow> code (char_of n) = n"
  by (simp add: code_def)

lemma lower_not_ascii: "128 \<le> code c \<Longrightarrow> lower_char c = c"
  by (simp add: lower_char_def)

text \<open>What folding makes of the bytes of one rune: one character, or text that is not ASCII.\<close>

lemma fold_text_rune:
  "\<exists>f. (\<forall>s. fold_text (map char_of (rune_bytes r) @ s) = f @ fold_text s) \<and> (length f = 1 \<or> \<not> is_ascii f)"
proof -
  define q where "q = (if 1114111 < r \<or> (55296 \<le> r \<and> r \<le> 57343) then 65533 else r)"
  have q: "rune_bytes r = rune_bytes q" "q \<le> 1114111" by (auto simp: q_def rune_bytes_def Let_def)
  have qn: "\<not> (1114111 < q \<or> (55296 \<le> q \<and> q \<le> 57343))" by (auto simp: q_def)
  consider "q < 128" | "128 \<le> q" "q < 2048" | "2048 \<le> q" "q < 65536" | "65536 \<le> q" by linarith
  then show ?thesis
  proof cases
    case 1
    then have bs: "rune_bytes r = [q]" unfolding q(1) by (simp add: rune_bytes_def)
    have "fold_text (map char_of (rune_bytes r) @ s) = [lower_char (char_of q)] @ fold_text s" for s
      using 1 by (simp add: bs fold_text_step)
    then show ?thesis by (intro exI[of _ "[lower_char (char_of q)]"]) simp
  next
    case 2
    define a b where "a = 192 + q div 64" and "b = 128 + q mod 64"
    have l: "192 \<le> a" "a < 224" "128 \<le> b" "b < 192" using 2 by (auto simp: a_def b_def)
    have bs: "rune_bytes r = [a, b]"
      using 2 unfolding q(1) unfolding rune_bytes_def if_not_P[OF qn] a_def b_def Let_def by simp
    show ?thesis
    proof (cases "a = 197 \<and> b = 191")
      case True
      then have "fold_text (map char_of (rune_bytes r) @ s) = ''s'' @ fold_text s" for s
        by (cases s) (simp_all add: bs)
      then show ?thesis by (intro exI[of _ "''s''"]) simp
    next
      case False
      have "fold_text (map char_of (rune_bytes r) @ s) = [char_of a, char_of b] @ fold_text s" for s
      proof -
        have "fold_text (char_of a # char_of b # s) = lower_char (char_of a) # fold_text (char_of b # s)"
          using l False by (cases s) auto
        then show ?thesis using l by (simp add: bs fold_text_step lower_not_ascii)
      qed
      then show ?thesis using l by (intro exI[of _ "[char_of a, char_of b]"]) (simp add: is_ascii_def)
    qed
  next
    case 3
    define a b c where "a = 224 + q div 4096" and "b = 128 + q div 64 mod 64" and "c = 128 + q mod 64"
    have l: "224 \<le> a" "a < 240" "128 \<le> b" "b < 192" "128 \<le> c" "c < 192" using 3 by (auto simp: a_def b_def c_def)
    have bs: "rune_bytes r = [a, b, c]"
      using 3 unfolding q(1) unfolding rune_bytes_def if_not_P[OF qn] a_def b_def c_def Let_def by simp
    show ?thesis
    proof (cases "a = 226 \<and> b = 132 \<and> c = 170")
      case True
      then have "fold_text (map char_of (rune_bytes r) @ s) = ''k'' @ fold_text s" for s
        by (simp add: bs)
      then show ?thesis by (intro exI[of _ "''k''"]) simp
    next
      case False
      have "fold_text (map char_of (rune_bytes r) @ s) = [char_of a, char_of b, char_of c] @ fold_text s" for s
      proof -
        have "fold_text (char_of a # char_of b # char_of c # s) = lower_char (char_of a) # fold_text (char_of b # char_of c # s)"
          using l False by auto
        then show ?thesis using l by (simp add: bs fold_text_step lower_not_ascii)
      qed
      then show ?thesis using l by (intro exI[of _ "[char_of a, char_of b, char_of c]"]) (simp add: is_ascii_def)
    qed
  next
    case 4
    define a b c d where "a = 240 + q div 262144" and "b = 128 + q div 4096 mod 64"
      and "c = 128 + q div 64 mod 64" and "d = 128 + q mod 64"
    have l: "240 \<le> a" "a < 245" "128 \<le> b" "b < 192" "128 \<le> c" "c < 192" "128 \<le> d" "d < 192"
      using 4 q(2) by (auto simp: a_def b_def c_def d_def)
    have bs: "rune_bytes r = [a, b, c, d]"
      using 4 unfolding q(1) unfolding rune_bytes_def if_not_P[OF qn] a_def b_def c_def d_def Let_def by simp
    have "fold_text (map char_of (rune_bytes r) @ s) = [char_of a, char_of b, char_of c, char_of d] @ fold_text s" for s
      using l by (simp add: bs fold_text_step lower_not_ascii)
    then show ?thesis using l by (intro exI[of _ "[char_of a, char_of b, char_of c, char_of d]"]) (simp add: is_ascii_def)
  qed
qed

lemma fold_text_runes: "is_ascii (fold_text (of_runes rs)) \<Longrightarrow> length (fold_text (of_runes rs)) = length rs"
proof (induction rs)
  case (Cons r rs)
  obtain f where f: "fold_text (map char_of (rune_bytes r) @ of_runes rs) = f @ fold_text (of_runes rs)"
    "length f = 1 \<or> \<not> is_ascii f"
    using fold_text_rune[of r] by blast
  have e: "of_runes (r # rs) = map char_of (rune_bytes r) @ of_runes rs" by (simp add: of_runes_def)
  have "is_ascii f" "is_ascii (fold_text (of_runes rs))" using Cons.prems by (simp_all add: e f(1) is_ascii_def)
  then show ?case using Cons.IH f by (simp add: e)
qed simp

lemma ascii_lower_ascii: "is_ascii t \<Longrightarrow> is_ascii (ascii_lower t)"
  by (auto simp: is_ascii_def ascii_lower_def lower_char_def list_all_iff code_def)

lemma equal_fold_length: "equal_fold (of_runes rs) t \<Longrightarrow> is_ascii t \<Longrightarrow> length rs = length t"
  using fold_text_runes[of rs] ascii_lower_ascii[of t] by (simp add: equal_fold_def ascii_lower_def)

section \<open>Progress\<close>

definition forward :: "Lexer \<Rightarrow> Lexer \<Rightarrow> bool" where
  "forward l l' \<longleftrightarrow> lx_chars l' = lx_chars l \<and> lx_Index l < lx_Index l' \<and> lx_Index l' \<le> Length l"

definition progress :: "Lexer \<Rightarrow> Token \<Rightarrow> Lexer \<Rightarrow> bool" where
  "progress l t l' \<longleftrightarrow> forward l l' \<and> lx_Index l \<le> tk_Start t \<and> tk_Start t \<le> tk_End t \<and> tk_End t \<le> lx_Index l'"

definition lex_ok :: "Lexer \<Rightarrow> (Token \<times> Lexer) lex \<Rightarrow> bool" where
  "lex_ok l r \<longleftrightarrow> (case r of Inl e \<Rightarrow> True | Inr (t, l') \<Rightarrow> progress l t l')"

lemma lex_ok_simps [simp]: "lex_ok l (Inl e)" "lex_ok l (Inr (t, l')) = progress l t l'"
  by (simp_all add: lex_ok_def)

lemma getChar_in: "getChar l i = c \<Longrightarrow> c \<noteq> 0 \<Longrightarrow> i < Length l"
  by (auto simp: getChar_def split: if_splits)

lemma getChar_chars: "lx_chars l' = lx_chars l \<Longrightarrow> getChar l' i = getChar l i"
  by (simp add: getChar_def Length_def)

lemma getChar_simps [simp]: "getChar (advance n l) i = getChar l i" "getChar (set_Index n l) i = getChar l i"
  by (simp_all add: getChar_def)

lemma token_simps [simp]:
  "tk_Start (token_at l s k) = s" "tk_End (token_at l s k) = lx_Index l" "tk_kind (token_at l s k) = k"
  "tk_Start (block_token l0 l k) = lx_Index l0" "tk_End (block_token l0 l k) = lx_Index l"
  "tk_Start (html_token l s line ls) = s" "tk_End (html_token l s line ls) = lx_Index l"
  by (simp_all add: token_at_def block_token_def html_token_def)

lemma span_in: "i + span p l i \<le> max i (Length l)"
  using length_takeWhile_le[of p "chars_from l i"] by (simp add: span_def Length_def chars_from_def)

lemma span_pos: "i < Length l \<Longrightarrow> p (getChar l i) \<Longrightarrow> 0 < span p l i"
proof -
  assume i: "i < Length l" "p (getChar l i)"
  then have "drop i (lx_chars l) = lx_chars l ! i # drop (Suc i) (lx_chars l)"
    by (simp add: Cons_nth_drop_Suc Length_def)
  then show ?thesis using i unfolding span_def chars_from_def by (simp add: getChar_def)
qed

lemma extended_ok: "lex_ok l (nextExtendedIdentifier l)"
  using getChar_in[of l "Suc (lx_Index l + span (\<lambda>c. c \<noteq> 93 \<and> \<not> IsNewLine c \<and> c \<noteq> 0) l (Suc (lx_Index l)))" 93]
  by (auto simp: nextExtendedIdentifier_def Let_def progress_def forward_def Length_def)

lemma identifier_ok: "\<not> isEof l \<Longrightarrow> IsIdentifierStart (getChar l (lx_Index l)) \<Longrightarrow> lex_ok l (Inr (nextIdentifier E l))"
  using span_bound[of l IsIdentifier] span_pos[of "lx_Index l" l IsIdentifier]
  by (simp add: nextIdentifier_def getIdentifierName_def Let_def progress_def forward_def isEof_def IsIdentifier_def)

lemma scan_string_bound: "scan_string cs = (t, n, e) \<Longrightarrow> n \<le> length cs \<and> (\<not> e \<longrightarrow> 0 < n)"
proof (induction cs arbitrary: t n e rule: scan_string.induct)
  case (2 c r)
  show ?case
  proof (cases r)
    case Nil
    then show ?thesis using 2(3) by (auto split: if_splits prod.splits)
  next
    case (Cons d r')
    obtain t1 n1 e1 where 1: "scan_string r' = (t1, n1, e1)" by (cases "scan_string r'") auto
    obtain t2 n2 e2 where 2: "scan_string r = (t2, n2, e2)" by (cases "scan_string r") auto
    show ?thesis using "2.IH" "2.prems" 1 2 Cons by (auto split: if_splits)
  qed
qed auto

lemma slow_path_ok: "\<not> isEof l \<Longrightarrow> lex_ok l (string_slow_path l)"
proof -
  assume l: "\<not> isEof l"
  obtain t n e where s: "scan_string (chars_from l (lx_Index l + 1)) = (t, n, e)"
    by (cases "scan_string (chars_from l (lx_Index l + 1))") auto
  then have "n \<le> Length l - (lx_Index l + 1)" "\<not> e \<longrightarrow> 0 < n"
    using scan_string_bound[OF s] by (simp_all add: chars_from_def Length_def)
  then show ?thesis
    using l s by (auto simp: string_slow_path_def Let_def string_token_def progress_def forward_def isEof_def)
qed

lemma string_ok: "\<not> isEof l \<Longrightarrow> lex_ok l (nextStringLiteral l)"
  using slow_path_ok[of l]
  by (auto simp: nextStringLiteral_def Let_def string_token_def progress_def forward_def)

text \<open>The scanning functions of numbers only move forward, within the source.\<close>

definition moves :: "Lexer \<Rightarrow> Lexer \<Rightarrow> bool" where
  "moves l l' \<longleftrightarrow> lx_chars l' = lx_chars l \<and> lx_Index l \<le> lx_Index l' \<and> lx_Index l' \<le> max (lx_Index l) (Length l)"

lemma moves_refl [simp]: "moves l l"
  by (simp add: moves_def)

lemma moves_trans: "moves l l1 \<Longrightarrow> moves l1 l2 \<Longrightarrow> moves l l2"
  by (auto simp: moves_def Length_def)

lemma moves_span: "moves l (advance (span p l (lx_Index l)) l)"
  using span_in[of "lx_Index l" p l] by (simp add: moves_def)

lemma moves_Inr:
  "getStrByPredicate p l = (s, l') \<Longrightarrow> moves l l'" "getDecStr l = (s, l') \<Longrightarrow> moves l l'"
  "getOctStr l = (s, l') \<Longrightarrow> moves l l'" "getHexStr l = (s, l') \<Longrightarrow> moves l l'"
  using moves_span[of l] by (auto simp: getStrByPredicate_def getDecStr_def getOctStr_def getHexStr_def Let_def)

lemma forward_moves: "forward l l1 \<Longrightarrow> moves l1 l2 \<Longrightarrow> forward l l2"
  by (auto simp: forward_def moves_def Length_def)

lemma moves_forward: "moves l l1 \<Longrightarrow> forward l1 l2 \<Longrightarrow> forward l l2"
  by (auto simp: forward_def moves_def Length_def)

lemma finish_integer_ok:
  "forward l0 l \<Longrightarrow> lex_ok l0 (finish_integer s base (lx_Index l0) l)"
  by (auto simp: finish_integer_def parseInteger_def progress_def forward_def split: option.splits)

lemma octal_rest_ok: "forward l0 l \<Longrightarrow> lex_ok l0 (octal_rest (lx_Index l0) l)"
proof -
  assume f: "forward l0 l"
  obtain s l1 where g: "getOctStr l = (s, l1)" by (cases "getOctStr l") auto
  have "forward l0 l1" by (rule forward_moves[OF f moves_Inr(3)[OF g]])
  then show ?thesis using finish_integer_ok by (auto simp: octal_rest_def g Let_def)
qed

lemma scan_exponent_moves: "scan_exponent f l = Inr (s, l') \<Longrightarrow> moves l l'"
proof -
  assume h: "scan_exponent f l = Inr (s, l')"
  show ?thesis
  proof (cases "CharEquals (getChar l (lx_Index l)) 101")
    case False
    then show ?thesis using h by (simp add: scan_exponent_def)
  next
    case True
    define c where "c = getChar l (lx_Index l + 1)"
    define l2 where "l2 = (if c = 43 \<or> c = 45 then advance 1 (advance 1 l) else advance 1 l)"
    obtain ds l3 where g: "getDecStr l2 = (ds, l3)" by (cases "getDecStr l2") auto
    have d: "IsDecDigit (getChar l2 (lx_Index l2))" "l' = l3"
      using h True g unfolding scan_exponent_def c_def l2_def
      by (auto simp: Let_def split: if_splits prod.splits)
    then have "lx_Index l2 < Length l" using getChar_in[of l2 "lx_Index l2"]
      by (auto simp: IsDecDigit_def l2_def split: if_splits)
    then have "moves l l2" by (auto simp: moves_def l2_def)
    then show ?thesis using moves_trans moves_Inr(2)[OF g] d(2) by blast
  qed
qed

lemma scan_fraction_moves: "scan_fraction l = (s, l') \<Longrightarrow> moves l l'"
proof (cases "getChar l (lx_Index l) = 46")
  case True
  assume h: "scan_fraction l = (s, l')"
  obtain ds l1 where g: "getDecStr (advance 1 l) = (ds, l1)" by (cases "getDecStr (advance 1 l)") auto
  have "moves l (advance 1 l)" using getChar_in[OF True] by (simp add: moves_def)
  then show ?thesis using moves_trans moves_Inr(2)[OF g] h True g by (auto simp: scan_fraction_def)
qed (simp add: scan_fraction_def)

lemma moves_Length: "moves l l' \<Longrightarrow> Length l' = Length l"
  by (simp add: moves_def Length_def)

text \<open>A literal that begins with a point or a digit: the first rune is consumed before the rest.\<close>

lemma decimal_rest_ok:
  assumes "moves l0 l" "lx_Index l0 < lx_Index l \<or> getChar l (lx_Index l) = 46"
  shows "lex_ok l0 (decimal_rest (lx_Index l0) s l)"
proof -
  obtain f l1 where f: "scan_fraction l = (f, l1)" by (cases "scan_fraction l") auto
  have "forward l0 l1"
  proof (cases "getChar l (lx_Index l) = 46")
    case True
    obtain ds l2 where g: "getDecStr (advance 1 l) = (ds, l2)" by (cases "getDecStr (advance 1 l)") auto
    have "lx_Index l < Length l" using getChar_in[OF True] by simp
    then have "forward l0 (advance 1 l)"
      using assms(1) by (auto simp: forward_def moves_def Length_def)
    then show ?thesis using forward_moves moves_Inr(2)[OF g] f True g by (auto simp: scan_fraction_def)
  next
    case False
    then have "forward l0 l" using assms by (auto simp: forward_def moves_def)
    then show ?thesis using False f by (simp add: scan_fraction_def)
  qed
  show ?thesis
  proof (cases "scan_exponent f l1")
    case (Inr p)
    obtain fs l2 where p: "p = (fs, l2)" by (cases p)
    have "forward l0 l2" using forward_moves[OF \<open>forward l0 l1\<close>] scan_exponent_moves Inr p by blast
    then show ?thesis
      using f Inr p finish_integer_ok[of l0 l2]
      by (auto simp: decimal_rest_def Let_def progress_def forward_def split: option.splits)
  qed (simp add: decimal_rest_def f)
qed

lemma ampersand_next: "getChar l (lx_Index l + 1) \<noteq> 0 \<Longrightarrow> forward l (advance 1 l) \<and> forward l (advance 2 l)"
  using getChar_in[of l "lx_Index l + 1"] by (auto simp: forward_def)

lemma char_equals_nonzero: "CharEquals c d \<Longrightarrow> d \<in> {104, 111} \<Longrightarrow> c \<noteq> 0"
  by (auto simp: CharEquals_def runeToUpper_def split: if_splits)

lemma numeric_ok:
  assumes "IsDecDigit (getChar l (lx_Index l)) \<or> getChar l (lx_Index l) = 46 \<or> getChar l (lx_Index l) = 38"
  shows "lex_ok l (nextNumericLiteral l)"
proof -
  let ?c = "getChar l (lx_Index l)" and ?n = "getChar l (lx_Index l + 1)"
  consider "?c = 46" | "?c = 38" | "IsDecDigit ?c" "?c \<noteq> 46" "?c \<noteq> 38" using assms by blast
  then show ?thesis
  proof cases
    case 1
    then show ?thesis using decimal_rest_ok[of l l] by (simp add: nextNumericLiteral_def)
  next
    case 2
    have hex: "lex_ok l (nextHexIntLiteral l)" if "CharEquals ?n 104"
    proof -
      obtain s l1 where g: "getHexStr (advance 2 l) = (s, l1)" by (cases "getHexStr (advance 2 l)") auto
      have "forward l (advance 2 l)" using ampersand_next char_equals_nonzero[OF that] by simp
      then have "forward l l1" using forward_moves moves_Inr(4)[OF g] by blast
      then show ?thesis using g finish_integer_ok by (auto simp: nextHexIntLiteral_def)
    qed
    have oct: "lex_ok l (nextOctIntLiteralPrefix l)" if "CharEquals ?n 111"
      using ampersand_next char_equals_nonzero[OF that] octal_rest_ok[of l "advance 2 l"]
      by (simp add: nextOctIntLiteralPrefix_def)
    have oct1: "lex_ok l (nextOctIntLiteral l)" if "IsOctDigit ?n"
      using ampersand_next[of l] that octal_rest_ok[of l "advance 1 l"]
      by (auto simp: nextOctIntLiteral_def IsOctDigit_def)
    show ?thesis using 2 hex oct oct1 by (simp add: nextNumericLiteral_def Let_def)
  next
    case 3
    obtain s l1 where g: "getDecStr l = (s, l1)" by (cases "getDecStr l") auto
    have "lx_Index l < Length l" using getChar_in[of l "lx_Index l" ?c] 3(1) by (auto simp: IsDecDigit_def)
    then have "0 < span IsDecDigit l (lx_Index l)" using span_pos 3(1) by simp
    then have "lx_Index l < lx_Index l1" using g by (auto simp: getDecStr_def getStrByPredicate_def Let_def)
    then have "lex_ok l (decimal_rest (lx_Index l) s l1)"
      using decimal_rest_ok moves_Inr(2)[OF g] by blast
    then show ?thesis using 3 g by (simp add: nextNumericLiteral_def Let_def)
  qed
qed

lemma date_ok: "\<not> isEof l \<Longrightarrow> lex_ok l (nextDateLiteral E l)"
proof -
  assume l: "\<not> isEof l"
  let ?n = "span (\<lambda>c. \<not> (c = 35 \<or> IsNewLine c)) l (lx_Index l + 1)"
  have "lx_Index l + 1 + ?n < Length l" if "getChar l (lx_Index l + 1 + ?n) = 35"
    using getChar_in[OF that] by simp
  then show ?thesis
    using l unfolding nextDateLiteral_def Let_def
    by (auto simp: progress_def forward_def isEof_def split: option.splits)
qed

lemma comment_body_ok:
  assumes "forward l0 l" "lx_Index l = lx_Index l0 + n"
  shows "lex_ok l0 (Inr (nextCommentBody n b l))"
proof -
  define r where "r = chars_from l (lx_Index l)"
  define k where "k = (if lx_Mode l = ModeASP \<and> lx_InASPBlock l \<and> lx_BlockType l = BlockTypePercent
    then length (takeWhile (\<lambda>i. \<not> (r ! i = 37 \<and> i + 1 < length r \<and> r ! (i + 1) = 62) \<and> \<not> IsNewLine (r ! i)) [0..<length r])
    else length (takeWhile (\<lambda>c. \<not> IsNewLine c) r))"
  have "length r = Length l - lx_Index l" by (simp add: r_def chars_from_def Length_def)
  moreover have "k \<le> length r"
  proof -
    have "length (takeWhile p [0..<length r]) \<le> length r" for p
      using length_takeWhile_le[of p "[0..<length r]"] by simp
    then show ?thesis by (simp only: k_def length_takeWhile_le split: if_split) blast
  qed
  moreover have "nextCommentBody n b l = (token_at (advance k l) (lx_Index l - n) (CommentToken (of_runes (take k r)) b), advance k l)"
    unfolding nextCommentBody_def Let_def r_def[symmetric] k_def[symmetric] by (rule refl)
  moreover have "Length l = Length l0" using assms(1) by (simp add: forward_def Length_def)
  ultimately show ?thesis using assms by (auto simp: progress_def forward_def)
qed

lemma char_equals_letters: "CharEquals c 101 \<Longrightarrow> c \<noteq> 0" "CharEquals c 109 \<Longrightarrow> c \<noteq> 0" "IsWhiteSpace c \<Longrightarrow> c \<noteq> 0"
  by (auto simp: CharEquals_def runeToUpper_def IsWhiteSpace_def split: if_splits)

lemma comment_ok: "\<not> isEof l \<Longrightarrow> nextComment l = Some r \<Longrightarrow> lex_ok l (Inr r)"
proof -
  assume l: "\<not> isEof l" and n: "nextComment l = Some r"
  show ?thesis
  proof (cases "getChar l (lx_Index l) = 39")
    case True
    then have "r = nextCommentBody 1 False (advance 1 l)" using n l by (simp add: nextComment_def Let_def)
    then show ?thesis using comment_body_ok[of l "advance 1 l" 1] l by (simp add: forward_def isEof_def)
  next
    case False
    then have r: "r = nextCommentBody 3 True (advance 3 l)" "IsWhiteSpace (getChar l (lx_Index l + 3))"
      using n l by (auto simp: nextComment_def Let_def split: if_splits)
    then have "lx_Index l + 3 < Length l" using getChar_in char_equals_letters(3) by blast
    then show ?thesis using comment_body_ok[of l "advance 3 l" 3] r(1) by (simp add: forward_def)
  qed
qed

section \<open>Line ends and punctuation\<close>

lemma skipWSOnly_moves: "moves l (skipWSOnly l)"
  using moves_span by (simp add: skipWSOnly_def)

lemma skipNewline_forward: "IsNewLine (getChar l (lx_Index l)) \<Longrightarrow> forward l (skipNewline l)"
proof -
  assume n: "IsNewLine (getChar l (lx_Index l))"
  then have "lx_Index l < Length l" using getChar_in[of l "lx_Index l"] by (auto simp: IsNewLine_def)
  moreover have "getChar l (Suc (lx_Index l)) = 10 \<Longrightarrow> Suc (lx_Index l) < Length l" using getChar_in by fastforce
  ultimately show ?thesis by (auto simp: skipNewline_def Let_def forward_def)
qed

lemma skipWhitespaces_moves: "skipWhitespaces l = Inr l' \<Longrightarrow> moves l l'"
proof (induction l rule: skipWhitespaces.induct)
  case (1 l)
  let ?l1 = "skipWSOnly l"
  let ?l2 = "skipWSOnly (advance 1 ?l1)"
  show ?case
  proof (cases "isEof l \<or> getChar ?l1 (lx_Index ?l1) \<noteq> 95")
    case True
    then show ?thesis
      using 1(2) skipWSOnly_moves[of l] by (subst (asm) skipWhitespaces.simps) (auto simp: Let_def split: if_splits)
  next
    case False
    then have "lx_Index ?l1 < Length ?l1" using getChar_in[of ?l1 "lx_Index ?l1" 95] by simp
    then have a: "moves ?l1 (advance 1 ?l1)" by (simp add: moves_def)
    have n: "IsNewLine (getChar ?l2 (lx_Index ?l2))" "skipWhitespaces (skipNewline ?l2) = Inr l'"
      using 1(2) False by (subst (asm) skipWhitespaces.simps, auto simp: Let_def split: if_splits)+
    have "moves (skipNewline ?l2) l'" using 1(1) False n by simp
    moreover have "moves ?l2 (skipNewline ?l2)" using skipNewline_forward[OF n(1)] by (auto simp: forward_def moves_def)
    ultimately show ?thesis
      using moves_trans skipWSOnly_moves a by metis
  qed
qed

lemma line_end_forward: "IsLineTerminator (getChar l (lx_Index l)) \<Longrightarrow> forward l (line_end l)"
proof -
  assume n: "IsLineTerminator (getChar l (lx_Index l))"
  then have "lx_Index l < Length l" using getChar_in[of l "lx_Index l"] by (auto simp: IsLineTerminator_def)
  moreover have "getChar l (Suc (lx_Index l)) = 10 \<Longrightarrow> Suc (lx_Index l) < Length l" using getChar_in by fastforce
  ultimately show ?thesis by (auto simp: line_end_def Let_def forward_def)
qed

lemma line_ends_moves: "line_ends l b = Inr (l', b') \<Longrightarrow> moves l l'"
proof (induction l b rule: line_ends.induct)
  case (1 l b)
  show ?case
  proof (cases "isEof l \<or> \<not> IsLineTerminator (getChar l (lx_Index l))")
    case True
    then show ?thesis using 1(2) by (subst (asm) line_ends.simps) simp
  next
    case False
    then obtain l1 where s: "skipWhitespaces (line_end l) = Inr l1"
      and r: "line_ends l1 (b \<or> getChar l (lx_Index l) = 58) = Inr (l', b')"
      using 1(2) by (subst (asm) line_ends.simps) (auto split: sum.splits)
    have "moves l1 l'" using 1(1)[OF False s r] .
    moreover have "moves l l1"
      using forward_moves[OF line_end_forward skipWhitespaces_moves[OF s]] False
      by (auto simp: forward_def moves_def)
    ultimately show ?thesis using moves_trans by blast
  qed
qed

lemma line_termination_ok:
  assumes "\<not> isEof l" "IsLineTerminator (getChar l (lx_Index l))"
  shows "lex_ok l (nextLineTermination l)"
proof (cases "line_ends l False")
  case (Inr p)
  obtain l' b where p: "p = (l', b)" by (cases p)
  obtain l1 where s: "skipWhitespaces (line_end l) = Inr l1" "line_ends l1 (getChar l (lx_Index l) = 58) = Inr (l', b)"
    using Inr p assms by (subst (asm) line_ends.simps) (auto split: sum.splits)
  have "forward l l'"
    using forward_moves[OF line_end_forward[OF assms(2)]] skipWhitespaces_moves[OF s(1)] line_ends_moves[OF s(2)] moves_trans
    by blast
  then show ?thesis using Inr p by (simp add: nextLineTermination_def Let_def progress_def forward_def)
qed (simp add: nextLineTermination_def)

lemma punctuation_at_in: "punctuation_at l = Some (p, i) \<Longrightarrow> lx_Index l \<le> i \<and> i < Length l"
proof -
  assume h: "punctuation_at l = Some (p, i)"
  have c: "getChar l (lx_Index l) \<noteq> 0" 
  proof
    assume "getChar l (lx_Index l) = 0"
    then show False using h by (simp add: punctuation_at_def)
  qed
  have n: "getChar l (Suc (lx_Index l)) \<noteq> 0 \<Longrightarrow> Suc (lx_Index l) < Length l" using getChar_in by blast
  have e: "getNextNonWhitespaceChar l (Suc (lx_Index l)) = 61 \<Longrightarrow>
      Suc (lx_Index l) + span is_blank l (Suc (lx_Index l)) < Length l"
    using getChar_in[of l "Suc (lx_Index l) + span is_blank l (Suc (lx_Index l))" 61] by (simp add: getNextNonWhitespaceChar_def)
  show ?thesis
    using h getChar_in[of l "lx_Index l"] c n e
    by (auto simp: punctuation_at_def Let_def compare_punct_def split: if_splits)
qed

lemma punctuation_ok: "lex_ok l (nextPunctuation l)"
  using punctuation_at_in[of l]
  by (fastforce simp: nextPunctuation_def Let_def progress_def forward_def split: option.splits)

lemma code_token_ok: "\<not> isEof l \<Longrightarrow> lex_ok l (code_token E l)"
  using line_termination_ok[of l] comment_ok[of l] identifier_ok[of l E] string_ok[of l] numeric_ok[of l]
    punctuation_ok[of l] date_ok[of l E] extended_ok[of l]
  by (auto simp: code_token_def ampersand_def Let_def split: option.split)

section \<open>Server-side blocks\<close>

lemma head_or_0_nonzero: "head_or_0 r = c \<Longrightarrow> c \<noteq> 0 \<Longrightarrow> \<exists>r'. r = c # r'"
  by (cases r) (auto simp: head_or_0_def)

lemma of_take_length: "equal_fold (of_runes (take n r)) t \<Longrightarrow> is_ascii t \<Longrightarrow> length t = n \<Longrightarrow> n \<le> length r"
  using equal_fold_length[of "take n r" t] by simp

lemma ascii_tags: "is_ascii ''</script>''" "is_ascii ''</object>''" "is_ascii ''<script''" "is_ascii ''<object''"
  by (simp_all add: is_ascii_def code_def)

lemma script_end_step:
  assumes "script_end st (c # r) i = Some j"
  shows "j = i \<and> 9 \<le> length (c # r) \<or> (\<exists>st'. script_end st' r (i + 1) = Some j)
    \<or> r \<noteq> [] \<and> (\<exists>st'. script_end st' (tl r) (i + 2) = Some j)"
proof -
  have e: "equal_fold (of_runes (take 9 (c # r))) ''</script>'' \<Longrightarrow> 9 \<le> length (c # r)"
    by (rule of_take_length[OF _ ascii_tags(1)]) simp_all
  show ?thesis
  proof (cases r)
    case Nil
    then show ?thesis
      using assms e by (cases st) (simp_all add: head_or_0_def split: if_splits)
  next
    case (Cons d r')
    then have "r \<noteq> []" by simp
    then show ?thesis
      using assms e unfolding script_end.simps Let_def
      by (cases st) (simp only: script_state.case split: if_splits; blast)+
  qed
qed

lemma script_end_bound: "script_end st r i = Some j \<Longrightarrow> i \<le> j \<and> j + 9 \<le> i + length r"
proof (induction "length r" arbitrary: st r i rule: less_induct)
  case less
  show ?case
  proof (cases r)
    case (Cons c s)
    have "length s < length r" "length (tl s) < length r" using Cons by simp_all
    note ih = less(1)[OF this(1)] less(1)[OF this(2)]
    show ?thesis
      using script_end_step[of st c s i j] less(2) ih Cons by fastforce
  qed (use less(2) in simp)
qed

lemma percent_end_bound: "percent_end r i = Some j \<Longrightarrow> i \<le> j \<and> j + 2 \<le> i + length r"
  by (induction r i rule: percent_end.induct) (auto simp: head_or_0_def split: if_splits list.splits)

lemma object_close_bound: "object_close r i = Some j \<Longrightarrow> i \<le> j \<and> j + 9 \<le> i + length r"
proof (induction r i rule: object_close.induct)
  case (2 c r i)
  have "equal_fold (of_runes (take 9 (c # r))) ''</object>'' \<Longrightarrow> 9 \<le> length (c # r)"
    by (rule of_take_length[OF _ ascii_tags(2)]) simp_all
  then show ?case using 2 by (auto split: if_splits)
qed simp

lemma comment_end_bound: "comment_end r i = Some j \<Longrightarrow> i \<le> j \<and> j + 3 \<le> i + length r"
  by (induction r i rule: comment_end.induct) (auto simp: head_or_0_def neq_Nil_conv split: if_splits list.splits)

lemma length_chars_from: "length (chars_from l i) = Length l - i"
  by (simp add: chars_from_def Length_def)

lemma tag_end_bound: "tag_end l t = Some (e, a) \<Longrightarrow> lx_Index l + 7 \<le> e \<and> e < Length l"
  by (auto simp: tag_end_def Let_def split: if_splits)

lemma isScriptServerStart_bound:
  "isScriptServerStart E l = Some (n, a) \<Longrightarrow> 0 < n \<and> lx_Index l + n \<le> Length l"
  using tag_end_bound[of l "''<script''"] by (fastforce simp: isScriptServerStart_def split: option.splits if_splits)

lemma isObjectStart_bound:
  "isObjectStart E l = Some (n, k) \<Longrightarrow> 0 < n \<and> lx_Index l + n \<le> Length l"
proof -
  assume h: "isObjectStart E l = Some (n, k)"
  obtain e a where t: "tag_end l ''<object'' = Some (e, a)"
    using h by (auto simp: isObjectStart_def split: option.splits)
  show ?thesis
  proof (cases "object_close (chars_from l (e + 1)) (e + 1)")
    case None
    then show ?thesis using h t tag_end_bound[OF t] by (auto simp: isObjectStart_def Let_def split: if_splits)
  next
    case (Some j)
    then show ?thesis
      using h t tag_end_bound[OF t] object_close_bound[OF Some]
      by (auto simp: isObjectStart_def Let_def length_chars_from split: if_splits)
  qed
qed

lemma isIncludeStart_bound:
  "isIncludeStart E l = Some (n, r) \<Longrightarrow> 0 < n \<and> lx_Index l + n \<le> Length l"
  using comment_end_bound[of "chars_from l (lx_Index l + 13)" "lx_Index l + 13"]
  by (fastforce simp: isIncludeStart_def Let_def length_chars_from split: option.splits if_splits)

lemma isScriptEnd_bound: "isScriptEnd l = Some n \<Longrightarrow> 0 < n \<and> lx_Index l + n \<le> Length l"
proof -
  assume h: "isScriptEnd l = Some n"
  then have n: "n = 9" "equal_fold (sliceString l (lx_Index l) (lx_Index l + 9)) ''</script>''"
    by (auto simp: isScriptEnd_def Let_def split: if_splits)
  then have "equal_fold (of_runes (take (min (lx_Index l + 9) (Length l) - lx_Index l) (drop (lx_Index l) (lx_chars l)))) ''</script>''"
    by (simp add: sliceString_def)
  from equal_fold_length[OF this ascii_tags(1)] show ?thesis using n by (simp add: Length_def)
qed

lemma block_end_bound: "block_end l = Some n \<Longrightarrow> 0 < n \<and> lx_Index l + n \<le> Length l"
  using isScriptEnd_bound[of l n] getChar_in[of l "Suc (lx_Index l)" 62]
  by (auto simp: block_end_def split: if_splits)

lemma close_block_ok: "block_end l = Some n \<Longrightarrow> lex_ok l (Inr (close_block n l))"
  using block_end_bound[of l n]
  by (simp add: close_block_def Let_def progress_def forward_def leave_block_def)

lemma advance_to_bound:
  "target \<le> Length l \<Longrightarrow> moves l (advance_to target l) \<and> target \<le> lx_Index (advance_to target l)"
proof (induction target l rule: advance_to.induct)
  case (1 target l)
  show ?case
  proof (cases "target \<le> lx_Index l")
    case True
    then show ?thesis by (subst (1 2) advance_to.simps) simp
  next
    case False
    define l' where "l' = (if IsNewLine (getChar l (lx_Index l)) then skipNewline l else advance 1 l)"
    have i: "lx_Index l < Length l" using False 1(4) by simp
    have n: "getChar l (Suc (lx_Index l)) = 10 \<Longrightarrow> Suc (lx_Index l) < Length l" using getChar_in by fastforce
    have m: "moves l l'" using i n by (auto simp: l'_def skipNewline_def Let_def moves_def)
    have t: "target \<le> Length l'" using 1(4) moves_Length[OF m] by simp
    have s: "advance_to target l = advance_to target l'"
      using False by (subst advance_to.simps) (auto simp: l'_def skipNewline_def IsNewLine_def Let_def)
    have "moves l' (advance_to target l') \<and> target \<le> lx_Index (advance_to target l')"
      using 1(1-3)[OF False refl refl] t
      by (auto simp: l'_def skipNewline_def IsNewLine_def Let_def split: if_splits)
    then show ?thesis unfolding s using moves_trans[OF m] by blast
  qed
qed

lemma tracking_forward:
  "lx_Index l < target \<Longrightarrow> target \<le> Length l \<Longrightarrow> forward l (advanceIndexWithLineTracking target l)"
  using advance_to_bound[of target l] by (auto simp: advanceIndexWithLineTracking_def forward_def moves_def)

lemma forward_fields [simp]:
  "forward l (l'\<lparr>lx_skipHTMLLeadingNL := b\<rparr>) = forward l l'" "forward l (l'\<lparr>lx_preserveFormatting := b\<rparr>) = forward l l'"
  "forward l (l'\<lparr>lx_InASPBlock := b, lx_BlockType := bt\<rparr>) = forward l l'" "forward l (leave_block l') = forward l l'"
  "forward l (l'\<lparr>lx_defaultASPLanguage := s\<rparr>) = forward l l'"
  by (simp_all add: forward_def leave_block_def)

lemma same_place:
  "lx_Index (leave_block l) = lx_Index l" "Length (leave_block l) = Length l" "lx_chars (leave_block l) = lx_chars l"
  by (simp_all add: leave_block_def Length_def)

lemma block_token_ok: "forward l l' \<Longrightarrow> progress l (block_token l l' k) l'"
  by (simp add: progress_def forward_def)

lemma or_to_end_bound:
  "or_to_end l (findASPPercentEndFrom l i) = (a, b) \<Longrightarrow> i \<le> Length l \<Longrightarrow> i \<le> b \<and> b \<le> Length l"
  "or_to_end l (findScriptEndFrom l i) = (a, b) \<Longrightarrow> i \<le> Length l \<Longrightarrow> i \<le> b \<and> b \<le> Length l"
  using percent_end_bound[of "chars_from l i" i] script_end_bound[of Plain "chars_from l i" i]
  by (auto simp: or_to_end_def findASPPercentEndFrom_def findScriptEndFrom_def length_chars_from split: option.splits)

text \<open>A JScript block: either its end lies behind the lexer, or the lexer was already past its start.\<close>

lemma jscript_block_ok:
  assumes "forward l0 l \<or> l0 = l \<and> lx_Index l < b" "b \<le> Length l"
  shows "lex_ok l0 (Inr (jscript_block l0 l b s t))"
proof -
  have "forward l0 (advanceIndexWithLineTracking b l)"
  proof (cases "lx_Index l < b")
    case True
    then show ?thesis using assms tracking_forward[OF True] forward_moves[of l0 l] by (auto simp: forward_def moves_def)
  next
    case False
    then show ?thesis using assms by (simp add: advanceIndexWithLineTracking_def)
  qed
  then show ?thesis by (simp add: jscript_block_def Let_def block_token_ok)
qed

lemma script_block_ok:
  "isScriptServerStart E l = Some (n, s) \<Longrightarrow> lex_ok l (Inr (script_block l n s))"
proof -
  assume h: "isScriptServerStart E l = Some (n, s)"
  have n: "0 < n" "lx_Index l + n \<le> Length l" using isScriptServerStart_bound[OF h] by simp_all
  obtain a b where e: "or_to_end l (findScriptEndFrom l (lx_Index l + n)) = (a, b)"
    by (cases "or_to_end l (findScriptEndFrom l (lx_Index l + n))") auto
  have "lx_Index l < b" "b \<le> Length l" using or_to_end_bound(2)[OF e] n by simp_all
  then have "lex_ok l (Inr (jscript_block l l b t True))" for t using jscript_block_ok by blast
  moreover have "forward l (advance n l)" using n by (simp add: forward_def)
  ultimately show ?thesis using e by (simp add: script_block_def Let_def block_token_ok)
qed

lemma directive_language_same:
  "lx_chars (directive_language E i l) = lx_chars l" "lx_Index (directive_language E i l) = lx_Index l"
  by (simp_all add: directive_language_def Let_def split: option.splits)

lemma percent_block_ok:
  assumes "getChar l0 (lx_Index l0) = 60" "getChar l0 (lx_Index l0 + 1) = 37"
  shows "lex_ok l0 (Inr (percent_block E l0))"
proof -
  define l where "l = (advance 2 l0)\<lparr>lx_InASPBlock := True, lx_BlockType := BlockTypePercent\<rparr>"
  define probe where "probe = lx_Index l + span (\<lambda>c. c \<in> {32, 9, 13, 10}) l (lx_Index l)"
  have "lx_Index l0 + 1 < Length l0" using getChar_in[OF assms(2)] by simp
  then have f: "forward l0 l" by (simp add: l_def forward_def)
  have L: "Length (leave_block l) = Length l" "Length l = Length l0" by (simp_all add: l_def Length_def leave_block_def)
  have f': "forward l0 (leave_block l)" using f by simp
  have at: "forward l0 (set_Index (probe + 1) l)" "probe + 1 \<le> Length l" if "getChar l probe \<in> {61, 64}"
    using getChar_in[of l probe] that f by (auto simp: forward_def probe_def l_def Length_def)
  have js: "lex_ok l0 (Inr (jscript_block l0 (leave_block l) b s t))" if "b \<le> Length l" for b s t
    using jscript_block_ok[of l0 "leave_block l"] f' that L by simp
  have i: "lx_Index l \<le> Length l" using f L by (simp add: forward_def)
  have dir: "forward l0 (set_Index (probe + 1) (directive_language E (probe + 1) l))" if "getChar l probe = 64"
    using at(1) that by (simp add: forward_def directive_language_same)
  show ?thesis
    unfolding percent_block_def l_def[symmetric] Let_def probe_def[symmetric]
    using f at js i dir or_to_end_bound(1)[of l]
    by (auto simp: block_token_ok split: prod.split)
qed

lemma include_block_ok:
  "isIncludeStart E l = Some (n, r) \<Longrightarrow> lex_ok l (Inr (include_block l n p v))"
  using isIncludeStart_bound[of E l n r] by (auto simp: include_block_def Let_def forward_def intro!: block_token_ok)

lemma object_block_ok:
  "isObjectStart E l = Some (n, k) \<Longrightarrow> lex_ok l (Inr (object_block l n k))"
  using isObjectStart_bound[of E l n k] by (auto simp: object_block_def Let_def forward_def intro!: block_token_ok)

lemma server_block_ok: "server_block E l = Some r \<Longrightarrow> lex_ok l (Inr r)"
  unfolding server_block_def
  using percent_block_ok[of l E] script_block_ok[of E l] include_block_ok[of E l] object_block_ok[of E l]
  by (auto split: if_splits option.splits)

section \<open>HTML\<close>

lemma skip_blank_bound: "skip_blank r i line start = (j, line', start') \<Longrightarrow> i \<le> j \<and> j \<le> i + length r"
proof (induction r i line start rule: skip_blank.induct)
  case (2 c r i line start)
  have "head_or_0 r = 10 \<Longrightarrow> r \<noteq> []" by (auto simp: head_or_0_def)
  then show ?case using 2 by (cases r) (auto split: if_splits)
qed simp

lemma post_block_moves: "lx_Index l \<le> Length l \<Longrightarrow> moves l (consumeASPPostBlockLineBreak E l)"
proof -
  assume l: "lx_Index l \<le> Length l"
  obtain i line start where s: "skip_blank (chars_from l (lx_Index l)) (lx_Index l) (lx_CurrentLine l) (lx_CurrentLineStart l) = (i, line, start)"
    by (cases "skip_blank (chars_from l (lx_Index l)) (lx_Index l) (lx_CurrentLine l) (lx_CurrentLineStart l)") auto
  have "i \<le> Length l" using skip_blank_bound[OF s] l by (simp add: length_chars_from)
  moreover have "getChar l j = 13 \<or> getChar l j = 10 \<Longrightarrow> j < Length l" "getChar l (j + 1) = 10 \<Longrightarrow> j + 1 < Length l" for j
    using getChar_in by fastforce+
  ultimately show ?thesis
    using s l unfolding consumeASPPostBlockLineBreak_def Let_def
    by (simp add: moves_def) (metis (no_types, lifting) Suc_leI add_2_eq_Suc' add_Suc_right Suc_eq_plus1 le_add1 le_Suc_eq trans_le_add1)
qed

lemma html_rune_forward: "\<not> isEof l \<Longrightarrow> forward l (html_rune l)"
proof -
  assume "\<not> isEof l"
  moreover have "getChar l (Suc (lx_Index l)) = 10 \<Longrightarrow> Suc (lx_Index l) < Length l" using getChar_in by fastforce
  ultimately show ?thesis by (auto simp: html_rune_def Let_def forward_def isEof_def)
qed

text \<open>HTML from \<open>start\<close> on: the token begins at \<open>start\<close> or later, and the lexer only moves forward; when
  it does not move at all, the source has ended.\<close>

definition html_result :: "Lexer \<Rightarrow> nat \<Rightarrow> Token \<times> Lexer \<Rightarrow> bool" where
  "html_result l start r \<longleftrightarrow>
     moves l (snd r) \<and> start \<le> tk_Start (fst r) \<and> tk_Start (fst r) \<le> tk_End (fst r) \<and> tk_End (fst r) \<le> lx_Index (snd r)
     \<and> (start < lx_Index (snd r) \<or> isEof (snd r))"

lemma html_loop_ok: "start \<le> lx_Index l \<Longrightarrow> html_result l start (html_loop E l start line ls)"
proof (induction E l start line ls rule: html_loop.induct)
  case (1 E l start line ls)
  show ?case
  proof (cases "isEof l")
    case True
    then show ?thesis using 1(2) by (subst html_loop.simps) (auto simp: html_result_def)
  next
    case False
    show ?thesis
    proof (cases "server_block E l")
      case None
      have f: "forward l (html_rune l)" by (rule html_rune_forward[OF False])
      have "html_result (html_rune l) start (html_loop E (html_rune l) start line ls)"
        using 1(1)[OF False None] 1(2) html_rune_simps(3)[of l] by linarith
      moreover have "moves l (html_rune l)" using f less_imp_le[OF html_rune_simps(3)[of l]] by (auto simp: forward_def moves_def)
      ultimately show ?thesis
        using None False moves_trans by (subst html_loop.simps) (auto simp: html_result_def)
    next
      case (Some r)
      obtain t l' where r: "r = (t, l')" by (cases r)
      have p: "progress l t l'" using server_block_ok[OF Some] r by simp
      show ?thesis
        using False Some r p 1(2) by (subst html_loop.simps)
          (auto simp: html_before_def html_result_def progress_def forward_def moves_def)
    qed
  qed
qed

lemma nextHTML_ok:
  assumes "\<not> isEof l" "nextHTML E l = (t, l')"
  shows "progress l t l'"
proof -
  define l1 where "l1 = consumeASPPostBlockLineBreak E l"
  have m: "moves l l1" using post_block_moves assms(1) by (simp add: l1_def isEof_def)
  have "html_result l1 (lx_Index l1) (t, l')"
    using html_loop_ok[of "lx_Index l1" l1 E "lx_CurrentLine l1" "lx_CurrentLineStart l1"] assms(2)
    by (simp add: nextHTML_def l1_def[symmetric])
  then show ?thesis
    using m assms(1) by (auto simp: html_result_def progress_def forward_def moves_def isEof_def Length_def)
qed

section \<open>One token\<close>

lemma moves_progress: "moves l l1 \<Longrightarrow> progress l1 t l2 \<Longrightarrow> progress l t l2"
  by (auto simp: progress_def forward_def moves_def Length_def)

lemma next_token_ok: "\<not> isEof l \<Longrightarrow> NextToken E l = Inr (t, l') \<Longrightarrow> progress l t l'"
proof -
  assume l: "\<not> isEof l" and n: "NextToken E l = Inr (t, l')"
  show ?thesis
  proof (cases "lx_Mode l = ModeASP \<and> \<not> lx_InASPBlock l")
    case True
    then show ?thesis using nextHTML_ok[OF l, of E] n by (simp add: NextToken_def)
  next
    case False
    then obtain l1 where s: "skipWhitespaces l = Inr l1"
      using n by (auto simp: NextToken_def split: sum.splits if_splits)
    have m: "moves l l1" by (rule skipWhitespaces_moves[OF s])
    show ?thesis
    proof (cases "isEof l1")
      case True
      then show ?thesis
        using n s False l m by (auto simp: NextToken_def progress_def forward_def moves_def isEof_def Length_def)
    next
      case noteof: False
      have "progress l1 t l'"
      proof (cases "block_end l1")
        case None
        then show ?thesis using code_token_ok[OF noteof, of E] n s False noteof by (simp add: NextToken_def)
      next
        case (Some k)
        then show ?thesis using close_block_ok[OF Some] n s False noteof by (simp add: NextToken_def)
      qed
      then show ?thesis by (rule moves_progress[OF m])
    qed
  qed
qed

text \<open>
  C16. Scanning makes progress and stays within the source: whatever the text and the mode (VBScript, ASP
  page, \<open>Eval\<close>), a token returned before the end of the source moves the index forward, not beyond the
  source, and lies between the old index and the new one.
\<close>

theorem scanning_progresses:
  assumes "\<not> isEof l" "NextToken E l = Inr (t, l')"
  shows "lx_Index l < lx_Index l' \<and> lx_Index l' \<le> Length l \<and> lx_chars l' = lx_chars l
    \<and> lx_Index l \<le> tk_Start t \<and> tk_Start t \<le> tk_End t \<and> tk_End t \<le> lx_Index l'"
  using next_token_ok[OF assms] by (simp_all add: progress_def forward_def)

section \<open>The whole source\<close>

function AsSequence :: "lex_env \<Rightarrow> Lexer \<Rightarrow> Token list lex" where
  "AsSequence E l =
     (if isEof l then Inr []
      else case NextToken E l of
        Inl e \<Rightarrow> Inl e
      | Inr (t, l') \<Rightarrow> (case AsSequence E l' of Inl e \<Rightarrow> Inl e | Inr ts \<Rightarrow> Inr (t # ts)))"
  by pat_completeness auto
termination
  by (relation "measure (\<lambda>(E, l). Length l - lx_Index l)")
     (auto dest!: next_token_ok simp: progress_def forward_def Length_def)

declare AsSequence.simps [simp del]

lemma sequence_in_order:
  "AsSequence E l = Inr ts \<Longrightarrow>
     sorted_wrt (\<lambda>a b. tk_End a \<le> tk_Start b) ts
     \<and> (\<forall>t \<in> set ts. lx_Index l \<le> tk_Start t \<and> tk_Start t \<le> tk_End t \<and> tk_End t \<le> Length l)"
proof (induction E l arbitrary: ts rule: AsSequence.induct)
  case (1 E l)
  show ?case
  proof (cases "isEof l")
    case True
    then show ?thesis using 1(2) by (subst (asm) AsSequence.simps) simp
  next
    case False
    then obtain t l' ts' where n: "NextToken E l = Inr (t, l')" and r: "AsSequence E l' = Inr ts'" and ts: "ts = t # ts'"
      using 1(2) by (subst (asm) AsSequence.simps) (auto split: sum.splits)
    have "progress l t l'" using next_token_ok[OF False n] .
    then show ?thesis
      using 1(1)[OF False n refl r] ts by (fastforce simp: progress_def forward_def Length_def)
  qed
qed

text \<open>
  C17. \<open>AsSequence\<close> returns on every source, with the tokens in the order of the source: each ends before the
  next begins, and all of them lie inside it.
\<close>

theorem tokens_in_order:
  assumes "AsSequence E (NewLexer E src) = Inr ts"
  shows "sorted_wrt (\<lambda>a b. tk_End a \<le> tk_Start b) ts
    \<and> list_all (\<lambda>t. tk_Start t \<le> tk_End t \<and> tk_End t \<le> length (to_runes src)) ts"
  using sequence_in_order[OF assms] by (auto simp: NewLexer_def Length_def list_all_iff)

text \<open>An environment for examples in ASCII without dates.\<close>

definition ascii_env :: lex_env where
  "ascii_env = \<lparr>le_lower = id, le_upper = id, le_time_Parse = (\<lambda>f s. None)\<rparr>"

theorem scanning_progresses_witness:
  "\<exists>t l'. NextToken ascii_env (NewLexer ascii_env ''=+'') = Inr (t, l') \<and> 0 < lx_Index l'"
proof -
  let ?l = "NewLexer ascii_env ''=+''"
  have e: "\<not> isEof ?l" by code_simp
  have "\<not> isl (NextToken ascii_env ?l)" by code_simp
  then obtain t l' where "NextToken ascii_env ?l = Inr (t, l')" by (cases "NextToken ascii_env ?l") auto
  then show ?thesis using scanning_progresses[OF e] by fastforce
qed

theorem tokens_in_order_witness:
  "\<exists>ts. AsSequence ascii_env (NewLexer ascii_env ''=+'') = Inr ts \<and> sorted_wrt (\<lambda>a b. tk_End a \<le> tk_Start b) ts"
proof -
  let ?r = "AsSequence ascii_env (NewLexer ascii_env ''=+'')"
  have "\<not> isl ?r" by code_simp
  then obtain ts where "?r = Inr ts" by (cases ?r) auto
  then show ?thesis using tokens_in_order[of ascii_env "''=+''" ts] by blast
qed

end
