(* ===== verification/LexerLiterals.thy ===== *)
theory LexerLiterals
  imports LexerLaws UserSubs
begin

text \<open>
  What the literals of VBScript source denote: string literals, read by the fast path of ASCII source or by
  the slow path, and decimal integers; and a literal the scanner rejects.
\<close>

lemma chars_from_Suc: "chars_from l (Suc i) = tl (chars_from l i)"
  by (simp add: chars_from_def drop_Suc tl_drop)

lemma chars_from_advance [simp]: "chars_from (advance n l) = chars_from l" "chars_from (set_Index n l) = chars_from l"
  by (simp_all add: chars_from_def fun_eq_iff)

section \<open>String literals\<close>

text \<open>The text of a string literal: quotes are doubled.\<close>

definition double_quotes :: "rune list \<Rightarrow> rune list" where
  "double_quotes s = concat (map (\<lambda>c. if c = 34 then [34, 34] else [c]) s)"

lemma double_quotes_simps [simp]:
  "double_quotes [] = []" "double_quotes (c # s) = (if c = 34 then [34, 34] else [c]) @ double_quotes s"
  by (simp_all add: double_quotes_def)

lemma scan_double_quotes:
  "\<not> list_ex IsNewLine s \<Longrightarrow> rest = [] \<or> hd rest \<noteq> 34 \<Longrightarrow>
     scan_string (double_quotes s @ 34 # rest) = (s, Suc (length (double_quotes s)), False)"
  by (induction s) (cases rest; simp)+

text \<open>A run of runes without quotes or line breaks is read as it stands.\<close>

lemma scan_run:
  assumes "takeWhile (\<lambda>b. \<not> (b = 34 \<or> b = 13 \<or> b = 10)) cs = s" "cs = s @ 34 # rest" "rest = [] \<or> hd rest \<noteq> 34"
  shows "scan_string cs = (s, Suc (length s), False)"
proof -
  have n: "\<forall>c\<in>set s. \<not> (c = 34 \<or> c = 13 \<or> c = 10)" 
    using assms(1) by (auto dest!: set_takeWhileD)
  then have "double_quotes s = s" by (induction s) simp_all
  moreover have "\<not> list_ex IsNewLine s" using n by (auto simp: list_ex_iff IsNewLine_def)
  ultimately show ?thesis using scan_double_quotes[OF _ assms(3), of s] assms(2) by simp
qed

lemma fast_path:
  "nextStringLiteral l = string_slow_path l"
proof (cases "lx_asciiOnly l")
  case True
  define P where "P = (\<lambda>b::rune. \<not> (b = 34 \<or> b = 13 \<or> b = 10))"
  define start where "start = lx_Index l + 1"
  define n where "n = span P l start"
  define cs where "cs = chars_from l start"
  have fast: "nextStringLiteral l =
      (if Length l \<le> start + n then string_slow_path l
       else if lx_chars l ! (start + n) = 34 then
         (if start + n + 1 < Length l \<and> lx_chars l ! (start + n + 1) = 34 then string_slow_path l
          else Inr (string_token (set_Index (start + n + 1) l) (lx_Index l)
            (of_runes (take (start + n - start) cs)), set_Index (start + n + 1) l))
       else string_slow_path l)"
    unfolding nextStringLiteral_def P_def n_def start_def cs_def by (simp only: True Let_def if_True)
  show ?thesis
  proof (cases "start + n < Length l \<and> lx_chars l ! (start + n) = 34
      \<and> \<not> (start + n + 1 < Length l \<and> lx_chars l ! (start + n + 1) = 34)")
    case False
    then show ?thesis unfolding fast by auto
  next
    case q: True
    have n: "n = length (takeWhile P cs)" by (simp add: n_def span_def cs_def)
    have c: "cs = takeWhile P cs @ drop n cs" using takeWhile_dropWhile_id[of P cs] dropWhile_eq_drop[of P cs] by (simp add: n)
    have d: "drop n cs = drop (start + n) (lx_chars l)" by (simp add: cs_def chars_from_def add.commute)
    have d1: "drop (start + n) (lx_chars l) = 34 # drop (Suc (start + n)) (lx_chars l)"
      using q Cons_nth_drop_Suc[of "start + n" "lx_chars l"] by (simp add: Length_def)
    have "drop (Suc (start + n)) (lx_chars l) = [] \<or> hd (drop (Suc (start + n)) (lx_chars l)) \<noteq> 34"
      using q by (auto simp: Length_def hd_drop_conv_nth)
    note h = this
    have e: "cs = takeWhile P cs @ 34 # drop (Suc (start + n)) (lx_chars l)" by (rule trans[OF c]) (simp only: d d1)
    have s: "scan_string cs = (takeWhile P cs, Suc n, False)"
      using scan_run[OF refl _ h, of cs] e unfolding P_def[symmetric] n[symmetric] by blast
    have t: "take n cs = takeWhile P cs" by (simp only: n takeWhile_eq_take[symmetric])
    have "nextStringLiteral l =
        Inr (string_token (set_Index (start + n + 1) l) (lx_Index l) (of_runes (take n cs)), set_Index (start + n + 1) l)"
      unfolding fast using q by auto
    moreover have "string_slow_path l =
        Inr (string_token (set_Index (start + n + 1) l) (lx_Index l) (of_runes (takeWhile P cs)), set_Index (start + n + 1) l)"
      using s by (simp add: string_slow_path_def Let_def cs_def start_def advance_def)
    ultimately show ?thesis using t by simp
  qed
qed (simp add: nextStringLiteral_def)

text \<open>
  C19. The fast path for string literals in ASCII source is only an optimisation: with it or without it the
  token, the error and the position behind the literal are the same on every input.
\<close>

theorem string_fast_path_is_exact: "nextStringLiteral l = string_slow_path l"
  by (rule fast_path)

lemma string_round_trip:
  assumes "chars_from l (lx_Index l) = 34 # double_quotes s @ 34 # rest" "rest = [] \<or> hd rest \<noteq> 34"
    "\<not> list_ex IsNewLine s"
  shows "\<exists>t l'. nextStringLiteral l = Inr (t, l') \<and> tk_kind t = StringLiteralToken (of_runes s)
    \<and> chars_from l' (lx_Index l') = rest"
proof -
  let ?n = "Suc (length (double_quotes s))"
  have t: "chars_from l (lx_Index l + 1) = double_quotes s @ 34 # rest"
    using assms(1) by (simp add: chars_from_Suc)
  have "drop (1 + ?n + lx_Index l) (lx_chars l) = drop (1 + ?n) (chars_from l (lx_Index l))"
    by (simp add: chars_from_def)
  also have "\<dots> = rest" unfolding assms(1) by simp
  finally have "chars_from (advance (1 + ?n) l) (lx_Index l + (1 + ?n)) = rest"
    by (simp add: chars_from_def add.commute)
  then show ?thesis
    unfolding fast_path string_slow_path_def Let_def t scan_double_quotes[OF assms(3,2)]
    by (simp add: string_token_def)
qed

text \<open>
  C18. String literals read back: a text without line breaks, written between quotes with its own quotes
  doubled and not followed by another quote, is one string token with exactly that text, and the scanner goes
  on with what follows.
\<close>

theorem string_literal_round_trip:
  assumes "chars_from l (lx_Index l) = 34 # double_quotes s @ 34 # rest" "rest = [] \<or> hd rest \<noteq> 34"
    "\<not> list_ex IsNewLine s"
  shows "\<exists>t l'. nextStringLiteral l = Inr (t, l') \<and> tk_kind t = StringLiteralToken (of_runes s)
    \<and> chars_from l' (lx_Index l') = rest"
  using assms by (rule string_round_trip)

theorem string_literal_round_trip_witness:
  "\<exists>t l'. nextStringLiteral (NewLexer ascii_env [CHR 0x22, CHR ''a'', CHR 0x22, CHR 0x22, CHR 0x22]) = Inr (t, l')
     \<and> tk_kind t = StringLiteralToken [CHR ''a'', CHR 0x22]"
proof -
  define l where "l = NewLexer ascii_env [CHR 0x22, CHR ''a'', CHR 0x22, CHR 0x22, CHR 0x22]"
  have c: "chars_from l (lx_Index l) = 34 # double_quotes [97, 34] @ 34 # []" unfolding l_def by code_simp
  have t: "of_runes [97, 34] = [CHR ''a'', CHR 0x22]" by (simp add: of_runes_def rune_bytes_def char_of_def bit_0)
  have "\<not> list_ex IsNewLine [97, 34]" by (simp add: IsNewLine_def)
  from string_literal_round_trip[OF c disjI1[OF refl] this] show ?thesis
    unfolding l_def[symmetric] t by blast
qed

section \<open>Decimal integers\<close>

lemma take_span: "of_runes (takeWhile p (chars_from l (lx_Index l))) = sliceString l (lx_Index l) (lx_Index l + span p l (lx_Index l))"
proof -
  have "lx_Index l + span p l (lx_Index l) \<le> Length l \<or> span p l (lx_Index l) = 0"
    using span_in[of "lx_Index l" p l] by auto
  then show ?thesis
    by (auto simp: sliceString_def Let_def span_def chars_from_def takeWhile_eq_take[symmetric] min_def)
qed

lemma decimal_text:
  assumes "chars_from l (lx_Index l) = ds @ rest" "list_all IsDecDigit ds" "rest = [] \<or> \<not> IsDecDigit (hd rest)"
  shows "getDecStr l = (map char_of ds, advance (length ds) l)"
    "chars_from l (lx_Index l + length ds) = rest"
proof -
  have t: "takeWhile IsDecDigit (chars_from l (lx_Index l)) = ds"
    using assms by (cases rest) (auto simp: list_all_iff takeWhile_append2)
  then have "span IsDecDigit l (lx_Index l) = length ds" by (simp add: span_def)
  moreover have "list_all (\<lambda>r. r < 128) ds" using assms(2) by (auto simp: list_all_iff IsDecDigit_def)
  ultimately show "getDecStr l = (map char_of ds, advance (length ds) l)"
    using t take_span[of IsDecDigit l] by (simp add: getDecStr_def getStrByPredicate_def Let_def of_runes_ascii)
  have "drop (length ds) (chars_from l (lx_Index l)) = rest" using assms(1) by simp
  then show "chars_from l (lx_Index l + length ds) = rest" by (simp add: chars_from_def add.commute)
qed

lemma getChar_from: "getChar l i = head_or_0 (chars_from l i)"
  by (cases "i < Length l") (auto simp: getChar_def head_or_0_def chars_from_def Length_def hd_drop_conv_nth split: list.split
    dest: arg_cong[of _ _ hd] arg_cong[of _ _ length])

text \<open>The digits of a number as runes.\<close>

definition digit_runes :: "nat \<Rightarrow> rune list" where
  "digit_runes n = map code (nat_digits n)"

lemma digit_runes_digits: "list_all IsDecDigit (digit_runes n)" "digit_runes n \<noteq> []" "map char_of (digit_runes n) = nat_digits n"
  using nat_digits_digits[of n]
  by (auto simp: digit_runes_def list_all_iff is_digit_def IsDecDigit_def code_def comp_def)

lemma parse_digits_base: "list_all is_digit s \<Longrightarrow> parse_base_digits 10 acc s = Some (digits_value acc s)"
  by (induction s arbitrary: acc) (auto simp: hex_value_def is_digit_def)

lemma parse_decimal: "n < 2 ^ 63 \<Longrightarrow> parse_int_base 10 (nat_digits n) = Some n"
  using nat_digits_digits[of n] by (simp add: parse_int_base_def parse_digits_base)

lemma digits_first:
  assumes "chars_from l (lx_Index l) = ds @ rest" "list_all IsDecDigit ds" "ds \<noteq> []"
  shows "getChar l (lx_Index l) \<noteq> 46" "getChar l (lx_Index l) \<noteq> 38"
  using assms by (cases ds; simp add: getChar_from head_or_0_def IsDecDigit_def)+

lemma integer_round_trip:
  assumes "chars_from l (lx_Index l) = digit_runes n @ rest" "n < 2 ^ 63"
    "\<not> IsDecDigit (head_or_0 rest)" "\<not> IsIdentifierStart (head_or_0 rest)" "head_or_0 rest \<noteq> 46"
  shows "\<exists>t l'. nextNumericLiteral l = Inr (t, l') \<and> tk_kind t = DecIntegerLiteralToken (word_of_nat n)
    \<and> chars_from l' (lx_Index l') = rest"
proof -
  define l1 where "l1 = advance (length (digit_runes n)) l"
  have h: "rest = [] \<or> \<not> IsDecDigit (hd rest)" using assms(3) by (cases rest) (auto simp: head_or_0_def)
  note d = decimal_text[OF assms(1) digit_runes_digits(1) h]
  have g: "getDecStr l = (nat_digits n, l1)" using d(1) by (simp add: digit_runes_digits(3) l1_def)
  have c: "getChar l1 (lx_Index l1) = head_or_0 rest" using d(2) by (simp add: l1_def getChar_from)
  have e: "\<not> CharEquals (head_or_0 rest) 101"
    using assms(4) by (auto simp: CharEquals_def runeToUpper_def IsIdentifierStart_def split: if_splits)
  have "nextNumericLiteral l = finish_integer (nat_digits n) 10 (lx_Index l) l1"
    using g c e assms(4,5) digits_first[OF assms(1) digit_runes_digits(1,2)]
    by (simp add: nextNumericLiteral_def Let_def decimal_rest_def scan_fraction_def scan_exponent_def)
  then show ?thesis
    using d(2) by (simp add: finish_integer_def parseInteger_def parse_decimal[OF assms(2)] integer_kind_def l1_def)
qed

text \<open>
  C20. Decimal integers read back: the digits of a number below 2^63, followed by anything but a digit, a
  letter or a point, are one integer token with that value, and the scanner goes on behind the digits.
\<close>

theorem integer_literal_round_trip:
  assumes "chars_from l (lx_Index l) = digit_runes n @ rest" "n < 2 ^ 63"
    "\<not> IsDecDigit (head_or_0 rest)" "\<not> IsIdentifierStart (head_or_0 rest)" "head_or_0 rest \<noteq> 46"
  shows "\<exists>t l'. nextNumericLiteral l = Inr (t, l') \<and> tk_kind t = DecIntegerLiteralToken (word_of_nat n)
    \<and> chars_from l' (lx_Index l') = rest"
  using assms by (rule integer_round_trip)

theorem integer_literal_round_trip_witness:
  "\<exists>t l'. nextNumericLiteral (NewLexer ascii_env ''42+'') = Inr (t, l') \<and> tk_kind t = DecIntegerLiteralToken 42"
proof -
  define l where "l = NewLexer ascii_env ''42+''"
  have c: "chars_from l (lx_Index l) = digit_runes 42 @ [43]" unfolding l_def by code_simp
  show ?thesis
    using integer_literal_round_trip[OF c] unfolding l_def[symmetric]
    by (auto simp: head_or_0_def IsDecDigit_def IsIdentifierStart_def)
qed

text \<open>
  C21. A number with a letter directly behind its digits is rejected with \<open>ExpectedEndOfStatement\<close>, whatever
  the letter: the check stands before the scan of the exponent, so \<open>1e5\<close>, which VBScript accepts as a number,
  is a syntax error, while \<open>1.0e5\<close> is not.
\<close>

theorem digits_before_letter_rejected:
  assumes "chars_from l (lx_Index l) = ds @ c # rest" "list_all IsDecDigit ds" "ds \<noteq> []" "IsIdentifierStart c"
  shows "\<exists>l'. nextNumericLiteral l = Inl (vbSyntaxError l' ExpectedEndOfStatement)"
proof -
  have "\<not> IsDecDigit c" using assms(4) by (auto simp: IsDecDigit_def IsIdentifierStart_def)
  then have h: "c # rest = [] \<or> \<not> IsDecDigit (hd (c # rest))" by simp
  note d = decimal_text[OF assms(1,2) h]
  show ?thesis
    using d digits_first[OF assms(1-3)] assms(4)
    by (auto simp: nextNumericLiteral_def Let_def getChar_from head_or_0_def)
qed

theorem digits_before_letter_rejected_witness:
  "\<exists>l'. nextNumericLiteral (NewLexer ascii_env ''1e5'') = Inl (vbSyntaxError l' ExpectedEndOfStatement)"
proof -
  define l where "l = NewLexer ascii_env ''1e5''"
  have c: "chars_from l (lx_Index l) = [49] @ 101 # [53]" unfolding l_def by code_simp
  show ?thesis
    using digits_before_letter_rejected[OF c] unfolding l_def[symmetric]
    by (simp add: IsDecDigit_def IsIdentifierStart_def)
qed

end
