(* ===== verification/GoText.thy ===== *)
theory GoText
  imports LexText
begin

text \<open>
  What the ASP objects use of \<open>strings\<close>, \<open>net/url\<close>, \<open>net/textproto\<close> and, on Unix, \<open>path/filepath\<close>, with
  the laws their clients need: splitting and joining, percent encoding, header keys, clean paths.
\<close>

section \<open>Splitting and joining\<close>

text \<open>\<open>strings.Split\<close> at a one-byte separator, \<open>strings.Join\<close>.\<close>

fun split_char :: "char \<Rightarrow> string \<Rightarrow> string list" where
  "split_char c [] = [[]]"
| "split_char c (x # s) =
     (if x = c then [] # split_char c s
      else case split_char c s of [] \<Rightarrow> [[x]] | p # ps \<Rightarrow> (x # p) # ps)"

fun str_join :: "string \<Rightarrow> string list \<Rightarrow> string" where
  "str_join sep [] = []"
| "str_join sep [p] = p"
| "str_join sep (p # q # ps) = p @ sep @ str_join sep (q # ps)"

definition ends_with :: "string \<Rightarrow> string \<Rightarrow> bool" where
  "ends_with p s \<longleftrightarrow> starts_with (rev p) (rev s)"

lemma starts_with_iff: "starts_with p s \<longleftrightarrow> (\<exists>r. s = p @ r)"
  by (induction p s rule: starts_with.induct) auto

lemma split_nonempty [simp]: "split_char c s \<noteq> []"
  by (induction s) (auto split: list.split)

lemma join_Cons_nonempty: "ps \<noteq> [] \<Longrightarrow> str_join sep (p # ps) = p @ sep @ str_join sep ps"
  by (cases ps) simp_all

lemma join_split [simp]: "str_join [c] (split_char c s) = s"
proof (induction s)
  case (Cons x s)
  obtain p ps where "split_char c s = p # ps" by (cases "split_char c s") auto
  then show ?case using Cons by (cases ps) auto
qed simp

lemma split_plain: "c \<notin> set p \<Longrightarrow> split_char c p = [p]"
  by (induction p) auto

lemma split_append: "c \<notin> set p \<Longrightarrow> split_char c (p @ c # s) = p # split_char c s"
  by (induction p) auto

lemma split_join: "ps \<noteq> [] \<Longrightarrow> \<forall>p\<in>set ps. c \<notin> set p \<Longrightarrow> split_char c (str_join [c] ps) = ps"
  by (induction "[c]" ps rule: str_join.induct) (auto simp: split_plain split_append)

lemma split_parts: "p \<in> set (split_char c s) \<Longrightarrow> c \<notin> set p"
proof (induction s arbitrary: p)
  case (Cons x s)
  obtain q qs where q: "split_char c s = q # qs" by (cases "split_char c s") auto
  show ?case using Cons.prems Cons.IH q by (cases "x = c") auto
qed simp

section \<open>Percent encoding\<close>

definition unreserved :: "char \<Rightarrow> bool" where
  "unreserved c \<longleftrightarrow> (let n = code c in (97 \<le> n \<and> n \<le> 122) \<or> (65 \<le> n \<and> n \<le> 90) \<or> (48 \<le> n \<and> n \<le> 57)
     \<or> n = 45 \<or> n = 95 \<or> n = 46 \<or> n = 126)"

definition upper_hex :: "nat \<Rightarrow> char" where
  "upper_hex n = char_of (if n < 10 then 48 + n else 55 + n)"

definition percent_byte :: "char \<Rightarrow> string" where
  "percent_byte c = [CHR ''%'', upper_hex (code c div 16), upper_hex (code c mod 16)]"

text \<open>\<open>url.QueryEscape\<close> and \<open>url.PathEscape\<close>.\<close>

definition query_char :: "char \<Rightarrow> string" where
  "query_char c = (if unreserved c then [c] else if c = CHR '' '' then ''+'' else percent_byte c)"

definition QueryEscape :: "string \<Rightarrow> string" where
  "QueryEscape s = concat (map query_char s)"

definition PathEscape :: "string \<Rightarrow> string" where
  "PathEscape s = concat (map (\<lambda>c. if unreserved c \<or> c \<in> set ''$&+=:@'' then [c] else percent_byte c) s)"

lemma code_less [simp]: "code c < 256"
  by (simp add: code_def)

lemma code_inject: "code c = code d \<longleftrightarrow> c = d"
  by (simp add: code_def)

lemma char_of_iff: "n < 256 \<Longrightarrow> char_of n = c \<longleftrightarrow> n = code c"
  by (auto simp: code_def)

lemma upper_hex_code: "n < 16 \<Longrightarrow> code (upper_hex n) = (if n < 10 then 48 + n else 55 + n)"
  by (simp add: upper_hex_def code_def)

section \<open>Header keys\<close>

text \<open>\<open>textproto.CanonicalMIMEHeaderKey\<close>: a key with a byte that no token has is left as it is.\<close>

definition token_byte :: "char \<Rightarrow> bool" where
  "token_byte c \<longleftrightarrow> is_digit c \<or> 97 \<le> code (lower_char c) \<and> code (lower_char c) \<le> 122
     \<or> c \<in> set ''!#$%&*+-.^_`|~'' \<or> code c = 39"

definition upper_char :: "char \<Rightarrow> char" where
  "upper_char c = (if 97 \<le> code c \<and> code c \<le> 122 then char_of (code c - 32) else c)"

fun capitalize :: "bool \<Rightarrow> string \<Rightarrow> string" where
  "capitalize up [] = []"
| "capitalize up (c # s) = (if up then upper_char c else lower_char c) # capitalize (c = CHR ''-'') s"

definition CanonicalHeaderKey :: "string \<Rightarrow> string" where
  "CanonicalHeaderKey s = (if list_all token_byte s then capitalize True s else s)"

section \<open>Paths\<close>

text \<open>\<open>filepath.Clean\<close>, \<open>Join\<close>, \<open>Dir\<close>, \<open>Base\<close>, \<open>IsAbs\<close> and \<open>Rel\<close> of rooted paths on Unix, by the elements of
  the path.\<close>

fun clean_step :: "bool \<Rightarrow> string list \<Rightarrow> string \<Rightarrow> string list" where
  "clean_step rooted st e =
     (if e = [] \<or> e = ''.'' then st
      else if e = ''..'' then
        (case st of
           [] \<Rightarrow> (if rooted then [] else [''..''])
         | t # st' \<Rightarrow> (if t = ''..'' then ''..'' # st else st'))
      else e # st)"

text \<open>The elements of the cleaned path, last first.\<close>

definition clean_elems :: "bool \<Rightarrow> string \<Rightarrow> string list" where
  "clean_elems rooted p = fold (\<lambda>e st. clean_step rooted st e) (split_char (CHR ''/'') p) []"

definition IsAbs :: "string \<Rightarrow> bool" where
  "IsAbs p = starts_with ''/'' p"

definition path_text :: "bool \<Rightarrow> string list \<Rightarrow> string" where
  "path_text rooted es =
     (if rooted then CHR ''/'' # str_join ''/'' es else if es = [] then ''.'' else str_join ''/'' es)"

definition Clean :: "string \<Rightarrow> string" where
  "Clean p = path_text (IsAbs p) (rev (clean_elems (IsAbs p) p))"

definition path_Join :: "string list \<Rightarrow> string" where
  "path_Join ps = (let qs = dropWhile (\<lambda>p. p = []) ps in if qs = [] then [] else Clean (str_join ''/'' qs))"

definition path_Abs :: "string \<Rightarrow> string \<Rightarrow> string" where
  "path_Abs cwd p = (if IsAbs p then Clean p else path_Join [cwd, p])"

definition up_to_slash :: "string \<Rightarrow> string" where
  "up_to_slash p = rev (dropWhile (\<lambda>c. c \<noteq> CHR ''/'') (rev p))"

definition path_Dir :: "string \<Rightarrow> string" where
  "path_Dir p = Clean (up_to_slash p)"

definition path_Base :: "string \<Rightarrow> string" where
  "path_Base p =
     (if p = [] then ''.''
      else let q = rev (dropWhile (\<lambda>c. c = CHR ''/'') (rev p))
           in if q = [] then ''/'' else rev (takeWhile (\<lambda>c. c \<noteq> CHR ''/'') (rev q)))"

fun common_prefix :: "string list \<Rightarrow> string list \<Rightarrow> string list \<times> string list" where
  "common_prefix (a # as) (b # bs) = (if a = b then common_prefix as bs else (a # as, b # bs))"
| "common_prefix as bs = (as, bs)"

definition path_Rel :: "string \<Rightarrow> string \<Rightarrow> string" where
  "path_Rel base targ =
     (case common_prefix (rev (clean_elems True base)) (rev (clean_elems True targ)) of
        (up, down) \<Rightarrow> (let es = replicate (length up) ''..'' @ down in if es = [] then ''.'' else str_join ''/'' es))"

text \<open>A plain element names a file: it is neither empty nor a dot element and has no slash.\<close>

definition plain_elem :: "string \<Rightarrow> bool" where
  "plain_elem e \<longleftrightarrow> e \<noteq> [] \<and> e \<noteq> ''.'' \<and> e \<noteq> ''..'' \<and> CHR ''/'' \<notin> set e"

definition rooted_path :: "string list \<Rightarrow> string" where
  "rooted_path es = CHR ''/'' # str_join ''/'' es"

lemma fold_plain: "\<forall>e\<in>set es. plain_elem e \<Longrightarrow> fold (\<lambda>e st. clean_step r st e) es st = rev es @ st"
  by (induction es arbitrary: st) (auto simp: plain_elem_def)

lemma clean_elems_plain:
  assumes "\<forall>e\<in>set es. plain_elem e"
  shows "clean_elems True (rooted_path es) = rev es"
proof (cases "es = []")
  case False
  then have "split_char (CHR ''/'') (rooted_path es) = [] # es"
    using split_join[of es "CHR ''/''"] assms by (simp add: rooted_path_def plain_elem_def)
  then show ?thesis using fold_plain[OF assms] by (simp add: clean_elems_def)
qed (simp add: clean_elems_def rooted_path_def)

lemma Clean_rooted: "\<forall>e\<in>set es. plain_elem e \<Longrightarrow> Clean (rooted_path es) = rooted_path es"
  using clean_elems_plain[of es] by (simp add: Clean_def IsAbs_def path_text_def) (simp add: rooted_path_def)

text \<open>The elements of a cleaned rooted path are plain, whatever the path.\<close>

lemma clean_step_plain:
  "\<forall>e\<in>set st. plain_elem e \<Longrightarrow> CHR ''/'' \<notin> set e \<Longrightarrow> \<forall>x\<in>set (clean_step True st e). plain_elem x"
proof -
  assume st: "\<forall>e\<in>set st. plain_elem e" and e: "CHR ''/'' \<notin> set e"
  consider "e = [] \<or> e = ''.''" | "e = ''..''" | "plain_elem e" using e by (auto simp: plain_elem_def)
  then show ?thesis
  proof cases
    case 2
    then show ?thesis using st by (cases st) (simp_all add: plain_elem_def)
  qed (use st in \<open>simp_all add: plain_elem_def\<close>)
qed

lemma clean_fold_plain:
  "\<forall>e\<in>set st. plain_elem e \<Longrightarrow> \<forall>e\<in>set es. CHR ''/'' \<notin> set e \<Longrightarrow>
     \<forall>x\<in>set (fold (\<lambda>e st. clean_step True st e) es st). plain_elem x"
proof (induction es arbitrary: st)
  case (Cons e es)
  then show ?case using clean_step_plain[of st e] by (simp del: clean_step.simps)
qed simp

lemma clean_elems_are_plain: "\<forall>e\<in>set (clean_elems True p). plain_elem e"
  unfolding clean_elems_def by (rule clean_fold_plain) (auto dest: split_parts)

lemma Clean_is_rooted: "IsAbs p \<Longrightarrow> Clean p = rooted_path (rev (clean_elems True p))"
  by (simp add: Clean_def path_text_def rooted_path_def)

lemma common_prefix_append: "common_prefix as (as @ bs) = ([], bs)"
  by (induction as) (cases bs; simp)+

section \<open>Cleaning in two steps\<close>

abbreviation steps_from :: "bool \<Rightarrow> string list \<Rightarrow> string list \<Rightarrow> string list" where
  "steps_from r es st \<equiv> fold (\<lambda>e st. clean_step r st e) es st"

lemma split_append_at: "split_char c (p @ c # q) = split_char c p @ split_char c q"
  by (induction p) (auto split: list.split)

lemma clean_elems_append: "clean_elems r (p @ CHR ''/'' # q) = steps_from r (split_char (CHR ''/'') q) (clean_elems r p)"
  by (simp add: clean_elems_def split_append_at)

definition kept_elem :: "string \<Rightarrow> bool" where
  "kept_elem e \<longleftrightarrow> e \<noteq> [] \<and> e \<noteq> ''.'' \<and> CHR ''/'' \<notin> set e"

lemma steps_kept:
  "\<forall>e\<in>set es. CHR ''/'' \<notin> set e \<Longrightarrow> \<forall>e\<in>set st. kept_elem e \<Longrightarrow> \<forall>e\<in>set (steps_from r es st). kept_elem e"
proof (induction es arbitrary: st)
  case (Cons e es)
  have "\<forall>x\<in>set (clean_step r st e). kept_elem x"
    using Cons.prems by (cases st) (auto simp: kept_elem_def)
  then show ?case using Cons by (simp del: clean_step.simps)
qed simp

lemma steps_after_clean:
  "\<forall>e\<in>set es. CHR ''/'' \<notin> set e \<Longrightarrow> steps_from True es st = steps_from True (rev (steps_from False es [])) st"
proof (induction es rule: rev_induct)
  case (snoc e es)
  define f where "f = steps_from False es []"
  define t where "t = steps_from True es st"
  have ih: "t = steps_from True (rev f) st" using snoc by (simp add: f_def t_def)
  have k: "\<forall>e\<in>set f. kept_elem e" using steps_kept[of es "[]" False] snoc.prems by (simp add: f_def)
  have "clean_step True t e = steps_from True (rev (clean_step False f e)) st"
  proof -
    consider "e = [] \<or> e = ''.''" | "e = ''..''" "f = []" | g where "e = ''..''" "f = ''..'' # g"
      | a g where "e = ''..''" "f = a # g" "a \<noteq> ''..''" | "e \<noteq> []" "e \<noteq> ''.''" "e \<noteq> ''..''"
      by (cases f) auto
    then show ?thesis
    proof cases
      case 4
      then have "clean_step True (steps_from True (rev g) st) a = a # steps_from True (rev g) st"
        using k by (simp add: kept_elem_def)
      then show ?thesis using 4 ih by simp
    qed (use ih in simp_all)
  qed
  then show ?case by (simp add: f_def[symmetric] t_def[symmetric] del: clean_step.simps)
qed simp

lemma clean_elems_kept: "e \<in> set (clean_elems r p) \<Longrightarrow> kept_elem e"
  using steps_kept[of "split_char (CHR ''/'') p" "[]" r] split_parts[of _ "CHR ''/''" p] by (simp add: clean_elems_def)

lemma clean_elems_no_slash: "e \<in> set (clean_elems r p) \<Longrightarrow> CHR ''/'' \<notin> set e"
  using clean_elems_kept by (simp add: kept_elem_def)

lemma join_first: "e \<noteq> [] \<Longrightarrow> \<exists>r. str_join sep (e # es) = hd e # r"
  by (cases es; cases e) simp_all

lemma Clean_relative: "\<not> IsAbs p \<Longrightarrow> Clean p \<noteq> [] \<and> \<not> IsAbs (Clean p)"
proof -
  assume p: "\<not> IsAbs p"
  show ?thesis
  proof (cases "rev (clean_elems False p)")
    case (Cons e es)
    then have "e \<in> set (clean_elems False p)" by (metis list.set_intros(1) set_rev)
    then have e: "e \<noteq> []" "CHR ''/'' \<notin> set e" using clean_elems_kept by (auto simp: kept_elem_def)
    then obtain r where "str_join ''/'' (e # es) = hd e # r" using join_first by blast
    then have "Clean p = hd e # r" using p Cons by (simp add: Clean_def path_text_def)
    moreover have "hd e \<noteq> CHR ''/''" using e hd_in_set by metis
    ultimately show ?thesis by (simp add: IsAbs_def)
  qed (use p in \<open>simp add: Clean_def path_text_def IsAbs_def\<close>)
qed

text \<open>The elements of \<open>cwd/Clean(p)\<close> are those of \<open>cwd/p\<close>.\<close>

lemma clean_relative:
  assumes "\<not> IsAbs p"
  shows "clean_elems True (cwd @ CHR ''/'' # Clean p) = clean_elems True (cwd @ CHR ''/'' # p)"
proof -
  define es where "es = rev (clean_elems False p)"
  have s: "steps_from True (split_char (CHR ''/'') (Clean p)) st = steps_from True es st" for st
  proof (cases "es = []")
    case False
    then have "split_char (CHR ''/'') (Clean p) = es"
      using split_join[of es "CHR ''/''"] clean_elems_no_slash[of _ False p] assms
      by (auto simp: Clean_def path_text_def es_def)
    then show ?thesis by simp
  qed (use assms in \<open>simp add: Clean_def path_text_def es_def\<close>)
  have "steps_from True es st = steps_from True (split_char (CHR ''/'') p) st" for st
    using steps_after_clean[of "split_char (CHR ''/'') p"] split_parts by (simp add: es_def clean_elems_def)
  then show ?thesis using s by (simp add: clean_elems_append)
qed

lemma clean_elems_Clean: "IsAbs p \<Longrightarrow> clean_elems True (Clean p) = clean_elems True p"
  using clean_elems_plain[of "rev (clean_elems True p)"] clean_elems_are_plain[of p] by (simp add: Clean_is_rooted)

lemma IsAbs_append: "p \<noteq> [] \<Longrightarrow> IsAbs (p @ q) = IsAbs p"
  by (cases p) (simp_all add: IsAbs_def)

lemma IsAbs_Clean: "IsAbs p \<Longrightarrow> IsAbs (Clean p)"
  by (simp add: Clean_is_rooted rooted_path_def IsAbs_def)

lemma IsAbs_nonempty: "IsAbs p \<Longrightarrow> p \<noteq> []"
  by (auto simp: IsAbs_def)

lemma Abs_elems:
  assumes "IsAbs cwd" "p \<noteq> []"
  shows "clean_elems True (path_Abs cwd p) = clean_elems True (if IsAbs p then p else cwd @ CHR ''/'' # p)"
    "IsAbs (path_Abs cwd p)" "Clean (path_Abs cwd p) = path_Abs cwd p"
proof -
  define q where "q = (if IsAbs p then p else cwd @ CHR ''/'' # p)"
  have q: "IsAbs q" "path_Abs cwd p = Clean q"
    using assms IsAbs_append[of cwd] IsAbs_nonempty[OF assms(1)] by (auto simp: q_def path_Abs_def path_Join_def Let_def)
  show "clean_elems True (path_Abs cwd p) = clean_elems True (if IsAbs p then p else cwd @ CHR ''/'' # p)"
    using clean_elems_Clean[OF q(1)] q(2) by (simp add: q_def)
  show "IsAbs (path_Abs cwd p)" using q IsAbs_Clean by simp
  show "Clean (path_Abs cwd p) = path_Abs cwd p"
    using q IsAbs_Clean[OF q(1)] clean_elems_Clean[OF q(1)] by (simp add: Clean_is_rooted)
qed

text \<open>Joining below a directory and making the result absolute.\<close>

lemma Abs_Join_elems:
  assumes "IsAbs cwd" "d \<noteq> []" "path_Join (d # ps) = Clean (d @ CHR ''/'' # q)"
  shows "clean_elems True (path_Abs cwd (path_Join (d # ps)))
    = steps_from True (split_char (CHR ''/'') q) (clean_elems True (path_Abs cwd d))"
proof -
  define p where "p = d @ CHR ''/'' # q"
  have ne: "Clean p \<noteq> []"
    using Clean_relative[of p] IsAbs_nonempty[of "Clean p"] IsAbs_Clean[of p] by blast
  show ?thesis
  proof (cases "IsAbs d")
    case True
    then have "IsAbs p" using IsAbs_append[of d] assms(2) by (simp add: p_def)
    then show ?thesis
      using assms ne True IsAbs_Clean[of p] clean_elems_Clean[of p] Abs_elems(1)[of cwd] 
      by (simp add: p_def[symmetric]) (simp add: p_def clean_elems_append)
  next
    case False
    then have n: "\<not> IsAbs p" using IsAbs_append[of d] assms(2) by (simp add: p_def)
    then have "\<not> IsAbs (Clean p)" using Clean_relative by blast
    then have "clean_elems True (path_Abs cwd (path_Join (d # ps))) = clean_elems True (cwd @ CHR ''/'' # p)"
      using Abs_elems(1)[OF assms(1) ne] clean_relative[OF n, of cwd] assms(3) by (simp add: p_def[symmetric])
    also have "\<dots> = clean_elems True ((cwd @ CHR ''/'' # d) @ CHR ''/'' # q)" by (simp add: p_def)
    also have "\<dots> = steps_from True (split_char (CHR ''/'') q) (clean_elems True (cwd @ CHR ''/'' # d))"
      by (rule clean_elems_append)
    finally show ?thesis using Abs_elems(1)[OF assms(1,2)] False by simp
  qed
qed

end
