(* ===== verification/AspServer.thy ===== *)
theory AspServer
  imports GoText LexerBase AppValues UserSubs
begin

text \<open>
  The Server object (\<open>axonvm/asp/server.go\<close>) and the ASP error object (\<open>axonvm/asp/asperror.go\<close>) on Unix.
  Times are nanoseconds; the zero \<open>time.Time\<close> is \<open>None\<close>. The working directory \<open>cwd\<close> is an argument, so
  \<open>filepath.Abs\<close> never fails.
\<close>

section \<open>\<open>ASPError\<close>\<close>

record ASPError =
  ae_ASPCode :: int
  ae_ASPDescription :: string
  ae_Number :: int
  ae_Source :: string
  ae_Description :: string
  ae_HelpFile :: string
  ae_HelpContext :: int
  ae_File :: string
  ae_Line :: int
  ae_Column :: int
  ae_Category :: string

definition zero_ASPError :: ASPError where
  "zero_ASPError = \<lparr>ae_ASPCode = 0, ae_ASPDescription = [], ae_Number = 0, ae_Source = [], ae_Description = [],
     ae_HelpFile = [], ae_HelpContext = 0, ae_File = [], ae_Line = 0, ae_Column = 0, ae_Category = []\<rparr>"

definition ASPError_Normalize :: "ASPError \<Rightarrow> ASPError" where
  "ASPError_Normalize e0 =
     (let e = (if trim_space (ae_Category e0) = [] then e0\<lparr>ae_Category := ''ASP''\<rparr> else e0);
          e = (if trim_space (ae_Description e) = [] then e\<lparr>ae_Description := trim_space (ae_ASPDescription e)\<rparr> else e);
          e = (if trim_space (ae_ASPDescription e) = [] then e\<lparr>ae_ASPDescription := trim_space (ae_Description e)\<rparr> else e)
      in if trim_space (ae_Source e) = [] then e\<lparr>ae_Source := ae_Category e\<rparr> else e)"

definition NewASPError :: ASPError where
  "NewASPError = ASPError_Normalize (zero_ASPError\<lparr>ae_Category := ''ASP''\<rparr>)"

definition ASPError_Reset :: "ASPError \<Rightarrow> ASPError" where
  "ASPError_Reset e = zero_ASPError\<lparr>ae_Source := ''ASP'', ae_Category := ''ASP''\<rparr>"

definition ASPError_Clone :: "ASPError option \<Rightarrow> ASPError" where
  "ASPError_Clone e = (case e of None \<Rightarrow> NewASPError | Some e \<Rightarrow> ASPError_Normalize e)"

definition ASPError_Error :: "ASPError \<Rightarrow> string" where
  "ASPError_Error e0 =
     (let e = ASPError_Clone (Some e0); line = (\<lambda>name v. newline @ name @ '': '' @ v)
      in ae_Source e
         @ (if ae_Number e \<noteq> 0
            then '' '' @ [CHR 0x27] @ hex_digits 8 (unat (word_of_int (ae_Number e) :: 32 word)) @ [CHR 0x27] else [])
         @ (if ae_Description e \<noteq> [] then newline @ ae_Description e else [])
         @ line ''Category'' (ae_Category e) @ line ''Column'' (format_int (ae_Column e))
         @ line ''Description'' (ae_Description e) @ line ''File'' (ae_File e)
         @ line ''Line'' (format_int (ae_Line e)) @ line ''Number'' (format_int (ae_Number e))
         @ line ''Source'' (ae_Source e)
         @ (if ae_ASPCode e \<noteq> 0 then line ''ASPCode'' (format_int (ae_ASPCode e)) else [])
         @ (if ae_ASPDescription e \<noteq> [] then line ''ASPDescription'' (ae_ASPDescription e) else []))"

definition NewVBScriptASPError ::
    "VBSyntaxErrorCode \<Rightarrow> string \<Rightarrow> string \<Rightarrow> string \<Rightarrow> string \<Rightarrow> int \<Rightarrow> int \<Rightarrow> ASPError" where
  "NewVBScriptASPError c source category description file line column =
     (let detail = (if trim_space description = [] then error_String c else trim_space description);
          src = trim_space source; cat = trim_space category
      in ASPError_Normalize (zero_ASPError
           \<lparr>ae_ASPCode := c, ae_ASPDescription := detail, ae_Number := HRESULTFromVBScriptCode c,
            ae_Source := (if src = [] then ''VBScript runtime error'' else src), ae_Description := error_String c,
            ae_File := trim_space file, ae_Line := line, ae_Column := column,
            ae_Category := (if cat = [] then ''VBScript runtime'' else cat)\<rparr>))"

definition NewASPErrorFromVBSyntaxError :: "VBSyntaxError option \<Rightarrow> ASPError" where
  "NewASPErrorFromVBSyntaxError e =
     (case e of
        None \<Rightarrow> NewASPError
      | Some e \<Rightarrow> ASPError_Normalize (zero_ASPError
           \<lparr>ae_ASPCode := er_ASPCode e, ae_ASPDescription := er_ASPDescription e, ae_Number := er_Number e,
            ae_Source := er_Source e, ae_Description := er_Description e, ae_File := er_File e,
            ae_Line := er_Line e, ae_Column := er_Column e, ae_Category := er_Category e\<rparr>))"

definition NewASPErrorFromMessage :: "string \<Rightarrow> string \<Rightarrow> string \<Rightarrow> string \<Rightarrow> int \<Rightarrow> int \<Rightarrow> ASPError" where
  "NewASPErrorFromMessage category source description file line column =
     ASPError_Normalize (zero_ASPError
       \<lparr>ae_ASPDescription := trim_space description, ae_Source := trim_space source,
        ae_Description := trim_space description, ae_File := trim_space file, ae_Line := line,
        ae_Column := column, ae_Category := trim_space category\<rparr>)"

section \<open>State\<close>

record Server =
  sr_scriptTimeout :: int
  sr_rootDir :: string
  sr_requestPath :: string
  sr_lastError :: "ASPError option"
  sr_execStart :: "int option"
  sr_execDepth :: nat
  sr_unrestrictedFS :: bool

definition NewServer :: Server where
  "NewServer = \<lparr>sr_scriptTimeout = 90, sr_rootDir = ''./www'', sr_requestPath = ''/'', sr_lastError = None,
     sr_execStart = None, sr_execDepth = 0, sr_unrestrictedFS = False\<rparr>"

definition SetRootDir :: "string \<Rightarrow> Server \<Rightarrow> Server" where
  "SetRootDir d s = s\<lparr>sr_rootDir := (if trim_space d = [] then ''./www'' else d)\<rparr>"

definition SetUnrestrictedFS :: "bool \<Rightarrow> Server \<Rightarrow> Server" where
  "SetUnrestrictedFS b s = s\<lparr>sr_unrestrictedFS := b\<rparr>"

definition backslashes :: "string \<Rightarrow> string" where
  "backslashes p = map (\<lambda>c. if c = CHR 0x5C then CHR ''/'' else c) p"

definition SetRequestPath :: "string \<Rightarrow> Server \<Rightarrow> Server" where
  "SetRequestPath p s = s\<lparr>sr_requestPath := (if trim_space p = [] then ''/'' else backslashes p)\<rparr>"

definition GetRequestPath :: "Server \<Rightarrow> string" where
  "GetRequestPath s = (if sr_requestPath s = [] then ''/'' else sr_requestPath s)"

definition GetScriptTimeout :: "Server \<Rightarrow> int" where
  "GetScriptTimeout s = (if sr_scriptTimeout s < 1 then 90 else sr_scriptTimeout s)"

text \<open>\<open>None\<close> is the error.\<close>

definition SetScriptTimeout :: "int \<Rightarrow> Server \<Rightarrow> Server option" where
  "SetScriptTimeout t s = (if t < 1 \<or> 2147483647 < t then None else Some (s\<lparr>sr_scriptTimeout := t\<rparr>))"

definition BeginExecution :: "int \<Rightarrow> Server \<Rightarrow> Server" where
  "BeginExecution now s =
     (let s = (if sr_execDepth s = 0 then s\<lparr>sr_execStart := Some now\<rparr> else s)
      in s\<lparr>sr_execDepth := sr_execDepth s + 1\<rparr>)"

definition EndExecution :: "Server \<Rightarrow> Server" where
  "EndExecution s =
     (let s = (if 0 < sr_execDepth s then s\<lparr>sr_execDepth := sr_execDepth s - 1\<rparr> else s)
      in if sr_execDepth s = 0 then s\<lparr>sr_execStart := None\<rparr> else s)"

definition HasTimedOut :: "int \<Rightarrow> Server \<Rightarrow> bool" where
  "HasTimedOut now s =
     (case sr_execStart s of
        None \<Rightarrow> False
      | Some start \<Rightarrow> sr_execDepth s \<noteq> 0 \<and> GetScriptTimeout s * 1000000000 \<le> now - start)"

definition SetLastError :: "ASPError option \<Rightarrow> Server \<Rightarrow> Server" where
  "SetLastError e s = s\<lparr>sr_lastError := map_option (\<lambda>e. ASPError_Clone (Some e)) e\<rparr>"

definition GetLastError :: "Server \<Rightarrow> ASPError" where
  "GetLastError s = (case sr_lastError s of Some e \<Rightarrow> e | None \<Rightarrow> NewASPError)"

definition ClearLastError :: "Server \<Rightarrow> Server" where
  "ClearLastError s = s\<lparr>sr_lastError := None\<rparr>"

section \<open>Encoding\<close>

definition html_char :: "rune \<Rightarrow> string" where
  "html_char r =
     (if r = 38 then ''&amp;'' else if r = 60 then ''&lt;'' else if r = 62 then ''&gt;'' else if r = 34 then ''&#34;''
      else if 127 < r then ''&#'' @ nat_digits r @ '';'' else [char_of r])"

definition HTMLEncode :: "string \<Rightarrow> string" where
  "HTMLEncode s = concat (map html_char (to_runes s))"

definition URLEncode :: "string \<Rightarrow> string" where
  "URLEncode s = QueryEscape s"

definition URLPathEncode :: "string \<Rightarrow> string" where
  "URLPathEncode s = str_join ''/'' (map PathEscape (split_char (CHR ''/'') s))"

section \<open>Paths\<close>

definition physical_inside :: "string \<Rightarrow> string \<Rightarrow> bool" where
  "physical_inside root cleaned \<longleftrightarrow> cleaned = root \<or> starts_with (root @ ''/'') cleaned"

definition MapPath :: "string \<Rightarrow> Server \<Rightarrow> string \<Rightarrow> string" where
  "MapPath cwd s path =
     (let root = path_Abs cwd (sr_rootDir s)
      in if path = [] \<or> path = ''/'' \<or> path = [CHR 0x5C] then root
         else if IsAbs path \<and> physical_inside root (Clean path) then Clean path
         else let normalized = backslashes path
              in if starts_with ''/'' normalized then path_Abs cwd (path_Join [sr_rootDir s, tl normalized])
                 else let scriptDir = path_Dir (backslashes (sr_requestPath s));
                          scriptDir = (if scriptDir = ''.'' then ''/'' else scriptDir)
                      in path_Abs cwd (path_Join [sr_rootDir s, scriptDir, normalized]))"

definition trim_prefix :: "string \<Rightarrow> string \<Rightarrow> string" where
  "trim_prefix p s = (if starts_with p s then drop (length p) s else s)"

definition VirtualPathFromAbsolutePath :: "string \<Rightarrow> Server \<Rightarrow> string \<Rightarrow> string" where
  "VirtualPathFromAbsolutePath cwd s absPath =
     (if trim_space absPath = [] then ''/''
      else let target = path_Abs cwd absPath;
               cleaned = trim_prefix ''/'' (trim_prefix ''./'' (path_Rel (path_Abs cwd (sr_rootDir s)) target))
           in if starts_with ''../'' cleaned \<or> cleaned = ''..'' then ''/'' @ path_Base target
              else if cleaned = ''.'' \<or> cleaned = [] then ''/''
              else ''/'' @ cleaned)"

text \<open>\<open>CreateObject\<close> always fails here: the objects the engine has are created by the VM.\<close>

definition InvalidProgIDHRESULT :: int where
  "InvalidProgIDHRESULT = -2147221005"

definition CreateObject :: "string \<Rightarrow> Server \<Rightarrow> (ApplicationValue \<times> string) \<times> Server" where
  "CreateObject progID s =
     (let trimmed = trim_space progID;
          err = (if trimmed = [] then ''CreateObject requires a ProgID'' else ''AxonASP cannot create object: '' @ trimmed);
          aspErr = (NewVBScriptASPError ActiveXCannotCreateObject ''Server.CreateObject'' ''ASP'' ''Invalid class string'' [] 0 0)
                     \<lparr>ae_Number := InvalidProgIDHRESULT\<rparr>
      in ((NewApplicationEmpty, err), SetLastError (Some aspErr) s))"

section \<open>Laws of the encodings\<close>

text \<open>How a browser reads text with the references \<open>HTMLEncode\<close> produces.\<close>

definition reference :: "string \<Rightarrow> rune option" where
  "reference t =
     (if t = ''amp'' then Some 38 else if t = ''lt'' then Some 60 else if t = ''gt'' then Some 62
      else case t of c # ds \<Rightarrow> (if c = CHR ''#'' then parse_digits ds else None) | [] \<Rightarrow> None)"

lemma dropWhile_rest: "dropWhile p s = d # r \<Longrightarrow> length r < length s"
  using length_dropWhile_le[of p s] by simp

function html_decode :: "string \<Rightarrow> rune list" where
  "html_decode [] = []"
| "html_decode (c # s) =
     (if c = CHR ''&'' then
        (case dropWhile (\<lambda>c. c \<noteq> CHR '';'') s of
           _ # r \<Rightarrow> (case reference (takeWhile (\<lambda>c. c \<noteq> CHR '';'') s) of
                     Some x \<Rightarrow> x # html_decode r | None \<Rightarrow> 38 # html_decode s)
         | [] \<Rightarrow> 38 # html_decode s)
      else code c # html_decode s)"
  by pat_completeness auto
termination
  by (relation "measure length") (auto dest: dropWhile_rest)

declare html_decode.simps(2) [simp del]

lemma reference_text:
  assumes "CHR '';'' \<notin> set t" "reference t = Some r"
  shows "html_decode (CHR ''&'' # t @ CHR '';'' # s) = r # html_decode s"
proof -
  have "dropWhile (\<lambda>c. c \<noteq> CHR '';'') (t @ CHR '';'' # s) = CHR '';'' # s"
    "takeWhile (\<lambda>c. c \<noteq> CHR '';'') (t @ CHR '';'' # s) = t"
    using assms(1) by (induction t) auto
  then show ?thesis using assms(2) by (simp add: html_decode.simps(2))
qed

lemma digits_no_semicolon: "CHR '';'' \<notin> set (nat_digits n)"
proof
  assume "CHR '';'' \<in> set (nat_digits n)"
  then have "is_digit (CHR '';'')" using nat_digits_digits[of n] by (auto simp: list_all_iff)
  then show False by (simp add: is_digit_def code_def)
qed

lemma decode_html_char: "html_decode (html_char r @ s) = r # html_decode s"
proof -
  consider "r = 38" | "r = 60" | "r = 62" | "r = 34" | "127 < r" | "r \<le> 127" "r \<notin> {38, 60, 62, 34}" by force
  then show ?thesis
  proof cases
    case 1
    then show ?thesis using reference_text[of "''amp''" 38 s] by (simp add: html_char_def reference_def)
  next
    case 2
    then show ?thesis using reference_text[of "''lt''" 60 s] by (simp add: html_char_def reference_def)
  next
    case 3
    then show ?thesis using reference_text[of "''gt''" 62 s] by (simp add: html_char_def reference_def)
  next
    case 4
    have "parse_digits ''34'' = Some 34" by (simp add: parse_digits_def is_digit_def code_def)
    then show ?thesis using 4 reference_text[of "''#34''" 34 s] by (simp add: html_char_def reference_def)
  next
    case 5
    have "reference (''#'' @ nat_digits r) = Some r" using parse_nat_digits[of r] by (simp add: reference_def)
    then show ?thesis
      using 5 digits_no_semicolon[of r] reference_text[of "''#'' @ nat_digits r" r s] by (simp add: html_char_def)
  next
    case 6
    have c: "code (char_of r) = r" using 6 by (simp add: code_def)
    have "char_of r \<noteq> CHR ''&''" using 6 char_of_iff[of r "CHR ''&''"] by (simp add: code_def)
    then show ?thesis using 6 c by (simp add: html_char_def html_decode.simps(2))
  qed
qed

lemma decode_encoded: "html_decode (concat (map html_char rs)) = rs"
  by (induction rs) (simp_all add: decode_html_char)

lemma html_char_safe: "c \<in> set (html_char r) \<Longrightarrow> code c < 128 \<and> c \<notin> {CHR ''<'', CHR ''>'', CHR 0x22}"
proof -
  assume c: "c \<in> set (html_char r)"
  show ?thesis
  proof (cases "127 < r")
    case True
    then consider "c \<in> set ''&#;''" | "is_digit c" using c nat_digits_digits[of r] by (auto simp: html_char_def list_all_iff)
    then show ?thesis by cases (auto simp: code_def is_digit_def)
  next
    case False
    then show ?thesis
      using c char_of_iff[of r "CHR ''<''"] char_of_iff[of r "CHR ''>''"] char_of_iff[of r "CHR 0x22"]
      by (auto simp: html_char_def code_def split: if_splits)
  qed
qed

text \<open>
  C25. \<open>HTMLEncode\<close> is safe and loses nothing: its text is ASCII without \<open><\<close>, \<open>>\<close> and double quotes, whatever
  bytes it is given, and a browser that resolves the references reads back exactly the runes of the text.
\<close>

theorem html_encode_safe:
  "list_all (\<lambda>c. code c < 128 \<and> c \<notin> {CHR ''<'', CHR ''>'', CHR 0x22}) (HTMLEncode s)
   \<and> html_decode (HTMLEncode s) = to_runes s"
  using html_char_safe decode_encoded by (fastforce simp: HTMLEncode_def list_all_iff)

section \<open>Laws of the paths\<close>

text \<open>\<open>p\<close> names a file of the tree below \<open>root\<close>, or \<open>root\<close> itself.\<close>

definition under :: "string \<Rightarrow> string \<Rightarrow> bool" where
  "under root p \<longleftrightarrow> IsAbs p \<and> (\<exists>es. clean_elems True p = es @ clean_elems True root)"

lemma rooted_elems: "IsAbs p \<Longrightarrow> Clean p = p \<Longrightarrow> p = rooted_path (rev (clean_elems True p))"
  using Clean_is_rooted by metis

lemma split_rooted:
  "\<forall>e\<in>set es. CHR ''/'' \<notin> set e \<Longrightarrow> es \<noteq> [] \<Longrightarrow> split_char (CHR ''/'') (rooted_path es) = [] # es"
  using split_join[of es "CHR ''/''"] by (simp add: rooted_path_def)

lemma inside_under:
  assumes "IsAbs root" "Clean root = root" "IsAbs p" "physical_inside root (Clean p)"
  shows "under root (Clean p)"
proof (cases "Clean p = root")
  case True
  then show ?thesis using assms by (auto simp: under_def)
next
  case False
  define R where "R = rev (clean_elems True root)"
  define P where "P = rev (clean_elems True p)"
  have ns: "\<forall>e\<in>set R. CHR ''/'' \<notin> set e" "\<forall>e\<in>set P. CHR ''/'' \<notin> set e"
    using clean_elems_no_slash by (auto simp: R_def P_def)
  have r: "root = rooted_path R" using rooted_elems[OF assms(1,2)] by (simp add: R_def)
  have p: "Clean p = rooted_path P" using Clean_is_rooted[OF assms(3)] by (simp add: P_def)
  obtain t where t: "rooted_path P = rooted_path R @ CHR ''/'' # t"
    using assms(4) False by (auto simp: physical_inside_def starts_with_iff p r)
  have "\<exists>es. P = R @ es"
  proof (cases "R = []")
    case False
    have "P \<noteq> []" using t False by (cases P) (auto simp: rooted_path_def)
    then have "[] # P = ([] # R) @ split_char (CHR ''/'') t"
      using split_rooted[OF ns(2)] split_rooted[OF ns(1) False] split_append_at[of "CHR ''/''" "rooted_path R" t] t by simp
    then show ?thesis by auto
  qed simp
  then obtain es where "P = R @ es" by blast
  then have "clean_elems True p = rev es @ clean_elems True root" by (simp add: P_def R_def rev_swap)
  then show ?thesis using assms(3) by (auto simp: under_def clean_elems_Clean IsAbs_Clean)
qed

lemma steps_no_parent: "''..'' \<notin> set es \<Longrightarrow> \<exists>xs. steps_from True es st = xs @ st"
proof (induction es arbitrary: st)
  case (Cons e es)
  obtain ys where "clean_step True st e = ys @ st"
    using Cons.prems by (cases "e = [] \<or> e = ''.''") auto
  moreover obtain xs where "steps_from True es (ys @ st) = xs @ ys @ st" using Cons by fastforce
  ultimately show ?case by (simp del: clean_step.simps)
qed simp

lemma Abs_Join_under:
  assumes "IsAbs cwd" "d \<noteq> []" "path_Join (d # ps) = Clean (d @ CHR ''/'' # q)"
    "''..'' \<notin> set (split_char (CHR ''/'') q)"
  shows "under (path_Abs cwd d) (path_Abs cwd (path_Join (d # ps)))"
proof -
  obtain xs where "clean_elems True (path_Abs cwd (path_Join (d # ps))) = xs @ clean_elems True (path_Abs cwd d)"
    using Abs_Join_elems[OF assms(1-3)] steps_no_parent[OF assms(4)] by metis
  moreover have "path_Join (d # ps) \<noteq> []"
    using assms(3) Clean_relative[of "d @ CHR ''/'' # q"] IsAbs_Clean IsAbs_nonempty by metis
  ultimately show ?thesis using Abs_elems(2)[OF assms(1)] by (auto simp: under_def)
qed

lemma rooted_split_no_parent:
  "\<forall>e\<in>set es. plain_elem e \<Longrightarrow> ''..'' \<notin> set (split_char (CHR ''/'') (rooted_path es))"
proof -
  assume p: "\<forall>e\<in>set es. plain_elem e"
  then have ns: "\<forall>e\<in>set es. CHR ''/'' \<notin> set e" "''..'' \<notin> set es" by (auto simp: plain_elem_def)
  show ?thesis
  proof (cases "es = []")
    case False
    then show ?thesis using split_rooted[OF ns(1)] ns(2) by simp
  qed (simp add: rooted_path_def)
qed

lemma map_path_under:
  assumes "IsAbs cwd" "sr_rootDir s \<noteq> []" "IsAbs (backslashes (sr_requestPath s))"
    "''..'' \<notin> set (split_char (CHR ''/'') (backslashes path))"
  shows "under (path_Abs cwd (sr_rootDir s)) (MapPath cwd s path)"
proof -
  define root where "root = path_Abs cwd (sr_rootDir s)"
  define n where "n = backslashes path"
  have root: "IsAbs root" "Clean root = root" using Abs_elems(2,3)[OF assms(1,2)] by (simp_all add: root_def)
  define d where "d = path_Dir (backslashes (sr_requestPath s))"
  have m: "MapPath cwd s path =
      (if path = [] \<or> path = ''/'' \<or> path = [CHR 0x5C] then root
       else if IsAbs path \<and> physical_inside root (Clean path) then Clean path
       else if starts_with ''/'' n then path_Abs cwd (path_Join [sr_rootDir s, tl n])
       else path_Abs cwd (path_Join [sr_rootDir s, if d = ''.'' then ''/'' else d, n]))"
    unfolding MapPath_def root_def n_def d_def by (simp only: Let_def)
  consider "path = [] \<or> path = ''/'' \<or> path = [CHR 0x5C]"
    | "path \<noteq> []" "IsAbs path" "physical_inside root (Clean path)" "MapPath cwd s path = Clean path"
    | t where "n = CHR ''/'' # t" "MapPath cwd s path = path_Abs cwd (path_Join [sr_rootDir s, t])"
    | "n \<noteq> []" "MapPath cwd s path = path_Abs cwd (path_Join [sr_rootDir s, if d = ''.'' then ''/'' else d, n])"
  proof -
    assume c: "path = [] \<or> path = ''/'' \<or> path = [CHR 0x5C] \<Longrightarrow> thesis"
      "path \<noteq> [] \<Longrightarrow> IsAbs path \<Longrightarrow> physical_inside root (Clean path) \<Longrightarrow> MapPath cwd s path = Clean path \<Longrightarrow> thesis"
      "\<And>t. n = CHR ''/'' # t \<Longrightarrow> MapPath cwd s path = path_Abs cwd (path_Join [sr_rootDir s, t]) \<Longrightarrow> thesis"
      "n \<noteq> [] \<Longrightarrow> MapPath cwd s path = path_Abs cwd (path_Join [sr_rootDir s, if d = ''.'' then ''/'' else d, n]) \<Longrightarrow> thesis"
    show thesis
    proof (cases "path = [] \<or> path = ''/'' \<or> path = [CHR 0x5C]")
      case False
      then have "n \<noteq> []" by (simp add: n_def backslashes_def)
      then show thesis using c(2-4) False m by (cases n) (auto split: if_splits)
    qed (rule c(1))
  qed
  then show ?thesis
  proof cases
    case 1
    then have "MapPath cwd s path = root" using m by simp
    then show ?thesis using root by (simp add: root_def[symmetric] under_def)
  next
    case 2
    then show ?thesis using inside_under root by (simp add: root_def[symmetric])
  next
    case 3
    have "''..'' \<notin> set (split_char (CHR ''/'') t)" using assms(4) 3(1) by (simp add: n_def[symmetric])
    then show ?thesis
      using Abs_Join_under[of cwd "sr_rootDir s" "[t]" t] assms 3 by (simp add: path_Join_def Let_def)
  next
    case 4
    have a: "IsAbs (up_to_slash (backslashes (sr_requestPath s)))"
    proof -
      obtain r where "backslashes (sr_requestPath s) = CHR ''/'' # r" using assms(3) by (auto simp: IsAbs_def starts_with_iff)
      then show ?thesis
        by (cases "CHR ''/'' \<in> set r") (auto simp: IsAbs_def up_to_slash_def dropWhile_append)
    qed
    have d: "d = rooted_path (rev (clean_elems True (up_to_slash (backslashes (sr_requestPath s)))))"
      using Clean_is_rooted[OF a] by (simp add: d_def path_Dir_def)
    then have "d \<noteq> ''.''" "d \<noteq> []" by (simp_all add: rooted_path_def)
    moreover have "''..'' \<notin> set (split_char (CHR ''/'') (d @ CHR ''/'' # n))"
      using rooted_split_no_parent[of "rev (clean_elems True (up_to_slash (backslashes (sr_requestPath s))))"]
        clean_elems_are_plain assms(4) by (simp add: split_append_at d n_def)
    ultimately show ?thesis
      using Abs_Join_under[of cwd "sr_rootDir s" "[d, n]" "d @ CHR ''/'' # n"] assms(1,2) 4 by (simp add: path_Join_def Let_def)
  qed
qed

text \<open>
  C26. \<open>MapPath\<close> stays inside the web root as long as the path has no parent element: for a request path
  from the server (rooted) every virtual or relative path without \<open>..\<close>, with slashes or backslashes, maps to
  the root or to a file below it.
\<close>

theorem map_path_stays_inside:
  assumes "IsAbs cwd" "sr_rootDir s \<noteq> []" "IsAbs (backslashes (sr_requestPath s))"
    "''..'' \<notin> set (split_char (CHR ''/'') (backslashes path))"
  shows "under (path_Abs cwd (sr_rootDir s)) (MapPath cwd s path)"
  using assms by (rule map_path_under)

theorem map_path_stays_inside_witness:
  "under ''/srv/www'' (MapPath ''/srv'' NewServer ''img/a.png'')"
proof -
  have "path_Abs ''/srv'' ''./www'' = ''/srv/www''" by code_simp
  moreover have "''..'' \<notin> set (split_char (CHR ''/'') (backslashes ''img/a.png''))" by code_simp
  ultimately show ?thesis
    using map_path_stays_inside[of "''/srv''" NewServer "''img/a.png''"]
    by (simp add: NewServer_def IsAbs_def backslashes_def)
qed

definition slash_elem :: "string \<Rightarrow> bool" where
  "slash_elem e \<longleftrightarrow> plain_elem e \<and> CHR 0x5C \<notin> set e"

lemma backslashes_same: "CHR 0x5C \<notin> set p \<Longrightarrow> backslashes p = p"
  unfolding backslashes_def by (rule map_idI) auto

lemma join_no_backslash: "\<forall>e\<in>set es. slash_elem e \<Longrightarrow> CHR 0x5C \<notin> set (str_join ''/'' es)"
  by (induction "''/''::string" es rule: str_join.induct) (auto simp: slash_elem_def)

lemma root_of_rooted:
  "\<forall>e\<in>set R. plain_elem e \<Longrightarrow> IsAbs cwd \<Longrightarrow> path_Abs cwd (rooted_path R) = rooted_path R"
  using Clean_rooted by (simp add: path_Abs_def IsAbs_def rooted_path_def)

lemma MapPath_virtual:
  assumes "IsAbs cwd" "sr_rootDir s \<noteq> []" "IsAbs path" "CHR 0x5C \<notin> set path" "path \<noteq> ''/''"
    "\<not> physical_inside (path_Abs cwd (sr_rootDir s)) (Clean path)"
  shows "MapPath cwd s path = rooted_path (rev (steps_from True (split_char (CHR ''/'') (tl path))
    (clean_elems True (path_Abs cwd (sr_rootDir s)))))"
proof -
  let ?d = "sr_rootDir s"
  have j: "path_Join [?d, tl path] = Clean (?d @ CHR ''/'' # tl path)" using assms(2) by (simp add: path_Join_def Let_def)
  have n: "path_Join [?d, tl path] \<noteq> []"
    using j Clean_relative[of "?d @ CHR ''/'' # tl path"] IsAbs_Clean IsAbs_nonempty by metis
  have "path \<noteq> [] \<and> path \<noteq> [CHR 0x5C]" using assms(3) by (auto simp: IsAbs_def)
  then have "MapPath cwd s path = path_Abs cwd (path_Join [?d, tl path])"
    using assms(3-6) by (simp add: MapPath_def Let_def backslashes_same IsAbs_def)
  also have "\<dots> = rooted_path (rev (clean_elems True (path_Abs cwd (path_Join [?d, tl path]))))"
    by (rule rooted_elems[OF Abs_elems(2,3)[OF assms(1) n]])
  finally show ?thesis using Abs_Join_elems[OF assms(1,2) j] by simp
qed

lemma escape_elems:
  assumes "IsAbs cwd" "\<forall>e\<in>set (R @ [d]). plain_elem e" "slash_elem x" "sr_rootDir s = rooted_path (R @ [d])"
  shows "MapPath cwd s (''/../'' @ x) = rooted_path (R @ [x])"
proof -
  have x: "plain_elem x" "CHR ''/'' \<notin> set x" "CHR 0x5C \<notin> set x" using assms(3) by (auto simp: slash_elem_def plain_elem_def)
  have root: "path_Abs cwd (sr_rootDir s) = rooted_path (R @ [d])" using root_of_rooted[OF assms(2,1)] assms(4) by simp
  have re: "clean_elems True (rooted_path (R @ [d])) = d # rev R" using clean_elems_plain[OF assms(2)] by simp
  have sp: "split_char (CHR ''/'') (''../'' @ x) = [''..'', x]"
    using split_append[of "CHR ''/''" "''..''" x] x(2) by (simp add: split_plain)
  have px: "clean_elems True (''/../'' @ x) = [x]"
    using sp x(1) by (simp add: clean_elems_def plain_elem_def)
  have cx: "Clean (''/../'' @ x) = rooted_path [x]"
    using px by (simp add: Clean_is_rooted IsAbs_def)
  show ?thesis
  proof (cases "physical_inside (path_Abs cwd (sr_rootDir s)) (Clean (''/../'' @ x))")
    case True
    have "under (rooted_path (R @ [d])) (Clean (''/../'' @ x))"
      using True inside_under[of "rooted_path (R @ [d])" "''/../'' @ x"] root Clean_rooted[OF assms(2)]
      by (simp add: IsAbs_def rooted_path_def)
    then have "R = []" using px re by (auto simp: under_def clean_elems_Clean IsAbs_def Cons_eq_append_conv)
    then show ?thesis
      using True cx by (simp add: MapPath_def Let_def IsAbs_def)
  next
    case False
    have r: "clean_elems True (path_Abs cwd (sr_rootDir s)) = d # rev R" using root re by simp
    have sp': "split_char (CHR ''/'') (tl (''/../'' @ x)) = [''..'', x]"
      using split_append[of "CHR ''/''" "''..''" x] x(2) by (simp add: split_plain)
    have "d \<noteq> ''..''" "x \<noteq> []" "x \<noteq> ''.''" "x \<noteq> ''..''" using assms(2) x(1) by (auto simp: plain_elem_def)
    then have "steps_from True (split_char (CHR ''/'') (tl (''/../'' @ x))) (clean_elems True (path_Abs cwd (sr_rootDir s))) = x # rev R"
      unfolding r sp' by simp
    then show ?thesis
      using MapPath_virtual[OF assms(1) _ _ _ _ False] x(3) assms(4) by (simp add: IsAbs_def rooted_path_def)
  qed
qed

text \<open>
  C27. \<open>MapPath\<close> does not confine a page to the web root: a virtual path that begins with a parent element
  maps to a neighbour of the root, as if the root were not there.
\<close>

theorem map_path_leaves_root:
  assumes "IsAbs cwd" "\<forall>e\<in>set (R @ [d]). plain_elem e" "slash_elem x" "sr_rootDir s = rooted_path (R @ [d])"
  shows "MapPath cwd s (''/../'' @ x) = rooted_path (R @ [x])"
  using assms by (rule escape_elems)

theorem map_path_leaves_root_witness:
  "MapPath ''/'' (SetRootDir ''/srv/www'' NewServer) ''/../keys'' = ''/srv/keys''"
proof -
  have "plain_elem ''srv''" "plain_elem ''www''" "slash_elem ''keys''" by (simp_all add: plain_elem_def slash_elem_def)
  moreover have "trim_space ''/srv/www'' \<noteq> []" by code_simp
  ultimately show ?thesis
    using map_path_leaves_root[of "''/''" "[''srv'']" "''www''" "''keys''" "SetRootDir ''/srv/www'' NewServer"]
    by (simp add: IsAbs_def SetRootDir_def rooted_path_def)
qed

lemma space_high: "space2 a b \<Longrightarrow> 128 \<le> code a \<and> 128 \<le> code b"
  "space3 a b c \<Longrightarrow> 128 \<le> code a \<and> 128 \<le> code b \<and> 128 \<le> code c"
  by (auto simp: space2_def space3_def)

lemma trim_rev_keeps: "c \<in> set s \<Longrightarrow> code c < 128 \<Longrightarrow> \<not> ascii_space c \<Longrightarrow> trim_rev s \<noteq> []"
proof (induction "length s" arbitrary: s rule: less_induct)
  case less
  then obtain a r where s: "s = a # r" by (cases s) auto
  have keep: "trim_rev t \<noteq> []" if "length t < length s" "c \<in> set t" for t using less that by simp
  show ?case
  proof (cases "ascii_space a")
    case True
    then show ?thesis using keep[of r] less(2,4) s by auto
  next
    case False
    show ?thesis
    proof (cases r)
      case (Cons b r1)
      note r = this
      show ?thesis
      proof (cases r1)
        case Nil
        then show ?thesis using False s r less(2,3) space_high(1)[of b a] by auto
      next
        case (Cons d r2)
        then show ?thesis
          using False s r keep[of "d # r2"] keep[of r2] less(2,3) space_high(1)[of b a] space_high(2)[of d b a] by auto
      qed
    qed (use False s in simp)
  qed
qed

lemma trim_slash: "trim_space (CHR ''/'' # p) \<noteq> []"
proof -
  have "trim_left (CHR ''/'' # p) = CHR ''/'' # p"
    by (cases p; cases "tl p") (auto simp: ascii_space_def space2_def space3_def code_def)
  then show ?thesis
    using trim_rev_keeps[of "CHR ''/''" "rev (CHR ''/'' # p)"] by (simp add: trim_space_def ascii_space_def code_def)
qed

lemma virtual_back:
  assumes "IsAbs cwd" "sr_rootDir s \<noteq> []" "es \<noteq> []" "\<forall>e\<in>set es. slash_elem e"
    "\<not> physical_inside (path_Abs cwd (sr_rootDir s)) (rooted_path es)"
  shows "VirtualPathFromAbsolutePath cwd s (MapPath cwd s (rooted_path es)) = rooted_path es"
proof -
  define R where "R = clean_elems True (path_Abs cwd (sr_rootDir s))"
  have p: "\<forall>e\<in>set es. plain_elem e" "CHR 0x5C \<notin> set (rooted_path es)"
    using assms(4) join_no_backslash by (auto simp: slash_elem_def rooted_path_def)
  have ns: "\<forall>e\<in>set es. CHR ''/'' \<notin> set e" using p(1) by (simp add: plain_elem_def)
  have R: "\<forall>e\<in>set R. plain_elem e" using clean_elems_are_plain by (simp add: R_def)
  obtain e es' where es: "es = e # es'" using assms(3) by (cases es) auto
  have e: "plain_elem e" using p(1) es by simp
  have tl: "split_char (CHR ''/'') (str_join ''/'' es) = es" using split_join[OF assms(3) ns] .
  have "rooted_path es \<noteq> ''/''" using tl e es by (auto simp: rooted_path_def plain_elem_def)
  then have m: "MapPath cwd s (rooted_path es) = rooted_path (rev R @ es)"
    using MapPath_virtual[OF assms(1,2) _ p(2)] assms(5) p(1) Clean_rooted[OF p(1)] tl fold_plain[OF p(1), of True R]
    by (simp add: IsAbs_def R_def[symmetric] rooted_path_def)
  have pl: "\<forall>e\<in>set (rev R @ es). plain_elem e" using p(1) R by auto
  have t: "path_Abs cwd (rooted_path (rev R @ es)) = rooted_path (rev R @ es)" using root_of_rooted[OF pl assms(1)] .
  have rel: "path_Rel (path_Abs cwd (sr_rootDir s)) (rooted_path (rev R @ es)) = str_join ''/'' es"
    using clean_elems_plain[OF pl] assms(3) by (simp add: path_Rel_def R_def[symmetric] common_prefix_append)
  have first: "\<not> starts_with (x @ ''/'') (str_join ''/'' es)" if x: "x = [] \<or> x = ''.'' \<or> x = ''..''" for x
  proof
    assume "starts_with (x @ ''/'') (str_join ''/'' es)"
    then obtain r where "str_join ''/'' es = x @ CHR ''/'' # r" by (auto simp: starts_with_iff)
    then have "es = x # split_char (CHR ''/'') r" using tl split_append[of "CHR ''/''" x r] x by auto
    then show False using e es x by (auto simp: plain_elem_def)
  qed
  have ne: "str_join ''/'' es \<noteq> y" if y: "y = [] \<or> y = ''.'' \<or> y = ''..''" for y
  proof
    assume "str_join ''/'' es = y"
    then have "es = [y]" using tl split_plain[of "CHR ''/''" y] y by auto
    then show False using e es y by (auto simp: plain_elem_def)
  qed
  have "trim_space (rooted_path (rev R @ es)) \<noteq> []" by (simp add: rooted_path_def trim_slash)
  then show ?thesis
    using m t rel first[of "[]"] first[of "''.''"] first[of "''..''"] ne[of "[]"] ne[of "''.''"] ne[of "''..''"]
    by (simp add: VirtualPathFromAbsolutePath_def Let_def trim_prefix_def) (simp add: rooted_path_def)
qed

text \<open>
  Mapping a virtual path and asking for the virtual path of the result gives it back, for every path of
  plain elements that does not happen to begin with the physical path of the root itself; such a path is
  taken for a physical one.
\<close>

theorem virtual_path_round_trip:
  assumes "IsAbs cwd" "sr_rootDir s \<noteq> []" "es \<noteq> []" "\<forall>e\<in>set es. slash_elem e"
    "\<not> physical_inside (path_Abs cwd (sr_rootDir s)) (rooted_path es)"
  shows "VirtualPathFromAbsolutePath cwd s (MapPath cwd s (rooted_path es)) = rooted_path es"
  using assms by (rule virtual_back)

theorem virtual_path_round_trip_witness:
  "VirtualPathFromAbsolutePath ''/srv'' NewServer (MapPath ''/srv'' NewServer ''/a/b'') = ''/a/b''"
proof -
  have "path_Abs ''/srv'' ''./www'' = ''/srv/www''" by code_simp
  moreover have "\<not> physical_inside ''/srv/www'' ''/a/b''" by code_simp
  ultimately show ?thesis
    using virtual_path_round_trip[of "''/srv''" NewServer "[''a'', ''b'']"]
    by (simp add: IsAbs_def NewServer_def slash_elem_def plain_elem_def rooted_path_def)
qed

end
