(* ===== verification/AspRequest.thy ===== *)
theory AspRequest
  imports GoText AspServer "HOL-Library.AList"
begin

text \<open>
  The Request object (\<open>axonvm/asp/request.go\<close>): its collections, filled at once or parsed lazily from the
  URL-encoded payload, and the request body, which a page reads either as a form or with \<open>BinaryRead\<close>.
  A Go map is an association list; where a \<open>range\<close> loop goes over one, its order is the iteration order.
  The cache of decoded lazy keys, which only saves decoding them again, is left out.
\<close>

section \<open>Environment\<close>

text \<open>The parts that need Unicode tables: \<open>ToLower\<close> and \<open>EqualFold\<close> beyond ASCII.\<close>

record asp_env =
  as_lower :: "string \<Rightarrow> string"
  as_fold :: "string \<Rightarrow> string \<Rightarrow> bool"

abbreviation ToLower :: "asp_env \<Rightarrow> string \<Rightarrow> string" where
  "ToLower E s \<equiv> to_lower (as_lower E) s"

definition EqualFold :: "asp_env \<Rightarrow> string \<Rightarrow> string \<Rightarrow> bool" where
  "EqualFold E s t = (if is_ascii s \<and> is_ascii t then ascii_lower s = ascii_lower t else as_fold E s t)"

section \<open>Text\<close>

text \<open>\<open>value*10 + digit\<close> in a Go \<open>int\<close> of 64 bits.\<close>

fun positive_digits :: "i64 \<Rightarrow> string \<Rightarrow> i64 option" where
  "positive_digits v [] = Some v"
| "positive_digits v (c # s) = (if is_digit c then positive_digits (v * 10 + word_of_nat (code c - 48)) s else None)"

definition parsePositiveInt :: "string \<Rightarrow> int option" where
  "parsePositiveInt s =
     (if s = [] then None
      else case positive_digits 0 s of
             None \<Rightarrow> None
           | Some v \<Rightarrow> if sint v < 1 then None else Some (sint v))"

definition intToString :: "int \<Rightarrow> string" where
  "intToString n = (if n < 0 then [] else nat_digits (nat n))"

definition subkey_of :: "asp_env \<Rightarrow> string \<Rightarrow> (string \<times> string) option" where
  "subkey_of E part =
     (case split_n 2 (CHR ''='') (trim_space part) of
        k # v # _ \<Rightarrow> (let key = ToLower E (trim_space k) in if key = [] then None else Some (key, trim_space v))
      | _ \<Rightarrow> None)"

definition parseCookieSubKeys :: "asp_env \<Rightarrow> string \<Rightarrow> (string \<times> string) list" where
  "parseCookieSubKeys E raw =
     fold (\<lambda>part m. case subkey_of E part of Some (k, v) \<Rightarrow> AList.update k v m | None \<Rightarrow> m)
       (split_char (CHR ''&'') raw) []"

definition hexToNibble :: "char \<Rightarrow> nat option" where
  "hexToNibble c =
     (let b = code c
      in if 48 \<le> b \<and> b \<le> 57 then Some (b - 48)
         else if 97 \<le> b \<and> b \<le> 102 then Some (b - 97 + 10)
         else if 65 \<le> b \<and> b \<le> 70 then Some (b - 65 + 10)
         else None)"

section \<open>URL-encoded payloads\<close>

record requestKVRange =
  kv_start :: nat
  kv_end :: nat

record requestKVPair =
  kv_key :: requestKVRange
  kv_value :: requestKVRange

abbreviation kv_range :: "nat \<Rightarrow> nat \<Rightarrow> requestKVRange" where
  "kv_range a b \<equiv> \<lparr>kv_start = a, kv_end = b\<rparr>"

text \<open>The first \<open>=\<close> between two positions.\<close>

definition equals_at :: "string \<Rightarrow> nat \<Rightarrow> nat \<Rightarrow> nat option" where
  "equals_at p a b = map_option (\<lambda>j. a + j) (index_any ''='' (take (b - a) (drop a p)))"

definition segment_pairs :: "string \<Rightarrow> nat \<Rightarrow> nat \<Rightarrow> requestKVPair list" where
  "segment_pairs p a b =
     (if a < b then
        (case equals_at p a b of
           None \<Rightarrow> [\<lparr>kv_key = kv_range a b, kv_value = kv_range b b\<rparr>]
         | Some e \<Rightarrow> if a < e then [\<lparr>kv_key = kv_range a e, kv_value = kv_range (e + 1) b\<rparr>] else [])
      else [])"

text \<open>The loop over the positions up to the end of the payload included.\<close>

fun pairs_from :: "string \<Rightarrow> nat \<Rightarrow> nat list \<Rightarrow> requestKVPair list" where
  "pairs_from p start [] = []"
| "pairs_from p start (i # is) =
     (if i < length p \<and> p ! i \<noteq> CHR ''&'' then pairs_from p start is
      else segment_pairs p start i @ pairs_from p (i + 1) is)"

definition parseURLEncodedPairs :: "string \<Rightarrow> requestKVPair list" where
  "parseURLEncodedPairs p = (if p = [] then [] else pairs_from p 0 [0..<Suc (length p)])"

fun decode_bytes :: "string \<Rightarrow> string" where
  "decode_bytes [] = []"
| "decode_bytes (c # s) =
     (if c = CHR ''+'' then CHR '' '' # decode_bytes s
      else case s of
        h # l # r \<Rightarrow>
          (if c = CHR ''%'' then
             (case (hexToNibble h, hexToNibble l) of
                (Some x, Some y) \<Rightarrow> char_of (x * 16 + y) # decode_bytes r
              | _ \<Rightarrow> c # decode_bytes s)
           else c # decode_bytes s)
      | _ \<Rightarrow> c # decode_bytes s)"

definition slice :: "string \<Rightarrow> requestKVRange \<Rightarrow> string" where
  "slice p r = take (kv_end r - kv_start r) (drop (kv_start r) p)"

definition decodeURLEncodedSegment :: "string \<Rightarrow> requestKVRange \<Rightarrow> string" where
  "decodeURLEncodedSegment p r =
     (if kv_end r \<le> kv_start r then []
      else if list_ex (\<lambda>c. c = CHR ''+'' \<or> c = CHR ''%'') (slice p r) then decode_bytes (slice p r)
      else slice p r)"

section \<open>Collections\<close>

record RequestCollectionValue =
  rv_Values :: "string list"
  rv_Attributes :: "(string \<times> string) list"

definition NewRequestCollectionValue :: "string list \<Rightarrow> RequestCollectionValue" where
  "NewRequestCollectionValue vs = \<lparr>rv_Values = vs, rv_Attributes = []\<rparr>"

definition NewRequestCookieValue :: "asp_env \<Rightarrow> string \<Rightarrow> RequestCollectionValue" where
  "NewRequestCookieValue E raw = \<lparr>rv_Values = [raw], rv_Attributes = parseCookieSubKeys E raw\<rparr>"

definition value_Joined :: "RequestCollectionValue \<Rightarrow> string" where
  "value_Joined v = str_join '', '' (rv_Values v)"

definition value_Item :: "asp_env \<Rightarrow> string \<Rightarrow> RequestCollectionValue \<Rightarrow> string" where
  "value_Item E selector v =
     (if selector = [] then value_Joined v
      else case parsePositiveInt selector of
        Some i \<Rightarrow> (if 1 \<le> i \<and> i \<le> int (length (rv_Values v)) then rv_Values v ! nat (i - 1) else [])
      | None \<Rightarrow> (case map_of (rv_Attributes v) (ToLower E selector) of Some a \<Rightarrow> a | None \<Rightarrow> []))"

definition value_Count :: "RequestCollectionValue \<Rightarrow> nat" where "value_Count v = length (rv_Values v)"

definition HasKeys :: "RequestCollectionValue \<Rightarrow> bool" where "HasKeys v \<longleftrightarrow> rv_Attributes v \<noteq> []"

record RequestCollection =
  rc_data :: "(string \<times> RequestCollectionValue) list"
  rc_keys :: "string list"
  rc_lazyData :: string
  rc_lazyKV :: "requestKVPair list"
  rc_lazyInit :: bool

definition NewRequestCollection :: RequestCollection where
  "NewRequestCollection = \<lparr>rc_data = [], rc_keys = [], rc_lazyData = [], rc_lazyKV = [], rc_lazyInit = False\<rparr>"

definition put_value :: "asp_env \<Rightarrow> string \<Rightarrow> RequestCollectionValue \<Rightarrow> RequestCollection \<Rightarrow> RequestCollection" where
  "put_value E key v c =
     (let n = ToLower E key
      in c\<lparr>rc_keys := (if map_of (rc_data c) n = None then rc_keys c @ [key] else rc_keys c),
           rc_data := AList.update n v (rc_data c)\<rparr>)"

definition AddValues :: "asp_env \<Rightarrow> string \<Rightarrow> string list \<Rightarrow> RequestCollection \<Rightarrow> RequestCollection" where
  "AddValues E key vs = put_value E key (NewRequestCollectionValue vs)"

definition coll_Add :: "asp_env \<Rightarrow> string \<Rightarrow> string \<Rightarrow> RequestCollection \<Rightarrow> RequestCollection" where
  "coll_Add E key v = AddValues E key [v]"

definition AddCookie :: "asp_env \<Rightarrow> string \<Rightarrow> string \<Rightarrow> RequestCollection \<Rightarrow> RequestCollection" where
  "AddCookie E key raw = put_value E key (NewRequestCookieValue E raw)"

definition SetLazyPayload :: "string \<Rightarrow> RequestCollection \<Rightarrow> RequestCollection" where
  "SetLazyPayload p c = c\<lparr>rc_lazyData := p, rc_lazyKV := [], rc_lazyInit := False\<rparr>"

definition ensureLazyParsedLocked :: "RequestCollection \<Rightarrow> RequestCollection" where
  "ensureLazyParsedLocked c =
     (if rc_lazyInit c then c else c\<lparr>rc_lazyKV := parseURLEncodedPairs (rc_lazyData c), rc_lazyInit := True\<rparr>)"

definition decodeRangeLocked :: "RequestCollection \<Rightarrow> requestKVRange \<Rightarrow> string" where
  "decodeRangeLocked c r =
     (if kv_end r \<le> kv_start r \<or> length (rc_lazyData c) < kv_end r then []
      else decodeURLEncodedSegment (rc_lazyData c) r)"

definition lazyKeyAtLocked :: "RequestCollection \<Rightarrow> nat \<Rightarrow> string" where
  "lazyKeyAtLocked c i = (if i < length (rc_lazyKV c) then decodeRangeLocked c (kv_key (rc_lazyKV c ! i)) else [])"

definition lazyValuesForKeyLocked :: "asp_env \<Rightarrow> string \<Rightarrow> RequestCollection \<Rightarrow> string list" where
  "lazyValuesForKeyLocked E key c =
     map (\<lambda>p. decodeRangeLocked c (kv_value p))
       (filter (\<lambda>p. EqualFold E (decodeRangeLocked c (kv_key p)) key) (rc_lazyKV c))"

definition lazyJoinedValueLocked :: "asp_env \<Rightarrow> string \<Rightarrow> RequestCollection \<Rightarrow> string option" where
  "lazyJoinedValueLocked E key c =
     (case lazyValuesForKeyLocked E key c of [] \<Rightarrow> None | vs \<Rightarrow> Some (str_join '', '' vs))"

definition lazyKeyExistsInEagerLocked :: "asp_env \<Rightarrow> requestKVPair \<Rightarrow> RequestCollection \<Rightarrow> bool" where
  "lazyKeyExistsInEagerLocked E p c \<longleftrightarrow> map_of (rc_data c) (ToLower E (decodeRangeLocked c (kv_key p))) \<noteq> None"

definition lazyHasSeenKeyBeforeLocked :: "asp_env \<Rightarrow> nat \<Rightarrow> RequestCollection \<Rightarrow> bool" where
  "lazyHasSeenKeyBeforeLocked E current c \<longleftrightarrow>
     list_ex (\<lambda>i. EqualFold E (lazyKeyAtLocked c i) (lazyKeyAtLocked c current)) [0..<current]"

text \<open>The lazy keys a loop over the collection counts: not among the eager ones and not seen before.\<close>

definition fresh_lazy_keys :: "asp_env \<Rightarrow> RequestCollection \<Rightarrow> string list" where
  "fresh_lazy_keys E c =
     map (lazyKeyAtLocked c)
       (filter (\<lambda>i. \<not> lazyKeyExistsInEagerLocked E (rc_lazyKV c ! i) c \<and> \<not> lazyHasSeenKeyBeforeLocked E i c)
         [0..<length (rc_lazyKV c)])"

definition keyByIndexLocked :: "asp_env \<Rightarrow> int \<Rightarrow> RequestCollection \<Rightarrow> string" where
  "keyByIndexLocked E index c =
     (if index < 1 then []
      else if index \<le> int (length (rc_keys c)) then rc_keys c ! nat (index - 1)
      else let r = nat (index - 1) - length (rc_keys c); ks = fresh_lazy_keys E c
           in if r < length ks then ks ! r else [])"

text \<open>The read operations; each parses the payload first.\<close>

definition coll_Get :: "asp_env \<Rightarrow> string \<Rightarrow> RequestCollection \<Rightarrow> string \<times> RequestCollection" where
  "coll_Get E key c0 =
     (let c = ensureLazyParsedLocked c0
      in (case map_of (rc_data c) (ToLower E key) of
            Some v \<Rightarrow> value_Joined v
          | None \<Rightarrow> (case lazyJoinedValueLocked E key c of Some s \<Rightarrow> s | None \<Rightarrow> []), c))"

definition value_for_key :: "asp_env \<Rightarrow> string \<Rightarrow> RequestCollection \<Rightarrow> RequestCollectionValue option" where
  "value_for_key E key c =
     (case map_of (rc_data c) (ToLower E key) of
        Some v \<Rightarrow> Some v
      | None \<Rightarrow> (case lazyValuesForKeyLocked E key c of [] \<Rightarrow> None | vs \<Rightarrow> Some (NewRequestCollectionValue vs)))"

definition coll_GetValue :: "asp_env \<Rightarrow> string \<Rightarrow> RequestCollection \<Rightarrow> RequestCollectionValue option \<times> RequestCollection" where
  "coll_GetValue E key c0 = (let c = ensureLazyParsedLocked c0 in (value_for_key E key c, c))"

definition GetSelectedValue :: "asp_env \<Rightarrow> string \<Rightarrow> RequestCollection \<Rightarrow> RequestCollectionValue option \<times> RequestCollection" where
  "GetSelectedValue E selector c0 =
     (let c = ensureLazyParsedLocked c0
      in (case parsePositiveInt selector of
            Some i \<Rightarrow> (let key = keyByIndexLocked E i c in if key = [] then None else value_for_key E key c)
          | None \<Rightarrow> value_for_key E selector c, c))"

definition coll_Exists :: "asp_env \<Rightarrow> string \<Rightarrow> RequestCollection \<Rightarrow> bool \<times> RequestCollection" where
  "coll_Exists E key c0 =
     (let c = ensureLazyParsedLocked c0
      in (map_of (rc_data c) (ToLower E key) \<noteq> None \<or> lazyJoinedValueLocked E key c \<noteq> None, c))"

definition coll_Count :: "asp_env \<Rightarrow> RequestCollection \<Rightarrow> nat \<times> RequestCollection" where
  "coll_Count E c0 = (let c = ensureLazyParsedLocked c0 in (length (rc_keys c) + length (fresh_lazy_keys E c), c))"

definition coll_Key :: "asp_env \<Rightarrow> int \<Rightarrow> RequestCollection \<Rightarrow> string \<times> RequestCollection" where
  "coll_Key E index c0 = (let c = ensureLazyParsedLocked c0 in (keyByIndexLocked E index c, c))"

text \<open>The eager values are looked up under the key as it was added, not in lower case.\<close>

definition GetByIndex :: "asp_env \<Rightarrow> int \<Rightarrow> RequestCollection \<Rightarrow> string \<times> RequestCollection" where
  "GetByIndex E index c0 =
     (let c = ensureLazyParsedLocked c0; key = keyByIndexLocked E index c
      in (if key = [] then []
          else case map_of (rc_data c) key of
            Some v \<Rightarrow> value_Joined v
          | None \<Rightarrow> (case lazyJoinedValueLocked E key c of Some s \<Rightarrow> s | None \<Rightarrow> []), c))"

definition coll_GetKeys :: "asp_env \<Rightarrow> RequestCollection \<Rightarrow> string list \<times> RequestCollection" where
  "coll_GetKeys E c0 = (let c = ensureLazyParsedLocked c0 in (rc_keys c @ fresh_lazy_keys E c, c))"

definition coll_String :: "asp_env \<Rightarrow> RequestCollection \<Rightarrow> string \<times> RequestCollection" where
  "coll_String E c0 =
     (let c = ensureLazyParsedLocked c0
      in (if rc_lazyData c \<noteq> [] then rc_lazyData c
          else str_join ''&'' (concat (map (\<lambda>key.
            case map_of (rc_data c) (ToLower E key) of
              Some v \<Rightarrow> map (\<lambda>x. key @ ''='' @ x) (rv_Values v) | None \<Rightarrow> []) (rc_keys c))), c))"

section \<open>The request\<close>

text \<open>What the page uses of \<open>http.Request\<close>: a missing body is \<open>None\<close>, a failing read \<open>Some None\<close>; the values
  \<open>ParseMultipartForm\<close> and \<open>ParseForm\<close> leave behind (those of a multipart form, if there is one, and the post
  form) are fields, \<open>None\<close> for an error.\<close>

type_synonym form_values = "(string \<times> string list) list"

record http_request =
  hr_ContentLength :: int
  hr_Body :: "string option option"
  hr_ContentType :: string
  hr_multipart :: "(form_values \<times> form_values) option"
  hr_form :: "(form_values \<times> form_values) option"

text \<open>A loader that fails is \<open>Some None\<close>.\<close>

record Request =
  rq_QueryString :: RequestCollection
  rq_Form :: RequestCollection
  rq_Cookies :: RequestCollection
  rq_ServerVars :: RequestCollection
  rq_ClientCertificate :: RequestCollection
  rq_bodyBytes :: string
  rq_bodyPos :: nat
  rq_totalBytes :: int
  rq_httpRequest :: "http_request option"
  rq_bodyLoaded :: bool
  rq_formLoaded :: bool
  rq_bodyLoader :: "string option option"
  rq_formLoader :: "form_values option option"
  rq_bodyLoadOnce :: bool
  rq_formLoadOnce :: bool
  rq_binaryReadUsed :: bool
  rq_formUsed :: bool

definition NewRequest :: Request where
  "NewRequest = \<lparr>rq_QueryString = NewRequestCollection, rq_Form = NewRequestCollection, rq_Cookies = NewRequestCollection,
     rq_ServerVars = NewRequestCollection, rq_ClientCertificate = NewRequestCollection, rq_bodyBytes = [], rq_bodyPos = 0,
     rq_totalBytes = 0, rq_httpRequest = None, rq_bodyLoaded = False, rq_formLoaded = False, rq_bodyLoader = None,
     rq_formLoader = None, rq_bodyLoadOnce = False, rq_formLoadOnce = False, rq_binaryReadUsed = False, rq_formUsed = False\<rparr>"

definition SetHTTPRequest :: "http_request option \<Rightarrow> Request \<Rightarrow> Request" where
  "SetHTTPRequest req r =
     r\<lparr>rq_httpRequest := req,
       rq_totalBytes := (case req of Some h \<Rightarrow> (if 0 < hr_ContentLength h then hr_ContentLength h else rq_totalBytes r)
                         | None \<Rightarrow> rq_totalBytes r)\<rparr>"

definition SetBodyLoader :: "string option option \<Rightarrow> Request \<Rightarrow> Request" where
  "SetBodyLoader l r = r\<lparr>rq_bodyLoader := l\<rparr>"

definition SetFormLoader :: "form_values option option \<Rightarrow> Request \<Rightarrow> Request" where
  "SetFormLoader l r = r\<lparr>rq_formLoader := l\<rparr>"

definition load_body :: "string \<Rightarrow> Request \<Rightarrow> Request" where
  "load_body b r = r\<lparr>rq_bodyBytes := b, rq_bodyPos := 0, rq_totalBytes := int (length b), rq_bodyLoaded := True\<rparr>"

definition SetBody :: "string \<Rightarrow> Request \<Rightarrow> Request" where
  "SetBody b r = load_body b r"

definition loaded_body :: "Request \<Rightarrow> string" where
  "loaded_body r =
     (case rq_bodyLoader r of
        Some (Some b) \<Rightarrow> b
      | Some None \<Rightarrow> []
      | None \<Rightarrow> (case rq_httpRequest r of
            Some h \<Rightarrow> (case hr_Body h of Some (Some b) \<Rightarrow> b | _ \<Rightarrow> [])
          | None \<Rightarrow> []))"

definition ensureBodyLoaded :: "Request \<Rightarrow> Request" where
  "ensureBodyLoaded r =
     (if rq_bodyLoadOnce r then r
      else let r = r\<lparr>rq_bodyLoadOnce := True\<rparr> in if rq_bodyLoaded r then r else load_body (loaded_body r) r)"

text \<open>The post form with the multipart values appended to the values of the same key.\<close>

definition merge_forms :: "form_values \<Rightarrow> form_values \<Rightarrow> form_values" where
  "merge_forms multipart post =
     fold (\<lambda>(k, vs) m. AList.update k ((case map_of m k of Some e \<Rightarrow> e | None \<Rightarrow> []) @ vs) m) multipart post"

definition http_form_values :: "asp_env \<Rightarrow> http_request \<Rightarrow> form_values" where
  "http_form_values E h =
     (if starts_with ''multipart/form-data'' (ToLower E (hr_ContentType h))
      then (case hr_multipart h of Some (m, p) \<Rightarrow> (if m \<noteq> [] then m else p) | None \<Rightarrow> [])
      else (case hr_form h of Some (m, p) \<Rightarrow> merge_forms m p | None \<Rightarrow> []))"

definition ensureFormLoaded :: "asp_env \<Rightarrow> Request \<Rightarrow> Request" where
  "ensureFormLoaded E r0 =
     (if rq_formLoadOnce r0 then r0
      else let r = r0\<lparr>rq_formLoadOnce := True\<rparr>;
               (r, values) =
                 (case rq_formLoader r of
                    Some l \<Rightarrow> (r, case l of Some vs \<Rightarrow> vs | None \<Rightarrow> [])
                  | None \<Rightarrow> (case rq_httpRequest r of
                        None \<Rightarrow> (r, [])
                      | Some h \<Rightarrow>
                        if starts_with ''application/x-www-form-urlencoded'' (ToLower E (hr_ContentType h))
                        then (let r = ensureBodyLoaded r
                              in (r\<lparr>rq_Form := SetLazyPayload (rq_bodyBytes r) (rq_Form r)\<rparr>, []))
                        else (r, http_form_values E h)))
           in r\<lparr>rq_Form := fold (\<lambda>(k, vs) c. AddValues E k vs c) values (rq_Form r), rq_formLoaded := True\<rparr>)"

definition MarkFormUsed :: "Request \<Rightarrow> Request" where
  "MarkFormUsed r = r\<lparr>rq_formUsed := True\<rparr>"

definition handleFormReadAccess :: "asp_env \<Rightarrow> Request \<Rightarrow> Request" where
  "handleFormReadAccess E r0 =
     (let r = MarkFormUsed r0 in if rq_binaryReadUsed r then r else ensureFormLoaded E r)"

definition TotalBytes :: "Request \<Rightarrow> int" where
  "TotalBytes r =
     (if 0 < rq_totalBytes r \<or> rq_bodyLoaded r then rq_totalBytes r
      else case rq_httpRequest r of
        Some h \<Rightarrow> (if 0 \<le> hr_ContentLength h then hr_ContentLength h else rq_totalBytes r)
      | None \<Rightarrow> rq_totalBytes r)"

definition BinaryRead :: "int \<Rightarrow> Request \<Rightarrow> string \<times> Request" where
  "BinaryRead n r0 =
     (let r = ensureBodyLoaded r0
      in if rq_formUsed r \<or> n \<le> 0 \<or> length (rq_bodyBytes r) \<le> rq_bodyPos r then ([], r)
         else let k = min (nat n) (length (rq_bodyBytes r) - rq_bodyPos r)
              in (take k (drop (rq_bodyPos r) (rq_bodyBytes r)),
                  r\<lparr>rq_bodyPos := rq_bodyPos r + k, rq_binaryReadUsed := True\<rparr>))"

text \<open>The collection of a name, and a read operation on it. A read of the form goes through the access
  callback first.\<close>

datatype collection_name = QueryStringC | FormC | CookiesC | ServerVarsC | ClientCertificateC

definition GetCollection :: "asp_env \<Rightarrow> string \<Rightarrow> collection_name option" where
  "GetCollection E name =
     (let n = ToLower E name
      in if n = ''querystring'' then Some QueryStringC else if n = ''form'' then Some FormC
         else if n = ''cookies'' then Some CookiesC else if n = ''servervariables'' then Some ServerVarsC
         else if n = ''clientcertificate'' then Some ClientCertificateC else None)"

definition read_collection ::
    "asp_env \<Rightarrow> collection_name \<Rightarrow> (RequestCollection \<Rightarrow> 'a \<times> RequestCollection) \<Rightarrow> Request \<Rightarrow> 'a \<times> Request" where
  "read_collection E name f r =
     (case name of
        QueryStringC \<Rightarrow> (case f (rq_QueryString r) of (x, c) \<Rightarrow> (x, r\<lparr>rq_QueryString := c\<rparr>))
      | FormC \<Rightarrow> (let r = handleFormReadAccess E r in case f (rq_Form r) of (x, c) \<Rightarrow> (x, r\<lparr>rq_Form := c\<rparr>))
      | CookiesC \<Rightarrow> (case f (rq_Cookies r) of (x, c) \<Rightarrow> (x, r\<lparr>rq_Cookies := c\<rparr>))
      | ServerVarsC \<Rightarrow> (case f (rq_ServerVars r) of (x, c) \<Rightarrow> (x, r\<lparr>rq_ServerVars := c\<rparr>))
      | ClientCertificateC \<Rightarrow> (case f (rq_ClientCertificate r) of (x, c) \<Rightarrow> (x, r\<lparr>rq_ClientCertificate := c\<rparr>)))"

text \<open>\<open>Request(key)\<close> tries the collections in the order of ASP.\<close>

fun first_value :: "asp_env \<Rightarrow> string \<Rightarrow> collection_name list \<Rightarrow> Request \<Rightarrow> string \<times> Request" where
  "first_value E key [] r = ([], r)"
| "first_value E key (n # ns) r =
     (case read_collection E n (coll_GetValue E key) r of
        (Some v, r) \<Rightarrow> (value_Joined v, r)
      | (None, r) \<Rightarrow> first_value E key ns r)"

definition request_GetValue :: "asp_env \<Rightarrow> string \<Rightarrow> Request \<Rightarrow> string \<times> Request" where
  "request_GetValue E key =
     first_value E key [QueryStringC, FormC, CookiesC, ClientCertificateC, ServerVarsC]"

definition GetCollectionValue :: "asp_env \<Rightarrow> string \<Rightarrow> string \<Rightarrow> Request \<Rightarrow> string \<times> Request" where
  "GetCollectionValue E name key r =
     (case GetCollection E name of
        None \<Rightarrow> ([], r)
      | Some n \<Rightarrow> (case parsePositiveInt key of
            Some i \<Rightarrow> read_collection E n (GetByIndex E i) r
          | None \<Rightarrow> read_collection E n (coll_Get E key) r))"

definition GetCollectionEntry :: "asp_env \<Rightarrow> string \<Rightarrow> string \<Rightarrow> Request \<Rightarrow> (string \<times> bool) \<times> Request" where
  "GetCollectionEntry E name key r =
     (case GetCollection E name of
        None \<Rightarrow> (([], False), r)
      | Some n \<Rightarrow> (case parsePositiveInt key of
            Some i \<Rightarrow>
              (case read_collection E n (GetByIndex E i) r of (v, r) \<Rightarrow>
                 if v \<noteq> [] then ((v, True), r)
                 else case read_collection E n (coll_Count E) r of (k, r) \<Rightarrow> ((v, i \<le> int k), r))
          | None \<Rightarrow>
              (case read_collection E n (coll_GetValue E key) r of
                 (Some v, r) \<Rightarrow> ((value_Joined v, True), r) | (None, r) \<Rightarrow> (([], False), r))))"

definition GetCollectionProperty :: "asp_env \<Rightarrow> string \<Rightarrow> string \<Rightarrow> string \<Rightarrow> Request \<Rightarrow> string \<times> Request" where
  "GetCollectionProperty E name property keyArg r =
     (case GetCollection E name of
        None \<Rightarrow> ([], r)
      | Some n \<Rightarrow>
        (if ToLower E property = ''count''
         then (case read_collection E n (coll_Count E) r of (k, r) \<Rightarrow> (intToString (int k), r))
         else if ToLower E property = ''key''
         then (case parsePositiveInt keyArg of
                 None \<Rightarrow> ([], r) | Some i \<Rightarrow> read_collection E n (coll_Key E i) r)
         else ([], r)))"

definition GetCookieAttribute :: "asp_env \<Rightarrow> string \<Rightarrow> string \<Rightarrow> Request \<Rightarrow> string \<times> Request" where
  "GetCookieAttribute E cookieName subKey r =
     (case read_collection E CookiesC (coll_GetValue E cookieName) r of
        (Some v, r) \<Rightarrow> (value_Item E subKey v, r) | (None, r) \<Rightarrow> ([], r))"

section \<open>Decoding what was encoded\<close>

lemma hex_nibble: "n < 16 \<Longrightarrow> hexToNibble (upper_hex n) = Some n"
  by (auto simp: hexToNibble_def upper_hex_code Let_def)

lemma code_split: "char_of (code c div 16 * 16 + code c mod 16) = c"
  by (simp add: code_def)

lemma decode_query_char: "decode_bytes (query_char c @ s) = c # decode_bytes s"
proof -
  have n: "code c div 16 < 16" "code c mod 16 < 16" using code_less[of c] by (simp_all add: less_mult_imp_div_less)
  have u: "unreserved c \<Longrightarrow> c \<noteq> CHR ''%'' \<and> c \<noteq> CHR ''+''" by (auto simp: unreserved_def code_def)
  consider "unreserved c" | "\<not> unreserved c" "c = CHR '' ''" | "\<not> unreserved c" "c \<noteq> CHR '' ''" by blast
  then show ?thesis
  proof cases
    case 1
    then show ?thesis using u by (cases s; cases "tl s") (auto simp: query_char_def)
  next
    case 2
    then show ?thesis by (simp add: query_char_def)
  next
    case 3
    then show ?thesis
      using hex_nibble[OF n(1)] hex_nibble[OF n(2)] code_split[of c] by (simp add: query_char_def percent_byte_def)
  qed
qed

lemma decode_escaped: "decode_bytes (QueryEscape s) = s"
  by (induction s) (simp_all add: QueryEscape_def decode_query_char)

lemma hex_not_special: "n < 16 \<Longrightarrow> upper_hex n \<notin> {CHR ''&'', CHR ''=''}"
  using upper_hex_code[of n] by (auto simp: code_def split: if_splits)

lemma query_char_plain: "x \<in> set (query_char c) \<Longrightarrow> x \<noteq> CHR ''&'' \<and> x \<noteq> CHR ''=''"
proof -
  assume x: "x \<in> set (query_char c)"
  have n: "code c div 16 < 16" "code c mod 16 < 16" using code_less[of c] by (simp_all add: less_mult_imp_div_less)
  have u: "unreserved c \<Longrightarrow> c \<noteq> CHR ''&'' \<and> c \<noteq> CHR ''=''" by (auto simp: unreserved_def code_def)
  show ?thesis
    using x u hex_not_special[OF n(1)] hex_not_special[OF n(2)]
    by (auto simp: query_char_def percent_byte_def split: if_splits)
qed

lemma escaped_plain: "CHR ''&'' \<notin> set (QueryEscape s)" "CHR ''='' \<notin> set (QueryEscape s)"
  using query_char_plain by (fastforce simp: QueryEscape_def)+

lemma escape_nonempty: "s \<noteq> [] \<Longrightarrow> QueryEscape s \<noteq> []"
  by (cases s) (auto simp: QueryEscape_def query_char_def percent_byte_def)

lemma decode_bytes_other: "c \<noteq> CHR ''+'' \<Longrightarrow> c \<noteq> CHR ''%'' \<Longrightarrow> decode_bytes (c # s) = c # decode_bytes s"
  by (simp split: list.split)

declare decode_bytes.simps(2) [simp del]

lemma no_escapes: "\<not> list_ex (\<lambda>c. c = CHR ''+'' \<or> c = CHR ''%'') s \<Longrightarrow> decode_bytes s = s"
proof (induction s)
  case (Cons c s)
  then have "c \<noteq> CHR ''+''" "c \<noteq> CHR ''%''" "decode_bytes s = s" by simp_all
  then show ?case using decode_bytes_other[of c s] by simp
qed simp

lemma decode_segment: "kv_end r \<le> length p \<Longrightarrow> decodeURLEncodedSegment p r = decode_bytes (slice p r)"
  using no_escapes by (auto simp: decodeURLEncodedSegment_def slice_def)

section \<open>The pairs of a payload\<close>

text \<open>The text of the pairs, by splitting at \<open>&\<close> and then at the first \<open>=\<close>; parts without a key are dropped.\<close>

definition part_pair :: "string \<Rightarrow> (string \<times> string) list" where
  "part_pair s =
     (if s = [] then []
      else case index_any ''='' s of
        None \<Rightarrow> [(s, [])]
      | Some 0 \<Rightarrow> []
      | Some e \<Rightarrow> [(take e s, drop (e + 1) s)])"

definition payload_pairs :: "string \<Rightarrow> (string \<times> string) list" where
  "payload_pairs p = concat (map part_pair (split_char (CHR ''&'') p))"

definition pair_text :: "string \<Rightarrow> requestKVPair \<Rightarrow> string \<times> string" where
  "pair_text p q = (slice p (kv_key q), slice p (kv_value q))"

lemma index_any_bound: "index_any cs s = Some n \<Longrightarrow> n < length s"
  by (induction s arbitrary: n) (auto split: if_splits)

lemma segment_text:
  assumes "a \<le> b" "b \<le> length p"
  shows "map (pair_text p) (segment_pairs p a b) = part_pair (take (b - a) (drop a p))"
proof (cases "a < b")
  case True
  define s where "s = take (b - a) (drop a p)"
  have l: "length s = b - a" using assms by (simp add: s_def)
  have sl: "slice p (kv_range (a + i) (a + j)) = take (j - i) (drop i s)" if "j \<le> b - a" for i j
    using that by (simp add: slice_def s_def drop_take min_def add.commute)
  show ?thesis
  proof (cases "index_any ''='' s")
    case None
    then show ?thesis
      using True l sl[of "b - a" 0] assms by (simp add: segment_pairs_def equals_at_def s_def[symmetric] part_pair_def pair_text_def slice_def)
        (auto simp: s_def)
  next
    case (Some e)
    have e: "e < b - a" using index_any_bound[OF Some] l by simp
    show ?thesis
    proof (cases e)
      case 0
      then show ?thesis using True Some l by (auto simp: segment_pairs_def equals_at_def s_def[symmetric] part_pair_def)
    next
      case (Suc e')
      have "slice p (kv_range a (a + e)) = take e s" using sl[of e 0] e by simp
      moreover have "slice p (kv_range (a + e + 1) b) = drop (e + 1) s"
        using sl[of "b - a" "e + 1"] True l by (simp add: add.assoc)
      ultimately show ?thesis
        using True Some l Suc by (auto simp: segment_pairs_def equals_at_def s_def[symmetric] part_pair_def pair_text_def)
    qed
  qed
qed (use assms in \<open>simp add: segment_pairs_def part_pair_def\<close>)

lemma pairs_from_split:
  "start \<le> i \<Longrightarrow> i \<le> length p \<Longrightarrow> CHR ''&'' \<notin> set (take (i - start) (drop start p)) \<Longrightarrow>
   map (pair_text p) (pairs_from p start [i..<Suc (length p)])
     = concat (map part_pair (split_char (CHR ''&'') (drop start p)))"
proof (induction "length p - i" arbitrary: i start)
  case 0
  then have i: "i = length p" by simp
  then have d: "take (length p - start) (drop start p) = drop start p" by simp
  then have "split_char (CHR ''&'') (drop start p) = [drop start p]"
    using 0 i by (intro split_plain) simp
  then show ?case using segment_text[of start "length p" p] 0 i d by simp
next
  case (Suc m)
  then have i: "i < length p" by simp
  have u: "[i..<Suc (length p)] = i # [Suc i..<Suc (length p)]" using i by (simp add: upt_conv_Cons)
  have t: "drop start p = take (i - start) (drop start p) @ p ! i # drop (Suc i) p"
    using id_take_nth_drop[of "i - start" "drop start p"] i Suc(3) by simp
  show ?case
  proof (cases "p ! i = CHR ''&''")
    case True
    have "split_char (CHR ''&'') (drop start p) = take (i - start) (drop start p) # split_char (CHR ''&'') (drop (Suc i) p)"
      by (subst t) (simp only: True split_append[OF Suc(5)])
    moreover have "map (pair_text p) (pairs_from p (Suc i) [Suc i..<Suc (length p)])
        = concat (map part_pair (split_char (CHR ''&'') (drop (Suc i) p)))"
      using Suc(1)[of "Suc i" "Suc i"] Suc(2) i by simp
    ultimately show ?thesis
      using True segment_text[of start i p] Suc(3) i unfolding u by simp
  next
    case False
    have "take (Suc i - start) (drop start p) = take (i - start) (drop start p) @ [p ! i]"
      using Suc(3) i by (simp add: Suc_diff_le take_Suc_conv_app_nth)
    then have "CHR ''&'' \<notin> set (take (Suc i - start) (drop start p))" using False Suc(5) by auto
    then show ?thesis
      using Suc(1)[of "Suc i" start] Suc(2,3) i False unfolding u by simp
  qed
qed

lemma pairs_text: "map (pair_text p) (parseURLEncodedPairs p) = payload_pairs p"
  using pairs_from_split[of 0 0 p] by (simp add: parseURLEncodedPairs_def payload_pairs_def part_pair_def)

text \<open>Every range the parser produces lies inside the payload.\<close>

definition inside :: "string \<Rightarrow> requestKVPair \<Rightarrow> bool" where
  "inside p q \<longleftrightarrow> kv_end (kv_key q) \<le> length p \<and> kv_end (kv_value q) \<le> length p \<and> kv_start (kv_key q) < kv_end (kv_key q)"

lemma pairs_inside: "\<forall>i\<in>set is. i \<le> length p \<Longrightarrow> \<forall>q\<in>set (pairs_from p start is). inside p q"
proof (induction p start "is" rule: pairs_from.induct)
  case (2 p start i "is")
  have "\<forall>q\<in>set (segment_pairs p start i). inside p q"
  proof
    fix q assume q: "q \<in> set (segment_pairs p start i)"
    show "inside p q"
    proof (cases "equals_at p start i")
      case None
      then show ?thesis using q 2(3) by (auto simp: segment_pairs_def inside_def split: if_splits)
    next
      case (Some e)
      then obtain j where e: "e = start + j" and j: "index_any ''='' (take (i - start) (drop start p)) = Some j"
        by (auto simp: equals_at_def)
      have "e \<le> i \<and> e \<le> length p" using index_any_bound[OF j] e by auto
      then show ?thesis using q Some 2(3) by (auto simp: segment_pairs_def inside_def split: if_splits)
    qed
  qed
  then show ?case using 2 by auto
qed simp

lemma parsed_inside: "q \<in> set (parseURLEncodedPairs p) \<Longrightarrow> inside p q"
  using pairs_inside[of "[0..<Suc (length p)]" p 0] by (auto simp: parseURLEncodedPairs_def split: if_splits)

text \<open>What a parsed collection holds: the decoded pairs of its payload.\<close>

definition decoded_pairs :: "RequestCollection \<Rightarrow> (string \<times> string) list" where
  "decoded_pairs c = map (\<lambda>q. (decodeRangeLocked c (kv_key q), decodeRangeLocked c (kv_value q))) (rc_lazyKV c)"

lemma decode_range: "kv_end r \<le> length (rc_lazyData c) \<Longrightarrow> decodeRangeLocked c r = decode_bytes (slice (rc_lazyData c) r)"
  using decode_segment[of r "rc_lazyData c"] by (auto simp: decodeRangeLocked_def slice_def)

lemma lazy_pairs:
  "rc_lazyInit c \<Longrightarrow> rc_lazyKV c = parseURLEncodedPairs (rc_lazyData c) \<Longrightarrow>
   decoded_pairs c = map (\<lambda>(k, v). (decode_bytes k, decode_bytes v)) (payload_pairs (rc_lazyData c))"
  using parsed_inside[of _ "rc_lazyData c"]
  by (auto simp: decoded_pairs_def pairs_text[symmetric] pair_text_def inside_def decode_range)

lemma ensured_lazy:
  "ensureLazyParsedLocked (SetLazyPayload p c)
     = c\<lparr>rc_lazyData := p, rc_lazyKV := parseURLEncodedPairs p, rc_lazyInit := True\<rparr>"
  by (simp add: ensureLazyParsedLocked_def SetLazyPayload_def)

text \<open>The payload a browser sends for a list of names and values.\<close>

definition form_payload :: "(string \<times> string) list \<Rightarrow> string" where
  "form_payload kvs = str_join ''&'' (map (\<lambda>(k, v). URLEncode k @ ''='' @ URLEncode v) kvs)"

lemma index_equals: "c \<notin> set k \<Longrightarrow> index_any [c] (k @ c # v) = Some (length k)"
  by (induction k) auto

lemma part_of_encoded:
  "k \<noteq> [] \<Longrightarrow> part_pair (URLEncode k @ ''='' @ URLEncode v) = [(URLEncode k, URLEncode v)]"
  using index_equals[of "CHR ''=''" "URLEncode k" "URLEncode v"] escaped_plain(2)[of k] escape_nonempty[of k]
  by (auto simp: part_pair_def URLEncode_def split: nat.split)

lemma form_pairs:
  assumes "\<forall>(k, v)\<in>set kvs. k \<noteq> []" "kvs \<noteq> []"
  shows "payload_pairs (form_payload kvs) = map (\<lambda>(k, v). (URLEncode k, URLEncode v)) kvs"
proof -
  define ps where "ps = map (\<lambda>(k, v). URLEncode k @ ''='' @ URLEncode v) kvs"
  have "\<forall>p\<in>set ps. CHR ''&'' \<notin> set p" using escaped_plain by (auto simp: ps_def URLEncode_def)
  then have "split_char (CHR ''&'') (str_join ''&'' ps) = ps" using split_join assms(2) by (simp add: ps_def)
  then have "payload_pairs (form_payload kvs) = concat (map part_pair ps)"
    by (simp add: payload_pairs_def form_payload_def ps_def)
  also have "\<dots> = map (\<lambda>(k, v). (URLEncode k, URLEncode v)) kvs"
    using assms(1) unfolding ps_def by (induction kvs) (auto simp: part_of_encoded[simplified])
  finally show ?thesis .
qed

lemma decode_form:
  assumes "\<forall>(k, v)\<in>set kvs. k \<noteq> []" "kvs \<noteq> []"
  shows "decoded_pairs (ensureLazyParsedLocked (SetLazyPayload (form_payload kvs) c)) = kvs"
proof -
  have "map (\<lambda>(k, v). (decode_bytes k, decode_bytes v)) (map (\<lambda>(k, v). (URLEncode k, URLEncode v)) kvs) = kvs"
    by (induction kvs) (auto simp: URLEncode_def decode_escaped)
  then show ?thesis using form_pairs[OF assms] lazy_pairs by (simp add: ensured_lazy)
qed

text \<open>
  C28. A form survives its encoding: when the names and values of a form, names not empty and any bytes
  otherwise, are encoded with \<open>Server.URLEncode\<close> and joined as a browser does, the lazily parsed collection
  holds exactly these pairs, in their order, with all values of a repeated name.
\<close>

theorem encoded_form_round_trip:
  assumes "list_all (\<lambda>(k, v). k \<noteq> []) kvs" "kvs \<noteq> []"
  shows "decoded_pairs (ensureLazyParsedLocked (SetLazyPayload (form_payload kvs) c)) = kvs"
  using assms by (intro decode_form) (auto simp: list_all_iff)

theorem encoded_form_round_trip_witness:
  "decoded_pairs (ensureLazyParsedLocked (SetLazyPayload (form_payload [(''a b'', ''x&y=1''), (''c'', [])]) NewRequestCollection))
     = [(''a b'', ''x&y=1''), (''c'', [])]"
  by (rule encoded_form_round_trip) simp_all

text \<open>
  C29. The position-based parser of URL-encoded payloads finds the pairs of the plain definition: split at
  every \<open>&\<close>, then at the first \<open>=\<close> of a part, dropping parts that are empty or have no name; this holds for
  every payload, well-formed or not.
\<close>

theorem payload_parser_is_split: "map (pair_text p) (parseURLEncodedPairs p) = payload_pairs p"
  by (rule pairs_text)

section \<open>Body or form\<close>

text \<open>What a page does with a request: read a collection or read the body. \<open>R\<close> is one step.\<close>

datatype request_op = ReadCollection collection_name string | ReadBody int | AskTotal

fun do_request :: "asp_env \<Rightarrow> request_op \<Rightarrow> Request \<Rightarrow> string \<times> Request" where
  "do_request E (ReadCollection n key) r = read_collection E n (coll_Get E key) r"
| "do_request E (ReadBody n) r = BinaryRead n r"
| "do_request E AskTotal r = (intToString (TotalBytes r), r)"

fun do_requests :: "asp_env \<Rightarrow> request_op list \<Rightarrow> Request \<Rightarrow> string list \<times> Request" where
  "do_requests E [] r = ([], r)"
| "do_requests E (a # as) r =
     (case do_request E a r of (x, r) \<Rightarrow> case do_requests E as r of (xs, r) \<Rightarrow> (x # xs, r))"

definition form_or_body :: "Request \<Rightarrow> bool" where
  "form_or_body r \<longleftrightarrow> (rq_formLoaded r \<longrightarrow> rq_formUsed r) \<and> \<not> (rq_binaryReadUsed r \<and> rq_formLoaded r)"

lemma body_loaded_same [simp]:
  "rq_formLoaded (ensureBodyLoaded r) = rq_formLoaded r" "rq_formUsed (ensureBodyLoaded r) = rq_formUsed r"
  "rq_binaryReadUsed (ensureBodyLoaded r) = rq_binaryReadUsed r" "rq_Form (ensureBodyLoaded r) = rq_Form r"
  by (simp_all add: ensureBodyLoaded_def load_body_def Let_def)

lemma form_loaded_flags [simp]:
  "rq_binaryReadUsed (ensureFormLoaded E r) = rq_binaryReadUsed r" "rq_formUsed (ensureFormLoaded E r) = rq_formUsed r"
  by (auto simp: ensureFormLoaded_def Let_def split: option.splits)

lemma step_form_or_body: "do_request E a r = (x, r') \<Longrightarrow> form_or_body r \<Longrightarrow> form_or_body r'"
proof (cases a)
  case (ReadCollection n key)
  assume h: "do_request E a r = (x, r')" "form_or_body r"
  have "form_or_body (handleFormReadAccess E r)"
    using h(2) by (simp add: form_or_body_def handleFormReadAccess_def MarkFormUsed_def Let_def)
  then show ?thesis
    using h ReadCollection by (cases n) (auto simp: read_collection_def form_or_body_def Let_def split: prod.splits)
qed (auto simp: BinaryRead_def form_or_body_def Let_def split: if_splits)

lemma requests_form_or_body: "do_requests E as r = (xs, r') \<Longrightarrow> form_or_body r \<Longrightarrow> form_or_body r'"
  by (induction E as r arbitrary: xs r' rule: do_requests.induct)
     (auto split: prod.splits dest: step_form_or_body)

lemma body_reads_blocked: "rq_formUsed r \<Longrightarrow> fst (BinaryRead n r) = []"
  by (simp add: BinaryRead_def Let_def)

lemma new_form_or_body: "form_or_body NewRequest"
  by (simp add: form_or_body_def NewRequest_def)



lemma read_chunk:
  assumes "rq_bodyLoadOnce r" "\<not> rq_formUsed r"
  shows "\<exists>r'. BinaryRead n r = (take (nat n) (drop (rq_bodyPos r) (rq_bodyBytes r)), r') \<and> rq_bodyLoadOnce r'
    \<and> \<not> rq_formUsed r' \<and> rq_bodyBytes r' = rq_bodyBytes r
    \<and> drop (rq_bodyPos r') (rq_bodyBytes r') = drop (nat n) (drop (rq_bodyPos r) (rq_bodyBytes r))"
  using assms by (auto simp: BinaryRead_def ensureBodyLoaded_def Let_def min_def add.commute)

lemma read_chunks:
  "rq_bodyLoadOnce r \<Longrightarrow> \<not> rq_formUsed r \<Longrightarrow>
   concat (fst (do_requests E (map ReadBody ns) r)) = take (sum_list (map nat ns)) (drop (rq_bodyPos r) (rq_bodyBytes r))"
proof (induction ns arbitrary: r)
  case (Cons n ns)
  obtain r' where r: "BinaryRead n r = (take (nat n) (drop (rq_bodyPos r) (rq_bodyBytes r)), r')" "rq_bodyLoadOnce r'"
    "\<not> rq_formUsed r'" "drop (rq_bodyPos r') (rq_bodyBytes r') = drop (nat n) (drop (rq_bodyPos r) (rq_bodyBytes r))"
    using read_chunk[OF Cons.prems, of n] by blast
  have "concat (fst (do_requests E (map ReadBody ns) r')) = take (sum_list (map nat ns)) (drop (nat n) (drop (rq_bodyPos r) (rq_bodyBytes r)))"
    using Cons.IH[OF r(2,3)] r(4) by simp
  then show ?case
    using r(1) by (cases "do_requests E (map ReadBody ns) r'") (simp add: take_add)
qed simp

lemma body_in_pieces:
  "concat (fst (do_requests E (map ReadBody ns) (SetBody b NewRequest))) = take (sum_list (map nat ns)) b"
proof (cases ns)
  case (Cons n ms)
  define r where "r = (SetBody b NewRequest)\<lparr>rq_bodyLoadOnce := True\<rparr>"
  have "do_requests E (map ReadBody ns) (SetBody b NewRequest) = do_requests E (map ReadBody ns) r"
    using Cons by (simp add: BinaryRead_def ensureBodyLoaded_def Let_def r_def SetBody_def load_body_def NewRequest_def)
  then show ?thesis
    using read_chunks[of r E ns] by (simp add: r_def SetBody_def load_body_def NewRequest_def)
qed simp

text \<open>
  \<open>BinaryRead\<close> in pieces is the body: whatever counts a page asks for, zero and negative ones included, the
  pieces in order are the beginning of the body, as many bytes as were asked for in all or the whole body.
\<close>

theorem binary_reads_are_the_body:
  "concat (fst (do_requests E (map ReadBody ns) (SetBody b NewRequest))) = take (sum_list (map nat ns)) b"
  by (rule body_in_pieces)

text \<open>A key with capitals is found by name but its value is not found by index.\<close>

lemma index_misses_capitals:
  assumes "is_ascii key" "ascii_lower key \<noteq> key" "key \<noteq> []"
  shows "fst (coll_Get E key (coll_Add E key v NewRequestCollection)) = v"
    "fst (coll_Key E 1 (coll_Add E key v NewRequestCollection)) = key"
    "fst (GetByIndex E 1 (coll_Add E key v NewRequestCollection)) = []"
  using assms
  by (simp_all add: coll_Get_def coll_Key_def GetByIndex_def coll_Add_def AddValues_def put_value_def Let_def
      NewRequestCollection_def ensureLazyParsedLocked_def parseURLEncodedPairs_def to_lower_def
      keyByIndexLocked_def value_Joined_def NewRequestCollectionValue_def lazyJoinedValueLocked_def
      lazyValuesForKeyLocked_def)

text \<open>Digits beyond 64 bits wrap: \<open>2^64 + 1\<close> is the index 1.\<close>

lemma index_wraps: "parsePositiveInt ''18446744073709551617'' = Some 1"
  by (simp add: parsePositiveInt_def is_digit_def code_def)

end
