(* ===== verification/AspResponse.thy ===== *)
theory AspResponse
  imports AspRequest ValueOps
begin

text \<open>
  The Response object (\<open>axonvm/asp/response.go\<close>): the buffer and its segments, headers and cookies, and what
  reaches the client. The calls on \<open>http.ResponseWriter\<close> are recorded in order in \<open>rs_out\<close>; a Go panic with the
  end signal or the buffer limit is a \<open>signal\<close>. A Go map is an association list, and \<open>re_order\<close> is the order in
  which a \<open>range\<close> loop meets its keys.
\<close>

section \<open>State\<close>

text \<open>The encoders of \<open>golang.org/x/text\<close> (\<open>None\<close> for text a code page cannot express), \<open>time.Parse\<close>, the
  formatting of a time for HTTP, and the order of map iteration.\<close>

record resp_env =
  re_asp :: asp_env
  re_encode :: "int \<Rightarrow> string \<Rightarrow> string option"
  re_parse :: "string \<Rightarrow> string \<Rightarrow> int option"
  re_http_time :: "int \<Rightarrow> string"
  re_order :: "string list \<Rightarrow> string list"

record ResponseCookie =
  ck_Name :: string
  ck_Value :: string
  ck_Domain :: string
  ck_Path :: string
  ck_ExpiresRaw :: string
  ck_Secure :: bool
  ck_HTTPOnly :: bool

record responseSegment =
  sg_start :: nat
  sg_end :: nat
  sg_codePage :: int
  sg_binary :: bool

record http_cookie =
  hc_Name :: string
  hc_Value :: string
  hc_Domain :: string
  hc_Path :: string
  hc_Secure :: bool
  hc_HttpOnly :: bool
  hc_Expires :: "int option"

datatype writer_op =
    HeaderSet string string | HeaderAdd string string | CookieSet http_cookie | WriteHeader int
  | WriteBody string | FlushWriter

record Response =
  rs_Output :: bool
  rs_w :: bool
  rs_flusher :: bool
  rs_out :: "writer_op list"
  rs_buffer :: "string option"
  rs_segments :: "responseSegment list"
  rs_ended :: bool
  rs_flushed :: bool
  rs_maxBufferBytes :: int
  rs_bufferEnabled :: bool
  rs_cacheControl :: string
  rs_charset :: string
  rs_codePage :: int
  rs_contentType :: string
  rs_expires :: int
  rs_expiresAbsRaw :: string
  rs_pics :: string
  rs_status :: string
  rs_headers :: "(string \<times> string list) list"
  rs_cookies :: "(string \<times> ResponseCookie) list"
  rs_cookieOrder :: "string list"
  rs_logEntries :: "string list"

datatype signal = Continue | ResponseEnd | BufferLimit int int

definition DefaultResponseBufferLimitBytes :: int where
  "DefaultResponseBufferLimitBytes = 4 * 1024 * 1024"

definition NewResponse :: "bool \<Rightarrow> bool \<Rightarrow> bool \<Rightarrow> Response" where
  "NewResponse output isWriter isFlusher =
     \<lparr>rs_Output = output, rs_w = output \<and> isWriter, rs_flusher = output \<and> isFlusher, rs_out = [], rs_buffer = Some [],
      rs_segments = [], rs_ended = False, rs_flushed = False, rs_maxBufferBytes = DefaultResponseBufferLimitBytes,
      rs_bufferEnabled = True, rs_cacheControl = ''Private'', rs_charset = ''utf-8'', rs_codePage = 65001,
      rs_contentType = ''text/html'', rs_expires = 0, rs_expiresAbsRaw = [], rs_pics = [], rs_status = ''200 OK'',
      rs_headers = [], rs_cookies = [], rs_cookieOrder = [], rs_logEntries = []\<rparr>"

definition buffer_limit :: "Response \<Rightarrow> int" where
  "buffer_limit r = (if rs_maxBufferBytes r \<le> 0 then DefaultResponseBufferLimitBytes else rs_maxBufferBytes r)"

definition SetMaxBufferBytes :: "int \<Rightarrow> Response \<Rightarrow> Response" where
  "SetMaxBufferBytes n r = r\<lparr>rs_maxBufferBytes := (if n \<le> 0 then DefaultResponseBufferLimitBytes else n)\<rparr>"

definition GetMaxBufferBytes :: "Response \<Rightarrow> int" where
  "GetMaxBufferBytes r = buffer_limit r"

text \<open>\<open>ensureBufferCapacityLocked\<close> panics when it is \<open>Some\<close>.\<close>

definition ensureBufferCapacityLocked :: "nat \<Rightarrow> Response \<Rightarrow> signal option" where
  "ensureBufferCapacityLocked nextSize r =
     (if rs_bufferEnabled r \<and> buffer_limit r < int nextSize then Some (BufferLimit (buffer_limit r) (int nextSize)) else None)"

section \<open>Properties\<close>

text \<open>A setter that does nothing once the headers are sent.\<close>

definition unless_flushed :: "(Response \<Rightarrow> Response) \<Rightarrow> Response \<Rightarrow> Response" where
  "unless_flushed f r = (if rs_flushed r then r else f r)"

definition response_SetCodePage :: "int \<Rightarrow> Response \<Rightarrow> Response" where
  "response_SetCodePage cp = unless_flushed (\<lambda>r.
     let r = r\<lparr>rs_codePage := (if cp \<le> 0 then 65001 else cp)\<rparr>
     in if rs_codePage r = 65001 \<and> rs_charset r = [] then r\<lparr>rs_charset := ''utf-8''\<rparr> else r)"

definition response_GetCodePage :: "Response \<Rightarrow> int" where
  "response_GetCodePage r = (if rs_codePage r \<le> 0 then 65001 else rs_codePage r)"

definition SetContentType :: "string \<Rightarrow> Response \<Rightarrow> Response" where
  "SetContentType v = unless_flushed (\<lambda>r. r\<lparr>rs_contentType := v\<rparr>)"
definition SetCacheControl :: "string \<Rightarrow> Response \<Rightarrow> Response" where
  "SetCacheControl v = unless_flushed (\<lambda>r. r\<lparr>rs_cacheControl := v\<rparr>)"
definition SetCharset :: "string \<Rightarrow> Response \<Rightarrow> Response" where
  "SetCharset v = unless_flushed (\<lambda>r. r\<lparr>rs_charset := v\<rparr>)"
definition SetExpires :: "int \<Rightarrow> Response \<Rightarrow> Response" where
  "SetExpires v = unless_flushed (\<lambda>r. r\<lparr>rs_expires := v\<rparr>)"
definition SetExpiresAbsoluteRaw :: "string \<Rightarrow> Response \<Rightarrow> Response" where
  "SetExpiresAbsoluteRaw v = unless_flushed (\<lambda>r. r\<lparr>rs_expiresAbsRaw := v\<rparr>)"
definition SetPICS :: "string \<Rightarrow> Response \<Rightarrow> Response" where
  "SetPICS v = unless_flushed (\<lambda>r. r\<lparr>rs_pics := v\<rparr>)"
definition SetStatus :: "string \<Rightarrow> Response \<Rightarrow> Response" where
  "SetStatus v = unless_flushed (\<lambda>r. r\<lparr>rs_status := v\<rparr>)"

definition SetBuffer :: "bool \<Rightarrow> Response \<Rightarrow> Response" where
  "SetBuffer b r = r\<lparr>rs_bufferEnabled := b\<rparr>"

definition AppendToLog :: "string \<Rightarrow> Response \<Rightarrow> Response" where
  "AppendToLog m r = r\<lparr>rs_logEntries := rs_logEntries r @ [m]\<rparr>"

definition ResetEnded :: "Response \<Rightarrow> Response" where
  "ResetEnded r = r\<lparr>rs_ended := False, rs_flushed := False\<rparr>"

section \<open>Headers\<close>

text \<open>\<open>http.Header\<close>: canonical keys with their values.\<close>

definition header_Values :: "string \<Rightarrow> (string \<times> string list) list \<Rightarrow> string list" where
  "header_Values k h = (case map_of h (CanonicalHeaderKey k) of Some vs \<Rightarrow> vs | None \<Rightarrow> [])"

definition header_Add :: "string \<Rightarrow> string \<Rightarrow> (string \<times> string list) list \<Rightarrow> (string \<times> string list) list" where
  "header_Add k v h = AList.update (CanonicalHeaderKey k) (header_Values k h @ [v]) h"

definition header_Set :: "string \<Rightarrow> string \<Rightarrow> (string \<times> string list) list \<Rightarrow> (string \<times> string list) list" where
  "header_Set k v h = AList.update (CanonicalHeaderKey k) [v] h"

definition header_Del :: "string \<Rightarrow> (string \<times> string list) list \<Rightarrow> (string \<times> string list) list" where
  "header_Del k h = AList.delete (CanonicalHeaderKey k) h"

definition setCookieName :: "string \<Rightarrow> string" where
  "setCookieName v =
     (let pair = takeWhile (\<lambda>c. c \<noteq> CHR '';'') v
      in case index_any ''='' pair of
           None \<Rightarrow> []
         | Some e \<Rightarrow> if e = 0 then [] else trim_space (take e pair))"

definition replaceSetCookieHeader :: "asp_env \<Rightarrow> string \<Rightarrow> (string \<times> string list) list \<Rightarrow> (string \<times> string list) list" where
  "replaceSetCookieHeader E v h =
     (let name = setCookieName v
      in if name = [] then header_Add ''Set-Cookie'' v h
         else header_Add ''Set-Cookie'' v
           (fold (\<lambda>c h. if EqualFold E (setCookieName c) name then h else header_Add ''Set-Cookie'' c h)
              (header_Values ''Set-Cookie'' h) (header_Del ''Set-Cookie'' h)))"

definition path_part :: "asp_env \<Rightarrow> string \<Rightarrow> string" where
  "path_part E part =
     (let t = trim_space part
      in if length t < 5 \<or> \<not> EqualFold E (take 5 t) ''path='' then part
         else let p = trim_space (drop 5 t)
              in if starts_with ''//'' p then '' path='' @ ''/'' @ dropWhile (\<lambda>c. c = CHR ''/'') p else part)"

definition normalizeSetCookiePath :: "asp_env \<Rightarrow> string \<Rightarrow> string" where
  "normalizeSetCookiePath E v = str_join '';'' (map (path_part E) (split_char (CHR '';'') v))"

definition AddHeader :: "resp_env \<Rightarrow> string \<Rightarrow> string \<Rightarrow> Response \<Rightarrow> Response" where
  "AddHeader E name v r =
     (if rs_flushed r \<or> rs_ended r then r
      else if EqualFold (re_asp E) name ''Set-Cookie''
      then r\<lparr>rs_headers := replaceSetCookieHeader (re_asp E) (normalizeSetCookiePath (re_asp E) v) (rs_headers r)\<rparr>
      else r\<lparr>rs_headers := header_Add name v (rs_headers r)\<rparr>)"

section \<open>Cookies\<close>

definition new_cookie :: "string \<Rightarrow> ResponseCookie" where
  "new_cookie name = \<lparr>ck_Name = name, ck_Value = [], ck_Domain = [], ck_Path = ''/'', ck_ExpiresRaw = [],
     ck_Secure = False, ck_HTTPOnly = False\<rparr>"

text \<open>Changes one cookie, creating it when there is none.\<close>

definition edit_cookie :: "resp_env \<Rightarrow> string \<Rightarrow> (ResponseCookie \<Rightarrow> ResponseCookie) \<Rightarrow> Response \<Rightarrow> Response" where
  "edit_cookie E name f = unless_flushed (\<lambda>r.
     let key = ToLower (re_asp E) name
     in case map_of (rs_cookies r) key of
          Some c \<Rightarrow> r\<lparr>rs_cookies := AList.update key (f c) (rs_cookies r)\<rparr>
        | None \<Rightarrow> r\<lparr>rs_cookies := AList.update key (f (new_cookie name)) (rs_cookies r),
                    rs_cookieOrder := rs_cookieOrder r @ [name]\<rparr>)"

definition SetCookieValue :: "resp_env \<Rightarrow> string \<Rightarrow> string \<Rightarrow> Response \<Rightarrow> Response" where
  "SetCookieValue E name v = edit_cookie E name (\<lambda>c. c\<lparr>ck_Value := v\<rparr>)"

definition GetCookieValue :: "resp_env \<Rightarrow> string \<Rightarrow> Response \<Rightarrow> string" where
  "GetCookieValue E name r =
     (case map_of (rs_cookies r) (ToLower (re_asp E) name) of Some c \<Rightarrow> ck_Value c | None \<Rightarrow> [])"

definition is_true :: "resp_env \<Rightarrow> string \<Rightarrow> bool" where
  "is_true E v \<longleftrightarrow> EqualFold (re_asp E) v ''true'' \<or> v = ''1''"

definition cookie_property :: "resp_env \<Rightarrow> string \<Rightarrow> string \<Rightarrow> ResponseCookie \<Rightarrow> ResponseCookie" where
  "cookie_property E prop v c =
     (let p = ToLower (re_asp E) prop
      in if p = ''value'' then c\<lparr>ck_Value := v\<rparr>
         else if p = ''domain'' then c\<lparr>ck_Domain := v\<rparr>
         else if p = ''path'' then c\<lparr>ck_Path := v\<rparr>
         else if p = ''expires'' then c\<lparr>ck_ExpiresRaw := v\<rparr>
         else if p = ''secure'' then c\<lparr>ck_Secure := is_true E v\<rparr>
         else if p = ''httponly'' then c\<lparr>ck_HTTPOnly := is_true E v\<rparr>
         else c)"

definition SetCookieProperty :: "resp_env \<Rightarrow> string \<Rightarrow> string \<Rightarrow> string \<Rightarrow> Response \<Rightarrow> Response" where
  "SetCookieProperty E name prop v = edit_cookie E name (cookie_property E prop v)"

definition GetCookieProperty :: "resp_env \<Rightarrow> string \<Rightarrow> string \<Rightarrow> Response \<Rightarrow> string" where
  "GetCookieProperty E name prop r =
     (case map_of (rs_cookies r) (ToLower (re_asp E) name) of
        None \<Rightarrow> []
      | Some c \<Rightarrow>
        (let p = ToLower (re_asp E) prop
         in if p = ''name'' then ck_Name c else if p = ''value'' then ck_Value c else if p = ''domain'' then ck_Domain c
            else if p = ''path'' then ck_Path c else if p = ''expires'' then ck_ExpiresRaw c
            else if p = ''secure'' then (if ck_Secure c then ''True'' else ''False'')
            else if p = ''httponly'' then (if ck_HTTPOnly c then ''True'' else ''False'')
            else []))"

text \<open>The value is written again from the parsed sub-keys, in the order of a map iteration.\<close>

definition subkey_text :: "(string list \<Rightarrow> string list) \<Rightarrow> (string \<times> string) list \<Rightarrow> string" where
  "subkey_text ord m =
     str_join ''&'' (map (\<lambda>k. k @ ''='' @ (case map_of m k of Some v \<Rightarrow> v | None \<Rightarrow> [])) (ord (map fst m)))"

definition SetCookieSubKey :: "resp_env \<Rightarrow> string \<Rightarrow> string \<Rightarrow> string \<Rightarrow> Response \<Rightarrow> Response" where
  "SetCookieSubKey E name subKey v = edit_cookie E name (\<lambda>c.
     let m = AList.update (ToLower (re_asp E) subKey) v (parseCookieSubKeys (re_asp E) (ck_Value c))
     in c\<lparr>ck_Value := subkey_text (re_order E) m\<rparr>)"

definition GetCookieSubKey :: "resp_env \<Rightarrow> string \<Rightarrow> string \<Rightarrow> Response \<Rightarrow> string" where
  "GetCookieSubKey E name subKey r =
     (case map_of (rs_cookies r) (ToLower (re_asp E) name) of
        None \<Rightarrow> []
      | Some c \<Rightarrow> (case map_of (parseCookieSubKeys (re_asp E) (ck_Value c)) (ToLower (re_asp E) subKey) of
            Some v \<Rightarrow> v | None \<Rightarrow> []))"

definition GetCookieCount :: "Response \<Rightarrow> nat" where "GetCookieCount r = length (rs_cookieOrder r)"

definition GetCookieKey :: "int \<Rightarrow> Response \<Rightarrow> string" where
  "GetCookieKey i r =
     (if i < 1 \<or> int (length (rs_cookieOrder r)) < i then [] else rs_cookieOrder r ! nat (i - 1))"

section \<open>The body\<close>

definition code_pages :: "int list" where
  "code_pages = [37, 437, 850, 852, 855, 858, 860, 862, 863, 865, 866, 874, 932, 936, 949, 950,
     1250, 1251, 1252, 1253, 1254, 1255, 1256, 1257, 1258]"

text \<open>Whether a code page has an encoder; any other sends the bytes as they are.\<close>

definition responseEncoding :: "int \<Rightarrow> bool" where
  "responseEncoding cp \<longleftrightarrow> cp \<in> set code_pages"

text \<open>\<open>utf16.Encode\<close>.\<close>

definition utf16_units :: "rune \<Rightarrow> nat list" where
  "utf16_units r =
     (if r < 55296 \<or> (57344 \<le> r \<and> r < 65536) then [r]
      else if 65536 \<le> r \<and> r \<le> 1114111 then [55296 + (r - 65536) div 1024, 56320 + (r - 65536) mod 1024]
      else [65533])"

definition encodeResponseBody :: "resp_env \<Rightarrow> string \<Rightarrow> int \<Rightarrow> string" where
  "encodeResponseBody E data cp =
     (if \<not> responseEncoding cp \<or> data = [] then data
      else concat (map (\<lambda>u. case re_encode E cp (of_runes [u]) of Some p \<Rightarrow> p | None \<Rightarrow> ''?'')
        (concat (map utf16_units (to_runes data)))))"

definition appendSegmentLocked :: "nat \<Rightarrow> nat \<Rightarrow> bool \<Rightarrow> Response \<Rightarrow> Response" where
  "appendSegmentLocked start stop binary r =
     (if stop \<le> start then r
      else let new = \<lparr>sg_start = start, sg_end = stop, sg_codePage = rs_codePage r, sg_binary = binary\<rparr>
           in if rs_segments r \<noteq> []
              then (let l = last (rs_segments r)
                    in if sg_end l = start \<and> sg_binary l = binary \<and> (binary \<or> sg_codePage l = rs_codePage r)
                       then r\<lparr>rs_segments := butlast (rs_segments r) @ [l\<lparr>sg_end := stop\<rparr>]\<rparr>
                       else r\<lparr>rs_segments := rs_segments r @ [new]\<rparr>)
              else r\<lparr>rs_segments := [new]\<rparr>)"

section \<open>Sending\<close>

definition contentTypeSupportsCharset :: "resp_env \<Rightarrow> string \<Rightarrow> bool" where
  "contentTypeSupportsCharset E ct =
     (let m = ToLower (re_asp E) (trim_space ct)
      in if m = [] then True
         else let m = (case index_any '';'' m of Some i \<Rightarrow> trim_space (take i m) | None \<Rightarrow> m)
              in starts_with ''text/'' m \<or> ends_with ''+json'' m \<or> ends_with ''+xml'' m
                 \<or> m \<in> {''application/json'', ''application/javascript'', ''application/xml'', ''application/xhtml+xml'',
                        ''application/rss+xml'', ''application/atom+xml'', ''application/x-www-form-urlencoded'',
                        ''image/svg+xml''})"

definition sent_content_type :: "resp_env \<Rightarrow> Response \<Rightarrow> string" where
  "sent_content_type E r =
     (if rs_charset r \<noteq> [] \<and> \<not> str_contains (ToLower (re_asp E) (rs_contentType r)) ''charset=''
         \<and> contentTypeSupportsCharset E (rs_contentType r)
      then rs_contentType r @ ''; charset='' @ rs_charset r else rs_contentType r)"

definition expiry_layouts :: "string list" where
  "expiry_layouts = [''2006-01-02T15:04:05Z07:00'', ''Mon, 02 Jan 2006 15:04:05 MST'', ''Mon, 02 Jan 2006 15:04:05 -0700'',
     ''Monday, 02-Jan-06 15:04:05 MST'', ''Mon Jan _2 15:04:05 2006'']"

definition cookie_expiry :: "resp_env \<Rightarrow> string \<Rightarrow> int option" where
  "cookie_expiry E raw =
     (if raw = [] then None
      else case parse_int64 raw of
        Some u \<Rightarrow> Some (u * 1000000000)
      | None \<Rightarrow> fold (\<lambda>layout found. case found of Some t \<Rightarrow> Some t | None \<Rightarrow> re_parse E layout raw) expiry_layouts None)"

definition sent_cookie :: "resp_env \<Rightarrow> ResponseCookie \<Rightarrow> http_cookie" where
  "sent_cookie E c = \<lparr>hc_Name = ck_Name c, hc_Value = ck_Value c, hc_Domain = ck_Domain c,
     hc_Path = (if ck_Path c = [] then ''/'' else ck_Path c), hc_Secure = ck_Secure c, hc_HttpOnly = ck_HTTPOnly c,
     hc_Expires = cookie_expiry E (ck_ExpiresRaw c)\<rparr>"

definition sent_headers :: "resp_env \<Rightarrow> int \<Rightarrow> Response \<Rightarrow> writer_op list" where
  "sent_headers E now r =
     [HeaderSet ''Cache-Control'' (rs_cacheControl r)]
     @ (if rs_pics r \<noteq> [] then [HeaderSet ''PICS-Label'' (rs_pics r)] else [])
     @ concat (map (\<lambda>k. map (HeaderAdd k) (case map_of (rs_headers r) k of Some vs \<Rightarrow> vs | None \<Rightarrow> []))
         (re_order E (map fst (rs_headers r))))
     @ [HeaderSet ''Content-Type'' (sent_content_type E r)]
     @ (if rs_expiresAbsRaw r \<noteq> [] then [HeaderSet ''Expires'' (rs_expiresAbsRaw r)]
        else if rs_expires r \<noteq> 0
        then [HeaderSet ''Expires'' (re_http_time E (now + sint (word_of_int (rs_expires r * 60000000000) :: i64)))]
        else [])
     @ concat (map (\<lambda>n. case map_of (rs_cookies r) (ToLower (re_asp E) n) of
           Some c \<Rightarrow> [CookieSet (sent_cookie E c)] | None \<Rightarrow> []) (rs_cookieOrder r))
     @ (if rs_status r \<noteq> [] \<and> \<not> EqualFold (re_asp E) (rs_status r) ''200 OK''
        then (case sscanf_d (rs_status r) of Some n \<Rightarrow> (if 0 < n then [WriteHeader n] else []) | None \<Rightarrow> [])
        else [])"

definition segment_body :: "resp_env \<Rightarrow> string \<Rightarrow> responseSegment \<Rightarrow> writer_op list" where
  "segment_body E body s =
     (if length body < sg_end s \<or> sg_end s \<le> sg_start s then []
      else let part = take (sg_end s - sg_start s) (drop (sg_start s) body)
           in [WriteBody (if sg_binary s then part else encodeResponseBody E part (sg_codePage s))])"

definition sent_body :: "resp_env \<Rightarrow> Response \<Rightarrow> writer_op list" where
  "sent_body E r =
     (case rs_buffer r of
        None \<Rightarrow> []
      | Some body \<Rightarrow>
        (if body = [] then []
         else if rs_segments r \<noteq> [] then concat (map (segment_body E body) (rs_segments r))
         else [WriteBody body]))"

definition flushInternal :: "resp_env \<Rightarrow> int \<Rightarrow> Response \<Rightarrow> Response" where
  "flushInternal E now r0 =
     (if \<not> rs_Output r0 then r0
      else let r = (if rs_w r0 \<and> \<not> rs_flushed r0
                    then r0\<lparr>rs_out := rs_out r0 @ sent_headers E now r0, rs_flushed := True\<rparr> else r0);
               r = r\<lparr>rs_out := rs_out r @ sent_body E r\<rparr>;
               r = (case rs_buffer r of
                      Some b \<Rightarrow> (if b \<noteq> [] then r\<lparr>rs_buffer := Some [], rs_segments := []\<rparr> else r) | None \<Rightarrow> r)
           in if rs_flusher r then r\<lparr>rs_out := rs_out r @ [FlushWriter]\<rparr> else r)"

section \<open>Operations\<close>

definition append_bytes :: "resp_env \<Rightarrow> int \<Rightarrow> bool \<Rightarrow> string \<Rightarrow> Response \<Rightarrow> Response \<times> signal" where
  "append_bytes E now binary s r =
     (case rs_buffer r of
        None \<Rightarrow> (r, Continue)
      | Some b \<Rightarrow>
        (if rs_ended r then (r, Continue)
         else case ensureBufferCapacityLocked (length b + length s) r of
           Some sig \<Rightarrow> (r, sig)
         | None \<Rightarrow>
           (let r = appendSegmentLocked (length b) (length b + length s) binary (r\<lparr>rs_buffer := Some (b @ s)\<rparr>)
            in (if rs_bufferEnabled r then r else flushInternal E now r, Continue))))"

definition response_Write :: "resp_env \<Rightarrow> int \<Rightarrow> string \<Rightarrow> Response \<Rightarrow> Response \<times> signal" where
  "response_Write E now = append_bytes E now False"

definition BinaryWrite :: "resp_env \<Rightarrow> int \<Rightarrow> string \<Rightarrow> Response \<Rightarrow> Response \<times> signal" where
  "BinaryWrite E now = append_bytes E now True"

definition response_Clear :: "Response \<Rightarrow> Response" where
  "response_Clear r =
     (if rs_ended r \<or> rs_buffer r = None then r
      else r\<lparr>rs_buffer := Some [], rs_segments := [], rs_flushed := False\<rparr>)"

definition response_Flush :: "resp_env \<Rightarrow> int \<Rightarrow> Response \<Rightarrow> Response" where
  "response_Flush = flushInternal"

definition response_End :: "resp_env \<Rightarrow> int \<Rightarrow> Response \<Rightarrow> Response \<times> signal" where
  "response_End E now r = ((flushInternal E now r)\<lparr>rs_ended := True\<rparr>, ResponseEnd)"

definition Redirect :: "resp_env \<Rightarrow> int \<Rightarrow> string \<Rightarrow> Response \<Rightarrow> Response \<times> signal" where
  "Redirect E now location r0 =
     (if rs_ended r0 then (r0, Continue)
      else let r = (case rs_buffer r0 of Some _ \<Rightarrow> r0\<lparr>rs_buffer := Some [], rs_segments := []\<rparr> | None \<Rightarrow> r0);
               r = r\<lparr>rs_headers := header_Set ''Location'' location (rs_headers r), rs_status := ''302 Found''\<rparr>
           in ((flushInternal E now r)\<lparr>rs_ended := True\<rparr>, ResponseEnd))"

definition ReleaseBuffer :: "Response \<Rightarrow> Response" where
  "ReleaseBuffer r = r\<lparr>rs_buffer := None, rs_segments := []\<rparr>"

definition IsClientAbortError :: "asp_env \<Rightarrow> string \<Rightarrow> bool" where
  "IsClientAbortError E message \<longleftrightarrow>
     (let m = ToLower E message in str_contains m ''broken pipe'' \<or> str_contains m ''connection reset'')"

end
