(* ===== verification/ResponseLaws.thy ===== *)
theory ResponseLaws
  imports AspResponse
begin

text \<open>
  What the client of a page receives. \<open>page\<close> is the contract of the Response object: the text sent, the text
  pending, whether the headers are out and the page has ended. The operations of \<open>response.go\<close> refine it, however
  the buffer is cut into segments.
\<close>

section \<open>The contract\<close>

record page =
  pg_client :: string
  pg_pending :: string
  pg_sent :: bool
  pg_ended :: bool
  pg_buffered :: bool
  pg_limit :: int
  pg_header_blocks :: nat

datatype response_op =
    OpWrite string | OpBinaryWrite string | OpClear | OpFlush | OpEnd | OpRedirect string | OpSetBuffer bool
  | OpSetCodePage int | OpSetContentType string | OpSetCacheControl string | OpSetCharset string | OpSetExpires int
  | OpSetExpiresAbsolute string | OpSetPICS string | OpSetStatus string | OpAddHeader string string
  | OpSetCookieValue string string | OpSetCookieProperty string string string | OpSetCookieSubKey string string string
  | OpAppendToLog string | OpSetMaxBufferBytes int

definition page_flush :: "page \<Rightarrow> page" where
  "page_flush p = p\<lparr>pg_client := pg_client p @ pg_pending p, pg_pending := [], pg_sent := True,
     pg_header_blocks := pg_header_blocks p + (if pg_sent p then 0 else 1)\<rparr>"

definition page_write :: "string \<Rightarrow> page \<Rightarrow> page \<times> signal" where
  "page_write s p =
     (if pg_ended p then (p, Continue)
      else if pg_buffered p \<and> pg_limit p < int (length (pg_pending p) + length s)
      then (p, BufferLimit (pg_limit p) (int (length (pg_pending p) + length s)))
      else let p = p\<lparr>pg_pending := pg_pending p @ s\<rparr> in (if pg_buffered p then p else page_flush p, Continue))"

fun page_op :: "response_op \<Rightarrow> page \<Rightarrow> page \<times> signal" where
  "page_op (OpWrite s) p = page_write s p"
| "page_op (OpBinaryWrite s) p = page_write s p"
| "page_op OpClear p = (if pg_ended p then p else p\<lparr>pg_pending := [], pg_sent := False\<rparr>, Continue)"
| "page_op OpFlush p = (page_flush p, Continue)"
| "page_op OpEnd p = ((page_flush p)\<lparr>pg_ended := True\<rparr>, ResponseEnd)"
| "page_op (OpRedirect l) p =
     (if pg_ended p then (p, Continue)
      else ((page_flush (p\<lparr>pg_pending := []\<rparr>))\<lparr>pg_ended := True\<rparr>, ResponseEnd))"
| "page_op (OpSetBuffer b) p = (p\<lparr>pg_buffered := b\<rparr>, Continue)"
| "page_op (OpSetMaxBufferBytes n) p =
     (p\<lparr>pg_limit := (if n \<le> 0 then DefaultResponseBufferLimitBytes else n)\<rparr>, Continue)"
| "page_op _ p = (p, Continue)"

text \<open>A script is stopped by the first signal.\<close>

fun until_signal :: "('a \<Rightarrow> 's \<Rightarrow> 's \<times> signal) \<Rightarrow> 'a list \<Rightarrow> 's \<Rightarrow> 's \<times> signal" where
  "until_signal f [] s = (s, Continue)"
| "until_signal f (x # xs) s = (case f x s of (s', Continue) \<Rightarrow> until_signal f xs s' | r \<Rightarrow> r)"

section \<open>The object\<close>

text \<open>The operations a page performs, each with the clock at its time.\<close>

fun exec_response :: "resp_env \<Rightarrow> int \<times> response_op \<Rightarrow> Response \<Rightarrow> Response \<times> signal" where
  "exec_response E (now, OpWrite s) r = response_Write E now s r"
| "exec_response E (now, OpBinaryWrite s) r = BinaryWrite E now s r"
| "exec_response E (now, OpClear) r = (response_Clear r, Continue)"
| "exec_response E (now, OpFlush) r = (response_Flush E now r, Continue)"
| "exec_response E (now, OpEnd) r = response_End E now r"
| "exec_response E (now, OpRedirect l) r = Redirect E now l r"
| "exec_response E (now, OpSetBuffer b) r = (SetBuffer b r, Continue)"
| "exec_response E (now, OpSetCodePage cp) r = (response_SetCodePage cp r, Continue)"
| "exec_response E (now, OpSetContentType v) r = (SetContentType v r, Continue)"
| "exec_response E (now, OpSetCacheControl v) r = (SetCacheControl v r, Continue)"
| "exec_response E (now, OpSetCharset v) r = (SetCharset v r, Continue)"
| "exec_response E (now, OpSetExpires v) r = (SetExpires v r, Continue)"
| "exec_response E (now, OpSetExpiresAbsolute v) r = (SetExpiresAbsoluteRaw v r, Continue)"
| "exec_response E (now, OpSetPICS v) r = (SetPICS v r, Continue)"
| "exec_response E (now, OpSetStatus v) r = (SetStatus v r, Continue)"
| "exec_response E (now, OpAddHeader n v) r = (AddHeader E n v r, Continue)"
| "exec_response E (now, OpSetCookieValue n v) r = (SetCookieValue E n v r, Continue)"
| "exec_response E (now, OpSetCookieProperty n p v) r = (SetCookieProperty E n p v r, Continue)"
| "exec_response E (now, OpSetCookieSubKey n k v) r = (SetCookieSubKey E n k v r, Continue)"
| "exec_response E (now, OpAppendToLog m) r = (AppendToLog m r, Continue)"
| "exec_response E (now, OpSetMaxBufferBytes n) r = (SetMaxBufferBytes n r, Continue)"

definition body_text :: "writer_op list \<Rightarrow> string" where
  "body_text ops = concat (map (\<lambda>w. case w of WriteBody b \<Rightarrow> b | _ \<Rightarrow> []) ops)"

definition header_block :: "writer_op \<Rightarrow> bool" where
  "header_block w = (case w of HeaderSet k v \<Rightarrow> k = ''Cache-Control'' | _ \<Rightarrow> False)"

definition page_of :: "Response \<Rightarrow> page" where
  "page_of r = \<lparr>pg_client = body_text (rs_out r), pg_pending = (case rs_buffer r of Some b \<Rightarrow> b | None \<Rightarrow> []),
     pg_sent = rs_flushed r, pg_ended = rs_ended r, pg_buffered = rs_bufferEnabled r, pg_limit = buffer_limit r,
     pg_header_blocks = length (filter header_block (rs_out r))\<rparr>"

text \<open>The segments cover the buffer without a gap; \<open>raw_pages\<close>: no segment needs an encoder.\<close>

fun tiles :: "nat \<Rightarrow> responseSegment list \<Rightarrow> nat \<Rightarrow> bool" where
  "tiles a [] b \<longleftrightarrow> a = b"
| "tiles a (s # ss) b \<longleftrightarrow> sg_start s = a \<and> a < sg_end s \<and> tiles (sg_end s) ss b"

definition response_ok :: "Response \<Rightarrow> bool" where
  "response_ok r \<longleftrightarrow> rs_Output r \<and> rs_w r \<and>
     (case rs_buffer r of Some b \<Rightarrow> tiles 0 (rs_segments r) (length b) | None \<Rightarrow> False)"

definition raw_pages :: "Response \<Rightarrow> bool" where
  "raw_pages r \<longleftrightarrow> \<not> responseEncoding (rs_codePage r) \<and>
     list_all (\<lambda>s. sg_binary s \<or> \<not> responseEncoding (sg_codePage s)) (rs_segments r)"

fun raw_op :: "response_op \<Rightarrow> bool" where
  "raw_op (OpSetCodePage cp) \<longleftrightarrow> \<not> responseEncoding cp"
| "raw_op _ \<longleftrightarrow> True"

section \<open>Segments\<close>

lemma tiles_le: "tiles a ss b \<Longrightarrow> a \<le> b"
  by (induction a ss b rule: tiles.induct) auto

lemma tiles_append: "tiles a (ss @ ts) c \<longleftrightarrow> (\<exists>b. tiles a ss b \<and> tiles b ts c)"
  by (induction ss arbitrary: a) auto

lemma tiles_appendSegment:
  assumes "tiles 0 (rs_segments r) a" "a \<le> b"
  shows "tiles 0 (rs_segments (appendSegmentLocked a b bin r)) b"
proof (cases "rs_segments r" rule: rev_cases)
  case Nil
  then show ?thesis using assms by (auto simp: appendSegmentLocked_def)
next
  case (snoc ss s)
  then show ?thesis using assms by (auto simp: appendSegmentLocked_def Let_def tiles_append)
qed

lemma raw_appendSegment:
  assumes "raw_pages r"
  shows "raw_pages (appendSegmentLocked a b bin r)"
proof (cases "rs_segments r" rule: rev_cases)
  case Nil
  then show ?thesis using assms by (auto simp: appendSegmentLocked_def raw_pages_def)
next
  case (snoc ss s)
  then show ?thesis using assms by (auto simp: appendSegmentLocked_def Let_def raw_pages_def)
qed

lemma appendSegment_keeps [simp]:
  "rs_buffer (appendSegmentLocked a b bin r) = rs_buffer r" "rs_out (appendSegmentLocked a b bin r) = rs_out r"
  "rs_flushed (appendSegmentLocked a b bin r) = rs_flushed r" "rs_ended (appendSegmentLocked a b bin r) = rs_ended r"
  "rs_Output (appendSegmentLocked a b bin r) = rs_Output r" "rs_w (appendSegmentLocked a b bin r) = rs_w r"
  "rs_bufferEnabled (appendSegmentLocked a b bin r) = rs_bufferEnabled r"
  "rs_codePage (appendSegmentLocked a b bin r) = rs_codePage r"
  "rs_maxBufferBytes (appendSegmentLocked a b bin r) = rs_maxBufferBytes r"
  by (auto simp: appendSegmentLocked_def Let_def)

lemma body_text_simps [simp]:
  "body_text [] = []" "body_text (ws @ vs) = body_text ws @ body_text vs"
  "body_text (w # ws) = (case w of WriteBody b \<Rightarrow> b | _ \<Rightarrow> []) @ body_text ws"
  by (simp_all add: body_text_def)

lemma segments_cover:
  assumes "tiles a ss (length body)" "list_all (\<lambda>s. sg_binary s \<or> \<not> responseEncoding (sg_codePage s)) ss"
  shows "body_text (concat (map (segment_body E body) ss)) = drop a body"
  using assms
proof (induction a ss "length body" rule: tiles.induct)
  case (2 a s ss)
  then have le: "sg_end s \<le> length body" using tiles_le by auto
  have "body_text (concat (map (segment_body E body) ss)) = drop (sg_end s) body" using 2 by auto
  moreover have "body_text (segment_body E body s) = take (sg_end s - a) (drop a body)"
    using 2 le by (auto simp: segment_body_def Let_def encodeResponseBody_def)
  moreover have "take (sg_end s - a) (drop a body) @ drop (sg_end s) body = drop a body"
    using 2 append_take_drop_id[of "sg_end s - a" "drop a body"] by simp
  ultimately show ?case by simp
qed simp

section \<open>The refinement\<close>

lemma sent_body_text:
  assumes "response_ok r" "raw_pages r" "rs_buffer r = Some b"
  shows "body_text (sent_body E r) = b"
  using assms segments_cover[of 0 "rs_segments r" b E]
  by (auto simp: sent_body_def response_ok_def raw_pages_def)

lemma sent_body_no_header: "filter header_block (sent_body E r) = []"
  by (auto simp: sent_body_def filter_empty_conv segment_body_def header_block_def Let_def split: option.splits if_splits)

text \<open>Everything sent before the body but the first header.\<close>

definition header_only :: "writer_op \<Rightarrow> bool" where
  "header_only w \<longleftrightarrow> (case w of HeaderSet k v \<Rightarrow> k \<noteq> ''Cache-Control'' | WriteBody b \<Rightarrow> False | _ \<Rightarrow> True)"

lemma header_only_parts:
  "list_all header_only (concat (map (\<lambda>k. map (HeaderAdd k) (f k)) ks))"
  "list_all header_only (concat (map (\<lambda>n. case h n of Some c \<Rightarrow> [CookieSet (g c)] | None \<Rightarrow> []) ns))"
  "list_all header_only (case x of Some c \<Rightarrow> (if 0 < c then [WriteHeader c] else []) | None \<Rightarrow> [])"
  by (auto simp: list_all_iff header_only_def split: option.splits)

lemma list_all_if: "list_all P (if b then xs else ys) \<longleftrightarrow> (if b then list_all P xs else list_all P ys)"
  by simp

lemma sent_headers_shape:
  "\<exists>ws. sent_headers E now r = HeaderSet ''Cache-Control'' (rs_cacheControl r) # ws \<and> list_all header_only ws"
  unfolding sent_headers_def append_Cons append_Nil
  by (intro exI conjI, rule refl)
     (simp only: list_all_append list_all_if header_only_parts list.pred_inject, simp add: header_only_def)

lemma header_only_body: "list_all header_only ws \<Longrightarrow> body_text ws = [] \<and> filter header_block ws = []"
  by (induction ws) (auto simp: header_only_def header_block_def split: writer_op.splits)

lemma sent_headers_text: "body_text (sent_headers E now r) = []"
  using sent_headers_shape[of E now r] header_only_body by fastforce

lemma sent_headers_block: "filter header_block (sent_headers E now r) = [HeaderSet ''Cache-Control'' (rs_cacheControl r)]"
  using sent_headers_shape[of E now r] header_only_body by (fastforce simp: header_block_def)

lemma page_of_flush:
  assumes "response_ok r" "raw_pages r"
  shows "page_of (flushInternal E now r) = page_flush (page_of r)"
proof -
  obtain b where b: "rs_buffer r = Some b" using assms by (auto simp: response_ok_def split: option.splits)
  have h: "sent_body E (r\<lparr>rs_out := ws, rs_flushed := True\<rparr>) = sent_body E r"
    "sent_body E (r\<lparr>rs_out := ws\<rparr>) = sent_body E r" for ws
    by (simp_all add: sent_body_def split: option.split)
  have t: "body_text (sent_body E r) = b" using sent_body_text[OF assms b] .
  show ?thesis using assms b
    by (auto simp: flushInternal_def page_of_def page_flush_def Let_def response_ok_def h t sent_body_no_header
        sent_headers_text sent_headers_block buffer_limit_def header_block_def)
qed

lemma flush_keeps:
  "response_ok r \<Longrightarrow> response_ok (flushInternal E now r)" "raw_pages r \<Longrightarrow> raw_pages (flushInternal E now r)"
  by (auto simp: flushInternal_def response_ok_def raw_pages_def Let_def split: option.splits)

lemma limit_appendSegment [simp]: "buffer_limit (appendSegmentLocked a b bin r) = buffer_limit r"
  "buffer_limit (r\<lparr>rs_buffer := x\<rparr>) = buffer_limit r" "buffer_limit (r\<lparr>rs_bufferEnabled := y\<rparr>) = buffer_limit r"
  by (simp_all add: buffer_limit_def)

lemma append_bytes_refines:
  assumes ok: "response_ok r" and raw: "raw_pages r" and res: "append_bytes E now bin s r = (r', sig)"
  shows "response_ok r'" "raw_pages r'" "page_write s (page_of r) = (page_of r', sig)"
proof -
  obtain b where b: "rs_buffer r = Some b" and t: "tiles 0 (rs_segments r) (length b)"
    using ok by (auto simp: response_ok_def split: option.splits)
  define r1 where "r1 = appendSegmentLocked (length b) (length b + length s) bin (r\<lparr>rs_buffer := Some (b @ s)\<rparr>)"
  have k: "response_ok r1" "raw_pages r1"
    using ok t raw tiles_appendSegment[of "r\<lparr>rs_buffer := Some (b @ s)\<rparr>"] raw_appendSegment[of "r\<lparr>rs_buffer := Some (b @ s)\<rparr>"]
    by (simp_all add: r1_def response_ok_def raw_pages_def)
  have p: "page_of r1 = (page_of r)\<lparr>pg_pending := b @ s\<rparr>" by (simp add: r1_def page_of_def)
  have e: "rs_bufferEnabled r1 = rs_bufferEnabled r" by (simp add: r1_def)
  have res': "(if rs_ended r then (r, Continue)
      else case ensureBufferCapacityLocked (length b + length s) r of Some sig \<Rightarrow> (r, sig)
         | None \<Rightarrow> (if rs_bufferEnabled r then r1 else flushInternal E now r1, Continue)) = (r', sig)"
    using res b by (simp add: append_bytes_def Let_def r1_def split: option.splits if_splits)
  have "response_ok r' \<and> raw_pages r' \<and> page_write s (page_of r) = (page_of r', sig)"
    using res' k ok raw b flush_keeps[OF ] page_of_flush[OF k] p e
    by (auto simp: page_write_def ensureBufferCapacityLocked_def page_of_def Let_def split: if_splits)
  then show "response_ok r'" "raw_pages r'" "page_write s (page_of r) = (page_of r', sig)" by auto
qed

text \<open>The setters leave what the client sees alone.\<close>

definition same_page :: "Response \<Rightarrow> Response \<Rightarrow> bool" where
  "same_page r r' \<longleftrightarrow> rs_Output r' = rs_Output r \<and> rs_w r' = rs_w r \<and> rs_out r' = rs_out r \<and> rs_buffer r' = rs_buffer r
     \<and> rs_segments r' = rs_segments r \<and> rs_ended r' = rs_ended r \<and> rs_flushed r' = rs_flushed r
     \<and> rs_bufferEnabled r' = rs_bufferEnabled r \<and> rs_maxBufferBytes r' = rs_maxBufferBytes r"

lemma same_page_keeps:
  assumes "same_page r r'"
  shows "page_of r' = page_of r" "response_ok r' = response_ok r"
    "\<not> responseEncoding (rs_codePage r') \<Longrightarrow> raw_pages r \<Longrightarrow> raw_pages r'"
  using assms by (simp_all add: same_page_def page_of_def response_ok_def raw_pages_def buffer_limit_def split: option.split)

lemmas setter_defs = unless_flushed_def SetContentType_def SetCacheControl_def SetCharset_def SetExpires_def
  SetExpiresAbsoluteRaw_def SetPICS_def SetStatus_def AddHeader_def AppendToLog_def edit_cookie_def SetCookieValue_def
  SetCookieProperty_def SetCookieSubKey_def response_SetCodePage_def

fun is_setter :: "response_op \<Rightarrow> bool" where
  "is_setter (OpWrite s) = False" | "is_setter (OpBinaryWrite s) = False" | "is_setter OpClear = False"
| "is_setter OpFlush = False" | "is_setter OpEnd = False" | "is_setter (OpRedirect l) = False"
| "is_setter (OpSetBuffer b) = False" | "is_setter (OpSetMaxBufferBytes n) = False"
| "is_setter _ = True"

lemma setter_same_page:
  assumes "is_setter op"
  shows "same_page r (fst (exec_response E (now, op) r))" "snd (exec_response E (now, op) r) = Continue"
    "page_op op p = (p, Continue)"
  using assms by (cases op; auto simp: setter_defs same_page_def Let_def split: option.split)+

lemma setter_code_page:
  assumes "is_setter op" "raw_op op" "\<not> responseEncoding (rs_codePage r)"
  shows "\<not> responseEncoding (rs_codePage (fst (exec_response E (now, op) r)))"
  using assms by (cases op; auto simp: setter_defs Let_def responseEncoding_def code_pages_def split: option.split)

lemma view_simps [simp]:
  "page_of (x\<lparr>rs_ended := True\<rparr>) = (page_of x)\<lparr>pg_ended := True\<rparr>"
  "page_of (x\<lparr>rs_bufferEnabled := c\<rparr>) = (page_of x)\<lparr>pg_buffered := c\<rparr>"
  "response_ok (x\<lparr>rs_ended := True\<rparr>) = response_ok x" "raw_pages (x\<lparr>rs_ended := True\<rparr>) = raw_pages x"
  "response_ok (x\<lparr>rs_bufferEnabled := c\<rparr>) = response_ok x" "raw_pages (x\<lparr>rs_bufferEnabled := c\<rparr>) = raw_pages x"
  by (simp_all add: page_of_def buffer_limit_def response_ok_def raw_pages_def split: option.split)

lemma redirect_refines:
  assumes "response_ok r" "raw_pages r" "\<not> rs_ended r"
  shows "response_ok (fst (Redirect E now l r))" "raw_pages (fst (Redirect E now l r))"
    "page_op (OpRedirect l) (page_of r) = (page_of (fst (Redirect E now l r)), snd (Redirect E now l r))"
proof -
  obtain b where b: "rs_buffer r = Some b" using assms by (auto simp: response_ok_def split: option.splits)
  define r1 where "r1 = r\<lparr>rs_buffer := Some [], rs_segments := [],
    rs_headers := header_Set ''Location'' l (rs_headers r), rs_status := ''302 Found''\<rparr>"
  have k: "response_ok r1" "raw_pages r1" using assms b by (simp_all add: r1_def response_ok_def raw_pages_def)
  have p: "page_of r1 = (page_of r)\<lparr>pg_pending := []\<rparr>" by (simp add: r1_def page_of_def buffer_limit_def)
  have R: "Redirect E now l r = ((flushInternal E now r1)\<lparr>rs_ended := True\<rparr>, ResponseEnd)"
    using assms b by (simp add: Redirect_def r1_def)
  show "response_ok (fst (Redirect E now l r))" "raw_pages (fst (Redirect E now l r))"
    using flush_keeps(1)[OF k(1)] flush_keeps(2)[OF k(2)] by (simp_all add: R)
  show "page_op (OpRedirect l) (page_of r) = (page_of (fst (Redirect E now l r)), snd (Redirect E now l r))"
    using assms by (simp add: R page_of_flush[OF k] p) (simp add: page_of_def)
qed

lemma exec_refines:
  assumes ok: "response_ok r" and raw: "raw_pages r" and op: "raw_op op" and res: "exec_response E (now, op) r = (r', sig)"
  shows "response_ok r' \<and> raw_pages r' \<and> page_op op (page_of r) = (page_of r', sig)"
proof (cases "is_setter op")
  case True
  have s: "same_page r r'" "sig = Continue" "page_op op (page_of r) = (page_of r, Continue)"
    using setter_same_page[OF True] res by (metis fst_conv, metis snd_conv, blast)
  have cp: "\<not> responseEncoding (rs_codePage r')"
    using setter_code_page[OF True op] raw res by (metis fst_conv raw_pages_def)
  show ?thesis using s same_page_keeps[OF s(1)] cp ok raw by simp
next
  case False
  show ?thesis
  proof (cases op)
    case (OpWrite s)
    then show ?thesis using append_bytes_refines[OF ok raw] res by (simp add: response_Write_def)
  next
    case (OpBinaryWrite s)
    then show ?thesis using append_bytes_refines[OF ok raw] res by (simp add: BinaryWrite_def)
  next
    case OpClear
    then show ?thesis using res ok raw
      by (auto simp: response_Clear_def page_of_def response_ok_def raw_pages_def buffer_limit_def split: option.splits)
  next
    case OpFlush
    then show ?thesis using res flush_keeps(1)[OF ok] flush_keeps(2)[OF raw] page_of_flush[OF ok raw]
      by (auto simp: response_Flush_def)
  next
    case OpEnd
    then show ?thesis using res flush_keeps(1)[OF ok] flush_keeps(2)[OF raw] page_of_flush[OF ok raw]
      by (auto simp: response_End_def)
  next
    case (OpRedirect l)
    show ?thesis
    proof (cases "rs_ended r")
      case True
      then show ?thesis using res ok raw OpRedirect by (auto simp: Redirect_def page_of_def)
    next
      case False
      then show ?thesis using redirect_refines[OF ok raw False, where l = l and E = E and now = now] res OpRedirect by simp
    qed
  next
    case (OpSetBuffer c)
    then show ?thesis using res ok raw by (auto simp: SetBuffer_def)
  next
    case (OpSetMaxBufferBytes n)
    then show ?thesis using res ok raw
      by (auto simp: SetMaxBufferBytes_def page_of_def response_ok_def raw_pages_def buffer_limit_def
          DefaultResponseBufferLimitBytes_def split: option.splits)
  qed (use False in simp_all)
qed

lemma run_refines:
  assumes "response_ok r" "raw_pages r" "\<forall>(now, op)\<in>set ops. raw_op op"
  shows "(case until_signal (exec_response E) ops r of (r', sig) \<Rightarrow>
           response_ok r' \<and> until_signal page_op (map snd ops) (page_of r) = (page_of r', sig))"
  using assms
proof (induction ops arbitrary: r)
  case (Cons o1 ops)
  obtain now op where o1: "o1 = (now, op)" by (cases o1)
  obtain r1 sig where e: "exec_response E (now, op) r = (r1, sig)" by fastforce
  have k: "response_ok r1 \<and> raw_pages r1 \<and> page_op op (page_of r) = (page_of r1, sig)"
    using exec_refines[OF Cons.prems(1,2) _ e] Cons.prems(3) o1 by simp
  show ?case using Cons.IH[of r1] Cons.prems(3) k e o1 by (cases sig) auto
qed simp

section \<open>After the end\<close>

definition finished :: "Response \<Rightarrow> bool" where
  "finished r \<longleftrightarrow> rs_ended r \<and> (case rs_buffer r of Some b \<Rightarrow> b = [] | None \<Rightarrow> True)"

lemma flush_finished:
  assumes "finished r"
  shows "finished (flushInternal E now r)" "body_text (rs_out (flushInternal E now r)) = body_text (rs_out r)"
  using assms by (auto simp: finished_def flushInternal_def Let_def sent_headers_text sent_body_def split: option.splits)

lemma op_finished:
  assumes "finished r" "exec_response E (now, op) r = (r', sig)"
  shows "finished r' \<and> body_text (rs_out r') = body_text (rs_out r)"
proof (cases "is_setter op")
  case True
  then have "same_page r r'" using setter_same_page[OF True] assms(2) by (metis fst_conv)
  then show ?thesis using assms by (simp add: same_page_def finished_def)
next
  case False
  then show ?thesis using assms flush_finished[OF assms(1), of E now]
    by (cases op) (auto simp: response_Write_def BinaryWrite_def append_bytes_def response_Clear_def response_Flush_def
        response_End_def Redirect_def SetBuffer_def SetMaxBufferBytes_def finished_def split: option.splits)
qed

lemma run_finished:
  assumes "finished r" "until_signal (exec_response E) ops r = (r', sig)"
  shows "body_text (rs_out r') = body_text (rs_out r)"
  using assms
proof (induction ops arbitrary: r)
  case (Cons o1 ops)
  obtain now op where o1: "o1 = (now, op)" by (cases o1)
  obtain r1 s1 where e: "exec_response E (now, op) r = (r1, s1)" by fastforce
  show ?case using op_finished[OF Cons.prems(1) e] Cons.IH[of r1] Cons.prems(2) e o1 by (cases s1) auto
qed simp

section \<open>Cookie sub-keys\<close>

definition plain_text :: "string \<Rightarrow> bool" where
  "plain_text s \<longleftrightarrow> list_all (\<lambda>c. 33 \<le> code c \<and> code c < 127 \<and> c \<noteq> CHR ''&'') s"

definition plain_key :: "string \<Rightarrow> bool" where
  "plain_key k \<longleftrightarrow> plain_text k \<and> k \<noteq> [] \<and> CHR ''='' \<notin> set k"

lemma trim_left_plain: "plain_text s \<Longrightarrow> trim_left s = s"
  by (cases s rule: trim_left.cases) (auto simp: plain_text_def ascii_space_def space2_def space3_def split: list.split)

lemma trim_rev_plain: "plain_text s \<Longrightarrow> trim_rev s = s"
  by (cases s rule: trim_rev.cases) (auto simp: plain_text_def ascii_space_def space2_def space3_def split: list.split)

lemma trim_plain: "plain_text s \<Longrightarrow> trim_space s = s"
  by (simp add: trim_space_def trim_left_plain trim_rev_plain plain_text_def)

lemma split_n_at: "c \<notin> set k \<Longrightarrow> split_n 2 c (k @ c # v) = [k, v]"
proof -
  assume "c \<notin> set k"
  then have "takeWhile (\<lambda>x. x \<noteq> c) (k @ c # v) = k" "dropWhile (\<lambda>x. x \<noteq> c) (k @ c # v) = c # v"
    by (induction k) auto
  then show ?thesis by (simp add: numeral_2_eq_2)
qed

lemma code_lower_char: "code (lower_char c) = (if 65 \<le> code c \<and> code c \<le> 90 then code c + 32 else code c)"
  by (simp add: lower_char_def code_def)

lemma code_eq_iff: "c = CHR ''&'' \<longleftrightarrow> code c = 38" "c = CHR ''='' \<longleftrightarrow> code c = 61"
    "lower_char c = d \<longleftrightarrow> code (lower_char c) = code d"
  using code_inject[of c "CHR ''&''"] code_inject[of c "CHR ''=''"] code_inject[of "lower_char c" d] by (simp_all add: code_def)

lemma lower_fixed: "plain_key k \<Longrightarrow> to_lower u (to_lower u k) = to_lower u k" "plain_key k \<Longrightarrow> plain_key (to_lower u k)"
proof -
  assume "plain_key k"
  then have k: "c \<in> set k \<Longrightarrow> 33 \<le> code c \<and> code c < 127 \<and> code c \<noteq> 38 \<and> code c \<noteq> 61" "k \<noteq> []" for c
    unfolding plain_key_def plain_text_def list_all_iff code_eq_iff[symmetric] by blast+
  have low: "c \<in> set k \<Longrightarrow> 33 \<le> code (lower_char c) \<and> code (lower_char c) < 127 \<and> code (lower_char c) \<noteq> 38
      \<and> code (lower_char c) \<noteq> 61 \<and> lower_char (lower_char c) = lower_char c" for c
    using k(1)[of c] unfolding code_eq_iff(3) code_lower_char by auto
  have a: "is_ascii k" using k(1) by (fastforce simp: is_ascii_def list_all_iff)
  have b: "is_ascii (ascii_lower k)" using low by (fastforce simp: is_ascii_def ascii_lower_def list_all_iff)
  have e: "to_lower u k = ascii_lower k" "to_lower u (ascii_lower k) = ascii_lower (ascii_lower k)"
    using a b by (simp_all add: to_lower_def)
  show "to_lower u (to_lower u k) = to_lower u k" using low unfolding e by (simp add: ascii_lower_def)
  show "plain_key (to_lower u k)" unfolding e using low k(2)
    by (auto simp: plain_key_def plain_text_def ascii_lower_def list_all_iff code_eq_iff(1,2))
       (metis code_eq_iff(2))
qed

lemma subkey_of_pair:
  assumes "plain_key k" "to_lower (as_lower E) k = k" "plain_text v"
  shows "subkey_of E (k @ CHR ''='' # v) = Some (k, v)"
proof -
  have p: "plain_text (k @ CHR ''='' # v)" using assms by (simp add: plain_key_def plain_text_def code_def)
  show ?thesis using assms split_n_at[of "CHR ''=''" k v]
    by (simp add: subkey_of_def trim_plain[OF p] trim_plain plain_key_def)
qed

definition subkeys_ok :: "resp_env \<Rightarrow> (string \<times> string) list \<Rightarrow> bool" where
  "subkeys_ok E m \<longleftrightarrow> distinct (map fst m) \<and>
     (\<forall>(k, v)\<in>set m. plain_key k \<and> ToLower (re_asp E) k = k \<and> plain_text v)"

lemma fold_updates:
  assumes "\<forall>p\<in>set ps. f p = Some (g p, h p)"
  shows "fold (\<lambda>p m. case f p of Some (k, v) \<Rightarrow> AList.update k v m | None \<Rightarrow> m) ps m
       = fold (\<lambda>p. AList.update (g p) (h p)) ps m"
  using assms by (induction ps arbitrary: m) simp_all

lemma fold_update_map_of:
  "distinct ks \<Longrightarrow> map_of (fold (\<lambda>k. AList.update k (h k)) ks m) x = (if x \<in> set ks then Some (h x) else map_of m x)"
  by (induction ks arbitrary: m) (auto simp: update_conv')

lemma distinct_fold_update: "distinct (map fst m) \<Longrightarrow> distinct (map fst (fold (\<lambda>k. AList.update k (h k)) ks m))"
  by (induction ks arbitrary: m) (simp_all add: distinct_update)

lemma parse_subkey_text:
  assumes ok: "subkeys_ok E m" and ord: "\<And>ks. distinct (ord ks) = distinct ks \<and> set (ord ks) = set ks"
  shows "map_of (parseCookieSubKeys (re_asp E) (subkey_text ord m)) = map_of m"
    "distinct (map fst (parseCookieSubKeys (re_asp E) (subkey_text ord m)))"
proof -
  let ?v = "\<lambda>k. case map_of m k of Some v \<Rightarrow> v | None \<Rightarrow> []"
  let ?ks = "ord (map fst m)"
  let ?p = "\<lambda>k. k @ ''='' @ ?v k"
  have k: "plain_key k \<and> ToLower (re_asp E) k = k \<and> plain_text (?v k)" if "k \<in> set ?ks" for k
  proof -
    have "k \<in> fst ` set m" using that ord[of "map fst m"] by simp
    then obtain v where v: "map_of m k = Some v" using map_of_eq_None_iff[of m k] by fastforce
    have "(k, v) \<in> set m" using map_of_SomeD[OF v] .
    with v show ?thesis using ok by (auto simp: subkeys_ok_def)
  qed
  have s: "subkey_of (re_asp E) (?p k) = Some (k, ?v k)" if "k \<in> set ?ks" for k
    using subkey_of_pair k[OF that] by simp
  have amp: "CHR ''&'' \<notin> set (?p k)" if "k \<in> set ?ks" for k
    using k[OF that] by (auto simp: plain_key_def plain_text_def list_all_iff)
  have d: "distinct ?ks" using ok ord[of "map fst m"] by (simp add: subkeys_ok_def)
  have "parseCookieSubKeys (re_asp E) (subkey_text ord m) = fold (\<lambda>k. AList.update k (?v k)) ?ks []"
  proof (cases "?ks = []")
    case True
    then have "subkey_of (re_asp E) [] = None" by (simp add: subkey_of_def trim_space_def numeral_2_eq_2)
    then show ?thesis using True by (simp add: parseCookieSubKeys_def subkey_text_def)
  next
    case False
    then have "split_char (CHR ''&'') (subkey_text ord m) = map ?p ?ks"
      unfolding subkey_text_def using split_join[of "map ?p ?ks" "CHR ''&''"] amp by auto
    then show ?thesis using fold_updates[of "map ?p ?ks" "subkey_of (re_asp E)"] s
      by (simp add: parseCookieSubKeys_def fold_map o_def) (intro fold_cong, auto)
  qed
  moreover have "map_of (fold (\<lambda>k. AList.update k (?v k)) ?ks []) x = map_of m x" for x
  proof (cases "map_of m x")
    case None
    then show ?thesis using fold_update_map_of[OF d, of ?v "[]" x] ord[of "map fst m"] map_of_eq_None_iff[of m x] by simp
  next
    case (Some v)
    then have "x \<in> fst ` set m" using map_of_eq_None_iff[of m x] by auto
    then show ?thesis using fold_update_map_of[OF d, of ?v "[]" x] ord[of "map fst m"] Some by simp
  qed
  ultimately show "map_of (parseCookieSubKeys (re_asp E) (subkey_text ord m)) = map_of m"
    "distinct (map fst (parseCookieSubKeys (re_asp E) (subkey_text ord m)))"
    using distinct_fold_update[of "[]" ?v ?ks] by (auto simp: fun_eq_iff)
qed

lemma subkeys_ok_same_map:
  "subkeys_ok E m \<Longrightarrow> map_of m' = map_of m \<Longrightarrow> distinct (map fst m') \<Longrightarrow> subkeys_ok E m'"
  unfolding subkeys_ok_def by (metis (no_types, lifting) case_prodD case_prodI2 map_of_SomeD map_of_eq_Some_iff)

lemma subkeys_ok_update:
  assumes "subkeys_ok E m" "plain_key k" "plain_text v"
  shows "subkeys_ok E (AList.update (ToLower (re_asp E) k) v m)"
proof -
  have "(a, b) \<in> set (AList.update c v m) \<Longrightarrow> (a, b) = (c, v) \<or> (a, b) \<in> set m" for a b c
    by (induction m) (auto split: if_splits)
  then show ?thesis using assms lower_fixed[OF assms(2)] by (fastforce simp: subkeys_ok_def distinct_update)
qed

definition cookie_map :: "resp_env \<Rightarrow> string \<Rightarrow> Response \<Rightarrow> (string \<times> string) list" where
  "cookie_map E name r =
     (case map_of (rs_cookies r) (ToLower (re_asp E) name) of
        Some c \<Rightarrow> parseCookieSubKeys (re_asp E) (ck_Value c) | None \<Rightarrow> [])"

definition permutes_keys :: "(string list \<Rightarrow> string list) \<Rightarrow> bool" where
  "permutes_keys ord \<longleftrightarrow> (\<forall>ks. distinct (ord ks) = distinct ks \<and> set (ord ks) = set ks)"

lemma parse_empty: "parseCookieSubKeys E [] = []"
  by (simp add: parseCookieSubKeys_def subkey_of_def trim_space_def numeral_2_eq_2)

lemma SetCookieSubKey_map:
  assumes fl: "\<not> rs_flushed r" and ok: "subkeys_ok E (cookie_map E name r)" and kv: "plain_key k" "plain_text v"
    and ord: "permutes_keys (re_order E)"
  shows "map_of (cookie_map E name (SetCookieSubKey E name k v r)) = (map_of (cookie_map E name r))(ToLower (re_asp E) k \<mapsto> v)"
    "subkeys_ok E (cookie_map E name (SetCookieSubKey E name k v r))" "\<not> rs_flushed (SetCookieSubKey E name k v r)"
proof -
  let ?m = "AList.update (ToLower (re_asp E) k) v (cookie_map E name r)"
  have m: "cookie_map E name (SetCookieSubKey E name k v r) = parseCookieSubKeys (re_asp E) (subkey_text (re_order E) ?m)"
    using fl by (simp add: cookie_map_def SetCookieSubKey_def edit_cookie_def unless_flushed_def Let_def
        update_conv' new_cookie_def parse_empty split: option.split)
  have o: "subkeys_ok E ?m" using subkeys_ok_update[OF ok kv] .
  have p: "map_of (cookie_map E name (SetCookieSubKey E name k v r)) = map_of ?m"
    "distinct (map fst (cookie_map E name (SetCookieSubKey E name k v r)))"
    using parse_subkey_text[OF o] ord unfolding m permutes_keys_def by blast+
  show "map_of (cookie_map E name (SetCookieSubKey E name k v r)) = (map_of (cookie_map E name r))(ToLower (re_asp E) k \<mapsto> v)"
    using p(1) by (simp add: update_conv')
  show "subkeys_ok E (cookie_map E name (SetCookieSubKey E name k v r))" using subkeys_ok_same_map[OF o p] .
  show "\<not> rs_flushed (SetCookieSubKey E name k v r)"
    using fl by (simp add: SetCookieSubKey_def edit_cookie_def unless_flushed_def Let_def split: option.split)
qed

lemma SetCookieSubKey_fold:
  assumes "\<not> rs_flushed r" "subkeys_ok E (cookie_map E name r)" "permutes_keys (re_order E)"
    "\<forall>(k, v)\<in>set kvs. plain_key k \<and> plain_text v"
  shows "map_of (cookie_map E name (fold (\<lambda>(k, v). SetCookieSubKey E name k v) kvs r))
    = map_of (cookie_map E name r) ++ map_of (rev (map (\<lambda>(k, v). (ToLower (re_asp E) k, v)) kvs))"
  using assms
proof (induction kvs arbitrary: r)
  case (Cons kv kvs)
  obtain k v where kv: "kv = (k, v)" by (cases kv)
  show ?case using SetCookieSubKey_map[of r E name k v] Cons kv by simp
qed simp

section \<open>One cookie per name\<close>

definition jar_ok :: "resp_env \<Rightarrow> Response \<Rightarrow> bool" where
  "jar_ok E r \<longleftrightarrow> distinct (map (ToLower (re_asp E)) (rs_cookieOrder r)) \<and> distinct (map fst (rs_cookies r))
     \<and> set (map (ToLower (re_asp E)) (rs_cookieOrder r)) = fst ` set (rs_cookies r)"

definition set_cookies_once :: "asp_env \<Rightarrow> (string \<times> string list) list \<Rightarrow> bool" where
  "set_cookies_once E h \<longleftrightarrow>
     sorted_wrt (\<lambda>a b. setCookieName b = [] \<or> \<not> EqualFold E (setCookieName a) (setCookieName b)) (header_Values ''Set-Cookie'' h)"

lemma header_Values_Add: "header_Values k (header_Add k' v h) =
    (if CanonicalHeaderKey k = CanonicalHeaderKey k' then header_Values k h @ [v] else header_Values k h)"
  by (simp add: header_Values_def header_Add_def update_conv')

lemma header_Values_Set: "CanonicalHeaderKey k \<noteq> CanonicalHeaderKey k' \<Longrightarrow> header_Values k (header_Set k' v h) = header_Values k h"
  by (simp add: header_Values_def header_Set_def update_conv')

lemma header_Values_Del: "header_Values k (header_Del k h) = []"
  by (simp add: header_Values_def header_Del_def delete_conv')

lemma replaceSetCookie_fold:
  "header_Values ''Set-Cookie'' (fold (\<lambda>c h. if P c then h else header_Add ''Set-Cookie'' c h) cs h)
     = header_Values ''Set-Cookie'' h @ filter (\<lambda>c. \<not> P c) cs"
  by (induction cs arbitrary: h) (simp_all add: header_Values_Add)

lemma replaceSetCookie_values:
  "header_Values ''Set-Cookie'' (replaceSetCookieHeader E v h) =
     (if setCookieName v = [] then header_Values ''Set-Cookie'' h
      else filter (\<lambda>c. \<not> EqualFold E (setCookieName c) (setCookieName v)) (header_Values ''Set-Cookie'' h)) @ [v]"
  by (simp add: replaceSetCookieHeader_def Let_def header_Values_Add replaceSetCookie_fold header_Values_Del)

lemma replaceSetCookie_once: "set_cookies_once E h \<Longrightarrow> set_cookies_once E (replaceSetCookieHeader E v h)"
  by (auto simp: set_cookies_once_def replaceSetCookie_values sorted_wrt_append intro: sorted_wrt_filter)

lemma code_upper_char: "code (upper_char c) = (if 97 \<le> code c \<and> code c \<le> 122 then code c - 32 else code c)"
  by (auto simp: upper_char_def code_def)

lemma lower_upper: "lower_char (upper_char c) = lower_char c" "lower_char (lower_char c) = lower_char c"
  unfolding code_inject[symmetric] code_lower_char code_upper_char by auto

lemma lower_capitalize: "ascii_lower (capitalize u s) = ascii_lower s"
  by (induction u s rule: capitalize.induct) (simp_all add: ascii_lower_def lower_upper)

lemma set_cookie_key: "CanonicalHeaderKey n = ''Set-Cookie'' \<Longrightarrow> EqualFold E n ''Set-Cookie''"
proof -
  assume h: "CanonicalHeaderKey n = ''Set-Cookie''"
  then have l: "ascii_lower n = ascii_lower ''Set-Cookie''"
    using lower_capitalize[of True n] by (auto simp: CanonicalHeaderKey_def split: if_splits)
  have "is_ascii (ascii_lower n)" unfolding l by code_simp
  then have "is_ascii n" by (force simp: is_ascii_def ascii_lower_def list_all_iff code_lower_char split: if_splits)
  moreover have "is_ascii ''Set-Cookie''" by code_simp
  ultimately show ?thesis using l by (simp add: EqualFold_def)
qed

lemma AddHeader_once: "set_cookies_once (re_asp E) (rs_headers r) \<Longrightarrow> set_cookies_once (re_asp E) (rs_headers (AddHeader E n v r))"
proof -
  assume h: "set_cookies_once (re_asp E) (rs_headers r)"
  have c: "CanonicalHeaderKey ''Set-Cookie'' = ''Set-Cookie''" by code_simp
  show ?thesis
  proof (cases "EqualFold (re_asp E) n ''Set-Cookie''")
    case True
    then show ?thesis using h by (simp add: AddHeader_def replaceSetCookie_once)
  next
    case False
    then have "CanonicalHeaderKey ''Set-Cookie'' \<noteq> CanonicalHeaderKey n" using set_cookie_key[of n "re_asp E"] c by auto
    then have "header_Values ''Set-Cookie'' (header_Add n v (rs_headers r)) = header_Values ''Set-Cookie'' (rs_headers r)"
      using header_Values_Add by simp
    then show ?thesis using h False by (simp add: AddHeader_def set_cookies_once_def)
  qed
qed

lemma edit_cookie_jar: "jar_ok E r \<Longrightarrow> jar_ok E (edit_cookie E name f r)"
proof -
  assume h: "jar_ok E r"
  show ?thesis
  proof (cases "map_of (rs_cookies r) (ToLower (re_asp E) name)")
    case None
    then have "ToLower (re_asp E) name \<notin> fst ` set (rs_cookies r)" by (simp add: map_of_eq_None_iff)
    then show ?thesis using h None
      by (auto simp: edit_cookie_def unless_flushed_def Let_def jar_ok_def dom_update distinct_update)
  next
    case (Some c)
    then have "ToLower (re_asp E) name \<in> fst ` set (rs_cookies r)" using map_of_SomeD[OF Some] by force
    then show ?thesis using h Some
      by (auto simp: edit_cookie_def unless_flushed_def Let_def jar_ok_def dom_update distinct_update)
  qed
qed

definition cookies_once :: "resp_env \<Rightarrow> Response \<Rightarrow> bool" where
  "cookies_once E r \<longleftrightarrow> jar_ok E r \<and> set_cookies_once (re_asp E) (rs_headers r)"

lemma flush_jar [simp]:
  "rs_cookies (flushInternal E now r) = rs_cookies r" "rs_cookieOrder (flushInternal E now r) = rs_cookieOrder r"
  "rs_headers (flushInternal E now r) = rs_headers r"
  by (auto simp: flushInternal_def Let_def split: option.split)

lemma append_jar [simp]:
  "rs_cookies (fst (append_bytes E now b s r)) = rs_cookies r" "rs_cookieOrder (fst (append_bytes E now b s r)) = rs_cookieOrder r"
  "rs_headers (fst (append_bytes E now b s r)) = rs_headers r"
  by (auto simp: append_bytes_def appendSegmentLocked_def Let_def split: option.split)

lemma location_not_cookie: "header_Values ''Set-Cookie'' (header_Set ''Location'' l h) = header_Values ''Set-Cookie'' h"
  by (rule header_Values_Set) code_simp

lemma op_cookies_once: "cookies_once E r \<Longrightarrow> cookies_once E (fst (exec_response E (now, op) r))"
proof -
  assume h: "cookies_once E r"
  note keep = cookies_once_def jar_ok_def set_cookies_once_def
  show ?thesis
  proof (cases op)
    case (OpAddHeader n v)
    have "rs_cookies (AddHeader E n v r) = rs_cookies r" "rs_cookieOrder (AddHeader E n v r) = rs_cookieOrder r"
      by (simp_all add: AddHeader_def)
    then show ?thesis using h OpAddHeader AddHeader_once[of E r n v] by (simp add: cookies_once_def jar_ok_def)
  next
    case (OpSetCookieValue n v)
    then show ?thesis using h edit_cookie_jar[of E r]
      by (simp add: cookies_once_def SetCookieValue_def) (simp add: edit_cookie_def unless_flushed_def Let_def split: option.split)
  next
    case (OpSetCookieProperty n p v)
    then show ?thesis using h edit_cookie_jar[of E r]
      by (simp add: cookies_once_def SetCookieProperty_def) (simp add: edit_cookie_def unless_flushed_def Let_def split: option.split)
  next
    case (OpSetCookieSubKey n k v)
    then show ?thesis using h edit_cookie_jar[of E r]
      by (simp add: cookies_once_def SetCookieSubKey_def) (simp add: edit_cookie_def unless_flushed_def Let_def split: option.split)
  next
    case (OpRedirect l)
    then show ?thesis using h location_not_cookie[of l "rs_headers r"]
      by (simp add: keep Redirect_def split: option.split)
  qed (use h in \<open>simp_all add: keep response_Write_def BinaryWrite_def response_Clear_def response_Flush_def
      response_End_def SetBuffer_def setter_defs SetMaxBufferBytes_def Let_def\<close>)
qed

lemma run_cookies_once: "cookies_once E r \<Longrightarrow> cookies_once E (fst (until_signal (exec_response E) ops r))"
proof (induction ops arbitrary: r)
  case (Cons o1 ops)
  obtain now op where o1: "o1 = (now, op)" by (cases o1)
  obtain r1 s1 where e: "exec_response E (now, op) r = (r1, s1)" by fastforce
  show ?case using op_cookies_once[OF Cons.prems, of now op] Cons.IH[of r1] e o1 by (cases s1) auto
qed simp

section \<open>Properties\<close>

text \<open>
  C31. Refinement: a run of page operations on the Response object, however it cuts the buffer into segments and
  whenever it flushes, has the same effect as on the page contract: the client gets exactly the pending text,
  in order and once; a write beyond the limit of the buffer stops the page and adds nothing; Clear drops what is
  pending and makes the headers go out a second time; End and Redirect send what is due and stop the page. This holds
  for code pages that need no encoder.
\<close>

theorem response_refines_page:
  assumes "response_ok r" "raw_pages r" "\<forall>(now, op)\<in>set ops. raw_op op"
    and "until_signal (exec_response E) ops r = (r', sig)"
  shows "until_signal page_op (map snd ops) (page_of r) = (page_of r', sig) \<and> response_ok r'"
  using run_refines[OF assms(1-3), of E] assms(4) by simp

text \<open>
  Safety: once a page has ended, and its buffer is empty, no operation of the page sends anything more of a
  body, whatever the code page, and however many operations the page still performs.
\<close>

theorem nothing_after_end:
  assumes "finished r" "until_signal (exec_response E) ops r = (r', sig)"
  shows "body_text (rs_out r') = body_text (rs_out r)"
  by (rule run_finished[OF assms])


text \<open>
  C33. Round trip: sub-keys written to a new cookie with plain keys and values are read back as written last, whatever
  the case of the key and whatever the order in which the map of sub-keys is traversed at each write.
\<close>

theorem cookie_subkeys_read_back:
  assumes "\<not> rs_flushed r" "map_of (rs_cookies r) (ToLower (re_asp E) name) = None" "permutes_keys (re_order E)"
    "\<forall>(k, v)\<in>set kvs. plain_key k \<and> plain_text v"
  shows "GetCookieSubKey E name k (fold (\<lambda>(k, v). SetCookieSubKey E name k v) kvs r) =
    (case map_of (rev (map (\<lambda>(k, v). (ToLower (re_asp E) k, v)) kvs)) (ToLower (re_asp E) k) of
       Some v \<Rightarrow> v | None \<Rightarrow> [])"
proof -
  let ?r = "fold (\<lambda>(k, v). SetCookieSubKey E name k v) kvs r"
  have m: "cookie_map E name r = []" using assms(2) by (simp add: cookie_map_def)
  have "GetCookieSubKey E name k ?r = (case map_of (cookie_map E name ?r) (ToLower (re_asp E) k) of Some v \<Rightarrow> v | None \<Rightarrow> [])"
    by (simp add: GetCookieSubKey_def cookie_map_def split: option.split)
  then show ?thesis using SetCookieSubKey_fold[OF assms(1) _ assms(3,4), of name] by (simp add: m subkeys_ok_def)
qed

section \<open>Witnesses\<close>

definition plain_env :: resp_env where
  "plain_env = \<lparr>re_asp = \<lparr>as_lower = (\<lambda>s. s), as_fold = (=)\<rparr>, re_encode = (\<lambda>_ s. Some s), re_parse = (\<lambda>_ _. None),
     re_http_time = (\<lambda>_. []), re_order = rev\<rparr>"

definition new_page :: Response where "new_page = NewResponse True True True"

lemma new_page_ok: "response_ok new_page" "raw_pages new_page" "cookies_once plain_env new_page"
  by (simp_all add: new_page_def NewResponse_def response_ok_def raw_pages_def responseEncoding_def code_pages_def
      cookies_once_def jar_ok_def set_cookies_once_def header_Values_def)

lemma new_page_view: "page_of new_page = \<lparr>pg_client = [], pg_pending = [], pg_sent = False, pg_ended = False,
    pg_buffered = True, pg_limit = 4194304, pg_header_blocks = 0\<rparr>"
  by (simp add: page_of_def new_page_def NewResponse_def buffer_limit_def DefaultResponseBufferLimitBytes_def)

definition sample_ops :: "(int \<times> response_op) list" where
  "sample_ops = [(0, OpWrite ''ab''), (0, OpFlush), (0, OpClear), (1, OpBinaryWrite ''c''), (2, OpEnd), (3, OpWrite ''d'')]"

theorem response_refines_page_witness:
  "(case until_signal (exec_response plain_env) sample_ops new_page of
      (r', sig) \<Rightarrow> body_text (rs_out r') = ''abc'' \<and> length (filter header_block (rs_out r')) = 2 \<and> sig = ResponseEnd)"
proof -
  obtain r' sig where run: "until_signal (exec_response plain_env) sample_ops new_page = (r', sig)" by fastforce
  have "until_signal page_op (map snd sample_ops) (page_of new_page) = (page_of r', sig)"
    using response_refines_page[OF new_page_ok(1,2) _ run] by (simp add: sample_ops_def)
  then have "pg_client (page_of r') = ''abc'' \<and> pg_header_blocks (page_of r') = 2 \<and> sig = ResponseEnd"
    unfolding new_page_view by (simp add: sample_ops_def page_write_def page_flush_def Let_def) (elim conjE, drule sym, simp)
  then show ?thesis using run by (simp add: page_of_def)
qed

theorem nothing_after_end_witness:
  "body_text (rs_out (fst (until_signal (exec_response plain_env) [(0, OpWrite ''x''), (0, OpClear), (0, OpFlush)]
     (fst (response_End plain_env 0 new_page))))) = body_text (rs_out (fst (response_End plain_env 0 new_page)))"
proof -
  have f: "finished (fst (response_End plain_env 0 new_page))"
    by (simp add: response_End_def finished_def flushInternal_def new_page_def NewResponse_def Let_def)
  obtain r' sig where "until_signal (exec_response plain_env) [(0, OpWrite ''x''), (0, OpClear), (0, OpFlush)]
      (fst (response_End plain_env 0 new_page)) = (r', sig)" by fastforce
  from nothing_after_end[OF f this] this show ?thesis by simp
qed


theorem cookie_subkeys_read_back_witness:
  "GetCookieSubKey plain_env ''user'' ''NAME''
     (fold (\<lambda>(k, v). SetCookieSubKey plain_env ''user'' k v) [(''name'', ''ann''), (''age'', ''7''), (''Name'', ''bob'')] new_page)
   = ''bob''"
proof -
  have n: "ToLower (re_asp plain_env) ''NAME'' = ''name''" "ToLower (re_asp plain_env) ''Name'' = ''name''"
    "ToLower (re_asp plain_env) ''age'' = ''age''" "ToLower (re_asp plain_env) ''name'' = ''name''" by code_simp+
  have p: "permutes_keys (re_order plain_env)" by (simp add: permutes_keys_def plain_env_def)
  have k: "\<forall>(k, v)\<in>set [(''name'', ''ann''), (''age'', ''7''), (''Name'', ''bob'')]. plain_key k \<and> plain_text v" by code_simp
  have r: "\<not> rs_flushed new_page" "map_of (rs_cookies new_page) (ToLower (re_asp plain_env) ''user'') = None"
    by (simp_all add: new_page_def NewResponse_def)
  show ?thesis using cookie_subkeys_read_back[OF r p k, of "''NAME''"] by (simp add: n)
qed

end
