(* ===== verification/Arrays.thy ===== *)
theory Arrays
  imports ValueOps ObjectRefs
begin

text \<open>
  VBScript arrays (\<open>axonvm/array_bridge.go\<close>, the array builtins of \<open>axonvm/builtins.go\<close>, element access, Erase and
  copies in \<open>axonvm/vm.go\<close>). A \<open>*VBArray\<close> is an address of the heap; its \<open>Values\<close> slice is the first \<open>va_Len\<close>
  elements of a storage block, whose length is the capacity of the slice, so two arrays can share storage. Addresses
  are never reused. Allocation is assumed to succeed.
\<close>

section \<open>The heap\<close>

record VBArray =
  va_Lower :: int
  va_Storage :: nat
  va_Len :: nat
  va_Dims :: int

record VBRecord =
  vr_DefIdx :: int
  vr_Members :: "Value list"

record array_heap =
  ah_storage :: "Value list list"
  ah_arrays :: "VBArray list"
  ah_records :: "VBRecord list"

text \<open>A Go \<open>int\<close> of 64 bits.\<close>

definition go_int :: "int \<Rightarrow> int" where
  "go_int n = sint (word_of_int n :: i64)"

definition arr_at :: "array_heap \<Rightarrow> nat \<Rightarrow> VBArray" where
  "arr_at h a = ah_arrays h ! a"

definition arr_values :: "array_heap \<Rightarrow> nat \<Rightarrow> Value list" where
  "arr_values h a = take (va_Len (arr_at h a)) (ah_storage h ! va_Storage (arr_at h a))"

definition arr_cap :: "array_heap \<Rightarrow> nat \<Rightarrow> nat" where
  "arr_cap h a = length (ah_storage h ! va_Storage (arr_at h a))"

text \<open>\<open>&VBArray{...}\<close> on a fresh slice of the given elements.\<close>

definition alloc_array :: "int \<Rightarrow> Value list \<Rightarrow> nat \<Rightarrow> int \<Rightarrow> array_heap \<Rightarrow> nat \<times> array_heap" where
  "alloc_array lower storage len dims h =
     (length (ah_arrays h),
      h\<lparr>ah_storage := ah_storage h @ [storage],
        ah_arrays := ah_arrays h @ [\<lparr>va_Lower = lower, va_Storage = length (ah_storage h), va_Len = len, va_Dims = dims\<rparr>]\<rparr>)"

text \<open>\<open>a.Values[i] = v\<close> and a copy of \<open>vs\<close> to \<open>a.Values[i:]\<close>.\<close>

definition write_values :: "nat \<Rightarrow> nat \<Rightarrow> Value list \<Rightarrow> array_heap \<Rightarrow> array_heap" where
  "write_values a i vs h =
     (let s = va_Storage (arr_at h a); old = ah_storage h ! s
      in h\<lparr>ah_storage := (ah_storage h)[s := take i old @ vs @ drop (i + length vs) old]\<rparr>)"

definition array_value :: "nat \<Rightarrow> Value" where
  "array_value a = (typed VTArray)\<lparr>VArr := Some a\<rparr>"

definition NewVBArray :: "int \<Rightarrow> int \<Rightarrow> array_heap \<Rightarrow> nat \<times> array_heap" where
  "NewVBArray lower n = alloc_array lower (replicate (nat n) Value0) (nat n) 1"

definition NewVBArrayFromValues :: "int \<Rightarrow> Value list \<Rightarrow> array_heap \<Rightarrow> nat \<times> array_heap" where
  "NewVBArrayFromValues lower vs = alloc_array lower vs (length vs) 1"

definition array_Upper :: "array_heap \<Rightarrow> nat \<Rightarrow> int" where
  "array_Upper h a =
     (let v = arr_at h a in if va_Len v = 0 then go_int (va_Lower v - 1) else go_int (va_Lower v + int (va_Len v) - 1))"

definition array_Get :: "array_heap \<Rightarrow> nat \<Rightarrow> int \<Rightarrow> Value option" where
  "array_Get h a index =
     (let offset = go_int (index - va_Lower (arr_at h a))
      in if offset < 0 \<or> int (va_Len (arr_at h a)) \<le> offset then None else Some (arr_values h a ! nat offset))"

definition array_Set :: "nat \<Rightarrow> int \<Rightarrow> Value \<Rightarrow> array_heap \<Rightarrow> bool \<times> array_heap" where
  "array_Set a index v h =
     (let offset = go_int (index - va_Lower (arr_at h a))
      in if offset < 0 \<or> int (va_Len (arr_at h a)) \<le> offset then (False, h) else (True, write_values a (nat offset) [v] h))"

definition toVBArray :: "Value \<Rightarrow> nat option" where
  "toVBArray v = (if VType v = VTArray then VArr v else None)"

definition ValueFromVBArray :: "nat option \<Rightarrow> Value" where
  "ValueFromVBArray arr = (case arr of None \<Rightarrow> NewNull | Some a \<Rightarrow> array_value a)"

text \<open>The array \<open>n\<close> dimensions down, through the first elements; \<open>Inl True\<close> when one on the way is empty.\<close>

fun descend :: "array_heap \<Rightarrow> nat \<Rightarrow> nat \<Rightarrow> bool + nat" where
  "descend h 0 a = Inr a"
| "descend h (Suc n) a =
     (if va_Len (arr_at h a) = 0 then Inl True
      else case toVBArray (arr_values h a ! 0) of None \<Rightarrow> Inl False | Some b \<Rightarrow> descend h n b)"

definition arrayBounds :: "array_heap \<Rightarrow> Value \<Rightarrow> int \<Rightarrow> int \<times> int \<times> bool" where
  "arrayBounds h v dimension =
     (if dimension < 1 then (0, 0, False)
      else case toVBArray v of
             None \<Rightarrow> (0, 0, False)
           | Some a \<Rightarrow> (case descend h (nat (dimension - 1)) a of
               Inl e \<Rightarrow> (0, (if e then -1 else 0), False)
             | Inr b \<Rightarrow> (va_Lower (arr_at h b), array_Upper h b, True)))"

text \<open>\<open>GoVBArray\<close>, a typed copy of one array: its lower bound and its values.\<close>

definition ToGoArray :: "array_heap \<Rightarrow> Value \<Rightarrow> (int \<times> Value list) option" where
  "ToGoArray h v = map_option (\<lambda>a. (va_Lower (arr_at h a), arr_values h a)) (toVBArray v)"

definition ValueFromGoArray :: "(int \<times> Value list) option \<Rightarrow> array_heap \<Rightarrow> Value \<times> array_heap" where
  "ValueFromGoArray arr h =
     (case arr of None \<Rightarrow> (NewNull, h)
      | Some (lower, vs) \<Rightarrow> (case NewVBArrayFromValues lower vs h of (a, h') \<Rightarrow> (array_value a, h')))"

definition ValueFromValueSlice :: "Value list \<Rightarrow> array_heap \<Rightarrow> Value \<times> array_heap" where
  "ValueFromValueSlice vs h = ValueFromGoArray (Some (0, vs)) h"

section \<open>Builtins\<close>

definition vbsArray :: "Value list \<Rightarrow> array_heap \<Rightarrow> Value \<times> array_heap" where
  "vbsArray args h = ValueFromValueSlice args h"

definition vbsIsArray :: "Value list \<Rightarrow> Value" where
  "vbsIsArray args = (case args of [] \<Rightarrow> NewBool False | v # _ \<Rightarrow> NewBool (toVBArray v \<noteq> None))"

definition bound_dimension :: "Value list \<Rightarrow> int" where
  "bound_dimension args = (case args of _ # d # _ \<Rightarrow> sint (VNum d) | _ \<Rightarrow> 1)"

definition vbsLBound :: "array_heap \<Rightarrow> Value list \<Rightarrow> Value" where
  "vbsLBound h args =
     (case args of [] \<Rightarrow> NewInteger 0
      | v # _ \<Rightarrow> (case arrayBounds h v (bound_dimension args) of
          (lower, upper, ok) \<Rightarrow> if ok then NewInteger (word_of_int lower) else NewInteger 0))"

definition vbsUBound :: "array_heap \<Rightarrow> Value list \<Rightarrow> Value" where
  "vbsUBound h args =
     (case args of [] \<Rightarrow> NewInteger (-1)
      | v # _ \<Rightarrow> (case arrayBounds h v (bound_dimension args) of
          (lower, upper, ok) \<Rightarrow> if ok then NewInteger (word_of_int upper) else NewInteger (-1)))"

definition out_of_range :: raised where
  "out_of_range = raise_error SubscriptOutOfRange ''Subscript out of range''"

definition bounds_error :: "array_heap \<Rightarrow> Value list \<Rightarrow> raised" where
  "bounds_error h args =
     (case args of [] \<Rightarrow> out_of_range
      | v # _ \<Rightarrow> if snd (snd (arrayBounds h v (bound_dimension args))) then None else out_of_range)"

definition vbsLBoundVM :: "array_heap \<Rightarrow> Value list \<Rightarrow> Value \<times> raised" where
  "vbsLBoundVM h args = (vbsLBound h args, bounds_error h args)"

definition vbsUBoundVM :: "array_heap \<Rightarrow> Value list \<Rightarrow> Value \<times> raised" where
  "vbsUBoundVM h args = (vbsUBound h args, bounds_error h args)"

text \<open>The error a builtin returns: one with a VBScript code, or any other.\<close>

datatype builtin_error = RuntimeError VBSyntaxErrorCode string | OtherError string

definition invalid_call :: builtin_error where
  "invalid_call = RuntimeError InvalidProcedureCallOrArgument (error_String InvalidProcedureCallOrArgument)"

definition toArrayBound :: "(i64 \<Rightarrow> string) \<Rightarrow> Value \<Rightarrow> builtin_error + int" where
  "toArrayBound local_date v =
     (if VType v = VTInteger \<or> VType v = VTBool then Inr (sint (VNum v))
      else if VType v = VTDouble then Inr (sint (f_to_i64 (VFlt v)))
      else if VType v = VTString then
        (case parse_int64 (trim_space (VStr v)) of
           Some n \<Rightarrow> Inr n | None \<Rightarrow> Inl (OtherError (''invalid array bound: '' @ VStr v)))
      else if VType v = VTEmpty then Inr 0
      else Inl (OtherError (''invalid array bound type: '' @ Value_String local_date v)))"

fun array_bounds :: "(i64 \<Rightarrow> string) \<Rightarrow> Value list \<Rightarrow> builtin_error + int list" where
  "array_bounds d [] = Inr []"
| "array_bounds d (v # vs) =
     (case toArrayBound d v of Inl e \<Rightarrow> Inl e
      | Inr b \<Rightarrow> (case array_bounds d vs of Inl e \<Rightarrow> Inl e | Inr bs \<Rightarrow> Inr (b # bs)))"

section \<open>Dim and ReDim\<close>

fun buildDimArray :: "int list \<Rightarrow> array_heap \<Rightarrow> nat \<times> array_heap" where
  "buildDimArray [] h = NewVBArray 0 0 h"
| "buildDimArray (b # bs) h =
     (let size = nat (go_int (b + 1));
          (a, h1) = alloc_array 0 (replicate size Value0) size (int (length (b # bs))) h
      in if bs = [] then (a, h1)
         else (a, fold (\<lambda>i h. case buildDimArray bs h of (c, h') \<Rightarrow> write_values a i [array_value c] h') [0..<size] h1))"

text \<open>Bounds in pairs of a lower and an upper bound.\<close>

fun buildDimArrayVB6 :: "int list \<Rightarrow> array_heap \<Rightarrow> nat \<times> array_heap" where
  "buildDimArrayVB6 (l # u # bs) h =
     (let size = nat (go_int (u - l + 1));
          (a, h1) = alloc_array l (replicate size Value0) size (int (length (l # u # bs) div 2)) h
      in if bs = [] then (a, h1)
         else (a, fold (\<lambda>i h. case buildDimArrayVB6 bs h of (c, h') \<Rightarrow> write_values a i [array_value c] h') [0..<size] h1))"
| "buildDimArrayVB6 bs h = NewVBArray 0 0 h"

fun upper_bounds_from :: "array_heap \<Rightarrow> nat \<Rightarrow> nat \<Rightarrow> int list" where
  "upper_bounds_from h 0 a = []"
| "upper_bounds_from h (Suc n) a =
     array_Upper h a #
       (if n = 0 \<or> va_Len (arr_at h a) = 0 then []
        else case toVBArray (arr_values h a ! 0) of None \<Rightarrow> [] | Some b \<Rightarrow> upper_bounds_from h n b)"

definition vbArrayUpperBounds :: "array_heap \<Rightarrow> nat \<Rightarrow> int list" where
  "vbArrayUpperBounds h a = upper_bounds_from h (nat (max (va_Dims (arr_at h a)) 1)) a"

text \<open>The rows of the loop are numbered from \<open>start\<close>, so the offsets are relative to each lower bound. Where there
  are fewer bounds left than one dimension needs, the Go code is only reached with an empty target.\<close>

function copyPreservedArray :: "bool \<Rightarrow> int list \<Rightarrow> nat \<Rightarrow> nat \<Rightarrow> array_heap \<Rightarrow> array_heap" where
  "copyPreservedArray vb6 bounds target source h =
     (let start = max (va_Lower (arr_at h source)) (va_Lower (arr_at h target));
          stop = min (array_Upper h source) (array_Upper h target);
          step = (if vb6 then 2 else 1);
          limit = nat (stop - start + 1);
          t0 = nat (start - va_Lower (arr_at h target)); s0 = nat (start - va_Lower (arr_at h source))
      in if stop < start then h
         else if length bounds = step then write_values target t0 (take limit (drop s0 (arr_values h source))) h
         else if length bounds < step then h
         else fold (\<lambda>i h. case toVBArray (arr_values h source ! (s0 + i)) of
                None \<Rightarrow> h
              | Some sourceChild \<Rightarrow>
                (case (if vb6 then buildDimArrayVB6 else buildDimArray) (drop step bounds) h of
                   (c, h1) \<Rightarrow> copyPreservedArray vb6 (drop step bounds) c sourceChild
                                (write_values target (t0 + i) [array_value c] h1))) [0..<limit] h)"
  by pat_completeness auto

termination
  by (relation "measure (\<lambda>(vb6, bounds, t, s, h). length bounds)") auto

definition vbsAxonDimArray :: "(i64 \<Rightarrow> string) \<Rightarrow> Value list \<Rightarrow> array_heap \<Rightarrow> builtin_error + Value \<times> array_heap" where
  "vbsAxonDimArray d args h =
     (case array_bounds d args of Inl e \<Rightarrow> Inl e
      | Inr bounds \<Rightarrow> (case buildDimArray bounds h of (a, h') \<Rightarrow> Inr (array_value a, h')))"

definition vbsAxonDimArrayVB6 :: "(i64 \<Rightarrow> string) \<Rightarrow> Value list \<Rightarrow> array_heap \<Rightarrow> builtin_error + Value \<times> array_heap" where
  "vbsAxonDimArrayVB6 d args h =
     (if odd (length args) then Inl (OtherError ''invalid number of arguments for array allocation'')
      else case array_bounds d args of Inl e \<Rightarrow> Inl e
      | Inr bounds \<Rightarrow> (case buildDimArrayVB6 bounds h of (a, h') \<Rightarrow> Inr (array_value a, h')))"

definition vbsAxonRedimArray :: "(i64 \<Rightarrow> string) \<Rightarrow> Value list \<Rightarrow> array_heap \<Rightarrow> builtin_error + Value \<times> array_heap" where
  "vbsAxonRedimArray d args h = vbsAxonDimArray d (drop 1 args) h"

definition vbsAxonRedimArrayVB6 :: "(i64 \<Rightarrow> string) \<Rightarrow> Value list \<Rightarrow> array_heap \<Rightarrow> builtin_error + Value \<times> array_heap" where
  "vbsAxonRedimArrayVB6 d args h = vbsAxonDimArrayVB6 d (drop 1 args) h"

text \<open>One dimension: the storage is reused when its capacity allows, else it grows at least twofold.\<close>

definition redim_one :: "nat \<Rightarrow> int \<Rightarrow> array_heap \<Rightarrow> nat \<times> array_heap" where
  "redim_one a bound h =
     (let size = nat (go_int (bound + 1)); old = arr_at h a
      in if size \<le> arr_cap h a
         then let h1 = (if va_Len old < size then write_values a (va_Len old) (replicate (size - va_Len old) Value0) h else h)
              in (length (ah_arrays h1), h1\<lparr>ah_arrays := ah_arrays h1 @ [old\<lparr>va_Len := size\<rparr>]\<rparr>)
         else alloc_array (va_Lower old)
                (arr_values h a @ replicate (max size (arr_cap h a * 2) - va_Len old) Value0) size (va_Dims old) h)"

definition vbsAxonRedimPreserveArray ::
    "(i64 \<Rightarrow> string) \<Rightarrow> Value list \<Rightarrow> array_heap \<Rightarrow> builtin_error + Value \<times> array_heap" where
  "vbsAxonRedimPreserveArray d args h =
     (case args of
        [] \<Rightarrow> (case buildDimArray [] h of (a, h') \<Rightarrow> Inr (array_value a, h'))
      | v # rest \<Rightarrow>
        (case array_bounds d rest of
           Inl e \<Rightarrow> Inl e
         | Inr bounds \<Rightarrow>
           (case toVBArray v of
              None \<Rightarrow> (case buildDimArray bounds h of (a, h') \<Rightarrow> Inr (array_value a, h'))
            | Some source \<Rightarrow>
              (let old = vbArrayUpperBounds h source
               in if length old = 1 \<and> length bounds = 1
                  then (case redim_one source (hd bounds) h of (a, h') \<Rightarrow> Inr (array_value a, h'))
                  else if 1 < length old \<and> length bounds = length old \<and> butlast bounds \<noteq> butlast old then Inl invalid_call
                  else case buildDimArray bounds h of (a, h') \<Rightarrow>
                    Inr (array_value a, copyPreservedArray False bounds a source h')))))"

text \<open>The checks of the VB6 form: every dimension but the last keeps its bounds, the last its lower bound. \<open>None\<close>
  is the panic of \<open>current.Values[0]\<close> on an empty dimension.\<close>

fun check_vb6 :: "array_heap \<Rightarrow> nat \<Rightarrow> int list \<Rightarrow> int list \<Rightarrow> (builtin_error option) option" where
  "check_vb6 h a [] bounds = Some None"
| "check_vb6 h a [b] bounds =
     (case bounds of
        l # u # _ \<Rightarrow> Some (if l \<noteq> va_Lower (arr_at h a)
          then Some (RuntimeError SubscriptOutOfRange
            ''Subscript out of range: lower bound of last dimension cannot be changed in ReDim Preserve'') else None)
      | _ \<Rightarrow> None)"
| "check_vb6 h a (b # c # olds) bounds =
     (case bounds of
        l # u # rest \<Rightarrow>
          (if l \<noteq> va_Lower (arr_at h a) \<or> u \<noteq> array_Upper h a then Some (Some invalid_call)
           else if va_Len (arr_at h a) = 0 then None
           else check_vb6 h (case toVBArray (arr_values h a ! 0) of Some n \<Rightarrow> n | None \<Rightarrow> a) (c # olds) rest)
      | _ \<Rightarrow> None)"

definition vbsAxonRedimPreserveArrayVB6 ::
    "(i64 \<Rightarrow> string) \<Rightarrow> Value list \<Rightarrow> array_heap \<Rightarrow> (builtin_error + Value \<times> array_heap) option" where
  "vbsAxonRedimPreserveArrayVB6 d args h =
     (if length args < 3 then Some (Inr (NewEmpty, h))
      else if odd (length args - 1) then Some (Inl (OtherError ''invalid number of arguments for array allocation''))
      else case toVBArray (hd args) of
             None \<Rightarrow> Some (vbsAxonRedimArrayVB6 d args h)
           | Some source \<Rightarrow>
             (case array_bounds d (tl args) of
                Inl e \<Rightarrow> Some (Inl e)
              | Inr bounds \<Rightarrow>
                (case check_vb6 h source (vbArrayUpperBounds h source) bounds of
                   None \<Rightarrow> None
                 | Some (Some e) \<Rightarrow> Some (Inl e)
                 | Some None \<Rightarrow> (case buildDimArrayVB6 bounds h of
                     (a, h') \<Rightarrow> Some (Inr (array_value a, copyPreservedArray True bounds a source h'))))))"

section \<open>Elements\<close>

definition in_bounds :: "array_heap \<Rightarrow> nat \<Rightarrow> int \<Rightarrow> bool" where
  "in_bounds h a i \<longleftrightarrow> va_Lower (arr_at h a) \<le> i \<and> i \<le> array_Upper h a"

definition element :: "array_heap \<Rightarrow> nat \<Rightarrow> int \<Rightarrow> Value" where
  "element h a i = arr_values h a ! nat (i - va_Lower (arr_at h a))"

fun read_element :: "array_heap \<Rightarrow> nat \<Rightarrow> int list \<Rightarrow> Value \<times> raised" where
  "read_element h a [] = (NewEmpty, None)"
| "read_element h a (i # is) =
     (if \<not> in_bounds h a i then (NewEmpty, out_of_range)
      else if is = [] then (element h a i, None)
      else case toVBArray (element h a i) of None \<Rightarrow> (NewEmpty, out_of_range) | Some b \<Rightarrow> read_element h b is)"

definition readArrayElement :: "array_heap \<Rightarrow> Value \<Rightarrow> Value list \<Rightarrow> Value \<times> raised" where
  "readArrayElement h v indexes =
     (case toVBArray v of
        None \<Rightarrow> type_mismatch
      | Some a \<Rightarrow> if indexes = [] then (NewEmpty, out_of_range)
                  else read_element h a (map (\<lambda>i. sint (asInt i)) indexes))"

text \<open>The array that holds the element, and its offset.\<close>

fun element_place :: "array_heap \<Rightarrow> nat \<Rightarrow> int list \<Rightarrow> (nat \<times> nat) option" where
  "element_place h a [] = None"
| "element_place h a (i # is) =
     (if \<not> in_bounds h a i then None
      else if is = [] then Some (a, nat (i - va_Lower (arr_at h a)))
      else case toVBArray (element h a i) of None \<Rightarrow> None | Some b \<Rightarrow> element_place h b is)"

section \<open>Copies\<close>

definition alloc_record :: "VBRecord \<Rightarrow> array_heap \<Rightarrow> nat \<times> array_heap" where
  "alloc_record r h = (length (ah_records h), h\<lparr>ah_records := ah_records h @ [r]\<rparr>)"

text \<open>One copy after the other, until one does not return.\<close>

fun each_value :: "(Value \<Rightarrow> array_heap \<Rightarrow> (Value \<times> array_heap) option) \<Rightarrow> Value list \<Rightarrow> array_heap
    \<Rightarrow> (Value list \<times> array_heap) option" where
  "each_value f [] h = Some ([], h)"
| "each_value f (v # vs) h =
     (case f v h of None \<Rightarrow> None
      | Some (w, h1) \<Rightarrow> (case each_value f vs h1 of None \<Rightarrow> None | Some (ws, h2) \<Rightarrow> Some (w # ws, h2)))"

text \<open>The depth of the recursion is bounded by \<open>fuel\<close>; on a value that contains itself the Go code does not return.
  The record and the slice of the copy are allocated before the members are copied; their addresses are not seen by
  the copying, so they are taken afterwards.\<close>

fun cloneValue :: "nat \<Rightarrow> Value \<Rightarrow> array_heap \<Rightarrow> (Value \<times> array_heap) option" where
  "cloneValue fuel v h =
     (if VType v = VTRecord \<and> VRec v \<noteq> None then
        (case fuel of 0 \<Rightarrow> None
         | Suc n \<Rightarrow> (let rec = ah_records h ! the (VRec v) in
             case each_value (cloneValue n) (vr_Members rec) h of None \<Rightarrow> None
             | Some (ms, h1) \<Rightarrow> (case alloc_record \<lparr>vr_DefIdx = vr_DefIdx rec, vr_Members = ms\<rparr> h1 of
                 (r, h2) \<Rightarrow> Some ((typed VTRecord)\<lparr>VRec := Some r\<rparr>, h2))))
      else if VType v = VTArray \<and> VArr v \<noteq> None then
        (case fuel of 0 \<Rightarrow> None
         | Suc n \<Rightarrow> (let a = the (VArr v) in
             case each_value (cloneValue n) (arr_values h a) h of None \<Rightarrow> None
             | Some (vs, h1) \<Rightarrow> (case NewVBArrayFromValues (va_Lower (arr_at h a)) vs h1 of
                 (b, h2) \<Rightarrow> Some (array_value b, h2))))
      else Some (v, h))"

text \<open>The same shape with empty elements, for Erase.\<close>

fun cloneErased :: "nat \<Rightarrow> Value \<Rightarrow> array_heap \<Rightarrow> (Value \<times> array_heap) option" where
  "cloneErased fuel v h =
     (case toVBArray v of
        None \<Rightarrow> Some (NewEmpty, h)
      | Some a \<Rightarrow>
        (case fuel of 0 \<Rightarrow> None
         | Suc n \<Rightarrow> (case each_value (cloneErased n) (arr_values h a) h of None \<Rightarrow> None
             | Some (vs, h1) \<Rightarrow> (case NewVBArrayFromValues (va_Lower (arr_at h a)) vs h1 of
                 (b, h2) \<Rightarrow> Some (array_value b, h2)))))"

fun release_values :: "nat \<Rightarrow> bool \<Rightarrow> array_heap \<Rightarrow> Value list \<Rightarrow> objects \<Rightarrow> objects option" where
  "release_values fuel suppress h [] objs = Some objs"
| "release_values fuel suppress h (v # vs) objs =
     (case (case toVBArray v of
              Some a \<Rightarrow> (case fuel of 0 \<Rightarrow> None | Suc n \<Rightarrow> release_values n suppress h (arr_values h a) objs)
            | None \<Rightarrow> decrementObjectRefCount suppress v objs) of
        None \<Rightarrow> None
      | Some objs' \<Rightarrow> release_values fuel suppress h vs objs')"

definition eraseValue :: "nat \<Rightarrow> bool \<Rightarrow> Value \<Rightarrow> array_heap \<Rightarrow> objects \<Rightarrow> (Value \<times> array_heap \<times> objects) option" where
  "eraseValue fuel suppress v h objs =
     (case toVBArray v of
        Some a \<Rightarrow> (case release_values fuel suppress h (arr_values h a) objs of None \<Rightarrow> None
          | Some objs' \<Rightarrow> (case cloneErased fuel v h of None \<Rightarrow> None | Some (w, h') \<Rightarrow> Some (w, h', objs')))
      | None \<Rightarrow> (case decrementObjectRefCount suppress v objs of None \<Rightarrow> None
          | Some objs' \<Rightarrow> Some
              (if VType v \<in> {VTInteger, VTDouble, VTBool, VTDate} then NewInteger 0
               else if VType v = VTString then NewString []
               else if VType v \<in> {VTObject, VTNativeObject} then typed VTNothing
               else NewEmpty, h, objs')))"

definition assignArrayElement ::
    "nat \<Rightarrow> bool \<Rightarrow> Value \<Rightarrow> Value list \<Rightarrow> Value \<Rightarrow> array_heap \<Rightarrow> objects \<Rightarrow> (array_heap \<times> objects \<times> raised) option" where
  "assignArrayElement fuel suppress v indexes assigned h objs =
     (case toVBArray v of
        None \<Rightarrow> Some (h, objs, snd type_mismatch)
      | Some a \<Rightarrow>
        (case element_place h a (map (\<lambda>i. sint (asInt i)) indexes) of
           None \<Rightarrow> Some (h, objs, out_of_range)
         | Some (b, k) \<Rightarrow>
           (case decrementObjectRefCount suppress (arr_values h b ! k) objs of
              None \<Rightarrow> None
            | Some objs' \<Rightarrow>
              (case (if VType assigned = VTRecord \<and> VRec assigned \<noteq> None then cloneValue fuel assigned h
                     else Some (assigned, h)) of
                 None \<Rightarrow> None
               | Some (w, h') \<Rightarrow> Some (write_values b k [w] h', incrementObjectRefCount w objs', None)))))"

end
