(* ===== verification/ArrayLaws.thy ===== *)
theory ArrayLaws
  imports Arrays
begin

text \<open>
  What Dim and ReDim Preserve promise. \<open>has_shape\<close> says that an address holds a tree of arrays with given
  dimensions; new arrays only extend the heap (\<open>grows\<close>). Reading with a tuple of indices is \<open>read_element\<close>.
\<close>

section \<open>Shapes\<close>

definition wf_heap :: "array_heap \<Rightarrow> bool" where
  "wf_heap h \<longleftrightarrow> (\<forall>v\<in>set (ah_arrays h). va_Storage v < length (ah_storage h)
     \<and> va_Len v \<le> length (ah_storage h ! va_Storage v))"

definition grows :: "array_heap \<Rightarrow> array_heap \<Rightarrow> bool" where
  "grows h h' \<longleftrightarrow> (\<exists>xs. ah_arrays h' = ah_arrays h @ xs) \<and> (\<exists>ys. ah_storage h' = ah_storage h @ ys)
     \<and> ah_records h' = ah_records h"

text \<open>A dimension is its lower bound and its length.\<close>

type_synonym dims = "(int \<times> nat) list"

text \<open>The storage of every array of the tree has an address of at least \<open>m\<close>.\<close>

fun has_shape :: "nat \<Rightarrow> array_heap \<Rightarrow> dims \<Rightarrow> nat \<Rightarrow> bool" where
  "has_shape m h [] a \<longleftrightarrow> False"
| "has_shape m h ((l, n) # ds) a \<longleftrightarrow> m \<le> va_Storage (arr_at h a) \<and> a < length (ah_arrays h) \<and> va_Lower (arr_at h a) = l \<and> va_Len (arr_at h a) = n
     \<and> go_int (l + int n - 1) = l + int n - 1
     \<and> (ds = [] \<or> (\<forall>i<n. \<exists>c. arr_values h a ! i = array_value c \<and> has_shape m h ds c))"

fun valid_index :: "dims \<Rightarrow> int list \<Rightarrow> bool" where
  "valid_index [] [] \<longleftrightarrow> True"
| "valid_index ((l, n) # ds) (i # is) \<longleftrightarrow> l \<le> i \<and> i < l + int n \<and> valid_index ds is"
| "valid_index _ _ \<longleftrightarrow> False"

fun dims_of :: "bool \<Rightarrow> int list \<Rightarrow> dims" where
  "dims_of False (b # bs) = (0, nat (go_int (b + 1))) # dims_of False bs"
| "dims_of True (l # u # bs) = (l, nat (go_int (u - l + 1))) # dims_of True bs"
| "dims_of _ _ = []"

text \<open>\<open>all_empty\<close>: every element inside the bounds is Empty.\<close>

definition all_empty :: "array_heap \<Rightarrow> dims \<Rightarrow> nat \<Rightarrow> bool" where
  "all_empty h ds a \<longleftrightarrow> (\<forall>is. valid_index ds is \<longrightarrow> read_element h a is = (Value0, None))"

section \<open>The heap\<close>

lemma toVBArray_array_value [simp]: "toVBArray (array_value c) = Some c"
  by (simp add: toVBArray_def array_value_def typed_def)

lemma grows_refl [simp]: "grows h h" by (simp add: grows_def)

lemma grows_trans: "grows h h1 \<Longrightarrow> grows h1 h2 \<Longrightarrow> grows h h2"
  by (auto simp: grows_def)

lemma grows_arr: "grows h h' \<Longrightarrow> a < length (ah_arrays h) \<Longrightarrow> arr_at h' a = arr_at h a"
  by (auto simp: grows_def arr_at_def nth_append)

lemma grows_values:
  "grows h h' \<Longrightarrow> wf_heap h \<Longrightarrow> a < length (ah_arrays h) \<Longrightarrow> arr_values h' a = arr_values h a"
  by (auto simp: grows_arr arr_values_def) (auto simp: grows_def wf_heap_def arr_at_def nth_append)

lemma grows_length: "grows h h' \<Longrightarrow> length (ah_arrays h) \<le> length (ah_arrays h') \<and> length (ah_storage h) \<le> length (ah_storage h')"
  by (auto simp: grows_def)

lemma grows_upper: "grows h h' \<Longrightarrow> a < length (ah_arrays h) \<Longrightarrow> array_Upper h' a = array_Upper h a"
  by (simp add: array_Upper_def grows_arr)

lemma shape_child:
  assumes "has_shape m h ((l, n) # ds) a" "ds \<noteq> []" "l \<le> i" "i < l + int n"
  obtains c where "element h a i = array_value c" "has_shape m h ds c"
proof -
  have "nat (i - l) < n" using assms(3,4) by linarith
  then have "\<exists>c. arr_values h a ! nat (i - l) = array_value c \<and> has_shape m h ds c" using assms(1,2) by simp
  then show thesis using that assms(1) by (auto simp: element_def)
qed

lemma shape_in_bounds: "has_shape m h ((l, n) # ds) a \<Longrightarrow> in_bounds h a i \<longleftrightarrow> l \<le> i \<and> i < l + int n"
  by (cases "n = 0") (auto simp: in_bounds_def array_Upper_def Let_def)

lemma grows_shape: "grows h h' \<Longrightarrow> wf_heap h \<Longrightarrow> has_shape m h ds a \<Longrightarrow> has_shape m h' ds a"
proof (induction ds arbitrary: a)
  case (Cons d ds)
  obtain l n where d: "d = (l, n)" by (cases d)
  have a: "a < length (ah_arrays h)" using Cons.prems by (simp add: d)
  have "a < length (ah_arrays h')" using a grows_length[OF Cons.prems(1)] by simp
  moreover have "arr_at h' a = arr_at h a" "arr_values h' a = arr_values h a"
    using a Cons.prems by (simp_all add: grows_arr grows_values)
  ultimately show ?case using Cons.prems(3) Cons.IH[OF Cons.prems(1,2)] by (simp add: d) blast
qed simp

lemma grows_read: "grows h h' \<Longrightarrow> wf_heap h \<Longrightarrow> has_shape m h ds a \<Longrightarrow> valid_index ds is \<Longrightarrow> read_element h' a is = read_element h a is"
proof (induction ds arbitrary: a "is")
  case (Cons d ds)
  obtain l n where d: "d = (l, n)" by (cases d)
  obtain i js where i: "is = i # js" using Cons.prems(4) d by (cases "is") auto
  have a: "a < length (ah_arrays h)" "arr_at h' a = arr_at h a" "arr_values h' a = arr_values h a"
    using Cons.prems by (auto simp: d grows_arr grows_values)
  have b: "in_bounds h' a i = in_bounds h a i" "element h' a i = element h a i"
    using a Cons.prems(1) by (simp_all add: in_bounds_def grows_upper element_def)
  show ?case
  proof (cases "js = []")
    case False
    then have ds: "ds \<noteq> []" using Cons.prems(4) i d by (cases ds; cases js) auto
    have v: "l \<le> i" "i < l + int n" "valid_index ds js" using Cons.prems(4) i d by auto
    obtain c where c: "element h a i = array_value c" "has_shape m h ds c"
      using shape_child[OF Cons.prems(3)[unfolded d] ds v(1,2)] by blast
    have "read_element h' c js = read_element h c js" using Cons.IH[OF Cons.prems(1,2) c(2) v(3)] .
    then show ?thesis using i b c by simp
  qed (simp add: i b)
qed simp

lemma alloc_array_grows:
  assumes "alloc_array l vs n k h = (a, h')" "wf_heap h" "n \<le> length vs"
  shows "grows h h'" "wf_heap h'" "a = length (ah_arrays h)" "a < length (ah_arrays h')"
    "arr_at h' a = \<lparr>va_Lower = l, va_Storage = length (ah_storage h), va_Len = n, va_Dims = k\<rparr>"
    "arr_values h' a = take n vs"
  using assms by (auto simp: alloc_array_def grows_def wf_heap_def arr_at_def arr_values_def nth_append less_SucI)

lemma write_values_simps [simp]:
  "ah_arrays (write_values a i vs h) = ah_arrays h" "ah_records (write_values a i vs h) = ah_records h"
  "length (ah_storage (write_values a i vs h)) = length (ah_storage h)"
  "arr_at (write_values a i vs h) b = arr_at h b" "array_Upper (write_values a i vs h) b = array_Upper h b"
  by (simp_all add: write_values_def Let_def arr_at_def array_Upper_def)

text \<open>Writing inside the elements of an array whose storage is not of the heap \<open>h0\<close>.\<close>

lemma take_splice:
  assumes "i + length vs \<le> n" "n \<le> length xs"
  shows "take n (take i xs @ vs @ drop (i + length vs) xs) = take i (take n xs) @ vs @ drop (i + length vs) (take n xs)"
  using assms by (cases "n = i") (auto simp: drop_take min_def)

lemma nth_splice:
  assumes "i + length vs \<le> length xs" "j < length xs"
  shows "(take i xs @ vs @ drop (i + length vs) xs) ! j = (if i \<le> j \<and> j < i + length vs then vs ! (j - i) else xs ! j)"
  using assms by (auto simp: nth_append min_def)

lemma write_values_wf:
  assumes "wf_heap h" "a < length (ah_arrays h)" "i + length vs \<le> va_Len (arr_at h a)"
  shows "wf_heap (write_values a i vs h)"
    "arr_values (write_values a i vs h) a = take i (arr_values h a) @ vs @ drop (i + length vs) (arr_values h a)"
proof -
  let ?s = "va_Storage (arr_at h a)"
  have s: "?s < length (ah_storage h)" "va_Len (arr_at h a) \<le> length (ah_storage h ! ?s)"
    using assms by (auto simp: wf_heap_def arr_at_def)
  have len: "length (take i (ah_storage h ! ?s) @ vs @ drop (i + length vs) (ah_storage h ! ?s)) = length (ah_storage h ! ?s)"
    using assms(3) s by simp
  have "length (ah_storage (write_values a i vs h) ! t) = length (ah_storage h ! t)" for t
    using len s by (cases "t = ?s") (simp_all add: write_values_def Let_def)
  then show "wf_heap (write_values a i vs h)" using assms(1) by (simp add: wf_heap_def)
  show "arr_values (write_values a i vs h) a = take i (arr_values h a) @ vs @ drop (i + length vs) (arr_values h a)"
    unfolding arr_values_def write_values_simps using take_splice[OF assms(3) s(2)] s(1)
    by (simp add: write_values_def Let_def)
qed

lemma write_values_other:
  assumes "va_Storage (arr_at h b) \<noteq> va_Storage (arr_at h a)"
  shows "arr_values (write_values a i vs h) b = arr_values h b"
  using assms by (simp add: arr_values_def write_values_def Let_def arr_at_def)

lemma write_values_grows:
  assumes "grows h0 h" "length (ah_storage h0) \<le> va_Storage (arr_at h a)"
  shows "grows h0 (write_values a i vs h)"
proof -
  obtain ys where ys: "ah_storage h = ah_storage h0 @ ys" using assms(1) by (auto simp: grows_def)
  have "\<exists>zs. (ah_storage h)[va_Storage (arr_at h a) := x] = ah_storage h0 @ zs" for x
    using assms(2) by (simp add: ys list_update_append)
  then show ?thesis using assms(1) by (auto simp: grows_def write_values_def Let_def)
qed

lemma shape_weaken: "has_shape m h ds a \<Longrightarrow> k \<le> m \<Longrightarrow> has_shape k h ds a"
  by (induction ds arbitrary: a) (force intro: order_trans)+

text \<open>Writing to storage below \<open>m\<close> does not touch a tree above \<open>m\<close>.\<close>

lemma write_shape: "has_shape m h ds b \<Longrightarrow> va_Storage (arr_at h a) < m \<Longrightarrow> has_shape m (write_values a i vs h) ds b"
proof (induction ds arbitrary: b)
  case (Cons d ds)
  obtain l n where d: "d = (l, n)" by (cases d)
  have "arr_values (write_values a i vs h) b = arr_values h b"
    using Cons.prems by (intro write_values_other) (auto simp: d)
  then show ?case using Cons by (fastforce simp: d)
qed simp

lemma write_read: "has_shape m h ds b \<Longrightarrow> va_Storage (arr_at h a) < m \<Longrightarrow> valid_index ds is \<Longrightarrow>
    read_element (write_values a i vs h) b is = read_element h b is"
proof (induction ds arbitrary: b "is")
  case (Cons d ds)
  obtain l n where d: "d = (l, n)" by (cases d)
  obtain j js where j: "is = j # js" using Cons.prems(3) d by (cases "is") auto
  have v: "arr_values (write_values a i vs h) b = arr_values h b"
    using Cons.prems by (intro write_values_other) (auto simp: d)
  have e: "in_bounds (write_values a i vs h) b j = in_bounds h b j" "element (write_values a i vs h) b j = element h b j"
    by (simp_all add: in_bounds_def element_def v)
  show ?case
  proof (cases "js = []")
    case False
    then have ds: "ds \<noteq> []" using Cons.prems(3) j d by (cases ds; cases js) auto
    have w: "l \<le> j" "j < l + int n" "valid_index ds js" using Cons.prems(3) j d by auto
    obtain c where c: "element h b j = array_value c" "has_shape m h ds c"
      using shape_child[OF Cons.prems(1)[unfolded d] ds w(1,2)] by blast
    show ?thesis using Cons.IH[OF c(2) Cons.prems(2) w(3)] j e c by simp
  qed (simp add: j e)
qed simp

lemma grows_empty: "grows h h' \<Longrightarrow> wf_heap h \<Longrightarrow> has_shape m h ds a \<Longrightarrow> all_empty h ds a \<Longrightarrow> all_empty h' ds a"
  unfolding all_empty_def by (metis grows_read)

section \<open>Building arrays\<close>

definition child_at :: "nat \<Rightarrow> array_heap \<Rightarrow> dims \<Rightarrow> nat \<Rightarrow> nat \<Rightarrow> nat \<Rightarrow> bool" where
  "child_at m h ds a i c \<longleftrightarrow> arr_values h a ! i = array_value c \<and> has_shape m h ds c"

text \<open>An array that was just built: empty, its rows allocated after it.\<close>

definition fresh :: "nat \<Rightarrow> array_heap \<Rightarrow> dims \<Rightarrow> nat \<Rightarrow> bool" where
  "fresh m h ds a \<longleftrightarrow> has_shape m h ds a \<and> all_empty h ds a \<and>
     (tl ds = [] \<or> (\<forall>i < va_Len (arr_at h a). \<exists>c. child_at (Suc (va_Storage (arr_at h a))) h (tl ds) a i c))"

text \<open>What a function that allocates an array of given dimensions returns.\<close>

definition builds :: "dims \<Rightarrow> (array_heap \<Rightarrow> nat \<times> array_heap) \<Rightarrow> bool" where
  "builds ds f \<longleftrightarrow> (\<forall>h. wf_heap h \<longrightarrow> (case f h of (a, h') \<Rightarrow>
     grows h h' \<and> wf_heap h' \<and> fresh (length (ah_storage h)) h' ds a))"

lemma fill_children:
  assumes f: "builds ds f" and h: "wf_heap h1" "grows h0 h1" "a < length (ah_arrays h1)" "va_Storage (arr_at h1 a) = length (ah_storage h0)"
    and n: "n \<le> va_Len (arr_at h1 a)"
    and r: "r = fold (\<lambda>i h. case f h of (c, h') \<Rightarrow> write_values a i [array_value c] h') [0..<n] h1"
  shows "wf_heap r \<and> grows h0 r \<and> a < length (ah_arrays r) \<and> arr_at r a = arr_at h1 a
    \<and> (\<forall>i<n. \<exists>c. child_at (Suc (length (ah_storage h0))) r ds a i c \<and> all_empty r ds c)"
  using n r
proof (induction n arbitrary: r)
  case 0
  then show ?case using h by simp
next
  case (Suc n)
  let ?m = "length (ah_storage h0)"
  define g where "g = fold (\<lambda>i h. case f h of (c, h') \<Rightarrow> write_values a i [array_value c] h') [0..<n] h1"
  have g: "wf_heap g" "grows h0 g" "a < length (ah_arrays g)" "arr_at g a = arr_at h1 a"
      "\<And>i. i < n \<Longrightarrow> \<exists>c. child_at (Suc ?m) g ds a i c \<and> all_empty g ds c"
    using Suc.IH[of g] Suc.prems(1) g_def by auto
  obtain c g' where c: "f g = (c, g')" by fastforce
  have "arr_at g a \<in> set (ah_arrays g)" using g(3) by (simp add: arr_at_def)
  then have m: "?m < length (ah_storage g)" using g(1,4) h(4) by (auto simp: wf_heap_def)
  have b: "grows g g'" "wf_heap g'" "has_shape (length (ah_storage g)) g' ds c" "all_empty g' ds c"
    using f g(1) c by (auto simp: builds_def fresh_def)
  have r: "r = write_values a n [array_value c] g'" using Suc.prems(2) c g_def by simp
  have a': "a < length (ah_arrays g')" "arr_at g' a = arr_at h1 a" "arr_values g' a = arr_values g a"
    using g b grows_length[OF b(1)] by (simp_all add: grows_arr grows_values)
  have st: "va_Storage (arr_at g' a) = ?m" using a'(2) h(4) by simp
  have len: "n + length [array_value c] \<le> va_Len (arr_at g' a)" using Suc.prems(1) a'(2) by simp
  have w: "wf_heap r" "arr_values r a = take n (arr_values g' a) @ [array_value c] @ drop (n + 1) (arr_values g' a)"
    using write_values_wf[OF b(2) a'(1) len] by (simp_all add: r)
  have vl: "n < length (arr_values g' a)"
    using len b(2) a'(1) by (auto simp: arr_values_def wf_heap_def arr_at_def)
  have keep: "child_at (Suc ?m) r ds a i e \<and> all_empty r ds e"
    if "has_shape (Suc ?m) g' ds e" "all_empty g' ds e" "arr_values r a ! i = array_value e" for i e
    using that write_shape[of "Suc ?m" g' ds e a n "[array_value c]"] write_read[of "Suc ?m" g' ds e a _ n "[array_value c]"] st
    by (auto simp: child_at_def all_empty_def r)
  have "\<exists>e. child_at (Suc ?m) r ds a i e \<and> all_empty r ds e" if "i < Suc n" for i
  proof (cases "i = n")
    case True
    have "arr_values r a ! n = array_value c" using w(2) vl by (simp add: nth_append)
    then show ?thesis using keep[of c n] shape_weaken[OF b(3), of "Suc ?m"] b(4) m True by auto
  next
    case False
    then have i: "i < n" using that by simp
    obtain e where e: "child_at (Suc ?m) g ds a i e" "all_empty g ds e" using g(5)[OF i] by blast
    have "arr_values r a ! i = array_value e" using w(2) vl i a'(3) e(1) by (simp add: nth_append child_at_def)
    moreover have "has_shape (Suc ?m) g' ds e" using grows_shape[OF b(1) g(1)] e(1) by (simp add: child_at_def)
    moreover have "all_empty g' ds e" using grows_empty[OF b(1) g(1)] e unfolding child_at_def by blast
    ultimately show ?thesis using keep by blast
  qed
  moreover have "grows h0 r" using grows_trans[OF g(2) b(1)] write_values_grows[of h0 g' a] st by (simp add: r)
  ultimately show ?case using w(1) a' by (simp add: r)
qed

lemma shape_node:
  assumes a: "a < length (ah_arrays r)" "arr_at r a = \<lparr>va_Lower = l, va_Storage = m, va_Len = n, va_Dims = k\<rparr>"
    and l: "go_int (l + int n - 1) = l + int n - 1" and ds: "ds \<noteq> []"
    and c: "\<forall>i<n. \<exists>c. child_at (Suc m) r ds a i c \<and> all_empty r ds c"
  shows "fresh m r ((l, n) # ds) a"
proof -
  have "\<exists>c. arr_values r a ! i = array_value c \<and> has_shape m r ds c" if "i < n" for i
    using c that shape_weaken[of "Suc m" r ds _ m] by (auto simp: child_at_def)
  then have s: "has_shape m r ((l, n) # ds) a" using a l by simp
  have "all_empty r ((l, n) # ds) a"
    unfolding all_empty_def
  proof (intro allI impI)
    fix "is" assume v: "valid_index ((l, n) # ds) is"
    then obtain i js where i: "is = i # js" "l \<le> i" "i < l + int n" "valid_index ds js" by (cases "is") auto
    have js: "js \<noteq> []" using i(4) ds by (cases ds) auto
    have "nat (i - l) < n" using i by linarith
    then obtain c where "arr_values r a ! nat (i - l) = array_value c" "all_empty r ds c"
      using c by (auto simp: child_at_def)
    then show "read_element r a is = (Value0, None)"
      using i js shape_in_bounds[OF s] a(2) by (simp add: element_def all_empty_def)
  qed
  then show ?thesis using s a c unfolding fresh_def by auto
qed

lemma build_children:
  assumes f: "builds ds f" "ds \<noteq> []" and l: "go_int (l + int n - 1) = l + int n - 1"
  shows "builds ((l, n) # ds) (\<lambda>h. case alloc_array l (replicate n Value0) n k h of (a, h1) \<Rightarrow>
    (a, fold (\<lambda>i h. case f h of (c, h') \<Rightarrow> write_values a i [array_value c] h') [0..<n] h1))"
  unfolding builds_def
proof (intro allI impI)
  fix h assume h: "wf_heap h"
  obtain a h1 where a: "alloc_array l (replicate n Value0) n k h = (a, h1)" by fastforce
  note g = alloc_array_grows[OF a h]
  define r where "r = fold (\<lambda>i h. case f h of (c, h') \<Rightarrow> write_values a i [array_value c] h') [0..<n] h1"
  have at: "arr_at h1 a = \<lparr>va_Lower = l, va_Storage = length (ah_storage h), va_Len = n, va_Dims = k\<rparr>" using g by simp
  have "wf_heap r \<and> grows h r \<and> a < length (ah_arrays r) \<and> arr_at r a = arr_at h1 a
    \<and> (\<forall>i<n. \<exists>c. child_at (Suc (length (ah_storage h))) r ds a i c \<and> all_empty r ds c)"
    using g at by (intro fill_children[OF f(1)]) (simp_all add: r_def)
  then show "case case alloc_array l (replicate n Value0) n k h of (a, h1) \<Rightarrow>
      (a, fold (\<lambda>i h. case f h of (c, h') \<Rightarrow> write_values a i [array_value c] h') [0..<n] h1) of
    (a, h') \<Rightarrow> grows h h' \<and> wf_heap h' \<and> fresh (length (ah_storage h)) h' ((l, n) # ds) a"
    using shape_node[of a r l "length (ah_storage h)" n k ds, OF _ _ l f(2)] at by (simp add: a r_def[symmetric] del: has_shape.simps)
qed

lemma build_leaf:
  assumes l: "go_int (l + int n - 1) = l + int n - 1"
  shows "builds [(l, n)] (alloc_array l (replicate n Value0) n k)"
  unfolding builds_def
proof (intro allI impI)
  fix h assume h: "wf_heap h"
  obtain a h1 where a: "alloc_array l (replicate n Value0) n k h = (a, h1)" by fastforce
  note g = alloc_array_grows[OF a h]
  have s: "has_shape (length (ah_storage h)) h1 [(l, n)] a" using g l by simp
  have "all_empty h1 [(l, n)] a"
    unfolding all_empty_def
  proof (intro allI impI)
    fix "is" assume "valid_index [(l, n)] is"
    then obtain i where i: "is = [i]" "l \<le> i" "i < l + int n" by (cases "is" rule: list.exhaust; cases "tl is") auto
    have "nat (i - l) < n" using i by linarith
    then show "read_element h1 a is = (Value0, None)" using i g shape_in_bounds[OF s] by (simp add: element_def)
  qed
  then show "case alloc_array l (replicate n Value0) n k h of (a, h') \<Rightarrow>
      grows h h' \<and> wf_heap h' \<and> fresh (length (ah_storage h)) h' [(l, n)] a"
    using g s by (simp add: a fresh_def)
qed

definition bounds_ok :: "bool \<Rightarrow> int list \<Rightarrow> bool" where
  "bounds_ok vb6 bs \<longleftrightarrow> bs \<noteq> [] \<and> (vb6 \<longrightarrow> even (length bs))
     \<and> (\<forall>(l, n)\<in>set (dims_of vb6 bs). go_int (l + int n - 1) = l + int n - 1)"

abbreviation build :: "bool \<Rightarrow> int list \<Rightarrow> array_heap \<Rightarrow> nat \<times> array_heap" where
  "build vb6 \<equiv> (if vb6 then buildDimArrayVB6 else buildDimArray)"

lemma build_step:
  assumes "bounds_ok vb6 bs"
  obtains l n rest k where "dims_of vb6 bs = (l, n) # dims_of vb6 rest" "rest = drop (if vb6 then 2 else 1) bs"
    "go_int (l + int n - 1) = l + int n - 1" "rest \<noteq> [] \<longrightarrow> bounds_ok vb6 rest"
    "\<forall>h. build vb6 bs h = (if rest = [] then alloc_array l (replicate n Value0) n k h
       else case alloc_array l (replicate n Value0) n k h of (a, h1) \<Rightarrow>
        (a, fold (\<lambda>i h. case build vb6 rest h of (c, h') \<Rightarrow> write_values a i [array_value c] h') [0..<n] h1))"
proof (cases vb6)
  case True
  then obtain l u rest where bs: "bs = l # u # rest" using assms
    by (auto simp: bounds_ok_def) (metis even_Suc length_0_conv length_Cons list.exhaust even_zero)
  show ?thesis
    by (rule that[of l "nat (go_int (u - l + 1))" rest "int (length bs div 2)"])
       (use assms in \<open>auto simp: True bs bounds_ok_def Let_def split: prod.split\<close>)
next
  case False
  then obtain b rest where bs: "bs = b # rest" using assms by (cases bs) (auto simp: bounds_ok_def)
  show ?thesis
    by (rule that[of 0 "nat (go_int (b + 1))" rest "int (length bs)"])
       (use assms in \<open>auto simp: False bs bounds_ok_def Let_def split: prod.split\<close>)
qed

lemma dims_of_empty: "rest = [] \<Longrightarrow> dims_of v rest = []"
  by (cases v) simp_all

lemma dims_of_nonempty: "bounds_ok v bs \<Longrightarrow> dims_of v bs \<noteq> []"
  by (erule build_step) simp

lemma build_builds: "bounds_ok vb6 bs \<Longrightarrow> builds (dims_of vb6 bs) (build vb6 bs)"
proof (induction "length bs" arbitrary: bs rule: less_induct)
  case less
  obtain l n rest k where s: "dims_of vb6 bs = (l, n) # dims_of vb6 rest" "rest = drop (if vb6 then 2 else 1) bs"
    "go_int (l + int n - 1) = l + int n - 1" "rest \<noteq> [] \<longrightarrow> bounds_ok vb6 rest"
    "\<forall>h. build vb6 bs h = (if rest = [] then alloc_array l (replicate n Value0) n k h
       else case alloc_array l (replicate n Value0) n k h of (a, h1) \<Rightarrow>
        (a, fold (\<lambda>i h. case build vb6 rest h of (c, h') \<Rightarrow> write_values a i [array_value c] h') [0..<n] h1))"
    using build_step[OF less.prems] by blast
  show ?case
  proof (cases "rest = []")
    case True
    then have "build vb6 bs = alloc_array l (replicate n Value0) n k" using s(5) by (intro ext) simp
    then show ?thesis using build_leaf[OF s(3)] True s(1) dims_of_empty by simp
  next
    case False
    have "length rest < length bs" using False less.prems by (auto simp: s(2) bounds_ok_def)
    then have b: "builds (dims_of vb6 rest) (build vb6 rest)" using less.hyps s(4) False by blast
    have "build vb6 bs = (\<lambda>h. case alloc_array l (replicate n Value0) n k h of (a, h1) \<Rightarrow>
        (a, fold (\<lambda>i h. case build vb6 rest h of (c, h') \<Rightarrow> write_values a i [array_value c] h') [0..<n] h1))"
      using s(5) False by (intro ext) simp
    then show ?thesis using build_children[OF b dims_of_nonempty[OF s(4)[rule_format, OF False]] s(3)] s(1) by simp
  qed
qed

section \<open>Copying\<close>

lemma write_grows_both:
  assumes "grows g h" "a < length (ah_arrays g)" "va_Storage (arr_at g a) < length (ah_storage g)"
  shows "grows (write_values a i vs g) (write_values a i vs h)"
proof -
  have "arr_at h a = arr_at g a" using grows_arr[OF assms(1,2)] .
  moreover obtain ys where "ah_storage h = ah_storage g @ ys" using assms(1) by (auto simp: grows_def)
  ultimately show ?thesis using assms by (auto simp: grows_def write_values_def Let_def list_update_append nth_append)
qed

lemma wf_storage: "wf_heap h \<Longrightarrow> a < length (ah_arrays h) \<Longrightarrow>
    va_Storage (arr_at h a) < length (ah_storage h) \<and> length (arr_values h a) = va_Len (arr_at h a)"
  by (auto simp: wf_heap_def arr_at_def arr_values_def)

text \<open>\<open>copied\<close>: the array reads like the source where both have the index, and Empty elsewhere.\<close>

definition copied :: "array_heap \<Rightarrow> dims \<Rightarrow> nat \<Rightarrow> array_heap \<Rightarrow> dims \<Rightarrow> nat \<Rightarrow> bool" where
  "copied h0 dS source r dT target \<longleftrightarrow> (\<forall>is. valid_index dT is \<longrightarrow>
     read_element r target is = (if valid_index dS is then read_element h0 source is else (Value0, None)))"

definition copies :: "bool \<Rightarrow> int list \<Rightarrow> bool" where
  "copies vb6 bs \<longleftrightarrow> (\<forall>h0 h dS source m target.
     wf_heap h0 \<longrightarrow> wf_heap h \<longrightarrow> grows h0 h \<longrightarrow> has_shape 0 h0 dS source \<longrightarrow> length dS = length (dims_of vb6 bs) \<longrightarrow>
     length (ah_storage h0) \<le> m \<longrightarrow> fresh m h (dims_of vb6 bs) target \<longrightarrow>
     (case copyPreservedArray vb6 bs target source h of r \<Rightarrow>
        wf_heap r \<and> grows h0 r \<and> has_shape m r (dims_of vb6 bs) target \<and> copied h0 dS source r (dims_of vb6 bs) target))"

definition copy_child :: "bool \<Rightarrow> int list \<Rightarrow> nat \<Rightarrow> nat \<Rightarrow> nat \<Rightarrow> nat \<Rightarrow> nat \<Rightarrow> array_heap \<Rightarrow> array_heap" where
  "copy_child vb6 rest source s0 target t0 i h =
     (case toVBArray (arr_values h source ! (s0 + i)) of
        None \<Rightarrow> h
      | Some sourceChild \<Rightarrow> (case build vb6 rest h of
          (c, h1) \<Rightarrow> copyPreservedArray vb6 rest c sourceChild (write_values target (t0 + i) [array_value c] h1)))"

definition row_source :: "array_heap \<Rightarrow> nat \<Rightarrow> nat \<Rightarrow> nat \<Rightarrow> nat \<Rightarrow> nat" where
  "row_source h0 source s0 t0 j = the (toVBArray (arr_values h0 source ! (s0 + (j - t0))))"

text \<open>The rows of the target after some of them have been replaced.\<close>

definition rows :: "array_heap \<Rightarrow> nat \<Rightarrow> dims \<Rightarrow> dims \<Rightarrow> nat \<Rightarrow> array_heap \<Rightarrow> nat \<Rightarrow> nat \<Rightarrow> nat \<Rightarrow> nat \<Rightarrow> nat \<Rightarrow> bool" where
  "rows h0 source dS dT m g target t0 s0 k j \<longleftrightarrow>
     (\<exists>c. child_at m g dT target j c \<and>
       (if t0 \<le> j \<and> j < t0 + k then copied h0 dS (row_source h0 source s0 t0 j) g dT c
        else all_empty g dT c))"

lemma child_grows:
  assumes "grows g h" "wf_heap g" "child_at m g ds a i c" "a < length (ah_arrays g)"
  shows "child_at m h ds a i c"
  using assms grows_shape[OF assms(1,2)] by (simp add: child_at_def grows_values)

lemma copied_grows:
  assumes "grows g h" "wf_heap g" "has_shape m g dT c" "copied h0 dS s g dT c"
  shows "copied h0 dS s h dT c"
  unfolding copied_def
proof (intro allI impI)
  fix "is" assume v: "valid_index dT is"
  show "read_element h c is = (if valid_index dS is then read_element h0 s is else (Value0, None))"
    using assms(4) v unfolding grows_read[OF assms(1,2,3) v] by (simp add: copied_def)
qed

lemma copied_write:
  assumes "has_shape m g dT c" "va_Storage (arr_at g a) < m" "copied h0 dS s g dT c"
  shows "copied h0 dS s (write_values a i vs g) dT c"
  unfolding copied_def
proof (intro allI impI)
  fix "is" assume v: "valid_index dT is"
  show "read_element (write_values a i vs g) c is = (if valid_index dS is then read_element h0 s is else (Value0, None))"
    using assms(3) v unfolding write_read[OF assms(1,2) v] by (simp add: copied_def)
qed

lemma empty_write:
  assumes "has_shape m g dT c" "va_Storage (arr_at g a) < m" "all_empty g dT c"
  shows "all_empty (write_values a i vs g) dT c"
  using assms(3) write_read[OF assms(1,2)] by (simp add: all_empty_def)

lemma fresh_write:
  assumes "fresh m g dT c" "va_Storage (arr_at g a) < m"
  shows "fresh m (write_values a i vs g) dT c"
proof -
  have s: "has_shape m g dT c" using assms by (simp add: fresh_def)
  then have "m \<le> va_Storage (arr_at g c)" by (cases dT) auto
  then have "child_at (Suc (va_Storage (arr_at g c))) (write_values a i vs g) ds c j x"
    if "child_at (Suc (va_Storage (arr_at g c))) g ds c j x" for ds j x
    using that assms(2) write_shape[of "Suc (va_Storage (arr_at g c))" g ds x a i vs] write_values_other[of g c a i vs]
    by (simp add: child_at_def)
  then show ?thesis using assms write_shape[OF s] empty_write[OF s] unfolding fresh_def write_values_simps by metis
qed

lemma copy_one:
  assumes rest: "copies vb6 rest" "bounds_ok vb6 rest" "dT = dims_of vb6 rest" "length dS = length dT"
    and h0: "wf_heap h0" "source < length (ah_arrays h0)" "s0 + k < va_Len (arr_at h0 source)"
    and child: "arr_values h0 source ! (s0 + k) = array_value e" "has_shape 0 h0 dS e"
    and g: "wf_heap g" "grows h0 g" "target < length (ah_arrays g)" "length (ah_storage h0) \<le> va_Storage (arr_at g target)"
    and m: "m = Suc (va_Storage (arr_at g target))" and j: "t0 + k < va_Len (arr_at g target)"
    and r: "r = copy_child vb6 rest source s0 target t0 k g"
    and rows: "\<And>j. j < va_Len (arr_at g target) \<Longrightarrow> rows h0 source dS dT m g target t0 s0 k j"
  shows "wf_heap r \<and> grows h0 r \<and> target < length (ah_arrays r) \<and> arr_at r target = arr_at g target
    \<and> (\<forall>j < va_Len (arr_at g target). rows h0 source dS dT m r target t0 s0 (Suc k) j)"
proof -
  obtain c g1 where c: "build vb6 rest g = (c, g1)" by fastforce
  have b: "grows g g1" "wf_heap g1" "fresh (length (ah_storage g)) g1 dT c"
    using build_builds[OF rest(2)] g(1) c by (auto simp: builds_def rest(3))
  note st = wf_storage[OF g(1,3)]
  have t1: "target < length (ah_arrays g1)" "arr_at g1 target = arr_at g target"
    using g(3) grows_length[OF b(1)] grows_arr[OF b(1)] by auto
  define w0 where "w0 = write_values target (t0 + k) [array_value c] g"
  define w1 where "w1 = write_values target (t0 + k) [array_value c] g1"
  have in0: "t0 + k + length [array_value c] \<le> va_Len (arr_at g target)" using j by simp
  have w: "wf_heap w0" "wf_heap w1" "grows w0 w1" "grows h0 w0"
    "arr_values w0 target = take (t0 + k) (arr_values g target) @ [array_value c] @ drop (t0 + k + 1) (arr_values g target)"
    using write_values_wf[OF g(1,3) in0] write_values_wf(1)[OF b(2) t1(1)] in0 t1(2) write_grows_both[OF b(1) g(3)] st
      write_values_grows[OF g(2,4)] by (simp_all add: w0_def w1_def)
  have ds: "fresh (length (ah_storage w0)) w1 dT c"
    using fresh_write[OF b(3)] st t1 by (simp add: w0_def w1_def)
  have src: "arr_values g source = arr_values h0 source" using grows_values[OF g(2) h0(1,2)] .
  have e: "has_shape 0 w0 dS e" using grows_shape[OF w(4) h0(1) child(2)] .
  have r': "r = copyPreservedArray vb6 rest c e w1"
    using c child src by (simp add: r copy_child_def w1_def)
  have k: "wf_heap r \<and> grows w0 r \<and> has_shape (length (ah_storage w0)) r dT c \<and> copied w0 dS e r dT c"
    using rest(1) w e ds rest(3,4) unfolding copies_def r' by (metis order_refl)
  have same: "copied h0 dS e r dT c" unfolding copied_def
  proof (intro allI impI)
    fix "is" assume v: "valid_index dT is"
    have "read_element w0 e is = read_element h0 e is" if "valid_index dS is"
      using grows_read[OF w(4) h0(1) child(2) that] .
    then show "read_element r c is = (if valid_index dS is then read_element h0 e is else (Value0, None))"
      using k v by (simp add: copied_def)
  qed
  have tg: "target < length (ah_arrays w0)" "arr_at w0 target = arr_at g target" using g(3) by (simp_all add: w0_def)
  have tr: "target < length (ah_arrays r)" "arr_at r target = arr_at g target" "arr_values r target = arr_values w0 target"
    using k tg grows_length[of w0 r] grows_arr[of w0 r] grows_values[of w0 r] w(1) by auto
  have len: "length (arr_values g target) = va_Len (arr_at g target)" using st by simp
  have "rows h0 source dS dT m r target t0 s0 (Suc k) j" if jl: "j < va_Len (arr_at g target)" for j
  proof (cases "j = t0 + k")
    case True
    have "arr_values r target ! j = array_value c" using tr(3) w(5) len jl True by (simp add: nth_append)
    moreover have "has_shape m r dT c" using k shape_weaken[of _ r dT c m] st by (auto simp: m w0_def)
    ultimately show ?thesis using same child(1) True by (auto simp: rows_def child_at_def row_source_def)
  next
    case False
    obtain x where x: "child_at m g dT target j x"
      "if t0 \<le> j \<and> j < t0 + k then copied h0 dS (row_source h0 source s0 t0 j) g dT x
       else all_empty g dT x" using rows[OF jl] by (auto simp: rows_def)
    have sx: "has_shape m g dT x" "va_Storage (arr_at g target) < m" using x(1) by (simp_all add: child_at_def m)
    have sw: "has_shape m w0 dT x" using write_shape[OF sx] by (simp add: w0_def)
    have "arr_values w0 target ! j = array_value x"
      using x(1) w(5) len jl False by (auto simp: child_at_def nth_append min_def)
    then have c0: "child_at m r dT target j x"
      using child_grows[of w0 r m dT target j x] k w(1) tg sw by (simp add: child_at_def)
    have "if t0 \<le> j \<and> j < t0 + k then copied h0 dS (row_source h0 source s0 t0 j) w0 dT x
      else all_empty w0 dT x" using x(2) copied_write[OF sx] empty_write[OF sx] by (simp add: w0_def)
    then have "if t0 \<le> j \<and> j < t0 + k then copied h0 dS (row_source h0 source s0 t0 j) r dT x
      else all_empty r dT x" using copied_grows[of w0 r m dT x] grows_empty[of w0 r m dT x] k w(1) sw by (simp split: if_splits)
    then show ?thesis using c0 False unfolding rows_def by (intro exI[of _ x]) (auto simp: less_Suc_eq)
  qed
  then show ?thesis using k tr grows_trans[OF w(4)] by auto
qed

lemma copy_rows:
  assumes rest: "copies vb6 rest" "bounds_ok vb6 rest" "dT = dims_of vb6 rest" "length dS = length dT"
    and h0: "wf_heap h0" "source < length (ah_arrays h0)" "s0 + k \<le> va_Len (arr_at h0 source)"
    and child: "\<And>i. i < va_Len (arr_at h0 source) \<Longrightarrow> \<exists>e. arr_values h0 source ! i = array_value e \<and> has_shape 0 h0 dS e"
    and g: "wf_heap g" "grows h0 g" "target < length (ah_arrays g)" "length (ah_storage h0) \<le> va_Storage (arr_at g target)"
    and j: "t0 + k \<le> va_Len (arr_at g target)" and m: "m = Suc (va_Storage (arr_at g target))"
    and rows: "\<And>j. j < va_Len (arr_at g target) \<Longrightarrow> rows h0 source dS dT m g target t0 s0 0 j"
    and r: "r = fold (copy_child vb6 rest source s0 target t0) [0..<k] g"
  shows "wf_heap r \<and> grows h0 r \<and> target < length (ah_arrays r) \<and> arr_at r target = arr_at g target
    \<and> (\<forall>j < va_Len (arr_at g target). rows h0 source dS dT m r target t0 s0 k j)"
  using h0(3) j r
proof (induction k arbitrary: r)
  case 0
  then show ?case using g rows by simp
next
  case (Suc k)
  define p where "p = fold (copy_child vb6 rest source s0 target t0) [0..<k] g"
  have p: "wf_heap p" "grows h0 p" "target < length (ah_arrays p)" "arr_at p target = arr_at g target"
      "\<forall>j < va_Len (arr_at g target). rows h0 source dS dT m p target t0 s0 k j"
    using Suc.IH[of p] Suc.prems by (simp_all add: p_def)
  obtain e where e: "arr_values h0 source ! (s0 + k) = array_value e" "has_shape 0 h0 dS e"
    using child[of "s0 + k"] Suc.prems(1) by auto
  have r: "r = copy_child vb6 rest source s0 target t0 k p" using Suc.prems(3) by (simp add: p_def)
  show ?case
    using copy_one[OF rest h0(1,2) _ e p(1-3) _ _ _ r, of m] p(4,5) g(4) Suc.prems(1,2) m by simp
qed

lemma copy_unfold:
  "copyPreservedArray vb6 bs target source h =
     (let start = max (va_Lower (arr_at h source)) (va_Lower (arr_at h target));
          stop = min (array_Upper h source) (array_Upper h target);
          limit = nat (stop - start + 1); step = (if vb6 then 2 else 1);
          t0 = nat (start - va_Lower (arr_at h target)); s0 = nat (start - va_Lower (arr_at h source))
      in if stop < start then h
         else if length bs = step then write_values target t0 (take limit (drop s0 (arr_values h source))) h
         else if length bs < step then h
         else fold (copy_child vb6 (drop step bs) source s0 target t0) [0..<limit] h)"
  unfolding copyPreservedArray.simps[of vb6 bs target source h] Let_def copy_child_def
  by (intro if_cong refl fold_cong ext)

declare copyPreservedArray.simps [simp del]

text \<open>The overlap of two ranges, as positions.\<close>

lemma overlap:
  assumes "start = max lS lT" "stop = min (lS + int nS - 1) (lT + int nT - 1)" "limit = nat (stop - start + 1)"
    "t0 = nat (start - lT)" "s0 = nat (start - lS)" "lT \<le> i" "i < lT + int nT"
  shows "t0 \<le> nat (i - lT) \<and> nat (i - lT) < t0 + limit \<longleftrightarrow> lS \<le> i \<and> i < lS + int nS"
    "lS \<le> i \<Longrightarrow> s0 + (nat (i - lT) - t0) = nat (i - lS)"
  using assms by (auto simp: max_def min_def nat_less_iff nat_le_iff split: if_splits)

lemma shape_upper: "has_shape m h ((l, n) # ds) a \<Longrightarrow> array_Upper h a = l + int n - 1"
  by (cases "n = 0") (auto simp: array_Upper_def Let_def)

lemma read_leaf:
  assumes "has_shape m h [(l, n)] a" "valid_index [(l, n)] is"
  shows "\<exists>i. is = [i] \<and> l \<le> i \<and> i < l + int n \<and> read_element h a is = (arr_values h a ! nat (i - l), None)"
proof -
  obtain i where i: "is = [i]" "l \<le> i" "i < l + int n" using assms(2) by (cases "is" rule: list.exhaust; cases "tl is") auto
  then show ?thesis using assms(1) shape_in_bounds[OF assms(1)] by (simp add: element_def)
qed

lemma read_node:
  assumes "has_shape m h ((l, n) # ds) a" "ds \<noteq> []" "valid_index ((l, n) # ds) is"
  shows "\<exists>i js. is = i # js \<and> l \<le> i \<and> i < l + int n \<and> nat (i - l) < n \<and> valid_index ds js
    \<and> (\<forall>m' c. child_at m' h ds a (nat (i - l)) c \<longrightarrow> read_element h a is = read_element h c js)"
proof -
  obtain i js where i: "is = i # js" "l \<le> i" "i < l + int n" "valid_index ds js" using assms(3) by (cases "is") auto
  have js: "js \<noteq> []" using i(4) assms(2) by (cases ds) auto
  have "read_element h a is = read_element h c js" if "child_at m' h ds a (nat (i - l)) c" for m' c
    using that i js assms(1) shape_in_bounds[OF assms(1), of i] by (simp add: element_def child_at_def)
  then show ?thesis using i by (auto simp: nat_less_iff)
qed

declare read_element.simps(2) [simp del]

lemma empty_row:
  assumes f: "fresh m h ((l, n) # ds) a" "ds \<noteq> []" and j: "j < n" "child_at m' h ds a j c"
  shows "all_empty h ds c"
  unfolding all_empty_def
proof (intro allI impI)
  fix js assume v: "valid_index ds js"
  let ?i = "l + int j"
  have s: "has_shape m h ((l, n) # ds) a" using f by (simp add: fresh_def)
  have vi: "valid_index ((l, n) # ds) (?i # js)" using v j by simp
  then have e: "read_element h a (?i # js) = (Value0, None)" using f unfolding fresh_def all_empty_def by blast
  obtain i' js' where r: "?i # js = i' # js'"
    "\<And>m' c. child_at m' h ds a (nat (i' - l)) c \<Longrightarrow> read_element h a (?i # js) = read_element h c js'"
    using read_node[OF s f(2) vi] by blast
  have eq: "i' = ?i" "js' = js" "nat (i' - l) = j" using r(1) by auto
  show "read_element h c js = (Value0, None)" using r(2)[of m' c] e j(2) unfolding eq by simp
qed

lemma copy_leaf:
  assumes bs: "dims_of vb6 bs = [(lT, nT)]" "length bs = (if vb6 then 2 else 1)"
  shows "copies vb6 bs"
  unfolding copies_def bs
proof (intro allI impI)
  fix h0 h dS source m target
  assume h0: "wf_heap h0" and h: "wf_heap h" and gr: "grows h0 h" and S: "has_shape 0 h0 dS source"
    and len: "length dS = length [(lT, nT)]" and m: "length (ah_storage h0) \<le> m" and T: "fresh m h [(lT, nT)] target"
  obtain lS nS where dS: "dS = [(lS, nS)]" using len by (cases dS) auto
  have sa: "source < length (ah_arrays h0)" "va_Len (arr_at h0 source) = nS" using S by (simp_all add: dS)
  have sT: "has_shape m h [(lT, nT)] target" using T by (simp add: fresh_def)
  note src = grows_arr[OF gr sa(1)] grows_values[OF gr h0 sa(1)]
  note shS = S[unfolded dS]
  define start where "start = max lS lT"
  define stop where "stop = min (lS + int nS - 1) (lT + int nT - 1)"
  define limit where "limit = nat (stop - start + 1)"
  define t0 where "t0 = nat (start - lT)"
  define s0 where "s0 = nat (start - lS)"
  define vs where "vs = take limit (drop s0 (arr_values h0 source))"
  have up: "array_Upper h source = lS + int nS - 1" "array_Upper h target = lT + int nT - 1"
    using shape_upper[OF shS] shape_upper[OF sT] grows_upper[OF gr sa(1)] by simp_all
  have low: "va_Lower (arr_at h source) = lS" "va_Lower (arr_at h target) = lT" using shS sT src by auto
  define r where "r = copyPreservedArray vb6 bs target source h"
  have r: "r = (if stop < start then h else write_values target t0 vs h)"
    unfolding r_def copy_unfold Let_def up low bs(2) src(2)
    by (simp add: start_def stop_def limit_def t0_def s0_def vs_def)
  have lv: "length (arr_values h0 source) = nS" "length (arr_values h target) = nT" "target < length (ah_arrays h)"
    "va_Len (arr_at h target) = nT" using wf_storage[OF h0 sa(1)] wf_storage[OF h, of target] sa sT by auto
  have vs: "length vs = limit" if "\<not> stop < start"
    using that lv by (simp add: vs_def limit_def s0_def start_def stop_def)
  have fit: "t0 + length vs \<le> nT" if "\<not> stop < start"
    using that vs[OF that] unfolding limit_def t0_def start_def stop_def by linarith
  have W: "wf_heap r \<and> grows h0 r \<and> has_shape m r [(lT, nT)] target
      \<and> arr_values r target = (if stop < start then arr_values h target
          else take t0 (arr_values h target) @ vs @ drop (t0 + length vs) (arr_values h target))"
    using r h gr sT write_values_wf[OF h lv(3), of t0 vs] fit lv(4) write_values_grows[OF gr, of target t0 vs] m by auto
  have "copied h0 dS source r [(lT, nT)] target"
    unfolding copied_def
  proof (intro allI impI)
    fix "is" assume v: "valid_index [(lT, nT)] is"
    obtain i where i: "is = [i]" "lT \<le> i" "i < lT + int nT" "read_element r target is = (arr_values r target ! nat (i - lT), None)"
      using read_leaf[of m r lT nT target "is"] W v by blast
    have old: "arr_values h target ! nat (i - lT) = Value0"
    proof -
      have "read_element h target is = (Value0, None)" using T v unfolding fresh_def all_empty_def by blast
      then show ?thesis using read_leaf[OF sT v] i(1) by fastforce
    qed
    note ov = overlap[OF start_def stop_def limit_def t0_def s0_def i(2,3)]
    have pos: "nat (i - lT) < nT" using i(2,3) by linarith
    show "read_element r target is = (if valid_index dS is then read_element h0 source is else (Value0, None))"
    proof (cases "lS \<le> i \<and> i < lS + int nS")
      case True
      then have "\<not> stop < start" using i(2,3) unfolding start_def stop_def by linarith
      then have "arr_values r target ! nat (i - lT) = vs ! (nat (i - lT) - t0)"
        using W vs fit ov(1) True lv pos nth_splice[of t0 vs "arr_values h target" "nat (i - lT)"] by simp
      also have "\<dots> = arr_values h0 source ! nat (i - lS)"
      proof -
        have q: "s0 + (nat (i - lT) - t0) = nat (i - lS)" "nat (i - lT) - t0 < limit" "nat (i - lS) < nS" using ov True by linarith+
        then have "s0 \<le> length (arr_values h0 source)" using lv by linarith
        then show ?thesis using q by (simp add: vs_def)
      qed
      finally show ?thesis using i True read_leaf[OF shS, of "is"] by (auto simp: dS)
    next
      case False
      have "arr_values r target ! nat (i - lT) = arr_values h target ! nat (i - lT)"
      proof (cases "stop < start")
        case F: False
        have "nat (i - lT) < t0 \<or> t0 + limit \<le> nat (i - lT)" using ov(1) False by linarith
        then show ?thesis using W vs[OF F] fit[OF F] lv F pos nth_splice[of t0 vs "arr_values h target" "nat (i - lT)"] by auto
      qed (use W in simp)
      then show ?thesis using i False old by (auto simp: dS)
    qed
  qed
  then show "wf_heap r \<and> grows h0 r \<and> has_shape m r [(lT, nT)] target \<and> copied h0 dS source r [(lT, nT)] target"
    using W by blast
qed

lemma rows_initial:
  assumes "fresh m h ((l, n) # ds) a" "ds \<noteq> []" "j < n"
  shows "rows h0 source dS ds (Suc (va_Storage (arr_at h a))) h a t0 s0 0 j"
proof -
  have "va_Len (arr_at h a) = n" using assms(1) by (simp add: fresh_def)
  then obtain c where c: "child_at (Suc (va_Storage (arr_at h a))) h ds a j c"
    using assms by (auto simp: fresh_def)
  then show ?thesis using empty_row[OF assms c] by (auto simp: rows_def)
qed

lemma rows_shape:
  assumes "has_shape m h ((l, n) # ds) a" "a < length (ah_arrays r)" "arr_at r a = arr_at h a"
    "\<forall>j<n. rows h0 source dS ds (Suc (va_Storage (arr_at h a))) r a t0 s0 k j"
  shows "has_shape m r ((l, n) # ds) a"
proof -
  have m: "m \<le> Suc (va_Storage (arr_at h a))" using assms(1) by simp
  have "\<exists>c. arr_values r a ! i = array_value c \<and> has_shape m r ds c" if "i < n" for i
  proof -
    obtain c where "child_at (Suc (va_Storage (arr_at h a))) r ds a i c" using assms(4) \<open>i < n\<close> unfolding rows_def by blast
    then show ?thesis using shape_weaken[OF _ m] by (auto simp: child_at_def)
  qed
  then show ?thesis using assms by simp
qed

lemma rows_copied:
  assumes S: "has_shape 0 h0 ((lS, nS) # dS) source" "dS \<noteq> []" and T: "has_shape m r ((lT, nT) # dT) a" "dT \<noteq> []"
    and pos: "start = max lS lT" "stop = min (lS + int nS - 1) (lT + int nT - 1)" "limit = nat (stop - start + 1)"
      "t0 = nat (start - lT)" "s0 = nat (start - lS)"
    and rows: "\<forall>j<nT. rows h0 source dS dT m' r a t0 s0 limit j"
  shows "copied h0 ((lS, nS) # dS) source r ((lT, nT) # dT) a"
  unfolding copied_def
proof (intro allI impI)
  fix "is" assume v: "valid_index ((lT, nT) # dT) is"
  obtain i js where i: "is = i # js" "lT \<le> i" "i < lT + int nT" "nat (i - lT) < nT" "valid_index dT js"
    "\<And>m' c. child_at m' r dT a (nat (i - lT)) c \<Longrightarrow> read_element r a is = read_element r c js"
    using read_node[OF T v] by blast
  note ov = overlap[OF pos i(2,3)]
  obtain c where c: "child_at m' r dT a (nat (i - lT)) c"
    "if t0 \<le> nat (i - lT) \<and> nat (i - lT) < t0 + limit
     then copied h0 dS (row_source h0 source s0 t0 (nat (i - lT))) r dT c else all_empty r dT c"
    using rows i(4) unfolding rows_def by blast
  show "read_element r a is = (if valid_index ((lS, nS) # dS) is then read_element h0 source is else (Value0, None))"
  proof (cases "lS \<le> i \<and> i < lS + int nS")
    case True
    then obtain e where e: "element h0 source i = array_value e" "has_shape 0 h0 dS e" using shape_child[OF S] by blast
    then have e': "arr_values h0 source ! nat (i - lS) = array_value e" using S(1) by (simp add: element_def)
    have "row_source h0 source s0 t0 (nat (i - lT)) = e" using ov(2) True e' by (simp add: row_source_def)
    then have "copied h0 dS e r dT c" using c(2) ov(1) True by simp
    then have rd: "read_element r a is = (if valid_index dS js then read_element h0 e js else (Value0, None))"
      using i(5) i(6)[OF c(1)] by (simp add: copied_def)
    have "read_element h0 source is = read_element h0 e js" if vj: "valid_index dS js"
      using read_node[OF S, of "is"] vj True i(1) e(2) e' by (auto simp: child_at_def)
    then show ?thesis using rd True i(1) by simp
  next
    case False
    then have "all_empty r dT c" using c(2) ov(1) by (simp split: if_splits)
    then show ?thesis using i(1,5) i(6)[OF c(1)] False by (auto simp: all_empty_def)
  qed
qed

lemma copy_node:
  assumes rest: "copies vb6 rest" "bounds_ok vb6 rest" and bs: "dims_of vb6 bs = (lT, nT) # dims_of vb6 rest"
    "rest = drop (if vb6 then 2 else 1) bs" "rest \<noteq> []"
  shows "copies vb6 bs"
  unfolding copies_def bs(1)
proof (intro allI impI)
  fix h0 h dS source m target
  let ?dT = "dims_of vb6 rest"
  assume h0: "wf_heap h0" and h: "wf_heap h" and gr: "grows h0 h" and S: "has_shape 0 h0 dS source"
    and len: "length dS = length ((lT, nT) # ?dT)" and m: "length (ah_storage h0) \<le> m" and T: "fresh m h ((lT, nT) # ?dT) target"
  obtain lS nS dS' where dS: "dS = (lS, nS) # dS'" "length dS' = length ?dT" using len by (cases dS) auto
  have ne: "?dT \<noteq> []" "dS' \<noteq> []" using dims_of_nonempty[OF rest(2)] dS(2) by auto
  note shS = S[unfolded dS(1)]
  have sT: "has_shape m h ((lT, nT) # ?dT) target" using T by (simp add: fresh_def)
  have sa: "source < length (ah_arrays h0)" "va_Len (arr_at h0 source) = nS" "target < length (ah_arrays h)"
    "va_Len (arr_at h target) = nT" "m \<le> va_Storage (arr_at h target)" using shS sT by simp_all
  define start where "start = max lS lT"
  define stop where "stop = min (lS + int nS - 1) (lT + int nT - 1)"
  define limit where "limit = nat (stop - start + 1)"
  define t0 where "t0 = nat (start - lT)"
  define s0 where "s0 = nat (start - lS)"
  have up: "array_Upper h source = lS + int nS - 1" "array_Upper h target = lT + int nT - 1"
    using shape_upper[OF shS] shape_upper[OF sT] grows_upper[OF gr sa(1)] by simp_all
  have low: "va_Lower (arr_at h source) = lS" "va_Lower (arr_at h target) = lT"
    using shS sT grows_arr[OF gr sa(1)] by auto
  define r where "r = copyPreservedArray vb6 bs target source h"
  have "length bs \<noteq> (if vb6 then 2 else 1)" "\<not> length bs < (if vb6 then 2 else 1)" using bs(2,3) by (auto split: if_splits)
  then have r: "r = fold (copy_child vb6 rest source s0 target t0) [0..<limit] h"
    unfolding r_def copy_unfold Let_def up low bs(2)
    by (simp add: start_def stop_def limit_def t0_def s0_def split del: if_split) simp
  have fit: "s0 + limit \<le> nS \<and> t0 + limit \<le> nT" if "0 < limit"
    using that unfolding limit_def t0_def s0_def start_def stop_def by linarith
  let ?m = "Suc (va_Storage (arr_at h target))"
  have child: "\<exists>e. arr_values h0 source ! i = array_value e \<and> has_shape 0 h0 dS' e" if "i < nS" for i
    using shS that ne(2) by simp
  note rows0 = rows_initial[OF T ne(1)]
  have R: "wf_heap r \<and> grows h0 r \<and> target < length (ah_arrays r) \<and> arr_at r target = arr_at h target
    \<and> (\<forall>j < nT. rows h0 source dS' ?dT ?m r target t0 s0 limit j)"
  proof (cases "0 < limit")
    case True
    then show ?thesis
      using copy_rows[OF rest refl dS(2) h0 sa(1) _ _ h gr sa(3) _ _ refl _ r] fit child rows0 sa m by simp
  qed (use r h gr sa rows0 in \<open>simp add: rows_def\<close>)
  then have shape: "has_shape m r ((lT, nT) # ?dT) target" by (intro rows_shape[OF sT]) auto
  show "wf_heap r \<and> grows h0 r \<and> has_shape m r ((lT, nT) # ?dT) target \<and> copied h0 dS source r ((lT, nT) # ?dT) target"
    using R shape rows_copied[OF shS ne(2) shape ne(1) start_def stop_def limit_def t0_def s0_def] unfolding dS(1) by blast
qed

lemma copy_preserves: "bounds_ok vb6 bs \<Longrightarrow> copies vb6 bs"
proof (induction "length bs" arbitrary: bs rule: less_induct)
  case less
  obtain l n rest k where s: "dims_of vb6 bs = (l, n) # dims_of vb6 rest" "rest = drop (if vb6 then 2 else 1) bs"
    "rest \<noteq> [] \<longrightarrow> bounds_ok vb6 rest"
    by (rule build_step[OF less.prems]) (rule that, assumption+)
  show ?case
  proof (cases "rest = []")
    case True
    have two: "even n \<Longrightarrow> 0 < n \<Longrightarrow> n \<le> 2 \<Longrightarrow> n = 2" for n :: nat by presburger
    have "drop (if vb6 then 2 else 1) bs = []" using True s(2) by metis
    then have "length bs \<le> (if vb6 then 2 else 1)" by (simp only: drop_eq_Nil)
    moreover have "0 < length bs" "vb6 \<longrightarrow> even (length bs)"
      using less.prems unfolding bounds_ok_def length_greater_0_conv by blast+
    ultimately have "length bs = (if vb6 then 2 else 1)" using two[of "length bs"]
      by (cases vb6) (simp_all del: length_greater_0_conv)
    then show ?thesis using copy_leaf[of vb6 bs l n] s(1) True dims_of_empty by simp
  next
    case False
    have "length rest < length bs" using False less.prems by (auto simp: s(2) bounds_ok_def)
    then show ?thesis using copy_node[OF _ _ s(1,2) False] less.hyps s(3) False by blast
  qed
qed

section \<open>Properties\<close>

lemma go_int_id: "- (2 ^ 63) \<le> n \<Longrightarrow> n < 2 ^ 63 \<Longrightarrow> go_int n = n"
  by (simp add: go_int_def sint_sbintrunc' signed_take_bit_int_eq_self)

lemma go_int_range: "- (2 ^ 63) \<le> go_int n" "go_int n < 2 ^ 63"
  using sint_range_size[of "word_of_int n :: i64"] by (simp_all add: go_int_def word_size)

lemma bounds_ok_plain: "bs \<noteq> [] \<Longrightarrow> bounds_ok False bs"
proof -
  assume ne: "bs \<noteq> []"
  have "l = 0 \<and> (\<exists>x. n = nat (go_int x))" if "(l, n) \<in> set (dims_of False bs)" for l n
    using that by (induction bs) auto
  moreover have "go_int (0 + int (nat (go_int x)) - 1) = 0 + int (nat (go_int x)) - 1" for x
    using go_int_range[of x] by (intro go_int_id) auto
  ultimately show ?thesis using ne unfolding bounds_ok_def by fastforce
qed

lemma length_dims_of: "length (dims_of False bs) = length bs"
  by (induction bs) auto

text \<open>
  Functional: Dim with bounds b1, ..., bn allocates an array with the dimensions 0 to bi, every element of which
  is Empty, and leaves every array that was there as it was.
\<close>

theorem dim_creates_empty_array:
  assumes "wf_heap h" "args \<noteq> []" "array_bounds d args = Inr bounds"
  shows "\<exists>a h'. vbsAxonDimArray d args h = Inr (array_value a, h') \<and> wf_heap h' \<and> grows h h'
    \<and> has_shape 0 h' (dims_of False bounds) a \<and> all_empty h' (dims_of False bounds) a"
proof -
  have "bounds \<noteq> []" using assms(2,3) by (cases args) (auto split: sum.splits)
  then have b: "builds (dims_of False bounds) (buildDimArray bounds)" using build_builds[OF bounds_ok_plain] by simp
  obtain a h' where a: "buildDimArray bounds h = (a, h')" by fastforce
  then have "grows h h' \<and> wf_heap h' \<and> fresh (length (ah_storage h)) h' (dims_of False bounds) a"
    using b assms(1) by (auto simp: builds_def)
  then show ?thesis using assms(3) a shape_weaken[of _ h' _ a 0] by (auto simp: vbsAxonDimArray_def fresh_def)
qed

lemma upper_bounds:
  assumes "has_shape m h (dims_of False olds) a" "\<forall>b\<in>set olds. 0 \<le> b \<and> b < 2 ^ 63 - 1" "olds \<noteq> []"
  shows "upper_bounds_from h (length olds) a = olds"
  using assms
proof (induction olds arbitrary: a)
  case (Cons b olds)
  have "go_int (b + 1) = b + 1" using Cons.prems(2) by (intro go_int_id) auto
  then have s: "has_shape m h ((0, nat (b + 1)) # dims_of False olds) a" using Cons.prems(1) by simp
  have u: "array_Upper h a = b" using shape_upper[OF s] Cons.prems(2) by simp
  show ?case
  proof (cases "olds = []")
    case False
    then have "dims_of False olds \<noteq> []" by (cases olds) auto
    then obtain c where "element h a 0 = array_value c" "has_shape m h (dims_of False olds) c"
      using shape_child[OF s, of 0] Cons.prems(2) by auto
    then have "arr_values h a ! 0 = array_value c" using s by (simp add: element_def)
    note c = this \<open>has_shape m h (dims_of False olds) c\<close>
    show ?thesis using c u False Cons.IH[of c] Cons.prems(2) s by auto
  qed (simp add: u)
qed simp

lemma redim_one_copied:
  assumes h: "wf_heap h" "has_shape m h [(0, n)] s" and r: "redim_one s b h = (a, h')"
  shows "copied h [(0, n)] s h' (dims_of False [b]) a"
proof -
  define k where "k = nat (go_int (b + 1))"
  have s: "s < length (ah_arrays h)" "va_Len (arr_at h s) = n" "va_Lower (arr_at h s) = 0" using h(2) by simp_all
  note st = wf_storage[OF h(1) s(1)]
  have cap: "n \<le> arr_cap h s" using h(1) s by (auto simp: arr_cap_def wf_heap_def arr_at_def)
  have new: "arr_values h' a = take k (arr_values h s @ replicate (k - n) Value0)
      \<and> va_Lower (arr_at h' a) = 0 \<and> va_Len (arr_at h' a) = k"
  proof (cases "k \<le> arr_cap h s")
    case True
    let ?old = "arr_at h s"
    define S where "S = ah_storage h ! va_Storage ?old"
    have len: "k \<le> length S" "n \<le> length S" using True cap by (simp_all add: S_def arr_cap_def)
    have "a = length (ah_arrays h)" "va_Lower (arr_at h' a) = 0" "va_Len (arr_at h' a) = k"
        "va_Storage (arr_at h' a) = va_Storage ?old"
        "ah_storage h' ! va_Storage ?old = (if n < k then take n S @ replicate (k - n) Value0 @ drop k S else S)"
      using r True s st by (auto simp: redim_one_def Let_def k_def[symmetric] arr_at_def S_def write_values_def)
    then show ?thesis using len by (auto simp: arr_values_def S_def[symmetric] s(2) min_def)
  next
    case False
    have l: "length (arr_values h s) = n" using st s by simp
    have "k \<le> length (arr_values h s @ replicate (max k (arr_cap h s * 2) - n) Value0)" using l by simp
    from alloc_array_grows(5,6)[OF _ h(1) this] r False s
    have "arr_values h' a = take k (arr_values h s @ replicate (max k (arr_cap h s * 2) - n) Value0)
        \<and> va_Lower (arr_at h' a) = 0 \<and> va_Len (arr_at h' a) = k"
      by (simp add: redim_one_def Let_def k_def[symmetric])
    then show ?thesis using l False cap by (simp add: min_def)
  qed
  show ?thesis
    unfolding copied_def
  proof (intro allI impI)
    fix "is" assume "valid_index (dims_of False [b]) is"
    then obtain i where i: "is = [i]" "0 \<le> i" "i < int k"
      by (cases "is" rule: list.exhaust; cases "tl is") (auto simp: k_def)
    have up: "array_Upper h' a = int k - 1"
    proof -
      have "int k - 1 < 2 ^ 63" using go_int_range[of "b + 1"] by (simp add: k_def)
      then show ?thesis using new go_int_id[of "int k - 1"] i(2,3) by (simp add: array_Upper_def Let_def)
    qed
    have "read_element h' a is = (arr_values h' a ! nat i, None)"
      using i new up by (simp add: read_element.simps(2) in_bounds_def element_def)
    moreover have "read_element h s is = (arr_values h s ! nat i, None)" if "i < int n"
      using read_leaf[OF h(2), of "is"] i that by auto
    moreover have "arr_values h' a ! nat i = (if i < int n then arr_values h s ! nat i else Value0)"
      using new i st s by (auto simp: nth_append nat_less_iff)
    ultimately show "read_element h' a is = (if valid_index [(0, n)] is then read_element h s is else (Value0, None))"
      using i by auto
  qed
qed

lemma redim_many:
  assumes h: "wf_heap h" "has_shape 0 h (dims_of False olds) s" and b: "bounds \<noteq> []" "length bounds = length olds"
    and a: "buildDimArray bounds h = (a, h1)"
  shows "copied h (dims_of False olds) s (copyPreservedArray False bounds a s h1) (dims_of False bounds) a"
proof -
  have "builds (dims_of False bounds) (buildDimArray bounds)" using build_builds[OF bounds_ok_plain[OF b(1)]] by simp
  then have f: "grows h h1" "wf_heap h1" "fresh (length (ah_storage h)) h1 (dims_of False bounds) a"
    using h(1) a by (auto simp: builds_def)
  have l: "length (dims_of False olds) = length (dims_of False bounds)" by (simp add: length_dims_of b(2))
  show ?thesis
    using copy_preserves[OF bounds_ok_plain[OF b(1)]] h f l unfolding copies_def by (simp add: Let_def) blast
qed

text \<open>
  C34. Functional: ReDim Preserve of an array made with bounds old1, ..., oldn to bounds new1, ..., newn is an error when a
  dimension other than the last is changed; otherwise it gives an array in which every index of both arrays
  reads what the old array has there and every other index reads Empty.
\<close>

theorem redim_preserve_keeps_elements:
  assumes "wf_heap h" "toVBArray v = Some s" "has_shape 0 h (dims_of False olds) s" "va_Dims (arr_at h s) = int (length olds)"
    and "\<forall>b\<in>set olds. 0 \<le> b \<and> b < 2 ^ 63 - 1" "array_bounds d args = Inr bounds" "length bounds = length olds"
  shows "if 1 < length olds \<and> butlast bounds \<noteq> butlast olds
    then vbsAxonRedimPreserveArray d (v # args) h = Inl invalid_call
    else \<exists>a h'. vbsAxonRedimPreserveArray d (v # args) h = Inr (array_value a, h')
           \<and> copied h (dims_of False olds) s h' (dims_of False bounds) a"
proof -
  have ne: "olds \<noteq> []" "bounds \<noteq> []" using assms(3,7) by auto
  have u: "vbArrayUpperBounds h s = olds"
  proof -
    have "max (int (length olds)) 1 = int (length olds)" using ne(1) by (cases olds) auto
    then show ?thesis using upper_bounds[OF assms(3,5) ne(1)] assms(4) by (simp add: vbArrayUpperBounds_def)
  qed
  show ?thesis
  proof (cases "length olds = 1")
    case True
    then obtain o1 b where o1: "olds = [o1]" "bounds = [b]" using assms(7) by (auto simp: length_Suc_conv)
    obtain a h' where a: "redim_one s b h = (a, h')" by fastforce
    have "copied h (dims_of False olds) s h' (dims_of False bounds) a"
      using redim_one_copied[OF assms(1) _ a, of 0 "nat (go_int (o1 + 1))"] assms(3) unfolding o1 by simp
    then show ?thesis using u o1 a assms(2,6) by (auto simp: vbsAxonRedimPreserveArray_def)
  next
    case False
    then have l: "1 < length olds" using ne(1) by (cases olds) auto
    obtain a h1 where a: "buildDimArray bounds h = (a, h1)" by fastforce
    show ?thesis using redim_many[OF assms(1,3) ne(2) assms(7) a] u l a assms(2,6,7)
      by (auto simp: vbsAxonRedimPreserveArray_def Let_def)
  qed
qed

text \<open>
  C35. Safety: ReDim Preserve keeps the storage of an array that shrinks. So when the array is made smaller and then
  larger again, the elements that were cut off are also erased in the old array, which other variables may still hold.
\<close>

theorem redim_preserve_erases_shared:
  assumes "wf_heap h" "s < length (ah_arrays h)" "-1 \<le> b" "b + 1 < int (va_Len (arr_at h s))"
    and "redim_one s b h = (a, h1)" "redim_one a (int (va_Len (arr_at h s)) - 1) h1 = (c, h2)" "va_Len (arr_at h s) < 2 ^ 63"
  shows "arr_values h2 s = take (nat (b + 1)) (arr_values h s) @ replicate (va_Len (arr_at h s) - nat (b + 1)) Value0"
proof -
  define n where "n = va_Len (arr_at h s)"
  define k where "k = nat (b + 1)"
  define S where "S = ah_storage h ! va_Storage (arr_at h s)"
  have st: "va_Storage (arr_at h s) < length (ah_storage h)" "n \<le> length S" "k < n" "n < 2 ^ 63"
  proof -
    show "k < n" using assms(3,4) unfolding n_def k_def by linarith
  qed (use wf_storage[OF assms(1,2)] assms(1,2,7) in \<open>auto simp: n_def S_def wf_heap_def arr_at_def\<close>)
  have g: "go_int (b + 1) = b + 1" using assms(3,4,7) by (intro go_int_id) auto
  have g': "go_int (int n - 1 + 1) = int n" using st(4) go_int_id[of "int n"] by simp
  have h1: "a = length (ah_arrays h)" "ah_storage h1 = ah_storage h" "ah_arrays h1 = ah_arrays h @ [(arr_at h s)\<lparr>va_Len := k\<rparr>]"
    using assms(5) st g by (auto simp: redim_one_def Let_def arr_cap_def S_def[symmetric] k_def n_def)
  have a: "arr_at h1 a = (arr_at h s)\<lparr>va_Len := k\<rparr>" "arr_at h1 s = arr_at h s" "arr_cap h1 a = length S"
    using h1 assms(2) by (simp_all add: arr_at_def nth_append arr_cap_def S_def)
  have h2: "ah_storage h2 ! va_Storage (arr_at h s) = take k S @ replicate (n - k) Value0 @ drop n S" "arr_at h2 s = arr_at h s"
    using assms(6)[folded n_def] st g' a h1 assms(2)
    by (auto simp: redim_one_def Let_def write_values_def S_def arr_at_def nth_append)
  show ?thesis using h2 st by (simp add: arr_values_def n_def[symmetric] k_def[symmetric] S_def[symmetric] min_def)
qed

section \<open>Witnesses\<close>

definition empty_heap :: array_heap where
  "empty_heap = \<lparr>ah_storage = [], ah_arrays = [], ah_records = []\<rparr>"

lemma empty_heap_wf: "wf_heap empty_heap"
  by (simp add: wf_heap_def empty_heap_def)

definition no_date :: "i64 \<Rightarrow> string" where "no_date n = []"

theorem dim_creates_empty_array_witness:
  "\<exists>a h'. vbsAxonDimArray no_date [NewInteger 2, NewInteger 1] empty_heap = Inr (array_value a, h')
     \<and> read_element h' a [2, 1] = (Value0, None)"
proof -
  have b: "array_bounds no_date [NewInteger 2, NewInteger 1] = Inr [2, 1]" by code_simp
  have v: "valid_index (dims_of False [2, 1]) [2, 1]" by code_simp
  show ?thesis using dim_creates_empty_array[OF empty_heap_wf _ b] v unfolding all_empty_def by blast
qed

text \<open>A heap with one array of three elements.\<close>

definition three :: array_heap where
  "three = \<lparr>ah_storage = [[NewInteger 7, NewInteger 8, NewInteger 9]],
     ah_arrays = [\<lparr>va_Lower = 0, va_Storage = 0, va_Len = 3, va_Dims = 1\<rparr>], ah_records = []\<rparr>"

lemma three_wf: "wf_heap three" "has_shape 0 three (dims_of False [2]) 0" "va_Dims (arr_at three 0) = int (length [2 :: int])"
  by (simp_all add: wf_heap_def three_def arr_at_def go_int_id)

theorem redim_preserve_keeps_elements_witness:
  "\<exists>a h'. vbsAxonRedimPreserveArray no_date [array_value 0, NewInteger 4] three = Inr (array_value a, h')
     \<and> read_element h' a [1] = (NewInteger 8, None) \<and> read_element h' a [4] = (Value0, None)"
proof -
  have b: "array_bounds no_date [NewInteger 4] = Inr [4]" by code_simp
  have v: "valid_index (dims_of False [4]) [1]" "valid_index (dims_of False [4]) [4]" "valid_index (dims_of False [2]) [1]"
    "\<not> valid_index (dims_of False [2]) [4]" "read_element three 0 [1] = (NewInteger 8, None)" by code_simp+
  have "\<exists>a h'. vbsAxonRedimPreserveArray no_date [array_value 0, NewInteger 4] three = Inr (array_value a, h')
           \<and> copied three (dims_of False [2]) 0 h' (dims_of False [4]) a"
    using redim_preserve_keeps_elements[OF three_wf(1) _ three_wf(2,3) _ b] by simp
  then show ?thesis using v unfolding copied_def by metis
qed

theorem redim_preserve_erases_shared_witness:
  "arr_values (snd (redim_one 1 2 (snd (redim_one 0 0 three)))) 0 = [NewInteger 7, Value0, Value0]"
proof -
  have "fst (redim_one 0 0 three) = 1" "va_Len (arr_at three 0) = 3" "arr_values three 0 = [NewInteger 7, NewInteger 8, NewInteger 9]"
    by code_simp+
  moreover obtain h1 where "redim_one 0 0 three = (1, h1)" using calculation by (metis prod.collapse)
  moreover obtain c h2 where "redim_one 1 2 h1 = (c, h2)" by fastforce
  ultimately show ?thesis
    using redim_preserve_erases_shared[OF three_wf(1), of 0 0 1 h1 c h2] replicate_Suc[of 1 Value0]
    by (simp add: three_def numeral_2_eq_2[symmetric])
qed

end
