(* ===== verification/Containers.thy ===== *)
theory Containers
  imports Arrays AppValues "HOL-Library.AList"
begin

text \<open>
  The container objects of a page: Scripting.Dictionary (\<open>axonvm/lib_scripting_dictionary.go\<close>), Collection
  (\<open>lib_collection.go\<close>), G3StringBuilder (\<open>lib_g3stringbuilder.go\<close>), the proxies of parameterized properties and the
  snapshots of For Each (\<open>vbsAxonEnumValues\<close> in \<open>builtins.go\<close>). An operation returns its value, the error it raises and
  the new state; where the code goes on after an error (Resume Next), the state is the one returned.
\<close>

section \<open>State\<close>

record dictionary =
  dc_keys :: "Value list"
  dc_values :: "Value list"
  dc_index :: "(string \<times> nat) list"
  dc_compareMode :: int

record native_proxy =
  px_ParentID :: i64
  px_Member :: string
  px_CallArgs :: "Value list"

record containers =
  ct_dictionaries :: "i64 \<Rightarrow> dictionary option"
  ct_collections :: "i64 \<Rightarrow> (Value list) option"
  ct_enumerators :: "i64 \<Rightarrow> (Value list) option"
  ct_builders :: "i64 \<Rightarrow> string option"
  ct_proxies :: "i64 \<Rightarrow> native_proxy option"
  ct_nextID :: i64
  ct_heap :: array_heap

type_synonym reply = "Value \<times> raised"

definition empty_reply :: reply where "empty_reply = (NewEmpty, None)"

definition raises :: "VBSyntaxErrorCode \<Rightarrow> string \<Rightarrow> reply" where
  "raises c msg = (NewEmpty, raise_error c msg)"

definition native_handle :: "i64 \<Rightarrow> Value" where
  "native_handle n = (typed VTNativeObject)\<lparr>VNum := n\<rparr>"

definition newNativeObjectProxy :: "i64 \<Rightarrow> string \<Rightarrow> Value list \<Rightarrow> containers \<Rightarrow> Value \<times> containers" where
  "newNativeObjectProxy parent member args st =
     (native_handle (ct_nextID st),
      st\<lparr>ct_nextID := ct_nextID st + 1,
        ct_proxies := (ct_proxies st)(ct_nextID st \<mapsto> \<lparr>px_ParentID = parent, px_Member = member, px_CallArgs = args\<rparr>)\<rparr>)"

text \<open>A fresh array of a copy of the values.\<close>

definition array_reply :: "Value list \<Rightarrow> containers \<Rightarrow> reply \<times> containers" where
  "array_reply vs st = (case ValueFromValueSlice vs (ct_heap st) of (v, h) \<Rightarrow> ((v, None), st\<lparr>ct_heap := h\<rparr>))"

section \<open>Dictionary\<close>

definition newScriptingDictionary :: dictionary where
  "newScriptingDictionary = \<lparr>dc_keys = [], dc_values = [], dc_index = [], dc_compareMode = 0\<rparr>"

text \<open>\<open>key.String()\<close>.\<close>

definition key_text :: "host \<Rightarrow> Value \<Rightarrow> string" where
  "key_text H k = Value_String (h_local_date H) k"

definition normalizeKey :: "host \<Rightarrow> dictionary \<Rightarrow> string \<Rightarrow> string" where
  "normalizeKey H d key = (if dc_compareMode d = 1 then to_lower (h_unicode_lower H) key else key)"

definition keyIndex :: "host \<Rightarrow> dictionary \<Rightarrow> string \<Rightarrow> nat option" where
  "keyIndex H d key = map_of (dc_index d) (normalizeKey H d key)"

definition addEntry :: "host \<Rightarrow> Value \<Rightarrow> Value \<Rightarrow> dictionary \<Rightarrow> dictionary" where
  "addEntry H key v d = d\<lparr>dc_keys := dc_keys d @ [key], dc_values := dc_values d @ [v],
     dc_index := AList.update (normalizeKey H d (key_text H key)) (length (dc_keys d)) (dc_index d)\<rparr>"

definition itemGet :: "host \<Rightarrow> Value \<Rightarrow> dictionary \<Rightarrow> Value \<times> dictionary" where
  "itemGet H key d =
     (case keyIndex H d (key_text H key) of
        Some pos \<Rightarrow> (dc_values d ! pos, d)
      | None \<Rightarrow> (NewEmpty, addEntry H key NewEmpty d))"

definition itemSet :: "host \<Rightarrow> Value \<Rightarrow> Value \<Rightarrow> dictionary \<Rightarrow> dictionary" where
  "itemSet H key v d =
     (case keyIndex H d (key_text H key) of
        Some pos \<Rightarrow> d\<lparr>dc_values := (dc_values d)[pos := v]\<rparr>
      | None \<Rightarrow> addEntry H key v d)"

definition rebuildIndex :: "host \<Rightarrow> dictionary \<Rightarrow> dictionary" where
  "rebuildIndex H d = d\<lparr>dc_index :=
     fold (\<lambda>i. AList.update (normalizeKey H d (key_text H (dc_keys d ! i))) i) [0..<length (dc_keys d)] []\<rparr>"

definition remove_at :: "nat \<Rightarrow> 'a list \<Rightarrow> 'a list" where
  "remove_at i xs = take i xs @ drop (i + 1) xs"

text \<open>The cases of the method dispatch, each on one dictionary.\<close>

definition dict_Add :: "host \<Rightarrow> Value list \<Rightarrow> dictionary \<Rightarrow> reply \<times> dictionary" where
  "dict_Add H args d =
     (case args of
        k # v # _ \<Rightarrow>
          (if keyIndex H d (key_text H k) \<noteq> None
           then (raises ThisKeyAlreadyAssociatedWithAnElement
                  ''This key is already associated with an element of this collection'', d)
           else (empty_reply, addEntry H k v d))
      | _ \<Rightarrow> (raises WrongNumberOfParameters ''Dictionary.Add requires 2 arguments: key, value'', d))"

definition dict_Exists :: "host \<Rightarrow> Value list \<Rightarrow> dictionary \<Rightarrow> reply" where
  "dict_Exists H args d =
     (case args of
        [] \<Rightarrow> raises WrongNumberOfParameters ''Dictionary.Exists requires 1 argument: key''
      | k # _ \<Rightarrow> (NewBool (keyIndex H d (key_text H k) \<noteq> None), None))"

definition dict_Remove :: "host \<Rightarrow> Value list \<Rightarrow> dictionary \<Rightarrow> reply \<times> dictionary" where
  "dict_Remove H args d =
     (case args of
        [] \<Rightarrow> (raises WrongNumberOfParameters ''Dictionary.Remove requires 1 argument: key'', d)
      | k # _ \<Rightarrow>
        (case keyIndex H d (key_text H k) of
           None \<Rightarrow> (raises ElementWasNotFound ''The specified key was not found in the Dictionary'', d)
         | Some pos \<Rightarrow> (empty_reply, rebuildIndex H
             (d\<lparr>dc_keys := remove_at pos (dc_keys d), dc_values := remove_at pos (dc_values d)\<rparr>))))"

definition dict_RemoveAll :: "dictionary \<Rightarrow> dictionary" where
  "dict_RemoveAll d = d\<lparr>dc_keys := [], dc_values := [], dc_index := []\<rparr>"

text \<open>\<open>Item\<close> and the default property: one argument reads, more write the last one.\<close>

definition dict_Item :: "host \<Rightarrow> Value list \<Rightarrow> dictionary \<Rightarrow> reply \<times> dictionary" where
  "dict_Item H args d =
     (case args of
        [] \<Rightarrow> (empty_reply, d)
      | [k] \<Rightarrow> (case itemGet H k d of (v, d') \<Rightarrow> ((v, None), d'))
      | k # _ \<Rightarrow> (empty_reply, itemSet H k (last args) d))"

definition dict_Key :: "host \<Rightarrow> Value \<Rightarrow> Value \<Rightarrow> dictionary \<Rightarrow> reply \<times> dictionary" where
  "dict_Key H old new d =
     (case keyIndex H d (key_text H old) of
        None \<Rightarrow> (raises ElementWasNotFound ''The specified key was not found in the Dictionary'', d)
      | Some pos \<Rightarrow>
        (if keyIndex H d (key_text H new) \<noteq> None
         then (raises ThisKeyAlreadyAssociatedWithAnElement
                ''The new key is already associated with an element of this collection'', d)
         else (empty_reply, rebuildIndex H (d\<lparr>dc_keys := (dc_keys d)[pos := new]\<rparr>))))"

definition dict_SetCompareMode :: "host \<Rightarrow> Value \<Rightarrow> dictionary \<Rightarrow> raised \<times> dictionary" where
  "dict_SetCompareMode H v d =
     (if dc_keys d \<noteq> []
      then (raise_error InvalidProcedureCallOrArgument
             ''The CompareMode property cannot be changed if the Dictionary object already contains data.'', d)
      else if sint (VNum v) \<noteq> dc_compareMode d then (None, rebuildIndex H (d\<lparr>dc_compareMode := sint (VNum v)\<rparr>))
      else (None, d))"

definition newDictionaryObject :: "containers \<Rightarrow> Value \<times> containers" where
  "newDictionaryObject st =
     (native_handle (ct_nextID st), st\<lparr>ct_nextID := ct_nextID st + 1,
        ct_dictionaries := (ct_dictionaries st)(ct_nextID st \<mapsto> newScriptingDictionary)\<rparr>)"

definition put_dictionary :: "i64 \<Rightarrow> 'a \<times> dictionary \<Rightarrow> containers \<Rightarrow> 'a \<times> containers" where
  "put_dictionary n r st = (fst r, st\<lparr>ct_dictionaries := (ct_dictionaries st)(n \<mapsto> snd r)\<rparr>)"

text \<open>\<open>None\<close>: the object is not a dictionary.\<close>

definition dispatchDictionaryMethod :: "host \<Rightarrow> i64 \<Rightarrow> string \<Rightarrow> Value list \<Rightarrow> containers \<Rightarrow> (reply \<times> containers) option" where
  "dispatchDictionaryMethod H n member args st =
     (case ct_dictionaries st n of
        None \<Rightarrow> None
      | Some d \<Rightarrow> Some
        (if member = [] then put_dictionary n (dict_Item H args d) st
         else if equal_fold member ''Add'' then put_dictionary n (dict_Add H args d) st
         else if equal_fold member ''Exists'' then (dict_Exists H args d, st)
         else if equal_fold member ''Remove'' then put_dictionary n (dict_Remove H args d) st
         else if equal_fold member ''RemoveAll'' then put_dictionary n (empty_reply, dict_RemoveAll d) st
         else if equal_fold member ''Keys'' then array_reply (dc_keys d) st
         else if equal_fold member ''Items'' then array_reply (dc_values d) st
         else if equal_fold member ''Item'' then
           (if args = [] then (raises WrongNumberOfParameters ''Dictionary.Item requires 1 argument: key'', st)
            else put_dictionary n (dict_Item H args d) st)
         else if equal_fold member ''Key'' then
           (case args of
              [] \<Rightarrow> (raises WrongNumberOfParameters ''Dictionary.Key requires 2 arguments: oldKey, newKey'', st)
            | [k] \<Rightarrow> (case newNativeObjectProxy n ''Key'' args st of (v, st') \<Rightarrow> ((v, None), st'))
            | old # new # _ \<Rightarrow> put_dictionary n (dict_Key H old new d) st)
         else if equal_fold member ''Count'' then ((NewInteger (word_of_nat (length (dc_keys d))), None), st)
         else if equal_fold member ''CompareMode'' then ((NewInteger (word_of_int (dc_compareMode d)), None), st)
         else (raises ObjectDoesntSupportThisPropertyOrMethod
                (''Scripting.Dictionary does not support '' @ [CHR 0x27] @ member @ [CHR 0x27]), st)))"

definition dispatchDictionaryPropertyGet :: "host \<Rightarrow> i64 \<Rightarrow> string \<Rightarrow> containers \<Rightarrow> (reply \<times> containers) option" where
  "dispatchDictionaryPropertyGet H n member st =
     (case ct_dictionaries st n of
        None \<Rightarrow> None
      | Some d \<Rightarrow> Some
        (if equal_fold member ''Count'' then ((NewInteger (word_of_nat (length (dc_keys d))), None), st)
         else if equal_fold member ''CompareMode'' then ((NewInteger (word_of_int (dc_compareMode d)), None), st)
         else if equal_fold member ''Keys'' then array_reply (dc_keys d) st
         else if equal_fold member ''Items'' then array_reply (dc_values d) st
         else if equal_fold member ''Item'' then
           (case newNativeObjectProxy n ''Item'' [] st of (v, st') \<Rightarrow> ((v, None), st'))
         else if equal_fold member ''Key'' then
           (case newNativeObjectProxy n ''Key'' [] st of (v, st') \<Rightarrow> ((v, None), st'))
         else if member = ''__default__'' \<or> member = [] then (empty_reply, st)
         else put_dictionary n (case itemGet H (NewString member) d of (v, d') \<Rightarrow> ((v, None), d')) st))"

definition dispatchDictionaryPropertySet :: "host \<Rightarrow> i64 \<Rightarrow> string \<Rightarrow> Value \<Rightarrow> containers \<Rightarrow> (raised \<times> containers) option" where
  "dispatchDictionaryPropertySet H n member v st =
     (case ct_dictionaries st n of
        None \<Rightarrow> None
      | Some d \<Rightarrow> Some
        (if equal_fold member ''Item'' then (None, st)
         else if equal_fold member ''CompareMode'' then put_dictionary n (dict_SetCompareMode H v d) st
         else if equal_fold member ''Key'' then (None, st)
         else put_dictionary n (None, itemSet H (NewString member) v d) st))"

section \<open>Collection\<close>

definition newCollectionObject :: "containers \<Rightarrow> Value \<times> containers" where
  "newCollectionObject st =
     (native_handle (ct_nextID st), st\<lparr>ct_nextID := ct_nextID st + 1,
        ct_collections := (ct_collections st)(ct_nextID st \<mapsto> [])\<rparr>)"

definition newEnumerator :: "Value list \<Rightarrow> containers \<Rightarrow> reply \<times> containers" where
  "newEnumerator items st =
     ((native_handle (ct_nextID st), None), st\<lparr>ct_nextID := ct_nextID st + 1,
        ct_enumerators := (ct_enumerators st)(ct_nextID st \<mapsto> items)\<rparr>)"

definition coll_Item :: "Value list \<Rightarrow> Value list \<Rightarrow> reply" where
  "coll_Item args items =
     (case args of
        [] \<Rightarrow> raises WrongNumberOfParameters ''Collection.Item requires 1 argument: index''
      | [i] \<Rightarrow> (if sint (asInt i) < 1 \<or> int (length items) < sint (asInt i) then (NewEmpty, out_of_range)
                else (items ! nat (sint (asInt i) - 1), None))
      | _ \<Rightarrow> raises ObjectDoesntSupportThisPropertyOrMethod ''Collection does not support item assignment'')"

definition coll_Remove :: "Value list \<Rightarrow> Value list \<Rightarrow> reply \<times> Value list" where
  "coll_Remove args items =
     (case args of
        [] \<Rightarrow> (raises WrongNumberOfParameters ''Collection.Remove requires 1 argument: index'', items)
      | i # _ \<Rightarrow> (if sint (asInt i) < 1 \<or> int (length items) < sint (asInt i) then ((NewEmpty, out_of_range), items)
                  else (empty_reply, remove_at (nat (sint (asInt i) - 1)) items)))"

definition put_collection :: "i64 \<Rightarrow> reply \<times> Value list \<Rightarrow> containers \<Rightarrow> reply \<times> containers" where
  "put_collection n r st = (fst r, st\<lparr>ct_collections := (ct_collections st)(n \<mapsto> snd r)\<rparr>)"

definition is_enum :: "string \<Rightarrow> bool" where
  "is_enum member \<longleftrightarrow> equal_fold member ''_NewEnum'' \<or> equal_fold member ''NewEnum''"

definition dispatchCollectionMethod :: "i64 \<Rightarrow> string \<Rightarrow> Value list \<Rightarrow> containers \<Rightarrow> (reply \<times> containers) option" where
  "dispatchCollectionMethod n member args st =
     (case ct_collections st n of
        None \<Rightarrow> None
      | Some items \<Rightarrow> Some
        (if member = [] \<or> equal_fold member ''Item'' then (coll_Item args items, st)
         else if equal_fold member ''Add'' then
           (case args of
              [] \<Rightarrow> (raises WrongNumberOfParameters ''Collection.Add requires at least 1 argument'', st)
            | v # _ \<Rightarrow> put_collection n (empty_reply, items @ [v]) st)
         else if equal_fold member ''Remove'' then put_collection n (coll_Remove args items) st
         else if equal_fold member ''Count'' then ((NewInteger (word_of_nat (length items)), None), st)
         else if is_enum member then newEnumerator items st
         else (raises ObjectDoesntSupportThisPropertyOrMethod
                (''Collection does not support '' @ [CHR 0x27] @ member @ [CHR 0x27]), st)))"

definition dispatchCollectionPropertyGet :: "i64 \<Rightarrow> string \<Rightarrow> containers \<Rightarrow> (reply \<times> containers) option" where
  "dispatchCollectionPropertyGet n member st =
     (case ct_collections st n of
        None \<Rightarrow> None
      | Some items \<Rightarrow>
        (if equal_fold member ''Count'' then Some ((NewInteger (word_of_nat (length items)), None), st)
         else if equal_fold member ''Item'' then
           Some (case newNativeObjectProxy n ''Item'' [] st of (v, st') \<Rightarrow> ((v, None), st'))
         else if is_enum member then Some (newEnumerator items st)
         else None))"

definition dispatchCollectionPropertySet :: "i64 \<Rightarrow> string \<Rightarrow> containers \<Rightarrow> raised option" where
  "dispatchCollectionPropertySet n member st =
     (case ct_collections st n of
        None \<Rightarrow> None
      | Some _ \<Rightarrow> Some (raise_error ObjectDoesntSupportThisPropertyOrMethod
          (''Collection property '' @ [CHR 0x27] @ member @ [CHR 0x27] @ '' is read-only'')))"

section \<open>String builder\<close>

definition builder_DispatchMethod :: "host \<Rightarrow> string \<Rightarrow> Value list \<Rightarrow> string \<Rightarrow> Value \<times> string" where
  "builder_DispatchMethod H member args sb =
     (if equal_fold member ''Append'' then (case args of [] \<Rightarrow> (NewEmpty, sb) | v # _ \<Rightarrow> (NewEmpty, sb @ key_text H v))
      else if equal_fold member ''ToString'' then (NewString sb, sb)
      else (NewEmpty, sb))"

definition builder_DispatchPropertyGet :: "string \<Rightarrow> string \<Rightarrow> Value" where
  "builder_DispatchPropertyGet member sb = (if equal_fold member ''ToString'' then NewString sb else NewEmpty)"

section \<open>For Each\<close>


text \<open>The values For Each runs over: an array is returned as it is, the containers of this theory as a fresh array.
  \<open>None\<close> stands for the other objects.\<close>

definition vbsAxonEnumValues :: "Value list \<Rightarrow> containers \<Rightarrow> ((builtin_error + Value) \<times> containers) option" where
  "vbsAxonEnumValues args st =
     (let snapshot = (\<lambda>vs. case array_reply vs st of (r, st') \<Rightarrow> Some (Inr (fst r), st'))
      in case args of
           [] \<Rightarrow> snapshot []
         | v # _ \<Rightarrow>
           (if toVBArray v \<noteq> None then Some (Inr v, st)
            else if VType v \<noteq> VTNativeObject \<and> VType v \<noteq> VTObject then Some (Inl invalid_call, st)
            else if VType v = VTObject then None
            else case ct_collections st (VNum v) of Some items \<Rightarrow> snapshot items
            | None \<Rightarrow> (case ct_enumerators st (VNum v) of Some items \<Rightarrow> snapshot items
            | None \<Rightarrow> (case ct_dictionaries st (VNum v) of Some d \<Rightarrow> snapshot (dc_keys d)
            | None \<Rightarrow> None))))"

end
