(* ===== verification/DictLaws.thy ===== *)
theory DictLaws
  imports Containers
begin

text \<open>
  The dictionary implements a list of entries in insertion order. \<open>entry_list\<close> is that contract, without an index;
  \<open>dict_ok\<close> is the invariant that ties the index to the key slice. The locale \<open>ordered_store\<close> states what a page may rely
  on when it fills and enumerates such a store.
\<close>

section \<open>An ordered store\<close>

text \<open>The elements of a list in the order of their first occurrences.\<close>

definition firsts :: "'a list \<Rightarrow> 'a list" where
  "firsts xs = rev (remdups (rev xs))"

lemma firsts_Nil [simp]: "firsts [] = []"
  by (simp add: firsts_def)

lemma firsts_Cons [simp]: "firsts (x # xs) = x # filter (\<lambda>y. y \<noteq> x) (firsts xs)"
proof -
  have "rev (remdups (ys @ [x])) = x # filter (\<lambda>y. y \<noteq> x) (rev (remdups ys))" for ys
    by (induction ys) (auto simp: rev_filter)
  then show ?thesis by (simp add: firsts_def)
qed

locale ordered_store =
  fixes inv :: "'s \<Rightarrow> bool"
    and norm :: "'k \<Rightarrow> 'n"
    and entries :: "'s \<Rightarrow> ('n \<times> 'v) list"
    and get :: "'k \<Rightarrow> 's \<Rightarrow> 'v option"
    and put :: "'k \<Rightarrow> 'v \<Rightarrow> 's \<Rightarrow> 's"
    and del :: "'k \<Rightarrow> 's \<Rightarrow> 's"
  assumes once: "inv s \<Longrightarrow> distinct (map fst (entries s))"
    and get_entries: "inv s \<Longrightarrow> get k s = map_of (entries s) (norm k)"
    and put_inv: "inv s \<Longrightarrow> inv (put k v s)"
    and put_entries: "inv s \<Longrightarrow> entries (put k v s) = AList.update (norm k) v (entries s)"
    and del_inv: "inv s \<Longrightarrow> inv (del k s)"
    and del_entries: "inv s \<Longrightarrow> entries (del k s) = AList.delete (norm k) (entries s)"
begin

definition put_all :: "('k \<times> 'v) list \<Rightarrow> 's \<Rightarrow> 's" where
  "put_all kvs s = fold (\<lambda>(k, v). put k v) kvs s"

lemma put_all_inv: "inv s \<Longrightarrow> inv (put_all kvs s)"
  by (induction kvs arbitrary: s) (auto simp: put_all_def put_inv)

lemma put_all_entries: "inv s \<Longrightarrow> entries (put_all kvs s) = fold (\<lambda>(k, v). AList.update (norm k) v) kvs (entries s)"
  by (induction kvs arbitrary: s) (auto simp: put_all_def put_inv put_entries)

text \<open>A key reads as it was written last, under any spelling.\<close>

lemma get_put_all:
  "inv s \<Longrightarrow> get k (put_all kvs s) = (case map_of (rev (map (\<lambda>(k, v). (norm k, v)) kvs)) (norm k) of
     Some v \<Rightarrow> Some v | None \<Rightarrow> get k s)"
proof (induction kvs arbitrary: s)
  case (Cons kv kvs)
  obtain j v where kv: "kv = (j, v)" by (cases kv)
  have "put_all (kv # kvs) s = put_all kvs (put j v s)" by (simp add: put_all_def kv)
  then show ?case using Cons.IH[OF put_inv[OF Cons.prems]] Cons.prems
    by (simp add: kv get_entries put_inv put_entries update_conv' map_add_def split: option.split)
qed (simp add: put_all_def)

text \<open>The keys come in the order of their first writes.\<close>

lemma keys_of_updates: "map fst (fold (\<lambda>(k, v). AList.update (norm k) v) kvs es)
    = map fst es @ filter (\<lambda>n. n \<notin> set (map fst es)) (firsts (map (\<lambda>p. norm (fst p)) kvs))"
proof (induction kvs arbitrary: es)
  case (Cons kv kvs)
  obtain k v where kv: "kv = (k, v)" by (cases kv)
  show ?case
  proof (cases "norm k \<in> set (map fst es)")
    case True
    then have "filter (\<lambda>n. n \<notin> set (map fst es)) (filter (\<lambda>n. n \<noteq> norm k) xs) = filter (\<lambda>n. n \<notin> set (map fst es)) xs" for xs
      by (induction xs) auto
    then show ?thesis using Cons.IH[of "AList.update (norm k) v es"] True by (simp add: kv update_keys)
  next
    case False
    have "filter (\<lambda>n. n \<notin> set (map fst es)) (filter (\<lambda>n. n \<noteq> norm k) xs)
        = filter (\<lambda>n. n \<notin> set (map fst es @ [norm k])) xs" for xs
      by (induction xs) auto
    then show ?thesis using Cons.IH[of "AList.update (norm k) v es"] False by (simp add: kv update_keys)
  qed
qed simp

lemma keys_put_all: "inv s \<Longrightarrow> map fst (entries (put_all kvs s))
    = map fst (entries s) @ filter (\<lambda>n. n \<notin> set (map fst (entries s))) (firsts (map (\<lambda>p. norm (fst p)) kvs))"
  by (simp add: put_all_entries keys_of_updates)

lemma get_del: "inv s \<Longrightarrow> get j (del k s) = (if norm j = norm k then None else get j s)"
  by (simp add: get_entries del_inv del_entries delete_conv')

end

section \<open>The invariant\<close>

definition norm_key :: "host \<Rightarrow> int \<Rightarrow> Value \<Rightarrow> string" where
  "norm_key H mode k = (if mode = 1 then to_lower (h_unicode_lower H) (key_text H k) else key_text H k)"

definition norm_keys :: "host \<Rightarrow> dictionary \<Rightarrow> string list" where
  "norm_keys H d = map (norm_key H (dc_compareMode d)) (dc_keys d)"

definition index_ok :: "host \<Rightarrow> dictionary \<Rightarrow> bool" where
  "index_ok H d \<longleftrightarrow> (\<forall>n i. map_of (dc_index d) n = Some i \<longleftrightarrow> i < length (dc_keys d) \<and> norm_keys H d ! i = n)"

definition dict_ok :: "host \<Rightarrow> dictionary \<Rightarrow> bool" where
  "dict_ok H d \<longleftrightarrow> length (dc_values d) = length (dc_keys d) \<and> distinct (norm_keys H d) \<and> index_ok H d"

lemma normalize_norm: "normalizeKey H d (key_text H k) = norm_key H (dc_compareMode d) k"
  by (simp add: normalizeKey_def norm_key_def)

lemma length_norm_keys [simp]: "length (norm_keys H d) = length (dc_keys d)"
  by (simp add: norm_keys_def)

lemma norm_keys_update [simp]:
  "norm_keys H (d\<lparr>dc_values := x\<rparr>) = norm_keys H d" "norm_keys H (d\<lparr>dc_index := y\<rparr>) = norm_keys H d"
  by (simp_all add: norm_keys_def)

lemma keyIndex_Some:
  assumes "dict_ok H d"
  shows "keyIndex H d (key_text H k) = Some i \<longleftrightarrow> i < length (dc_keys d) \<and> norm_keys H d ! i = norm_key H (dc_compareMode d) k"
  using assms by (simp add: keyIndex_def normalize_norm dict_ok_def index_ok_def)

lemma keyIndex_None:
  assumes "dict_ok H d"
  shows "keyIndex H d (key_text H k) = None \<longleftrightarrow> norm_key H (dc_compareMode d) k \<notin> set (norm_keys H d)"
  using keyIndex_Some[OF assms, of k] by (cases "keyIndex H d (key_text H k)") (auto simp: in_set_conv_nth)

lemma rebuilt_index:
  assumes "distinct ns"
  shows "map_of (fold (\<lambda>i. AList.update (ns ! i) i) [0..<length ns] []) n = Some i \<longleftrightarrow> i < length ns \<and> ns ! i = n"
proof -
  have "map_of (fold (\<lambda>i. AList.update (ns ! i) i) [0..<k] []) n = Some i \<longleftrightarrow> i < k \<and> ns ! i = n" if "k \<le> length ns" for k
    using that
  proof (induction k)
    case (Suc k)
    then show ?case using nth_eq_iff_index_eq[OF assms, of i k] by (auto simp: update_conv' less_Suc_eq)
  qed simp
  then show ?thesis by simp
qed

lemma rebuild_ok:
  assumes "length (dc_values d) = length (dc_keys d)" "distinct (norm_keys H d)"
  shows "dict_ok H (rebuildIndex H d)"
proof -
  have "dc_index (rebuildIndex H d) = fold (\<lambda>i. AList.update (norm_keys H d ! i) i) [0..<length (norm_keys H d)] []"
    by (auto simp: rebuildIndex_def normalize_norm norm_keys_def intro!: fold_cong)
  then show ?thesis using assms rebuilt_index[OF assms(2)]
    by (simp add: dict_ok_def index_ok_def) (simp add: rebuildIndex_def)
qed

lemma rebuild_simps [simp]:
  "dc_keys (rebuildIndex H d) = dc_keys d" "dc_values (rebuildIndex H d) = dc_values d"
  "dc_compareMode (rebuildIndex H d) = dc_compareMode d"
  by (simp_all add: rebuildIndex_def)

lemma addEntry_ok:
  assumes "dict_ok H d" "norm_key H (dc_compareMode d) k \<notin> set (norm_keys H d)"
  shows "dict_ok H (addEntry H k v d)"
proof -
  let ?d = "addEntry H k v d"
  have n: "norm_keys H ?d = norm_keys H d @ [norm_key H (dc_compareMode d) k]" by (simp add: norm_keys_def addEntry_def)
  have new: "norm_keys H d ! i \<noteq> norm_key H (dc_compareMode d) k" if "i < length (dc_keys d)" for i
    using assms(2) that by (metis length_norm_keys nth_mem)
  have "index_ok H ?d" using assms(1) new unfolding index_ok_def n
    by (auto simp: dict_ok_def index_ok_def addEntry_def normalize_norm update_conv' nth_append less_Suc_eq)
  then show ?thesis using assms by (simp add: dict_ok_def n) (simp add: addEntry_def)
qed

section \<open>The list of entries\<close>

text \<open>The contract: a compare mode and the entries in the order they were made. A key is found by its normal form.\<close>

type_synonym entry_list = "int \<times> (Value \<times> Value) list"

definition abs_dict :: "dictionary \<Rightarrow> entry_list" where
  "abs_dict d = (dc_compareMode d, zip (dc_keys d) (dc_values d))"

datatype dict_op =
    DictGet Value | DictSet Value Value | DictAdd Value Value | DictExists Value | DictRemove Value | DictRemoveAll
  | DictRename Value Value | DictCompareMode Value

definition has_key :: "host \<Rightarrow> int \<Rightarrow> Value \<Rightarrow> Value \<times> Value \<Rightarrow> bool" where
  "has_key H m k e \<longleftrightarrow> norm_key H m (fst e) = norm_key H m k"

fun entries_op :: "host \<Rightarrow> dict_op \<Rightarrow> entry_list \<Rightarrow> reply \<times> entry_list" where
  "entries_op H (DictGet k) (m, es) =
     (case find (has_key H m k) es of
        Some e \<Rightarrow> ((snd e, None), m, es) | None \<Rightarrow> (empty_reply, m, es @ [(k, NewEmpty)]))"
| "entries_op H (DictSet k v) (m, es) =
     (empty_reply, m, if list_ex (has_key H m k) es then map (\<lambda>e. if has_key H m k e then (fst e, v) else e) es
                      else es @ [(k, v)])"
| "entries_op H (DictAdd k v) (m, es) =
     (if list_ex (has_key H m k) es
      then (raises ThisKeyAlreadyAssociatedWithAnElement
             ''This key is already associated with an element of this collection'', m, es)
      else (empty_reply, m, es @ [(k, v)]))"
| "entries_op H (DictExists k) (m, es) = ((NewBool (list_ex (has_key H m k) es), None), m, es)"
| "entries_op H (DictRemove k) (m, es) =
     (if list_ex (has_key H m k) es then (empty_reply, m, filter (\<lambda>e. \<not> has_key H m k e) es)
      else (raises ElementWasNotFound ''The specified key was not found in the Dictionary'', m, es))"
| "entries_op H DictRemoveAll (m, es) = (empty_reply, m, [])"
| "entries_op H (DictRename old new) (m, es) =
     (if \<not> list_ex (has_key H m old) es then (raises ElementWasNotFound ''The specified key was not found in the Dictionary'', m, es)
      else if list_ex (has_key H m new) es
      then (raises ThisKeyAlreadyAssociatedWithAnElement
             ''The new key is already associated with an element of this collection'', m, es)
      else (empty_reply, m, map (\<lambda>e. if has_key H m old e then (new, snd e) else e) es))"
| "entries_op H (DictCompareMode v) (m, es) =
     (if es \<noteq> [] then (raises InvalidProcedureCallOrArgument
        ''The CompareMode property cannot be changed if the Dictionary object already contains data.'', m, es)
      else (empty_reply, sint (VNum v), es))"

fun dict_exec :: "host \<Rightarrow> dict_op \<Rightarrow> dictionary \<Rightarrow> reply \<times> dictionary" where
  "dict_exec H (DictGet k) d = dict_Item H [k] d"
| "dict_exec H (DictSet k v) d = dict_Item H [k, v] d"
| "dict_exec H (DictAdd k v) d = dict_Add H [k, v] d"
| "dict_exec H (DictExists k) d = (dict_Exists H [k] d, d)"
| "dict_exec H (DictRemove k) d = dict_Remove H [k] d"
| "dict_exec H DictRemoveAll d = (empty_reply, dict_RemoveAll d)"
| "dict_exec H (DictRename old new) d = dict_Key H old new d"
| "dict_exec H (DictCompareMode v) d = (case dict_SetCompareMode H v d of (r, d') \<Rightarrow> ((NewEmpty, r), d'))"

section \<open>Positions and keys\<close>

lemma distinct_head: "distinct (map f (x # xs)) \<Longrightarrow> y \<in> set xs \<Longrightarrow> f y \<noteq> f x"
  by (metis distinct.simps(2) image_eqI list.set_map list.simps(9))

lemma find_at: "distinct (map f xs) \<Longrightarrow> i < length xs \<Longrightarrow> f (xs ! i) = n \<Longrightarrow> find (\<lambda>x. f x = n) xs = Some (xs ! i)"
proof (induction xs arbitrary: i)
  case (Cons x xs)
  show ?case
  proof (cases i)
    case (Suc j)
    then have "f (xs ! j) \<noteq> f x" using distinct_head[OF Cons.prems(1)] Cons.prems(2) by simp
    then show ?thesis using Cons Suc by auto
  qed (use Cons.prems in simp)
qed simp

lemma map_at: "distinct (map f xs) \<Longrightarrow> i < length xs \<Longrightarrow> f (xs ! i) = n \<Longrightarrow>
    map (\<lambda>x. if f x = n then g x else x) xs = xs[i := g (xs ! i)]"
proof (induction xs arbitrary: i)
  case (Cons x xs)
  show ?case
  proof (cases i)
    case 0
    then have "map (\<lambda>x. if f x = n then g x else x) xs = xs"
      using distinct_head[OF Cons.prems(1)] Cons.prems(3) by (intro map_idI) auto
    then show ?thesis using 0 Cons.prems by simp
  next
    case (Suc j)
    then have "f (xs ! j) \<noteq> f x" using distinct_head[OF Cons.prems(1)] Cons.prems(2) by simp
    then show ?thesis using Cons Suc by auto
  qed
qed simp

lemma filter_at: "distinct (map f xs) \<Longrightarrow> i < length xs \<Longrightarrow> f (xs ! i) = n \<Longrightarrow> filter (\<lambda>x. f x \<noteq> n) xs = remove_at i xs"
proof (induction xs arbitrary: i)
  case (Cons x xs)
  show ?case
  proof (cases i)
    case 0
    then have "filter (\<lambda>x. f x \<noteq> n) xs = xs" using distinct_head[OF Cons.prems(1)] Cons.prems(3) by (auto simp: filter_id_conv)
    then show ?thesis using 0 Cons.prems by (simp add: remove_at_def)
  next
    case (Suc j)
    then have "f (xs ! j) \<noteq> f x" using distinct_head[OF Cons.prems(1)] Cons.prems(2) by simp
    then show ?thesis using Cons Suc by (auto simp: remove_at_def)
  qed
qed simp

lemma norm_keys_zip:
  assumes "dict_ok H d"
  shows "map (\<lambda>e. norm_key H (dc_compareMode d) (fst e)) (zip (dc_keys d) (dc_values d)) = norm_keys H d"
  using assms by (simp add: dict_ok_def norm_keys_def flip: map_map[unfolded o_def])

text \<open>The index finds the entry that the list has.\<close>

lemma found_at:
  assumes ok: "dict_ok H d" and i: "keyIndex H d (key_text H k) = Some i"
  defines "es \<equiv> zip (dc_keys d) (dc_values d)" and "m \<equiv> dc_compareMode d"
  shows "i < length (dc_keys d)" "i < length (dc_values d)" "list_ex (has_key H m k) es"
    "find (has_key H m k) es = Some (dc_keys d ! i, dc_values d ! i)"
    "map (\<lambda>e. if has_key H m k e then g e else e) es = es[i := g (dc_keys d ! i, dc_values d ! i)]"
    "filter (\<lambda>e. \<not> has_key H m k e) es = zip (remove_at i (dc_keys d)) (remove_at i (dc_values d))"
proof -
  have len: "length (dc_values d) = length (dc_keys d)" using ok by (simp add: dict_ok_def)
  have ki: "i < length (dc_keys d)" "norm_keys H d ! i = norm_key H m k" using keyIndex_Some[OF ok] i by (simp_all add: m_def)
  have d: "distinct (map (\<lambda>e. norm_key H m (fst e)) es)" using norm_keys_zip[OF ok] ok by (simp add: es_def m_def dict_ok_def)
  have n: "norm_key H m (fst (es ! i)) = norm_key H m k" using ki len by (simp add: es_def norm_keys_def m_def)
  have e: "i < length es" "es ! i = (dc_keys d ! i, dc_values d ! i)" using ki len by (simp_all add: es_def)
  show "i < length (dc_keys d)" "i < length (dc_values d)" using ki len by simp_all
  show "list_ex (has_key H m k) es" using e n by (metis has_key_def list_ex_iff nth_mem)
  show "find (has_key H m k) es = Some (dc_keys d ! i, dc_values d ! i)"
    using find_at[OF d e(1) n] e(2) by (simp add: has_key_def[abs_def])
  show "map (\<lambda>e. if has_key H m k e then g e else e) es = es[i := g (dc_keys d ! i, dc_values d ! i)]"
    using map_at[OF d e(1) n, of g] e(2) by (simp add: has_key_def)
  show "filter (\<lambda>e. \<not> has_key H m k e) es = zip (remove_at i (dc_keys d)) (remove_at i (dc_values d))"
    using filter_at[OF d e(1) n] len ki(1) by (simp add: has_key_def remove_at_def es_def zip_append take_zip drop_zip)
qed

lemma not_found:
  assumes ok: "dict_ok H d" and i: "keyIndex H d (key_text H k) = None"
  shows "\<not> list_ex (has_key H (dc_compareMode d) k) (zip (dc_keys d) (dc_values d))"
    "find (has_key H (dc_compareMode d) k) (zip (dc_keys d) (dc_values d)) = None"
proof -
  have "norm_key H (dc_compareMode d) k \<notin> set (norm_keys H d)" using keyIndex_None[OF ok] i by simp
  then have "\<forall>e\<in>set (zip (dc_keys d) (dc_values d)). \<not> has_key H (dc_compareMode d) k e"
    using norm_keys_zip[OF ok] by (metis has_key_def image_eqI list.set_map)
  then show "\<not> list_ex (has_key H (dc_compareMode d) k) (zip (dc_keys d) (dc_values d))"
    "find (has_key H (dc_compareMode d) k) (zip (dc_keys d) (dc_values d)) = None"
    by (auto simp: list_ex_iff find_None_iff)
qed

section \<open>The refinement\<close>

lemma abs_parts: "dict_ok H d \<Longrightarrow> (zip (dc_keys d) (dc_values d) = []) = (dc_keys d = [])"
  by (auto simp: dict_ok_def)

lemma distinct_remove_at: "distinct xs \<Longrightarrow> distinct (remove_at i xs)"
  using set_take_disj_set_drop_if_distinct[of xs i "i + 1"] by (auto simp: remove_at_def)

lemma remove_ok:
  assumes "dict_ok H d"
  shows "dict_ok H (rebuildIndex H (d\<lparr>dc_keys := remove_at i (dc_keys d), dc_values := remove_at i (dc_values d)\<rparr>))"
proof (rule rebuild_ok)
  have "norm_keys H (d\<lparr>dc_keys := remove_at i (dc_keys d), dc_values := remove_at i (dc_values d)\<rparr>) = remove_at i (norm_keys H d)"
    by (simp add: norm_keys_def remove_at_def take_map drop_map)
  then show "distinct (norm_keys H (d\<lparr>dc_keys := remove_at i (dc_keys d), dc_values := remove_at i (dc_values d)\<rparr>))"
    using assms distinct_remove_at by (auto simp: dict_ok_def)
qed (use assms in \<open>simp add: dict_ok_def remove_at_def\<close>)

lemma rename_ok:
  assumes "dict_ok H d" "norm_key H (dc_compareMode d) k \<notin> set (norm_keys H d)" "i < length (dc_keys d)"
  shows "dict_ok H (rebuildIndex H (d\<lparr>dc_keys := (dc_keys d)[i := k]\<rparr>))"
proof (rule rebuild_ok)
  have "norm_keys H (d\<lparr>dc_keys := (dc_keys d)[i := k]\<rparr>) = (norm_keys H d)[i := norm_key H (dc_compareMode d) k]"
    by (simp add: norm_keys_def map_update)
  then show "distinct (norm_keys H (d\<lparr>dc_keys := (dc_keys d)[i := k]\<rparr>))"
    using assms distinct_list_update[of "norm_keys H d"] by (auto simp: dict_ok_def)
qed (use assms in \<open>simp add: dict_ok_def\<close>)

lemma values_ok: "dict_ok H d \<Longrightarrow> dict_ok H (d\<lparr>dc_values := (dc_values d)[i := v]\<rparr>)"
  by (simp add: dict_ok_def index_ok_def)

lemma empty_ok: "dict_ok H (d\<lparr>dc_keys := [], dc_values := [], dc_index := []\<rparr>)"
  by (simp add: dict_ok_def index_ok_def norm_keys_def)

lemma abs_addEntry: "dict_ok H d \<Longrightarrow> abs_dict (addEntry H k v d) = (dc_compareMode d, zip (dc_keys d) (dc_values d) @ [(k, v)])"
  by (simp add: abs_dict_def addEntry_def dict_ok_def)

lemma zip_update_snd: "i < length xs \<Longrightarrow> (zip xs ys)[i := (xs ! i, v)] = zip xs (ys[i := v])"
  by (simp add: update_zip)

lemma zip_update_fst: "i < length ys \<Longrightarrow> (zip xs ys)[i := (k, ys ! i)] = zip (xs[i := k]) ys"
  by (simp add: update_zip)

lemma dict_refines_get:
  assumes ok: "dict_ok H d"
  shows "dict_ok H (snd (itemGet H k d))"
    "entries_op H (DictGet k) (abs_dict d) = ((fst (itemGet H k d), None), abs_dict (snd (itemGet H k d)))"
  using found_at[OF ok, of k] not_found[OF ok, of k] addEntry_ok[OF ok] keyIndex_None[OF ok, of k] ok abs_addEntry[OF ok]
  by (auto simp: itemGet_def abs_dict_def empty_reply_def split: option.split)

lemma dict_refines_set:
  assumes ok: "dict_ok H d"
  shows "dict_ok H (itemSet H k v d)" "entries_op H (DictSet k v) (abs_dict d) = (empty_reply, abs_dict (itemSet H k v d))"
proof -
  show "dict_ok H (itemSet H k v d)"
    using addEntry_ok[OF ok] keyIndex_None[OF ok, of k] values_ok[OF ok] by (auto simp: itemSet_def split: option.split)
  show "entries_op H (DictSet k v) (abs_dict d) = (empty_reply, abs_dict (itemSet H k v d))"
  proof (cases "keyIndex H d (key_text H k)")
    case None
    then show ?thesis using not_found[OF ok None] abs_addEntry[OF ok] by (simp add: itemSet_def abs_dict_def)
  next
    case (Some i)
    then show ?thesis using found_at(1,3,5)[OF ok Some] zip_update_snd[of i "dc_keys d" "dc_values d" v]
      by (simp add: itemSet_def abs_dict_def)
  qed
qed

lemma dict_refines:
  assumes ok: "dict_ok H d" and res: "dict_exec H op d = (r, d')"
  shows "dict_ok H d' \<and> entries_op H op (abs_dict d) = (r, abs_dict d')"
proof (cases op)
  case (DictGet k)
  then show ?thesis using dict_refines_get[OF ok, of k] res by (auto simp: dict_Item_def split: prod.splits)
next
  case (DictSet k v)
  then show ?thesis using dict_refines_set[OF ok, of k v] res by (auto simp: dict_Item_def)
next
  case (DictAdd k v)
  show ?thesis
  proof (cases "keyIndex H d (key_text H k)")
    case None
    then show ?thesis using DictAdd res not_found[OF ok None] addEntry_ok[OF ok] keyIndex_None[OF ok, of k] abs_addEntry[OF ok]
      by (auto simp: dict_Add_def abs_dict_def)
  next
    case (Some i)
    then show ?thesis using DictAdd res found_at(3)[OF ok Some] ok by (auto simp: dict_Add_def abs_dict_def)
  qed
next
  case (DictExists k)
  then show ?thesis using res ok found_at(3)[OF ok, of k] not_found(1)[OF ok, of k]
    by (cases "keyIndex H d (key_text H k)") (auto simp: dict_Exists_def abs_dict_def)
next
  case (DictRemove k)
  show ?thesis
  proof (cases "keyIndex H d (key_text H k)")
    case None
    then show ?thesis using DictRemove res not_found(1)[OF ok None] ok by (auto simp: dict_Remove_def abs_dict_def)
  next
    case (Some i)
    then show ?thesis using DictRemove res found_at(3,6)[OF ok Some] remove_ok[OF ok, of i]
      by (auto simp: dict_Remove_def abs_dict_def)
  qed
next
  case DictRemoveAll
  then show ?thesis using res empty_ok[of H d] by (auto simp: dict_RemoveAll_def abs_dict_def)
next
  case (DictRename old new)
  show ?thesis
  proof (cases "keyIndex H d (key_text H old)")
    case None
    then show ?thesis using DictRename res not_found(1)[OF ok None] ok by (auto simp: dict_Key_def abs_dict_def)
  next
    case (Some i)
    note f = found_at[OF ok Some]
    show ?thesis
    proof (cases "keyIndex H d (key_text H new)")
      case None
      then show ?thesis
        using DictRename res Some f(1,2,3,5) not_found(1)[OF ok None] rename_ok[OF ok _ f(1)] keyIndex_None[OF ok, of new]
          zip_update_fst[OF f(2), of "dc_keys d" new] by (auto simp: dict_Key_def abs_dict_def)
    next
      case (Some j)
      then show ?thesis using DictRename res \<open>keyIndex H d (key_text H old) = Some i\<close> f(3) found_at(3)[OF ok Some] ok
        by (auto simp: dict_Key_def abs_dict_def)
    qed
  qed
next
  case (DictCompareMode v)
  have "dict_ok H (rebuildIndex H (d\<lparr>dc_compareMode := m\<rparr>))" if "dc_keys d = []" for m
    using that ok by (intro rebuild_ok) (simp_all add: dict_ok_def norm_keys_def)
  then show ?thesis using DictCompareMode res ok abs_parts[OF ok]
    by (auto simp: dict_SetCompareMode_def abs_dict_def empty_reply_def raises_def split: if_splits)
qed

section \<open>The dictionary is an ordered store\<close>

definition dict_entries :: "host \<Rightarrow> dictionary \<Rightarrow> (string \<times> Value) list" where
  "dict_entries H d = zip (norm_keys H d) (dc_values d)"

definition dict_lookup :: "host \<Rightarrow> Value \<Rightarrow> dictionary \<Rightarrow> Value option" where
  "dict_lookup H k d = map_option (\<lambda>i. dc_values d ! i) (keyIndex H d (key_text H k))"

definition dict_delete :: "host \<Rightarrow> Value \<Rightarrow> dictionary \<Rightarrow> dictionary" where
  "dict_delete H k d = snd (dict_Remove H [k] d)"

lemma update_at:
  "distinct ns \<Longrightarrow> i < length ns \<Longrightarrow> length vs = length ns \<Longrightarrow> AList.update (ns ! i) v (zip ns vs) = zip ns (vs[i := v])"
proof (induction ns arbitrary: i vs)
  case (Cons n ns)
  then obtain w ws where vs: "vs = w # ws" by (cases vs) auto
  show ?case using Cons by (cases i) (auto simp: vs)
qed simp

lemma update_new: "n \<notin> set ns \<Longrightarrow> length vs = length ns \<Longrightarrow> AList.update n v (zip ns vs) = zip (ns @ [n]) (vs @ [v])"
  by (induction ns vs rule: list_induct2') auto

lemma delete_at:
  assumes "distinct ns" "i < length ns" "length vs = length ns"
  shows "AList.delete (ns ! i) (zip ns vs) = zip (remove_at i ns) (remove_at i vs)"
proof -
  have "AList.delete (ns ! i) (zip ns vs) = filter (\<lambda>e. fst e \<noteq> ns ! i) (zip ns vs)"
    by (auto simp: AList.delete_eq intro!: filter_cong)
  then show ?thesis using filter_at[of fst "zip ns vs" i "ns ! i"] assms
    by (simp add: remove_at_def take_zip drop_zip zip_append)
qed

lemma map_of_at: "distinct ns \<Longrightarrow> i < length ns \<Longrightarrow> length vs = length ns \<Longrightarrow> map_of (zip ns vs) (ns ! i) = Some (vs ! i)"
  by (simp add: map_of_zip_nth)

interpretation dict_store: ordered_store
  "\<lambda>d. dict_ok H d \<and> dc_compareMode d = m" "norm_key H m" "dict_entries H" "dict_lookup H" "itemSet H" "dict_delete H"
proof
  fix d k v
  assume d: "dict_ok H d \<and> dc_compareMode d = m"
  then have ok: "dict_ok H d" and m: "dc_compareMode d = m" by auto
  have len: "length (dc_values d) = length (norm_keys H d)" "distinct (norm_keys H d)" using ok by (simp_all add: dict_ok_def)
  show "distinct (map fst (dict_entries H d))" using len by (simp add: dict_entries_def)
  show "dict_lookup H k d = map_of (dict_entries H d) (norm_key H m k)"
  proof (cases "keyIndex H d (key_text H k)")
    case None
    then have "norm_key H m k \<notin> set (norm_keys H d)" using keyIndex_None[OF ok] m by simp
    then show ?thesis using None map_of_zip_is_None[OF len(1)[symmetric]] by (simp add: dict_lookup_def dict_entries_def) metis
  next
    case (Some i)
    then have "i < length (norm_keys H d)" "norm_keys H d ! i = norm_key H m k" using keyIndex_Some[OF ok] m by auto
    then show ?thesis using Some map_of_at[OF len(2) _ len(1), of i] by (simp add: dict_lookup_def dict_entries_def)
  qed
  show "dict_ok H (itemSet H k v d) \<and> dc_compareMode (itemSet H k v d) = m"
    using dict_refines_set(1)[OF ok] m by (simp add: itemSet_def addEntry_def split: option.split)
  show "dict_entries H (itemSet H k v d) = AList.update (norm_key H m k) v (dict_entries H d)"
  proof (cases "keyIndex H d (key_text H k)")
    case None
    then have "norm_key H m k \<notin> set (norm_keys H d)" using keyIndex_None[OF ok] m by simp
    then show ?thesis using None update_new[of _ "norm_keys H d" "dc_values d"] len m
      by (simp add: itemSet_def dict_entries_def) (simp add: addEntry_def norm_keys_def)
  next
    case (Some i)
    then have "i < length (norm_keys H d)" "norm_keys H d ! i = norm_key H m k" using keyIndex_Some[OF ok] m by auto
    then show ?thesis using Some update_at[OF len(2) _ len(1), of i v] by (simp add: itemSet_def dict_entries_def)
  qed
  show "dict_ok H (dict_delete H k d) \<and> dc_compareMode (dict_delete H k d) = m"
    using remove_ok[OF ok] ok m by (auto simp: dict_delete_def dict_Remove_def split: option.split)
  show "dict_entries H (dict_delete H k d) = AList.delete (norm_key H m k) (dict_entries H d)"
  proof (cases "keyIndex H d (key_text H k)")
    case None
    then have "norm_key H m k \<notin> set (norm_keys H d)" using keyIndex_None[OF ok] m by simp
    moreover have "fst ` set (zip (norm_keys H d) (dc_values d)) = set (norm_keys H d)" using len(1) by (metis list.set_map map_fst_zip)
    ultimately show ?thesis using None by (simp add: dict_delete_def dict_Remove_def dict_entries_def AList.delete_idem)
  next
    case (Some i)
    then have i: "i < length (norm_keys H d)" "norm_keys H d ! i = norm_key H m k" using keyIndex_Some[OF ok] m by auto
    have "dict_entries H (dict_delete H k d) = zip (remove_at i (norm_keys H d)) (remove_at i (dc_values d))"
      using Some by (simp add: dict_delete_def dict_Remove_def dict_entries_def norm_keys_def remove_at_def take_map drop_map)
    then show ?thesis using delete_at[OF len(2) i(1) len(1)] i(2) by (simp add: dict_entries_def)
  qed
qed

section \<open>Properties\<close>

lemma dict_run_refines:
  assumes "dict_ok H d"
  shows "dict_ok H (fold (\<lambda>op d. snd (dict_exec H op d)) ops d)
    \<and> abs_dict (fold (\<lambda>op d. snd (dict_exec H op d)) ops d) = fold (\<lambda>op es. snd (entries_op H op es)) ops (abs_dict d)"
  using assms
proof (induction ops arbitrary: d)
  case (Cons op ops)
  obtain r d' where r: "dict_exec H op d = (r, d')" by fastforce
  then show ?case using dict_refines[OF Cons.prems r] Cons.IH[of d'] by simp
qed simp

lemma new_dict_ok: "dict_ok H newScriptingDictionary" "abs_dict newScriptingDictionary = (0, [])"
  by (simp_all add: dict_ok_def index_ok_def newScriptingDictionary_def norm_keys_def abs_dict_def)

text \<open>
  C36. Refinement: after any sequence of operations on a new dictionary (reading and writing items, Add, Exists, Remove,
  RemoveAll, renaming a key, the compare mode), the next operation answers, value and error, as on a list of entries in
  insertion order that is searched from the front; the index never shows.
\<close>

theorem dictionary_refines_entry_list:
  "fst (dict_exec H op (fold (\<lambda>op d. snd (dict_exec H op d)) ops newScriptingDictionary))
     = fst (entries_op H op (fold (\<lambda>op es. snd (entries_op H op es)) ops (0, [])))"
proof -
  define d where "d = fold (\<lambda>op d. snd (dict_exec H op d)) ops newScriptingDictionary"
  have d: "dict_ok H d" "abs_dict d = fold (\<lambda>op es. snd (entries_op H op es)) ops (0, [])"
    using dict_run_refines[OF new_dict_ok(1), of H ops] new_dict_ok(2) by (simp_all add: d_def)
  obtain r d' where "dict_exec H op d = (r, d')" by fastforce
  with dict_refines[OF d(1) this] d(2) show ?thesis by (simp add: d_def)
qed

text \<open>
  C37. Functional: after a batch of item writes to a dictionary, its keys are the old ones followed by the new ones in the
  order of their first writes, whatever the spelling, and a key that was written reads as its last value.
\<close>

theorem dictionary_keeps_insertion_order:
  assumes "dict_ok H d"
  shows "norm_keys H (fold (\<lambda>(k, v). itemSet H k v) kvs d)
      = norm_keys H d @ filter (\<lambda>n. n \<notin> set (norm_keys H d)) (firsts (map (\<lambda>p. norm_key H (dc_compareMode d) (fst p)) kvs))
    \<and> dict_lookup H k (fold (\<lambda>(k, v). itemSet H k v) kvs d)
      = (case map_of (rev (map (\<lambda>(k, v). (norm_key H (dc_compareMode d) k, v)) kvs)) (norm_key H (dc_compareMode d) k) of
           Some v \<Rightarrow> Some v | None \<Rightarrow> dict_lookup H k d)"
proof -
  let ?m = "dc_compareMode d" and ?d = "fold (\<lambda>(k, v). itemSet H k v) kvs d"
  have i: "dict_ok H d \<and> dc_compareMode d = ?m" using assms by simp
  have e: "map fst (dict_entries H x) = norm_keys H x" if "dict_ok H x" for x
    using that by (simp add: dict_entries_def dict_ok_def)
  have p: "dict_store.put_all H kvs d = ?d" by (simp add: dict_store.put_all_def)
  have "dict_ok H ?d" using dict_store.put_all_inv[OF i, of kvs] unfolding p by simp
  then show ?thesis using dict_store.keys_put_all[OF i, of kvs] dict_store.get_put_all[OF i, of k kvs] e assms
    unfolding p by simp
qed

theorem dictionary_keeps_insertion_order_witness:
  "\<forall>H. norm_keys H (fold (\<lambda>(k, v). itemSet H k v)
      [(NewString ''b'', NewInteger 1), (NewString ''a'', NewInteger 2), (NewString ''b'', NewInteger 3)] newScriptingDictionary)
    = [''b'', ''a'']"
proof
  fix H
  have k: "norm_key H 0 (NewString t) = t" for t
    by (simp add: norm_key_def key_text_def Value_String_def NewString_def)
  let ?kvs = "[(NewString ''b'', NewInteger 1), (NewString ''a'', NewInteger 2), (NewString ''b'', NewInteger 3)]"
  let ?d = newScriptingDictionary
  have "norm_keys H (fold (\<lambda>(k, v). itemSet H k v) ?kvs ?d) = norm_keys H ?d @ filter (\<lambda>n. n \<notin> set (norm_keys H ?d))
      (firsts (map (\<lambda>p. norm_key H (dc_compareMode ?d) (fst p)) ?kvs))"
    by (rule conjunct1[OF dictionary_keeps_insertion_order[OF new_dict_ok(1)]])
  also have "\<dots> = [''b'', ''a'']" by (simp add: k newScriptingDictionary_def norm_keys_def)
  finally show "norm_keys H (fold (\<lambda>(k, v). itemSet H k v) ?kvs ?d) = [''b'', ''a'']" .
qed

end
