(* ===== verification/TypedStores.thy ===== *)
theory TypedStores
  imports OptSound
begin

text \<open>
  Declared types: what the stores of the machine leave in a variable that was declared with a type, and the
  instructions that update such a variable in place and leave something else there.
\<close>

named_theorems type_rules \<open>rules that carry the types of the globals through an instruction\<close>

section \<open>Coercion to the declared type\<close>

definition of_type :: "ValueType \<Rightarrow> Value \<Rightarrow> bool" where
  "of_type t v \<longleftrightarrow>
     (if t \<in> {VTInteger, VTDouble, VTString, VTBool, VTRecord} then VType v = t
      else if t = VTObject then VType v \<in> {VTObject, VTNativeObject, VTNothing}
      else True)"

lemma coerced_type:
  assumes "coerceToDeclaredType h (\<lambda>v. v) v t = Some w"
  shows "of_type t w"
proof (cases "VType v = VTEmpty \<or> VType v = VTNull")
  case True
  then show ?thesis using assms by (cases t) (auto simp: coerceToDeclaredType_def zeroValueForType_def of_type_def)
next
  case False
  then show ?thesis
    using assms by (cases t; cases "VType v") (auto simp: coerceToDeclaredType_def of_type_def Let_def split: if_splits)
qed

lemma type_with_class: "of_type t (with_class cls v) = of_type t v"
  by (auto simp: with_class_def of_type_def split: option.splits)

section \<open>Variables that hold their type\<close>

text \<open>A global whose declared type is recorded holds a value of it.\<close>

definition globals_typed :: "VM \<Rightarrow> bool" where
  "globals_typed vm \<longleftrightarrow> (\<forall>i < length (vm_Globals vm). declared_global vm i \<noteq> VTEmpty \<longrightarrow>
     of_type (declared_global vm i) (vm_Globals vm ! i))"

definition same_globals :: "VM \<Rightarrow> VM \<Rightarrow> bool" where
  "same_globals vm vm' \<longleftrightarrow> vm_Globals vm' = vm_Globals vm \<and> vm_globalTypes vm' = vm_globalTypes vm"

lemma same_declared: "same_globals vm vm' \<Longrightarrow> declared_global vm' i = declared_global vm i"
  by (simp add: same_globals_def declared_global_def)

lemma same_typed: "same_globals vm vm' \<Longrightarrow> globals_typed vm \<Longrightarrow> globals_typed vm'"
  by (simp add: globals_typed_def same_declared) (simp add: same_globals_def)

lemma same_globals_refl [simp]: "same_globals vm vm"
  by (simp add: same_globals_def)

lemma same_globals_trans: "same_globals vm vm' \<Longrightarrow> same_globals vm' vm'' \<Longrightarrow> same_globals vm vm''"
  by (simp add: same_globals_def)

lemma same_globals_updates:
  "same_globals vm (vm\<lparr>vm_ip := i\<rparr>)" "same_globals vm (put vm j v)" "same_globals vm (vm\<lparr>vm_objs := ob\<rparr>)"
  "same_globals vm (inc_ref v vm)" "same_globals vm (jump_if b t vm)" "same_globals vm (emit_text str vm)"
  "same_globals vm (vm\<lparr>vm_optionCompare := c\<rparr>)" "same_globals vm (vm\<lparr>vm_lastLine := l, vm_lastColumn := m\<rparr>)"
  "same_globals vm (begin_statement vm)" "same_globals vm (vm\<lparr>vm_sp := s\<rparr>)"
  "same_globals vm (put (vm\<lparr>vm_sp := s\<rparr>) j v)" "same_globals vm ((put vm j v)\<lparr>vm_localTypes := lt\<rparr>)"
  by (simp_all add: same_globals_def put_def inc_ref_def jump_if_def emit_text_def begin_statement_def Let_def
      split: option.splits)

lemma typed_update [type_rules]:
  "globals_typed vm \<Longrightarrow> globals_typed (vm\<lparr>vm_ip := i\<rparr>)"
  "globals_typed vm \<Longrightarrow> globals_typed (put vm j v)"
  "globals_typed vm \<Longrightarrow> globals_typed (vm\<lparr>vm_objs := ob\<rparr>)"
  "globals_typed vm \<Longrightarrow> globals_typed (inc_ref v vm)"
  "globals_typed vm \<Longrightarrow> globals_typed (jump_if b t vm)"
  "globals_typed vm \<Longrightarrow> globals_typed (emit_text str vm)"
  "globals_typed vm \<Longrightarrow> globals_typed (vm\<lparr>vm_optionCompare := c\<rparr>)"
  "globals_typed vm \<Longrightarrow> globals_typed (vm\<lparr>vm_lastLine := l, vm_lastColumn := m\<rparr>)"
  "globals_typed vm \<Longrightarrow> globals_typed (begin_statement vm)"
  "globals_typed vm \<Longrightarrow> globals_typed (vm\<lparr>vm_sp := s\<rparr>)"
  "globals_typed vm \<Longrightarrow> globals_typed (put (vm\<lparr>vm_sp := s\<rparr>) j v)"
  by (rule same_typed[OF same_globals_updates(1)] same_typed[OF same_globals_updates(2)]
      same_typed[OF same_globals_updates(3)] same_typed[OF same_globals_updates(4)]
      same_typed[OF same_globals_updates(5)] same_typed[OF same_globals_updates(6)]
      same_typed[OF same_globals_updates(7)] same_typed[OF same_globals_updates(8)]
      same_typed[OF same_globals_updates(9)] same_typed[OF same_globals_updates(10)]
      same_typed[OF same_globals_updates(11)], assumption)+

lemma typed_store:
  assumes "globals_typed vm" "declared_global vm i \<noteq> VTEmpty \<longrightarrow> of_type (declared_global vm i) v"
  shows "globals_typed (put_global vm i v)"
proof -
  have "declared_global (put_global vm i v) = declared_global vm"
    by (simp add: declared_global_def put_global_def fun_eq_iff)
  then show ?thesis
    using assms by (auto simp: globals_typed_def put_global_def) (metis nth_list_update_eq nth_list_update_neq)+
qed

section \<open>Rules for the access functions\<close>

abbreviation keeps_types :: "outcome \<Rightarrow> bool" where "keeps_types \<equiv> holds globals_typed"

lemma release_range_same: "release_range vm k n = Some vm' \<Longrightarrow> same_globals vm vm'"
  using release_range_fields[of vm k n vm'] by (auto simp: same_globals_def)

lemma unwind_same: "unwind vm f s e frames = Some vm' \<Longrightarrow> same_globals vm vm'"
proof (induction vm f s e frames rule: unwind.induct)
  case (1 vm f s e)
  then show ?case by simp
next
  case (2 vm f s e frame rest)
  then obtain vm1 where r: "release_range vm f (nat (s + 1 - f)) = Some vm1" by (auto split: option.splits)
  then show ?case
    using 2 release_range_same[OF r] by (auto simp: same_globals_def split: if_splits)
qed

lemma raise_types:
  assumes "globals_typed vm" "\<And>vm'. same_globals vm vm' \<Longrightarrow> keeps_types (k vm')"
  shows "keeps_types (raise_vm e vm k)"
proof -
  let ?vm = "vm\<lparr>vm_errObject := Some e\<rparr>"
  have s: "same_globals vm ?vm" by (simp add: same_globals_def)
  have "same_globals vm (?vm\<lparr>vm_lastError := Some e, vm_skipToNextStmt := True\<rparr>)" by (simp add: same_globals_def)
  then show ?thesis
    using assms same_typed[OF s assms(1)] same_typed[OF unwind_same]
    by (auto simp: raise_vm_def Let_def split: option.splits)
qed

lemma raise_typed [type_rules]:
  "globals_typed vm \<Longrightarrow> (\<And>vm'. globals_typed vm' \<Longrightarrow> keeps_types (k vm')) \<Longrightarrow> keeps_types (raise_vm e vm k)"
  by (rule raise_types) (auto intro: same_typed)

lemma raised_typed [type_rules]:
  "globals_typed vm \<Longrightarrow> (\<And>vm'. globals_typed vm' \<Longrightarrow> keeps_types (k vm')) \<Longrightarrow> keeps_types (raised_then r vm k)"
  by (auto simp: raised_then_def split: option.splits intro: raise_typed)

lemma push_typed [type_rules]:
  "globals_typed vm \<Longrightarrow> (\<And>vm'. globals_typed vm' \<Longrightarrow> keeps_types (k vm')) \<Longrightarrow> keeps_types (push_then h vm v k)"
  by (auto simp: push_then_def intro: raise_typed typed_update)

lemma pop_types:
  assumes "globals_typed vm" "\<And>v vm'. same_globals vm vm' \<Longrightarrow> keeps_types (k v vm')"
  shows "keeps_types (pop_then h vm k)"
  using assms by (auto simp: pop_then_def slot_then_def intro!: raise_types same_globals_updates(10))

lemma pop_typed [type_rules]:
  "globals_typed vm \<Longrightarrow> (\<And>v vm'. globals_typed vm' \<Longrightarrow> keeps_types (k v vm')) \<Longrightarrow> keeps_types (pop_then h vm k)"
  by (rule pop_types) (auto intro: same_typed)

lemma u16_typed [type_rules]:
  "globals_typed vm \<Longrightarrow> (\<And>x vm'. globals_typed vm' \<Longrightarrow> holds P (k x vm')) \<Longrightarrow> holds P (u16_then vm k)"
  by (auto simp: u16_then_def intro: typed_update split: option.splits)

lemma u32_typed [type_rules]:
  "globals_typed vm \<Longrightarrow> (\<And>x vm'. globals_typed vm' \<Longrightarrow> holds P (k x vm')) \<Longrightarrow> holds P (u32_then vm k)"
  by (auto simp: u32_then_def intro: typed_update split: option.splits)

lemma dec_typed [type_rules]:
  "globals_typed vm \<Longrightarrow> (\<And>vm'. globals_typed vm' \<Longrightarrow> keeps_types (k vm')) \<Longrightarrow> keeps_types (dec_then vm v k)"
  by (auto simp: dec_then_def split: option.splits intro: typed_update)

lemma assign_typed:
  assumes "globals_typed vm" "\<And>u. same_globals vm u \<Longrightarrow> globals_typed (store u)"
    "\<And>vm'. globals_typed vm' \<Longrightarrow> keeps_types (k vm')"
  shows "keeps_types (assign_then b store old new vm k)"
proof -
  have o: "globals_typed (store (vm\<lparr>vm_objs := ob\<rparr>))" "globals_typed (store vm)" for ob
    using assms(2) same_globals_updates(3) same_globals_refl by blast+
  show ?thesis
  proof (cases b)
    case True
    then show ?thesis using dec_typed[OF typed_update(4)[OF o(2)] assms(3)] by (simp add: assign_then_def)
  next
    case False
    then show ?thesis using o assms(3)
      by (auto simp: assign_then_def dec_then_def split: option.splits intro: typed_update)
  qed
qed

lemma coerce_types:
  assumes "globals_typed vm" "\<And>w. of_type t w \<Longrightarrow> keeps_types (k w vm)"
  shows "keeps_types (coerce_then h vm t v k)"
  using assms coerced_type
  by (auto simp: coerce_then_def split: option.splits intro!: raise_typed)

lemma pop_many_typed [type_rules]:
  "globals_typed vm \<Longrightarrow> (\<And>vs vm'. globals_typed vm' \<Longrightarrow> keeps_types (k vs vm')) \<Longrightarrow> keeps_types (pop_many h m vm acc k)"
  by (induction m arbitrary: vm acc) (auto intro: pop_typed)

lemma running_typed [type_rules]: "globals_typed vm \<Longrightarrow> keeps_types (Running vm)"
  by simp

lemma typed_if [type_rules]:
  "globals_typed vm \<Longrightarrow> globals_typed vm' \<Longrightarrow> globals_typed (if b then vm else vm')"
  "globals_typed (g c) \<Longrightarrow> globals_typed (Let c g)"
  by simp_all

lemmas plain_rules = type_rules slot_safe const_safe global_safe let_case_safe

section \<open>The stores\<close>

lemma store_global_typed:
  assumes "globals_typed vm" "declared_global vm i \<noteq> VTEmpty \<longrightarrow> of_type (declared_global vm i) v"
  shows "keeps_types (global_then vm i (\<lambda>prev. assign_then b (\<lambda>u. put_global u i v) (old prev) v vm Running))"
proof (rule global_safe, rule assign_typed[OF assms(1)])
  fix u
  assume "same_globals vm u"
  then show "globals_typed (put_global u i v)"
    using typed_store same_typed[OF _ assms(1)] assms(2) same_declared by auto
qed simp

lemma stores_typed:
  assumes "globals_typed vm"
  shows "keeps_types (exec_SetGlobal h vm)" "keeps_types (exec_LetGlobal h vm)" "keeps_types (exec_Set h vm)"
    "keeps_types (exec_store_local b h vm)"
proof -
  note pu = u16_typed[OF assms] pop_typed
  show "keeps_types (exec_SetGlobal h vm)"
    unfolding exec_SetGlobal_def store_global_def
    by (intro u16_typed[OF assms] pop_typed let_case_safe(2,5) coerce_types store_global_typed; assumption?)
       (simp_all add: type_with_class)
  show "keeps_types (exec_LetGlobal h vm)"
    unfolding exec_LetGlobal_def Let_def
    by (intro u16_typed[OF assms] pop_typed let_case_safe(2,5) coerce_types store_global_typed; assumption?)
       (simp_all add: type_with_class)
  show "keeps_types (exec_Set h vm)"
    unfolding exec_Set_def Let_def
    by (intro u16_typed pop_typed let_case_safe(2,4,5) coerce_types store_global_typed slot_safe assign_typed raise_typed
          assms; assumption?)
       (auto simp add: type_with_class intro: typed_update same_typed)
  show "keeps_types (exec_store_local b h vm)"
    unfolding exec_store_local_def Let_def
    by (intro u16_typed pop_typed let_case_safe(2,4,5) coerce_types slot_safe assign_typed assms; assumption?)
       (auto simp add: type_with_class intro: typed_update same_typed)
qed

section \<open>The other instructions\<close>

lemma loads_typed:
  assumes "globals_typed vm"
  shows "keeps_types (exec_Constant h vm)" "keeps_types (exec_GetGlobal h vm)" "keeps_types (exec_GetLocal h vm)"
    "keeps_types (exec_count_local up h vm)"
  unfolding exec_Constant_def exec_GetGlobal_def exec_GetLocal_def exec_count_local_def
  by (rule plain_rules assms | assumption)+

lemma for_operands_typed:
  assumes "globals_typed vm" "\<And>a b c d vm'. globals_typed vm' \<Longrightarrow> holds P (k a b c d vm')"
  shows "holds P (for_next_operands vm k)"
  unfolding for_next_operands_def
  using assms by (auto intro!: u16_typed u32_typed intro: typed_update split: option.splits)

lemma control_typed:
  assumes "globals_typed vm"
  shows "keeps_types (exec_ForNextFastInt h vm)" "keeps_types (exec_binary_op h op vm)" "keeps_types (exec_unary h f vm)"
    "keeps_types (exec_Jump vm)" "keeps_types (exec_JumpIf sense h vm)" "keeps_types (exec_fused_jump h op vm)"
  unfolding exec_ForNextFastInt_def exec_binary_op_def exec_binary_def exec_unary_def exec_Jump_def exec_JumpIf_def
    exec_fused_jump_def
  by (rule plain_rules for_operands_typed assms | assumption)+

lemma misc_typed:
  assumes "globals_typed vm"
  shows "keeps_types (exec_Write h vm)" "keeps_types (exec_WriteN h vm)" "keeps_types (exec_WriteStatic vm)"
    "keeps_types (exec_SetOption vm)" "keeps_types (exec_Line vm)" "keeps_types (exec_Swap vm)"
    "keeps_types (exec_arg_ref b h vm)" "keeps_types (exec_Me h vm)"
  unfolding exec_Write_def exec_WriteN_def exec_WriteStatic_def exec_SetOption_def exec_Line_def exec_Swap_def
    exec_arg_ref_def exec_Me_def
  by (rule plain_rules assms | assumption)+

lemma resume_typed: "globals_typed vm \<Longrightarrow> keeps_types (exec_ResumeNext b vm)"
  by (auto simp: exec_ResumeNext_def intro: same_typed[rotated] simp: same_globals_def)

lemma clear_slots_same: "clear_slots vm i k = Some vm' \<Longrightarrow> same_globals vm vm'"
  by (induction vm i k rule: clear_slots.induct)
     (auto split: if_splits intro: same_globals_trans[OF same_globals_updates(12)])

lemma declare_locals_same: "same_globals vm (declare_locals vm entry n ls)"
proof (induction ls arbitrary: vm)
  case (Cons l ls)
  then show ?case by (cases l) (auto simp: Let_def intro: same_globals_trans[OF same_globals_updates(12)])
qed simp

lemma bind_params_same: "bind_params vm entry om p k args = Some vm' \<Longrightarrow> same_globals vm vm'"
proof (induction vm entry om p k args rule: bind_params.induct)
  case (2 vm entry om p k args)
  have u: "same_globals vm (inc_ref a (put vm i b))" for a i b
    using same_globals_trans same_globals_updates(2,4) by blast
  from 2 show ?case
    by (auto simp: Let_def intro: same_globals_trans[OF u] split: list.splits if_splits)
qed simp

lemma begin_call_typed:
  assumes "globals_typed vm"
  shows "keeps_types (begin_call vm target args discard bound wb)"
proof -
  let ?e = "enter_frame vm target discard bound wb"
  have e: "globals_typed ?e" by (rule same_typed[OF _ assms]) (simp add: same_globals_def enter_frame_def)
  have fill: "keeps_types
      (case clear_slots u (vm_fp u) m of None \<Rightarrow> GoPanic
       | Some vm1 \<Rightarrow>
         (case bind_params (declare_locals vm1 en lc (vm_funcLocalTypes vm1 en)) en om 0 pc args of
            None \<Rightarrow> GoPanic
          | Some vm2 \<Rightarrow> Running (vm2\<lparr>vm_sp := (if b then x else vm_fp vm2 - 1), vm_ip := a\<rparr>)))"
    if u: "same_globals ?e u" for u m lc en om pc b x a
  proof -
    have "globals_typed (vm2\<lparr>vm_sp := y, vm_ip := a\<rparr>)"
      if "clear_slots u (vm_fp u) m = Some vm1"
        "bind_params (declare_locals vm1 en lc (vm_funcLocalTypes vm1 en)) en om 0 pc args = Some vm2" for vm1 vm2 y
    proof -
      have "same_globals ?e vm2"
        by (intro same_globals_trans[OF u] same_globals_trans[OF clear_slots_same[OF that(1)]]
            same_globals_trans[OF declare_locals_same bind_params_same[OF that(2)]])
      then have "globals_typed vm2" by (rule same_typed[OF _ e])
      then show ?thesis by (rule typed_update(1)[OF typed_update(10)])
    qed
    then show ?thesis by (auto split: option.splits)
  qed
  show ?thesis
    unfolding begin_call_def Let_def
    by (auto simp del: option.case intro!: raise_types[OF e] fill)
qed

lemma calls_typed:
  assumes "globals_typed vm"
  shows "keeps_types (exec_Call h vm)" "keeps_types (exec_CoerceToValue h vm)"
  unfolding exec_Call_def exec_CoerceToValue_def
  by (rule plain_rules begin_call_typed assms | assumption)+

section \<open>Every instruction but those that update in place\<close>

text \<open>The instructions that write a global without a look at its declared type: the counters, the counted loop, the
  extended instructions and the return from a call with parameters by reference.\<close>

definition writes_in_place :: "OpCode \<Rightarrow> bool" where
  "writes_in_place op \<longleftrightarrow> op \<in> {OpIncGlobalInt, OpDecGlobalInt, OpForNextFastGlobalInt, OpExtPrefix, OpRet}"

lemma exec_keeps_types:
  assumes "\<not> writes_in_place op" "globals_typed vm"
  shows "keeps_types (exec h op vm)"
proof -
  have op: "op \<noteq> OpIncGlobalInt" "op \<noteq> OpDecGlobalInt" "op \<noteq> OpForNextFastGlobalInt" "op \<noteq> OpExtPrefix" "op \<noteq> OpRet"
    using assms(1) by (simp_all add: writes_in_place_def)
  note rules = let_case_safe(2,5) loads_typed[OF assms(2)] stores_typed[OF assms(2)] control_typed[OF assms(2)]
    misc_typed[OF assms(2)] calls_typed[OF assms(2)] resume_typed[OF assms(2)] running_typed
  have slots: "keeps_types (exec_slots h op vm)"
    unfolding exec_slots_def using op by (intro rules) simp_all
  have control: "keeps_types (exec_control h op vm)"
    unfolding exec_control_def using op by (intro rules slots typed_update(1) assms(2)) simp_all
  show ?thesis
    unfolding exec_def using op assms(2) by (intro rules control pop_typed) simp_all
qed


definition typed_demo :: VM where
  "typed_demo = (NewVM 0 [] ([OpIncGlobalInt, 0, 0] @ [OpGetGlobal, 0, 0, OpCoerceToValue, OpConstant, 0, 0, OpAdd,
       OpSetGlobal, 0, 0]) [NewInteger 1] 1)
     \<lparr>vm_Globals := [NewBool True], vm_globalTypes := [VTBool]\<rparr>"

lemma typed_demo_ok: "globals_typed typed_demo"
  by (simp add: globals_typed_def typed_demo_def declared_global_def of_type_def NewVM_def)

lemma typed_demo_fields:
  "vm_constants typed_demo = [NewInteger 1]" "vm_Globals typed_demo = [NewBool True]" "vm_ip typed_demo = 0"
  "vm_bytecode typed_demo = [OpIncGlobalInt, 0, 0, OpGetGlobal, 0, 0, OpCoerceToValue, OpConstant, 0, 0, OpAdd,
       OpSetGlobal, 0, 0]"
  "vm_globalTypes typed_demo = [VTBool]" "vm_sp typed_demo = -1" "vm_globalClassTypes typed_demo = (\<lambda>_. None)"
  "vm_globalNames typed_demo = []" "vm_globalWithEvents typed_demo = (\<lambda>_. False)"
  by (simp_all add: typed_demo_def NewVM_def)


lemma exec_typed_ops:
  "exec h OpSetGlobal vm = exec_SetGlobal h vm" "exec h OpIncGlobalInt vm = exec_count_global True h vm"
  "exec h OpCoerceToValue vm = exec_CoerceToValue h vm"
  by (simp_all add: exec_def exec_control_def exec_slots_def op_defs binary_ops_def fused_jump_ops_def)

lemma bool_plus_one: "\<exists>n. addValues h (NewBool True) (NewInteger 1) = (NewInteger n, None)"
  by (simp add: addValues_def isNumericLike_def isEmpty_def isString_def isNull_def coerceFloatStrict_def num_types_def
      has_point_def Let_def) blast

lemma demo_in_place:
  "\<exists>n. step h typed_demo = Running (put_global (typed_demo\<lparr>vm_ip := 3\<rparr>) 0 (NewInteger n))"
proof -
  obtain n where n: "addValues (host_of h (typed_demo\<lparr>vm_ip := 3\<rparr>)) (NewBool True) (NewInteger 1) = (NewInteger n, None)"
    using bool_plus_one by blast
  have inc: "inc_ref (NewInteger n) vm = vm" for vm
    by (simp add: inc_ref_def incrementObjectRefCount_def)
  have three: "Suc (Suc (Suc 0)) = 3" by simp
  show ?thesis
    by (rule exI[of _ n])
       (simp add: step_def exec_typed_ops exec_count_global_def u16_then_def global_then_def be16_at_def count_value_def
         raised_then_def assign_then_def dec_then_def inc typed_demo_fields three n)
qed

lemma demo_load_store:
  "\<exists>vm. run 5 h (typed_demo\<lparr>vm_ip := 3\<rparr>) = Running vm \<and> VType (vm_Globals vm ! 0) = VTBool"
proof -
  let ?u = "\<lambda>i s st. typed_demo\<lparr>vm_ip := i, vm_sp := s, vm_stack := st\<rparr>"
  let ?st = "vm_stack typed_demo"
  let ?st1 = "?st(0 := NewBool True)" and ?st2 = "?st(0 := NewBool True, 1 := NewInteger 1)"
  note defs = step_def u16_then_def global_then_def const_then_def be16_at_def push_then_def pop_then_def slot_then_def
    StackSize_def in_stack_def put_def typed_demo_fields
  obtain n where n: "addValues (host_of h (typed_demo\<lparr>vm_sp := 1, vm_stack := ?st2, vm_ip := 11\<rparr>)) (NewBool True) (NewInteger 1)
      = (NewInteger n, None)" using bool_plus_one by blast
  have u: "typed_demo\<lparr>vm_ip := 3\<rparr> = ?u 3 (-1) ?st" by (simp add: typed_demo_def NewVM_def)
  have 1: "step h (?u 3 (-1) ?st) = Running (?u 6 0 ?st1)"
    by (simp add: defs exec_simps exec_GetGlobal_def load_global_def with_class_def)
  have 2: "step h (?u 6 0 ?st1) = Running (?u 7 0 ?st1)"
    by (simp add: defs exec_typed_ops exec_CoerceToValue_def)
  have 3: "step h (?u 7 0 ?st1) = Running (?u 10 1 ?st2)"
    by (simp add: defs exec_simps exec_Constant_def)
  have 4: "step h (?u 10 1 ?st2) = Running (?u 11 0 (?st2(0 := NewInteger n)))"
    by (simp add: defs exec_binary_ops binary_ops_def exec_binary_op_def exec_binary_def raised_then_def n)
  have 5: "\<exists>vm. step h (?u 11 0 (?st2(0 := NewInteger n))) = Running vm \<and> VType (vm_Globals vm ! 0) = VTBool"
    by (simp add: defs exec_typed_ops exec_SetGlobal_def declared_global_def coerce_then_def coerceToDeclaredType_def
        store_global_def assign_then_def dec_then_def inc_ref_def put_global_def with_class_def)
  have five: "5 = Suc (Suc (Suc (Suc (Suc 0))))" by simp
  have "run (Suc (Suc (Suc (Suc (Suc 0))))) h (?u 3 (-1) ?st) = step h (?u 11 0 (?st2(0 := NewInteger n)))"
    by (simp only: run.simps 1 2 3 4 outcome.case) (simp split: outcome.split)
  then show ?thesis using 5 by (simp only: five u[symmetric])
qed

text \<open>
  C5. An update in place forgets the declared type. For \<open>b = b + 1\<close> on a global \<open>b\<close> declared as Boolean
  (\<open>tryOptimizeGlobalIncrementAssignment\<close>) the instruction \<open>OpIncGlobalInt\<close> leaves an Integer in the variable, while the
  load, the addition and the store that it replaces leave a Boolean.
\<close>

theorem update_in_place_forgets_type:
  "globals_typed typed_demo \<and> declared_global typed_demo 0 = VTBool
   \<and> (\<exists>vm. step h typed_demo = Running vm \<and> VType (vm_Globals vm ! 0) = VTInteger \<and> \<not> globals_typed vm)
   \<and> (\<exists>vm. run 5 h (typed_demo\<lparr>vm_ip := 3\<rparr>) = Running vm \<and> VType (vm_Globals vm ! 0) = VTBool)"
proof (intro conjI)
  show "globals_typed typed_demo" by (rule typed_demo_ok)
  show "declared_global typed_demo 0 = VTBool" by (simp add: declared_global_def typed_demo_fields)
  obtain n where s: "step h typed_demo = Running (put_global (typed_demo\<lparr>vm_ip := 3\<rparr>) 0 (NewInteger n))"
    using demo_in_place by blast
  let ?vm = "put_global (typed_demo\<lparr>vm_ip := 3\<rparr>) 0 (NewInteger n)"
  have v: "vm_Globals ?vm = [NewInteger n]" "declared_global ?vm 0 = VTBool"
    by (simp_all add: put_global_def declared_global_def typed_demo_fields)
  then have "\<not> globals_typed ?vm" by (simp add: globals_typed_def of_type_def)
  then show "\<exists>vm. step h typed_demo = Running vm \<and> VType (vm_Globals vm ! 0) = VTInteger \<and> \<not> globals_typed vm"
    using s v(1) by (intro exI[of _ ?vm]) simp
  show "\<exists>vm. run 5 h (typed_demo\<lparr>vm_ip := 3\<rparr>) = Running vm \<and> VType (vm_Globals vm ! 0) = VTBool"
    by (rule demo_load_store)
qed

end
