(* ===== verification/CompState.thy ===== *)
theory CompState
  imports Optimizer VBLexer
begin

text \<open>
  The state of the single-pass compiler and its primitives: symbol tables, the token cursor, emission of instructions
  and jumps, constants, declarations and the resolution of names, errors (\<open>axonvm/compiler.go\<close>,
  \<open>compiler_stmt.go\<close>). A compiler function is a state transformer: it ends normally, with a Go panic and the state at
  the panic (\<open>compileInlineEvalExpression\<close> recovers from panics), or without fuel.
\<close>

section \<open>State\<close>

record SymbolTable =
  st_names :: "string list"
  st_lookup :: "string \<Rightarrow> nat option"

record SourceMapEntry =
  sm_MergedLineStart :: int
  sm_OriginalFile :: string
  sm_OriginalLine :: int

record CompiledRecordMemberDecl =
  rm_Name :: string
  rm_Type :: ValueType
  rm_UDTName :: string

record CompiledRecordDecl =
  rd_Name :: string
  rd_Members :: "CompiledRecordMemberDecl list"

record CompiledClassFieldDecl =
  fd_Name :: string
  fd_IsPublic :: bool
  fd_WithEvents :: bool
  fd_Type :: ValueType
  fd_ClassType :: string

record CompiledClassMethodDecl =
  md_Name :: string
  md_IsFunction :: bool
  md_IsPublic :: bool
  md_UserSubConstID :: int

record CompiledClassPropertyDecl =
  pd_Name :: string
  pd_IsPublic :: bool
  pd_GetParamCount :: int
  pd_HasGet :: bool
  pd_HasLet :: bool
  pd_HasSet :: bool

record CompiledClassDecl =
  cd_Name :: string
  cd_Fields :: "CompiledClassFieldDecl list"
  cd_Methods :: "CompiledClassMethodDecl list"
  cd_Properties :: "CompiledClassPropertyDecl list"

text \<open>The fields of \<open>Compiler\<close> that the expression compiler uses, after the code and its constants. Positions that the
  code sets to -1 are \<open>None\<close>; a Go map to \<open>bool\<close> is the set of its true keys.\<close>

record Front = Code +
  cc_lexer :: Lexer
  cc_lexerMode :: LexerMode
  cc_sourceCode :: string
  cc_next :: "Token option"
  cc_tokenIndex :: int
  cc_Globals :: SymbolTable
  cc_locals :: SymbolTable
  cc_declaredGlobals :: "string set"
  cc_implicitGlobals :: "string set"
  cc_declaredLocals :: "string set"
  cc_globalRecordTypes :: "string \<Rightarrow> string option"
  cc_localRecordTypes :: "string \<Rightarrow> string option"
  cc_constGlobals :: "string set"
  cc_constLocals :: "string set"
  cc_staticLocals :: "string \<Rightarrow> nat option"
  cc_constLiteralGlobals :: "string \<Rightarrow> Value option"
  cc_isLocal :: bool
  cc_insideClassMethod :: bool
  cc_optionExplicit :: bool
  cc_sourceName :: string
  cc_sourceMap :: "SourceMapEntry list"
  cc_forwardCallPatches :: "string \<Rightarrow> nat list"
  cc_forwardConstPatches :: "string \<Rightarrow> nat list"
  cc_lastCallTargetName :: string
  cc_lastCallTargetPos :: "nat option"
  cc_lastCallIsGlobal :: bool
  cc_lastCoercePos :: "nat option"
  cc_lastDebugLine :: int
  cc_lastDebugColumn :: int
  cc_prevToken :: "Token option"
  cc_lastToken :: "Token option"
  cc_tempCounter :: nat
  cc_globalZeroArgFuncs :: "string set"
  cc_classDecls :: "CompiledClassDecl list"
  cc_classDeclLookup :: "string \<Rightarrow> nat option"
  cc_recordDecls :: "CompiledRecordDecl list"
  cc_recordDeclLookup :: "string \<Rightarrow> nat option"
  cc_enumTypeLookup :: "string \<Rightarrow> (string \<Rightarrow> Value option) option"
  cc_currentClassName :: string
  cc_currentFunctionName :: string
  cc_dynamicMemberResolution :: bool
  cc_withDepth :: nat
  cc_userGlobalsStart :: nat
  cc_labelMap :: "string \<Rightarrow> nat option"
  cc_forwardLabelPatches :: "string \<Rightarrow> nat list"
  cc_lastEmittedType :: ValueType
  cc_lastEmittedUDTName :: string

section \<open>Compiler functions\<close>

datatype compile_panic = SyntaxPanic VBSyntaxError | TextPanic string | RuntimePanic

datatype 'a parsed = Done 'a Front | Panic compile_panic Front | NoFuel

type_synonym 'a parse = "Front \<Rightarrow> 'a parsed"

definition ret :: "'a \<Rightarrow> 'a parse" where "ret x c = Done x c"

definition panic :: "compile_panic \<Rightarrow> 'a parse" where "panic e c = Panic e c"

definition no_fuel :: "'a parse" where "no_fuel c = NoFuel"

definition bind :: "'a parse \<Rightarrow> ('a \<Rightarrow> 'b parse) \<Rightarrow> 'b parse" where
  "bind m k c = (case m c of Done x c' \<Rightarrow> k x c' | Panic e c' \<Rightarrow> Panic e c' | NoFuel \<Rightarrow> NoFuel)"

definition next_do :: "'a parse \<Rightarrow> 'b parse \<Rightarrow> 'b parse" where
  "next_do m k = bind m (\<lambda>_. k)"

text \<open>A step that depends on the state, and an update of it.\<close>

definition look :: "(Front \<Rightarrow> 'a) \<Rightarrow> ('a \<Rightarrow> 'b parse) \<Rightarrow> 'b parse" where
  "look f k c = k (f c) c"

definition upd :: "(Front \<Rightarrow> Front) \<Rightarrow> unit parse" where
  "upd f c = Done () (f c)"

definition when_do :: "bool \<Rightarrow> unit parse \<Rightarrow> unit parse" where
  "when_do b m = (if b then m else ret ())"

lemmas parse_defs = ret_def panic_def no_fuel_def bind_def next_do_def look_def upd_def when_do_def

section \<open>Symbol tables\<close>

definition NewSymbolTable :: SymbolTable where
  "NewSymbolTable = \<lparr>st_names = [], st_lookup = (\<lambda>_. None)\<rparr>"

definition lower :: "lex_env \<Rightarrow> string \<Rightarrow> string" where "lower E s = to_lower (le_lower E) s"

definition trim_lower :: "lex_env \<Rightarrow> string \<Rightarrow> string" where "trim_lower E s = lower E (trim_space s)"

definition symbol_Add :: "lex_env \<Rightarrow> string \<Rightarrow> SymbolTable \<Rightarrow> nat \<times> SymbolTable" where
  "symbol_Add E name s =
     (case st_lookup s (lower E name) of
        Some idx \<Rightarrow> (idx, s)
      | None \<Rightarrow> (length (st_names s),
          \<lparr>st_names = st_names s @ [name], st_lookup = (st_lookup s)(lower E name \<mapsto> length (st_names s))\<rparr>))"

definition symbol_Get :: "lex_env \<Rightarrow> string \<Rightarrow> SymbolTable \<Rightarrow> nat option" where
  "symbol_Get E name s = st_lookup s (lower E name)"

definition add_global :: "lex_env \<Rightarrow> string \<Rightarrow> nat parse" where
  "add_global E name c = (case symbol_Add E name (cc_Globals c) of (i, s) \<Rightarrow> Done i (c\<lparr>cc_Globals := s\<rparr>))"

definition add_local :: "lex_env \<Rightarrow> string \<Rightarrow> nat parse" where
  "add_local E name c = (case symbol_Add E name (cc_locals c) of (i, s) \<Rightarrow> Done i (c\<lparr>cc_locals := s\<rparr>))"

definition add_constant :: "Value \<Rightarrow> nat parse" where
  "add_constant v c = (case addConstant v c of (i, c') \<Rightarrow> Done i c')"

section \<open>Errors\<close>

text \<open>The position that belongs to an offset, counted in bytes of the source.\<close>

fun line_column_from :: "nat \<Rightarrow> nat \<Rightarrow> int \<Rightarrow> nat \<Rightarrow> string \<Rightarrow> int \<times> nat" where
  "line_column_from offset i line start [] = (line, start)"
| "line_column_from offset i line start (c # cs) =
     (if offset \<le> i then (line, start)
      else if c = CHR 0x0D then
        (case cs of
           d # ds \<Rightarrow> (if i + 1 < offset \<and> d = CHR 0x0A then line_column_from offset (i + 2) (line + 1) (i + 2) ds
                     else line_column_from offset (i + 1) (line + 1) (i + 1) cs)
         | [] \<Rightarrow> (line + 1, i + 1))
      else if c = CHR 0x0A then line_column_from offset (i + 1) (line + 1) (i + 1) cs
      else line_column_from offset (i + 1) line start cs)"

definition lineColumnFromSourceOffset :: "Front \<Rightarrow> nat \<Rightarrow> int \<times> int" where
  "lineColumnFromSourceOffset c offset =
     (let offset = min offset (length (cc_sourceCode c));
          (line, start) = line_column_from offset 0 1 0 (cc_sourceCode c)
      in (line, max (int offset - int start) 0))"

text \<open>\<open>ResolveLine\<close>: the last entry that begins at or before the line; the entries are sorted.\<close>

definition ResolveLine :: "SourceMapEntry list \<Rightarrow> int \<Rightarrow> (string \<times> int) option" where
  "ResolveLine m line =
     (if line \<le> 0 \<or> m = [] then None
      else case takeWhile (\<lambda>e. \<not> line < sm_MergedLineStart e) m of
             [] \<Rightarrow> None
           | es \<Rightarrow>
             (let e = last es; resolved = sm_OriginalLine e + (line - sm_MergedLineStart e)
              in Some (sm_OriginalFile e, if resolved \<le> 0 then sm_OriginalLine e else resolved)))"

definition sourceSlice :: "Front \<Rightarrow> nat \<Rightarrow> nat \<Rightarrow> string" where
  "sourceSlice c start stop =
     (let rs = lx_chars (cc_lexer c); stop = max start stop
      in if length rs \<le> start then [] else of_runes (take (min stop (length rs) - start) (drop start rs)))"

definition tokenSourceText :: "Front \<Rightarrow> Token \<Rightarrow> string" where
  "tokenSourceText c t = sourceSlice c (tk_Start t) (max (tk_End t) (tk_Start t))"

definition lineSourceText :: "Front \<Rightarrow> Token \<Rightarrow> string" where
  "lineSourceText c t =
     (let rs = lx_chars (cc_lexer c)
      in if length rs \<le> tk_LineStart t then []
         else of_runes (takeWhile (\<lambda>r. r \<noteq> 10 \<and> r \<noteq> 13) (drop (tk_LineStart t) rs)))"

definition vbSyntaxErrorAtToken :: "Front \<Rightarrow> VBSyntaxErrorCode \<Rightarrow> Token option \<Rightarrow> VBSyntaxError" where
  "vbSyntaxErrorAtToken c cd t =
     (case t of
        None \<Rightarrow>
          (let e = NewVBSyntaxError cd 0 0 [] [] in if cc_sourceName c \<noteq> [] then WithFile (cc_sourceName c) e else e)
      | Some t \<Rightarrow>
          (let (line, column) = lineColumnFromSourceOffset c (tk_Start t);
               e = NewVBSyntaxError cd line column (tokenSourceText c t) (lineSourceText c t)
           in case ResolveLine (cc_sourceMap c) line of
                Some (file, mapped) \<Rightarrow>
                  (let e = (if file \<noteq> [] then WithFile file e else e) in if 0 < mapped then e\<lparr>er_Line := mapped\<rparr> else e)
              | None \<Rightarrow> (if cc_sourceName c \<noteq> [] then WithFile (cc_sourceName c) e else e)))"

definition vbSyntaxError_next :: "VBSyntaxErrorCode \<Rightarrow> 'a parse" where
  "vbSyntaxError_next cd c = Panic (SyntaxPanic (vbSyntaxErrorAtToken c cd (cc_next c))) c"

definition vbCompileErrorAtToken :: "VBSyntaxErrorCode \<Rightarrow> Token option \<Rightarrow> string \<Rightarrow> 'a parse" where
  "vbCompileErrorAtToken cd t detail c =
     Panic (SyntaxPanic ((WithASPDescription detail (vbSyntaxErrorAtToken c cd t))\<lparr>er_Description := detail\<rparr>)) c"

definition vbCompileError :: "VBSyntaxErrorCode \<Rightarrow> string \<Rightarrow> 'a parse" where
  "vbCompileError cd detail c = vbCompileErrorAtToken cd (cc_next c) detail c"

section \<open>Tokens\<close>

definition move :: "lex_env \<Rightarrow> Token option parse" where
  "move E c =
     (let t = cc_next c; c' = c\<lparr>cc_prevToken := cc_lastToken c, cc_lastToken := t\<rparr>
      in case NextToken E (cc_lexer c) of
           Inl e \<Rightarrow> Panic (SyntaxPanic e) c'
         | Inr (n, l) \<Rightarrow> Done t (c'\<lparr>cc_lexer := l, cc_next := Some n, cc_tokenIndex := cc_tokenIndex c + 1\<rparr>))"

definition new_lexer :: "lex_env \<Rightarrow> string \<Rightarrow> LexerMode \<Rightarrow> Lexer" where
  "new_lexer E src mode = (NewLexer E src)\<lparr>lx_Mode := mode, lx_InASPBlock := (mode \<noteq> ModeASP)\<rparr>"

definition resetTokenStream :: "lex_env \<Rightarrow> unit parse" where
  "resetTokenStream E =
     next_do (upd (\<lambda>c. c\<lparr>cc_lexer := new_lexer E (cc_sourceCode c) (cc_lexerMode c), cc_next := None,
               cc_tokenIndex := -1, cc_lastDebugLine := -1, cc_lastDebugColumn := -1,
               cc_prevToken := None, cc_lastToken := None\<rparr>))
       (next_do (move E) (ret ()))"

definition next_kind :: "Front \<Rightarrow> token_kind option" where
  "next_kind c = map_option tk_kind (cc_next c)"

definition at_punct :: "Punctuation \<Rightarrow> Front \<Rightarrow> bool" where
  "at_punct p c \<longleftrightarrow> next_kind c = Some (PunctuationToken p)"

definition at_keyword :: "Keyword \<Rightarrow> Front \<Rightarrow> bool" where
  "at_keyword k c \<longleftrightarrow> (case next_kind c of Some (KeywordToken k' _) \<Rightarrow> k' = k | _ \<Rightarrow> False)"

definition matchEof :: "Front \<Rightarrow> bool" where
  "matchEof c \<longleftrightarrow> next_kind c = Some EOFToken"

text \<open>The name of a token type as \<open>fmt\<close> prints it for \<open>%T\<close>.\<close>

definition token_type :: "token_kind option \<Rightarrow> string" where
  "token_type k =
     (case k of
        None \<Rightarrow> ''<nil>''
      | Some k \<Rightarrow> ''*vbscript.'' @
        (case k of
           EOFToken \<Rightarrow> ''EOFToken'' | LineTerminationToken \<Rightarrow> ''LineTerminationToken''
         | ColonLineTerminationToken \<Rightarrow> ''ColonLineTerminationToken'' | CommentToken _ _ \<Rightarrow> ''CommentToken''
         | StringLiteralToken _ \<Rightarrow> ''StringLiteralToken'' | DecIntegerLiteralToken _ \<Rightarrow> ''DecIntegerLiteralToken''
         | HexIntegerLiteralToken _ \<Rightarrow> ''HexIntegerLiteralToken'' | OctIntegerLiteralToken _ \<Rightarrow> ''OctIntegerLiteralToken''
         | DateLiteralToken _ \<Rightarrow> ''DateLiteralToken'' | FloatLiteralToken _ \<Rightarrow> ''FloatLiteralToken''
         | TrueLiteralToken \<Rightarrow> ''TrueLiteralToken'' | FalseLiteralToken \<Rightarrow> ''FalseLiteralToken''
         | NullLiteralToken \<Rightarrow> ''NullLiteralToken'' | NothingLiteralToken \<Rightarrow> ''NothingLiteralToken''
         | EmptyLiteralToken \<Rightarrow> ''EmptyLiteralToken'' | IdentifierToken _ \<Rightarrow> ''IdentifierToken''
         | KeywordToken _ _ \<Rightarrow> ''KeywordToken'' | KeywordOrIdentifierToken _ _ \<Rightarrow> ''KeywordOrIdentifierToken''
         | HTMLToken _ \<Rightarrow> ''HTMLToken'' | ASPCodeStartToken _ \<Rightarrow> ''ASPCodeStartToken''
         | ASPExpressionStartToken \<Rightarrow> ''ASPExpressionStartToken'' | ASPDirectiveStartToken \<Rightarrow> ''ASPDirectiveStartToken''
         | ASPCodeEndToken \<Rightarrow> ''ASPCodeEndToken'' | ASPJScriptBlockToken _ _ \<Rightarrow> ''ASPJScriptBlockToken''
         | ASPIncludeToken _ _ \<Rightarrow> ''ASPIncludeToken'' | ASPObjectToken _ _ _ _ \<Rightarrow> ''ASPObjectToken''
         | PunctuationToken _ \<Rightarrow> ''PunctuationToken''))"

definition expectIdentifier :: "lex_env \<Rightarrow> string parse" where
  "expectIdentifier E =
     look next_kind (\<lambda>k. case k of
       Some (IdentifierToken n) \<Rightarrow> next_do (move E) (ret n)
     | Some (KeywordOrIdentifierToken _ n) \<Rightarrow> next_do (move E) (ret n)
     | Some (KeywordToken kw _) \<Rightarrow> next_do (move E) (ret (Keyword_String kw))
     | _ \<Rightarrow> vbCompileError ExpectedIdentifier (''Expected identifier, got '' @ token_type k))"

section \<open>Emission\<close>

definition usesWideJumpOperand :: "OpCode \<Rightarrow> bool" where
  "usesWideJumpOperand op \<longleftrightarrow> op \<in> set [OpJump, OpJumpIfFalse, OpJumpIfTrue, OpGotoLabel,
     OpJSJump, OpJSJumpIfFalse, OpJSJumpIfTrue, OpJSTryEnter, OpJSBreak, OpJSContinue, OpJSForInCleanup, OpJSForOfCleanup,
     OpJSJumpIfNullish, OpJSJumpIfNotNullish, OpJSJumpIfNotUndefined,
     OpJumpIfNotEq, OpJumpIfEq, OpJumpIfNotLt, OpJumpIfLte, OpJumpIfNotIs,
     OpJSJumpIfLooseNotEq, OpJSJumpIfLooseEq, OpJSJumpIfStrictNotEq, OpJSJumpIfStrictEq, OpJSJumpIfNotLess,
     OpJSJumpIfLessEqual]"

text \<open>Two and four bytes, most significant first; the conversions keep the low bits.\<close>

definition be16 :: "nat \<Rightarrow> bytes" where
  "be16 n = [word_of_nat (n div 256), word_of_nat n]"

definition be32 :: "nat \<Rightarrow> bytes" where
  "be32 n = [word_of_nat (n div 16777216), word_of_nat (n div 65536), word_of_nat (n div 256), word_of_nat n]"

definition append_code :: "bytes \<Rightarrow> unit parse" where
  "append_code bs = upd (\<lambda>c. c\<lparr>c_bytecode := c_bytecode c @ bs\<rparr>)"

primrec emit_operands :: "bool \<Rightarrow> nat list \<Rightarrow> unit parse" where
  "emit_operands wide [] = ret ()"
| "emit_operands wide (n # ns) =
     (if wide \<and> 2 ^ 32 \<le> n then panic (TextPanic ''Bytecode exceeds 32-bit jump target limit'')
      else next_do (append_code (if wide then be32 n else be16 n)) (emit_operands wide ns))"

definition emit :: "OpCode \<Rightarrow> nat list \<Rightarrow> nat parse" where
  "emit op operands =
     look (\<lambda>c. length (c_bytecode c)) (\<lambda>pos.
       next_do (upd (\<lambda>c. c\<lparr>c_bytecode := c_bytecode c @ [op],
                           cc_lastCoercePos := (if op = OpCoerceToValue then Some pos else None)\<rparr>))
         (next_do (emit_operands (usesWideJumpOperand op) operands)
           (next_do (when_do (op = OpCallMember) (append_code [0, 0, 0, 0])) (ret pos))))"

primrec emit_ext_operands :: "nat list \<Rightarrow> unit parse" where
  "emit_ext_operands [] = ret ()"
| "emit_ext_operands (n # ns) =
     (if 2 ^ 16 \<le> n then panic (TextPanic ''Extended opcode operand exceeds 16-bit range'')
      else next_do (append_code (be16 n)) (emit_ext_operands ns))"

definition emitExt :: "ExtOpCode \<Rightarrow> nat list \<Rightarrow> nat parse" where
  "emitExt op operands =
     look (\<lambda>c. length (c_bytecode c)) (\<lambda>pos.
       next_do (upd (\<lambda>c. c\<lparr>c_bytecode := c_bytecode c @ [OpExtPrefix, op], cc_lastCoercePos := None\<rparr>))
         (next_do (emit_ext_operands operands) (ret pos)))"

definition do_emit :: "OpCode \<Rightarrow> nat list \<Rightarrow> unit parse" where
  "do_emit op operands = next_do (emit op operands) (ret ())"

definition emitJump :: "OpCode \<Rightarrow> nat parse" where
  "emitJump op = next_do (emit op [0]) (look (\<lambda>c. length (c_bytecode c) - 4) ret)"

definition patchJumpTo :: "nat \<Rightarrow> nat \<Rightarrow> unit parse" where
  "patchJumpTo pos target c =
     (if pos = 0 \<or> length (c_bytecode c) < pos then Panic (TextPanic ''Invalid jump patch offset'') c
      else case (if usesWideJumpOperand (c_bytecode c ! (pos - 1)) then put_be32 (c_bytecode c) pos target
                 else put_be16 (c_bytecode c) pos target) of
             None \<Rightarrow> Panic RuntimePanic c
           | Some bs \<Rightarrow> Done () (c\<lparr>c_bytecode := bs\<rparr>))"

definition patchJump :: "nat \<Rightarrow> unit parse" where
  "patchJump pos = look (\<lambda>c. length (c_bytecode c)) (\<lambda>n. patchJumpTo pos n)"

definition emit_constant :: "Value \<Rightarrow> unit parse" where
  "emit_constant v = bind (add_constant v) (\<lambda>i. do_emit OpConstant [i])"

definition emitLine :: "int \<Rightarrow> int \<Rightarrow> unit parse" where
  "emitLine line column = do_emit OpLine [nat line, nat column]"

definition emitCurrentDebugLocation :: "unit parse" where
  "emitCurrentDebugLocation =
     look (\<lambda>c. (cc_next c, cc_lastDebugLine c, cc_lastDebugColumn c)) (\<lambda>(t, line0, column0).
       case t of
         None \<Rightarrow> ret ()
       | Some t \<Rightarrow>
         (let line = tk_LineNumber t; column = max (int (tk_Start t) - int (tk_LineStart t)) 0 + 1
          in if line = line0 \<and> column = column0 then ret ()
             else next_do (emitLine line column)
                    (upd (\<lambda>c. c\<lparr>cc_lastDebugLine := line, cc_lastDebugColumn := column\<rparr>))))"

section \<open>Call targets and forward references\<close>

definition clearLastCallTarget :: "unit parse" where
  "clearLastCallTarget =
     upd (\<lambda>c. c\<lparr>cc_lastCallTargetName := [], cc_lastCallTargetPos := None, cc_lastCallIsGlobal := False\<rparr>)"

definition markLastCallTarget :: "lex_env \<Rightarrow> string \<Rightarrow> OpCode \<Rightarrow> nat \<Rightarrow> unit parse" where
  "markLastCallTarget E name op pos =
     upd (\<lambda>c. c\<lparr>cc_lastCallTargetName := trim_lower E name, cc_lastCallTargetPos := Some pos,
               cc_lastCallIsGlobal := (op = OpGetGlobal)\<rparr>)"

definition registerForwardCallPatch :: "lex_env \<Rightarrow> string \<Rightarrow> nat option \<Rightarrow> unit parse" where
  "registerForwardCallPatch E name pos =
     (let n = trim_lower E name in
      case pos of
        Some p \<Rightarrow> when_do (n \<noteq> []) (upd (\<lambda>c. c\<lparr>cc_forwardCallPatches :=
                    (cc_forwardCallPatches c)(n := cc_forwardCallPatches c n @ [p])\<rparr>))
      | None \<Rightarrow> ret ())"

definition registerForwardConstPatch :: "lex_env \<Rightarrow> string \<Rightarrow> nat \<Rightarrow> unit parse" where
  "registerForwardConstPatch E name p =
     (let n = trim_lower E name in
      when_do (n \<noteq> []) (upd (\<lambda>c. c\<lparr>cc_forwardConstPatches :=
        (cc_forwardConstPatches c)(n := cc_forwardConstPatches c n @ [p])\<rparr>)))"

text \<open>A load of a global at one of the recorded positions becomes a load of a constant; other code is left.\<close>

definition patch_site :: "nat \<Rightarrow> bytes \<Rightarrow> nat \<Rightarrow> bytes" where
  "patch_site idx bs p =
     (if length bs \<le> p + 2 \<or> bs ! p \<noteq> OpGetGlobal then bs
      else bs[p := OpConstant, p + 1 := word_of_nat (idx div 256), p + 2 := word_of_nat idx])"

definition patchForwardCallSites :: "lex_env \<Rightarrow> string \<Rightarrow> nat \<Rightarrow> unit parse" where
  "patchForwardCallSites E name idx =
     (let n = trim_lower E name in
      upd (\<lambda>c. c\<lparr>c_bytecode := foldl (patch_site idx) (c_bytecode c) (cc_forwardCallPatches c n),
                cc_forwardCallPatches := (cc_forwardCallPatches c)(n := [])\<rparr>))"

definition patchForwardConstSites :: "lex_env \<Rightarrow> string \<Rightarrow> Value \<Rightarrow> unit parse" where
  "patchForwardConstSites E name v =
     (let n = trim_lower E name in
      look (\<lambda>c. cc_forwardConstPatches c n) (\<lambda>ps.
        if ps = [] then ret ()
        else bind (add_constant v) (\<lambda>idx.
          upd (\<lambda>c. c\<lparr>c_bytecode := foldl (patch_site idx) (c_bytecode c) ps,
                    cc_forwardConstPatches := (cc_forwardConstPatches c)(n := [])\<rparr>))))"

section \<open>Declarations\<close>

definition declareVar :: "lex_env \<Rightarrow> string \<Rightarrow> unit parse" where
  "declareVar E name =
     look cc_isLocal (\<lambda>local.
       if local then next_do (add_local E name)
              (upd (\<lambda>c. c\<lparr>cc_declaredLocals := insert (lower E name) (cc_declaredLocals c)\<rparr>))
       else next_do (add_global E name)
              (upd (\<lambda>c. c\<lparr>cc_declaredGlobals := insert (lower E name) (cc_declaredGlobals c),
                        cc_implicitGlobals := cc_implicitGlobals c - {lower E name}\<rparr>)))"

definition declareConst :: "lex_env \<Rightarrow> string \<Rightarrow> unit parse" where
  "declareConst E name =
     next_do (declareVar E name)
       (upd (\<lambda>c. if cc_isLocal c then c\<lparr>cc_constLocals := insert (lower E name) (cc_constLocals c)\<rparr>
                 else c\<lparr>cc_constGlobals := insert (lower E name) (cc_constGlobals c)\<rparr>))"

definition class_decl :: "lex_env \<Rightarrow> Front \<Rightarrow> string \<Rightarrow> CompiledClassDecl option" where
  "class_decl E c cls =
     (case cc_classDeclLookup c (trim_lower E cls) of
        Some i \<Rightarrow> get_at (cc_classDecls c) i | None \<Rightarrow> None)"

definition getClassFieldDeclaration :: "lex_env \<Rightarrow> Front \<Rightarrow> string \<Rightarrow> string \<Rightarrow> CompiledClassFieldDecl option" where
  "getClassFieldDeclaration E c cls name =
     (case class_decl E c cls of
        Some d \<Rightarrow> find (\<lambda>f. equal_fold (fd_Name f) (trim_space name)) (cd_Fields d) | None \<Rightarrow> None)"

definition hasClassFieldDeclaration :: "lex_env \<Rightarrow> Front \<Rightarrow> string \<Rightarrow> string \<Rightarrow> bool" where
  "hasClassFieldDeclaration E c cls name \<longleftrightarrow> getClassFieldDeclaration E c cls name \<noteq> None"

definition hasClassMethodDeclaration :: "lex_env \<Rightarrow> Front \<Rightarrow> string \<Rightarrow> string \<Rightarrow> bool" where
  "hasClassMethodDeclaration E c cls name \<longleftrightarrow>
     (case class_decl E c cls of
        Some d \<Rightarrow> list_ex (\<lambda>m. equal_fold (md_Name m) (trim_space name)) (cd_Methods d) | None \<Rightarrow> False)"

definition getClassPropertyDeclaration :: "lex_env \<Rightarrow> Front \<Rightarrow> string \<Rightarrow> string \<Rightarrow> CompiledClassPropertyDecl option" where
  "getClassPropertyDeclaration E c cls name =
     (case class_decl E c cls of
        Some d \<Rightarrow> find (\<lambda>p. equal_fold (pd_Name p) (trim_lower E name)) (cd_Properties d) | None \<Rightarrow> None)"

definition hasClassPropertyDeclaration :: "lex_env \<Rightarrow> Front \<Rightarrow> string \<Rightarrow> string \<Rightarrow> bool" where
  "hasClassPropertyDeclaration E c cls name \<longleftrightarrow>
     (case class_decl E c cls of
        Some d \<Rightarrow> list_ex (\<lambda>p. equal_fold (pd_Name p) (trim_space name)) (cd_Properties d) | None \<Rightarrow> False)"

definition hasClassZeroArgPropertyGetDeclaration :: "lex_env \<Rightarrow> Front \<Rightarrow> string \<Rightarrow> string \<Rightarrow> bool" where
  "hasClassZeroArgPropertyGetDeclaration E c cls name \<longleftrightarrow>
     (case getClassPropertyDeclaration E c cls name of
        Some p \<Rightarrow> pd_HasGet p \<and> pd_GetParamCount p = 0 | None \<Rightarrow> False)"

section \<open>Resolution of names\<close>

definition undefined_variable :: "string \<Rightarrow> 'a parse" where
  "undefined_variable name =
     vbCompileError VariableNotDefined (''Variable not defined: '' @ [CHR 0x27] @ name @ [CHR 0x27])"

definition illegal_assignment :: "string \<Rightarrow> 'a parse" where
  "illegal_assignment name =
     vbCompileError IllegalAssignment (''illegal assignment: '' @ [CHR 0x27] @ name @ [CHR 0x27])"

text \<open>Whether names of the members of the current class are looked up.\<close>

definition in_class_scope :: "Front \<Rightarrow> bool" where
  "in_class_scope c \<longleftrightarrow> cc_currentClassName c \<noteq> [] \<and> (cc_isLocal c \<or> cc_dynamicMemberResolution c)"

definition isTrueGlobal :: "lex_env \<Rightarrow> Front \<Rightarrow> string \<Rightarrow> nat \<Rightarrow> bool" where
  "isTrueGlobal E c name idx \<longleftrightarrow>
     idx < cc_userGlobalsStart c \<or> lower E name \<in> cc_declaredGlobals c \<or> lower E name \<in> cc_constGlobals c
     \<or> lower E name \<in> cc_implicitGlobals c"

definition implicit_global :: "lex_env \<Rightarrow> string \<Rightarrow> OpCode \<Rightarrow> (OpCode \<times> nat) parse" where
  "implicit_global E name op =
     bind (add_global E name) (\<lambda>idx.
       next_do (upd (\<lambda>c. c\<lparr>cc_implicitGlobals := insert (lower E name) (cc_implicitGlobals c)\<rparr>)) (ret (op, idx)))"

text \<open>A slot that exists, static variables first.\<close>

definition local_slot :: "lex_env \<Rightarrow> string \<Rightarrow> OpCode \<Rightarrow> OpCode \<Rightarrow> Front \<Rightarrow> (OpCode \<times> nat) option" where
  "local_slot E name global_op local_op c =
     (if \<not> cc_isLocal c then None
      else case cc_staticLocals c (lower E name) of
             Some g \<Rightarrow> Some (global_op, g)
           | None \<Rightarrow> map_option (Pair local_op) (symbol_Get E name (cc_locals c)))"

definition resolve_global :: "lex_env \<Rightarrow> string \<Rightarrow> (OpCode \<times> nat) parse" where
  "resolve_global E name =
     look (\<lambda>c. c) (\<lambda>c.
       case symbol_Get E name (cc_Globals c) of
         Some idx \<Rightarrow>
           (if cc_isLocal c \<and> \<not> isTrueGlobal E c name idx then
              (if cc_optionExplicit c \<and> \<not> cc_insideClassMethod c then undefined_variable name
               else bind (add_local E name) (\<lambda>i. ret (OpGetLocal, i)))
            else if cc_optionExplicit c \<and> cc_userGlobalsStart c \<le> idx \<and> lower E name \<notin> cc_declaredGlobals c
              \<and> lower E name \<notin> cc_implicitGlobals c then undefined_variable name
            else ret (OpGetGlobal, idx))
       | None \<Rightarrow>
           (if cc_optionExplicit c then implicit_global E name OpGetGlobal
            else if cc_isLocal c then
              (if cc_currentClassName c \<noteq> [] then implicit_global E name OpGetGlobal
               else bind (add_local E name) (\<lambda>i. ret (OpGetLocal, i)))
            else implicit_global E name OpGetGlobal))"

definition resolveVar :: "lex_env \<Rightarrow> string \<Rightarrow> (OpCode \<times> nat) parse" where
  "resolveVar E name =
     look (\<lambda>c. c) (\<lambda>c.
       case local_slot E name OpGetGlobal OpGetLocal c of
         Some r \<Rightarrow> ret r
       | None \<Rightarrow>
         (if in_class_scope c \<and>
             (hasClassFieldDeclaration E c (cc_currentClassName c) name
              \<or> hasClassMethodDeclaration E c (cc_currentClassName c) name
              \<or> hasClassZeroArgPropertyGetDeclaration E c (cc_currentClassName c) name)
          then bind (add_constant (NewString name)) (\<lambda>i. ret (OpGetClassMember, i))
          else case (if lower E name \<in> cc_constGlobals c then cc_constLiteralGlobals c (lower E name) else None) of
                 Some v \<Rightarrow> bind (add_constant v) (\<lambda>i. ret (OpConstant, i))
               | None \<Rightarrow> resolve_global E name))"

definition resolveSetVar :: "lex_env \<Rightarrow> string \<Rightarrow> (OpCode \<times> nat) parse" where
  "resolveSetVar E name =
     look (\<lambda>c. c) (\<lambda>c.
       case local_slot E name OpSetGlobal OpSetLocal c of
         Some (op, i) \<Rightarrow>
           (if op = OpSetLocal \<and> lower E name \<in> cc_constLocals c then illegal_assignment name else ret (op, i))
       | None \<Rightarrow>
         (if in_class_scope c \<and>
             (hasClassFieldDeclaration E c (cc_currentClassName c) name
              \<or> hasClassPropertyDeclaration E c (cc_currentClassName c) name)
          then bind (add_constant (NewString name)) (\<lambda>i. ret (OpSetClassMember, i))
          else if lower E name \<in> cc_constGlobals c then illegal_assignment name
          else if cc_isLocal c then
            (case symbol_Get E name (cc_Globals c) of
               Some g \<Rightarrow> if isTrueGlobal E c name g then ret (OpSetGlobal, g)
                         else if cc_optionExplicit c \<and> \<not> cc_insideClassMethod c then undefined_variable name
                         else bind (add_local E name) (\<lambda>i. ret (OpSetLocal, i))
             | None \<Rightarrow> if cc_optionExplicit c \<and> \<not> cc_insideClassMethod c then undefined_variable name
                       else bind (add_local E name) (\<lambda>i. ret (OpSetLocal, i)))
          else if cc_optionExplicit c \<and> lower E name \<notin> cc_declaredGlobals c \<and> lower E name \<notin> cc_implicitGlobals c
          then undefined_variable name
          else implicit_global E name OpSetGlobal))"

definition resolveEraseVar :: "lex_env \<Rightarrow> string \<Rightarrow> (OpCode \<times> nat) parse" where
  "resolveEraseVar E name =
     look (\<lambda>c. c) (\<lambda>c.
       case (if cc_isLocal c then symbol_Get E name (cc_locals c) else None) of
         Some i \<Rightarrow> ret (OpEraseLocal, i)
       | None \<Rightarrow>
         (if in_class_scope c \<and> hasClassFieldDeclaration E c (cc_currentClassName c) name
          then bind (add_constant (NewString name)) (\<lambda>i. ret (OpEraseClassMember, i))
          else case symbol_Get E name (cc_Globals c) of
                 Some i \<Rightarrow> ret (OpEraseGlobal, i) | None \<Rightarrow> undefined_variable name))"

definition resolveConstInitVar :: "lex_env \<Rightarrow> string \<Rightarrow> (OpCode \<times> nat) parse" where
  "resolveConstInitVar E name =
     look (\<lambda>c. c) (\<lambda>c.
       case (if cc_isLocal c then symbol_Get E name (cc_locals c) else None) of
         Some i \<Rightarrow> ret (OpSetLocal, i)
       | None \<Rightarrow>
         (if in_class_scope c \<and> hasClassFieldDeclaration E c (cc_currentClassName c) name
          then bind (add_constant (NewString name)) (\<lambda>i. ret (OpSetClassMember, i))
          else bind (add_global E name) (\<lambda>i. ret (OpSetGlobal, i))))"

definition emit_var :: "(OpCode \<times> nat) parse \<Rightarrow> unit parse" where
  "emit_var r = bind r (\<lambda>(op, i). do_emit op [i])"

definition emitSetForName :: "lex_env \<Rightarrow> string \<Rightarrow> unit parse" where
  "emitSetForName E name = emit_var (resolveSetVar E name)"

definition emitBuiltinTarget :: "lex_env \<Rightarrow> string \<Rightarrow> unit parse" where
  "emitBuiltinTarget E name = emit_var (resolveVar E name)"

definition newCompilerTempName :: "string \<Rightarrow> string parse" where
  "newCompilerTempName tag =
     next_do (upd (\<lambda>c. c\<lparr>cc_tempCounter := cc_tempCounter c + 1\<rparr>))
       (look cc_tempCounter (\<lambda>n. ret (''__axon_'' @ tag @ ''_'' @ nat_digits n)))"

text \<open>The value of a Const whose expression is one literal or one constant.\<close>

definition constGlobalValueByIndex :: "lex_env \<Rightarrow> Front \<Rightarrow> nat \<Rightarrow> Value option" where
  "constGlobalValueByIndex E c idx =
     (case get_at (st_names (cc_Globals c)) idx of
        None \<Rightarrow> None
      | Some g \<Rightarrow> (if trim_lower E g = [] then None else cc_constLiteralGlobals c (trim_lower E g)))"

definition simple_value :: "lex_env \<Rightarrow> Front \<Rightarrow> OpCode \<Rightarrow> nat \<Rightarrow> Value option" where
  "simple_value E c op idx =
     (if op = OpConstant then get_at (c_constants c) idx
      else if op = OpGetGlobal then constGlobalValueByIndex E c idx
      else None)"

definition tryCaptureGlobalConstLiteral :: "lex_env \<Rightarrow> string \<Rightarrow> nat \<Rightarrow> nat \<Rightarrow> unit parse" where
  "tryCaptureGlobalConstLiteral E name start stop =
     look (\<lambda>c. c) (\<lambda>c.
       let bs = take (stop - start) (drop start (c_bytecode c)) in
       if cc_isLocal c \<or> cc_currentClassName c \<noteq> [] \<or> stop \<le> start \<or> length (c_bytecode c) < stop
          \<or> length bs < 3 \<or> trim_lower E name = [] then ret ()
       else if length bs = 3 \<or> length bs = 4 \<and> bs ! 3 = OpCoerceToValue then
         (case Option.bind (be16_at bs 1) (simple_value E c (bs ! 0)) of
            Some v \<Rightarrow> upd (\<lambda>c. c\<lparr>cc_constLiteralGlobals := (cc_constLiteralGlobals c)(trim_lower E name \<mapsto> v)\<rparr>)
          | None \<Rightarrow> ret ())
       else ret ())"

section \<open>Record types\<close>

definition updateLastEmittedType :: "ValueType \<Rightarrow> string \<Rightarrow> unit parse" where
  "updateLastEmittedType t udt = upd (\<lambda>c. c\<lparr>cc_lastEmittedType := t, cc_lastEmittedUDTName := udt\<rparr>)"

fun member_index :: "string \<Rightarrow> nat \<Rightarrow> CompiledRecordMemberDecl list \<Rightarrow> (nat \<times> ValueType \<times> string) option" where
  "member_index name i [] = None"
| "member_index name i (m # ms) =
     (if equal_fold (rm_Name m) name then Some (i, rm_Type m, rm_UDTName m) else member_index name (i + 1) ms)"

text \<open>\<open>recordDecls[udtIdx]\<close> is in range whenever the lookup has an entry.\<close>

definition getUDTMemberIndex :: "lex_env \<Rightarrow> Front \<Rightarrow> string \<Rightarrow> string \<Rightarrow> (nat \<times> ValueType \<times> string) option" where
  "getUDTMemberIndex E c udt member =
     (case cc_recordDeclLookup c (lower E udt) of
        None \<Rightarrow> None
      | Some i \<Rightarrow> Option.bind (get_at (cc_recordDecls c) i) (\<lambda>d. member_index member 0 (rd_Members d)))"

definition lastEmittedUDTNameFromOp :: "lex_env \<Rightarrow> Front \<Rightarrow> string option" where
  "lastEmittedUDTNameFromOp E c =
     (let bs = c_bytecode c; n = length bs in
      case be16_at bs (n - 2) of
        None \<Rightarrow> None
      | Some idx \<Rightarrow>
        if n < 3 then None
        else if bs ! (n - 3) = OpGetGlobal then
          Option.bind (get_at (st_names (cc_Globals c)) idx) (\<lambda>g. cc_globalRecordTypes c (lower E g))
        else if bs ! (n - 3) = OpGetLocal then
          Option.bind (get_at (st_names (cc_locals c)) idx) (\<lambda>l. cc_localRecordTypes c (lower E l))
        else if bs ! (n - 3) = OpGetClassMember then
          Option.bind (get_at (c_constants c) idx) (\<lambda>v.
            if cc_currentClassName c = [] then None
            else case getClassFieldDeclaration E c (cc_currentClassName c) (lower E (VStr v)) of
                   Some f \<Rightarrow> (if fd_Type f = VTRecord then Some (fd_ClassType f) else None)
                 | None \<Rightarrow> None)
        else None)"

end
