(* ===== verification/CompExpr.thy ===== *)
theory CompExpr
  imports CompState
begin

text \<open>
  The expression compiler (\<open>axonvm/compiler_expr.go\<close>): a Pratt parser that emits code as it reads tokens, one
  definition per rule of the prefix and infix tables. The parser of the operands is the argument \<open>pe\<close> of the rules;
  \<open>parseExpression\<close> ties the knot with fuel, which also bounds the loops over operators and arguments. The tokens
  of type \<open>ExtendedIdentifierToken\<close> are left out: the lexer makes none.
\<close>

section \<open>Precedences\<close>

type_synonym Precedence = nat

definition PrecNone :: Precedence where "PrecNone = 0"
definition PrecAssignment :: Precedence where "PrecAssignment = 1"
definition PrecEqv :: Precedence where "PrecEqv = 2"
definition PrecImp :: Precedence where "PrecImp = 3"
definition PrecXor :: Precedence where "PrecXor = 4"
definition PrecOr :: Precedence where "PrecOr = 5"
definition PrecAnd :: Precedence where "PrecAnd = 6"
definition PrecNot :: Precedence where "PrecNot = 7"
definition PrecEquality :: Precedence where "PrecEquality = 8"
definition PrecShift :: Precedence where "PrecShift = 9"
definition PrecConcat :: Precedence where "PrecConcat = 10"
definition PrecTerm :: Precedence where "PrecTerm = 11"
definition PrecFactor :: Precedence where "PrecFactor = 12"
definition PrecUnary :: Precedence where "PrecUnary = 13"
definition PrecExp :: Precedence where "PrecExp = 14"
definition PrecCall :: Precedence where "PrecCall = 15"

lemmas prec_defs = PrecNone_def PrecAssignment_def PrecEqv_def PrecImp_def PrecXor_def PrecOr_def PrecAnd_def
  PrecNot_def PrecEquality_def PrecShift_def PrecConcat_def PrecTerm_def PrecFactor_def PrecUnary_def PrecExp_def
  PrecCall_def

definition punct_precedence :: "Punctuation \<Rightarrow> Precedence" where
  "punct_precedence p =
     (case p of
        PunctDot \<Rightarrow> PrecCall | PunctLParen \<Rightarrow> PrecCall | PunctExp \<Rightarrow> PrecExp | PunctAmp \<Rightarrow> PrecConcat
      | PunctPlus \<Rightarrow> PrecTerm | PunctMinus \<Rightarrow> PrecTerm
      | PunctStar \<Rightarrow> PrecFactor | PunctSlash \<Rightarrow> PrecFactor | PunctBackslash \<Rightarrow> PrecFactor
      | PunctEqual \<Rightarrow> PrecEquality | PunctNotEqual \<Rightarrow> PrecEquality | PunctLess \<Rightarrow> PrecEquality
      | PunctGreater \<Rightarrow> PrecEquality | PunctLessOrEqual \<Rightarrow> PrecEquality | PunctGreaterOrEqual \<Rightarrow> PrecEquality
      | PunctShiftLeft \<Rightarrow> PrecShift | PunctShiftRight \<Rightarrow> PrecShift | _ \<Rightarrow> PrecNone)"

definition keyword_precedence :: "Keyword \<Rightarrow> Precedence" where
  "keyword_precedence k =
     (if k = KeywordEqv then PrecEqv
      else if k = KeywordImp then PrecImp
      else if k = KeywordXor then PrecXor
      else if k = KeywordAnd \<or> k = KeywordAndAlso then PrecAnd
      else if k = KeywordOr \<or> k = KeywordOrElse then PrecOr
      else if k = KeywordNot then PrecNot
      else if k = KeywordMod then PrecFactor
      else if k = KeywordIs \<or> k = KeywordIsNot then PrecEquality
      else PrecNone)"

definition getPrecedence :: "token_kind option \<Rightarrow> Precedence" where
  "getPrecedence k =
     (case k of
        Some (PunctuationToken p) \<Rightarrow> punct_precedence p
      | Some (KeywordToken kw _) \<Rightarrow> keyword_precedence kw
      | _ \<Rightarrow> PrecNone)"

section \<open>Identifiers\<close>

definition emitTrailingCoerceIfValueContext :: "unit parse" where
  "emitTrailingCoerceIfValueContext =
     look (\<lambda>c. at_punct PunctDot c \<or> at_punct PunctLParen c \<or> at_keyword KeywordIs c \<or> at_keyword KeywordIsNot c)
       (\<lambda>suppress. when_do (\<not> suppress) (do_emit OpCoerceToValue []))"

definition undoTrailingCoerce :: "unit parse" where
  "undoTrailingCoerce =
     upd (\<lambda>c. if cc_lastCoercePos c \<noteq> None \<and> cc_lastCoercePos c = Some (length (c_bytecode c) - 1) \<and> c_bytecode c \<noteq> []
              then c\<lparr>c_bytecode := butlast (c_bytecode c), cc_lastCoercePos := None\<rparr> else c)"

definition isGlobalZeroArgFunctionSlot :: "lex_env \<Rightarrow> Front \<Rightarrow> nat \<Rightarrow> bool" where
  "isGlobalZeroArgFunctionSlot E c idx \<longleftrightarrow>
     (case get_at (st_names (cc_Globals c)) idx of
        None \<Rightarrow> False | Some g \<Rightarrow> trim_lower E g \<noteq> [] \<and> trim_lower E g \<in> cc_globalZeroArgFuncs c)"

text \<open>\<open>FreeFile\<close>, with or without empty parentheses.\<close>

definition emit_FreeFile :: "lex_env \<Rightarrow> unit parse" where
  "emit_FreeFile E =
     next_do
       (look (at_punct PunctLParen) (\<lambda>b. when_do b
         (next_do (move E) (look (at_punct PunctRParen) (\<lambda>b.
           if b then next_do (move E) (ret ())
           else vbCompileError ExpectedRParen
                  (''Expected '' @ [CHR 0x27] @ '')'' @ [CHR 0x27] @ '' after '' @ [CHR 0x27] @ ''FreeFile'' @ [CHR 0x27]))))))
       (next_do (emitExt ExtOpFileFreeFile []) (ret ()))"

text \<open>An undeclared name of a page reads \<open>Session.StaticObjects\<close>, then \<open>Application.StaticObjects\<close>. \<open>True\<close>: the
  code has been emitted.\<close>

definition emit_static_object :: "lex_env \<Rightarrow> string \<Rightarrow> OpCode \<times> nat \<Rightarrow> OpCode \<times> nat \<Rightarrow> bool parse" where
  "emit_static_object E name get_var set_var =
     bind (add_constant (NewString name)) (\<lambda>nameConst.
     bind (add_constant (NewString ''StaticObjects'')) (\<lambda>staticConst.
     bind (add_constant (NewString ''Item'')) (\<lambda>itemConst.
     bind (newCompilerTempName ''staticobj'') (\<lambda>tmp.
     next_do (declareVar E tmp)
    (next_do (emitBuiltinTarget E ''IsEmpty'')
    (next_do (do_emit (fst get_var) [snd get_var])
    (next_do (do_emit OpCall [1])
    (bind (emitJump OpJumpIfFalse) (\<lambda>useCurrent.
     next_do (emit_var (resolveVar E ''Session''))
    (next_do (do_emit OpCallMember [staticConst, 0])
    (next_do (do_emit OpConstant [nameConst])
    (next_do (do_emit OpCallMember [itemConst, 1])
    (next_do (emitSetForName E tmp)
    (next_do (emitBuiltinTarget E ''IsObject'')
    (next_do (emit_var (resolveVar E tmp))
    (next_do (do_emit OpCall [1])
    (bind (emitJump OpJumpIfFalse) (\<lambda>useApplication.
     next_do (emit_var (resolveVar E tmp))
    (next_do (do_emit (fst set_var) [snd set_var])
    (bind (emitJump OpJump) (\<lambda>stop.
     next_do (patchJump useApplication)
    (next_do (emit_var (resolveVar E ''Application''))
    (next_do (do_emit OpConstant [nameConst])
    (next_do (do_emit OpCallMember [staticConst, 1])
    (next_do (do_emit (fst set_var) [snd set_var])
    (next_do (patchJump stop)
    (next_do (patchJump useCurrent)
    (next_do (do_emit (fst get_var) [snd get_var])
    (next_do clearLastCallTarget (ret True))))))))))))))))))))))))))))))"

definition emitStaticObjectIdentifierFallback :: "lex_env \<Rightarrow> string \<Rightarrow> bool parse" where
  "emitStaticObjectIdentifierFallback E name =
     look (\<lambda>c. cc_isLocal c \<or> cc_lexerMode c \<noteq> ModeASP \<or> cc_optionExplicit c \<or> trim_space name = []
              \<or> symbol_Get E name (cc_Globals c) \<noteq> None \<or> trim_lower E name \<in> cc_constGlobals c)
       (\<lambda>skip.
         if skip then ret False
         else bind (resolveVar E name) (\<lambda>get_var. bind (resolveSetVar E name) (\<lambda>set_var.
           if fst get_var \<noteq> OpGetGlobal \<or> fst set_var \<noteq> OpSetGlobal then ret False
           else emit_static_object E name get_var set_var)))"

text \<open>The load of a global that may turn out to be a constant or a procedure declared later.\<close>

definition mark_load :: "lex_env \<Rightarrow> string \<Rightarrow> OpCode \<Rightarrow> nat \<Rightarrow> unit parse" where
  "mark_load E name op pos =
     next_do (markLastCallTarget E name op pos)
       (look (\<lambda>c. op = OpGetGlobal \<and> trim_lower E name \<notin> cc_constGlobals c)
         (\<lambda>b. when_do b (registerForwardConstPatch E name pos)))"

definition record_type :: "lex_env \<Rightarrow> string \<Rightarrow> OpCode \<Rightarrow> Front \<Rightarrow> string option" where
  "record_type E name op c =
     (if op = OpGetGlobal then cc_globalRecordTypes c (lower E name)
      else if op = OpGetLocal then cc_localRecordTypes c (lower E name)
      else if op = OpGetClassMember \<and> cc_currentClassName c \<noteq> [] then
        (case getClassFieldDeclaration E c (cc_currentClassName c) name of
           Some f \<Rightarrow> (if fd_Type f = VTRecord then Some (fd_ClassType f) else None) | None \<Rightarrow> None)
      else None)"

definition emit_resolved :: "lex_env \<Rightarrow> string \<Rightarrow> unit parse" where
  "emit_resolved E name =
     bind (resolveVar E name) (\<lambda>(op, idx).
     bind (emit op [idx]) (\<lambda>pos.
     next_do (mark_load E name op pos)
    (next_do (look (record_type E name op) (\<lambda>t. case t of
         Some udt \<Rightarrow> updateLastEmittedType VTRecord udt | None \<Rightarrow> updateLastEmittedType VTEmpty []))
      (when_do (op = OpGetGlobal \<or> op = OpGetLocal \<or> op = OpGetClassMember) emitTrailingCoerceIfValueContext))))"

text \<open>A name before \<open>(\<close> in a procedure that nothing declares: the load of a global that is bound later.\<close>

definition forward_callee :: "lex_env \<Rightarrow> string \<Rightarrow> Front \<Rightarrow> bool" where
  "forward_callee E name c \<longleftrightarrow> at_punct PunctLParen c \<and> cc_isLocal c \<and> cc_currentClassName c = []
     \<and> cc_staticLocals c (lower E name) = None \<and> symbol_Get E name (cc_locals c) = None"

definition emit_plain_name :: "lex_env \<Rightarrow> string \<Rightarrow> unit parse" where
  "emit_plain_name E name =
     look (\<lambda>c. c) (\<lambda>c.
       if at_punct PunctDot c \<and> cc_enumTypeLookup c (trim_lower E name) \<noteq> None then emit_resolved E name
       else bind (if at_punct PunctLParen c then ret False else emitStaticObjectIdentifierFallback E name) (\<lambda>found.
         if found then ret ()
         else look (forward_callee E name) (\<lambda>forward.
           if forward then
             bind (look (\<lambda>c. symbol_Get E name (cc_Globals c)) (\<lambda>g. case g of Some i \<Rightarrow> ret i | None \<Rightarrow> add_global E name))
               (\<lambda>idx. bind (emit OpGetGlobal [idx]) (\<lambda>pos. mark_load E name OpGetGlobal pos))
           else emit_resolved E name)))"

definition emitIdentifierValue :: "lex_env \<Rightarrow> string \<Rightarrow> unit parse" where
  "emitIdentifierValue E name0 =
     (let name = trim_space name0 in
      if equal_fold name ''VMENGINE'' then next_do (emitExt ExtOpAxonASP []) (ret ())
      else if equal_fold name ''FreeFile'' then emit_FreeFile E
      else look (\<lambda>c. c) (\<lambda>c.
        case (if cc_isLocal c \<and> cc_currentFunctionName c \<noteq> [] \<and> equal_fold name (cc_currentFunctionName c)
                 \<and> at_punct PunctLParen c then symbol_Get E name (cc_Globals c) else None) of
          Some idx \<Rightarrow> bind (emit OpGetGlobal [idx]) (\<lambda>pos. markLastCallTarget E name OpGetGlobal pos)
        | None \<Rightarrow>
          (if in_class_scope c \<and> symbol_Get E name (cc_locals c) = None \<and> \<not> at_punct PunctLParen c
              \<and> (hasClassMethodDeclaration E c (cc_currentClassName c) name
                 \<or> hasClassZeroArgPropertyGetDeclaration E c (cc_currentClassName c) name)
           then next_do clearLastCallTarget
               (next_do (do_emit OpMe [])
               (bind (add_constant (NewString name)) (\<lambda>i. do_emit OpCallMember [i, 0])))
           else emit_plain_name E name)))"

section \<open>Arguments and calls\<close>

text \<open>An argument that is one variable becomes a reference to its slot.\<close>

definition arg_ref_op :: "lex_env \<Rightarrow> Front \<Rightarrow> OpCode \<Rightarrow> nat \<Rightarrow> bool \<Rightarrow> OpCode option option" where
  "arg_ref_op E c op idx coerced =
     (if op = OpGetGlobal then
        (if isGlobalZeroArgFunctionSlot E c idx then Some None
         else case get_at (st_names (cc_Globals c)) idx of
           None \<Rightarrow> (if coerced then None else Some (if cc_userGlobalsStart c \<le> idx then Some OpArgGlobalRef else Some op))
         | Some g \<Rightarrow>
             (if coerced \<and> trim_lower E g \<notin> cc_declaredGlobals c then Some None
              else Some (if cc_userGlobalsStart c \<le> idx then Some OpArgGlobalRef else Some op)))
      else if op = OpGetLocal then Some (Some OpArgLocalRef)
      else if op = OpGetClassMember then Some (Some OpArgClassMemberRef)
      else Some None)"

definition patchArgRefInBytecode :: "lex_env \<Rightarrow> nat \<Rightarrow> unit parse" where
  "patchArgRefInBytecode E start =
     look (\<lambda>c. c) (\<lambda>c.
       let bs = c_bytecode c; emitted = length bs - start; coerced = (emitted = 4 \<and> bs ! (start + 3) = OpCoerceToValue)
       in if emitted < 3 then ret ()
          else if \<not> (emitted = 3 \<or> coerced) then ret ()
          else case be16_at bs (start + 1) of
            None \<Rightarrow> panic RuntimePanic
          | Some idx \<Rightarrow>
            (case arg_ref_op E c (bs ! start) idx coerced of
               None \<Rightarrow> panic RuntimePanic
             | Some None \<Rightarrow> ret ()
             | Some (Some op) \<Rightarrow> upd (\<lambda>c. c\<lparr>c_bytecode := take (start + 3) (bs[start := op])\<rparr>)))"

definition emitAutoCallForBareGlobalBeforeMemberAccess :: "lex_env \<Rightarrow> unit parse" where
  "emitAutoCallForBareGlobalBeforeMemberAccess E =
     look (\<lambda>c. case cc_lastCallTargetPos c of
         Some p \<Rightarrow> cc_lastCallIsGlobal c \<and> p + 3 = length (c_bytecode c) \<and> c_bytecode c ! p = OpGetGlobal
           \<and> (case be16_at (c_bytecode c) (p + 1) of
                Some idx \<Rightarrow> isGlobalZeroArgFunctionSlot E c idx | None \<Rightarrow> False)
       | None \<Rightarrow> False)
       (\<lambda>b. when_do b (do_emit OpCoerceToValue []))"

definition missing_arg :: "unit parse" where "missing_arg = emit_constant NewEmpty"

definition one_arg :: "lex_env \<Rightarrow> (Precedence \<Rightarrow> unit parse) \<Rightarrow> unit parse" where
  "one_arg E pe =
     look (\<lambda>c. at_punct PunctComma c \<or> at_punct PunctRParen c) (\<lambda>missing.
       if missing then missing_arg
       else look (\<lambda>c. length (c_bytecode c)) (\<lambda>start.
         next_do (pe PrecNone) (patchArgRefInBytecode E start)))"

primrec args_loop :: "nat \<Rightarrow> lex_env \<Rightarrow> (Precedence \<Rightarrow> unit parse) \<Rightarrow> nat \<Rightarrow> nat parse" where
  "args_loop 0 E pe count = no_fuel"
| "args_loop (Suc n) E pe count =
     next_do (one_arg E pe)
       (look (at_punct PunctComma) (\<lambda>comma.
         if comma then next_do (move E) (args_loop n E pe (count + 1)) else ret (count + 1)))"

text \<open>The arguments after \<open>(\<close> and the closing parenthesis; the result is their number.\<close>

definition paren_args :: "nat \<Rightarrow> lex_env \<Rightarrow> (Precedence \<Rightarrow> unit parse) \<Rightarrow> string \<Rightarrow> nat parse" where
  "paren_args n E pe what =
     bind (look (at_punct PunctRParen) (\<lambda>none. if none then ret 0 else args_loop n E pe 0)) (\<lambda>count.
       look (at_punct PunctRParen) (\<lambda>b.
         if b then next_do (move E) (ret count)
         else vbCompileError ExpectedRParen (''Expected '' @ [CHR 0x27] @ '')'' @ [CHR 0x27] @ '' after '' @ what)))"

definition compileImplicitClassMemberCall ::
    "nat \<Rightarrow> lex_env \<Rightarrow> (Precedence \<Rightarrow> unit parse) \<Rightarrow> string \<Rightarrow> bool parse" where
  "compileImplicitClassMemberCall n E pe name =
     look (\<lambda>c. in_class_scope c
         \<and> \<not> (symbol_Get E name (cc_locals c) \<noteq> None
              \<and> \<not> equal_fold (trim_space name) (trim_space (cc_currentFunctionName c)))
         \<and> at_punct PunctLParen c
         \<and> (hasClassMethodDeclaration E c (cc_currentClassName c) name
            \<or> equal_fold (trim_space name) (trim_space (cc_currentFunctionName c))
            \<or> (case getClassPropertyDeclaration E c (cc_currentClassName c) name of
                 Some p \<Rightarrow> pd_HasGet p | None \<Rightarrow> False)))
       (\<lambda>member.
         if \<not> member then ret False
         else next_do clearLastCallTarget
             (next_do (do_emit OpMe [])
             (next_do (move E)
             (bind (paren_args n E pe ''class member call arguments'') (\<lambda>count.
              bind (add_constant (NewString name)) (\<lambda>i.
              next_do (do_emit OpCallMember [i, count]) (ret True)))))))"

text \<open>A string constant passed to \<open>Eval\<close> is compiled in place. The state of the cursor is restored afterwards, also
  after a panic.\<close>

definition compileInlineEvalExpression :: "lex_env \<Rightarrow> (Precedence \<Rightarrow> unit parse) \<Rightarrow> string \<Rightarrow> bool parse" where
  "compileInlineEvalExpression E pe expr c =
     (let restore = (\<lambda>c'. c'\<lparr>cc_lexer := cc_lexer c, cc_next := cc_next c, cc_lexerMode := cc_lexerMode c,
            cc_sourceCode := cc_sourceCode c, cc_lastDebugLine := cc_lastDebugLine c,
            cc_lastDebugColumn := cc_lastDebugColumn c, cc_tokenIndex := cc_tokenIndex c\<rparr>);
          start = c\<lparr>cc_lexer := new_lexer E expr ModeVBScript, cc_lexerMode := ModeVBScript, cc_sourceCode := expr,
            cc_next := None, cc_lastDebugLine := -1, cc_lastDebugColumn := -1\<rparr>
      in case next_do (move E) (next_do (pe PrecNone) (look matchEof ret)) start of
           Done ok c' \<Rightarrow> Done ok (restore c') | Panic _ c' \<Rightarrow> Done False (restore c') | NoFuel \<Rightarrow> NoFuel)"

definition inline_eval_text :: "Front \<Rightarrow> string \<Rightarrow> nat option \<Rightarrow> nat \<Rightarrow> nat \<Rightarrow> string option" where
  "inline_eval_text c target pos start count =
     (if \<not> equal_fold target ''Eval'' \<or> count \<noteq> 1 \<or> pos = None \<or> length (c_bytecode c) < the pos
         \<or> start + 3 \<noteq> length (c_bytecode c) \<or> c_bytecode c ! start \<noteq> OpConstant then None
      else case Option.bind (be16_at (c_bytecode c) (start + 1)) (get_at (c_constants c)) of
             Some v \<Rightarrow> (if VType v = VTString then Some (VStr v) else None) | None \<Rightarrow> None)"

definition tryInlineEvalCall ::
    "lex_env \<Rightarrow> (Precedence \<Rightarrow> unit parse) \<Rightarrow> string \<Rightarrow> nat option \<Rightarrow> nat \<Rightarrow> nat \<Rightarrow> bool parse" where
  "tryInlineEvalCall E pe target pos start count =
     look (\<lambda>c. c) (\<lambda>c.
       case inline_eval_text c target pos start count of
         None \<Rightarrow> ret False
       | Some expr \<Rightarrow>
         next_do (upd (\<lambda>c. c\<lparr>c_bytecode := take (the pos) (c_bytecode c)\<rparr>))
        (next_do clearLastCallTarget
        (bind (compileInlineEvalExpression E pe expr) (\<lambda>ok.
           if ok then ret True
           else next_do (upd (\<lambda>c'. c'\<lparr>c_bytecode := c_bytecode c, cc_lastCallTargetName := cc_lastCallTargetName c,
                  cc_lastCallTargetPos := cc_lastCallTargetPos c, cc_lastCallIsGlobal := cc_lastCallIsGlobal c\<rparr>))
                (ret False)))))"

definition vbFastUnaryMathOpcodes :: "(string \<times> OpCode) list" where
  "vbFastUnaryMathOpcodes =
     [(''sin'', OpMathSin), (''cos'', OpMathCos), (''tan'', OpMathTan), (''atn'', OpMathAtn), (''sqr'', OpMathSqr),
      (''abs'', OpMathAbs), (''exp'', OpMathExp), (''log'', OpMathLog), (''round'', OpMathRound), (''int'', OpMathInt)]"

text \<open>The builtins named in the table are all registered, so a slot below the user's globals that has the name is
  theirs.\<close>

definition isBuiltinGlobalSlot :: "lex_env \<Rightarrow> Front \<Rightarrow> nat \<Rightarrow> string \<Rightarrow> bool" where
  "isBuiltinGlobalSlot E c slot name \<longleftrightarrow>
     slot < cc_userGlobalsStart c \<and>
     (case get_at (st_names (cc_Globals c)) slot of
        None \<Rightarrow> False | Some g \<Rightarrow> trim_lower E g \<noteq> [] \<and> trim_lower E g = name)"

definition tryEmitFastUnaryMathCall ::
    "lex_env \<Rightarrow> string \<Rightarrow> nat option \<Rightarrow> nat \<Rightarrow> nat \<Rightarrow> bool \<Rightarrow> bool parse" where
  "tryEmitFastUnaryMathCall E target pos start count is_global =
     look (\<lambda>c. c) (\<lambda>c.
       case (map_of vbFastUnaryMathOpcodes (trim_lower E target), pos) of
         (Some op, Some p) \<Rightarrow>
           (let bs = c_bytecode c in
            if is_global \<and> count = 1 \<and> p + 3 \<le> length bs \<and> start \<le> length bs \<and> bs ! p = OpGetGlobal \<and> p + 3 = start
               \<and> (case be16_at bs (p + 1) of
                    Some slot \<Rightarrow> isBuiltinGlobalSlot E c slot (trim_lower E target) | None \<Rightarrow> False)
            then next_do (upd (\<lambda>c. c\<lparr>c_bytecode := take p bs @ drop start bs\<rparr>))
                (next_do (do_emit op []) (next_do clearLastCallTarget (ret True)))
            else ret False)
       | _ \<Rightarrow> ret False)"

section \<open>Prefix rules\<close>

definition literal :: "Value \<Rightarrow> unit parse" where
  "literal v = next_do clearLastCallTarget (emit_constant v)"

definition identifier_rule :: "nat \<Rightarrow> lex_env \<Rightarrow> (Precedence \<Rightarrow> unit parse) \<Rightarrow> string \<Rightarrow> unit parse" where
  "identifier_rule n E pe name =
     bind (compileImplicitClassMemberCall n E pe name) (\<lambda>called.
       if called then ret () else emitIdentifierValue E name)"

definition paren_rule :: "lex_env \<Rightarrow> (Precedence \<Rightarrow> unit parse) \<Rightarrow> unit parse" where
  "paren_rule E pe =
     next_do clearLastCallTarget (next_do (pe PrecNone) (look (at_punct PunctRParen) (\<lambda>b.
       if b then next_do (move E) (ret ()) else vbSyntaxError_next ExpectedRParen)))"

definition unary_rule :: "(Precedence \<Rightarrow> unit parse) \<Rightarrow> Precedence \<Rightarrow> OpCode list \<Rightarrow> unit parse" where
  "unary_rule pe p ops =
     next_do clearLastCallTarget (next_do (pe p) (case ops of [] \<Rightarrow> ret () | op # _ \<Rightarrow> do_emit op []))"

text \<open>\<open>.Member\<close> inside With.\<close>

definition with_member_rule :: "nat \<Rightarrow> lex_env \<Rightarrow> (Precedence \<Rightarrow> unit parse) \<Rightarrow> unit parse" where
  "with_member_rule n E pe =
     next_do clearLastCallTarget
    (next_do (do_emit OpWithLoad [])
    (bind (expectIdentifier E) (\<lambda>name.
     bind (add_constant (NewString name)) (\<lambda>i.
     look (at_punct PunctLParen) (\<lambda>call.
       if call then
         next_do (move E) (bind (paren_args n E pe ''member call arguments'') (\<lambda>count.
           next_do (do_emit OpCallMember [i, count]) emitTrailingCoerceIfValueContext))
       else next_do (do_emit OpConstant [i]) (next_do (do_emit OpMemberGet []) emitTrailingCoerceIfValueContext))))))"

text \<open>The values of date literals, which need \<open>time.Time\<close>, are the argument \<open>date\<close>.\<close>

definition getPrefixRule ::
    "nat \<Rightarrow> lex_env \<Rightarrow> (gotime \<Rightarrow> Value) \<Rightarrow> (Precedence \<Rightarrow> unit parse) \<Rightarrow> Front \<Rightarrow> token_kind option \<Rightarrow> unit parse option" where
  "getPrefixRule n E date pe c k =
     (case k of
        Some TrueLiteralToken \<Rightarrow> Some (literal (NewBool True))
      | Some FalseLiteralToken \<Rightarrow> Some (literal (NewBool False))
      | Some NullLiteralToken \<Rightarrow> Some (literal (typed VTNull))
      | Some EmptyLiteralToken \<Rightarrow> Some (literal (typed VTEmpty))
      | Some NothingLiteralToken \<Rightarrow> Some (literal (typed VTObject))
      | Some (DateLiteralToken t) \<Rightarrow> Some (literal (date t))
      | Some (DecIntegerLiteralToken i) \<Rightarrow> Some (literal (NewInteger i))
      | Some (HexIntegerLiteralToken i) \<Rightarrow> Some (literal (NewInteger i))
      | Some (OctIntegerLiteralToken i) \<Rightarrow> Some (literal (NewInteger i))
      | Some (FloatLiteralToken f) \<Rightarrow> Some (literal (NewDouble f))
      | Some (StringLiteralToken s) \<Rightarrow> Some (literal (NewString s))
      | Some (IdentifierToken name) \<Rightarrow> Some (identifier_rule n E pe name)
      | Some (KeywordOrIdentifierToken _ name) \<Rightarrow> Some (identifier_rule n E pe name)
      | Some (PunctuationToken p) \<Rightarrow>
          (case p of
             PunctLParen \<Rightarrow> Some (paren_rule E pe)
           | PunctMinus \<Rightarrow> Some (unary_rule pe PrecUnary [OpNeg])
           | PunctPlus \<Rightarrow> Some (unary_rule pe PrecUnary [])
           | PunctDot \<Rightarrow> (if 0 < cc_withDepth c then Some (with_member_rule n E pe) else None)
           | _ \<Rightarrow> None)
      | Some (KeywordToken kw _) \<Rightarrow>
          (if kw = KeywordNot then Some (unary_rule pe PrecNot [OpNot])
           else if kw = KeywordNew then Some (next_do clearLastCallTarget (bind (expectIdentifier E) (\<lambda>name.
                  bind (add_constant (NewString name)) (\<lambda>i. do_emit OpNewClass [i]))))
           else if kw = KeywordMe then Some (next_do clearLastCallTarget (do_emit OpMe []))
           else None)
      | _ \<Rightarrow> None)"

section \<open>Infix rules\<close>

text \<open>The operators whose rule parses the right operand and emits one instruction.\<close>

definition binary_rule :: "(Precedence \<Rightarrow> unit parse) \<Rightarrow> Precedence \<Rightarrow> unit parse \<Rightarrow> unit parse" where
  "binary_rule pe p emission = next_do clearLastCallTarget (next_do (pe p) emission)"

definition ext_emit :: "ExtOpCode \<Rightarrow> unit parse" where "ext_emit op = next_do (emitExt op []) (ret ())"

text \<open>\<open>AndAlso\<close> and \<open>OrElse\<close>: both operands are tested, the result is a fresh Boolean.\<close>

definition short_circuit :: "(Precedence \<Rightarrow> unit parse) \<Rightarrow> Precedence \<Rightarrow> OpCode \<Rightarrow> bool \<Rightarrow> unit parse" where
  "short_circuit pe p jump_op stop_value =
     next_do clearLastCallTarget
    (bind (emitJump jump_op) (\<lambda>j1.
     next_do (pe p)
    (bind (emitJump jump_op) (\<lambda>j2.
     next_do (emit_constant (NewBool (\<not> stop_value)))
    (bind (emitJump OpJump) (\<lambda>stop.
     bind (add_constant (NewBool stop_value)) (\<lambda>i.
     next_do (patchJump j1)
    (next_do (patchJump j2)
    (next_do (do_emit OpConstant [i]) (patchJump stop))))))))))"

definition is_rule :: "lex_env \<Rightarrow> (Precedence \<Rightarrow> unit parse) \<Rightarrow> unit parse" where
  "is_rule E pe =
     next_do undoTrailingCoerce
       (look (at_keyword KeywordNot) (\<lambda>neg.
         next_do (when_do neg (next_do (move E) (ret ())))
           (next_do (pe PrecEquality) (do_emit (if neg then OpIsNotRef else OpIsRef) []))))"

definition call_rule :: "nat \<Rightarrow> lex_env \<Rightarrow> (Precedence \<Rightarrow> unit parse) \<Rightarrow> unit parse" where
  "call_rule n E pe =
     next_do undoTrailingCoerce
    (look (\<lambda>c. (cc_lastCallTargetName c, cc_lastCallTargetPos c, cc_lastCallIsGlobal c, length (c_bytecode c)))
      (\<lambda>(target, pos, is_global, start).
        bind (paren_args n E pe ''function arguments'') (\<lambda>count.
        bind (tryInlineEvalCall E pe target pos start count) (\<lambda>inlined.
          if inlined then ret ()
          else bind (tryEmitFastUnaryMathCall E target pos start count is_global) (\<lambda>fast.
            if fast then ret ()
            else next_do (do_emit OpCall [count])
                (next_do (when_do is_global (registerForwardCallPatch E target pos))
                (next_do emitTrailingCoerceIfValueContext clearLastCallTarget)))))))"

text \<open>\<open>EnumType.Member\<close>: the code of the type name is dropped again.\<close>

definition emit_enum_member :: "nat option \<Rightarrow> nat option \<Rightarrow> Value \<Rightarrow> unit parse" where
  "emit_enum_member pos coerce v =
     next_do (upd (\<lambda>c. if coerce \<noteq> None \<and> coerce = Some (length (c_bytecode c) - 1) \<and> c_bytecode c \<noteq> []
                       then c\<lparr>c_bytecode := take (the coerce) (c_bytecode c)\<rparr> else c))
    (next_do (upd (\<lambda>c. c\<lparr>c_bytecode := take (case pos of Some p \<Rightarrow> p | None \<Rightarrow> 0) (c_bytecode c)\<rparr>))
    (next_do (emit_constant v)
    (next_do (updateLastEmittedType VTInteger []) emitTrailingCoerceIfValueContext)))"

definition member_get :: "lex_env \<Rightarrow> string \<Rightarrow> unit parse" where
  "member_get E name =
     look (\<lambda>c. case lastEmittedUDTNameFromOp E c of
                 Some udt \<Rightarrow> getUDTMemberIndex E c udt name | None \<Rightarrow> None)
       (\<lambda>m. case m of
          Some (i, t, udt) \<Rightarrow>
            next_do (emitExt ExtOpGetRecordMember [i])
              (next_do (updateLastEmittedType t udt) emitTrailingCoerceIfValueContext)
        | None \<Rightarrow>
            bind (add_constant (NewString name)) (\<lambda>i.
            next_do (do_emit OpConstant [i])
           (next_do (do_emit OpMemberGet [])
           (next_do (updateLastEmittedType VTEmpty []) emitTrailingCoerceIfValueContext))))"

definition dot_rule :: "nat \<Rightarrow> lex_env \<Rightarrow> (Precedence \<Rightarrow> unit parse) \<Rightarrow> unit parse" where
  "dot_rule n E pe =
     look (\<lambda>c. (cc_lastCallTargetName c, cc_lastCallTargetPos c, cc_lastCoercePos c)) (\<lambda>(target, pos, coerce).
     next_do undoTrailingCoerce
    (next_do (emitAutoCallForBareGlobalBeforeMemberAccess E)
    (next_do clearLastCallTarget
    (bind (expectIdentifier E) (\<lambda>name.
     look (\<lambda>c. if target = [] then None
               else Option.bind (cc_enumTypeLookup c (trim_lower E target)) (\<lambda>members. members (lower E name)))
       (\<lambda>v. case v of
          Some v \<Rightarrow> emit_enum_member pos coerce v
        | None \<Rightarrow> look (at_punct PunctLParen) (\<lambda>call.
            if call then
              next_do (move E) (bind (paren_args n E pe ''member call arguments'') (\<lambda>count.
                bind (add_constant (NewString name)) (\<lambda>i.
                next_do (do_emit OpCallMember [i, count]) emitTrailingCoerceIfValueContext)))
            else member_get E name)))))))"

definition getInfixRule ::
    "nat \<Rightarrow> lex_env \<Rightarrow> (Precedence \<Rightarrow> unit parse) \<Rightarrow> token_kind option \<Rightarrow> unit parse option" where
  "getInfixRule n E pe k =
     (let op = (\<lambda>p oc. Some (binary_rule pe p (do_emit oc [])));
          ext = (\<lambda>p oc. Some (binary_rule pe p (ext_emit oc)))
      in case k of
        Some (PunctuationToken p) \<Rightarrow>
          (case p of
             PunctDot \<Rightarrow> Some (dot_rule n E pe)
           | PunctLParen \<Rightarrow> Some (call_rule n E pe)
           | PunctAmp \<Rightarrow> op PrecConcat OpConcat
           | PunctExp \<Rightarrow> op (PrecExp - 1) OpPow
           | PunctEqual \<Rightarrow> op PrecEquality OpEq
           | PunctNotEqual \<Rightarrow> op PrecEquality OpNeq
           | PunctLess \<Rightarrow> op PrecEquality OpLt
           | PunctGreater \<Rightarrow> op PrecEquality OpGt
           | PunctLessOrEqual \<Rightarrow> op PrecEquality OpLte
           | PunctGreaterOrEqual \<Rightarrow> op PrecEquality OpGte
           | PunctPlus \<Rightarrow> op PrecTerm OpAdd
           | PunctMinus \<Rightarrow> op PrecTerm OpSub
           | PunctStar \<Rightarrow> op PrecFactor OpMul
           | PunctSlash \<Rightarrow> op PrecFactor OpDiv
           | PunctBackslash \<Rightarrow> op PrecFactor OpIDiv
           | PunctShiftLeft \<Rightarrow> ext PrecShift ExtOpShiftLeft
           | PunctShiftRight \<Rightarrow> ext PrecShift ExtOpShiftRight
           | _ \<Rightarrow> None)
      | Some (KeywordToken kw _) \<Rightarrow>
          (if kw = KeywordMod then op PrecFactor OpMod
           else if kw = KeywordIs then Some (is_rule E pe)
           else if kw = KeywordIsNot then
             Some (next_do undoTrailingCoerce (next_do (pe PrecEquality) (do_emit OpIsNotRef [])))
           else if kw = KeywordAnd then op PrecAnd OpAnd
           else if kw = KeywordOr then op PrecOr OpOr
           else if kw = KeywordAndAlso then Some (short_circuit pe PrecAnd OpJumpIfFalse False)
           else if kw = KeywordOrElse then Some (short_circuit pe PrecOr OpJumpIfTrue True)
           else if kw = KeywordXor then op PrecXor OpXor
           else if kw = KeywordEqv then op PrecEqv OpEqv
           else if kw = KeywordImp then op PrecImp OpImp
           else None)
      | _ \<Rightarrow> None)"

section \<open>The parser\<close>

primrec infix_loop :: "nat \<Rightarrow> lex_env \<Rightarrow> (Precedence \<Rightarrow> unit parse) \<Rightarrow> Precedence \<Rightarrow> unit parse" where
  "infix_loop 0 E pe p = no_fuel"
| "infix_loop (Suc n) E pe p =
     look (\<lambda>c. p < getPrecedence (next_kind c)) (\<lambda>more.
       if \<not> more then ret ()
       else bind (move E) (\<lambda>t.
         case getInfixRule n E pe (map_option tk_kind t) of
           None \<Rightarrow> ret ()
         | Some rule \<Rightarrow> next_do rule (infix_loop n E pe p)))"

definition unexpected_token :: "Token option \<Rightarrow> unit parse" where
  "unexpected_token t =
     look cc_prevToken (\<lambda>prev.
       vbCompileErrorAtToken SyntaxError
         (case map_option tk_kind t of
            Some k \<Rightarrow> if k \<in> {LineTerminationToken, ColonLineTerminationToken, ASPCodeEndToken, EOFToken} \<and> prev \<noteq> None
                      then prev else t
          | None \<Rightarrow> t)
         (''Syntax error: Unexpected token '' @ token_type (map_option tk_kind t) @ '' in expression''))"

primrec parseExpression :: "nat \<Rightarrow> lex_env \<Rightarrow> (gotime \<Rightarrow> Value) \<Rightarrow> Precedence \<Rightarrow> unit parse" where
  "parseExpression 0 E date p = no_fuel"
| "parseExpression (Suc n) E date p =
     bind (move E) (\<lambda>t. look (\<lambda>c. c) (\<lambda>c.
       case getPrefixRule n E date (parseExpression n E date) c (map_option tk_kind t) of
         None \<Rightarrow> unexpected_token t
       | Some rule \<Rightarrow> next_do rule (infix_loop n E (parseExpression n E date) p)))"

section \<open>Compilation of an expression\<close>

text \<open>The global slots every compiler begins with: the intrinsic objects and the handlers of transactions, the
  registered builtins, and the predefined constants with their values.\<close>

definition intrinsic_names :: "string list" where
  "intrinsic_names = [''Response'', ''Request'', ''Server'', ''Session'', ''Application'', ''ObjectContext'', ''Err'',
     ''console'', ''OnTransactionCommit'', ''OnTransactionAbort'']"

definition predeclare :: "lex_env \<Rightarrow> string \<Rightarrow> Front \<Rightarrow> Front" where
  "predeclare E name c = c\<lparr>cc_Globals := snd (symbol_Add E name (cc_Globals c)),
     cc_declaredGlobals := insert (lower E name) (cc_declaredGlobals c)\<rparr>"

definition predeclare_const :: "lex_env \<Rightarrow> string \<times> Value \<Rightarrow> Front \<Rightarrow> Front" where
  "predeclare_const E nv c = (predeclare E (fst nv) c)\<lparr>
     cc_constGlobals := insert (lower E (fst nv)) (cc_constGlobals c),
     cc_constLiteralGlobals := (cc_constLiteralGlobals c)(lower E (fst nv) \<mapsto> snd nv)\<rparr>"

definition empty_front :: "lex_env \<Rightarrow> string \<Rightarrow> LexerMode \<Rightarrow> Front" where
  "empty_front E src mode =
     \<lparr>c_bytecode = [], c_constants = [], c_constantMap = (\<lambda>_. None),
      cc_lexer = new_lexer E src mode, cc_lexerMode = mode, cc_sourceCode = src, cc_next = None, cc_tokenIndex = -1,
      cc_Globals = NewSymbolTable, cc_locals = NewSymbolTable, cc_declaredGlobals = {}, cc_implicitGlobals = {},
      cc_declaredLocals = {}, cc_globalRecordTypes = (\<lambda>_. None), cc_localRecordTypes = (\<lambda>_. None),
      cc_constGlobals = {}, cc_constLocals = {}, cc_staticLocals = (\<lambda>_. None), cc_constLiteralGlobals = (\<lambda>_. None),
      cc_isLocal = False, cc_insideClassMethod = False, cc_optionExplicit = False, cc_sourceName = [], cc_sourceMap = [],
      cc_forwardCallPatches = (\<lambda>_. []), cc_forwardConstPatches = (\<lambda>_. []), cc_lastCallTargetName = [],
      cc_lastCallTargetPos = None, cc_lastCallIsGlobal = False, cc_lastCoercePos = None, cc_lastDebugLine = -1,
      cc_lastDebugColumn = -1, cc_prevToken = None, cc_lastToken = None, cc_tempCounter = 0, cc_globalZeroArgFuncs = {},
      cc_classDecls = [], cc_classDeclLookup = (\<lambda>_. None), cc_recordDecls = [], cc_recordDeclLookup = (\<lambda>_. None),
      cc_enumTypeLookup = (\<lambda>_. None), cc_currentClassName = [], cc_currentFunctionName = [],
      cc_dynamicMemberResolution = False, cc_withDepth = 0, cc_userGlobalsStart = 0, cc_labelMap = (\<lambda>_. None),
      cc_forwardLabelPatches = (\<lambda>_. []), cc_lastEmittedType = VTEmpty, cc_lastEmittedUDTName = []\<rparr>"

definition createCompiler ::
    "lex_env \<Rightarrow> string list \<Rightarrow> (string \<times> Value) list \<Rightarrow> string \<Rightarrow> LexerMode \<Rightarrow> unit parsed" where
  "createCompiler E builtins constants src mode =
     next_do (move E) (upd (\<lambda>c. c\<lparr>cc_userGlobalsStart := length (st_names (cc_Globals c))\<rparr>))
       (fold (predeclare_const E) constants (fold (predeclare E) (intrinsic_names @ builtins) (empty_front E src mode)))"

text \<open>\<open>optimizePeephole\<close> on the finished code.\<close>

definition optimize_code :: "unit parse" where
  "optimize_code c =
     (case optimizePeephole \<lparr>c_bytecode = c_bytecode c, c_constants = c_constants c, c_constantMap = c_constantMap c,
             c_globalsCount = length (st_names (cc_Globals c))\<rparr> of
        None \<Rightarrow> Panic RuntimePanic c
      | Some p \<Rightarrow> Done () (c\<lparr>c_bytecode := c_bytecode p, c_constants := c_constants p, c_constantMap := c_constantMap p\<rparr>))"

text \<open>\<open>Compile\<close> of the compiler that \<open>NewEvalCompiler\<close> makes.\<close>

definition compile_eval :: "nat \<Rightarrow> lex_env \<Rightarrow> (gotime \<Rightarrow> Value) \<Rightarrow> unit parse" where
  "compile_eval n E date =
     next_do (resetTokenStream E)
    (next_do (parseExpression n E date PrecNone)
    (next_do (do_emit OpHalt []) optimize_code))"

end
