(* ===== verification/ExprCode.thy ===== *)
theory ExprCode
  imports CompExpr OptSound
begin

text \<open>
  The language of expressions that the compiler and the machine are measured against: literals, variables, unary,
  binary and short-circuit operators. \<open>print_expr\<close> writes an expression with as few parentheses as the levels of its
  operators allow, \<open>gen\<close> is its code, \<open>eval\<close> its value or the error that ends it.
\<close>

section \<open>Expressions\<close>

datatype lit = LBool bool | LNull | LEmpty | LNothing | LInt i64 | LDouble f64 | LString string

datatype binop =
    BPow | BMul | BDiv | BIDiv | BMod | BAdd | BSub | BConcat | BEq | BNeq | BLt | BGt | BLte | BGte
  | BAnd | BOr | BXor | BImp | BEqv

datatype shortop = SAndAlso | SOrElse

datatype expr =
    Lit lit | Var string | Neg expr | Not expr | Bin binop expr expr | Short shortop expr expr

fun vars :: "expr \<Rightarrow> string set" where
  "vars (Lit _) = {}"
| "vars (Var x) = {x}"
| "vars (Neg e) = vars e"
| "vars (Not e) = vars e"
| "vars (Bin _ l r) = vars l \<union> vars r"
| "vars (Short _ l r) = vars l \<union> vars r"

section \<open>Tokens\<close>

fun lit_token :: "lit \<Rightarrow> token_kind" where
  "lit_token (LBool b) = (if b then TrueLiteralToken else FalseLiteralToken)"
| "lit_token LNull = NullLiteralToken"
| "lit_token LEmpty = EmptyLiteralToken"
| "lit_token LNothing = NothingLiteralToken"
| "lit_token (LInt n) = DecIntegerLiteralToken n"
| "lit_token (LDouble x) = FloatLiteralToken x"
| "lit_token (LString s) = StringLiteralToken s"

fun op_token :: "binop \<Rightarrow> token_kind" where
  "op_token BPow = PunctuationToken PunctExp"
| "op_token BMul = PunctuationToken PunctStar"
| "op_token BDiv = PunctuationToken PunctSlash"
| "op_token BIDiv = PunctuationToken PunctBackslash"
| "op_token BMod = KeywordToken KeywordMod []"
| "op_token BAdd = PunctuationToken PunctPlus"
| "op_token BSub = PunctuationToken PunctMinus"
| "op_token BConcat = PunctuationToken PunctAmp"
| "op_token BEq = PunctuationToken PunctEqual"
| "op_token BNeq = PunctuationToken PunctNotEqual"
| "op_token BLt = PunctuationToken PunctLess"
| "op_token BGt = PunctuationToken PunctGreater"
| "op_token BLte = PunctuationToken PunctLessOrEqual"
| "op_token BGte = PunctuationToken PunctGreaterOrEqual"
| "op_token BAnd = KeywordToken KeywordAnd []"
| "op_token BOr = KeywordToken KeywordOr []"
| "op_token BXor = KeywordToken KeywordXor []"
| "op_token BImp = KeywordToken KeywordImp []"
| "op_token BEqv = KeywordToken KeywordEqv []"

fun short_token :: "shortop \<Rightarrow> token_kind" where
  "short_token SAndAlso = KeywordToken KeywordAndAlso []"
| "short_token SOrElse = KeywordToken KeywordOrElse []"

text \<open>The levels of the operators, from the loosest to the tightest.\<close>

fun op_level :: "binop \<Rightarrow> nat" where
  "op_level BEqv = 2" | "op_level BImp = 3" | "op_level BXor = 4" | "op_level BOr = 5" | "op_level BAnd = 6"
| "op_level BEq = 8" | "op_level BNeq = 8" | "op_level BLt = 8" | "op_level BGt = 8" | "op_level BLte = 8" | "op_level BGte = 8"
| "op_level BConcat = 10" | "op_level BAdd = 11" | "op_level BSub = 11"
| "op_level BMul = 12" | "op_level BDiv = 12" | "op_level BIDiv = 12" | "op_level BMod = 12"
| "op_level BPow = 14"

fun short_level :: "shortop \<Rightarrow> nat" where
  "short_level SAndAlso = 6" | "short_level SOrElse = 5"

text \<open>The levels of the operands: \<open>^\<close> groups to the right and takes a signed right operand, the others group to the
  left.\<close>

definition left_level :: "binop \<Rightarrow> nat" where "left_level b = (if b = BPow then 15 else op_level b)"
definition right_level :: "binop \<Rightarrow> nat" where "right_level b = (if b = BPow then 13 else op_level b + 1)"

fun level :: "expr \<Rightarrow> nat" where
  "level (Lit _) = 15"
| "level (Var _) = 15"
| "level (Neg _) = 13"
| "level (Not _) = 7"
| "level (Bin b _ _) = op_level b"
| "level (Short s _ _) = short_level s"

abbreviation lparen :: token_kind where "lparen \<equiv> PunctuationToken PunctLParen"
abbreviation rparen :: token_kind where "rparen \<equiv> PunctuationToken PunctRParen"

definition parens :: "bool \<Rightarrow> token_kind list \<Rightarrow> token_kind list" where
  "parens b ks = (if b then lparen # ks @ [rparen] else ks)"

fun print_expr :: "nat \<Rightarrow> expr \<Rightarrow> token_kind list" and print_raw :: "expr \<Rightarrow> token_kind list" where
  "print_expr ctx e = parens (level e < ctx) (print_raw e)"
| "print_raw (Lit l) = [lit_token l]"
| "print_raw (Var x) = [IdentifierToken x]"
| "print_raw (Neg e) = PunctuationToken PunctMinus # print_expr 13 e"
| "print_raw (Not e) = KeywordToken KeywordNot [] # print_expr 7 e"
| "print_raw (Bin b l r) = print_expr (left_level b) l @ op_token b # print_expr (right_level b) r"
| "print_raw (Short s l r) = print_expr (short_level s) l @ short_token s # print_expr (short_level s + 1) r"

section \<open>Code\<close>

fun lit_value :: "lit \<Rightarrow> Value" where
  "lit_value (LBool b) = NewBool b"
| "lit_value LNull = typed VTNull"
| "lit_value LEmpty = typed VTEmpty"
| "lit_value LNothing = typed VTObject"
| "lit_value (LInt n) = NewInteger n"
| "lit_value (LDouble x) = NewDouble x"
| "lit_value (LString s) = NewString s"

fun op_opcode :: "binop \<Rightarrow> OpCode" where
  "op_opcode BPow = OpPow" | "op_opcode BMul = OpMul" | "op_opcode BDiv = OpDiv" | "op_opcode BIDiv = OpIDiv"
| "op_opcode BMod = OpMod" | "op_opcode BAdd = OpAdd" | "op_opcode BSub = OpSub" | "op_opcode BConcat = OpConcat"
| "op_opcode BEq = OpEq" | "op_opcode BNeq = OpNeq" | "op_opcode BLt = OpLt" | "op_opcode BGt = OpGt"
| "op_opcode BLte = OpLte" | "op_opcode BGte = OpGte" | "op_opcode BAnd = OpAnd" | "op_opcode BOr = OpOr"
| "op_opcode BXor = OpXor" | "op_opcode BImp = OpImp" | "op_opcode BEqv = OpEqv"

text \<open>The value that ends \<open>AndAlso\<close> or \<open>OrElse\<close> early, and the jump taken on it.\<close>

definition stop_value :: "shortop \<Rightarrow> bool" where "stop_value s \<longleftrightarrow> s = SOrElse"
definition stop_jump :: "shortop \<Rightarrow> OpCode" where
  "stop_jump s = (if s = SOrElse then OpJumpIfTrue else OpJumpIfFalse)"

text \<open>The code of an expression that begins at \<open>pos\<close>, and the constants after it. \<open>slot\<close> gives the load of a variable.\<close>

fun gen :: "(string \<Rightarrow> OpCode \<times> nat) \<Rightarrow> expr \<Rightarrow> nat \<Rightarrow> Code \<Rightarrow> bytes \<times> Code" where
  "gen slot (Lit l) pos p = (let (i, p') = addConstant (lit_value l) p in (OpConstant # be16 i, p'))"
| "gen slot (Var x) pos p = (fst (slot x) # be16 (snd (slot x)) @ [OpCoerceToValue], p)"
| "gen slot (Neg e) pos p = (let (bs, p') = gen slot e pos p in (bs @ [OpNeg], p'))"
| "gen slot (Not e) pos p = (let (bs, p') = gen slot e pos p in (bs @ [OpNot], p'))"
| "gen slot (Bin b l r) pos p =
     (let (bl, p1) = gen slot l pos p; (br, p2) = gen slot r (pos + length bl) p1
      in (bl @ br @ [op_opcode b], p2))"
| "gen slot (Short s l r) pos p =
     (let (bl, p1) = gen slot l pos p; (br, p2) = gen slot r (pos + length bl + 5) p1;
          (i, p3) = addConstant (NewBool (\<not> stop_value s)) p2; (j, p4) = addConstant (NewBool (stop_value s)) p3;
          early = pos + length bl + 5 + length br + 5 + 3 + 5
      in (bl @ (stop_jump s # be32 early) @ br @ (stop_jump s # be32 early) @ (OpConstant # be16 i)
            @ (OpJump # be32 (early + 3)) @ (OpConstant # be16 j), p4))"

section \<open>Values\<close>

definition checked :: "Value \<times> raised \<Rightarrow> err + Value" where
  "checked r = (case snd r of None \<Rightarrow> Inr (fst r) | Some e \<Rightarrow> Inl e)"

fun eval :: "host \<Rightarrow> (string \<Rightarrow> Value) \<Rightarrow> expr \<Rightarrow> err + Value" where
  "eval H \<sigma> (Lit l) = Inr (lit_value l)"
| "eval H \<sigma> (Var x) = Inr (\<sigma> x)"
| "eval H \<sigma> (Neg e) = (case eval H \<sigma> e of Inl x \<Rightarrow> Inl x | Inr v \<Rightarrow> checked (neg_value H v))"
| "eval H \<sigma> (Not e) = (case eval H \<sigma> e of Inl x \<Rightarrow> Inl x | Inr v \<Rightarrow> checked (not_value H v))"
| "eval H \<sigma> (Bin b l r) =
     (case eval H \<sigma> l of Inl x \<Rightarrow> Inl x | Inr u \<Rightarrow>
      (case eval H \<sigma> r of Inl x \<Rightarrow> Inl x | Inr v \<Rightarrow> checked (the (binary_op H (op_opcode b) u v))))"
| "eval H \<sigma> (Short s l r) =
     (case eval H \<sigma> l of Inl x \<Rightarrow> Inl x | Inr u \<Rightarrow>
      (if isTruthy u = stop_value s then Inr (NewBool (stop_value s))
       else (case eval H \<sigma> r of Inl x \<Rightarrow> Inl x | Inr v \<Rightarrow> Inr (NewBool (isTruthy v)))))"

text \<open>The stack slots an expression needs above the stack pointer.\<close>

fun depth :: "expr \<Rightarrow> nat" where
  "depth (Lit _) = 1"
| "depth (Var _) = 1"
| "depth (Neg e) = depth e"
| "depth (Not e) = depth e"
| "depth (Bin _ l r) = max (depth l) (1 + depth r)"
| "depth (Short _ l r) = max (depth l) (depth r)"

end
