(* ===== verification/CompLaws.thy ===== *)
theory CompLaws
  imports ExprCode
begin

text \<open>
  The steps of the expression compiler: what the cursor shows, what the primitives append to the code and to the pool of
  constants, which rule an operator has and how one round of the Pratt parser goes.
\<close>

section \<open>Tokens ahead\<close>

text \<open>The text of a keyword token is left out of the comparison of tokens.\<close>

definition strip :: "token_kind \<Rightarrow> token_kind" where
  "strip k = (case k of KeywordToken kw _ \<Rightarrow> KeywordToken kw [] | _ \<Rightarrow> k)"

fun tokens_ahead :: "lex_env \<Rightarrow> Token \<Rightarrow> Lexer \<Rightarrow> token_kind list \<Rightarrow> bool" where
  "tokens_ahead E t l [] \<longleftrightarrow> True"
| "tokens_ahead E t l [k] \<longleftrightarrow> strip (tk_kind t) = strip k"
| "tokens_ahead E t l (k # k' # ks) \<longleftrightarrow> strip (tk_kind t) = strip k \<and>
     (case NextToken E l of Inl _ \<Rightarrow> False | Inr (t', l') \<Rightarrow> tokens_ahead E t' l' (k' # ks))"

definition ahead_from :: "lex_env \<Rightarrow> token_kind list \<Rightarrow> Token option \<Rightarrow> Lexer \<Rightarrow> bool" where
  "ahead_from E ks next l \<longleftrightarrow> (case next of None \<Rightarrow> False | Some t \<Rightarrow> tokens_ahead E t l ks)"

definition ahead :: "lex_env \<Rightarrow> token_kind list \<Rightarrow> Front \<Rightarrow> bool" where
  "ahead E ks c \<longleftrightarrow> ahead_from E ks (cc_next c) (cc_lexer c)"

lemma ahead_head: "ahead E (k # ks) c \<Longrightarrow> \<exists>t. cc_next c = Some t \<and> strip (tk_kind t) = strip k"
  by (cases ks) (auto simp: ahead_def ahead_from_def split: option.splits)

lemma strip_keyword [simp]:
  "strip k = KeywordToken kw s \<longleftrightarrow> s = [] \<and> (\<exists>t. k = KeywordToken kw t)"
  by (cases k) (auto simp: strip_def)

lemma strip_other [simp]:
  "strip (PunctuationToken p) = PunctuationToken p" "strip (IdentifierToken x) = IdentifierToken x"
  "strip (KeywordToken kw s) = KeywordToken kw []"
  "strip k = PunctuationToken p \<longleftrightarrow> k = PunctuationToken p" "strip k = IdentifierToken x \<longleftrightarrow> k = IdentifierToken x"
  by (cases k; auto simp: strip_def)+

lemma strip_lit [simp]: "strip k = strip (lit_token l) \<longleftrightarrow> k = lit_token l"
  by (cases k; cases l) (auto simp: strip_def)

lemma precedence_strip: "strip k = strip k' \<Longrightarrow> getPrecedence (Some k) = getPrecedence (Some k')"
  by (cases k; cases k') (auto simp: strip_def getPrecedence_def)

section \<open>Scope, code and constants\<close>

text \<open>What the compilation of a plain expression leaves alone: all but the code, its constants, the cursor, the
  bookkeeping of the last load and the positions to patch.\<close>

definition scope :: "Front \<Rightarrow> Front" where
  "scope c = c\<lparr>c_bytecode := [], c_constants := [], c_constantMap := (\<lambda>_. None),
     cc_lexer := undefined, cc_next := None, cc_tokenIndex := 0, cc_prevToken := None, cc_lastToken := None,
     cc_forwardCallPatches := (\<lambda>_. []), cc_forwardConstPatches := (\<lambda>_. []), cc_lastCallTargetName := [],
     cc_lastCallTargetPos := None, cc_lastCallIsGlobal := False, cc_lastCoercePos := None,
     cc_lastEmittedType := VTEmpty, cc_lastEmittedUDTName := []\<rparr>"

definition pool :: "Front \<Rightarrow> Code" where
  "pool c = \<lparr>c_bytecode = [], c_constants = c_constants c, c_constantMap = c_constantMap c\<rparr>"

lemma scope_simps [simp]:
  "scope (c\<lparr>c_bytecode := bs\<rparr>) = scope c" "scope (c\<lparr>c_constants := cs\<rparr>) = scope c"
  "scope (c\<lparr>c_constantMap := m\<rparr>) = scope c" "scope (c\<lparr>cc_lexer := l\<rparr>) = scope c"
  "scope (c\<lparr>cc_next := t\<rparr>) = scope c" "scope (c\<lparr>cc_tokenIndex := i\<rparr>) = scope c"
  "scope (c\<lparr>cc_prevToken := t\<rparr>) = scope c" "scope (c\<lparr>cc_lastToken := t\<rparr>) = scope c"
  "scope (c\<lparr>cc_forwardCallPatches := f\<rparr>) = scope c" "scope (c\<lparr>cc_forwardConstPatches := f\<rparr>) = scope c"
  "scope (c\<lparr>cc_lastCallTargetName := s\<rparr>) = scope c" "scope (c\<lparr>cc_lastCallTargetPos := p\<rparr>) = scope c"
  "scope (c\<lparr>cc_lastCallIsGlobal := b\<rparr>) = scope c" "scope (c\<lparr>cc_lastCoercePos := p\<rparr>) = scope c"
  "scope (c\<lparr>cc_lastEmittedType := vt\<rparr>) = scope c" "scope (c\<lparr>cc_lastEmittedUDTName := s\<rparr>) = scope c"
  by (simp_all add: scope_def)

lemma pool_simps [simp]:
  "pool (c\<lparr>c_bytecode := bs\<rparr>) = pool c" "pool (c\<lparr>cc_lexer := l\<rparr>) = pool c"
  "pool (c\<lparr>cc_next := t\<rparr>) = pool c" "pool (c\<lparr>cc_tokenIndex := i\<rparr>) = pool c"
  "pool (c\<lparr>cc_prevToken := t\<rparr>) = pool c" "pool (c\<lparr>cc_lastToken := t\<rparr>) = pool c"
  "pool (c\<lparr>cc_forwardConstPatches := f\<rparr>) = pool c" "pool (c\<lparr>cc_lastCallTargetName := s\<rparr>) = pool c"
  "pool (c\<lparr>cc_lastCallTargetPos := p\<rparr>) = pool c" "pool (c\<lparr>cc_lastCallIsGlobal := b\<rparr>) = pool c"
  "pool (c\<lparr>cc_lastCoercePos := p\<rparr>) = pool c" "pool (c\<lparr>cc_lastEmittedType := vt\<rparr>) = pool c"
  "pool (c\<lparr>cc_lastEmittedUDTName := s\<rparr>) = pool c"
  by (simp_all add: pool_def)

text \<open>One step of the compilation: code is appended, constants move from \<open>pool c\<close> to \<open>p\<close>.\<close>

definition grown :: "Front \<Rightarrow> bytes \<Rightarrow> Code \<Rightarrow> Front \<Rightarrow> bool" where
  "grown c bs p c' \<longleftrightarrow> scope c' = scope c \<and> c_bytecode c' = c_bytecode c @ bs \<and> pool c' = p"

definition emits :: "Front \<Rightarrow> bytes \<Rightarrow> Code \<Rightarrow> Front \<Rightarrow> bool" where
  "emits c bs p c' \<longleftrightarrow> grown c bs p c' \<and> cc_next c' = cc_next c \<and> cc_lexer c' = cc_lexer c"

lemma grown_trans: "grown c bs p c' \<Longrightarrow> grown c' bs' p' c'' \<Longrightarrow> grown c (bs @ bs') p' c''"
  by (simp add: grown_def)

lemma grown_refl: "grown c [] (pool c) c"
  by (simp add: grown_def)

lemma emits_trans: "emits c bs p c' \<Longrightarrow> emits c' bs' p' c'' \<Longrightarrow> emits c (bs @ bs') p' c''"
  by (auto simp: emits_def intro: grown_trans)

lemma emits_ahead: "emits c bs p c' \<Longrightarrow> ahead E ks c' = ahead E ks c"
  by (simp add: emits_def ahead_def)

lemma grown_pool: "grown c bs p c' \<Longrightarrow> pool c' = p"
  by (simp add: grown_def)

lemma grown_length: "grown c bs p c' \<Longrightarrow> length (c_bytecode c') = length (c_bytecode c) + length bs"
  by (simp add: grown_def)

section \<open>The primitives\<close>

lemma move_ok:
  assumes "ahead E (k # k' # ks) c"
  obtains t c' where "move E c = Done (Some t) c'" "strip (tk_kind t) = strip k" "ahead E (k' # ks) c'"
    "grown c [] (pool c) c'"
proof -
  obtain t where t: "cc_next c = Some t" and "tokens_ahead E t (cc_lexer c) (k # k' # ks)"
    using assms by (auto simp: ahead_def ahead_from_def split: option.splits)
  then obtain t' l' where n: "NextToken E (cc_lexer c) = Inr (t', l')" and s: "strip (tk_kind t) = strip k"
    and a: "tokens_ahead E t' l' (k' # ks)"
    by (auto split: sum.splits)
  show ?thesis
    by (rule that[of t "c\<lparr>cc_prevToken := cc_lastToken c, cc_lastToken := Some t, cc_lexer := l', cc_next := Some t',
            cc_tokenIndex := cc_tokenIndex c + 1\<rparr>"])
       (simp_all add: move_def Let_def t n s a ahead_def ahead_from_def grown_def)
qed

definition cleared :: "Front \<Rightarrow> Front" where
  "cleared c = c\<lparr>cc_lastCallTargetName := [], cc_lastCallTargetPos := None, cc_lastCallIsGlobal := False\<rparr>"

lemma clear_ok: "clearLastCallTarget c = Done () (cleared c)"
  by (simp add: clearLastCallTarget_def upd_def cleared_def)

lemma cleared_emits: "emits c [] (pool c) (cleared c)"
  by (simp add: emits_def grown_def cleared_def)

lemma cleared_simps [simp]:
  "scope (cleared c) = scope c" "pool (cleared c) = pool c" "c_bytecode (cleared c) = c_bytecode c"
  "cc_next (cleared c) = cc_next c" "cc_lexer (cleared c) = cc_lexer c" "ahead E ks (cleared c) = ahead E ks c"
  by (simp_all add: cleared_def ahead_def)

lemmas run_parse = bind_def next_do_def look_def ret_def when_do_def

lemma emit_op:
  assumes "\<not> usesWideJumpOperand op" "op \<noteq> OpCallMember"
  obtains c' where "do_emit op [] c = Done () c'" "emits c [op] (pool c) c'"
  using assms
  by (simp add: do_emit_def emit_def parse_defs emits_def grown_def)

lemma emit_op16:
  assumes "\<not> usesWideJumpOperand op" "op \<noteq> OpCallMember"
  obtains c' where "do_emit op [i] c = Done () c'" "emit op [i] c = Done (length (c_bytecode c)) c'"
    "emits c (op # be16 i) (pool c) c'"
  using assms
  by (simp add: do_emit_def emit_def parse_defs emits_def grown_def append_code_def)

lemma add_constant_ok:
  assumes "addConstant v (pool c) = (i, p)"
  obtains c' where "add_constant v c = Done i c'" "emits c [] p c'"
proof -
  have "\<exists>c'. addConstant v c = (i, c') \<and> emits c [] p c'"
    using assms
    by (auto simp: addConstant_def pool_def Let_def emits_def grown_def split: option.splits if_splits)
  then show ?thesis using that by (auto simp: add_constant_def)
qed

lemma emit_constant_ok:
  assumes "addConstant v (pool c) = (i, p)"
  obtains c' where "emit_constant v c = Done () c'" "emits c (OpConstant # be16 i) p c'"
proof -
  obtain c1 where 1: "add_constant v c = Done i c1" "emits c [] p c1"
    by (rule add_constant_ok[OF assms])
  obtain c2 where 2: "do_emit OpConstant [i] c1 = Done () c2" "emits c1 (OpConstant # be16 i) (pool c1) c2"
    by (rule emit_op16[of OpConstant i c1]) (simp_all add: usesWideJumpOperand_def op_defs)
  have "emits c (OpConstant # be16 i) p c2"
    using emits_trans[OF 1(2) 2(2)] 1(2) by (simp add: emits_def grown_def)
  then show ?thesis using that 1(1) 2(1) by (simp add: emit_constant_def run_parse)
qed

section \<open>Variables\<close>

text \<open>The load of a name that stands for a declared variable: a local, a static or a declared global that is no
  constant, outside classes.\<close>

definition slot_of :: "lex_env \<Rightarrow> Front \<Rightarrow> string \<Rightarrow> (OpCode \<times> nat) option" where
  "slot_of E c x =
     (if trim_space x \<noteq> x \<or> equal_fold x ''VMENGINE'' \<or> equal_fold x ''FreeFile'' \<or> in_class_scope c then None
      else case local_slot E x OpGetGlobal OpGetLocal c of
             Some r \<Rightarrow> Some r
           | None \<Rightarrow>
             (if lower E x \<in> cc_constGlobals c \<or> lower E x \<notin> cc_declaredGlobals c then None
              else map_option (Pair OpGetGlobal) (symbol_Get E x (cc_Globals c))))"

lemma scope_fields [simp]:
  "cc_isLocal (scope c) = cc_isLocal c" "cc_staticLocals (scope c) = cc_staticLocals c"
  "cc_locals (scope c) = cc_locals c" "cc_Globals (scope c) = cc_Globals c"
  "cc_constGlobals (scope c) = cc_constGlobals c" "cc_declaredGlobals (scope c) = cc_declaredGlobals c"
  "cc_currentClassName (scope c) = cc_currentClassName c"
  "cc_dynamicMemberResolution (scope c) = cc_dynamicMemberResolution c"
  by (simp_all add: scope_def)

lemma slot_of_scope: "slot_of E (scope c) x = slot_of E c x"
  by (simp only: slot_of_def in_class_scope_def local_slot_def scope_fields)

lemma slot_of_grown: "grown c bs p c' \<Longrightarrow> slot_of E c' x = slot_of E c x"
  by (metis grown_def slot_of_scope)

lemma slot_op: "slot_of E c x = Some (op, i) \<Longrightarrow> op = OpGetGlobal \<or> op = OpGetLocal"
  by (auto simp: slot_of_def local_slot_def split: if_splits option.splits)

definition plain_follow :: "Front \<Rightarrow> bool" where
  "plain_follow c \<longleftrightarrow> \<not> at_punct PunctDot c \<and> \<not> at_punct PunctLParen c
     \<and> \<not> at_keyword KeywordIs c \<and> \<not> at_keyword KeywordIsNot c"

lemma resolve_slot: "slot_of E c x = Some r \<Longrightarrow> resolveVar E x c = Done r c"
  by (auto simp: slot_of_def resolveVar_def resolve_global_def isTrueGlobal_def parse_defs in_class_scope_def local_slot_def
      split: if_splits option.splits)

lemma mark_load_ok:
  obtains c' where "mark_load E x op pos c = Done () c'" "emits c [] (pool c) c'"
proof -
  have "\<exists>c'. mark_load E x op pos c = Done () c' \<and> emits c [] (pool c) c'"
    by (cases "op = OpGetGlobal"; cases "trim_lower E x \<in> cc_constGlobals c"; cases "trim_lower E x = []")
       (simp_all add: mark_load_def markLastCallTarget_def registerForwardConstPatch_def parse_defs emits_def grown_def
          Let_def)
  then show ?thesis using that by blast
qed

lemma last_type_ok:
  obtains c' where "look f (\<lambda>t. case t of Some udt \<Rightarrow> updateLastEmittedType VTRecord udt
      | None \<Rightarrow> updateLastEmittedType VTEmpty []) c = Done () c'" "emits c [] (pool c) c'"
  by (cases "f c") (simp_all add: updateLastEmittedType_def parse_defs emits_def grown_def)

lemma plain_follow_emits: "emits c bs p c' \<Longrightarrow> plain_follow c' = plain_follow c"
  by (simp add: emits_def plain_follow_def at_punct_def at_keyword_def next_kind_def)

lemma narrow_ops:
  "\<not> usesWideJumpOperand OpGetGlobal" "\<not> usesWideJumpOperand OpGetLocal" "\<not> usesWideJumpOperand OpCoerceToValue"
  "\<not> usesWideJumpOperand OpNeg" "\<not> usesWideJumpOperand OpNot" "\<not> usesWideJumpOperand OpConstant"
  "\<not> usesWideJumpOperand (op_opcode b)" "usesWideJumpOperand OpJump" "usesWideJumpOperand (stop_jump s)"
  by (cases b; simp add: usesWideJumpOperand_def op_defs stop_jump_def)+

lemma not_member_call:
  "OpGetGlobal \<noteq> OpCallMember" "OpGetLocal \<noteq> OpCallMember" "OpCoerceToValue \<noteq> OpCallMember" "OpNeg \<noteq> OpCallMember"
  "OpNot \<noteq> OpCallMember" "OpConstant \<noteq> OpCallMember" "op_opcode b \<noteq> OpCallMember"
  by (cases b; simp add: op_defs)+

lemma emit_resolved_ok:
  assumes s: "slot_of E c x = Some (op, i)" and f: "plain_follow c"
  obtains c' where "emit_resolved E x c = Done () c'" "emits c (op # be16 i @ [OpCoerceToValue]) (pool c) c'"
proof -
  have op: "\<not> usesWideJumpOperand op" "op \<noteq> OpCallMember" "op = OpGetGlobal \<or> op = OpGetLocal"
    using slot_op[OF s] narrow_ops not_member_call by auto
  obtain c1 where 1: "emit op [i] c = Done (length (c_bytecode c)) c1" "emits c (op # be16 i) (pool c) c1"
    by (rule emit_op16[OF op(1,2)])
  obtain c2 where 2: "mark_load E x op (length (c_bytecode c)) c1 = Done () c2" "emits c1 [] (pool c1) c2"
    by (rule mark_load_ok)
  obtain c3 where 3: "look (record_type E x op) (\<lambda>t. case t of Some udt \<Rightarrow> updateLastEmittedType VTRecord udt
      | None \<Rightarrow> updateLastEmittedType VTEmpty []) c2 = Done () c3" "emits c2 [] (pool c2) c3"
    by (rule last_type_ok)
  obtain c4 where 4: "do_emit OpCoerceToValue [] c3 = Done () c4" "emits c3 [OpCoerceToValue] (pool c3) c4"
    by (rule emit_op[OF narrow_ops(3) not_member_call(3)])
  have p: "pool c1 = pool c" "pool c2 = pool c" "pool c3 = pool c"
    using 1(2) 2(2) 3(2) by (simp_all add: emits_def grown_def)
  have e: "emits c (op # be16 i @ [OpCoerceToValue]) (pool c) c4"
    using emits_trans[OF emits_trans[OF emits_trans[OF 1(2) 2(2)] 3(2)] 4(2)] p by simp
  have "plain_follow c3"
    using f plain_follow_emits[OF 1(2)] plain_follow_emits[OF 2(2)] plain_follow_emits[OF 3(2)] by simp
  then have "emit_resolved E x c = Done () c4"
    using resolve_slot[OF s] 1(1) 2(1) 3(1) 4(1) op(3)
    by (auto simp: emit_resolved_def emitTrailingCoerceIfValueContext_def run_parse plain_follow_def)
  then show ?thesis using e that by blast
qed

lemma variable_ok:
  assumes s: "slot_of E c x = Some (op, i)" and f: "plain_follow c"
  obtains c' where "identifier_rule n E pe x c = Done () c'"
    "emits c (op # be16 i @ [OpCoerceToValue]) (pool c) c'"
proof -
  have x: "trim_space x = x" "\<not> equal_fold x ''VMENGINE''" "\<not> equal_fold x ''FreeFile''" "\<not> in_class_scope c"
    using s by (auto simp: slot_of_def split: if_splits)
  have fallback: "emitStaticObjectIdentifierFallback E x c = Done False c"
    using s by (auto simp: slot_of_def emitStaticObjectIdentifierFallback_def parse_defs local_slot_def
        split: if_splits option.splits)
  obtain c' where c': "emit_resolved E x c = Done () c'" "emits c (op # be16 i @ [OpCoerceToValue]) (pool c) c'"
    by (rule emit_resolved_ok[OF s f])
  have "emit_plain_name E x c = Done () c'"
    using f fallback c'(1) by (simp add: emit_plain_name_def run_parse plain_follow_def forward_callee_def)
  then have "emitIdentifierValue E x c = Done () c'"
    using x f by (simp add: emitIdentifierValue_def run_parse plain_follow_def Let_def)
  moreover have "compileImplicitClassMemberCall n E pe x c = Done False c"
    using x by (simp add: compileImplicitClassMemberCall_def run_parse)
  ultimately show ?thesis using that c'(2) by (simp add: identifier_rule_def run_parse)
qed

section \<open>Jumps that are patched\<close>

lemma length_be [simp]: "length (be32 n) = 4" "length (be16 n) = 2"
  by (simp_all add: be32_def be16_def)

lemma put_be32_at: "put_be32 (pre @ be32 x @ post) (length pre) t = Some (pre @ be32 t @ post)"
  by (simp add: put_be32_def be32_def list_update_append)

lemma patch_ok:
  assumes "c_bytecode c = pre @ op # be32 x @ post" "usesWideJumpOperand op" "pos = length pre + 1"
  shows "patchJumpTo pos t c = Done () (c\<lparr>c_bytecode := pre @ op # be32 t @ post\<rparr>)"
  using put_be32_at[of "pre @ [op]" x post t] assms by (simp add: patchJumpTo_def)

lemma emit_jump_ok:
  assumes "usesWideJumpOperand op"
  obtains c' where "emitJump op c = Done (length (c_bytecode c) + 1) c'" "emits c (op # be32 0) (pool c) c'"
proof -
  have "op \<noteq> OpCallMember" "op \<noteq> OpCoerceToValue" using assms by (auto simp: usesWideJumpOperand_def op_defs)
  then show ?thesis
    using assms that
    by (simp add: emitJump_def emit_def parse_defs emits_def grown_def append_code_def)
qed

lemma patch_emits:
  assumes "emits c0 (b1 @ op # be32 x @ b2) p c" "usesWideJumpOperand op" "pos = length (c_bytecode c0) + length b1 + 1"
  obtains c' where "patchJumpTo pos t c = Done () c'" "emits c0 (b1 @ op # be32 t @ b2) p c'"
proof -
  have "c_bytecode c = (c_bytecode c0 @ b1) @ op # be32 x @ b2"
    using assms(1) by (simp add: emits_def grown_def)
  then have "patchJumpTo pos t c = Done () (c\<lparr>c_bytecode := (c_bytecode c0 @ b1) @ op # be32 t @ b2\<rparr>)"
    by (rule patch_ok[OF _ assms(2)]) (simp add: assms(3))
  then show ?thesis using that assms(1) by (simp add: emits_def grown_def)
qed

lemma patch_here: "patchJump pos c = patchJumpTo pos (length (c_bytecode c)) c"
  by (simp add: patchJump_def look_def)

lemma emits_length: "emits c bs p c' \<Longrightarrow> length (c_bytecode c') = length (c_bytecode c) + length bs"
  by (simp add: emits_def grown_def)

lemma emits_pool: "emits c bs p c' \<Longrightarrow> pool c' = p"
  by (simp add: emits_def grown_def)

text \<open>What follows the right operand of a short-circuit operator.\<close>

lemma short_tail_ok:
  assumes e: "emits c0 (J # be32 0 @ br) p c" and J: "usesWideJumpOperand J"
    and i: "addConstant (NewBool (\<not> S)) p = (i, p3)" and j: "addConstant (NewBool S) p3 = (j, p4)"
    and early: "early = length (c_bytecode c0) + 5 + length br + 5 + 3 + 5"
  obtains c' where
    "bind (emitJump J) (\<lambda>j2. next_do (emit_constant (NewBool (\<not> S)))
      (bind (emitJump OpJump) (\<lambda>stop. bind (add_constant (NewBool S)) (\<lambda>i.
        next_do (patchJump (length (c_bytecode c0) + 1)) (next_do (patchJump j2)
          (next_do (do_emit OpConstant [i]) (patchJump stop))))))) c = Done () c'"
    "emits c0 ((J # be32 early) @ br @ (J # be32 early) @ (OpConstant # be16 i) @ (OpJump # be32 (early + 3))
       @ (OpConstant # be16 j)) p4 c'"
proof -
  obtain c1 where 1: "emitJump J c = Done (length (c_bytecode c) + 1) c1" "emits c (J # be32 0) (pool c) c1"
    by (rule emit_jump_ok[OF J])
  note e1 = emits_trans[OF e 1(2)]
  obtain c2 where 2: "emit_constant (NewBool (\<not> S)) c1 = Done () c2" "emits c1 (OpConstant # be16 i) p3 c2"
    by (rule emit_constant_ok[of "NewBool (\<not> S)" c1 i p3]) (use i emits_pool[OF e1] emits_pool[OF e] in simp_all)
  note e2 = emits_trans[OF e1 2(2)]
  obtain c3 where 3: "emitJump OpJump c2 = Done (length (c_bytecode c2) + 1) c3" "emits c2 (OpJump # be32 0) (pool c2) c3"
    by (rule emit_jump_ok[OF narrow_ops(8)])
  note e3 = emits_trans[OF e2 3(2)]
  obtain c4 where 4: "add_constant (NewBool S) c3 = Done j c4" "emits c3 [] p4 c4"
    by (rule add_constant_ok[of "NewBool S" c3 j p4]) (use j emits_pool[OF e3] emits_pool[OF e2] in simp_all)
  have e4: "emits c0 ([] @ J # be32 0 @ (br @ (J # be32 0) @ (OpConstant # be16 i) @ (OpJump # be32 0))) p4 c4"
    using emits_trans[OF e3 4(2)] by simp
  obtain c5 where 5: "patchJumpTo (length (c_bytecode c0) + 1) (length (c_bytecode c4)) c4 = Done () c5"
      "emits c0 ([] @ J # be32 (length (c_bytecode c4)) @ (br @ (J # be32 0) @ (OpConstant # be16 i) @ (OpJump # be32 0))) p4 c5"
    by (rule patch_emits[OF e4 J]) simp_all
  have l4: "length (c_bytecode c4) = early" using emits_length[OF e4] early by simp
  have l5: "length (c_bytecode c5) = early" using emits_length[OF 5(2)] early by simp
  have e5: "emits c0 ((J # be32 early @ br) @ J # be32 0 @ ((OpConstant # be16 i) @ (OpJump # be32 0))) p4 c5"
    using 5(2) l4 by simp
  obtain c6 where 6: "patchJumpTo (length (c_bytecode c) + 1) early c5 = Done () c6"
      "emits c0 ((J # be32 early @ br) @ J # be32 early @ ((OpConstant # be16 i) @ (OpJump # be32 0))) p4 c6"
    by (rule patch_emits[OF e5 J]) (simp_all add: emits_length[OF e])
  obtain c7 where 7: "do_emit OpConstant [j] c6 = Done () c7" "emits c6 (OpConstant # be16 j) (pool c6) c7"
    by (rule emit_op16[OF narrow_ops(6) not_member_call(6)])
  have e7: "emits c0 ((J # be32 early @ br @ J # be32 early @ OpConstant # be16 i) @ OpJump # be32 0 @ (OpConstant # be16 j)) p4 c7"
    using emits_trans[OF 6(2) 7(2)] emits_pool[OF 6(2)] by simp
  have l7: "length (c_bytecode c7) = early + 3" using emits_length[OF e7] early by simp
  have l2: "length (c_bytecode c2) + 1 = length (c_bytecode c0) + length (J # be32 early @ br @ J # be32 early @ OpConstant # be16 i) + 1"
    using emits_length[OF e2] by simp
  obtain c8 where 8: "patchJumpTo (length (c_bytecode c2) + 1) (early + 3) c7 = Done () c8"
      "emits c0 ((J # be32 early @ br @ J # be32 early @ OpConstant # be16 i) @ OpJump # be32 (early + 3) @ (OpConstant # be16 j)) p4 c8"
    by (rule patch_emits[OF e7 narrow_ops(8) l2])
  show ?thesis
    by (rule that[of c8]) (use 1(1) 2(1) 3(1) 4(1) 5(1) 6(1) 7(1) 8 l4 l5 l7 in \<open>simp_all add: run_parse patch_here\<close>)
qed

section \<open>The rules of the operators\<close>

lemma op_precedence: "strip k = strip (op_token b) \<Longrightarrow> getPrecedence (Some k) = op_level b"
  by (drule precedence_strip)
     (cases b; simp add: getPrecedence_def punct_precedence_def keyword_precedence_def prec_defs keyword_defs)

lemma short_precedence: "strip k = strip (short_token s) \<Longrightarrow> getPrecedence (Some k) = short_level s"
  by (drule precedence_strip)
     (cases s; simp add: getPrecedence_def punct_precedence_def keyword_precedence_def prec_defs keyword_defs)

text \<open>The precedence with which the right operand is parsed.\<close>

definition right_prec :: "binop \<Rightarrow> Precedence" where "right_prec b = (if b = BPow then 13 else op_level b)"

lemma infix_op: "strip k = strip (op_token b) \<Longrightarrow>
  getInfixRule n E pe (Some k) = Some (binary_rule pe (right_prec b) (do_emit (op_opcode b) []))"
  by (cases b) (auto simp: getInfixRule_def Let_def right_prec_def prec_defs keyword_defs)

lemma infix_short: "strip k = strip (short_token s) \<Longrightarrow>
  getInfixRule n E pe (Some k) = Some (short_circuit pe (short_level s) (stop_jump s) (stop_value s))"
  by (cases s) (auto simp: getInfixRule_def Let_def prec_defs keyword_defs stop_jump_def stop_value_def)

text \<open>A token that may follow a complete operand.\<close>

definition plain_token :: "token_kind \<Rightarrow> bool" where
  "plain_token k \<longleftrightarrow> strip k \<notin> {lparen, PunctuationToken PunctDot, KeywordToken KeywordIs [], KeywordToken KeywordIsNot []}"

lemma plain_tokens: "plain_token (op_token b)" "plain_token (short_token s)" "plain_token rparen"
  by (cases b; simp add: plain_token_def keyword_defs) (cases s; simp add: plain_token_def keyword_defs)+

lemma plain_follow_ahead:
  assumes "ahead E (k # ks) c" "plain_token k"
  shows "plain_follow c"
proof -
  obtain t where t: "cc_next c = Some t" "strip (tk_kind t) = strip k" using ahead_head[OF assms(1)] by blast
  have "plain_token (tk_kind t)" using assms(2) unfolding plain_token_def t(2) .
  then show ?thesis
    by (cases "tk_kind t") (auto simp: plain_token_def plain_follow_def at_punct_def at_keyword_def next_kind_def t(1))
qed

text \<open>The loosest operator that may follow an expression without being taken into it.\<close>

fun tail_level :: "expr \<Rightarrow> nat" where
  "tail_level (Lit _) = 15"
| "tail_level (Var _) = 15"
| "tail_level (Neg _) = 13"
| "tail_level (Not _) = 7"
| "tail_level (Bin b _ _) = right_prec b"
| "tail_level (Short s _ _) = short_level s"

fun prefix_form :: "expr \<Rightarrow> bool" where
  "prefix_form (Bin _ _ _) = False"
| "prefix_form (Short _ _ _) = False"
| "prefix_form _ = True"

fun weight :: "expr \<Rightarrow> nat" where
  "weight (Lit _) = 3"
| "weight (Var _) = 3"
| "weight (Neg e) = 3 + weight e"
| "weight (Not e) = 3 + weight e"
| "weight (Bin _ l r) = 3 + weight l + weight r"
| "weight (Short _ l r) = 3 + weight l + weight r"

lemma tail_level_bound: "min (level e) 13 \<le> tail_level e"
proof (cases e)
  case (Bin b l r)
  then show ?thesis by (cases b) (simp_all add: right_prec_def)
next
  case (Short s l r)
  then show ?thesis by (cases s) simp_all
qed simp_all

lemma print_nonempty: "\<exists>a as. print_expr ctx e = a # as"
proof -
  have "print_raw e \<noteq> []" by (cases e) simp_all
  then show ?thesis by (cases "print_raw e") (simp_all add: parens_def)
qed

text \<open>\<open>compiled\<close>: parsing at precedence \<open>q\<close> has come to the loop behind the expression \<open>e\<close>, with the tokens \<open>ks\<close> ahead.\<close>

definition compiled ::
    "lex_env \<Rightarrow> (gotime \<Rightarrow> Value) \<Rightarrow> (string \<Rightarrow> OpCode \<times> nat) \<Rightarrow> nat \<Rightarrow> nat \<Rightarrow> Precedence \<Rightarrow> expr \<Rightarrow> token_kind list \<Rightarrow> Front \<Rightarrow> bool"
where
  "compiled E date slot w n q e ks c \<longleftrightarrow>
     (\<exists>m c'. n \<le> m + w \<and> parseExpression (Suc n) E date q c = infix_loop m E (parseExpression n E date) q c'
       \<and> ahead E ks c' \<and> grown c (fst (gen slot e (length (c_bytecode c)) (pool c)))
                                (snd (gen slot e (length (c_bytecode c)) (pool c))) c')"

lemma loop_stop: "getPrecedence (next_kind c) \<le> p \<Longrightarrow> infix_loop (Suc m) E pe p c = Done () c"
  by (simp add: run_parse)

lemma next_precedence: "ahead E (k # ks) c \<Longrightarrow> getPrecedence (next_kind c) = getPrecedence (Some k)"
  by (drule ahead_head) (auto simp: next_kind_def intro: precedence_strip)

lemma compiled_done:
  assumes "compiled E date slot w n q e (k # ks) c" "w < n" "getPrecedence (Some k) \<le> q"
  obtains c' where "parseExpression (Suc n) E date q c = Done () c'" "ahead E (k # ks) c'"
    "grown c (fst (gen slot e (length (c_bytecode c)) (pool c))) (snd (gen slot e (length (c_bytecode c)) (pool c))) c'"
proof -
  obtain m c' where m: "n \<le> m + w" and p: "parseExpression (Suc n) E date q c = infix_loop m E (parseExpression n E date) q c'"
    and c': "ahead E (k # ks) c'" "grown c (fst (gen slot e (length (c_bytecode c)) (pool c)))
      (snd (gen slot e (length (c_bytecode c)) (pool c))) c'"
    using assms(1) by (auto simp: compiled_def)
  obtain m' where "m = Suc m'" using m assms(2) by (cases m) auto
  then show ?thesis
    using that p c' loop_stop[of c' q m'] next_precedence[OF c'(1)] assms(3) by (simp del: infix_loop.simps)
qed

text \<open>One round of the loop: the operator is read and its rule runs.\<close>

lemma loop_round:
  assumes a: "ahead E (k # k' # ks) c" and p: "p < getPrecedence (Some k)"
    and rule: "\<And>t. strip t = strip k \<Longrightarrow> getInfixRule m E pe (Some t) = Some r"
  obtains c1 where "infix_loop (Suc m) E pe p c = next_do r (infix_loop m E pe p) c1" "ahead E (k' # ks) c1"
    "grown c [] (pool c) c1"
proof -
  obtain t c1 where 1: "move E c = Done (Some t) c1" "strip (tk_kind t) = strip k" "ahead E (k' # ks) c1"
      "grown c [] (pool c) c1"
    by (rule move_ok[OF a])
  have "infix_loop (Suc m) E pe p c = next_do r (infix_loop m E pe p) c1"
    using p next_precedence[OF a] 1(1) rule[OF 1(2)] by (simp add: look_def bind_def)
  then show ?thesis using that 1 by blast
qed

text \<open>The prefix rule of the first token runs and leads to the loop.\<close>

lemma prefix_round:
  assumes a: "ahead E (k # k' # ks) c"
    and rule: "\<And>t c1. strip t = strip k \<Longrightarrow> getPrefixRule n E date (parseExpression n E date) c1 (Some t) = Some r"
  obtains c1 where "parseExpression (Suc n) E date q c = next_do r (infix_loop n E (parseExpression n E date) q) c1"
    "ahead E (k' # ks) c1" "grown c [] (pool c) c1"
proof -
  obtain t c1 where 1: "move E c = Done (Some t) c1" "strip (tk_kind t) = strip k" "ahead E (k' # ks) c1"
      "grown c [] (pool c) c1"
    by (rule move_ok[OF a])
  have "parseExpression (Suc n) E date q c = next_do r (infix_loop n E (parseExpression n E date) q) c1"
    using 1(1) rule[OF 1(2), of c1] by (simp add: look_def bind_def)
  then show ?thesis using that 1 by blast
qed

end
