(* ===== verification/CompParse.thy ===== *)
theory CompParse
  imports CompLaws LexerLiterals
begin

text \<open>
  What is printed is parsed back: from a state in front of the tokens of an expression, \<open>parseExpression\<close> reads
  exactly these tokens and appends \<open>gen\<close> of the expression to the code.
\<close>

section \<open>The induction\<close>

lemma prefix_lit:
  "strip t = strip (lit_token l) \<Longrightarrow> getPrefixRule n E date pe c (Some t) = Some (literal (lit_value l))"
  by (drule strip_lit[THEN iffD1]) (cases l; simp add: getPrefixRule_def)

lemma prefix_var:
  "strip t = strip (IdentifierToken x) \<Longrightarrow> getPrefixRule n E date pe c (Some t) = Some (identifier_rule n E pe x)"
  by (simp add: getPrefixRule_def)

lemma prefix_neg:
  "strip t = strip (PunctuationToken PunctMinus) \<Longrightarrow> getPrefixRule n E date pe c (Some t) = Some (unary_rule pe 13 [OpNeg])"
  by (simp add: getPrefixRule_def prec_defs)

lemma prefix_not:
  "strip t = strip (KeywordToken KeywordNot []) \<Longrightarrow> getPrefixRule n E date pe c (Some t) = Some (unary_rule pe 7 [OpNot])"
  by (auto simp: getPrefixRule_def prec_defs)

lemma prefix_paren:
  "strip t = strip lparen \<Longrightarrow> getPrefixRule n E date pe c (Some t) = Some (paren_rule E pe)"
  by (simp add: getPrefixRule_def)

lemma gen_pool: "pool c = p \<Longrightarrow> gen slot e i (pool c) = gen slot e i p"
  by simp

text \<open>The expressions whose variables have a slot.\<close>

definition slots_ok :: "lex_env \<Rightarrow> Front \<Rightarrow> (string \<Rightarrow> OpCode \<times> nat) \<Rightarrow> expr \<Rightarrow> bool" where
  "slots_ok E c slot e \<longleftrightarrow> (\<forall>x \<in> vars e. slot_of E c x = Some (slot x))"

lemma slots_grown: "grown c bs p c' \<Longrightarrow> slots_ok E c' slot e = slots_ok E c slot e"
  by (simp add: slots_ok_def slot_of_grown)

lemma slots_emits: "emits c bs p c' \<Longrightarrow> slots_ok E c' slot e = slots_ok E c slot e"
  by (auto simp: emits_def dest: slots_grown)

text \<open>What the induction shows of an expression: as it stands, and as it is printed in a context.\<close>

definition compiles_raw ::
    "lex_env \<Rightarrow> (gotime \<Rightarrow> Value) \<Rightarrow> (string \<Rightarrow> OpCode \<times> nat) \<Rightarrow> expr \<Rightarrow> bool" where
  "compiles_raw E date slot e \<longleftrightarrow>
     (\<forall>n q c k ks. weight e < n \<longrightarrow> ahead E (print_raw e @ k # ks) c \<longrightarrow> plain_token k
        \<longrightarrow> getPrecedence (Some k) \<le> tail_level e \<longrightarrow> q < level e \<or> prefix_form e \<longrightarrow> slots_ok E c slot e
        \<longrightarrow> compiled E date slot (weight e) n q e (k # ks) c)"

lemma compiles_rawD:
  assumes "compiles_raw E date slot e" "ahead E (print_raw e @ k # ks) c" "weight e < n" "plain_token k"
    "getPrecedence (Some k) \<le> tail_level e" "q < level e \<or> prefix_form e" "slots_ok E c slot e"
  shows "compiled E date slot (weight e) n q e (k # ks) c"
  using assms unfolding compiles_raw_def by blast

lemma level_pos: "0 < level e"
proof (cases e)
  case (Bin b l r)
  then show ?thesis by (cases b) simp_all
next
  case (Short s l r)
  then show ?thesis by (cases s) simp_all
qed simp_all

lemma prefix_level: "level e = 7 \<or> level e = 13 \<Longrightarrow> prefix_form e"
proof (cases e)
  case (Bin b l r)
  then show "level e = 7 \<or> level e = 13 \<Longrightarrow> prefix_form e" by (cases b) simp_all
next
  case (Short s l r)
  then show "level e = 7 \<or> level e = 13 \<Longrightarrow> prefix_form e" by (cases s) simp_all
qed simp_all

lemma rparen_precedence: "getPrecedence (Some rparen) = 0"
  by (simp add: getPrecedence_def punct_precedence_def PrecNone_def)

lemma compiled_mono: "compiled E date slot w n q e ks c \<Longrightarrow> w \<le> w' \<Longrightarrow> compiled E date slot w' n q e ks c"
  unfolding compiled_def by (meson add_left_mono le_trans)

lemma compiles_print:
  assumes raw: "compiles_raw E date slot e" and n: "weight e + 1 < n"
    and a: "ahead E (print_expr ctx e @ k # ks) c" and k: "plain_token k"
    and tail: "ctx \<le> level e \<Longrightarrow> getPrecedence (Some k) \<le> tail_level e \<and> (q < level e \<or> prefix_form e)"
    and slots: "slots_ok E c slot e"
  shows "compiled E date slot (weight e + 1) n q e (k # ks) c"
proof (cases "level e < ctx")
  case False
  have "compiled E date slot (weight e) n q e (k # ks) c"
    using raw n a k tail slots False by (auto simp: compiles_raw_def parens_def)
  then show ?thesis by (rule compiled_mono) simp
next
  case True
  obtain n' where n': "n = Suc n'" using n by (cases n) auto
  obtain r rs where rs: "print_raw e @ rparen # k # ks = r # rs" by (cases "print_raw e") auto
  have a': "ahead E (lparen # r # rs) c" using a True rs by (simp add: parens_def)
  obtain c1 where 1: "parseExpression (Suc n) E date q c
        = next_do (paren_rule E (parseExpression n E date)) (infix_loop n E (parseExpression n E date) q) c1"
      "ahead E (r # rs) c1" "grown c [] (pool c) c1"
    by (rule prefix_round[OF a' prefix_paren])
  have g1: "grown c [] (pool c) (cleared c1)" using 1(3) by (simp add: grown_def)
  have "ahead E (print_raw e @ rparen # k # ks) (cleared c1)" using 1(2) rs by simp
  then have "compiled E date slot (weight e) n' PrecNone e (rparen # k # ks) (cleared c1)"
    by (rule compiles_rawD[OF raw])
       (use n n' plain_tokens(3) slots slots_grown[OF g1] level_pos[of e] in \<open>simp_all add: rparen_precedence PrecNone_def\<close>)
  then obtain c2 where 2: "parseExpression n E date PrecNone (cleared c1) = Done () c2" "ahead E (rparen # k # ks) c2"
      "grown (cleared c1) (fst (gen slot e (length (c_bytecode c1)) (pool c1)))
         (snd (gen slot e (length (c_bytecode c1)) (pool c1))) c2"
    using n n' compiled_done[of E date slot "weight e" n' PrecNone e rparen "k # ks" "cleared c1"]
    by (auto simp: rparen_precedence PrecNone_def)
  obtain t c3 where 3: "move E c2 = Done (Some t) c3" "ahead E (k # ks) c3" "grown c2 [] (pool c2) c3"
    by (rule move_ok[OF 2(2)])
  have rp: "at_punct PunctRParen c2"
    using ahead_head[OF 2(2)] by (auto simp: at_punct_def next_kind_def)
  have "paren_rule E (parseExpression n E date) c1 = Done () c3"
    using 2(1) 3(1) rp by (simp add: paren_rule_def run_parse clear_ok)
  then have p: "parseExpression (Suc n) E date q c = infix_loop n E (parseExpression n E date) q c3"
    using 1(1) by (simp add: run_parse)
  have g: "grown c (fst (gen slot e (length (c_bytecode c)) (pool c))) (snd (gen slot e (length (c_bytecode c)) (pool c))) c3"
    using grown_trans[OF grown_trans[OF g1 2(3)] 3(3)] 1(3) 2(3) by (simp add: grown_def)
  show ?thesis unfolding compiled_def using p g 3(2) by (intro exI[of _ n] exI[of _ c3]) simp
qed

lemma compiledI:
  assumes "parseExpression (Suc n) E date q c = infix_loop m E (parseExpression n E date) q c'" "n \<le> m + w"
    "ahead E ks c'" "grown c bs p c'" "bs = fst (gen slot e (length (c_bytecode c)) (pool c))" "p = snd (gen slot e (length (c_bytecode c)) (pool c))"
  shows "compiled E date slot w n q e ks c"
  unfolding compiled_def using assms by (intro exI[of _ m] exI[of _ c']) simp

lemma compiles_atom:
  assumes "print_raw e = [tk]" and w: "weight e = 3"
    and rule: "\<And>t n pe c. strip t = strip tk \<Longrightarrow> getPrefixRule n E date pe c (Some t) = Some (r n pe)"
    and run: "\<And>n pe c. plain_follow c \<Longrightarrow> slots_ok E c slot e \<Longrightarrow> \<exists>c'. r n pe c = Done () c' \<and>
       emits c (fst (gen slot e (length (c_bytecode c)) (pool c))) (snd (gen slot e (length (c_bytecode c)) (pool c))) c'"
  shows "compiles_raw E date slot e"
  unfolding compiles_raw_def
proof (intro allI impI)
  fix n q c k ks
  assume n: "weight e < n" and "ahead E (print_raw e @ k # ks) c" and k: "plain_token k" and s: "slots_ok E c slot e"
  then have a: "ahead E (tk # k # ks) c" using assms(1) by simp
  obtain c1 where 1: "parseExpression (Suc n) E date q c
        = next_do (r n (parseExpression n E date)) (infix_loop n E (parseExpression n E date) q) c1"
      "ahead E (k # ks) c1" "grown c [] (pool c) c1"
    by (rule prefix_round[OF a rule])
  have "slots_ok E c1 slot e" using s slots_grown[OF 1(3)] by simp
  then obtain c2 where 2: "r n (parseExpression n E date) c1 = Done () c2"
      "emits c1 (fst (gen slot e (length (c_bytecode c1)) (pool c1))) (snd (gen slot e (length (c_bytecode c1)) (pool c1))) c2"
    using run[OF plain_follow_ahead[OF 1(2) k]] by blast
  have g: "grown c (fst (gen slot e (length (c_bytecode c)) (pool c))) (snd (gen slot e (length (c_bytecode c)) (pool c))) c2"
    using 1(3) 2(2) by (simp add: grown_def emits_def)
  show "compiled E date slot (weight e) n q e (k # ks) c"
    by (rule compiledI[where m = n and c' = c2]) (use 1 2 g emits_ahead[OF 2(2)] in \<open>simp_all add: run_parse\<close>)
qed

lemma compiles_lit: "compiles_raw E date slot (Lit l)"
proof (rule compiles_atom[where tk = "lit_token l" and r = "\<lambda>_ _. literal (lit_value l)"])
  fix c
  obtain i p where ip: "addConstant (lit_value l) (pool (cleared c)) = (i, p)" by fastforce
  obtain c' where c': "emit_constant (lit_value l) (cleared c) = Done () c'" "emits (cleared c) (OpConstant # be16 i) p c'"
    by (rule emit_constant_ok[OF ip])
  show "\<exists>c'. literal (lit_value l) c = Done () c' \<and>
      emits c (fst (gen slot (Lit l) (length (c_bytecode c)) (pool c))) (snd (gen slot (Lit l) (length (c_bytecode c)) (pool c))) c'"
    using c' ip emits_trans[OF cleared_emits c'(2)] by (auto simp: literal_def run_parse clear_ok)
qed (simp_all add: prefix_lit)

lemma compiles_var: "compiles_raw E date slot (Var x)"
proof (rule compiles_atom[where tk = "IdentifierToken x" and r = "\<lambda>n pe. identifier_rule n E pe x"])
  fix n pe c
  assume "plain_follow c" "slots_ok E c slot (Var x)"
  then show "\<exists>c'. identifier_rule n E pe x c = Done () c' \<and>
      emits c (fst (gen slot (Var x) (length (c_bytecode c)) (pool c))) (snd (gen slot (Var x) (length (c_bytecode c)) (pool c))) c'"
    using variable_ok[of E c x "fst (slot x)" "snd (slot x)" n pe] by (auto simp: slots_ok_def)
qed (simp_all add: prefix_var)

lemma compiles_unary:
  assumes raw: "compiles_raw E date slot e" and u: "u = 13 \<or> u = 7"
    and e': "print_raw e' = tk # print_expr u e" "tail_level e' = u" "weight e' = 3 + weight e" "vars e' = vars e"
    and g: "\<And>pos p. gen slot e' pos p = (let (bs, p') = gen slot e pos p in (bs @ [op], p'))"
    and op: "\<not> usesWideJumpOperand op" "op \<noteq> OpCallMember"
    and rule: "\<And>t n pe c. strip t = strip tk \<Longrightarrow> getPrefixRule n E date pe c (Some t) = Some (unary_rule pe u [op])"
  shows "compiles_raw E date slot e'"
  unfolding compiles_raw_def
proof (intro allI impI)
  fix n q c k ks
  assume n: "weight e' < n" and "ahead E (print_raw e' @ k # ks) c" and k: "plain_token k"
    and pk: "getPrecedence (Some k) \<le> tail_level e'" and s: "slots_ok E c slot e'"
  obtain a as where aas: "print_expr u e @ k # ks = a # as" using print_nonempty[of u e] by auto
  have a: "ahead E (tk # a # as) c" using \<open>ahead E (print_raw e' @ k # ks) c\<close> e'(1) aas by simp
  obtain n' where n': "n = Suc n'" using n by (cases n) auto
  obtain c1 where 1: "parseExpression (Suc n) E date q c
        = next_do (unary_rule (parseExpression n E date) u [op]) (infix_loop n E (parseExpression n E date) q) c1"
      "ahead E (a # as) c1" "grown c [] (pool c) c1"
    by (rule prefix_round[OF a rule])
  have g1: "grown c [] (pool c) (cleared c1)" using 1(3) by (simp add: grown_def)
  have "compiled E date slot (weight e + 1) n' u e (k # ks) (cleared c1)"
  proof (rule compiles_print[OF raw])
    show "weight e + 1 < n'" using n n' e'(3) by simp
    show "ahead E (print_expr u e @ k # ks) (cleared c1)" using 1(2) aas by simp
    show "plain_token k" by (rule k)
    show "slots_ok E (cleared c1) slot e" using s slots_grown[OF g1] e'(4) by (simp add: slots_ok_def)
    assume "u \<le> level e"
    then show "getPrecedence (Some k) \<le> tail_level e \<and> (u < level e \<or> prefix_form e)"
      using pk e'(2) u tail_level_bound[of e] prefix_level[of e] by fastforce
  qed
  then obtain c2 where 2: "parseExpression n E date u (cleared c1) = Done () c2" "ahead E (k # ks) c2"
      "grown (cleared c1) (fst (gen slot e (length (c_bytecode c1)) (pool c1)))
         (snd (gen slot e (length (c_bytecode c1)) (pool c1))) c2"
    using n n' e'(2,3) pk compiled_done[of E date slot "weight e + 1" n' u e k ks "cleared c1"] by auto
  obtain c3 where 3: "do_emit op [] c2 = Done () c3" "emits c2 [op] (pool c2) c3"
    by (rule emit_op[OF op])
  have g3: "grown c (fst (gen slot e' (length (c_bytecode c)) (pool c))) (snd (gen slot e' (length (c_bytecode c)) (pool c))) c3"
    using 1(3) 2(3) 3(2) by (simp add: g grown_def emits_def split: prod.splits)
  show "compiled E date slot (weight e') n q e' (k # ks) c"
    by (rule compiledI[where m = n and c' = c3])
       (use 1 2 3 g3 emits_ahead[OF 3(2)] in \<open>simp_all add: unary_rule_def run_parse clear_ok\<close>)
qed

text \<open>A left operand and its operator.\<close>

lemma left_operand:
  assumes raw: "compiles_raw E date slot l" and n: "weight l + 1 < n"
    and a: "ahead E (print_expr ctx l @ k # k' # ks) c" and k: "plain_token k"
    and pk: "q < getPrecedence (Some k)" "ctx \<le> level l \<Longrightarrow> getPrecedence (Some k) \<le> tail_level l"
      "ctx \<le> level l \<Longrightarrow> q < level l"
    and rule: "\<And>t n pe. strip t = strip k \<Longrightarrow> getInfixRule n E pe (Some t) = Some (r pe)"
    and s: "slots_ok E c slot l"
  obtains m c1 where "parseExpression (Suc n) E date q c
      = next_do (r (parseExpression n E date)) (infix_loop m E (parseExpression n E date) q) c1"
    "ahead E (k' # ks) c1" "n \<le> m + weight l + 2"
    "grown c (fst (gen slot l (length (c_bytecode c)) (pool c))) (snd (gen slot l (length (c_bytecode c)) (pool c))) c1"
proof -
  have "compiled E date slot (weight l + 1) n q l (k # k' # ks) c"
    by (rule compiles_print[OF raw n a k _ s]) (use pk in simp)
  then obtain m c' where 1: "n \<le> m + (weight l + 1)"
      "parseExpression (Suc n) E date q c = infix_loop m E (parseExpression n E date) q c'" "ahead E (k # k' # ks) c'"
      "grown c (fst (gen slot l (length (c_bytecode c)) (pool c))) (snd (gen slot l (length (c_bytecode c)) (pool c))) c'"
    unfolding compiled_def by blast
  obtain m' where m': "m = Suc m'" using 1(1) n by (cases m) auto
  obtain c1 where 2: "infix_loop (Suc m') E (parseExpression n E date) q c'
        = next_do (r (parseExpression n E date)) (infix_loop m' E (parseExpression n E date) q) c1"
      "ahead E (k' # ks) c1" "grown c' [] (pool c') c1"
    by (rule loop_round[OF 1(3) pk(1) rule])
  show ?thesis
    by (rule that[of m' c1])
       (use 1 2 m' grown_trans[OF 1(4) 2(3)] grown_pool[OF 1(4)] in \<open>simp_all del: infix_loop.simps\<close>)
qed

text \<open>A right operand.\<close>

lemma right_operand:
  assumes raw: "compiles_raw E date slot e" and n: "weight e + 1 < n'"
    and a: "ahead E (print_expr ctx e @ k # ks) c" and k: "plain_token k"
    and pk: "getPrecedence (Some k) \<le> u" "ctx \<le> level e \<Longrightarrow> u \<le> tail_level e"
      "ctx \<le> level e \<Longrightarrow> u < level e \<or> prefix_form e"
    and s: "slots_ok E c slot e"
  obtains c' where "parseExpression (Suc n') E date u c = Done () c'" "ahead E (k # ks) c'"
    "grown c (fst (gen slot e (length (c_bytecode c)) (pool c))) (snd (gen slot e (length (c_bytecode c)) (pool c))) c'"
proof -
  have "compiled E date slot (weight e + 1) n' u e (k # ks) c"
    by (rule compiles_print[OF raw n a k _ s]) (use pk in fastforce)
  then show ?thesis using compiled_done[OF _ n pk(1)] that by blast
qed

lemma left_levels:
  "left_level b \<le> level e \<Longrightarrow> op_level b \<le> tail_level e"
  "q < op_level b \<Longrightarrow> left_level b \<le> level e \<Longrightarrow> q < level e"
  "short_level s \<le> level e \<Longrightarrow> short_level s \<le> tail_level e"
  "q < short_level s \<Longrightarrow> short_level s \<le> level e \<Longrightarrow> q < level e"
proof -
  have e: "level e \<le> 14 \<or> tail_level e = 15"
  proof (cases e)
    case (Bin b l r)
    then show ?thesis by (cases b) simp_all
  next
    case (Short s l r)
    then show ?thesis by (cases s) simp_all
  qed simp_all
  show "left_level b \<le> level e \<Longrightarrow> op_level b \<le> tail_level e"
    using tail_level_bound[of e] e by (cases b) (auto simp: left_level_def)
  show "q < op_level b \<Longrightarrow> left_level b \<le> level e \<Longrightarrow> q < level e"
    by (cases b) (simp_all add: left_level_def)
  show "short_level s \<le> level e \<Longrightarrow> short_level s \<le> tail_level e"
    using tail_level_bound[of e] by (cases s) auto
qed simp

lemma right_levels:
  "right_level b \<le> level e \<Longrightarrow> right_prec b \<le> tail_level e"
  "right_level b \<le> level e \<Longrightarrow> right_prec b < level e \<or> prefix_form e"
  "short_level s + 1 \<le> level e \<Longrightarrow> short_level s \<le> tail_level e"
  "short_level s + 1 \<le> level e \<Longrightarrow> short_level s < level e \<or> prefix_form e"
proof -
  show "right_level b \<le> level e \<Longrightarrow> right_prec b \<le> tail_level e"
    using tail_level_bound[of e] by (cases b) (auto simp: right_level_def right_prec_def)
  show "right_level b \<le> level e \<Longrightarrow> right_prec b < level e \<or> prefix_form e"
    using prefix_level[of e] by (cases b; cases "level e = 13") (auto simp: right_level_def right_prec_def)
  show "short_level s + 1 \<le> level e \<Longrightarrow> short_level s \<le> tail_level e"
    using tail_level_bound[of e] by (cases s) auto
qed simp

lemma compiles_bin:
  assumes l: "compiles_raw E date slot l" and r: "compiles_raw E date slot r"
  shows "compiles_raw E date slot (Bin b l r)"
  unfolding compiles_raw_def
proof (intro allI impI)
  let ?e = "Bin b l r"
  fix n q c k ks
  assume n: "weight ?e < n" and a0: "ahead E (print_raw ?e @ k # ks) c" and k: "plain_token k"
    and pk: "getPrecedence (Some k) \<le> tail_level ?e" and q: "q < level ?e \<or> prefix_form ?e" and s: "slots_ok E c slot ?e"
  obtain a as where aas: "print_expr (right_level b) r @ k # ks = a # as" using print_nonempty[of "right_level b" r] by auto
  have a: "ahead E (print_expr (left_level b) l @ op_token b # a # as) c" using a0 aas by simp
  have sl: "slots_ok E c slot l" and sr: "slots_ok E c slot r" using s by (simp_all add: slots_ok_def)
  have p: "getPrecedence (Some (op_token b)) = op_level b" by (rule op_precedence) simp
  obtain n' where n': "n = Suc n'" using n by (cases n) auto
  obtain m c1 where 1: "parseExpression (Suc n) E date q c
        = next_do (binary_rule (parseExpression n E date) (right_prec b) (do_emit (op_opcode b) []))
            (infix_loop m E (parseExpression n E date) q) c1"
      "ahead E (a # as) c1" "n \<le> m + weight l + 2"
      "grown c (fst (gen slot l (length (c_bytecode c)) (pool c))) (snd (gen slot l (length (c_bytecode c)) (pool c))) c1"
    by (rule left_operand[OF l _ a plain_tokens(1) _ _ _ infix_op sl, of n q])
       (use n p q left_levels(1,2) in \<open>simp_all\<close>)
  obtain c2 where 2: "parseExpression n E date (right_prec b) (cleared c1) = Done () c2" "ahead E (k # ks) c2"
      "grown (cleared c1) (fst (gen slot r (length (c_bytecode (cleared c1))) (pool (cleared c1))))
         (snd (gen slot r (length (c_bytecode (cleared c1))) (pool (cleared c1)))) c2"
    unfolding n'
    by (rule right_operand[OF r _ _ k, of n' "right_level b" ks "cleared c1" "right_prec b"])
       (use n n' 1(2) aas pk right_levels(1,2) sr slots_grown[OF 1(4)] slots_emits[OF cleared_emits] in simp_all)
  obtain c3 where 3: "do_emit (op_opcode b) [] c2 = Done () c3" "emits c2 [op_opcode b] (pool c2) c3"
    by (rule emit_op[OF narrow_ops(7) not_member_call(7)])
  show "compiled E date slot (weight ?e) n q ?e (k # ks) c"
    by (rule compiledI[where m = m and c' = c3])
       (use 1 2 3 emits_ahead[OF 3(2)] in
         \<open>simp_all add: binary_rule_def run_parse clear_ok grown_def emits_def Let_def split: prod.splits\<close>)
qed

lemma compiles_short:
  assumes l: "compiles_raw E date slot l" and r: "compiles_raw E date slot r"
  shows "compiles_raw E date slot (Short s l r)"
  unfolding compiles_raw_def
proof (intro allI impI)
  let ?e = "Short s l r" and ?J = "stop_jump s" and ?S = "stop_value s"
  fix n q c k ks
  assume n: "weight ?e < n" and a0: "ahead E (print_raw ?e @ k # ks) c" and k: "plain_token k"
    and pk: "getPrecedence (Some k) \<le> tail_level ?e" and q: "q < level ?e \<or> prefix_form ?e" and sl: "slots_ok E c slot ?e"
  obtain a as where aas: "print_expr (short_level s + 1) r @ k # ks = a # as" using print_nonempty[of "short_level s + 1" r] by auto
  have a: "ahead E (print_expr (short_level s) l @ short_token s # a # as) c" using a0 aas by simp
  have p: "getPrecedence (Some (short_token s)) = short_level s" by (rule short_precedence) simp
  obtain n' where n': "n = Suc n'" using n by (cases n) auto
  obtain m c1 where 1: "parseExpression (Suc n) E date q c
        = next_do (short_circuit (parseExpression n E date) (short_level s) ?J ?S)
            (infix_loop m E (parseExpression n E date) q) c1"
      "ahead E (a # as) c1" "n \<le> m + weight l + 2"
      "grown c (fst (gen slot l (length (c_bytecode c)) (pool c))) (snd (gen slot l (length (c_bytecode c)) (pool c))) c1"
    by (rule left_operand[OF l _ a plain_tokens(2) _ _ _ infix_short, of n q])
       (use n p q left_levels(3,4) sl in \<open>simp_all add: slots_ok_def\<close>)
  obtain c2 where 2: "emitJump ?J (cleared c1) = Done (length (c_bytecode (cleared c1)) + 1) c2"
      "emits (cleared c1) (?J # be32 0) (pool (cleared c1)) c2"
    by (rule emit_jump_ok[OF narrow_ops(9)])
  have sr: "slots_ok E c2 slot r"
    using sl slots_grown[OF 1(4)] slots_emits[OF cleared_emits] slots_emits[OF 2(2)] by (simp add: slots_ok_def)
  obtain c3 where 3: "parseExpression n E date (short_level s) c2 = Done () c3" "ahead E (k # ks) c3"
      "grown c2 (fst (gen slot r (length (c_bytecode c2)) (pool c2))) (snd (gen slot r (length (c_bytecode c2)) (pool c2))) c3"
    unfolding n'
    by (rule right_operand[OF r _ _ k, of n' "short_level s + 1" ks c2 "short_level s"])
       (use n n' 1(2) aas pk right_levels(3,4) sr emits_ahead[OF 2(2)] in simp_all)
  define c0 where "c0 = (cleared c1)\<lparr>cc_next := cc_next c3, cc_lexer := cc_lexer c3\<rparr>"
  obtain bl p1 where gl: "gen slot l (length (c_bytecode c)) (pool c) = (bl, p1)" by fastforce
  obtain br p2 where gr: "gen slot r (length (c_bytecode c) + length bl + 5) p1 = (br, p2)" by fastforce
  have c2: "length (c_bytecode c2) = length (c_bytecode c) + length bl + 5" "pool c2 = p1"
    using 1(4) gl 2(2) by (simp_all add: grown_def emits_def)
  have e0: "emits c0 (?J # be32 0 @ br) p2 c3"
    using 2(2) 3(3) gl gr c2 by (simp add: c0_def emits_def grown_def)
  have len0: "length (c_bytecode c0) = length (c_bytecode c) + length bl" using 1(4) gl by (simp add: c0_def grown_def)
  obtain i p3 where i: "addConstant (NewBool (\<not> ?S)) p2 = (i, p3)" by fastforce
  obtain j p4 where j: "addConstant (NewBool ?S) p3 = (j, p4)" by fastforce
  define early where "early = length (c_bytecode c0) + 5 + length br + 5 + 3 + 5"
  obtain c4 where 4: "bind (emitJump ?J) (\<lambda>j2. next_do (emit_constant (NewBool (\<not> ?S)))
      (bind (emitJump OpJump) (\<lambda>stop. bind (add_constant (NewBool ?S)) (\<lambda>i.
        next_do (patchJump (length (c_bytecode c0) + 1)) (next_do (patchJump j2)
          (next_do (do_emit OpConstant [i]) (patchJump stop))))))) c3 = Done () c4"
    "emits c0 ((?J # be32 early) @ br @ (?J # be32 early) @ (OpConstant # be16 i) @ (OpJump # be32 (early + 3))
       @ (OpConstant # be16 j)) p4 c4"
    by (rule short_tail_ok[OF e0 narrow_ops(9) i j early_def])
  have run: "short_circuit (parseExpression n E date) (short_level s) ?J ?S c1 = Done () c4"
    using 2(1) 3(1) 4(1) by (simp add: short_circuit_def run_parse clear_ok c0_def)
  have g: "gen slot ?e (length (c_bytecode c)) (pool c) =
      (bl @ (?J # be32 early) @ br @ (?J # be32 early) @ (OpConstant # be16 i) @ (OpJump # be32 (early + 3))
         @ (OpConstant # be16 j), p4)"
    using gl gr i j len0 by (simp add: early_def Let_def)
  have g4: "grown c (fst (gen slot ?e (length (c_bytecode c)) (pool c))) (snd (gen slot ?e (length (c_bytecode c)) (pool c))) c4"
    unfolding g using 1(4) gl 4(2) by (simp add: emits_def grown_def c0_def)
  have a4: "ahead E (k # ks) c4"
    using 3(2) 4(2) by (simp add: emits_def ahead_def c0_def)
  show "compiled E date slot (weight ?e) n q ?e (k # ks) c"
    by (rule compiledI[where m = m and c' = c4]) (use 1(1,3) run g4 a4 in \<open>simp_all add: run_parse\<close>)
qed

lemma compiles: "compiles_raw E date slot e"
proof (induction e)
  case (Lit l)
  then show ?case by (rule compiles_lit)
next
  case (Var x)
  then show ?case by (rule compiles_var)
next
  case (Neg e)
  then show ?case
    by (rule compiles_unary[where u = 13 and tk = "PunctuationToken PunctMinus" and op = OpNeg])
       (simp_all add: narrow_ops not_member_call prefix_neg)
next
  case (Not e)
  then show ?case
    by (rule compiles_unary[where u = 7 and tk = "KeywordToken KeywordNot []" and op = OpNot])
       (simp_all add: narrow_ops not_member_call prefix_not)
next
  case (Bin b l r)
  then show ?case by (rule compiles_bin)
next
  case (Short s l r)
  then show ?case by (rule compiles_short)
qed

section \<open>What is printed is compiled\<close>

lemma printed_compiles:
  assumes "ahead E (print_expr 0 e @ k # ks) c" "plain_token k" "getPrecedence (Some k) = 0" "weight e < n"
    "\<And>x. x \<in> vars e \<Longrightarrow> slot_of E c x = Some (slot x)"
  obtains c' where "parseExpression (Suc n) E date PrecNone c = Done () c'" "ahead E (k # ks) c'"
    "grown c (fst (gen slot e (length (c_bytecode c)) (pool c))) (snd (gen slot e (length (c_bytecode c)) (pool c))) c'"
proof -
  have p: "print_expr 0 e = print_raw e" by (simp add: parens_def)
  have c: "compiled E date slot (weight e) n PrecNone e (k # ks) c"
    by (rule compiles_rawD[OF compiles assms(1)[unfolded p] assms(4,2)])
       (use assms(3,5) level_pos[of e] in \<open>simp_all add: PrecNone_def slots_ok_def\<close>)
  show ?thesis by (rule compiled_done[OF c assms(4) _ that]) (simp_all add: assms(3) PrecNone_def)
qed

text \<open>
  C3. The expression compiler reads what is printed and nothing else. In front of the tokens of an expression, written with
  as few parentheses as the levels of its operators allow, and a token that continues no expression, \<open>parseExpression\<close>
  succeeds with fuel above the weight of the expression. It stops before that token, and what it has appended to the code
  and to the constants is \<open>gen\<close> of the expression. The names are declared variables.
\<close>

theorem printed_expressions_compile:
  assumes "ahead E (print_expr 0 e @ k # ks) c" "plain_token k" "getPrecedence (Some k) = 0" "weight e < n"
    "\<And>x. x \<in> vars e \<Longrightarrow> slot_of E c x = Some (slot x)"
  shows "\<exists>c'. parseExpression (Suc n) E date PrecNone c = Done () c' \<and> ahead E (k # ks) c'
     \<and> c_bytecode c' = c_bytecode c @ fst (gen slot e (length (c_bytecode c)) (pool c))
     \<and> pool c' = snd (gen slot e (length (c_bytecode c)) (pool c))"
proof -
  obtain c' where "parseExpression (Suc n) E date PrecNone c = Done () c'" "ahead E (k # ks) c'"
    "grown c (fst (gen slot e (length (c_bytecode c)) (pool c))) (snd (gen slot e (length (c_bytecode c)) (pool c))) c'"
    by (rule printed_compiles[OF assms])
  then show ?thesis by (auto simp: grown_def)
qed

text \<open>The front end behind the first token of \<open>x^-(""&"")\<close>, with \<open>x\<close> declared.\<close>

definition demo_text :: string where
  "demo_text = [CHR ''x'', CHR ''^'', CHR ''-'', CHR ''('', CHR 0x22, CHR 0x22, CHR ''&'', CHR 0x22, CHR 0x22, CHR '')'']"

definition demo_lexer :: "nat \<Rightarrow> Lexer" where
  "demo_lexer i = (new_lexer ascii_env demo_text ModeVBScript)\<lparr>lx_Index := i\<rparr>"

definition demo_token :: Token where
  "demo_token = \<lparr>tk_Start = 0, tk_End = 1, tk_LineNumber = 1, tk_LineStart = 0, tk_kind = IdentifierToken ''x''\<rparr>"

definition demo_front :: Front where
  "demo_front = (predeclare ascii_env ''x'' (empty_front ascii_env demo_text ModeVBScript))
     \<lparr>cc_lexer := demo_lexer 1, cc_next := Some demo_token\<rparr>"

lemma demo_cursor: "cc_next demo_front = Some demo_token" "cc_lexer demo_front = demo_lexer 1"
  by (simp_all add: demo_front_def)

definition demo_reads :: "nat \<Rightarrow> nat \<Rightarrow> token_kind \<Rightarrow> bool" where
  "demo_reads i j k \<longleftrightarrow> (case NextToken ascii_env (demo_lexer i) of
     Inr (t, l) \<Rightarrow> tk_kind t = k \<and> l = demo_lexer j | Inl _ \<Rightarrow> False)"

definition demo_expr :: expr where
  "demo_expr = Bin BPow (Var ''x'') (Neg (Bin BConcat (Lit (LString [])) (Lit (LString []))))"

lemma demo_print: "print_expr 0 demo_expr @ EOFToken # [] =
   [IdentifierToken ''x'', PunctuationToken PunctExp, PunctuationToken PunctMinus, lparen, StringLiteralToken [],
    PunctuationToken PunctAmp, StringLiteralToken [], rparen, EOFToken]"
  by (simp add: demo_expr_def parens_def left_level_def right_level_def)

lemma demo_reads_ahead:
  "demo_reads i j k \<Longrightarrow> strip (tk_kind t) = strip k0 \<Longrightarrow>
   (\<And>t'. tk_kind t' = k \<Longrightarrow> tokens_ahead ascii_env t' (demo_lexer j) (k # ks)) \<Longrightarrow>
   tokens_ahead ascii_env t (demo_lexer i) (k0 # k # ks)"
  by (auto simp: demo_reads_def split: sum.splits)

lemma demo_reads_all:
  "demo_reads 1 2 (PunctuationToken PunctExp)" "demo_reads 2 3 (PunctuationToken PunctMinus)"
  "demo_reads 3 4 lparen" "demo_reads 4 6 (StringLiteralToken [])" "demo_reads 6 7 (PunctuationToken PunctAmp)"
  "demo_reads 7 9 (StringLiteralToken [])" "demo_reads 9 10 rparen" "demo_reads 10 10 EOFToken"
  by code_simp+

lemma demo_ahead: "ahead ascii_env (print_expr 0 demo_expr @ EOFToken # []) demo_front"
  unfolding demo_print ahead_def ahead_from_def demo_cursor option.case
  by (intro demo_reads_all[THEN demo_reads_ahead]) (simp_all add: demo_token_def)

lemma demo_slot: "slot_of ascii_env demo_front ''x'' = Some (OpGetGlobal, 0)"
  by code_simp

lemma demo_follow: "plain_token EOFToken" "getPrecedence (Some EOFToken) = 0"
  by (simp_all add: plain_token_def strip_def getPrecedence_def PrecNone_def)

theorem printed_expressions_compile_witness:
  "\<exists>c'. parseExpression 40 ascii_env (\<lambda>_. NewEmpty) PrecNone demo_front = Done () c' \<and> ahead ascii_env [EOFToken] c'
     \<and> c_bytecode c' = c_bytecode demo_front @ fst (gen (\<lambda>_. (OpGetGlobal, 0)) demo_expr (length (c_bytecode demo_front)) (pool demo_front))"
proof -
  have 40: "40 = Suc 39" by simp
  have "weight demo_expr < 39" by (simp add: demo_expr_def)
  then show ?thesis
    unfolding 40
    using printed_expressions_compile[OF demo_ahead demo_follow, of 39 "\<lambda>_. (OpGetGlobal, 0)" "\<lambda>_. NewEmpty"] demo_slot
    by (auto simp: demo_expr_def)
qed

end
