(* ===== verification/ExprRun.thy ===== *)
theory ExprRun
  imports ExprCode
begin

text \<open>
  The machine on the code of an expression: it computes the value of the expression, or stops with its error. The
  operators must not look at the stack for this, which holds of the values of expressions: no reference to an
  argument slot is among them.
\<close>

section \<open>The values of expressions\<close>

definition data :: "Value \<Rightarrow> bool" where
  "data v \<longleftrightarrow> VType v \<in> {VTEmpty, VTNull, VTBool, VTInteger, VTDouble, VTString, VTDate}
     \<or> (VType v = VTObject \<and> VNum v = 0)"

lemma data_plain: "data v \<Longrightarrow> is_plain v \<and> VType v \<noteq> VTArgRef"
  by (auto simp: data_def is_plain_def)

lemma data_new [simp]:
  "data (NewInteger n)" "data (NewDouble x)" "data (NewString s)" "data (NewBool b)" "data NewNull" "data NewEmpty"
  by (simp_all add: data_def)

lemma data_lit: "data (lit_value l)"
  by (cases l) (simp_all add: data_def)

section \<open>Operators and the stack\<close>

lemma host_fields:
  "h_js_property (h\<lparr>h_arg_slot := f\<rparr>) = h_js_property h" "h_cookie (h\<lparr>h_arg_slot := f\<rparr>) = h_cookie h"
  "h_request_collection (h\<lparr>h_arg_slot := f\<rparr>) = h_request_collection h" "h_asp_error (h\<lparr>h_arg_slot := f\<rparr>) = h_asp_error h"
  "h_submatch (h\<lparr>h_arg_slot := f\<rparr>) = h_submatch h" "h_local_date (h\<lparr>h_arg_slot := f\<rparr>) = h_local_date h"
  "h_err_property (h\<lparr>h_arg_slot := f\<rparr>) = h_err_property h" "h_request_text (h\<lparr>h_arg_slot := f\<rparr>) = h_request_text h"
  "h_adodb_text (h\<lparr>h_arg_slot := f\<rparr>) = h_adodb_text h" "h_proxy_call (h\<lparr>h_arg_slot := f\<rparr>) = h_proxy_call h"
  "h_is_js (h\<lparr>h_arg_slot := f\<rparr>) = h_is_js h" "h_builtin_count (h\<lparr>h_arg_slot := f\<rparr>) = h_builtin_count h"
  "h_builtin_call (h\<lparr>h_arg_slot := f\<rparr>) = h_builtin_call h"
  by simp_all

lemma resolve_arg_slot [simp]: "resolveCallable (h\<lparr>h_arg_slot := f\<rparr>) v = resolveCallable h v"
  unfolding resolveCallable_def call_builtin_def resolve_native_def host_fields by (rule refl)

lemma object_text_arg_slot [simp]:
  "js_error_text (h\<lparr>h_arg_slot := f\<rparr>) v = js_error_text h v" "native_text (h\<lparr>h_arg_slot := f\<rparr>) n = native_text h n"
  unfolding js_error_text_def native_text_def host_fields by (rule refl)+

lemma text_arg_slot [simp]: "VType v \<noteq> VTArgRef \<Longrightarrow> valueToString (h\<lparr>h_arg_slot := f\<rparr>) v = valueToString h v"
  by (cases "native_text h (VNum (resolveCallable h v))") (simp_all add: valueToString_def Let_def)

lemma numeric_arg_slot [simp]:
  "vbsParseNumericString (h\<lparr>h_arg_slot := f\<rparr>) s = vbsParseNumericString h s"
  by (simp add: vbsParseNumericString_def Let_def)

lemma coercions_arg_slot [simp]:
  "coerceFloatStrict (h\<lparr>h_arg_slot := f\<rparr>) v = coerceFloatStrict h v"
  "coerceFloat (h\<lparr>h_arg_slot := f\<rparr>) v = coerceFloat h v"
  "coerceInt64 (h\<lparr>h_arg_slot := f\<rparr>) v = coerceInt64 h v"
  "coerceLogicalInt64 (h\<lparr>h_arg_slot := f\<rparr>) v = coerceLogicalInt64 h v"
  by (simp_all add: coerceFloatStrict_def coerceFloat_def coerceInt64_def coerceLogicalInt64_def num_text_def Let_def
      split: option.splits)

lemma compare_arg_slot:
  assumes "data a" "data b"
  shows "compareValues (h\<lparr>h_arg_slot := f\<rparr>) a b = compareValues h a b"
    "values_equal (h\<lparr>h_arg_slot := f\<rparr>) a b = values_equal h a b"
proof -
  have t: "VType a \<noteq> VTNativeObject" "VType b \<noteq> VTNativeObject" "VType a \<noteq> VTArgRef" "VType b \<noteq> VTArgRef"
    using assms by (auto simp: data_def)
  show c: "compareValues (h\<lparr>h_arg_slot := f\<rparr>) a b = compareValues h a b"
    using t by (simp add: compareValues_def compare_operand_def Let_def)
  show "values_equal (h\<lparr>h_arg_slot := f\<rparr>) a b = values_equal h a b"
    by (simp add: values_equal_def c coll_equal_def)
qed

lemma add_arg_slot:
  assumes "data a" "data b"
  shows "addValues (h\<lparr>h_arg_slot := f\<rparr>) a b = addValues h a b"
  unfolding addValues_def Let_def
  by (simp only: resolve_arg_slot coercions_arg_slot text_arg_slot resolve_plain data_plain[OF assms(1)] data_plain[OF assms(2)]
      not_False_eq_True)

lemma concat_arg_slot:
  assumes "data a" "data b"
  shows "concatValues (h\<lparr>h_arg_slot := f\<rparr>) a b = concatValues h a b"
  using data_plain[OF assms(1)] data_plain[OF assms(2)] by (simp add: concatValues_def Let_def)

lemma unary_arg_slot:
  "neg_value (h\<lparr>h_arg_slot := f\<rparr>) v = neg_value h v" "not_value (h\<lparr>h_arg_slot := f\<rparr>) v = not_value h v"
  by (simp_all add: neg_value_def not_value_def Let_def split: option.splits)

lemma binary_arg_slot:
  assumes "data a" "data b"
  shows "binary_op (h\<lparr>h_arg_slot := f\<rparr>) (op_opcode b') a b = binary_op h (op_opcode b') a b"
  by (cases b')
     (simp_all add: binary_op_def op_defs add_arg_slot[OF assms] concat_arg_slot[OF assms] compare_arg_slot[OF assms]
       subtractValues_def multiplyValues_def divideValues_def intDivideValues_def modValues_def powValues_def
       logicalAnd_def logicalOr_def logicalXor_def logicalEqv_def logicalImp_def Let_def)

lemma binary_total: "\<exists>r. binary_op h (op_opcode b) x y = Some r"
  by (cases b) (simp_all add: binary_op_def op_defs)

text \<open>The values the operators make are values of expressions.\<close>

lemma data_if: "data a \<Longrightarrow> data b \<Longrightarrow> data (if c then a else b)"
  by simp

lemma add_data: "data (fst (addValues h a b))"
  by (simp add: addValues_def type_mismatch_def Let_def split: option.split)

lemma binary_data: "binary_op h (op_opcode b) x y = Some r \<Longrightarrow> data (fst r)"
  by (cases b)
     (auto simp: binary_op_def op_defs add_data concatValues_def null_or_def
       subtractValues_def multiplyValues_def divideValues_def intDivideValues_def modValues_def powValues_def
       division_by_zero_def logicalAnd_def logicalOr_def logicalXor_def logicalEqv_def logicalImp_def Let_def
       split: if_splits)

lemma unary_data: "data (fst (neg_value h v))" "data (fst (not_value h v))"
  by (simp_all add: neg_value_def not_value_def type_mismatch_def Let_def split: option.split)

section \<open>Code in place\<close>

fun code_at :: "bytes \<Rightarrow> nat \<Rightarrow> bytes \<Rightarrow> bool" where
  "code_at bs pos [] = True"
| "code_at bs pos (x # xs) = (pos < length bs \<and> bs ! pos = x \<and> code_at bs (pos + 1) xs)"

lemma code_at_append [simp]:
  "code_at bs pos (a @ b) \<longleftrightarrow> code_at bs pos a \<and> code_at bs (pos + length a) b"
  by (induction a arbitrary: pos) auto

lemma code_at_here: "code_at (pre @ frag @ post) (length pre) frag"
proof (induction frag arbitrary: pre)
  case (Cons x xs)
  then show ?case using Cons[of "pre @ [x]"] by simp
qed simp

lemma keep_update: "xs ! i = x \<Longrightarrow> xs[i := x] = xs"
  by auto

lemma code_at_be16: "code_at bs pos (be16 i) \<Longrightarrow> i < 65536 \<Longrightarrow> be16_at bs pos = Some i"
proof -
  assume c: "code_at bs pos (be16 i)" and i: "i < 65536"
  have "put_be16 bs pos i = Some bs"
    using c by (simp add: be16_def put_be16_def keep_update)
  then show ?thesis using be16_put_same i by fastforce
qed

lemma code_at_be32: "code_at bs pos (be32 i) \<Longrightarrow> i < 4294967296 \<Longrightarrow> be32_at bs pos = Some i"
proof -
  assume c: "code_at bs pos (be32 i)" and i: "i < 4294967296"
  have "put_be32 bs pos i = Some bs"
    using c by (simp add: be32_def put_be32_def keep_update numeral_2_eq_2 numeral_3_eq_3)
  then show ?thesis using be32_put_same i by fastforce
qed

section \<open>Steps of the machine\<close>

text \<open>The machine at \<open>pos\<close> of \<open>bs\<close> with the stack \<open>st\<close> up to \<open>s\<close>, all else as in \<open>vm\<close>.\<close>

definition conf :: "bytes \<Rightarrow> nat \<Rightarrow> VM \<Rightarrow> int \<Rightarrow> (int \<Rightarrow> Value) \<Rightarrow> VM" where
  "conf bs pos vm s st = vm\<lparr>vm_bytecode := bs, vm_ip := pos, vm_sp := s, vm_stack := st\<rparr>"

lemma conf_fields [simp]:
  "vm_bytecode (conf bs pos vm s st) = bs" "vm_ip (conf bs pos vm s st) = pos" "vm_sp (conf bs pos vm s st) = s"
  "vm_stack (conf bs pos vm s st) = st" "vm_constants (conf bs pos vm s st) = vm_constants vm"
  "vm_Globals (conf bs pos vm s st) = vm_Globals vm" "vm_fp (conf bs pos vm s st) = vm_fp vm"
  "load_global (conf bs pos vm s st) i v = load_global vm i v" "local_class (conf bs pos vm s st) i = local_class vm i"
  by (simp_all add: conf_def load_global_def local_class_def getCurrentFuncEntryPoint_def)

lemma conf_updates [simp]:
  "(conf bs pos vm s st)\<lparr>vm_ip := pos'\<rparr> = conf bs pos' vm s st"
  "(conf bs pos vm s st)\<lparr>vm_sp := s'\<rparr> = conf bs pos vm s' st"
  "put (conf bs pos vm s st) i v = conf bs pos vm s (st(i := v))"
  "jump_if b t (conf bs pos vm s st) = conf bs (if b then t else pos) vm s st"
  by (simp_all add: conf_def put_def jump_if_def)

lemma conf_host: "\<exists>f. host_of h (conf bs pos vm s st) = (host_of h vm)\<lparr>h_arg_slot := f\<rparr>"
  by (simp add: host_of_def conf_def) blast

text \<open>No error handler of a caller or of \<open>On Error Resume Next\<close> is active.\<close>

definition no_handler :: "VM \<Rightarrow> bool" where
  "no_handler vm \<longleftrightarrow> \<not> vm_onResumeNext vm \<and> \<not> vm_executeGlobalResumeGuard vm
     \<and> \<not> list_ex fr_savedOnResumeNext (vm_callStack vm)"

lemma raise_fails: "no_handler vm \<Longrightarrow> \<exists>vm'. raise_vm e (conf bs pos vm s st) k = Failed e vm'"
  by (simp add: no_handler_def raise_vm_def conf_def)

lemma step_conf: "pos < length bs \<Longrightarrow> step h (conf bs pos vm s st) = exec h (bs ! pos) (conf bs (pos + 1) vm s st)"
  by (simp add: step_def)

lemma push_conf:
  "-1 \<le> s \<Longrightarrow> s + 1 < StackSize \<Longrightarrow>
   push_then h (conf bs pos vm s st) v k = k (conf bs pos vm (s + 1) (st(s + 1 := v)))"
  by (simp add: push_then_def in_stack_def)

lemma pop_conf:
  "0 \<le> s \<Longrightarrow> s < StackSize \<Longrightarrow> pop_then h (conf bs pos vm s st) k = k (st s) (conf bs pos vm (s - 1) st)"
  by (simp add: pop_then_def slot_then_def in_stack_def)

lemma exec_more:
  "exec h OpNeg vm = exec_unary h neg_value vm" "exec h OpNot vm = exec_unary h not_value vm"
  "exec h OpJump vm = exec_Jump vm" "exec h OpJumpIfTrue vm = exec_JumpIf True h vm"
  "exec h OpCoerceToValue vm = exec_CoerceToValue h vm"
  by (simp_all add: exec_def exec_control_def exec_slots_def op_defs binary_ops_def fused_jump_ops_def)

lemma step_const:
  assumes "code_at bs pos (OpConstant # be16 i)" "i < 65536" "i < length (vm_constants vm)" "-1 \<le> s" "s + 1 < StackSize"
  shows "step h (conf bs pos vm s st) = Running (conf bs (pos + 3) vm (s + 1) (st(s + 1 := vm_constants vm ! i)))"
  using assms code_at_be16[of bs "pos + 1" i]
  by (simp add: step_conf exec_simps exec_Constant_def u16_then_def const_then_def push_conf numeral_3_eq_3)

lemma step_jump:
  assumes "code_at bs pos (OpJump # be32 t)" "t < 4294967296"
  shows "step h (conf bs pos vm s st) = Running (conf bs t vm s st)"
  using assms code_at_be32[of bs "pos + 1" t]
  by (simp add: step_conf exec_more exec_Jump_def u32_then_def)

lemma step_stop_jump:
  assumes "code_at bs pos (stop_jump op # be32 t)" "t < 4294967296" "0 \<le> s" "s < StackSize"
  shows "step h (conf bs pos vm s st)
    = Running (conf bs (if isTruthy (st s) = stop_value op then t else pos + 5) vm (s - 1) st)"
  using assms code_at_be32[of bs "pos + 1" t]
  by (cases op)
     (auto simp: step_conf stop_jump_def stop_value_def exec_simps exec_more exec_JumpIf_def u32_then_def pop_conf add.commute)

lemma step_coerce:
  assumes "code_at bs pos [OpCoerceToValue]" "data (st s)" "0 \<le> s" "s < StackSize"
  shows "step h (conf bs pos vm s st) = Running (conf bs (pos + 1) vm s st)"
proof -
  have "VType (st s) \<noteq> VTBuiltin" "VType (st s) \<noteq> VTUserSub" "\<not> (VType (st s) = VTObject \<and> VNum (st s) \<noteq> 0)"
    "VType (st s) \<noteq> VTNativeObject"
    using assms(2) by (auto simp: data_def)
  then show ?thesis
    using assms by (simp add: step_conf exec_more exec_CoerceToValue_def pop_conf push_conf)
qed

lemma op_in_binary_ops: "op_opcode b \<in> set binary_ops"
  by (cases b) (simp_all add: binary_ops_def)

lemma step_binary:
  assumes "code_at bs pos [op_opcode b]" "1 \<le> s" "s < StackSize" "data (st (s - 1))" "data (st s)"
    and r: "binary_op (host_of h vm) (op_opcode b) (st (s - 1)) (st s) = Some r" and "no_handler vm"
  shows "case checked r of
      Inr v \<Rightarrow> step h (conf bs pos vm s st) = Running (conf bs (pos + 1) vm (s - 1) (st(s - 1 := v)))
    | Inl e \<Rightarrow> \<exists>vm'. step h (conf bs pos vm s st) = Failed e vm'"
proof -
  obtain f where f: "host_of h (conf bs (Suc pos) vm s st) = (host_of h vm)\<lparr>h_arg_slot := f\<rparr>"
    using conf_host by blast
  have b: "binary_op (host_of h (conf bs (Suc pos) vm s st)) (op_opcode b) (st (s - 1)) (st s) = Some r"
    using r by (simp add: f binary_arg_slot[OF assms(4,5)])
  have "step h (conf bs pos vm s st) = exec_binary h r (conf bs (pos + 1) vm s st)"
    using assms(1-3) b by (simp add: step_conf exec_binary_ops[OF op_in_binary_ops] exec_binary_op_def slot_then_def in_stack_def)
  then show ?thesis
    using raise_fails[OF assms(7)]
    by (cases "snd r") (auto simp: checked_def exec_binary_def raised_then_def)
qed

lemma step_unary:
  assumes "code_at bs pos [op]" "\<And>vm. exec h op vm = exec_unary h f vm" "0 \<le> s" "s < StackSize" "no_handler vm"
    and f: "\<And>g. f ((host_of h vm)\<lparr>h_arg_slot := g\<rparr>) (st s) = f (host_of h vm) (st s)"
  shows "case checked (f (host_of h vm) (st s)) of
      Inr v \<Rightarrow> step h (conf bs pos vm s st) = Running (conf bs (pos + 1) vm s (st(s := v)))
    | Inl e \<Rightarrow> \<exists>vm'. step h (conf bs pos vm s st) = Failed e vm'"
proof -
  obtain g where g: "host_of h (conf bs (Suc pos) vm (s - 1) st) = (host_of h vm)\<lparr>h_arg_slot := g\<rparr>"
    using conf_host by blast
  obtain v r where vr: "f (host_of h vm) (st s) = (v, r)" by fastforce
  have "step h (conf bs pos vm s st)
      = raised_then r (conf bs (pos + 1) vm (s - 1) st) (\<lambda>vm. push_then h vm v Running)"
    using assms(1-4) by (simp add: step_conf exec_unary_def pop_conf g f vr)
  then show ?thesis
    using raise_fails[OF assms(5)] assms(3,4)
    by (cases r) (auto simp: checked_def raised_then_def push_conf vr)
qed

section \<open>Constants and variables in place\<close>

definition pool_ok :: "Code \<Rightarrow> bool" where
  "pool_ok p \<longleftrightarrow> (\<forall>s i. c_constantMap p s = Some i \<longrightarrow> i < length (c_constants p) \<and> c_constants p ! i = NewString s)"

lemma add_constant_found:
  assumes "addConstant v p = (i, p')" "pool_ok p" "VType v = VTString \<longrightarrow> v = NewString (VStr v)"
  shows "pool_ok p'" "i < length (c_constants p')" "c_constants p' ! i = v" "\<exists>ks. c_constants p' = c_constants p @ ks"
proof -
  have "pool_ok p' \<and> i < length (c_constants p') \<and> c_constants p' ! i = v \<and> (\<exists>ks. c_constants p' = c_constants p @ ks)"
    using assms
    by (auto simp: addConstant_def pool_ok_def Let_def nth_append split: if_splits option.splits)
       (metis less_SucI)+
  then show "pool_ok p'" "i < length (c_constants p')" "c_constants p' ! i = v" "\<exists>ks. c_constants p' = c_constants p @ ks"
    by blast+
qed

lemma lit_strings: "VType (lit_value l) = VTString \<longrightarrow> lit_value l = NewString (VStr (lit_value l))"
  by (cases l) simp_all

lemma gen_grows:
  "gen slot e pos p = (bs, p') \<Longrightarrow> pool_ok p \<Longrightarrow> pool_ok p' \<and> (\<exists>ks. c_constants p' = c_constants p @ ks)"
proof (induction e arbitrary: pos p bs p')
  case (Lit l)
  then show ?case
    using add_constant_found[OF _ Lit.prems(2) lit_strings] by (auto split: prod.splits)
next
  case (Bin b l r)
  then show ?case by (auto split: prod.splits) (metis append.assoc)
next
  case (Short s l r)
  obtain bl p1 where 1: "gen slot l pos p = (bl, p1)" by fastforce
  obtain br p2 where 2: "gen slot r (pos + length bl + 5) p1 = (br, p2)" by fastforce
  obtain i p3 where 3: "addConstant (NewBool (\<not> stop_value s)) p2 = (i, p3)" by fastforce
  obtain j p4 where 4: "addConstant (NewBool (stop_value s)) p3 = (j, p4)" by fastforce
  have p': "p' = p4" using Short.prems(1) 1 2 3 4 by (simp add: Let_def)
  obtain k1 where k1: "pool_ok p1" "c_constants p1 = c_constants p @ k1" using Short.IH(1)[OF 1 Short.prems(2)] by blast
  obtain k2 where k2: "pool_ok p2" "c_constants p2 = c_constants p1 @ k2" using Short.IH(2)[OF 2 k1(1)] by blast
  obtain k3 where k3: "pool_ok p3" "c_constants p3 = c_constants p2 @ k3"
    using add_constant_found[OF 3 k2(1)] by auto
  obtain k4 where k4: "pool_ok p4" "c_constants p4 = c_constants p3 @ k4"
    using add_constant_found[OF 4 k3(1)] by auto
  show ?case using k1 k2 k3 k4 p' by auto
qed (auto split: prod.splits)

text \<open>The constants of the program begin with those of the pool, and indices fit into 16 bits.\<close>

definition holds_pool :: "VM \<Rightarrow> Code \<Rightarrow> bool" where
  "holds_pool vm p \<longleftrightarrow> (\<exists>ks. vm_constants vm = c_constants p @ ks) \<and> length (c_constants p) \<le> 65536"

lemma holds_earlier: "holds_pool vm p' \<Longrightarrow> \<exists>ks. c_constants p' = c_constants p @ ks \<Longrightarrow> holds_pool vm p"
  by (auto simp: holds_pool_def)

lemma holds_constant:
  "holds_pool vm p \<Longrightarrow> i < length (c_constants p) \<Longrightarrow>
   i < 65536 \<and> i < length (vm_constants vm) \<and> vm_constants vm ! i = c_constants p ! i"
  by (auto simp: holds_pool_def nth_append)

text \<open>The variable \<open>x\<close> has the value \<open>\<sigma> x\<close> in its slot.\<close>

definition var_ok :: "VM \<Rightarrow> (string \<Rightarrow> Value) \<Rightarrow> (string \<Rightarrow> OpCode \<times> nat) \<Rightarrow> string \<Rightarrow> bool" where
  "var_ok vm \<sigma> slot x \<longleftrightarrow>
     (let (op, i) = slot x in i < 65536 \<and> data (\<sigma> x) \<and>
       (op = OpGetGlobal \<and> i < length (vm_Globals vm) \<and> load_global vm i (vm_Globals vm ! i) = \<sigma> x
        \<or> op = OpGetLocal \<and> 0 \<le> vm_fp vm + int i \<and> vm_fp vm + int i \<le> vm_sp vm
          \<and> with_class (local_class vm i) (vm_stack vm (vm_fp vm + int i)) = \<sigma> x))"

lemma step_load:
  assumes "var_ok vm \<sigma> slot x" "code_at bs pos (fst (slot x) # be16 (snd (slot x)))" "-1 \<le> s" "s + 1 < StackSize"
    and "vm_sp vm \<le> s" "\<And>j. j \<le> vm_sp vm \<Longrightarrow> st j = vm_stack vm j"
  shows "step h (conf bs pos vm s st) = Running (conf bs (pos + 3) vm (s + 1) (st(s + 1 := \<sigma> x)))"
proof -
  obtain op i where oi: "slot x = (op, i)" by fastforce
  have i: "be16_at bs (Suc pos) = Some i"
    using assms(1,2) oi code_at_be16[of bs "pos + 1" i] by (simp add: var_ok_def)
  consider "op = OpGetGlobal" "i < length (vm_Globals vm)" "load_global vm i (vm_Globals vm ! i) = \<sigma> x"
    | "op = OpGetLocal" "0 \<le> vm_fp vm + int i" "vm_fp vm + int i \<le> vm_sp vm"
      "with_class (local_class vm i) (vm_stack vm (vm_fp vm + int i)) = \<sigma> x"
    using assms(1) oi by (auto simp: var_ok_def)
  then show ?thesis
  proof cases
    case 1
    then show ?thesis using assms(2-4) oi i
      by (simp add: step_conf exec_simps exec_GetGlobal_def u16_then_def global_then_def push_conf numeral_3_eq_3)
  next
    case 2
    then show ?thesis using assms(2-6) oi i
      by (simp add: step_conf exec_simps exec_GetLocal_def u16_then_def slot_then_def in_stack_def push_conf numeral_3_eq_3)
  qed
qed

section \<open>The run of an expression\<close>

text \<open>From \<open>pos\<close> the machine comes to \<open>pos'\<close> with the value pushed and the stack below unchanged, or it stops with the
  error.\<close>

definition computes :: "host \<Rightarrow> bytes \<Rightarrow> VM \<Rightarrow> nat \<Rightarrow> nat \<Rightarrow> int \<Rightarrow> (int \<Rightarrow> Value) \<Rightarrow> err + Value \<Rightarrow> bool" where
  "computes h bs vm pos pos' s st r \<longleftrightarrow>
     (case r of
        Inr v \<Rightarrow> data v \<and> (\<exists>n st'. run n h (conf bs pos vm s st) = Running (conf bs pos' vm (s + 1) st')
                   \<and> st' (s + 1) = v \<and> (\<forall>j \<le> s. st' j = st j))
      | Inl e \<Rightarrow> \<exists>n vm'. run n h (conf bs pos vm s st) = Failed e vm')"

lemma computes_value:
  assumes "run n h (conf bs pos vm s st) = Running (conf bs pos' vm (s + 1) st')" "st' (s + 1) = v" "data v"
    "\<And>j. j \<le> s \<Longrightarrow> st' j = st j"
  shows "computes h bs vm pos pos' s st (Inr v)"
  using assms by (auto simp: computes_def)

lemma computes_error: "computes h bs vm pos pos' s st (Inl e) \<Longrightarrow> computes h bs vm pos q s st (Inl e)"
  by (simp add: computes_def)

lemma computes_run:
  assumes "computes h bs vm pos pos' s st (Inr v)"
  obtains n st' where "run n h (conf bs pos vm s st) = Running (conf bs pos' vm (s + 1) st')" "st' (s + 1) = v"
    "\<And>j. j \<le> s \<Longrightarrow> st' j = st j" "data v"
  using assms by (auto simp: computes_def)

text \<open>What runs before can be put in front.\<close>

lemma computes_after:
  assumes "run m h (conf bs pos vm s st) = Running (conf bs pos1 vm s st1)" "\<And>j. j \<le> s \<Longrightarrow> st1 j = st j"
    "computes h bs vm pos1 pos' s st1 r"
  shows "computes h bs vm pos pos' s st r"
proof (cases r)
  case (Inl e)
  then obtain n vm' where "run n h (conf bs pos1 vm s st1) = Failed e vm'" using assms(3) by (auto simp: computes_def)
  then show ?thesis using run_seq[OF assms(1)] Inl by (fastforce simp: computes_def)
next
  case (Inr v)
  obtain n st' where n: "run n h (conf bs pos1 vm s st1) = Running (conf bs pos' vm (s + 1) st')" "st' (s + 1) = v"
      "\<And>j. j \<le> s \<Longrightarrow> st' j = st1 j" "data v"
    using computes_run assms(3) Inr by blast
  show ?thesis unfolding Inr
    by (rule computes_value[OF run_seq[OF assms(1) n(1)] n(2,4)]) (simp add: n(3) assms(2))
qed

text \<open>An error behind a value that was pushed.\<close>

lemma computes_fails:
  assumes "run m h (conf bs pos vm s st) = Running vm1" "run k h vm1 = Failed e vm2"
  shows "computes h bs vm pos pos' s st (Inl e)"
  using run_seq[OF assms] by (auto simp: computes_def)

lemma computes_unary:
  assumes "computes h bs vm pos p s st r" "code_at bs p [op]" "\<And>vm. exec h op vm = exec_unary h f vm"
    "-1 \<le> s" "s + 1 < StackSize" "no_handler vm" "\<And>g v. f ((host_of h vm)\<lparr>h_arg_slot := g\<rparr>) v = f (host_of h vm) v"
    "\<And>v. data (fst (f (host_of h vm) v))"
  shows "computes h bs vm pos (p + 1) s st (case r of Inl e \<Rightarrow> Inl e | Inr v \<Rightarrow> checked (f (host_of h vm) v))"
proof (cases r)
  case (Inl e)
  then show ?thesis using assms(1) by (simp add: computes_def)
next
  case (Inr v)
  obtain n st' where n: "run n h (conf bs pos vm s st) = Running (conf bs p vm (s + 1) st')" "st' (s + 1) = v"
      "\<And>j. j \<le> s \<Longrightarrow> st' j = st j"
    using computes_run assms(1) Inr by blast
  note c = step_unary[of bs p op h f "s + 1" vm st', OF assms(2,3) _ assms(5,6) assms(7)]
  show ?thesis
  proof (cases "checked (f (host_of h vm) v)")
    case E: (Inl e)
    then obtain vm' where "step h (conf bs p vm (s + 1) st') = Failed e vm'" using c assms(4) n(2) by auto
    then show ?thesis using computes_fails[OF n(1), of "Suc 0"] E Inr by (simp add: run_one)
  next
    case V: (Inr w)
    then have w: "data w" using assms(8)[of v] by (auto simp: checked_def split: option.splits)
    have "step h (conf bs p vm (s + 1) st') = Running (conf bs (p + 1) vm (s + 1) (st'(s + 1 := w)))"
      using c assms(4) n(2) V by auto
    then have r: "run (n + Suc 0) h (conf bs pos vm s st) = Running (conf bs (p + 1) vm (s + 1) (st'(s + 1 := w)))"
      using run_seq[OF n(1), of "Suc 0"] by (simp only: run_one)
    show ?thesis unfolding Inr V sum.case
      by (rule computes_value[OF r]) (use n(3) w in auto)
  qed
qed

lemma computes_binary:
  assumes l: "computes h bs vm pos p s st r1"
    and r: "\<And>st1. (\<And>j. j \<le> s \<Longrightarrow> st1 j = st j) \<Longrightarrow> computes h bs vm p p' (s + 1) st1 r2"
    and op: "code_at bs p' [op_opcode b]" "-1 \<le> s" "s + 2 < StackSize" "no_handler vm"
  shows "computes h bs vm pos (p' + 1) s st (case r1 of Inl e \<Rightarrow> Inl e | Inr u \<Rightarrow>
      (case r2 of Inl e \<Rightarrow> Inl e | Inr v \<Rightarrow> checked (the (binary_op (host_of h vm) (op_opcode b) u v))))"
proof (cases r1)
  case (Inl e)
  then show ?thesis using l by (simp add: computes_def)
next
  case R1: (Inr u)
  obtain n st1 where n: "run n h (conf bs pos vm s st) = Running (conf bs p vm (s + 1) st1)" "st1 (s + 1) = u"
      "\<And>j. j \<le> s \<Longrightarrow> st1 j = st j" "data u"
    using computes_run l R1 by blast
  note right = r[OF n(3)]
  show ?thesis
  proof (cases r2)
    case (Inl e)
    then obtain m vm' where "run m h (conf bs p vm (s + 1) st1) = Failed e vm'" using right by (auto simp: computes_def)
    then show ?thesis using computes_fails[OF n(1)] R1 Inl by simp
  next
    case R2: (Inr v)
    obtain m st2 where m: "run m h (conf bs p vm (s + 1) st1) = Running (conf bs p' vm (s + 1 + 1) st2)" "st2 (s + 1 + 1) = v"
        "\<And>j. j \<le> s + 1 \<Longrightarrow> st2 j = st1 j" "data v"
      using computes_run right R2 by blast
    have 2: "s + 1 + 1 = s + 2" and 3: "s + 2 - 1 = s + 1" by simp_all
    note m' = m[unfolded 2]
    obtain q where q: "binary_op (host_of h vm) (op_opcode b) u v = Some q" using binary_total by blast
    have st2: "st2 (s + 1) = u" using m(3) n(2) by simp
    have c: "case checked q of
      Inr v \<Rightarrow> step h (conf bs p' vm (s + 2) st2) = Running (conf bs (p' + 1) vm (s + 1) (st2(s + 1 := v)))
    | Inl e \<Rightarrow> \<exists>vm'. step h (conf bs p' vm (s + 2) st2) = Failed e vm'"
      by (rule step_binary[OF op(1), of "s + 2" st2 h vm q, unfolded 3]) (use op(2-4) st2 m'(2,4) n(4) q in simp_all)
    note nm = run_seq[OF n(1) m'(1)]
    show ?thesis
    proof (cases "checked q")
      case E: (Inl e)
      then obtain vm' where "step h (conf bs p' vm (s + 2) st2) = Failed e vm'" using c by auto
      then show ?thesis using computes_fails[OF nm, of "Suc 0"] E R1 R2 q by (simp add: run_one)
    next
      case V: (Inr w)
      have w: "data w" using binary_data[OF q] V by (auto simp: checked_def split: option.splits)
      have "step h (conf bs p' vm (s + 2) st2) = Running (conf bs (p' + 1) vm (s + 1) (st2(s + 1 := w)))"
        using c V by simp
      then have r': "run (n + m + Suc 0) h (conf bs pos vm s st) = Running (conf bs (p' + 1) vm (s + 1) (st2(s + 1 := w)))"
        using run_seq[OF nm, of "Suc 0"] by (simp only: run_one)
      show ?thesis unfolding R1 R2 sum.case q option.sel V
        by (rule computes_value[OF r']) (use m(3) n(3) w in auto)
    qed
  qed
qed

text \<open>The constants at the end of a short-circuit operator.\<close>

lemma computes_const:
  assumes "code_at bs pos (OpConstant # be16 i)" "holds_pool vm p" "i < length (c_constants p)" "c_constants p ! i = v"
    "data v" "-1 \<le> s" "s + 1 < StackSize"
  shows "computes h bs vm pos (pos + 3) s st (Inr v)"
proof -
  have "step h (conf bs pos vm s st) = Running (conf bs (pos + 3) vm (s + 1) (st(s + 1 := v)))"
    using step_const[OF assms(1)] holds_constant[OF assms(2,3)] assms(4,6,7) by simp
  then have "run (Suc 0) h (conf bs pos vm s st) = Running (conf bs (pos + 3) vm (s + 1) (st(s + 1 := v)))"
    by (simp only: run_one)
  then show ?thesis by (rule computes_value) (use assms(5) in auto)
qed

lemma computes_step:
  assumes "step h (conf bs pos vm s st) = Running (conf bs pos1 vm s st1)" "\<And>j. j \<le> s \<Longrightarrow> st1 j = st j"
    "computes h bs vm pos1 pos' s st1 r"
  shows "computes h bs vm pos pos' s st r"
  by (rule computes_after[where m = "Suc 0"]) (use assms in \<open>simp_all only: run_one\<close>)

text \<open>A value is computed, then tested and popped by a conditional jump.\<close>

lemma computes_test:
  assumes l: "computes h bs vm pos q s st (Inr u)" and J: "code_at bs q (stop_jump op # be32 t)" "t < 4294967296"
    and s: "-1 \<le> s" "s + 1 < StackSize"
    and k: "\<And>st1. (\<And>j. j \<le> s \<Longrightarrow> st1 j = st j) \<Longrightarrow>
      computes h bs vm (if isTruthy u = stop_value op then t else q + 5) pos' s st1 r"
  shows "computes h bs vm pos pos' s st r"
proof -
  obtain n st1 where n: "run n h (conf bs pos vm s st) = Running (conf bs q vm (s + 1) st1)" "st1 (s + 1) = u"
      "\<And>j. j \<le> s \<Longrightarrow> st1 j = st j"
    using computes_run[OF l] by metis
  have 1: "s + 1 - 1 = s" by simp
  have "step h (conf bs q vm (s + 1) st1)
      = Running (conf bs (if isTruthy u = stop_value op then t else q + 5) vm s st1)"
    using step_stop_jump[OF J, of "s + 1" h vm st1, unfolded 1 n(2)] s by simp
  then have "run (n + Suc 0) h (conf bs pos vm s st)
      = Running (conf bs (if isTruthy u = stop_value op then t else q + 5) vm s st1)"
    using run_seq[OF n(1), of "Suc 0"] by (simp only: run_one)
  then show ?thesis by (rule computes_after[OF _ n(3) k[OF n(3)]])
qed

lemma computes_short:
  assumes l: "computes h bs vm pos p s st r1"
    and r: "\<And>st1. (\<And>j. j \<le> s \<Longrightarrow> st1 j = st j) \<Longrightarrow> computes h bs vm (p + 5) q s st1 r2"
    and c: "code_at bs p (stop_jump op # be32 early)" "code_at bs q (stop_jump op # be32 early)"
      "code_at bs (q + 5) (OpConstant # be16 i)" "code_at bs (q + 8) (OpJump # be32 (early + 3))"
      "code_at bs early (OpConstant # be16 j)" "early + 3 < 4294967296"
    and k: "holds_pool vm pl" "i < length (c_constants pl)" "c_constants pl ! i = NewBool (\<not> stop_value op)"
      "j < length (c_constants pl)" "c_constants pl ! j = NewBool (stop_value op)"
    and s: "-1 \<le> s" "s + 1 < StackSize"
  shows "computes h bs vm pos (early + 3) s st (case r1 of Inl e \<Rightarrow> Inl e | Inr u \<Rightarrow>
      (if isTruthy u = stop_value op then Inr (NewBool (stop_value op))
       else (case r2 of Inl e \<Rightarrow> Inl e | Inr v \<Rightarrow> Inr (NewBool (isTruthy v)))))"
proof (cases r1)
  case (Inl e)
  then show ?thesis using l by (simp add: computes_def)
next
  case R1: (Inr u)
  have t: "early < 4294967296" using c(6) by simp
  have stop: "computes h bs vm early (early + 3) s st1 (Inr (NewBool (stop_value op)))" for st1
    by (rule computes_const[OF c(5) k(1,4,5) _ s]) simp
  have go: "computes h bs vm (q + 5) (early + 3) s st1 (Inr (NewBool (\<not> stop_value op)))" for st1
  proof -
    have cc: "computes h bs vm (q + 5) (q + 5 + 3) s st1 (Inr (NewBool (\<not> stop_value op)))"
      by (rule computes_const[OF c(3) k(1-3) _ s]) simp
    obtain n st2 where n: "run n h (conf bs (q + 5) vm s st1) = Running (conf bs (q + 5 + 3) vm (s + 1) st2)"
        "st2 (s + 1) = NewBool (\<not> stop_value op)" "\<And>j. j \<le> s \<Longrightarrow> st2 j = st1 j"
      using computes_run[OF cc] by metis
    have 8: "q + 5 + 3 = q + 8" by simp
    have "step h (conf bs (q + 8) vm (s + 1) st2) = Running (conf bs (early + 3) vm (s + 1) st2)"
      by (rule step_jump[OF c(4,6)])
    then have "run (n + Suc 0) h (conf bs (q + 5) vm s st1) = Running (conf bs (early + 3) vm (s + 1) st2)"
      using run_seq[OF n(1)[unfolded 8], of "Suc 0"] by (simp only: run_one)
    then show ?thesis by (rule computes_value) (use n in auto)
  qed
  show ?thesis
  proof (rule computes_test[OF l[unfolded R1] c(1) t s])
    fix st1
    assume st1: "\<And>j. j \<le> s \<Longrightarrow> st1 j = st j"
    show "computes h bs vm (if isTruthy u = stop_value op then early else p + 5) (early + 3) s st1
        (case r1 of Inl e \<Rightarrow> Inl e | Inr u \<Rightarrow>
      (if isTruthy u = stop_value op then Inr (NewBool (stop_value op))
       else (case r2 of Inl e \<Rightarrow> Inl e | Inr v \<Rightarrow> Inr (NewBool (isTruthy v)))))"
    proof (cases "isTruthy u = stop_value op \<or> (\<exists>e. r2 = Inl e)")
      case True
      then show ?thesis using R1 stop r[OF st1] by (auto intro: computes_error)
    next
      case False
      then obtain v where R2: "r2 = Inr v" by (cases r2) auto
      have "computes h bs vm (p + 5) (early + 3) s st1 (Inr (NewBool (isTruthy v)))"
      proof (rule computes_test[OF r[OF st1, unfolded R2] c(2) t s])
        fix st2
        show "computes h bs vm (if isTruthy v = stop_value op then early else q + 5) (early + 3) s st2
            (Inr (NewBool (isTruthy v)))"
          using stop[of st2] go[of st2] by (cases "isTruthy v"; cases "stop_value op") simp_all
      qed
      then show ?thesis using False R1 R2 by simp
    qed
  qed
qed

text \<open>What the machine must have in place for an expression: its constants, its variables, room on the stack, and no
  handler that would swallow an error.\<close>

definition ready :: "VM \<Rightarrow> (string \<Rightarrow> Value) \<Rightarrow> (string \<Rightarrow> OpCode \<times> nat) \<Rightarrow> expr \<Rightarrow> int \<Rightarrow> (int \<Rightarrow> Value) \<Rightarrow> bool" where
  "ready vm \<sigma> slot e s st \<longleftrightarrow> (\<forall>x \<in> vars e. var_ok vm \<sigma> slot x) \<and> no_handler vm
     \<and> vm_sp vm \<le> s \<and> -1 \<le> s \<and> s + int (depth e) < StackSize \<and> (\<forall>j \<le> vm_sp vm. st j = vm_stack vm j)"

lemma depth_pos: "1 \<le> depth e"
  by (induction e) auto

lemma ready_room: "ready vm \<sigma> slot e s st \<Longrightarrow> s + 1 < StackSize"
  using depth_pos[of e] by (auto simp: ready_def)

lemma length_bes: "length (be16 n) = 2" "length (be32 n) = 4"
  by (simp_all add: be16_def be32_def)

lemma gen_computes:
  assumes "gen slot e pos p = (frag, p')" "code_at bs pos frag" "pos + length frag < 4294967296" "pool_ok p"
    "holds_pool vm p'" "ready vm \<sigma> slot e s st"
  shows "computes h bs vm pos (pos + length frag) s st (eval (host_of h vm) \<sigma> e)"
  using assms
proof (induction e arbitrary: pos p frag p' s st)
  case (Lit l)
  obtain i where i: "addConstant (lit_value l) p = (i, p')" "frag = OpConstant # be16 i"
    using Lit.prems(1) by (auto split: prod.splits)
  note a = add_constant_found[OF i(1) Lit.prems(4) lit_strings]
  have "computes h bs vm pos (pos + 3) s st (Inr (lit_value l))"
    by (rule computes_const[OF _ Lit.prems(5) a(2,3) data_lit])
       (use Lit.prems(2,6) i(2) ready_room in \<open>auto simp: ready_def\<close>)
  then show ?case by (simp add: i(2) length_bes numeral_3_eq_3)
next
  case (Var x)
  have frag: "frag = fst (slot x) # be16 (snd (slot x)) @ [OpCoerceToValue]" using Var.prems(1) by simp
  have ok: "var_ok vm \<sigma> slot x" "-1 \<le> s" "s + 1 < StackSize" "vm_sp vm \<le> s" "\<And>j. j \<le> vm_sp vm \<Longrightarrow> st j = vm_stack vm j"
    using Var.prems(6) ready_room by (auto simp: ready_def)
  have d: "data (\<sigma> x)" using ok(1) by (auto simp: var_ok_def)
  have c: "code_at bs pos (fst (slot x) # be16 (snd (slot x)))" "code_at bs (pos + 3) [OpCoerceToValue]"
    using Var.prems(2) unfolding frag by (simp_all add: length_bes numeral_3_eq_3)
  have 1: "step h (conf bs pos vm s st) = Running (conf bs (pos + 3) vm (s + 1) (st(s + 1 := \<sigma> x)))"
    by (rule step_load[OF ok(1) c(1) ok(2-5)])
  have "step h (conf bs (pos + 3) vm (s + 1) (st(s + 1 := \<sigma> x)))
      = Running (conf bs (pos + 3 + 1) vm (s + 1) (st(s + 1 := \<sigma> x)))"
    by (rule step_coerce[OF c(2)]) (use d ok in simp_all)
  then have "run (Suc 0 + Suc 0) h (conf bs pos vm s st) = Running (conf bs (pos + 3 + 1) vm (s + 1) (st(s + 1 := \<sigma> x)))"
    by (intro run_seq[of "Suc 0"]) (simp_all only: run_one 1)
  then have "computes h bs vm pos (pos + 3 + 1) s st (Inr (\<sigma> x))"
    by (rule computes_value) (use d in auto)
  moreover have e: "pos + 3 + 1 = pos + length frag" by (simp add: frag length_bes)
  ultimately show ?case by (simp only: e eval.simps)
next
  case (Neg e)
  obtain f where f: "gen slot e pos p = (f, p')" "frag = f @ [OpNeg]" using Neg.prems(1) by (auto split: prod.splits)
  have "computes h bs vm pos (pos + length f) s st (eval (host_of h vm) \<sigma> e)"
    by (rule Neg.IH[OF f(1)]) (use Neg.prems f(2) in \<open>auto simp: ready_def\<close>)
  then have "computes h bs vm pos (pos + length f + 1) s st
      (case eval (host_of h vm) \<sigma> e of Inl x \<Rightarrow> Inl x | Inr v \<Rightarrow> checked (neg_value (host_of h vm) v))"
    by (rule computes_unary[where op = OpNeg and f = neg_value, OF _ _ exec_more(1)])
       (use Neg.prems(2,6) f(2) ready_room[OF Neg.prems(6)] in \<open>auto simp: ready_def unary_arg_slot unary_data\<close>)
  then show ?case by (simp add: f(2))
next
  case (Not e)
  obtain f where f: "gen slot e pos p = (f, p')" "frag = f @ [OpNot]" using Not.prems(1) by (auto split: prod.splits)
  have "computes h bs vm pos (pos + length f) s st (eval (host_of h vm) \<sigma> e)"
    by (rule Not.IH[OF f(1)]) (use Not.prems f(2) in \<open>auto simp: ready_def\<close>)
  then have "computes h bs vm pos (pos + length f + 1) s st
      (case eval (host_of h vm) \<sigma> e of Inl x \<Rightarrow> Inl x | Inr v \<Rightarrow> checked (not_value (host_of h vm) v))"
    by (rule computes_unary[where op = OpNot and f = not_value, OF _ _ exec_more(2)])
       (use Not.prems(2,6) f(2) ready_room[OF Not.prems(6)] in \<open>auto simp: ready_def unary_arg_slot unary_data\<close>)
  then show ?case by (simp add: f(2))
next
  case (Bin b l r)
  obtain fl p1 where l: "gen slot l pos p = (fl, p1)" by fastforce
  obtain fr where r: "gen slot r (pos + length fl) p1 = (fr, p')" "frag = fl @ fr @ [op_opcode b]"
    using Bin.prems(1) l by (auto split: prod.splits)
  have p1: "pool_ok p1" "holds_pool vm p1"
    using gen_grows[OF l Bin.prems(4)] holds_earlier[OF Bin.prems(5)] gen_grows[OF r(1)] by blast+
  have "computes h bs vm pos (pos + length fl + length fr + 1) s st (eval (host_of h vm) \<sigma> (Bin b l r))"
    unfolding eval.simps
  proof (rule computes_binary)
    show "computes h bs vm pos (pos + length fl) s st (eval (host_of h vm) \<sigma> l)"
      by (rule Bin.IH(1)[OF l]) (use Bin.prems r(2) p1 in \<open>auto simp: ready_def\<close>)
    show "computes h bs vm (pos + length fl) (pos + length fl + length fr) (s + 1) st1 (eval (host_of h vm) \<sigma> r)"
      if "\<And>j. j \<le> s \<Longrightarrow> st1 j = st j" for st1
      by (rule Bin.IH(2)[OF r(1)]) (use Bin.prems r(2) p1 that in \<open>auto simp: ready_def\<close>)
    show "code_at bs (pos + length fl + length fr) [op_opcode b]"
      using Bin.prems(2) r(2) by (simp add: add.assoc)
    show "-1 \<le> s" "no_handler vm" using Bin.prems(6) by (auto simp: ready_def)
    show "s + 2 < StackSize" using Bin.prems(6) depth_pos[of r] by (auto simp: ready_def)
  qed
  then show ?case by (simp add: r(2) add.assoc)
next
  case (Short op l r)
  obtain fl p1 where l: "gen slot l pos p = (fl, p1)" by fastforce
  obtain fr p2 where r: "gen slot r (pos + length fl + 5) p1 = (fr, p2)" by fastforce
  obtain i p3 where i: "addConstant (NewBool (\<not> stop_value op)) p2 = (i, p3)" by fastforce
  obtain j p4 where j: "addConstant (NewBool (stop_value op)) p3 = (j, p4)" by fastforce
  define q where "q = pos + length fl + 5 + length fr"
  have frag: "frag = fl @ (stop_jump op # be32 (q + 13)) @ fr @ (stop_jump op # be32 (q + 13))
      @ (OpConstant # be16 i) @ (OpJump # be32 (q + 16)) @ (OpConstant # be16 j)" "p4 = p'"
    using Short.prems(1) l r i j by (simp_all add: Let_def q_def)
  have codes: "code_at bs pos fl" "code_at bs (pos + length fl) (stop_jump op # be32 (q + 13))" "code_at bs (pos + length fl + 5) fr"
    "code_at bs q (stop_jump op # be32 (q + 13))" "code_at bs (q + 5) (OpConstant # be16 i)"
    "code_at bs (q + 8) (OpJump # be32 (q + 13 + 3))" "code_at bs (q + 13) (OpConstant # be16 j)"
    using Short.prems(2) unfolding frag(1) by (simp_all add: length_bes q_def ac_simps)
  have fits: "q + 13 + 3 < 4294967296" "pos + length frag = q + 13 + 3"
    using Short.prems(3) unfolding frag(1) q_def by (simp_all add: length_bes)
  have p1: "pool_ok p1" using gen_grows[OF l Short.prems(4)] by blast
  have p2: "pool_ok p2" using gen_grows[OF r p1] by blast
  note a3 = add_constant_found[OF i p2] and a4 = add_constant_found[OF j add_constant_found(1)[OF i p2]]
  have h4: "holds_pool vm p4" using Short.prems(5) frag(2) by simp
  have h3: "holds_pool vm p3" using holds_earlier[OF h4] a4(4) by auto
  have h2: "holds_pool vm p2" using holds_earlier[OF h3] a3(4) by auto
  have h1: "holds_pool vm p1" using holds_earlier[OF h2] gen_grows[OF r p1] by blast
  have i4: "i < length (c_constants p4)" "c_constants p4 ! i = NewBool (\<not> stop_value op)"
    using a3(2,3) a4(4) by (auto simp: nth_append)
  have "computes h bs vm pos (q + 13 + 3) s st (eval (host_of h vm) \<sigma> (Short op l r))"
    unfolding eval.simps
  proof (rule computes_short)
    show "computes h bs vm pos (pos + length fl) s st (eval (host_of h vm) \<sigma> l)"
      by (rule Short.IH(1)[OF l codes(1)]) (use Short.prems(4,6) fits(1) p1 h1 in \<open>auto simp: ready_def q_def\<close>)
    show "computes h bs vm (pos + length fl + 5) q s st1 (eval (host_of h vm) \<sigma> r)"
      if "\<And>j. j \<le> s \<Longrightarrow> st1 j = st j" for st1
      unfolding q_def
      by (rule Short.IH(2)[OF r codes(3)]) (use Short.prems(6) fits(1) p1 h2 that in \<open>auto simp: ready_def q_def\<close>)
    show "q + 13 + 3 < 4294967296" by (rule fits(1))
    show "holds_pool vm p4" "i < length (c_constants p4)" "c_constants p4 ! i = NewBool (\<not> stop_value op)"
      by (rule h4 i4)+
    show "j < length (c_constants p4)" "c_constants p4 ! j = NewBool (stop_value op)"
      using a4(2,3) by auto
    show "-1 \<le> s" using Short.prems(6) by (simp add: ready_def)
    show "s + 1 < StackSize" by (rule ready_room[OF Short.prems(6)])
  qed (use codes in auto)
  then show ?case by (simp only: fits(2))
qed

end
