(* ===== verification/ExprSound.thy ===== *)
theory ExprSound
  imports CompParse ExprRun
begin

text \<open>
  Compiler and machine together: what the expression compiler makes of a printed expression, executed by the machine,
  is the value of the expression.
\<close>

text \<open>
  C2. Compiling a printed expression and running the code gives the value of the expression. When \<open>parseExpression\<close> has
  compiled the tokens of an expression, then the machine at the start of that code reaches its end with the value of
  the expression (\<open>eval\<close>) on top of the stack and the stack below it unchanged, or it stops with the error of the
  first operator that fails. The machine has the constants of the compiler, the values of the variables in their slots, room
  for the operands (\<open>depth\<close>) and no error handler; indices fit into 16 bits and positions into 32 bits.
\<close>

theorem compiled_expressions_compute:
  assumes "ahead E (print_expr 0 e @ k # ks) c" "plain_token k" "getPrecedence (Some k) = 0" "weight e < n"
    "\<And>x. x \<in> vars e \<Longrightarrow> slot_of E c x = Some (slot x)" "pool_ok (pool c)"
    "parseExpression (Suc n) E date PrecNone c = Done () c'"
    "vm_constants vm = c_constants c' @ others" "length (c_constants c') \<le> 65536" "length (c_bytecode c') < 4294967296"
    "ready vm \<sigma> slot e (vm_sp vm) (vm_stack vm)"
  shows "computes h (c_bytecode c' @ rest) vm (length (c_bytecode c)) (length (c_bytecode c')) (vm_sp vm) (vm_stack vm)
    (eval (host_of h vm) \<sigma> e)"
proof -
  obtain frag p' where g: "gen slot e (length (c_bytecode c)) (pool c) = (frag, p')" by fastforce
  have c': "grown c frag p' c'"
    using printed_compiles[OF assms(1-5)] assms(7) g by (metis fst_conv snd_conv parsed.inject(1))
  have bs: "c_bytecode c' = c_bytecode c @ frag" "c_constants p' = c_constants c'"
    using c' by (auto simp: grown_def pool_def)
  have "computes h (c_bytecode c @ frag @ rest) vm (length (c_bytecode c)) (length (c_bytecode c) + length frag)
      (vm_sp vm) (vm_stack vm) (eval (host_of h vm) \<sigma> e)"
    by (rule gen_computes[OF g code_at_here _ assms(6) _ assms(11)]) (use assms(8-10) bs in \<open>simp_all add: holds_pool_def\<close>)
  then show ?thesis by (simp add: bs(1))
qed

definition demo_vm :: VM where
  "demo_vm = (NewVM 0 [] [] [NewString []] 1)\<lparr>vm_Globals := [NewInteger 3]\<rparr>"

definition no_constants :: Code where
  "no_constants = \<lparr>c_bytecode = [], c_constants = [], c_constantMap = (\<lambda>_. None)\<rparr>"

definition one_constant :: Code where
  "one_constant = \<lparr>c_bytecode = [], c_constants = [NewString []], c_constantMap = (\<lambda>_. None)([] \<mapsto> 0)\<rparr>"

lemma demo_constants:
  "addConstant (NewString []) no_constants = (0, one_constant)" "addConstant (NewString []) one_constant = (0, one_constant)"
  by (simp_all add: addConstant_def no_constants_def one_constant_def Let_def)

lemma demo_gen: "gen (\<lambda>_. (OpGetGlobal, 0)) demo_expr 0 no_constants =
   ([OpGetGlobal, 0, 0, OpCoerceToValue, OpConstant, 0, 0, OpConstant, 0, 0, OpConcat, OpNeg, OpPow], one_constant)"
  by (simp add: demo_expr_def demo_constants be16_def)

theorem compiled_expressions_compute_witness:
  "\<forall>h. \<exists>c'. parseExpression 40 ascii_env (\<lambda>_. NewEmpty) PrecNone demo_front = Done () c' \<and>
     computes h (c_bytecode c') demo_vm 0 (length (c_bytecode c')) (-1) (vm_stack demo_vm)
       (eval (host_of h demo_vm) (\<lambda>_. NewInteger 3) demo_expr)"
proof
  fix h
  let ?slot = "\<lambda>_::string. (OpGetGlobal, 0::nat)"
  have w: "weight demo_expr < 39" and x: "\<And>x. x \<in> vars demo_expr \<Longrightarrow> slot_of ascii_env demo_front x = Some (?slot x)"
    using demo_slot by (auto simp: demo_expr_def)
  have f: "c_bytecode demo_front = []" "pool demo_front = no_constants"
    by (simp_all add: no_constants_def demo_front_def predeclare_def empty_front_def pool_def)
  have p: "pool_ok (pool demo_front)" by (simp add: f pool_ok_def no_constants_def)
  obtain c' where c': "parseExpression (Suc 39) ascii_env (\<lambda>_. NewEmpty) PrecNone demo_front = Done () c'"
      "grown demo_front (fst (gen ?slot demo_expr (length (c_bytecode demo_front)) (pool demo_front)))
         (snd (gen ?slot demo_expr (length (c_bytecode demo_front)) (pool demo_front))) c'"
    using printed_compiles[OF demo_ahead demo_follow w x] by metis
  have g: "grown demo_front [OpGetGlobal, 0, 0, OpCoerceToValue, OpConstant, 0, 0, OpConstant, 0, 0, OpConcat, OpNeg, OpPow]
      one_constant c'"
    using c'(2) by (simp only: f list.size demo_gen fst_conv snd_conv)
  have bs: "length (c_bytecode c') = 13" "c_constants c' = [NewString []]"
    using g grown_pool[OF g] pool_def[of c'] by (auto simp: grown_def f one_constant_def)
  have v: "vm_constants demo_vm = [NewString []]" "vm_sp demo_vm = -1" by (simp_all add: demo_vm_def NewVM_def)
  have r: "ready demo_vm (\<lambda>_. NewInteger 3) ?slot demo_expr (vm_sp demo_vm) (vm_stack demo_vm)"
    by (simp add: ready_def demo_vm_def NewVM_def demo_expr_def no_handler_def StackSize_def var_ok_def load_global_def
        with_class_def)
  have "computes h (c_bytecode c' @ []) demo_vm (length (c_bytecode demo_front)) (length (c_bytecode c')) (vm_sp demo_vm)
      (vm_stack demo_vm) (eval (host_of h demo_vm) (\<lambda>_. NewInteger 3) demo_expr)"
    by (rule compiled_expressions_compute[OF demo_ahead demo_follow w x p c'(1), where others = "[]"])
       (use bs v r in simp_all)
  then show "\<exists>c'. parseExpression 40 ascii_env (\<lambda>_. NewEmpty) PrecNone demo_front = Done () c' \<and>
     computes h (c_bytecode c') demo_vm 0 (length (c_bytecode c')) (-1) (vm_stack demo_vm)
       (eval (host_of h demo_vm) (\<lambda>_. NewInteger 3) demo_expr)"
    using c'(1) f(1) v(2) by (intro exI[of _ c']) (simp del: parseExpression.simps)
qed

end
