(* ===== verification/Spec2Isabelle.thy ===== *)
theory Spec2Isabelle
  imports Relocate VBErrors Fold OptTotal OptSound Calls Application SessionStore LexerLiterals ResponseLaws ArrayLaws DictLaws
    TypedStores ExprSound
begin

text \<open>
  AxonASP, an engine that runs Classic ASP pages. A page is scanned and parsed (\<open>vbscript\<close>), compiled to
  bytecode, the bytecode is optimized, linked into a running machine and executed by a stack machine
  (\<open>axonvm\<close>); the pages of a site share the \<open>Application\<close> and \<open>Session\<close> objects (\<open>axonvm/asp\<close>).

  Foundations:

    \<^item> \<open>Prelude\<close>: type synonyms, checked slice access, big-endian reads and writes.
    \<^item> \<open>GoFloat\<close>, \<open>GoStrings\<close>, \<open>LexText\<close>: what the code uses of Go's \<open>float64\<close>, \<open>strings\<close>, \<open>strconv\<close> and runes.

  The lexer (\<open>vbscript/lexer.go\<close>, \<open>lexerutils.go\<close>, \<open>charutils.go\<close>, \<open>token.go\<close>, \<open>tokentype.go\<close>):

    \<^item> \<open>Tokens\<close>: keywords, punctuation, token types, the two keyword tables.
    \<^item> \<open>LexerBase\<close> (state, source access, syntax errors), \<open>LexerVB\<close> (VBScript), \<open>LexerASP\<close> (pages outside code
      blocks), \<open>VBLexer\<close> (\<open>NextToken\<close>). A \<open>panic\<close> with a syntax error is \<open>Inl\<close>.
    \<^item> \<open>LexerLaws\<close>: every scanning function moves forward inside the source, so \<open>AsSequence\<close> terminates.
      \<open>LexerLiterals\<close>: what string and integer literals denote.

  Bytecode and machine:

    \<^item> \<open>Opcodes\<close> (\<open>axonvm/opcode.go\<close>): the opcodes and their names.
    \<^item> \<open>Bytecode\<close> (\<open>opcodeOperandSize\<close> in \<open>axonvm/vm.go\<close>, \<open>collectJumpTargets\<close> in
      \<open>axonvm/compiler_optimizer.go\<close>): operand sizes, the walk over instructions, jump targets.
    \<^item> \<open>Relocate\<close> (\<open>remapExecuteGlobalBytecode\<close>): relocation of a dynamically compiled fragment.
    \<^item> \<open>VBErrors\<close> (\<open>vbscript/vberrorcodes.go\<close>, \<open>vberror_helpers.go\<close>): error codes, messages, HRESULTs.
    \<^item> \<open>Values\<close> (\<open>axonvm/value.go\<close>), \<open>UserSubs\<close>: the tagged value and the packed procedure descriptor.
    \<^item> \<open>ValueOps\<close> (\<open>axonvm/vm_value_ops.go\<close> and the coercions of \<open>vm.go\<close> and \<open>builtins.go\<close>): the operators.
      What lies outside the model (objects, builtin calls, dates) is the argument \<open>host\<close>.
    \<^item> \<open>Fold\<close>, \<open>Optimizer\<close>, \<open>OptLaws\<close>, \<open>OptTotal\<close> (\<open>axonvm/compiler_optimizer.go\<close>): constant folding,
      the eight peephole passes, the driver, and the laws every pass obeys. The passes run with fuel: the length
      of the bytecode, which \<open>passes_return\<close> shows to be enough. \<open>OptSound\<close>: the machine runs a fused branch as
      it runs the two instructions it replaces.
    \<^item> \<open>ObjectRefs\<close> (\<open>incrementObjectRefCount\<close>, \<open>decrementObjectRefCountEx\<close>): class instances and
      their reference counts.
    \<^item> \<open>Arrays\<close>, \<open>ArrayLaws\<close> (\<open>axonvm/array_bridge.go\<close>, the array builtins of \<open>builtins.go\<close>, element access and
      Erase in \<open>vm.go\<close>): a heap of arrays whose slices can share storage; what Dim and ReDim Preserve keep. Copies of
      nested values run with fuel, one unit for each level of nesting.
    \<^item> \<open>Machine\<close>, \<open>MachineLaws\<close>, \<open>Calls\<close> (\<open>VM.Run\<close>, \<open>beginUserSubCall\<close>, \<open>raiseVMError\<close>): the machine,
      its invariant, procedure calls and returns. A Go panic is \<open>None\<close>; an instruction outside the model ends in
      the outcome \<open>Beyond\<close>.

    \<^item> \<open>TypedStores\<close>: which instructions keep the declared types of the globals, and what those that do not lose.

  The expression compiler (\<open>axonvm/compiler.go\<close>, \<open>compiler_expr.go\<close>, with the jump patching of \<open>compiler_stmt.go\<close> and
  helpers of \<open>compiler_stmt_parser.go\<close>). It reads tokens from the lexer and emits bytecode while it parses:

    \<^item> \<open>CompState\<close>: the compiler record, symbol tables, resolution of names, code emission, errors. A computation on the
      compiler returns (\<open>Done\<close>), panics (\<open>Panic\<close>) or has no fuel left (\<open>NoFuel\<close>).
    \<^item> \<open>CompExpr\<close>: the Pratt parser \<open>parseExpression\<close> with its prefix and infix rules, calls, member access, inlined Eval.
      Its recursion is bounded by fuel, since an inlined Eval can recurse without end.
    \<^item> \<open>ExprCode\<close>: expression trees with their printed tokens, their code (\<open>gen\<close>) and their value (\<open>eval\<close>).
    \<^item> \<open>CompLaws\<close>, \<open>CompParse\<close>: the compiler reads a printed tree back and emits \<open>gen\<close>; the fuel \<open>weight\<close> is enough.
    \<^item> \<open>ExprRun\<close>, \<open>ExprSound\<close>: the machine on \<open>gen\<close> computes \<open>eval\<close>, so compiling and running an expression gives its
      value or its first error.

  Shared state of the pages:

    \<^item> \<open>AppValues\<close>, \<open>Application\<close> (\<open>asp/application.go\<close>): stored values, the tables behind the locale
      \<open>keyed_store\<close>, the lock of the page requests as a step relation. The locale \<open>nested_lock\<close> states the
      contract of a nested lock and is interpreted on the Application and on the session.
    \<^item> \<open>SessionCodec\<close>, \<open>Session\<close>, \<open>SessionStore\<close> (\<open>asp/session.go\<close>): the bytes of values and maps, a session and
      its file, the registry, the flush at shutdown and concurrent savers. \<open>de_value\<close> has the number of bytes plus
      one as its bound, since every nested value consumes a byte; versions are assumed to stay below 2^64 changes.

  The objects of a page (\<open>axonvm/asp\<close>):

    \<^item> \<open>GoText\<close>: splitting, percent encoding, header keys and \<open>path/filepath\<close>, with their laws.
    \<^item> \<open>AspServer\<close> (\<open>server.go\<close>, \<open>asperror.go\<close>): the Server object, the mapping of virtual paths, ASP errors.
    \<^item> \<open>AspRequest\<close> (\<open>request.go\<close>): the collections, the payload that is parsed on demand, the choice between
      form and body.
    \<^item> \<open>AspResponse\<close> (\<open>response.go\<close>): buffer, headers, cookies and what is sent to the client. \<open>ResponseLaws\<close>: the
      object refines a \<open>page\<close> with sent and pending text.

    \<^item> \<open>Containers\<close> (\<open>lib_scripting_dictionary.go\<close>, \<open>lib_collection.go\<close>, \<open>lib_g3stringbuilder.go\<close>, For Each in
      \<open>builtins.go\<close>): the container objects of a page. \<open>DictLaws\<close>: a dictionary refines a list of entries; the locale
      \<open>ordered_store\<close> states the order of its keys.

  Not modelled: the parser, the statement compiler and the preprocessing of pages, JScript, the scripting libraries, and
  everything that is only input and output (HTTP servers, files, databases). Instructions that reach them are parameters
  or stop the model. The value of a date literal, which needs the local time zone, and the table of builtin names are
  parameters of the expression compiler; identifiers in brackets do not reach it, because its lexer reads them as plain
  identifiers.
\<close>

end
